(* ===== verification/Prelude.thy ===== *)
theory Prelude
  imports Main "HOL-Library.Word" "HOL-Library.Signed_Division"
begin

text \<open>
  Shared vocabulary of the development: the C++ scalar types the emulator uses
  (\<open>EmTypes.h\<close>), the reading of a buffer through a pointer, and the collections of
  rewrite rules that the component theories fill and use.

  A pointer into a buffer is modelled by the rest of the buffer from that pointer on, so
  that \<open>*s++\<close> is a case distinction on the list. Reading where there is no element is
  undefined behaviour of the C++ and the value \<open>None\<close> of the model. A value that is
  loaded from outside a buffer but never used is a poison value: \<open>None\<close> of type
  \<open>int option\<close>, which makes the model fail only when the code uses it.
\<close>

named_theorems model_defs \<open>definitions of the model that the proofs unfold\<close>
named_theorems len_simps \<open>how the operations of the model change lengths and sizes\<close>

subsection \<open>Scalar types\<close>

text \<open>
  \<open>EmCoord\<close> is \<open>int32\<close>. Coordinates are modelled by mathematical integers: signed
  overflow is undefined in C++, and the runs without overflow are the ones modelled. The
  one place where a difference of coordinates is narrowed (the \<open>int test\<close> of
  \<open>EmRegion::RegionOp\<close>) is modelled with the narrowing, by \<open>c_int\<close>.
\<close>

type_synonym EmCoord = int

definition c_int :: "int \<Rightarrow> int" where
  "c_int d = signed_take_bit 31 d"

definition coord_ok :: "int \<Rightarrow> bool" where
  "coord_ok c \<longleftrightarrow> - (2 ^ 30) \<le> c \<and> c < 2 ^ 30"

lemma c_int_id: "- (2 ^ 31) \<le> d \<Longrightarrow> d < 2 ^ 31 \<Longrightarrow> c_int d = d"
  unfolding c_int_def by (simp add: signed_take_bit_int_eq_self)

lemma c_int_diff:
  assumes "coord_ok a" and "coord_ok b"
  shows "c_int (a - b) = a - b"
  using assms by (intro c_int_id) (auto simp: coord_ok_def)

lemma coord_ok_between: "coord_ok a \<Longrightarrow> coord_ok b \<Longrightarrow> a \<le> c \<Longrightarrow> c \<le> b \<Longrightarrow> coord_ok c"
  by (auto simp: coord_ok_def)

subsection \<open>Reading through a pointer\<close>

definition peek :: "'a list \<Rightarrow> int \<Rightarrow> 'a option" where
  "peek s i = (if 0 \<le> i \<and> nat i < length s then Some (s ! nat i) else None)"

lemma peek_append_left: "0 \<le> i \<Longrightarrow> nat i < length s \<Longrightarrow> peek (s @ t) i = Some (s ! nat i)"
  by (auto simp: peek_def nth_append)

lemma peek_append_right: "0 \<le> i \<Longrightarrow> peek (s @ t) (int (length s) + i) = peek t i"
  by (auto simp: peek_def nth_append nat_add_distrib)

lemma peek_length: "peek s (int (length s)) = None"
  by (simp add: peek_def)

subsection \<open>Strictly increasing lists of integers\<close>

abbreviation incr :: "int list \<Rightarrow> bool" where
  "incr xs \<equiv> sorted_wrt (<) xs"

lemma incr_append_snoc: "incr (xs @ [a]) \<longleftrightarrow> incr xs \<and> (\<forall>x\<in>set xs. x < a)"
  by (auto simp: sorted_wrt_append)

lemma option_case_SomeD: "(case x of None \<Rightarrow> None | Some y \<Rightarrow> f y) = Some z \<Longrightarrow> \<exists>y. x = Some y \<and> f y = Some z"
  by (cases x) auto

end
