(* ===== verification/Geometry.thy ===== *)
theory Geometry
  imports Prelude
begin

text \<open>
  Points and rectangles: \<open>SrcShared/EmPoint.h\<close>, \<open>EmPoint.cpp\<close>, \<open>EmRect.h\<close> and
  \<open>EmRect.cpp\<close>, the templates \<open>EmPointTempl\<close> and \<open>EmRectTempl\<close> at \<open>EmCoord\<close>.
  A method that changes its object returns the changed object; a method with an
  \<open>EmAssert\<close> that can fail returns \<open>None\<close> when it does. Division is C++'s, which
  truncates towards zero (\<open>sdiv\<close>).

  The lemmas read a rectangle as the set of points it contains (half-open in both
  directions) and show which set operation each method performs.
\<close>

section \<open>Points\<close>

record EmPoint =
  fX :: EmCoord
  fY :: EmCoord

definition EmPoint_make :: "EmCoord \<Rightarrow> EmCoord \<Rightarrow> EmPoint" where
  "EmPoint_make x y = \<lparr>fX = x, fY = y\<rparr>"

definition EmPoint_Offset :: "EmPoint \<Rightarrow> EmCoord \<Rightarrow> EmCoord \<Rightarrow> EmPoint" where
  "EmPoint_Offset p x y = p\<lparr>fX := fX p + x, fY := fY p + y\<rparr>"

definition EmPoint_plus :: "EmPoint \<Rightarrow> EmPoint \<Rightarrow> EmPoint" where
  "EmPoint_plus p q = \<lparr>fX = fX p + fX q, fY = fY p + fY q\<rparr>"

definition EmPoint_minus :: "EmPoint \<Rightarrow> EmPoint \<Rightarrow> EmPoint" where
  "EmPoint_minus p q = \<lparr>fX = fX p - fX q, fY = fY p - fY q\<rparr>"

definition EmPoint_uminus :: "EmPoint \<Rightarrow> EmPoint" where
  "EmPoint_uminus p = \<lparr>fX = - fX p, fY = - fY p\<rparr>"

definition EmPoint_plus_assign :: "EmPoint \<Rightarrow> EmPoint \<Rightarrow> EmPoint" where
  "EmPoint_plus_assign p q = p\<lparr>fX := fX p + fX q, fY := fY p + fY q\<rparr>"

definition EmPoint_minus_assign :: "EmPoint \<Rightarrow> EmPoint \<Rightarrow> EmPoint" where
  "EmPoint_minus_assign p q = p\<lparr>fX := fX p - fX q, fY := fY p - fY q\<rparr>"

definition EmPoint_times :: "EmPoint \<Rightarrow> EmPoint \<Rightarrow> EmPoint" where
  "EmPoint_times p q = \<lparr>fX = fX p * fX q, fY = fY p * fY q\<rparr>"

definition EmPoint_divide :: "EmPoint \<Rightarrow> EmPoint \<Rightarrow> EmPoint option" where
  "EmPoint_divide p q =
     (if fX q \<noteq> 0 \<and> fY q \<noteq> 0
      then Some \<lparr>fX = fX p sdiv fX q, fY = fY p sdiv fY q\<rparr> else None)"

definition EmPoint_times_assign :: "EmPoint \<Rightarrow> EmPoint \<Rightarrow> EmPoint" where
  "EmPoint_times_assign p q = p\<lparr>fX := fX p * fX q, fY := fY p * fY q\<rparr>"

definition EmPoint_divide_assign :: "EmPoint \<Rightarrow> EmPoint \<Rightarrow> EmPoint option" where
  "EmPoint_divide_assign p q =
     (if fX q \<noteq> 0 \<and> fY q \<noteq> 0
      then Some (p\<lparr>fX := fX p sdiv fX q, fY := fY p sdiv fY q\<rparr>) else None)"

definition EmPoint_neq :: "EmPoint \<Rightarrow> EmPoint \<Rightarrow> bool" where
  "EmPoint_neq p q \<longleftrightarrow> fX p \<noteq> fX q \<or> fY p \<noteq> fY q"

definition EmPoint_eq :: "EmPoint \<Rightarrow> EmPoint \<Rightarrow> bool" where
  "EmPoint_eq p q \<longleftrightarrow> fX p = fX q \<and> fY p = fY q"

lemmas EmPoint_defs [model_defs] = EmPoint_make_def EmPoint_Offset_def EmPoint_plus_def
  EmPoint_minus_def EmPoint_uminus_def EmPoint_plus_assign_def EmPoint_minus_assign_def
  EmPoint_times_def EmPoint_divide_def EmPoint_times_assign_def EmPoint_divide_assign_def
  EmPoint_neq_def EmPoint_eq_def

lemma EmPoint_eq_iff: "EmPoint_eq p q \<longleftrightarrow> p = q"
  by (auto simp: EmPoint_defs)

lemma EmPoint_neq_iff: "EmPoint_neq p q \<longleftrightarrow> \<not> EmPoint_eq p q"
  by (auto simp: EmPoint_defs)

lemma EmPoint_plus_uminus: "EmPoint_plus p (EmPoint_uminus q) = EmPoint_minus p q"
  by (simp add: EmPoint_defs)

lemma EmPoint_minus_plus: "EmPoint_minus (EmPoint_plus p q) q = p"
  by (simp add: EmPoint_defs)

lemma sdiv_times_self: "b \<noteq> 0 \<Longrightarrow> (a * b) sdiv b = (a :: int)"
proof -
  assume b: "b \<noteq> 0"
  then have "sgn b * sgn b = 1" and "\<bar>a * b\<bar> div \<bar>b\<bar> = \<bar>a\<bar>"
    by (auto simp: sgn_if abs_mult)
  then show ?thesis
    by (metis b mult.assoc mult.commute mult_1 mult_sgn_abs sgn_mult signed_divide_int_def)
qed

lemma EmPoint_divide_times:
  "fX q \<noteq> 0 \<Longrightarrow> fY q \<noteq> 0 \<Longrightarrow> EmPoint_divide (EmPoint_times p q) q = Some p"
  by (simp add: EmPoint_defs sdiv_times_self)

section \<open>Rectangles\<close>

record EmRect =
  fTop :: EmCoord
  fLeft :: EmCoord
  fBottom :: EmCoord
  fRight :: EmCoord

definition EmRect_make :: "EmCoord \<Rightarrow> EmCoord \<Rightarrow> EmCoord \<Rightarrow> EmCoord \<Rightarrow> EmRect" where
  "EmRect_make l t r b = \<lparr>fTop = t, fLeft = l, fBottom = b, fRight = r\<rparr>"

definition EmRect_of_points :: "EmPoint \<Rightarrow> EmPoint \<Rightarrow> EmRect" where
  "EmRect_of_points tlp br = \<lparr>fTop = fY tlp, fLeft = fX tlp, fBottom = fY br, fRight = fX br\<rparr>"

text \<open>A Palm \<open>RectangleType\<close> holds the top left corner and the extent.\<close>

definition EmRect_of_RectangleType :: "EmCoord \<times> EmCoord \<Rightarrow> EmCoord \<times> EmCoord \<Rightarrow> EmRect" where
  "EmRect_of_RectangleType topLeft extent =
     EmRect_make (fst topLeft) (snd topLeft) (fst topLeft + fst extent) (snd topLeft + snd extent)"

definition EmRect_Width :: "EmRect \<Rightarrow> EmCoord" where
  "EmRect_Width r = fRight r - fLeft r"

definition EmRect_Height :: "EmRect \<Rightarrow> EmCoord" where
  "EmRect_Height r = fBottom r - fTop r"

definition EmRect_Size :: "EmRect \<Rightarrow> EmPoint" where
  "EmRect_Size r = EmPoint_make (EmRect_Width r) (EmRect_Height r)"

definition EmRect_TopLeft :: "EmRect \<Rightarrow> EmPoint" where
  "EmRect_TopLeft r = EmPoint_make (fLeft r) (fTop r)"

definition EmRect_TopRight :: "EmRect \<Rightarrow> EmPoint" where
  "EmRect_TopRight r = EmPoint_make (fRight r) (fTop r)"

definition EmRect_BottomLeft :: "EmRect \<Rightarrow> EmPoint" where
  "EmRect_BottomLeft r = EmPoint_make (fLeft r) (fBottom r)"

definition EmRect_BottomRight :: "EmRect \<Rightarrow> EmPoint" where
  "EmRect_BottomRight r = EmPoint_make (fRight r) (fBottom r)"

definition EmRect_North :: "EmRect \<Rightarrow> EmPoint" where
  "EmRect_North r = EmPoint_make ((fLeft r + fRight r) sdiv 2) (fTop r)"

definition EmRect_South :: "EmRect \<Rightarrow> EmPoint" where
  "EmRect_South r = EmPoint_make ((fLeft r + fRight r) sdiv 2) (fBottom r)"

definition EmRect_East :: "EmRect \<Rightarrow> EmPoint" where
  "EmRect_East r = EmPoint_make (fRight r) ((fTop r + fBottom r) sdiv 2)"

definition EmRect_West :: "EmRect \<Rightarrow> EmPoint" where
  "EmRect_West r = EmPoint_make (fLeft r) ((fTop r + fBottom r) sdiv 2)"

definition EmRect_Center :: "EmRect \<Rightarrow> EmPoint" where
  "EmRect_Center r = EmPoint_make ((fLeft r + fRight r) sdiv 2) ((fTop r + fBottom r) sdiv 2)"

definition EmRect_IsEmpty :: "EmRect \<Rightarrow> bool" where
  "EmRect_IsEmpty r \<longleftrightarrow> fRight r \<le> fLeft r \<or> fBottom r \<le> fTop r"

definition EmRect_IsNull :: "EmRect \<Rightarrow> bool" where
  "EmRect_IsNull r \<longleftrightarrow> fTop r = 0 \<and> fLeft r = 0 \<and> fBottom r = 0 \<and> fRight r = 0"

definition EmRect_IsEqual :: "EmRect \<Rightarrow> EmRect \<Rightarrow> bool" where
  "EmRect_IsEqual r other \<longleftrightarrow> fTop r = fTop other \<and> fLeft r = fLeft other \<and>
     fBottom r = fBottom other \<and> fRight r = fRight other"

definition EmRect_Contains_pt :: "EmRect \<Rightarrow> EmPoint \<Rightarrow> bool" where
  "EmRect_Contains_pt r pt \<longleftrightarrow> fY pt \<ge> fTop r \<and> fY pt < fBottom r \<and>
     fX pt \<ge> fLeft r \<and> fX pt < fRight r"

definition EmRect_Contains_rt :: "EmRect \<Rightarrow> EmRect \<Rightarrow> bool" where
  "EmRect_Contains_rt r rt \<longleftrightarrow>
     fTop rt \<ge> fTop r \<and> fTop rt \<le> fBottom r \<and> fLeft rt \<ge> fLeft r \<and> fLeft rt \<le> fRight r \<and>
     fBottom rt \<ge> fTop r \<and> fBottom rt \<le> fBottom r \<and>
     fRight rt \<ge> fLeft r \<and> fRight rt \<le> fRight r"

definition EmRect_Intersects :: "EmRect \<Rightarrow> EmRect \<Rightarrow> bool" where
  "EmRect_Intersects r rt \<longleftrightarrow>
     (fTop rt < fBottom r \<and> fBottom rt > fTop r) \<and> (fLeft rt < fRight r \<and> fRight rt > fLeft r)"

definition EmRect_Set :: "EmRect \<Rightarrow> EmCoord \<Rightarrow> EmCoord \<Rightarrow> EmCoord \<Rightarrow> EmCoord \<Rightarrow> EmRect" where
  "EmRect_Set rc l t r b = rc\<lparr>fLeft := l, fTop := t, fRight := r, fBottom := b\<rparr>"

definition EmRect_Set_pts :: "EmRect \<Rightarrow> EmPoint \<Rightarrow> EmPoint \<Rightarrow> EmRect" where
  "EmRect_Set_pts r tlp br =
     r\<lparr>fLeft := fX tlp, fTop := fY tlp, fRight := fX br, fBottom := fY br\<rparr>"

definition EmRect_BeEmpty :: "EmRect \<Rightarrow> EmRect" where
  "EmRect_BeEmpty r = r\<lparr>fTop := 0, fLeft := 0, fBottom := 0, fRight := 0\<rparr>"

definition EmRect_Inset :: "EmRect \<Rightarrow> EmCoord \<Rightarrow> EmCoord \<Rightarrow> EmRect" where
  "EmRect_Inset r x y = r\<lparr>fTop := fTop r + y, fLeft := fLeft r + x,
     fBottom := fBottom r - y, fRight := fRight r - x\<rparr>"

definition EmRect_Offset :: "EmRect \<Rightarrow> EmCoord \<Rightarrow> EmCoord \<Rightarrow> EmRect" where
  "EmRect_Offset r x y = r\<lparr>fTop := fTop r + y, fLeft := fLeft r + x,
     fBottom := fBottom r + y, fRight := fRight r + x\<rparr>"

definition EmRect_ScaleUp :: "EmRect \<Rightarrow> EmCoord \<Rightarrow> EmCoord \<Rightarrow> EmRect" where
  "EmRect_ScaleUp r x y = r\<lparr>fTop := fTop r * y, fLeft := fLeft r * x,
     fBottom := fBottom r * y, fRight := fRight r * x\<rparr>"

definition EmRect_ScaleDown :: "EmRect \<Rightarrow> EmCoord \<Rightarrow> EmCoord \<Rightarrow> EmRect option" where
  "EmRect_ScaleDown r x y =
     (if x \<noteq> 0 \<and> y \<noteq> 0
      then Some (r\<lparr>fTop := fTop r sdiv y, fLeft := fLeft r sdiv x,
        fBottom := fBottom r sdiv y, fRight := fRight r sdiv x\<rparr>)
      else None)"

definition EmRect_IntersectWith :: "EmRect \<Rightarrow> EmRect \<Rightarrow> EmRect" where
  "EmRect_IntersectWith r other =
     (if EmRect_IsEmpty r then r
      else if EmRect_IsEmpty other then EmRect_BeEmpty r
      else let r = (if fLeft other > fLeft r then r\<lparr>fLeft := fLeft other\<rparr> else r);
               r = (if fTop other > fTop r then r\<lparr>fTop := fTop other\<rparr> else r);
               r = (if fRight other < fRight r then r\<lparr>fRight := fRight other\<rparr> else r);
               r = (if fBottom other < fBottom r then r\<lparr>fBottom := fBottom other\<rparr> else r)
           in r)"

definition EmRect_ExtendTo_pt :: "EmRect \<Rightarrow> EmPoint \<Rightarrow> EmRect" where
  "EmRect_ExtendTo_pt r pt =
     (let r = (if fX pt < fLeft r then r\<lparr>fLeft := fX pt\<rparr> else r);
          r = (if fY pt < fTop r then r\<lparr>fTop := fY pt\<rparr> else r);
          r = (if fX pt > fRight r then r\<lparr>fRight := fX pt\<rparr> else r);
          r = (if fY pt > fBottom r then r\<lparr>fBottom := fY pt\<rparr> else r)
      in r)"

definition EmRect_ExtendTo :: "EmRect \<Rightarrow> EmRect \<Rightarrow> EmRect" where
  "EmRect_ExtendTo r other =
     (let r = (if fLeft other < fLeft r then r\<lparr>fLeft := fLeft other\<rparr> else r);
          r = (if fTop other < fTop r then r\<lparr>fTop := fTop other\<rparr> else r);
          r = (if fRight other > fRight r then r\<lparr>fRight := fRight other\<rparr> else r);
          r = (if fBottom other > fBottom r then r\<lparr>fBottom := fBottom other\<rparr> else r)
      in r)"

definition EmRect_UnionWith :: "EmRect \<Rightarrow> EmRect \<Rightarrow> EmRect" where
  "EmRect_UnionWith r other =
     (if EmRect_IsEmpty r then other
      else if EmRect_IsEmpty other then r
      else EmRect_ExtendTo r other)"

definition EmRect_Normalize :: "EmRect \<Rightarrow> EmRect" where
  "EmRect_Normalize r =
     (let r = (if fBottom r < fTop r then r\<lparr>fBottom := fTop r, fTop := fBottom r\<rparr> else r);
          r = (if fRight r < fLeft r then r\<lparr>fRight := fLeft r, fLeft := fRight r\<rparr> else r)
      in r)"

subsection \<open>The operators\<close>

definition EmRect_plus :: "EmRect \<Rightarrow> EmPoint \<Rightarrow> EmRect" where
  "EmRect_plus r pt = EmRect_Offset r (fX pt) (fY pt)"

definition EmRect_minus :: "EmRect \<Rightarrow> EmPoint \<Rightarrow> EmRect" where
  "EmRect_minus r pt = EmRect_Offset r (- fX pt) (- fY pt)"

definition EmRect_plus_assign :: "EmRect \<Rightarrow> EmPoint \<Rightarrow> EmRect" where
  "EmRect_plus_assign r pt = EmRect_Offset r (fX pt) (fY pt)"

definition EmRect_minus_assign :: "EmRect \<Rightarrow> EmPoint \<Rightarrow> EmRect" where
  "EmRect_minus_assign r pt = EmRect_Offset r (- fX pt) (- fY pt)"

definition EmRect_times :: "EmRect \<Rightarrow> EmPoint \<Rightarrow> EmRect" where
  "EmRect_times r pt = EmRect_ScaleUp r (fX pt) (fY pt)"

definition EmRect_divide :: "EmRect \<Rightarrow> EmPoint \<Rightarrow> EmRect option" where
  "EmRect_divide r pt = EmRect_ScaleDown r (fX pt) (fY pt)"

definition EmRect_times_assign :: "EmRect \<Rightarrow> EmPoint \<Rightarrow> EmRect" where
  "EmRect_times_assign r pt = EmRect_ScaleUp r (fX pt) (fY pt)"

definition EmRect_divide_assign :: "EmRect \<Rightarrow> EmPoint \<Rightarrow> EmRect option" where
  "EmRect_divide_assign r pt = EmRect_ScaleDown r (fX pt) (fY pt)"

definition EmRect_eq :: "EmRect \<Rightarrow> EmRect \<Rightarrow> bool" where
  "EmRect_eq r rt \<longleftrightarrow> EmRect_IsEqual r rt"

definition EmRect_neq :: "EmRect \<Rightarrow> EmRect \<Rightarrow> bool" where
  "EmRect_neq r rt \<longleftrightarrow> \<not> EmRect_IsEqual r rt"

definition EmRect_and :: "EmRect \<Rightarrow> EmRect \<Rightarrow> EmRect" where
  "EmRect_and r rt = EmRect_IntersectWith r rt"

definition EmRect_or :: "EmRect \<Rightarrow> EmRect \<Rightarrow> EmRect" where
  "EmRect_or r rt = EmRect_UnionWith r rt"

definition EmRect_and_assign :: "EmRect \<Rightarrow> EmRect \<Rightarrow> EmRect" where
  "EmRect_and_assign r rt = EmRect_IntersectWith r rt"

definition EmRect_or_assign :: "EmRect \<Rightarrow> EmRect \<Rightarrow> EmRect" where
  "EmRect_or_assign r rt = EmRect_UnionWith r rt"

lemmas EmRect_defs [model_defs] = EmRect_make_def EmRect_of_points_def
  EmRect_of_RectangleType_def EmRect_Width_def EmRect_Height_def EmRect_Size_def
  EmRect_TopLeft_def EmRect_TopRight_def EmRect_BottomLeft_def EmRect_BottomRight_def
  EmRect_North_def EmRect_South_def EmRect_East_def EmRect_West_def EmRect_Center_def
  EmRect_IsEmpty_def EmRect_IsNull_def EmRect_IsEqual_def EmRect_Contains_pt_def
  EmRect_Contains_rt_def EmRect_Intersects_def EmRect_Set_def EmRect_Set_pts_def
  EmRect_BeEmpty_def EmRect_Inset_def EmRect_Offset_def EmRect_ScaleUp_def
  EmRect_ScaleDown_def EmRect_IntersectWith_def EmRect_ExtendTo_pt_def EmRect_ExtendTo_def
  EmRect_UnionWith_def EmRect_Normalize_def EmRect_plus_def EmRect_minus_def
  EmRect_plus_assign_def EmRect_minus_assign_def EmRect_times_def EmRect_divide_def
  EmRect_times_assign_def EmRect_divide_assign_def EmRect_eq_def EmRect_neq_def
  EmRect_and_def EmRect_or_def EmRect_and_assign_def EmRect_or_assign_def

subsection \<open>A rectangle as a set of points\<close>

definition rect_pts :: "EmRect \<Rightarrow> (int \<times> int) set" where
  "rect_pts r = {(x, y). fLeft r \<le> x \<and> x < fRight r \<and> fTop r \<le> y \<and> y < fBottom r}"

lemma rect_pts_iff:
  "(x, y) \<in> rect_pts r \<longleftrightarrow> fLeft r \<le> x \<and> x < fRight r \<and> fTop r \<le> y \<and> y < fBottom r"
  by (simp add: rect_pts_def)

lemma EmRect_Contains_pt_iff: "EmRect_Contains_pt r p \<longleftrightarrow> (fX p, fY p) \<in> rect_pts r"
  by (auto simp: EmRect_Contains_pt_def rect_pts_iff)

lemma EmRect_IsEmpty_iff: "EmRect_IsEmpty r \<longleftrightarrow> rect_pts r = {}"
proof
  show "rect_pts r = {}" if "EmRect_IsEmpty r"
    using that by (auto simp: rect_pts_def EmRect_IsEmpty_def)
  show "EmRect_IsEmpty r" if "rect_pts r = {}"
  proof (rule ccontr)
    assume "\<not> EmRect_IsEmpty r"
    then have "(fLeft r, fTop r) \<in> rect_pts r"
      by (auto simp: EmRect_IsEmpty_def rect_pts_iff)
    with that show False by simp
  qed
qed

lemma EmRect_not_empty_corners:
  "\<not> EmRect_IsEmpty r \<Longrightarrow> (fLeft r, fTop r) \<in> rect_pts r \<and> (fRight r - 1, fBottom r - 1) \<in> rect_pts r"
  by (auto simp: EmRect_IsEmpty_def rect_pts_iff)

text \<open>The sequences of conditional assignments compute maxima and minima.\<close>

lemma EmRect_IntersectWith_eq:
  "\<not> EmRect_IsEmpty r \<Longrightarrow> \<not> EmRect_IsEmpty s \<Longrightarrow> EmRect_IntersectWith r s =
     \<lparr>fTop = max (fTop r) (fTop s), fLeft = max (fLeft r) (fLeft s),
      fBottom = min (fBottom r) (fBottom s), fRight = min (fRight r) (fRight s)\<rparr>"
  by (cases r; cases s) (simp add: EmRect_IntersectWith_def Let_def max_def min_def)

lemma EmRect_ExtendTo_eq:
  "EmRect_ExtendTo r s =
     \<lparr>fTop = min (fTop r) (fTop s), fLeft = min (fLeft r) (fLeft s),
      fBottom = max (fBottom r) (fBottom s), fRight = max (fRight r) (fRight s)\<rparr>"
  by (cases r; cases s) (simp add: EmRect_ExtendTo_def Let_def max_def min_def)

lemma rect_pts_BeEmpty: "rect_pts (EmRect_BeEmpty r) = {}"
  by (auto simp: rect_pts_def EmRect_BeEmpty_def)

lemma rect_pts_IntersectWith: "rect_pts (EmRect_IntersectWith r s) = rect_pts r \<inter> rect_pts s"
proof (cases "EmRect_IsEmpty r \<or> EmRect_IsEmpty s")
  case True
  then show ?thesis
    by (auto simp: EmRect_IntersectWith_def rect_pts_BeEmpty EmRect_IsEmpty_iff)
next
  case False
  then show ?thesis by (auto simp: EmRect_IntersectWith_eq rect_pts_def)
qed

lemma rect_pts_UnionWith_subset:
  "rect_pts r \<subseteq> rect_pts (EmRect_UnionWith r s)" "rect_pts s \<subseteq> rect_pts (EmRect_UnionWith r s)"
  unfolding EmRect_UnionWith_def EmRect_IsEmpty_iff EmRect_ExtendTo_eq
  by (auto simp: rect_pts_def)

lemma EmRect_UnionWith_least:
  assumes r: "rect_pts r \<subseteq> rect_pts t" and s: "rect_pts s \<subseteq> rect_pts t"
  shows "rect_pts (EmRect_UnionWith r s) \<subseteq> rect_pts t"
proof (cases "EmRect_IsEmpty r \<or> EmRect_IsEmpty s")
  case True
  then show ?thesis using r s by (auto simp: EmRect_UnionWith_def)
next
  case False
  then have ne: "\<not> EmRect_IsEmpty r" "\<not> EmRect_IsEmpty s" by auto
  have "\<forall>p\<in>{(fLeft r, fTop r), (fRight r - 1, fBottom r - 1)}. p \<in> rect_pts t"
    and "\<forall>p\<in>{(fLeft s, fTop s), (fRight s - 1, fBottom s - 1)}. p \<in> rect_pts t"
    using EmRect_not_empty_corners [OF ne(1)] EmRect_not_empty_corners [OF ne(2)] r s by auto
  then show ?thesis
    using False by (auto simp: EmRect_UnionWith_def EmRect_ExtendTo_eq rect_pts_def)
qed

lemma rect_pts_Offset:
  "(x, y) \<in> rect_pts (EmRect_Offset r dx dy) \<longleftrightarrow> (x - dx, y - dy) \<in> rect_pts r"
  by (auto simp: rect_pts_def EmRect_Offset_def)

lemma EmRect_plus_minus: "EmRect_minus (EmRect_plus r p) p = r"
  by (simp add: EmRect_defs)

lemma EmRect_IsEqual_iff: "EmRect_IsEqual r s \<longleftrightarrow> r = s"
  by (cases r; cases s) (auto simp: EmRect_IsEqual_def)

lemma EmRect_Contains_rt_iff:
  assumes ne: "\<not> EmRect_IsEmpty s"
  shows "EmRect_Contains_rt r s \<longleftrightarrow> rect_pts s \<subseteq> rect_pts r"
proof
  show "rect_pts s \<subseteq> rect_pts r" if "EmRect_Contains_rt r s"
    using that by (auto simp: EmRect_Contains_rt_def rect_pts_def)
  show "EmRect_Contains_rt r s" if "rect_pts s \<subseteq> rect_pts r"
  proof -
    from EmRect_not_empty_corners [OF ne] that
    have "(fLeft s, fTop s) \<in> rect_pts r" "(fRight s - 1, fBottom s - 1) \<in> rect_pts r" by auto
    then show ?thesis by (auto simp: EmRect_Contains_rt_def rect_pts_iff)
  qed
qed

lemma EmRect_Intersects_iff:
  assumes "\<not> EmRect_IsEmpty r" and "\<not> EmRect_IsEmpty s"
  shows "EmRect_Intersects r s \<longleftrightarrow> rect_pts r \<inter> rect_pts s \<noteq> {}"
proof -
  have "EmRect_Intersects r s \<longleftrightarrow> \<not> EmRect_IsEmpty (EmRect_IntersectWith r s)"
    using assms
    by (auto simp: EmRect_IntersectWith_eq EmRect_Intersects_def EmRect_IsEmpty_def)
  then show ?thesis by (simp add: EmRect_IsEmpty_iff rect_pts_IntersectWith)
qed

lemma EmRect_Normalize_ordered:
  "fLeft (EmRect_Normalize r) \<le> fRight (EmRect_Normalize r) \<and>
   fTop (EmRect_Normalize r) \<le> fBottom (EmRect_Normalize r)"
  by (simp add: EmRect_Normalize_def Let_def)

lemma EmRect_Normalize_id:
  "fLeft r \<le> fRight r \<Longrightarrow> fTop r \<le> fBottom r \<Longrightarrow> EmRect_Normalize r = r"
  by (simp add: EmRect_Normalize_def Let_def)

lemma EmRect_ScaleDown_ScaleUp:
  "x \<noteq> 0 \<Longrightarrow> y \<noteq> 0 \<Longrightarrow> EmRect_ScaleDown (EmRect_ScaleUp r x y) x y = Some r"
  by (cases r) (simp add: EmRect_ScaleDown_def EmRect_ScaleUp_def sdiv_times_self)

end
