(* ===== verification/Region.thy ===== *)
theory Region
  imports Geometry
begin

unbundle bit_operations_syntax

text \<open>
  The region class of \<open>SrcShared/EmRegion.h\<close> and \<open>EmRegion.cpp\<close>, as it is written:
  a region is a flat buffer of coordinates

    \<open>n, y, x1, ..., x(n-1),  n', y', x1', ...,  1, ylast,  0\<close>

  and every operation walks the buffer with a pointer. \<open>EmRegionImpl\<close> is the record of
  the class; \<open>fBuf = None\<close> is the null pointer, \<open>Some b\<close> a buffer whose
  length is \<open>fCapacity\<close>. A method that reads outside the buffer, uses a coordinate it
  loaded from outside, or fails an \<open>EmAssert\<close>, returns \<open>None\<close>.

  The sharing of implementation objects between \<open>EmRegion\<close>s is modelled in
  \<open>RegionHandles\<close>; here a region is the value of its implementation object.
\<close>

section \<open>EmRegionImpl\<close>

record EmRegionImpl =
  fBounds :: EmRect
  fCapacity :: int
  fBuf :: "EmCoord list option"

datatype EOpcode = eUnion | eDifference | eRevDifference | eIntersection

text \<open>The value of an opcode is compared with the state bits of the merge.\<close>

fun opval :: "EOpcode \<Rightarrow> int" where
  "opval eUnion = 0"
| "opval eDifference = 1"
| "opval eRevDifference = 2"
| "opval eIntersection = 3"

definition EmRegionImpl_empty :: EmRegionImpl where
  "EmRegionImpl_empty = \<lparr>fBounds = EmRect_make 0 0 0 0, fCapacity = 0, fBuf = None\<rparr>"

definition EmRegionImpl_rect :: "EmRect \<Rightarrow> EmRegionImpl" where
  "EmRegionImpl_rect r = \<lparr>fBounds = r, fCapacity = 7,
     fBuf = Some [3, fTop r, fLeft r, fRight r, 1, fBottom r, 0]\<rparr>"

subsection \<open>Decomposition into rectangles\<close>

text \<open>
  The loops of \<open>GetRects\<close> and \<open>CalcBounds\<close> are the same but for what they do
  with a rectangle: \<open>body\<close>. The bottom coordinate \<open>s[next]\<close> is loaded for every
  scanline, and for the last one that is one element past the buffer; only scanlines with
  an x-pair use it.
\<close>

fun pair_loop :: "(EmRect \<Rightarrow> 'a \<Rightarrow> 'a) \<Rightarrow> int \<Rightarrow> EmCoord \<Rightarrow> EmCoord option \<Rightarrow> EmCoord list \<Rightarrow> 'a
    \<Rightarrow> ('a \<times> EmCoord list) option" where
  "pair_loop body next t bo s acc =
     (if next > 1 then
        (case s of
           l # r # s' \<Rightarrow>
             (case bo of
                Some b \<Rightarrow> pair_loop body (next - 2) t bo s' (body (EmRect_make l t r b) acc)
              | None \<Rightarrow> None)
         | _ \<Rightarrow> None)
      else Some (acc, s))"

declare pair_loop.simps [simp del]

lemma pair_loop_length: "pair_loop body n t bo s acc = Some (acc', s') \<Longrightarrow> length s' \<le> length s"
proof (induction body n t bo s acc rule: pair_loop.induct)
  case (1 body n t bo s acc)
  from "1.prems" show ?case
    by (subst (asm) pair_loop.simps)
      (fastforce split: if_splits list.splits option.splits dest: "1.IH")
qed

function scan_loop :: "(EmRect \<Rightarrow> 'a \<Rightarrow> 'a) \<Rightarrow> EmCoord list \<Rightarrow> 'a \<Rightarrow> ('a \<times> EmCoord list) option" where
  "scan_loop body s acc =
     (case s of
        [] \<Rightarrow> None
      | next # s1 \<Rightarrow>
          if next = 0 then Some (acc, s1)
          else (case s1 of
                  [] \<Rightarrow> None
                | t # s2 \<Rightarrow>
                    (case pair_loop body next t (peek s2 next) s2 acc of
                       None \<Rightarrow> None
                     | Some (acc', s3) \<Rightarrow> scan_loop body s3 acc')))"
  by pat_completeness auto
termination
  by (relation "measure (\<lambda>(body, s, acc). length s)") (auto dest!: pair_loop_length)

declare scan_loop.simps [simp del]

definition add_rect :: "EmRect \<Rightarrow> EmRect list \<Rightarrow> EmRect list" where
  "add_rect r rp = (if \<not> EmRect_IsEmpty r then rp @ [r] else rp)"

text \<open>
  \<open>GetRects\<close> returns the rectangles it writes to \<open>rp\<close>; the number it returns is
  the length of that list. The final assertion compares the pointer with the end of the
  buffer and never fails here, since a pointer never leaves the list.
\<close>

definition EmRegionImpl_GetRects :: "EmRegionImpl \<Rightarrow> EmRect list option" where
  "EmRegionImpl_GetRects rg =
     (case fBuf rg of None \<Rightarrow> Some [] | Some s \<Rightarrow> map_option fst (scan_loop add_rect s []))"

definition EmRegionImpl_CalcBounds :: "EmRegionImpl \<Rightarrow> EmRegionImpl option" where
  "EmRegionImpl_CalcBounds rg =
     (let bounds0 = EmRect_BeEmpty (fBounds rg)
      in case fBuf rg of
           None \<Rightarrow> Some (rg\<lparr>fBounds := bounds0\<rparr>)
         | Some s \<Rightarrow>
             (case scan_loop (\<lambda>r bounds. EmRect_UnionWith bounds r) s bounds0 of
                None \<Rightarrow> None
              | Some (bounds, _) \<Rightarrow> Some (rg\<lparr>fBounds := bounds\<rparr>)))"

text \<open>
  The constructor from a buffer, which only \<open>RegionOp\<close> calls. It copies \<open>len\<close>
  coordinates, so it needs that many. With a length that is not positive it would leave
  the bounds uninitialised; \<open>RegionOp\<close> always writes the terminator, and the model has
  no value there.
\<close>

definition EmRegionImpl_buf :: "EmCoord list \<Rightarrow> int \<Rightarrow> EmRegionImpl option" where
  "EmRegionImpl_buf s len =
     (if 0 < len \<and> nat len \<le> length s
      then EmRegionImpl_CalcBounds
             \<lparr>fBounds = EmRect_make 0 0 0 0, fCapacity = len, fBuf = Some (take (nat len) s)\<rparr>
      else None)"

subsection \<open>Contains\<close>

text \<open>
  The inner loop returns whether an x-pair contains the x-coordinate, and else the rest
  of the buffer for the next scanline.
\<close>

fun contains_pairs :: "int \<Rightarrow> EmCoord list \<Rightarrow> EmCoord \<Rightarrow> (bool \<times> EmCoord list) option" where
  "contains_pairs next bp x =
     (if next > 1 then
        (case bp of
           s # e # bp' \<Rightarrow> if x \<ge> s \<and> x < e then Some (True, bp') else contains_pairs (next - 2) bp' x
         | _ \<Rightarrow> None)
      else Some (False, bp))"

declare contains_pairs.simps [simp del]

lemma contains_pairs_length: "contains_pairs n bp x = Some (b, bp') \<Longrightarrow> length bp' \<le> length bp"
proof (induction n bp x rule: contains_pairs.induct)
  case (1 n bp x)
  from "1.prems" show ?case
    by (subst (asm) contains_pairs.simps)
      (fastforce split: if_splits list.splits dest: "1.IH")
qed

text \<open>
  A scanline is the one of the point if \<open>p.fY >= s && p.fY < bp[next]\<close>; the second
  operand is only evaluated if the first holds, and then reads the y-coordinate of the
  next scanline.
\<close>

function contains_loop :: "EmCoord list \<Rightarrow> EmPoint \<Rightarrow> bool option" where
  "contains_loop bp p =
     (case bp of
        [] \<Rightarrow> None
      | next # bp1 \<Rightarrow>
          if next = 0 then Some False
          else (case bp1 of
                  [] \<Rightarrow> None
                | s # bp2 \<Rightarrow>
                    (case (if fY p \<ge> s then map_option (\<lambda>y'. fY p < y') (peek bp2 next)
                           else Some False) of
                       None \<Rightarrow> None
                     | Some True \<Rightarrow>
                         (case contains_pairs next bp2 (fX p) of
                            None \<Rightarrow> None
                          | Some (found, bp3) \<Rightarrow> if found then Some True else contains_loop bp3 p)
                     | Some False \<Rightarrow> contains_loop (drop (nat (next - 1)) bp2) p)))"
  by pat_completeness auto
termination
  by (relation "measure (\<lambda>(bp, p). length bp)") (auto dest!: contains_pairs_length)

declare contains_loop.simps [simp del]

definition EmRegionImpl_Contains :: "EmRegionImpl \<Rightarrow> EmPoint \<Rightarrow> bool option" where
  "EmRegionImpl_Contains rg p =
     (if EmRect_Contains_pt (fBounds rg) p
      then (case fBuf rg of None \<Rightarrow> None | Some bp \<Rightarrow> contains_loop bp p)
      else Some False)"

subsection \<open>Offset and equality\<close>

fun offset_pairs :: "EmCoord \<Rightarrow> int \<Rightarrow> EmCoord list \<Rightarrow> (EmCoord list \<times> EmCoord list) option" where
  "offset_pairs dx next s =
     (if next > 1 then
        (case s of
           a # b # s' \<Rightarrow>
             (case offset_pairs dx (next - 2) s' of
                None \<Rightarrow> None
              | Some (done, rest) \<Rightarrow> Some ((a + dx) # (b + dx) # done, rest))
         | _ \<Rightarrow> None)
      else Some ([], s))"

declare offset_pairs.simps [simp del]

lemma offset_pairs_length: "offset_pairs dx n s = Some (d, s') \<Longrightarrow> length s' \<le> length s"
proof (induction dx n s arbitrary: d rule: offset_pairs.induct)
  case (1 dx n s)
  from "1.prems" show ?case
    by (subst (asm) offset_pairs.simps)
      (fastforce split: if_splits list.splits option.splits prod.splits dest: "1.IH")
qed

text \<open>The buffer is changed in place: the loop returns its new contents.\<close>

function offset_loop :: "EmCoord \<Rightarrow> EmCoord \<Rightarrow> EmCoord list \<Rightarrow> EmCoord list option" where
  "offset_loop dx dy s =
     (case s of
        [] \<Rightarrow> None
      | next # s1 \<Rightarrow>
          if next = 0 then Some (0 # s1)
          else (case s1 of
                  [] \<Rightarrow> None
                | y # s2 \<Rightarrow>
                    (case offset_pairs dx next s2 of
                       None \<Rightarrow> None
                     | Some (done, s3) \<Rightarrow>
                         map_option (\<lambda>rest. next # (y + dy) # done @ rest) (offset_loop dx dy s3))))"
  by pat_completeness auto
termination
  by (relation "measure (\<lambda>(dx, dy, s). length s)") (auto dest!: offset_pairs_length)

declare offset_loop.simps [simp del]

definition EmRegionImpl_Offset :: "EmRegionImpl \<Rightarrow> EmCoord \<Rightarrow> EmCoord \<Rightarrow> EmRegionImpl option" where
  "EmRegionImpl_Offset rg dx dy =
     (case fBuf rg of
        None \<Rightarrow> Some rg
      | Some s \<Rightarrow>
          if dx \<noteq> 0 \<or> dy \<noteq> 0
          then map_option
                 (\<lambda>s'. rg\<lparr>fBuf := Some s', fBounds := EmRect_Offset (fBounds rg) dx dy\<rparr>)
                 (offset_loop dx dy s)
          else Some rg)"

definition EmRegionImpl_IsEqual :: "EmRegionImpl \<Rightarrow> EmRegionImpl \<Rightarrow> bool" where
  "EmRegionImpl_IsEqual r1 r2 =
     (if fCapacity r1 \<noteq> fCapacity r2 then False
      else (case (fBuf r1, fBuf r2) of
              (None, None) \<Rightarrow> True
            | (Some b1, Some b2) \<Rightarrow> take (nat (fCapacity r1)) b1 = take (nat (fCapacity r1)) b2
            | _ \<Rightarrow> False))"

definition EmRegionImpl_eq :: "EmRegionImpl \<Rightarrow> EmRegionImpl \<Rightarrow> bool" where
  "EmRegionImpl_eq r1 r2 = EmRegionImpl_IsEqual r1 r2"

section \<open>EmRegion: queries\<close>

definition EmRegion_Bounds :: "EmRegionImpl \<Rightarrow> EmRect" where
  "EmRegion_Bounds r = fBounds r"

definition EmRegion_IsEmpty :: "EmRegionImpl \<Rightarrow> bool" where
  "EmRegion_IsEmpty r = EmRect_IsEmpty (fBounds r)"

definition EmRegion_GetBuf :: "EmRegionImpl \<Rightarrow> EmCoord list option" where
  "EmRegion_GetBuf r = fBuf r"

definition EmRegion_Length :: "EmRegionImpl \<Rightarrow> int" where
  "EmRegion_Length r = fCapacity r"

text \<open>
  \<open>IsEqual\<close> of \<open>EmRegion\<close> first compares the reference counters, which compare the
  objects, and then the objects again.
\<close>

definition EmRegion_IsEqual :: "EmRegionImpl \<Rightarrow> EmRegionImpl \<Rightarrow> bool" where
  "EmRegion_IsEqual r other = (if EmRegionImpl_eq r other then True else EmRegionImpl_IsEqual r other)"

section \<open>RegionOp\<close>

text \<open>
  \<open>out\<close> is the part of the destination buffer written so far, \<open>buf[0 .. ss - buf)\<close>.
  Every write is followed by \<open>EmAssert (ss - buf < buflen)\<close>.
\<close>

definition emit :: "int \<Rightarrow> EmCoord list \<Rightarrow> EmCoord list \<Rightarrow> EmCoord list option" where
  "emit buflen out xs =
     (if int (length (out @ xs)) < buflen then Some (out @ xs) else None)"

text \<open>The loops that copy what is left of one scanline, with the assertion in the loop.\<close>

fun copy_xs :: "int \<Rightarrow> int \<Rightarrow> EmCoord list \<Rightarrow> EmCoord list \<Rightarrow> EmCoord list option" where
  "copy_xs buflen xl p out =
     (if xl > 0 then
        (case p of
           [] \<Rightarrow> None
         | a # p' \<Rightarrow>
             (case emit buflen out [a] of None \<Rightarrow> None | Some out' \<Rightarrow> copy_xs buflen (xl - 1) p' out'))
      else Some out)"

declare copy_xs.simps [simp del]

text \<open>
  The merge of the x-events of two scanlines: \<open>xflag\<close> holds a state bit per region, and
  an event is recorded when the state it leaves or the state it enters equals the opcode.
\<close>

function merge_xs :: "EOpcode \<Rightarrow> int \<Rightarrow> EmCoord list \<Rightarrow> EmCoord list \<Rightarrow> int \<Rightarrow> int \<Rightarrow> int \<Rightarrow> int
    \<Rightarrow> EmCoord list \<Rightarrow> EmCoord list option" where
  "merge_xs code buflen p1 p2 xl1 xl2 xflag xold out =
     (if xl1 > 0 \<and> xl2 > 0 then
        (case (p1, p2) of
           (a # p1', b # p2') \<Rightarrow>
             (let test = c_int (a - b);
                  (x, q1, xflag1, xm1) =
                    (if test \<le> 0 then (a, p1', xflag XOR 1, xl1 - 1) else (0, p1, xflag, xl1));
                  (x', q2, xflag2, xm2) =
                    (if test \<ge> 0 then (b, p2', xflag1 XOR 2, xl2 - 1) else (x, p2, xflag1, xl2))
              in (case (if xflag2 = opval code \<or> xold = opval code then emit buflen out [x']
                        else Some out) of
                    None \<Rightarrow> None
                  | Some out' \<Rightarrow> merge_xs code buflen q1 q2 xm1 xm2 xflag2 xflag2 out'))
         | _ \<Rightarrow> None)
      else
        (case (if code = eUnion \<or> code = eDifference then copy_xs buflen xl1 p1 out else Some out) of
           None \<Rightarrow> None
         | Some out' \<Rightarrow>
             if code = eUnion \<or> code = eRevDifference then copy_xs buflen xl2 p2 out' else Some out'))"
  by pat_completeness auto
termination
  by (relation "measure (\<lambda>(code, buflen, p1, p2, xl1, xl2, xflag, xold, out). nat xl1 + nat xl2)")
    (auto split: if_splits)

declare merge_xs.simps [simp del]

text \<open>The \<open>memcpy\<close> of the rest of one scanline when the other region has none here.\<close>

definition copy_line :: "int \<Rightarrow> int \<Rightarrow> EmCoord list \<Rightarrow> EmCoord list \<Rightarrow> EmCoord list option" where
  "copy_line buflen l x out =
     (if 0 \<le> l \<and> nat l \<le> length x then emit buflen out (take (nat l) x) else None)"

text \<open>What one turn of the main loop writes after the scanline's length and y-coordinate.\<close>

definition merge_scanlines :: "EOpcode \<Rightarrow> int \<Rightarrow> EmCoord list \<Rightarrow> int \<Rightarrow> EmCoord list \<Rightarrow> int
    \<Rightarrow> EmCoord list \<Rightarrow> EmCoord list option" where
  "merge_scanlines code buflen x1 l1 x2 l2 out =
     (if l1 = 0 \<and> l2 = 0 then Some out
      else if l1 = 0 then
        (if code = eUnion \<or> code = eRevDifference then copy_line buflen l2 x2 out else Some out)
      else if l2 = 0 then
        (if code = eUnion \<or> code = eDifference then copy_line buflen l1 x1 out else Some out)
      else merge_xs code buflen x1 x2 l1 l2 0 0 out)"

text \<open>
  \<open>oldss\<close> is the offset in the destination of the last scanline kept, \<open>oldlen\<close> its
  number of x-events. A scanline that repeats the one before it is dropped by moving
  \<open>ss\<close> back to \<open>fixup\<close>.
\<close>

definition finish_line :: "nat \<Rightarrow> nat option \<Rightarrow> int \<Rightarrow> EmCoord list
    \<Rightarrow> (EmCoord list \<times> nat option \<times> int)" where
  "finish_line fixup oldss oldlen out =
     (let len = int (length out) - int fixup - 2;
          out1 = out[fixup := len + 1]
      in if len > 0 \<and> len = oldlen \<and>
            (case oldss of
               None \<Rightarrow> False
             | Some o1 \<Rightarrow>
                 take (nat len) (drop (o1 + 2) out1) = take (nat len) (drop (fixup + 2) out1))
         then (take fixup out1, oldss, oldlen)
         else (out1, Some fixup, len))"

text \<open>
  The main loop. \<open>shape1\<close> and \<open>shape2\<close> point to the next scanlines, \<open>x1\<close>,
  \<open>l1\<close> and \<open>x2\<close>, \<open>l2\<close> to the x-events of the current ones. A negative length
  (no buffer of the class holds one) would move a pointer backwards; the model has no value
  for it.
\<close>

function region_loop :: "EOpcode \<Rightarrow> int \<Rightarrow> EmCoord list \<Rightarrow> EmCoord list \<Rightarrow> EmCoord list \<Rightarrow> int
    \<Rightarrow> EmCoord list \<Rightarrow> int \<Rightarrow> EmCoord list \<Rightarrow> nat option \<Rightarrow> int \<Rightarrow> EmCoord list option" where
  "region_loop code buflen shape1 shape2 x1 l1 x2 l2 out oldss oldlen =
     (case (shape1, shape2) of
        (tl1 # r1, tl2 # r2) \<Rightarrow>
          if tl1 = 0 \<and> tl2 = 0 then Some out
          else if tl1 < 0 \<or> tl2 < 0 then None
          else
            (case (if tl1 = 0 then Some 1
                   else if tl2 = 0 then Some (- 1)
                   else (case (r1, r2) of
                           (ya # _, yb # _) \<Rightarrow> Some (c_int (ya - yb))
                         | _ \<Rightarrow> None)) of
               None \<Rightarrow> None
             | Some test \<Rightarrow>
                 (case (if test \<ge> 0 then (case r2 of y # _ \<Rightarrow> Some y | [] \<Rightarrow> None)
                        else (case r1 of y # _ \<Rightarrow> Some y | [] \<Rightarrow> None)) of
                    None \<Rightarrow> None
                  | Some y \<Rightarrow>
                      (let (x1', l1', s1') =
                             (if test \<le> 0 then (tl r1, tl1 - 1, drop (nat tl1) r1) else (x1, l1, shape1));
                           (x2', l2', s2') =
                             (if test \<ge> 0 then (tl r2, tl2 - 1, drop (nat tl2) r2) else (x2, l2, shape2))
                       in (case emit buflen out [1, y] of
                             None \<Rightarrow> None
                           | Some out1 \<Rightarrow>
                               (case merge_scanlines code buflen x1' l1' x2' l2' out1 of
                                  None \<Rightarrow> None
                                | Some out2 \<Rightarrow>
                                    (case finish_line (length out) oldss oldlen out2 of
                                       (out3, oldss', oldlen') \<Rightarrow>
                                         region_loop code buflen s1' s2' x1' l1' x2' l2'
                                           out3 oldss' oldlen'))))))
      | _ \<Rightarrow> None)"
  by pat_completeness auto
termination
  by (relation "measure (\<lambda>(code, buflen, shape1, shape2, _). length shape1 + length shape2)")
    (auto split: if_splits)

declare region_loop.simps [simp del]

definition EmRegion_RegionOp :: "EOpcode \<Rightarrow> EmRegionImpl \<Rightarrow> EmRegionImpl \<Rightarrow> EmRegionImpl option" where
  "EmRegion_RegionOp code r1 r2 =
     (let general =
        (let buflen = EmRegion_Length r1 * EmRegion_Length r2
         in if \<not> buflen > 0 then None
            else (case (EmRegion_GetBuf r1, EmRegion_GetBuf r2) of
                    (Some shape1, Some shape2) \<Rightarrow>
                      (case region_loop code buflen shape1 shape2 [] 0 [] 0 [] None (- 1) of
                         None \<Rightarrow> None
                       | Some out \<Rightarrow>
                           (case emit buflen out [0] of
                              None \<Rightarrow> None
                            | Some buf \<Rightarrow> EmRegionImpl_buf buf (int (length buf))))
                  | _ \<Rightarrow> None))
      in case code of
           eUnion \<Rightarrow>
             (if EmRegion_IsEmpty r1 \<and> EmRegion_IsEmpty r2 then Some EmRegionImpl_empty
              else if EmRegion_IsEmpty r1 then Some r2
              else if EmRegion_IsEmpty r2 then Some r1
              else general)
         | eDifference \<Rightarrow>
             (if EmRegion_IsEmpty r1 then Some EmRegionImpl_empty
              else if EmRegion_IsEmpty r2 then Some r1
              else general)
         | eRevDifference \<Rightarrow>
             (if EmRegion_IsEmpty r2 then Some EmRegionImpl_empty
              else if EmRegion_IsEmpty r1 then Some r2
              else general)
         | eIntersection \<Rightarrow>
             (if EmRegion_IsEmpty r1 \<or> EmRegion_IsEmpty r2 then Some EmRegionImpl_empty
              else general))"

text \<open>
  The operations that change a region assign the result of \<open>RegionOp\<close> to it; the
  friend functions return it.
\<close>

definition EmRegion_UnionWith :: "EmRegionImpl \<Rightarrow> EmRegionImpl \<Rightarrow> EmRegionImpl option" where
  "EmRegion_UnionWith r other = EmRegion_RegionOp eUnion r other"

definition EmRegion_IntersectWith :: "EmRegionImpl \<Rightarrow> EmRegionImpl \<Rightarrow> EmRegionImpl option" where
  "EmRegion_IntersectWith r other = EmRegion_RegionOp eIntersection r other"

definition EmRegion_Subtract :: "EmRegionImpl \<Rightarrow> EmRegionImpl \<Rightarrow> EmRegionImpl option" where
  "EmRegion_Subtract r other = EmRegion_RegionOp eDifference r other"

definition Union_rgn :: "EmRegionImpl \<Rightarrow> EmRegionImpl \<Rightarrow> EmRegionImpl option" where
  "Union_rgn r1 r2 = EmRegion_RegionOp eUnion r1 r2"

definition Intersection_rgn :: "EmRegionImpl \<Rightarrow> EmRegionImpl \<Rightarrow> EmRegionImpl option" where
  "Intersection_rgn r1 r2 = EmRegion_RegionOp eIntersection r1 r2"

definition Difference_rgn :: "EmRegionImpl \<Rightarrow> EmRegionImpl \<Rightarrow> EmRegionImpl option" where
  "Difference_rgn r1 r2 = EmRegion_RegionOp eDifference r1 r2"

definition Xor_rgn :: "EmRegionImpl \<Rightarrow> EmRegionImpl \<Rightarrow> EmRegionImpl option" where
  "Xor_rgn r1 r2 =
     (case Union_rgn r1 r2 of
        None \<Rightarrow> None
      | Some u \<Rightarrow>
          (case Intersection_rgn r1 r2 of None \<Rightarrow> None | Some i \<Rightarrow> Difference_rgn u i))"

definition EmRegion_XorWith :: "EmRegionImpl \<Rightarrow> EmRegionImpl \<Rightarrow> EmRegionImpl option" where
  "EmRegion_XorWith r other = Xor_rgn r other"

definition EmRegion_BeEmpty :: "EmRegionImpl \<Rightarrow> EmRegionImpl" where
  "EmRegion_BeEmpty r = (if fBuf r \<noteq> None then EmRegionImpl_empty else r)"

section \<open>EmRegionRectIterator\<close>

record EmRegionRectIterator =
  fRegion :: EmRegionImpl
  fBufPtr :: "EmCoord list option"
  fNext :: int

definition EmRegionRectIterator_Reset :: "EmRegionRectIterator \<Rightarrow> EmRegionRectIterator" where
  "EmRegionRectIterator_Reset it = it\<lparr>fBufPtr := EmRegion_GetBuf (fRegion it), fNext := 0\<rparr>"

definition EmRegionRectIterator_make :: "EmRegionImpl \<Rightarrow> EmRegionRectIterator" where
  "EmRegionRectIterator_make r =
     EmRegionRectIterator_Reset \<lparr>fRegion = r, fBufPtr = None, fNext = 0\<rparr>"

text \<open>
  \<open>Next\<close> writes the sides of the rectangle into the caller's \<open>r\<close>: top and bottom
  when it enters a scanline, left and right for each x-pair. So \<open>r\<close> must be the same
  object in all calls. \<open>bo\<close> is the value last loaded for \<open>r.fBottom\<close>, which for the
  last scanline comes from past the buffer. The result is the \<open>Bool\<close> returned, the
  iterator, \<open>r\<close> and \<open>bo\<close>.
\<close>

function next_loop :: "EmCoord list \<Rightarrow> int \<Rightarrow> EmRect \<Rightarrow> EmCoord option
    \<Rightarrow> (bool \<times> EmCoord list \<times> int \<times> EmRect \<times> EmCoord option) option" where
  "next_loop p nx r bo =
     (if nx > 1 then
        (case p of
           l # rt # p' \<Rightarrow>
             (case bo of
                None \<Rightarrow> None
              | Some b \<Rightarrow> Some (True, p', nx - 2, r\<lparr>fLeft := l, fRight := rt, fBottom := b\<rparr>, bo))
         | _ \<Rightarrow> None)
      else
        (case p of
           [] \<Rightarrow> None
         | nx' # p1 \<Rightarrow>
             if nx' = 0 then Some (False, p1, nx', r, bo)
             else (case p1 of
                     [] \<Rightarrow> None
                   | t # p2 \<Rightarrow> next_loop p2 nx' (r\<lparr>fTop := t\<rparr>) (peek p2 nx'))))"
  by pat_completeness auto
termination
  by (relation "measure (\<lambda>(p, nx, r, bo). length p)") auto

declare next_loop.simps [simp del]

definition EmRegionRectIterator_Next :: "EmRegionRectIterator \<Rightarrow> EmRect \<Rightarrow> EmCoord option
    \<Rightarrow> (bool \<times> EmRegionRectIterator \<times> EmRect \<times> EmCoord option) option" where
  "EmRegionRectIterator_Next it r bo =
     (case fBufPtr it of
        None \<Rightarrow> Some (False, it, r, bo)
      | Some p \<Rightarrow>
          (case next_loop p (fNext it) r bo of
             None \<Rightarrow> None
           | Some (found, p', nx, r', bo') \<Rightarrow>
               Some (found, it\<lparr>fBufPtr := Some p', fNext := nx\<rparr>, r', bo')))"

text \<open>The clients' loop \<open>while (iter.Next (r))\<close>, with the loop body as a function.\<close>

lemma next_loop_length:
  "next_loop p nx r bo = Some (True, p', nx', r', bo') \<Longrightarrow> length p' < length p"
proof (induction p nx r bo rule: next_loop.induct)
  case (1 p nx r bo)
  from "1.prems" show ?case
    by (subst (asm) next_loop.simps)
      (fastforce split: if_splits list.splits option.splits dest: "1.IH")
qed

definition iter_left :: "EmRegionRectIterator \<Rightarrow> nat" where
  "iter_left it = (case fBufPtr it of None \<Rightarrow> 0 | Some p \<Rightarrow> length p)"

lemma Next_iter_left:
  "EmRegionRectIterator_Next it r bo = Some (True, it', r', bo') \<Longrightarrow> iter_left it' < iter_left it"
  by (auto simp: EmRegionRectIterator_Next_def iter_left_def dest!: next_loop_length
      split: option.splits)

function for_each_rect :: "(EmRect \<Rightarrow> EmRegionImpl \<Rightarrow> (EmRect \<times> EmRegionImpl) option)
    \<Rightarrow> EmRegionRectIterator \<Rightarrow> EmRect \<Rightarrow> EmCoord option \<Rightarrow> EmRegionImpl \<Rightarrow> EmRegionImpl option" where
  "for_each_rect body it r bo newRgn =
     (case EmRegionRectIterator_Next it r bo of
        None \<Rightarrow> None
      | Some (False, _) \<Rightarrow> Some newRgn
      | Some (True, it', r', bo') \<Rightarrow>
          (case body r' newRgn of
             None \<Rightarrow> None
           | Some (r'', newRgn') \<Rightarrow> for_each_rect body it' r'' bo' newRgn'))"
  by pat_completeness auto
termination
  by (relation "measure (\<lambda>(body, it, r, bo, newRgn). iter_left it)") (auto dest: Next_iter_left)

declare for_each_rect.simps [simp del]

section \<open>Inset\<close>

text \<open>Coordinates are 32 bits wide; a sum that does not fit is undefined.\<close>

definition int32_sum :: "int \<Rightarrow> int option" where
  "int32_sum v = (if - (2 ^ 31) \<le> v \<and> v < 2 ^ 31 then Some v else None)"

definition inset_body :: "EmCoord \<Rightarrow> EmRect \<Rightarrow> EmRegionImpl \<Rightarrow> (EmRect \<times> EmRegionImpl) option" where
  "inset_body dx r newRgn =
     (case (int32_sum (fLeft r + dx), int32_sum (fRight r - dx)) of
        (Some left, Some right) \<Rightarrow>
          let r = r\<lparr>fLeft := left, fRight := right\<rparr>
          in if \<not> EmRect_IsEmpty r
             then map_option (Pair r) (EmRegion_UnionWith newRgn (EmRegionImpl_rect r))
             else Some (r, newRgn)
      | _ \<Rightarrow> None)"

definition flip_body :: "EmRect \<Rightarrow> EmRegionImpl \<Rightarrow> (EmRect \<times> EmRegionImpl) option" where
  "flip_body r newRgn =
     (let r2 = \<lparr>fTop = fLeft r, fLeft = fTop r, fBottom = fRight r, fRight = fBottom r\<rparr>
      in map_option (Pair r) (EmRegion_UnionWith newRgn (EmRegionImpl_rect r2)))"

text \<open>
  One turn of the \<open>for\<close> loop: inset horizontally, then flip. \<open>r\<close> is uninitialised
  before the first \<open>Next\<close>, which writes all its sides before the body runs.
\<close>

definition inset_turn :: "EmRegionImpl \<Rightarrow> EmRegionImpl \<Rightarrow> EmCoord \<Rightarrow> (EmRegionImpl \<times> EmRegionImpl) option" where
  "inset_turn this newRgn dx =
     (case for_each_rect (inset_body dx) (EmRegionRectIterator_make this) (EmRect_make 0 0 0 0) None
             (EmRegion_BeEmpty newRgn) of
        None \<Rightarrow> None
      | Some new1 \<Rightarrow>
          (case for_each_rect flip_body (EmRegionRectIterator_make new1) (EmRect_make 0 0 0 0) None
                  (EmRegion_BeEmpty new1) of
             None \<Rightarrow> None
           | Some new2 \<Rightarrow> Some (new2, new2)))"

definition EmRegion_Inset :: "EmRegionImpl \<Rightarrow> EmCoord \<Rightarrow> EmCoord \<Rightarrow> EmRegionImpl option" where
  "EmRegion_Inset this dx dy =
     (case inset_turn this EmRegionImpl_empty dx of
        None \<Rightarrow> None
      | Some (this1, newRgn1) \<Rightarrow> map_option fst (inset_turn this1 newRgn1 dy))"

definition EmRegion_Inset_pt :: "EmRegionImpl \<Rightarrow> EmPoint \<Rightarrow> EmRegionImpl option" where
  "EmRegion_Inset_pt this pt = EmRegion_Inset this (fX pt) (fY pt)"

end
