(* ===== verification/RegionLines.thy ===== *)
theory RegionLines
  imports Region
begin

text \<open>
  The structure behind the flat buffers of \<open>Region\<close>: a list of scanlines, each a
  y-coordinate with its x-events. \<open>enc\<close> writes a list of scanlines as a buffer,
  \<open>in_lines\<close> reads it as a set of points (the x-events toggle between outside and
  inside), \<open>rects_of\<close> decomposes it into rectangles. The lemmas show that the loops of
  \<open>Region\<close> over encoded buffers compute on this structure.
\<close>

section \<open>Scanlines\<close>

type_synonym scanline = "int \<times> int list"

fun enc_line :: "scanline \<Rightarrow> int list" where
  "enc_line (y, xs) = (int (length xs) + 1) # y # xs"

definition encs :: "scanline list \<Rightarrow> int list" where
  "encs ls = concat (map enc_line ls)"

definition enc :: "scanline list \<Rightarrow> int list" where
  "enc ls = encs ls @ [0]"

lemma encs_simps [simp]:
  "encs [] = []" "encs (l # ls) = enc_line l @ encs ls" "encs (ls @ ms) = encs ls @ encs ms"
  by (simp_all add: encs_def)

lemma enc_simps [simp]: "enc [] = [0]" "enc (l # ls) = enc_line l @ enc ls"
  by (simp_all add: enc_def)

lemma length_enc_line [simp]: "length (enc_line l) = length (snd l) + 2"
  by (cases l) simp

definition in_xs :: "int list \<Rightarrow> int \<Rightarrow> bool" where
  "in_xs xs x \<longleftrightarrow> odd (length (filter (\<lambda>a. a \<le> x) xs))"

lemma in_xs_simps [simp]: "\<not> in_xs [] x" "in_xs (a # xs) x \<longleftrightarrow> (a \<le> x) \<noteq> in_xs xs x"
  by (auto simp: in_xs_def)

lemma in_xs_append: "in_xs (xs @ ys) x \<longleftrightarrow> in_xs xs x \<noteq> in_xs ys x"
  by (auto simp: in_xs_def)

lemma in_xs_below: "\<forall>a\<in>set xs. x < a \<Longrightarrow> \<not> in_xs xs x"
  by (induction xs) auto

lemma in_xs_above: "\<forall>a\<in>set xs. a \<le> x \<Longrightarrow> in_xs xs x \<longleftrightarrow> odd (length xs)"
  by (induction xs) auto

fun line_at :: "int list \<Rightarrow> scanline list \<Rightarrow> int \<Rightarrow> int list" where
  "line_at cur [] y = cur"
| "line_at cur ((y0, xs) # ls) y = (if y < y0 then cur else line_at xs ls y)"

definition in_lines :: "scanline list \<Rightarrow> int \<Rightarrow> int \<Rightarrow> bool" where
  "in_lines ls x y \<longleftrightarrow> in_xs (line_at [] ls y) x"

definition wf_xs :: "int list \<Rightarrow> bool" where
  "wf_xs xs \<longleftrightarrow> incr xs \<and> even (length xs) \<and> (\<forall>x\<in>set xs. coord_ok x)"

definition wf_lines :: "scanline list \<Rightarrow> bool" where
  "wf_lines ls \<longleftrightarrow> ls \<noteq> [] \<and> incr (map fst ls) \<and>
     (\<forall>l\<in>set ls. coord_ok (fst l) \<and> wf_xs (snd l)) \<and> snd (last ls) = []"

text \<open>What the loops need to walk a buffer; the coordinates need not be ordered.\<close>

definition shape_ok :: "scanline list \<Rightarrow> bool" where
  "shape_ok ls \<longleftrightarrow> ls \<noteq> [] \<and> (\<forall>l\<in>set ls. even (length (snd l))) \<and> snd (last ls) = []"

lemma wf_lines_shape_ok: "wf_lines ls \<Longrightarrow> shape_ok ls"
  by (auto simp: wf_lines_def shape_ok_def wf_xs_def)

lemma wf_xs_Nil [simp]: "wf_xs []"
  by (simp add: wf_xs_def)

lemma shape_ok_Cons:
  "shape_ok (l # ls) \<longleftrightarrow> even (length (snd l)) \<and> (if ls = [] then snd l = [] else shape_ok ls)"
  by (auto simp: shape_ok_def)

section \<open>Decomposition into rectangles\<close>

fun pairs :: "int list \<Rightarrow> (int \<times> int) list" where
  "pairs (l # r # xs) = (l, r) # pairs xs"
| "pairs _ = []"

definition line_rects :: "int \<Rightarrow> int list \<Rightarrow> int \<Rightarrow> EmRect list" where
  "line_rects t xs b = map (\<lambda>(l, r). EmRect_make l t r b) (pairs xs)"

lemma line_rects_simps:
  "line_rects t (l # r # xs) b = EmRect_make l t r b # line_rects t xs b" "line_rects t [] b = []"
  by (simp_all add: line_rects_def)

lemma set_line_rects:
  "rc \<in> set (line_rects t xs b) \<longleftrightarrow> (\<exists>l r. (l, r) \<in> set (pairs xs) \<and> rc = EmRect_make l t r b)"
  by (auto simp: line_rects_def)

fun rects_of :: "scanline list \<Rightarrow> EmRect list" where
  "rects_of ((y, xs) # (y', xs') # ls) =
     line_rects y xs y' @ rects_of ((y', xs') # ls)"
| "rects_of _ = []"

lemmas rects_of_induct = rects_of.induct [case_names "1" none lone]

lemma pair_loop_enc:
  assumes "even (length xs)" and "n = int (length xs) + 1" and "xs \<noteq> [] \<Longrightarrow> bo = Some b"
  shows "pair_loop body n t bo (xs @ rest) acc =
    Some (fold body (line_rects t xs b) acc, rest)"
  using assms
proof (induction xs arbitrary: n acc rule: pairs.induct)
  case (1 l r xs)
  then show ?case by (subst pair_loop.simps) (simp add: add.commute line_rects_simps)
qed (auto simp: pair_loop.simps line_rects_simps)

lemma scan_loop_enc:
  "shape_ok ls \<Longrightarrow> scan_loop body (enc ls @ rest) acc = Some (fold body (rects_of ls) acc, rest)"
proof (induction ls arbitrary: acc rule: rects_of_induct)
  case (1 y xs y' xs' ls)
  let ?tail = "enc ((y', xs') # ls) @ rest"
  have pk: "peek (xs @ ?tail) (int (length xs) + 1) = Some y'"
    by (simp add: peek_append_right) (simp add: peek_def)
  have "even (length xs)" using "1.prems" by (simp add: shape_ok_def)
  then have pl: "pair_loop body (int (length xs) + 1) y (Some y') (xs @ ?tail) acc =
      Some (fold body (line_rects y xs y') acc, ?tail)"
    by (intro pair_loop_enc) auto
  have "shape_ok ((y', xs') # ls)" using "1.prems" by (auto simp: shape_ok_def)
  then show ?case
    using "1.IH" pk pl by (subst scan_loop.simps) simp
next
  case (lone v)
  then show ?case
    by (cases v) (auto simp: shape_ok_def scan_loop.simps pair_loop.simps)
qed (simp add: shape_ok_def)

lemma pairs_nonempty: "incr xs \<Longrightarrow> (l, r) \<in> set (pairs xs) \<Longrightarrow> l < r \<and> l \<in> set xs \<and> r \<in> set xs"
  by (induction xs rule: pairs.induct) auto

lemma in_xs_pairs:
  "incr xs \<Longrightarrow> even (length xs) \<Longrightarrow> in_xs xs x \<longleftrightarrow> (\<exists>(l, r)\<in>set (pairs xs). l \<le> x \<and> x < r)"
proof (induction xs rule: pairs.induct)
  case (1 l r xs)
  show ?case
  proof (cases "x < r")
    case True
    then have "\<forall>a\<in>set xs. x < a" using "1.prems" by auto
    then have "\<not> in_xs xs x" by (rule in_xs_below)
    moreover have "\<not> (\<exists>(l, r)\<in>set (pairs xs). l \<le> x \<and> x < r)"
      using "1.IH" "1.prems" calculation by simp
    ultimately show ?thesis using True by auto
  next
    case False
    then show ?thesis using "1.IH" "1.prems" by auto
  qed
qed auto

lemma rects_of_below:
  "wf_lines ls \<Longrightarrow> r \<in> set (rects_of ls) \<Longrightarrow> fst (hd ls) \<le> fTop r"
proof (induction ls rule: rects_of_induct)
  case (1 y xs y' xs' ls)
  have "wf_lines ((y', xs') # ls)" "y < y'" using "1.prems" by (auto simp: wf_lines_def)
  then show ?case using "1.IH" "1.prems" by (auto simp: EmRect_make_def set_line_rects)
qed auto

lemma wf_lines_tl: "wf_lines (l # l' # ls) \<Longrightarrow> wf_lines (l' # ls)"
  by (auto simp: wf_lines_def)

lemma line_at_below: "incr (map fst ls) \<Longrightarrow> (ls \<noteq> [] \<Longrightarrow> y < fst (hd ls)) \<Longrightarrow> line_at cur ls y = cur"
  by (cases ls) auto

lemma in_lines_rects:
  "wf_lines ls \<Longrightarrow> in_lines ls x y \<longleftrightarrow> (\<exists>r\<in>set (rects_of ls). (x, y) \<in> rect_pts r)"
proof (induction ls rule: rects_of_induct)
  case (1 y0 xs y1 xs' ls)
  let ?tail = "(y1, xs') # ls"
  have wf: "wf_lines ?tail" and lt: "y0 < y1" and xs: "incr xs" "even (length xs)"
    using "1.prems" by (auto simp: wf_lines_def wf_xs_def)
  have IH: "in_lines ?tail x y \<longleftrightarrow> (\<exists>r\<in>set (rects_of ?tail). (x, y) \<in> rect_pts r)"
    using "1.IH" wf by simp
  have first: "(\<exists>r\<in>set (line_rects y0 xs y1). (x, y) \<in> rect_pts r) \<longleftrightarrow>
      y0 \<le> y \<and> y < y1 \<and> in_xs xs x"
    unfolding in_xs_pairs [OF xs] set_line_rects by (fastforce simp: EmRect_make_def rect_pts_iff Bex_def set_line_rects)
  consider "y < y0" | "y0 \<le> y" "y < y1" | "y1 \<le> y" by linarith
  then show ?case
  proof cases
    case 3
    then show ?thesis using first IH lt by (auto simp: in_lines_def)
  next
    case 2
    then have "\<not> (\<exists>r\<in>set (rects_of ?tail). (x, y) \<in> rect_pts r)"
      using rects_of_below [OF wf] by (fastforce simp: rect_pts_iff)
    then show ?thesis using first 2 by (auto simp: in_lines_def)
  next
    case 1
    then have "\<not> (\<exists>r\<in>set (rects_of ?tail). (x, y) \<in> rect_pts r)"
      using rects_of_below [OF wf] lt by (fastforce simp: rect_pts_iff)
    then show ?thesis using first 1 lt by (auto simp: in_lines_def)
  qed
next
  case (lone v)
  then show ?case by (cases v) (auto simp: in_lines_def wf_lines_def)
qed (simp add: wf_lines_def)

lemma rects_of_nonempty:
  "wf_lines ls \<Longrightarrow> r \<in> set (rects_of ls) \<Longrightarrow> \<not> EmRect_IsEmpty r"
proof (induction ls rule: rects_of_induct)
  case (1 y xs y' xs' ls)
  have "wf_lines ((y', xs') # ls)" "y < y'" "incr xs" using "1.prems" by (auto simp: wf_lines_def wf_xs_def)
  then show ?case
    using "1.IH" "1.prems" pairs_nonempty [of xs]
    by (fastforce simp: EmRect_make_def EmRect_IsEmpty_def set_line_rects)
qed auto

lemma rects_of_coords:
  "wf_lines ls \<Longrightarrow> r \<in> set (rects_of ls) \<Longrightarrow>
     coord_ok (fLeft r) \<and> coord_ok (fRight r) \<and> coord_ok (fTop r) \<and> coord_ok (fBottom r) \<and>
     fBottom r \<le> fst (last ls)"
proof (induction ls rule: rects_of_induct)
  case (1 y xs y' xs' ls)
  have wf: "wf_lines ((y', xs') # ls)" and xs: "incr xs" "\<forall>x\<in>set xs. coord_ok x"
    and ys: "coord_ok y" "coord_ok y'" and le: "y' \<le> fst (last ((y', xs') # ls))"
    using "1.prems" by (auto simp: wf_lines_def wf_xs_def intro: less_imp_le)
  from "1.prems" consider "r \<in> set (line_rects y xs y')"
    | "r \<in> set (rects_of ((y', xs') # ls))" by (metis Un_iff rects_of.simps(1) set_append)
  then show ?case
  proof cases
    case 1
    then show ?thesis using pairs_nonempty [OF xs(1)] xs(2) ys le
      by (auto simp: EmRect_make_def set_line_rects)
  next
    case 2
    then show ?thesis using "1.IH" wf by auto
  qed
qed auto

section \<open>The bounding box\<close>

definition bounds_of :: "scanline list \<Rightarrow> EmRect" where
  "bounds_of ls = fold (\<lambda>r b. EmRect_UnionWith b r) (rects_of ls) (EmRect_make 0 0 0 0)"

lemma fold_UnionWith_upper:
  "rect_pts b \<subseteq> rect_pts (fold (\<lambda>r b. EmRect_UnionWith b r) rs b)"
  "r \<in> set rs \<Longrightarrow> rect_pts r \<subseteq> rect_pts (fold (\<lambda>r b. EmRect_UnionWith b r) rs b)"
proof (induction rs arbitrary: b)
  case (Cons s rs)
  { case 1 show ?case using Cons.IH(1) [of "EmRect_UnionWith b s"] rect_pts_UnionWith_subset(1) by simp blast }
  { case 2 then show ?case
      using Cons.IH(1) [of "EmRect_UnionWith b s"] Cons.IH(2) rect_pts_UnionWith_subset(2) by simp blast }
qed auto

lemma fold_UnionWith_least:
  "rect_pts b \<subseteq> rect_pts t \<Longrightarrow> \<forall>r\<in>set rs. rect_pts r \<subseteq> rect_pts t \<Longrightarrow>
     rect_pts (fold (\<lambda>r b. EmRect_UnionWith b r) rs b) \<subseteq> rect_pts t"
  by (induction rs arbitrary: b) (auto simp: EmRect_UnionWith_least)

lemma rect_pts_zero [simp]: "rect_pts (EmRect_make 0 0 0 0) = {}"
  by (auto simp: rect_pts_def EmRect_make_def)

end
