(* ===== verification/RegionMerge.thy ===== *)
theory RegionMerge
  imports RegionLines
begin

text \<open>
  The scanline algorithm of \<open>RegionOp\<close> on lists of scanlines: \<open>mrg\<close> merges the
  x-events of two scanlines, \<open>alines\<close> the scanlines of two regions. First what they
  compute (the set operation, on a line and on the plane), then that the loops of
  \<open>Region\<close> over encoded buffers compute them and stay inside the destination buffer.
\<close>

section \<open>The merge of two scanlines\<close>

definition fv :: "bool \<Rightarrow> bool \<Rightarrow> int" where
  "fv b1 b2 = of_bool b1 + 2 * of_bool b2"

definition opsem :: "EOpcode \<Rightarrow> bool \<Rightarrow> bool \<Rightarrow> bool" where
  "opsem code a b = (case code of
     eUnion \<Rightarrow> a \<or> b | eDifference \<Rightarrow> a \<and> \<not> b | eRevDifference \<Rightarrow> b \<and> \<not> a | eIntersection \<Rightarrow> a \<and> b)"

lemma fv_opval: "((fv a b = opval code) \<noteq> (fv False False = opval code)) = opsem code a b"
  by (cases code; cases a; cases b) (auto simp: fv_def opsem_def)

lemma opsem_False [simp]: "\<not> opsem code False False"
  by (cases code) (auto simp: opsem_def)

definition hit :: "EOpcode \<Rightarrow> bool \<Rightarrow> bool \<Rightarrow> bool \<Rightarrow> bool \<Rightarrow> bool" where
  "hit code b1 b2 c1 c2 \<longleftrightarrow> fv c1 c2 = opval code \<or> fv b1 b2 = opval code"

fun mrg :: "EOpcode \<Rightarrow> bool \<Rightarrow> bool \<Rightarrow> int list \<Rightarrow> int list \<Rightarrow> int list" where
  "mrg code b1 b2 (a # xs) (b # ys) =
     (if a < b then (if hit code b1 b2 (\<not> b1) b2 then [a] else []) @ mrg code (\<not> b1) b2 xs (b # ys)
      else if b < a then (if hit code b1 b2 b1 (\<not> b2) then [b] else []) @ mrg code b1 (\<not> b2) (a # xs) ys
      else (if hit code b1 b2 (\<not> b1) (\<not> b2) then [b] else []) @ mrg code (\<not> b1) (\<not> b2) xs ys)"
| "mrg code b1 b2 xs ys =
     (if code = eUnion \<or> code = eDifference then xs else []) @
     (if code = eUnion \<or> code = eRevDifference then ys else [])"

lemmas mrg_induct = mrg.induct [case_names "1" right left]

lemma set_mrg: "set (mrg code b1 b2 xs ys) \<subseteq> set xs \<union> set ys"
  by (induction code b1 b2 xs ys rule: mrg_induct) auto

lemma length_mrg: "length (mrg code b1 b2 xs ys) \<le> length xs + length ys"
  by (induction code b1 b2 xs ys rule: mrg_induct) auto

lemma incr_mrg: "incr xs \<Longrightarrow> incr ys \<Longrightarrow> incr (mrg code b1 b2 xs ys)"
proof (induction code b1 b2 xs ys rule: mrg_induct)
  case (1 code b1 b2 a xs b ys)
  consider "a < b" | "b < a" | "a = b" by linarith
  then show ?case
  proof cases
    case 1
    then show ?thesis using "1.IH"(1) "1.prems" set_mrg [of code "\<not> b1" b2 xs "b # ys"] by fastforce
  next
    case 2
    then show ?thesis using "1.IH"(2) "1.prems" set_mrg [of code b1 "\<not> b2" "a # xs" ys] by fastforce
  next
    case 3
    then show ?thesis using "1.IH"(3) "1.prems" set_mrg [of code "\<not> b1" "\<not> b2" xs ys] by fastforce
  qed
qed auto

text \<open>The state of the merge at a coordinate, from the state bits and the events still to come.\<close>

definition state_at :: "bool \<Rightarrow> bool \<Rightarrow> int list \<Rightarrow> int list \<Rightarrow> int \<Rightarrow> int" where
  "state_at b1 b2 xs ys x = fv (b1 \<noteq> in_xs xs x) (b2 \<noteq> in_xs ys x)"

lemma hit_iff:
  assumes "(c1, c2) \<noteq> (b1, b2)"
  shows "hit code b1 b2 c1 c2 \<longleftrightarrow> (fv c1 c2 = opval code) \<noteq> (fv b1 b2 = opval code)"
  using assms by (cases code; cases b1; cases b2; cases c1; cases c2) (auto simp: hit_def fv_def)

text \<open>
  An event list toggles exactly where the state starts or stops being the opcode. When one
  scanline is exhausted its state bit is off, which the parities of the hypotheses say.
\<close>

lemma in_xs_mrg:
  assumes "incr xs" and "incr ys" and "odd (length xs) = b1" and "odd (length ys) = b2"
  shows "in_xs (mrg code b1 b2 xs ys) x \<longleftrightarrow>
    (state_at b1 b2 xs ys x = opval code) \<noteq> (fv b1 b2 = opval code)"
  using assms
proof (induction code b1 b2 xs ys rule: mrg_induct)
  case (1 code b1 b2 a xs b ys)
  consider "a < b" | "b < a" | "a = b" by linarith
  then show ?case
  proof cases
    case 1
    show ?thesis
    proof (cases "a \<le> x")
      case True
      then show ?thesis
        using 1 "1.IH"(1) "1.prems" hit_iff [of "\<not> b1" b2 b1 b2 code] by (auto simp: state_at_def)
    next
      case False
      then have "\<forall>c\<in>set xs \<union> set (b # ys). x < c" using 1 "1.prems" by auto
      then have "\<not> in_xs xs x" "\<not> in_xs (b # ys) x" "\<not> in_xs (mrg code (\<not> b1) b2 xs (b # ys)) x"
        using set_mrg [of code "\<not> b1" b2 xs "b # ys"]
        by (auto simp del: in_xs_simps intro!: in_xs_below)
      then show ?thesis using 1 False by (auto simp: state_at_def)
    qed
  next
    case 2
    show ?thesis
    proof (cases "b \<le> x")
      case True
      then show ?thesis
        using 2 "1.IH"(2) "1.prems" hit_iff [of b1 "\<not> b2" b1 b2 code] by (auto simp: state_at_def)
    next
      case False
      then have "\<forall>c\<in>set (a # xs) \<union> set ys. x < c" using 2 "1.prems" by auto
      then have "\<not> in_xs (a # xs) x" "\<not> in_xs ys x" "\<not> in_xs (mrg code b1 (\<not> b2) (a # xs) ys) x"
        using set_mrg [of code b1 "\<not> b2" "a # xs" ys]
        by (auto simp del: in_xs_simps intro!: in_xs_below)
      then show ?thesis using 2 False by (auto simp: state_at_def)
    qed
  next
    case 3
    show ?thesis
    proof (cases "b \<le> x")
      case True
      then show ?thesis
        using 3 "1.IH"(3) "1.prems" hit_iff [of "\<not> b1" "\<not> b2" b1 b2 code] by (auto simp: state_at_def)
    next
      case False
      then have "\<forall>c\<in>set xs \<union> set ys. x < c" using 3 "1.prems" by auto
      then have "\<not> in_xs xs x" "\<not> in_xs ys x" "\<not> in_xs (mrg code (\<not> b1) (\<not> b2) xs ys) x"
        using set_mrg [of code "\<not> b1" "\<not> b2" xs ys] by (auto intro!: in_xs_below)
      then show ?thesis using 3 False by (auto simp: state_at_def)
    qed
  qed
next
  case (right code b1 b2 ys)
  then show ?case
    by (cases code; cases "in_xs ys x"; cases b2) (auto simp: state_at_def fv_def)
next
  case (left code b1 b2 xs)
  then show ?case
    by (cases code; cases "in_xs xs x"; cases b1) (auto simp: state_at_def fv_def)
qed

lemma in_xs_mrg_start:
  assumes "wf_xs xs" and "wf_xs ys"
  shows "in_xs (mrg code False False xs ys) x \<longleftrightarrow> opsem code (in_xs xs x) (in_xs ys x)"
  using in_xs_mrg [of xs ys False False code x] assms fv_opval [of "in_xs xs x" "in_xs ys x" code]
  by (auto simp: wf_xs_def state_at_def)

lemma in_xs_even: "(\<And>x. in_xs zs x \<Longrightarrow> x < m) \<Longrightarrow> even (length zs)"
proof -
  assume m: "\<And>x. in_xs zs x \<Longrightarrow> x < m"
  define M where "M = Max (insert m (set zs))"
  have M: "m \<le> M" "\<forall>a\<in>set zs. a \<le> M" by (auto simp: M_def)
  then have "in_xs zs M \<longleftrightarrow> odd (length zs)" by (intro in_xs_above) auto
  with m [of M] M show ?thesis by auto
qed

lemma wf_xs_mrg:
  assumes xs: "wf_xs xs" and ys: "wf_xs ys"
  shows "wf_xs (mrg code False False xs ys)"
proof -
  define M where "M = Max (insert 0 (set xs \<union> set ys)) + 1"
  have le: "a \<le> Max (insert 0 (set xs \<union> set ys))" if "a \<in> set xs \<union> set ys" for a
    using that by (intro Max_ge) auto
  have "a \<le> x" if "M \<le> x" and "a \<in> set xs \<union> set ys" for x a
    using le [OF that(2)] that(1) unfolding M_def by linarith
  then have "\<not> in_xs xs x \<and> \<not> in_xs ys x" if "M \<le> x" for x
    using that in_xs_above [of xs x] in_xs_above [of ys x] xs ys by (auto simp: wf_xs_def)
  then have "in_xs (mrg code False False xs ys) x \<Longrightarrow> x < M" for x
    using in_xs_mrg_start [OF xs ys] by (metis not_less opsem_False)
  then have "even (length (mrg code False False xs ys))" by (rule in_xs_even)
  then show ?thesis
    using xs ys incr_mrg set_mrg by (fastforce simp: wf_xs_def)
qed

section \<open>The merge of two lists of scanlines\<close>

definition push :: "scanline list \<Rightarrow> scanline \<Rightarrow> scanline list" where
  "push dn l = (if snd l \<noteq> [] \<and> dn \<noteq> [] \<and> snd (last dn) = snd l then dn else dn @ [l])"

fun alines :: "EOpcode \<Rightarrow> scanline list \<Rightarrow> scanline list \<Rightarrow> int list \<Rightarrow> int list
    \<Rightarrow> scanline list \<Rightarrow> scanline list" where
  "alines code [] [] c1 c2 dn = dn"
| "alines code ((y, xs) # t1) [] c1 c2 dn =
     alines code t1 [] xs c2 (push dn (y, mrg code False False xs c2))"
| "alines code [] ((y, ys) # t2) c1 c2 dn =
     alines code [] t2 c1 ys (push dn (y, mrg code False False c1 ys))"
| "alines code ((y1, xs) # t1) ((y2, ys) # t2) c1 c2 dn =
     (if y1 < y2 then alines code t1 ((y2, ys) # t2) xs c2 (push dn (y1, mrg code False False xs c2))
      else if y2 < y1 then alines code ((y1, xs) # t1) t2 c1 ys (push dn (y2, mrg code False False c1 ys))
      else alines code t1 t2 xs ys (push dn (y2, mrg code False False xs ys)))"

definition lines_ok :: "scanline list \<Rightarrow> bool" where
  "lines_ok ls \<longleftrightarrow> incr (map fst ls) \<and> (\<forall>l\<in>set ls. coord_ok (fst l) \<and> wf_xs (snd l))"

lemma lines_ok_Cons:
  "lines_ok ((y, xs) # ls) \<longleftrightarrow> (\<forall>l\<in>set ls. y < fst l) \<and> coord_ok y \<and> wf_xs xs \<and> lines_ok ls"
  by (auto simp: lines_ok_def)

lemma lines_ok_Nil [simp]: "lines_ok []"
  by (simp add: lines_ok_def)

text \<open>
  What \<open>alines\<close> keeps of the scanlines done: they are ordered and lie above the
  scanlines still to come (\<open>over\<close>).
\<close>

definition over :: "scanline list \<Rightarrow> scanline list \<Rightarrow> bool" where
  "over dn ls \<longleftrightarrow> (\<forall>d\<in>set dn. \<forall>l\<in>set ls. fst d < fst l)"

lemma lines_ok_push:
  "lines_ok dn \<Longrightarrow> coord_ok y \<Longrightarrow> wf_xs xs \<Longrightarrow> \<forall>d\<in>set dn. fst d < y \<Longrightarrow> lines_ok (push dn (y, xs))"
  by (auto simp: lines_ok_def push_def sorted_wrt_append)

lemma set_push: "set (push dn l) \<subseteq> insert l (set dn)"
  by (auto simp: push_def)

lemma lines_ok_alines:
  assumes "lines_ok s1" and "lines_ok s2" and "wf_xs c1" and "wf_xs c2" and "lines_ok dn"
    and "over dn s1" and "over dn s2"
  shows "lines_ok (alines code s1 s2 c1 c2 dn)"
  using assms
proof (induction code s1 s2 c1 c2 dn rule: alines.induct)
  case (2 code y xs t1 c1 c2 dn)
  then show ?case
    using set_push [of dn "(y, mrg code False False xs c2)"]
    by (simp add: lines_ok_Cons lines_ok_push wf_xs_mrg over_def) fastforce
next
  case (3 code y ys t2 c1 c2 dn)
  then show ?case
    using set_push [of dn "(y, mrg code False False c1 ys)"]
    by (simp add: lines_ok_Cons lines_ok_push wf_xs_mrg over_def) fastforce
next
  case (4 code y1 xs t1 y2 ys t2 c1 c2 dn)
  consider "y1 < y2" | "y2 < y1" | "y1 = y2" by linarith
  then show ?case
  proof cases
    case 1
    then show ?thesis
      using "4.IH"(1) "4.prems" set_push [of dn "(y1, mrg code False False xs c2)"]
      by (simp add: lines_ok_Cons lines_ok_push wf_xs_mrg over_def) fastforce
  next
    case 2
    then show ?thesis
      using "4.IH"(2) "4.prems" set_push [of dn "(y2, mrg code False False c1 ys)"]
      by (simp add: lines_ok_Cons lines_ok_push wf_xs_mrg over_def) fastforce
  next
    case 3
    then show ?thesis
      using "4.IH"(3) "4.prems" set_push [of dn "(y2, mrg code False False xs ys)"]
      by (simp add: lines_ok_Cons lines_ok_push wf_xs_mrg over_def) fastforce
  qed
qed auto

subsection \<open>The result is the set operation\<close>

lemma line_at_after:
  "incr (map fst ls) \<Longrightarrow> ls \<noteq> [] \<Longrightarrow> \<forall>l\<in>set ls. fst l \<le> y \<Longrightarrow> line_at cur ls y = snd (last ls)"
  by (induction cur ls y rule: line_at.induct) auto

lemma line_at_snoc:
  "incr (map fst ls) \<Longrightarrow> \<forall>l\<in>set ls. fst l < y0 \<Longrightarrow>
     line_at cur (ls @ [(y0, xs)]) y = (if y < y0 then line_at cur ls y else xs)"
  by (induction cur ls y rule: line_at.induct) (auto split: if_splits)

lemma line_at_push:
  assumes "lines_ok dn" and "\<forall>d\<in>set dn. fst d < y0"
  shows "line_at cur (push dn (y0, xs)) y = (if y < y0 then line_at cur dn y else xs)"
proof (cases "xs \<noteq> [] \<and> dn \<noteq> [] \<and> snd (last dn) = xs")
  case True
  have "line_at cur dn y = xs" if "y0 \<le> y"
    using assms that True line_at_after [of dn y cur] by (fastforce simp: lines_ok_def)
  with True show ?thesis by (auto simp: push_def)
next
  case False
  then show ?thesis using assms by (auto simp: push_def lines_ok_def line_at_snoc)
qed

lemma over_push:
  "over dn ((y, xs) # t) \<Longrightarrow> lines_ok ((y, xs) # t) \<Longrightarrow> over (push dn (y, zs)) t"
  using set_push [of dn "(y, zs)"] by (fastforce simp: over_def lines_ok_Cons)

lemma over_push_other:
  "over dn s \<Longrightarrow> \<forall>l\<in>set s. y < fst l \<Longrightarrow> over (push dn (y, zs)) s"
  using set_push [of dn "(y, zs)"] by (fastforce simp: over_def)

lemma line_at_before: "\<not> (\<exists>l\<in>set ls. fst l \<le> y) \<Longrightarrow> line_at cur ls y = cur"
  by (cases ls) auto

definition reached :: "scanline list \<Rightarrow> scanline list \<Rightarrow> int \<Rightarrow> bool" where
  "reached s1 s2 y \<longleftrightarrow> (\<exists>l\<in>set s1 \<union> set s2. fst l \<le> y)"

lemma lines_ok_later: "lines_ok ((y, xs) # t) \<Longrightarrow> l \<in> set t \<Longrightarrow> y < fst l"
  by (auto simp: lines_ok_Cons)

text \<open>One turn of the loop: the event at \<open>y0\<close> makes \<open>n1\<close> and \<open>n2\<close> current.\<close>

lemma alines_step:
  assumes dn: "lines_ok dn" "\<forall>d\<in>set dn. fst d < y0" and n: "wf_xs n1" "wf_xs n2"
    and now: "reached s1 s2 y \<longleftrightarrow> y0 \<le> y" and later: "\<forall>l\<in>set t1 \<union> set t2. y0 < fst l"
    and cur: "y0 \<le> y \<Longrightarrow> line_at c1 s1 y = line_at n1 t1 y \<and> line_at c2 s2 y = line_at n2 t2 y"
    and IH: "in_xs (line_at [] R y) x \<longleftrightarrow>
      (if reached t1 t2 y then opsem code (in_xs (line_at n1 t1 y) x) (in_xs (line_at n2 t2 y) x)
       else in_xs (line_at [] (push dn (y0, mrg code False False n1 n2)) y) x)"
  shows "in_xs (line_at [] R y) x \<longleftrightarrow>
    (if reached s1 s2 y then opsem code (in_xs (line_at c1 s1 y) x) (in_xs (line_at c2 s2 y) x)
     else in_xs (line_at [] dn y) x)"
proof (cases "y < y0")
  case True
  then have "\<not> reached t1 t2 y"
    using later unfolding reached_def by (meson less_le_trans not_less_iff_gr_or_eq)
  then show ?thesis using True now IH dn by (simp add: line_at_push)
next
  case False
  show ?thesis
  proof (cases "reached t1 t2 y")
    case True
    then show ?thesis using False now IH cur by simp
  next
    case unreached: False
    then have "line_at n1 t1 y = n1" "line_at n2 t2 y = n2"
      by (auto simp: reached_def intro!: line_at_before)
    then show ?thesis using False now IH cur dn n unreached by (simp add: line_at_push in_xs_mrg_start)
  qed
qed

lemma reached_Cons:
  "lines_ok ((y0, xs) # t) \<Longrightarrow> \<forall>l\<in>set s. y0 \<le> fst l \<Longrightarrow> reached ((y0, xs) # t) s y \<longleftrightarrow> y0 \<le> y"
  "lines_ok ((y0, xs) # t) \<Longrightarrow> \<forall>l\<in>set s. y0 \<le> fst l \<Longrightarrow> reached s ((y0, xs) # t) y \<longleftrightarrow> y0 \<le> y"
  by (fastforce simp: reached_def lines_ok_Cons)+

lemma in_xs_alines:
  assumes "lines_ok s1" and "lines_ok s2" and "wf_xs c1" and "wf_xs c2" and "lines_ok dn"
    and "over dn s1" and "over dn s2"
  shows "in_xs (line_at [] (alines code s1 s2 c1 c2 dn) y) x \<longleftrightarrow>
    (if reached s1 s2 y then opsem code (in_xs (line_at c1 s1 y) x) (in_xs (line_at c2 s2 y) x)
     else in_xs (line_at [] dn y) x)"
  using assms
proof (induction code s1 s2 c1 c2 dn rule: alines.induct)
  case (1 code c1 c2 dn)
  then show ?case by (simp add: reached_def)
next
  case (2 code y1 xs t1 c1 c2 dn)
  have ok: "lines_ok t1" "wf_xs xs" "coord_ok y1" "\<forall>d\<in>set dn. fst d < y1"
    using "2.prems" by (auto simp: lines_ok_Cons over_def)
  have "lines_ok (push dn (y1, mrg code False False xs c2))"
    and "over (push dn (y1, mrg code False False xs c2)) t1"
    using "2.prems" ok by (auto intro: lines_ok_push wf_xs_mrg over_push)
  then have IH: "in_xs (line_at [] (alines code t1 [] xs c2 (push dn (y1, mrg code False False xs c2))) y) x \<longleftrightarrow>
      (if reached t1 [] y then opsem code (in_xs (line_at xs t1 y) x) (in_xs (line_at c2 [] y) x)
       else in_xs (line_at [] (push dn (y1, mrg code False False xs c2)) y) x)"
    using "2.IH" "2.prems" ok by (simp add: over_def)
  show ?case
    using alines_step [OF "2.prems"(5) ok(4) ok(2) "2.prems"(4) _ _ _ IH]
      lines_ok_later [OF "2.prems"(1)] "2.prems"(1)
    by (simp add: reached_Cons)
next
  case (3 code y2 ys t2 c1 c2 dn)
  have ok: "lines_ok t2" "wf_xs ys" "coord_ok y2" "\<forall>d\<in>set dn. fst d < y2"
    using "3.prems" by (auto simp: lines_ok_Cons over_def)
  have "lines_ok (push dn (y2, mrg code False False c1 ys))"
    and "over (push dn (y2, mrg code False False c1 ys)) t2"
    using "3.prems" ok by (auto intro: lines_ok_push wf_xs_mrg over_push)
  then have IH: "in_xs (line_at [] (alines code [] t2 c1 ys (push dn (y2, mrg code False False c1 ys))) y) x \<longleftrightarrow>
      (if reached [] t2 y then opsem code (in_xs (line_at c1 [] y) x) (in_xs (line_at ys t2 y) x)
       else in_xs (line_at [] (push dn (y2, mrg code False False c1 ys)) y) x)"
    using "3.IH" "3.prems" ok by (simp add: over_def)
  show ?case
    using alines_step [OF "3.prems"(5) ok(4) "3.prems"(3) ok(2) _ _ _ IH]
      lines_ok_later [OF "3.prems"(2)] "3.prems"(2)
    by (simp add: reached_Cons)
next
  case (4 code y1 xs t1 y2 ys t2 c1 c2 dn)
  let ?s1 = "(y1, xs) # t1" and ?s2 = "(y2, ys) # t2"
  have ok: "lines_ok t1" "wf_xs xs" "coord_ok y1" "\<forall>d\<in>set dn. fst d < y1"
    "lines_ok t2" "wf_xs ys" "coord_ok y2" "\<forall>d\<in>set dn. fst d < y2"
    using "4.prems" by (auto simp: lines_ok_Cons over_def)
  note later = lines_ok_later [OF "4.prems"(1)] lines_ok_later [OF "4.prems"(2)]
  consider "y1 < y2" | "y2 < y1" | "y1 = y2" by linarith
  then show ?case
  proof cases
    case 1
    let ?dn = "push dn (y1, mrg code False False xs c2)"
    have l: "\<forall>l\<in>set ?s2. y1 < fst l" using 1 later(2) by fastforce
    have "lines_ok ?dn" using "4.prems" ok by (intro lines_ok_push wf_xs_mrg)
    moreover have "over ?dn t1" using "4.prems"(6,1) by (rule over_push)
    moreover have "over ?dn ?s2" using "4.prems"(7) l by (rule over_push_other)
    ultimately have IH: "in_xs (line_at [] (alines code t1 ?s2 xs c2 ?dn) y) x \<longleftrightarrow>
      (if reached t1 ?s2 y then opsem code (in_xs (line_at xs t1 y) x) (in_xs (line_at c2 ?s2 y) x)
       else in_xs (line_at [] ?dn y) x)"
      using "4.IH"(1) "4.prems" ok 1 by blast
    have eq: "alines code ?s1 ?s2 c1 c2 dn = alines code t1 ?s2 xs c2 ?dn" using 1 by simp
    show ?thesis
      unfolding eq by (rule alines_step [OF "4.prems"(5) ok(4) ok(2) "4.prems"(4) _ _ _ IH])
        (use l later(1) "4.prems"(1) 1 in \<open>auto simp: reached_Cons less_imp_le\<close>)
  next
    case 2
    let ?dn = "push dn (y2, mrg code False False c1 ys)"
    have l: "\<forall>l\<in>set ?s1. y2 < fst l" using 2 later(1) by fastforce
    have "lines_ok ?dn" using "4.prems" ok by (intro lines_ok_push wf_xs_mrg)
    moreover have "over ?dn t2" using "4.prems"(7,2) by (rule over_push)
    moreover have "over ?dn ?s1" using "4.prems"(6) l by (rule over_push_other)
    ultimately have IH: "in_xs (line_at [] (alines code ?s1 t2 c1 ys ?dn) y) x \<longleftrightarrow>
      (if reached ?s1 t2 y then opsem code (in_xs (line_at c1 ?s1 y) x) (in_xs (line_at ys t2 y) x)
       else in_xs (line_at [] ?dn y) x)"
      using "4.IH"(2) "4.prems" ok 2 by auto
    have eq: "alines code ?s1 ?s2 c1 c2 dn = alines code ?s1 t2 c1 ys ?dn" using 2 by simp
    show ?thesis
      unfolding eq by (rule alines_step [OF "4.prems"(5) ok(8) "4.prems"(3) ok(6) _ _ _ IH])
        (use l later(2) "4.prems"(2) 2 in \<open>auto simp: reached_Cons less_imp_le\<close>)
  next
    case 3
    let ?dn = "push dn (y2, mrg code False False xs ys)"
    have "lines_ok ?dn" using "4.prems" ok by (intro lines_ok_push wf_xs_mrg)
    moreover have "over ?dn t1" using "4.prems"(6,1) 3 over_push by metis
    moreover have "over ?dn t2" using "4.prems"(7,2) by (rule over_push)
    ultimately have IH: "in_xs (line_at [] (alines code t1 t2 xs ys ?dn) y) x \<longleftrightarrow>
      (if reached t1 t2 y then opsem code (in_xs (line_at xs t1 y) x) (in_xs (line_at ys t2 y) x)
       else in_xs (line_at [] ?dn y) x)"
      using "4.IH"(3) "4.prems" ok 3 by auto
    have eq: "alines code ?s1 ?s2 c1 c2 dn = alines code t1 t2 xs ys ?dn" using 3 by simp
    show ?thesis
      unfolding eq by (rule alines_step [OF "4.prems"(5) ok(8) ok(2) ok(6) _ _ _ IH])
        (use 3 later "4.prems"(2)  in \<open>auto simp: reached_Cons less_imp_le\<close>)
  qed
qed

end
