(* ===== verification/RegionRefine.thy ===== *)
theory RegionRefine
  imports RegionMerge
begin

unbundle bit_operations_syntax

text \<open>
  The loops of \<open>RegionOp\<close> over encoded buffers compute \<open>mrg\<close> and \<open>alines\<close>:
  every read is inside the source buffers, every write inside the destination buffer of
  \<open>r1.Length () * r2.Length ()\<close> coordinates, and the buffer written is an encoding.
\<close>

section \<open>The last scanline closes the region\<close>

definition closes :: "scanline list \<Rightarrow> int list \<Rightarrow> bool" where
  "closes s c \<longleftrightarrow> (if s = [] then c = [] else snd (last s) = [])"

lemma closes_Cons: "closes ((y, xs) # t) c \<longleftrightarrow> closes t xs"
  by (auto simp: closes_def)

lemma last_push: "dn \<noteq> [] \<Longrightarrow> snd (last dn) = [] \<Longrightarrow> push dn (y, []) \<noteq> [] \<and> snd (last (push dn (y, []))) = []"
  "push dn (y, []) \<noteq> []" "snd (last (push dn (y, []))) = []"
  by (auto simp: push_def)

lemma alines_closed:
  assumes "closes s1 c1" and "closes s2 c2"
    and "s1 = [] \<and> s2 = [] \<Longrightarrow> dn \<noteq> [] \<and> snd (last dn) = []"
  shows "alines code s1 s2 c1 c2 dn \<noteq> [] \<and> snd (last (alines code s1 s2 c1 c2 dn)) = []"
  using assms
proof (induction code s1 s2 c1 c2 dn rule: alines.induct)
  case (2 code y xs t1 c1 c2 dn)
  have "c2 = []" "closes t1 xs" using "2.prems" by (auto simp: closes_def)
  then show ?case using "2.IH" "2.prems" last_push by (cases t1) (auto simp: closes_def)
next
  case (3 code y ys t2 c1 c2 dn)
  have "c1 = []" "closes t2 ys" using "3.prems" by (auto simp: closes_def)
  then show ?case using "3.IH" "3.prems" last_push by (cases t2) (auto simp: closes_def)
next
  case (4 code y1 xs t1 y2 ys t2 c1 c2 dn)
  have c: "closes t1 xs" "closes t2 ys" using "4.prems" by (simp_all add: closes_Cons)
  consider "y1 < y2" | "y2 < y1" | "y1 = y2" by linarith
  then show ?case
  proof cases
    case 3
    have "t1 = [] \<and> t2 = [] \<Longrightarrow> xs = [] \<and> ys = []" using c by (simp add: closes_def)
    then show ?thesis using 3 "4.IH"(3) c last_push by auto
  qed (use "4.IH" "4.prems" c in auto)
qed auto

lemma wf_lines_alines:
  assumes "wf_lines s1" and "wf_lines s2"
  shows "wf_lines (alines code s1 s2 [] [] [])"
proof -
  have "lines_ok (alines code s1 s2 [] [] [])"
    using assms by (intro lines_ok_alines) (auto simp: wf_lines_def lines_ok_def over_def)
  moreover have "alines code s1 s2 [] [] [] \<noteq> [] \<and> snd (last (alines code s1 s2 [] [] [])) = []"
    using assms by (intro alines_closed) (auto simp: wf_lines_def closes_def)
  ultimately show ?thesis by (simp add: wf_lines_def lines_ok_def)
qed

lemma in_lines_alines:
  assumes "wf_lines s1" and "wf_lines s2"
  shows "in_lines (alines code s1 s2 [] [] []) x y \<longleftrightarrow> opsem code (in_lines s1 x y) (in_lines s2 x y)"
proof -
  have "in_lines (alines code s1 s2 [] [] []) x y \<longleftrightarrow>
    (if reached s1 s2 y then opsem code (in_lines s1 x y) (in_lines s2 x y) else False)"
    unfolding in_lines_def
    using assms by (subst in_xs_alines) (auto simp: wf_lines_def lines_ok_def over_def)
  moreover have "\<not> in_lines s1 x y" "\<not> in_lines s2 x y" if "\<not> reached s1 s2 y"
    using that line_at_before [of s1 y "[]"] line_at_before [of s2 y "[]"]
    by (auto simp: in_lines_def reached_def)
  ultimately show ?thesis by auto
qed

section \<open>The size of the destination buffer\<close>

text \<open>The coordinates the rest of the loop can write, turn by turn.\<close>

fun cost :: "scanline list \<Rightarrow> scanline list \<Rightarrow> nat \<Rightarrow> nat \<Rightarrow> nat" where
  "cost [] [] a b = 0"
| "cost ((y, xs) # t1) [] a b = 2 + length xs + b + cost t1 [] (length xs) b"
| "cost [] ((y, ys) # t2) a b = 2 + a + length ys + cost [] t2 a (length ys)"
| "cost ((y1, xs) # t1) ((y2, ys) # t2) a b =
     (if y1 < y2 then 2 + length xs + b + cost t1 ((y2, ys) # t2) (length xs) b
      else if y2 < y1 then 2 + a + length ys + cost ((y1, xs) # t1) t2 a (length ys)
      else 2 + length xs + length ys + cost t1 t2 (length xs) (length ys))"

definition events :: "scanline list \<Rightarrow> nat" where
  "events ls = sum_list (map (length \<circ> snd) ls)"

lemma events_simps [simp]: "events [] = 0" "events ((y, xs) # ls) = length xs + events ls"
  by (simp_all add: events_def)

lemma length_encs: "length (encs ls) = 2 * length ls + events ls"
  by (induction ls) (auto simp: events_def)

lemma cost_le:
  "cost s1 s2 a b \<le> 2 * (length s1 + length s2) + events s1 * (1 + length s2) +
     events s2 * (1 + length s1) + a * length s2 + b * length s1"
  by (induction s1 s2 a b rule: cost.induct) (auto simp: algebra_simps)

text \<open>With a scanline in each region the destination buffer is large enough, strictly.\<close>

lemma cost_lt_buflen:
  assumes "s1 \<noteq> []" and "s2 \<noteq> []"
  shows "cost s1 s2 0 0 + 1 < length (enc s1) * length (enc s2)"
proof -
  let ?m = "length s1" and ?n = "length s2" and ?A = "events s1" and ?B = "events s2"
  have "length (enc s1) * length (enc s2) =
      1 + 2 * (?m + ?n) + ?A * (1 + ?n) + ?B * (1 + ?m) + (4 * (?m * ?n) + ?A * ?n + ?B * ?m + ?A * ?B)"
    by (simp add: enc_def length_encs algebra_simps)
  moreover have "0 < ?m * ?n" using assms by simp
  ultimately show ?thesis using cost_le [of s1 s2 0 0] by linarith
qed

section \<open>The merge loop\<close>

lemma emit_Some: "int (length out + length xs) < buflen \<Longrightarrow> emit buflen out xs = Some (out @ xs)"
  by (simp add: emit_def)

lemma copy_xs_eq:
  "int (length out + length xs) < buflen \<Longrightarrow> l = int (length xs) \<Longrightarrow>
     copy_xs buflen l (xs @ r) out = Some (out @ xs)"
proof (induction xs arbitrary: out l)
  case (Cons a xs)
  then show ?case by (subst copy_xs.simps) (simp add: emit_Some)
qed (simp add: copy_xs.simps)

lemma fv_xor: "fv b1 b2 XOR 1 = fv (\<not> b1) b2" "fv b1 b2 XOR 2 = fv b1 (\<not> b2)"
  by (cases b1; cases b2; simp add: fv_def)+

lemma merge_xs_eq:
  assumes "\<forall>a\<in>set xs \<union> set ys. coord_ok a"
    and "int (length out + length xs + length ys) < buflen"
  shows "merge_xs code buflen (xs @ r1) (ys @ r2) (int (length xs)) (int (length ys))
      (fv b1 b2) (fv b1 b2) out = Some (out @ mrg code b1 b2 xs ys)"
  using assms
proof (induction code b1 b2 xs ys arbitrary: out rule: mrg_induct)
  case (1 code b1 b2 a xs b ys)
  have cc: "c_int (a - b) = a - b" using "1.prems" by (intro c_int_diff) auto
  consider "a < b" | "b < a" | "a = b" by linarith
  then show ?case
  proof cases
    case 1
    then show ?thesis
      using "1.IH"(1) [of "out @ (if hit code b1 b2 (\<not> b1) b2 then [a] else [])"] "1.prems" cc
      by (subst merge_xs.simps) (auto simp: emit_Some fv_xor hit_def add.commute)
  next
    case 2
    then show ?thesis
      using "1.IH"(2) [of "out @ (if hit code b1 b2 b1 (\<not> b2) then [b] else [])"] "1.prems" cc
      by (subst merge_xs.simps) (auto simp: emit_Some fv_xor hit_def add.commute)
  next
    case 3
    then show ?thesis
      using "1.IH"(3) [of "out @ (if hit code b1 b2 (\<not> b1) (\<not> b2) then [b] else [])"] "1.prems" cc
      by (subst merge_xs.simps) (auto simp: emit_Some fv_xor hit_def add.commute c_int_def)
  qed
next
  case (right code b1 b2 ys)
  then show ?case by (subst merge_xs.simps) (auto simp: copy_xs_eq copy_xs.simps [of _ 0])
next
  case (left code b1 b2 xs)
  then show ?case by (subst merge_xs.simps) (auto simp: copy_xs_eq copy_xs.simps [of _ 0])
qed

lemma mrg_Nil:
  "mrg code False False [] ys = (if code = eUnion \<or> code = eRevDifference then ys else [])"
  "mrg code False False xs [] = (if code = eUnion \<or> code = eDifference then xs else [])"
  by (cases ys; simp) (cases xs; simp)

lemma merge_scanlines_eq:
  assumes "\<forall>a\<in>set xs \<union> set ys. coord_ok a"
    and "int (length out + length xs + length ys) < buflen"
  shows "merge_scanlines code buflen (xs @ r1) (int (length xs)) (ys @ r2) (int (length ys)) out =
    Some (out @ mrg code False False xs ys)"
proof -
  have "merge_xs code buflen (xs @ r1) (ys @ r2) (int (length xs)) (int (length ys)) 0 0 out =
      Some (out @ mrg code False False xs ys)"
    using merge_xs_eq [OF assms, of code r1 r2 False False] by (simp add: fv_def)
  then show ?thesis
    using assms by (auto simp: merge_scanlines_def copy_line_def emit_Some mrg_Nil)
qed

section \<open>The end of a turn\<close>

text \<open>\<open>oldss\<close> and \<open>oldlen\<close> describe the last scanline kept.\<close>

definition olds :: "scanline list \<Rightarrow> nat option \<Rightarrow> int \<Rightarrow> bool" where
  "olds dn oldss oldlen \<longleftrightarrow>
     (if dn = [] then oldss = None \<and> oldlen = - 1
      else oldss = Some (length (encs (butlast dn))) \<and> oldlen = int (length (snd (last dn))))"

lemma encs_last: "dn \<noteq> [] \<Longrightarrow> encs dn = encs (butlast dn) @ enc_line (last dn)"
  by (metis append_butlast_last_id encs_simps(1) encs_simps(2) encs_simps(3) append_Nil2)

lemma drop_second_line: "drop (4 + length zs) (a # b # zs @ c # d # ws) = ws"
proof -
  have drop_us: "drop (length us) (us @ ws) = ws" for us by simp
  have "4 + length zs = length (a # b # zs @ [c, d])" by simp
  then have "drop (4 + length zs) ((a # b # zs @ [c, d]) @ ws) = ws" by (metis drop_us)
  then show ?thesis by (simp only: append_Cons append_assoc append_Nil)
qed

lemma finish_line_eq:
  assumes "olds dn oldss oldlen"
  obtains oldss' oldlen' where
    "finish_line (length (encs dn)) oldss oldlen (encs dn @ [1, y] @ zs) =
       (encs (push dn (y, zs)), oldss', oldlen')"
    "olds (push dn (y, zs)) oldss' oldlen'"
proof (cases "zs \<noteq> [] \<and> dn \<noteq> [] \<and> snd (last dn) = zs")
  case True
  then have p: "push dn (y, zs) = dn" by (simp add: push_def)
  obtain y' where l: "last dn = (y', zs)" using True by (metis prod.collapse)
  have e: "encs dn = encs (butlast dn) @ (int (length zs) + 1) # y' # zs"
    using encs_last True l by simp
  have "finish_line (length (encs dn)) oldss oldlen (encs dn @ [1, y] @ zs) = (encs dn, oldss, oldlen)"
    using assms True unfolding olds_def finish_line_def
    by (simp add: e Let_def list_update_append drop_second_line)
  with p assms show ?thesis using that by simp
next
  case False
  then have p: "push dn (y, zs) = dn @ [(y, zs)]" by (auto simp: push_def)
  have "finish_line (length (encs dn)) oldss oldlen (encs dn @ [1, y] @ zs) =
      (encs (dn @ [(y, zs)]), Some (length (encs dn)), int (length zs))"
  proof (cases "dn = []")
    case True
    then show ?thesis using assms by (simp add: finish_line_def olds_def Let_def)
  next
    case nonempty: False
    obtain y' ws where l: "last dn = (y', ws)" by force
    have e: "encs dn = encs (butlast dn) @ (int (length ws) + 1) # y' # ws"
      using encs_last nonempty l by simp
    show ?thesis
      using assms False nonempty l unfolding olds_def finish_line_def
      by (auto simp: e Let_def list_update_append drop_second_line)
  qed
  then show ?thesis using that p by (simp add: olds_def)
qed

section \<open>The main loop\<close>

lemma wf_xs_coord: "wf_xs xs \<Longrightarrow> a \<in> set xs \<Longrightarrow> coord_ok a"
  by (simp add: wf_xs_def)

text \<open>
  One turn: with the current scanlines \<open>n1\<close> and \<open>n2\<close> and the y-coordinate chosen, the
  turn writes the merged scanline, drops it if it repeats the last one, and goes on.
\<close>

lemma turn_eq:
  assumes "olds dn oldss oldlen" and "wf_xs n1" and "wf_xs n2"
    and bound: "int (length (encs dn) + 2 + length n1 + length n2) < buflen"
    and go: "\<And>oldss' oldlen'. olds (push dn (y, mrg code False False n1 n2)) oldss' oldlen' \<Longrightarrow>
      K (encs (push dn (y, mrg code False False n1 n2))) oldss' oldlen' = R"
  shows "(case emit buflen (encs dn) [1, y] of
            None \<Rightarrow> None
          | Some out1 \<Rightarrow>
              (case merge_scanlines code buflen (n1 @ r1) (int (length n1)) (n2 @ r2) (int (length n2)) out1 of
                 None \<Rightarrow> None
               | Some out2 \<Rightarrow>
                   (case finish_line (length (encs dn)) oldss oldlen out2 of
                      (out3, oldss', oldlen') \<Rightarrow> K out3 oldss' oldlen'))) = R"
proof -
  have e: "emit buflen (encs dn) [1, y] = Some (encs dn @ [1, y])"
    using bound by (intro emit_Some) simp
  have m: "merge_scanlines code buflen (n1 @ r1) (int (length n1)) (n2 @ r2) (int (length n2))
      (encs dn @ [1, y]) = Some ((encs dn @ [1, y]) @ mrg code False False n1 n2)"
    using assms(2,3) bound by (intro merge_scanlines_eq) (auto dest: wf_xs_coord)
  obtain oldss' oldlen' where
    "finish_line (length (encs dn)) oldss oldlen (encs dn @ [1, y] @ mrg code False False n1 n2) =
       (encs (push dn (y, mrg code False False n1 n2)), oldss', oldlen')"
    "olds (push dn (y, mrg code False False n1 n2)) oldss' oldlen'"
    using finish_line_eq [OF assms(1)] by blast
  with e m go show ?thesis by simp
qed

lemma length_push: "length (encs (push dn (y, mrg code b1 b2 xs ys))) \<le> length (encs dn) + 2 + length xs + length ys"
  using length_mrg [of code b1 b2 xs ys] by (simp add: push_def)

lemma length_alines: "length (encs (alines code s1 s2 c1 c2 dn)) \<le> length (encs dn) + cost s1 s2 (length c1) (length c2)"
proof (induction code s1 s2 c1 c2 dn rule: alines.induct)
  case (2 code y xs t1 c1 c2 dn)
  then show ?case using length_push [of dn y code False False xs c2] by simp
next
  case (3 code y ys t2 c1 c2 dn)
  then show ?case using length_push [of dn y code False False c1 ys] by simp
next
  case (4 code y1 xs t1 y2 ys t2 c1 c2 dn)
  consider "y1 < y2" | "y2 < y1" | "y1 = y2" by linarith
  then show ?case
  proof cases
    case 1
    then show ?thesis using "4.IH"(1) length_push [of dn y1 code False False xs c2] by simp
  next
    case 2
    then show ?thesis using "4.IH"(2) length_push [of dn y2 code False False c1 ys] by simp
  next
    case 3
    then show ?thesis using "4.IH"(3) length_push [of dn y2 code False False xs ys] by simp
  qed
qed simp

lemma region_loop_eq:
  assumes "lines_ok s1" and "lines_ok s2" and "wf_xs c1" and "wf_xs c2"
    and "olds dn oldss oldlen"
    and "int (length (encs dn) + cost s1 s2 (length c1) (length c2)) < buflen"
  shows "region_loop code buflen (enc s1) (enc s2) (c1 @ r1) (int (length c1)) (c2 @ r2) (int (length c2))
      (encs dn) oldss oldlen = Some (encs (alines code s1 s2 c1 c2 dn))"
  using assms
proof (induction code s1 s2 c1 c2 dn arbitrary: oldss oldlen r1 r2 rule: alines.induct)
  case (1 code c1 c2 dn)
  then show ?case by (subst region_loop.simps) simp
next
  case (2 code y xs t1 c1 c2 dn)
  have ok: "lines_ok t1" "wf_xs xs" using "2.prems" by (auto simp: lines_ok_Cons)
  show ?case
    apply (subst region_loop.simps)
    apply (simp add: nat_add_distrib)
    apply (rule turn_eq [where ?r1.0 = "enc t1" and ?r2.0 = r2])
    using "2.prems" ok "2.IH" length_push [of dn y code False False xs c2] by auto
next
  case (3 code y ys t2 c1 c2 dn)
  have ok: "lines_ok t2" "wf_xs ys" using "3.prems" by (auto simp: lines_ok_Cons)
  show ?case
    apply (subst region_loop.simps)
    apply (simp add: nat_add_distrib)
    apply (rule turn_eq [where ?r1.0 = r1 and ?r2.0 = "enc t2"])
    using "3.prems" ok "3.IH" length_push [of dn y code False False c1 ys] by auto
next
  case (4 code y1 xs t1 y2 ys t2 c1 c2 dn)
  have ok: "lines_ok t1" "wf_xs xs" "lines_ok t2" "wf_xs ys" and cc: "c_int (y1 - y2) = y1 - y2"
    using "4.prems" by (auto simp: lines_ok_Cons c_int_diff)
  consider "y1 < y2" | "y2 < y1" | "y1 = y2" by linarith
  then show ?case
  proof cases
    case 1
    then show ?thesis
      apply (subst region_loop.simps)
      apply (simp add: nat_add_distrib cc)
      apply (rule turn_eq [where ?r1.0 = "enc t1" and ?r2.0 = r2])
      using "4.prems" ok "4.IH"(1) length_push [of dn y1 code False False xs c2] by auto
  next
    case 2
    then show ?thesis
      apply (subst region_loop.simps)
      apply (simp add: nat_add_distrib cc)
      apply (rule turn_eq [where ?r1.0 = r1 and ?r2.0 = "enc t2"])
      using "4.prems" ok "4.IH"(2) length_push [of dn y2 code False False c1 ys] by auto
  next
    case 3
    then show ?thesis
      apply (subst region_loop.simps)
      apply (simp add: nat_add_distrib cc c_int_def)
      apply (rule turn_eq [where ?r1.0 = "enc t1" and ?r2.0 = "enc t2"])
      using "4.prems" ok "4.IH"(3) length_push [of dn y2 code False False xs ys] by auto
  qed
qed

end
