(* ===== verification/RegionSpec.thy ===== *)
theory RegionSpec
  imports RegionRefine
begin

text \<open>
  What the region class promises: a region is a set of points. \<open>rgn_wf\<close> is the
  invariant of the regions the class builds, \<open>rgn_pts\<close> the set of points \<open>Contains\<close>
  accepts. The locale \<open>point_region\<close> states the contract of \<open>RegionOp\<close> and proves
  once what its clients (\<open>Xor\<close>, \<open>Inset\<close>) need; it is interpreted on the buffers.
\<close>

section \<open>The contract of a region\<close>

fun setop :: "EOpcode \<Rightarrow> 'a set \<Rightarrow> 'a set \<Rightarrow> 'a set" where
  "setop eUnion A B = A \<union> B"
| "setop eDifference A B = A - B"
| "setop eRevDifference A B = B - A"
| "setop eIntersection A B = A \<inter> B"

lemma mem_setop: "p \<in> setop code A B \<longleftrightarrow> opsem code (p \<in> A) (p \<in> B)"
  by (cases code) (auto simp: opsem_def)

locale point_region =
  fixes wf :: "'r \<Rightarrow> bool"
    and pts :: "'r \<Rightarrow> (int \<times> int) set"
    and rop :: "EOpcode \<Rightarrow> 'r \<Rightarrow> 'r \<Rightarrow> 'r option"
    and of_rect :: "EmRect \<Rightarrow> 'r"
    and rect_ok :: "EmRect \<Rightarrow> bool"
  assumes rop_ok: "wf a \<Longrightarrow> wf b \<Longrightarrow> \<exists>c. rop code a b = Some c \<and> wf c \<and> pts c = setop code (pts a) (pts b)"
    and rect_region: "rect_ok r \<Longrightarrow> wf (of_rect r) \<and> pts (of_rect r) = rect_pts r"
begin

lemma rop_obtain:
  assumes "wf a" and "wf b"
  obtains c where "rop code a b = Some c" "wf c" "pts c = setop code (pts a) (pts b)"
  using rop_ok [OF assms] by blast

lemma xor_ok:
  assumes "wf a" and "wf b"
  shows "\<exists>u i c. rop eUnion a b = Some u \<and> rop eIntersection a b = Some i \<and>
    rop eDifference u i = Some c \<and> wf c \<and> pts c = (pts a - pts b) \<union> (pts b - pts a)"
proof -
  obtain u where u: "rop eUnion a b = Some u" "wf u" "pts u = pts a \<union> pts b"
    using rop_obtain [OF assms] by (metis setop.simps(1))
  obtain i where i: "rop eIntersection a b = Some i" "wf i" "pts i = pts a \<inter> pts b"
    using rop_obtain [OF assms] by (metis setop.simps(4))
  obtain c where "rop eDifference u i = Some c" "wf c" "pts c = pts u - pts i"
    using rop_obtain [OF u(2) i(2)] by (metis setop.simps(2))
  with u i show ?thesis by auto
qed

text \<open>Adding rectangles to a region one after the other.\<close>

fun add_rects :: "EmRect list \<Rightarrow> 'r \<Rightarrow> 'r option" where
  "add_rects [] a = Some a"
| "add_rects (r # rs) a = (case rop eUnion a (of_rect r) of None \<Rightarrow> None | Some b \<Rightarrow> add_rects rs b)"

lemma add_rects_ok:
  assumes "wf a" and "\<forall>r\<in>set rs. rect_ok r"
  shows "\<exists>b. add_rects rs a = Some b \<and> wf b \<and> pts b = pts a \<union> (\<Union>r\<in>set rs. rect_pts r)"
  using assms
proof (induction rs arbitrary: a)
  case (Cons r rs)
  obtain b where "rop eUnion a (of_rect r) = Some b" "wf b" "pts b = pts a \<union> rect_pts r"
    using rop_obtain [of a "of_rect r" eUnion] rect_region [of r] Cons.prems by auto
  with Cons.IH [of b] Cons.prems show ?case by (auto simp: Un_assoc)
qed simp

end

section \<open>Regions as sets of points\<close>

definition rgn_lines :: "EmRegionImpl \<Rightarrow> scanline list \<Rightarrow> bool" where
  "rgn_lines rg ls \<longleftrightarrow> wf_lines ls \<and> fBuf rg = Some (enc ls) \<and>
     fCapacity rg = int (length (enc ls)) \<and> fBounds rg = bounds_of ls"

text \<open>
  An empty region either has no buffer or one with no points: the constructor from an
  empty rectangle writes a buffer all the same.
\<close>

definition rgn_void :: "EmRegionImpl \<Rightarrow> bool" where
  "rgn_void rg \<longleftrightarrow> EmRegion_IsEmpty rg \<and>
     (fBuf rg = None \<and> fCapacity rg = 0 \<or>
      (\<exists>ls. shape_ok ls \<and> fBuf rg = Some (enc ls) \<and> fCapacity rg = int (length (enc ls)) \<and>
         (\<forall>r\<in>set (rects_of ls). EmRect_IsEmpty r)))"

definition rgn_wf :: "EmRegionImpl \<Rightarrow> bool" where
  "rgn_wf rg \<longleftrightarrow> rgn_void rg \<or> (\<exists>ls. rgn_lines rg ls)"

definition rgn_pts :: "EmRegionImpl \<Rightarrow> (int \<times> int) set" where
  "rgn_pts rg = {(x, y). EmRegionImpl_Contains rg (EmPoint_make x y) = Some True}"

definition rect_ok :: "EmRect \<Rightarrow> bool" where
  "rect_ok r \<longleftrightarrow> EmRect_IsEmpty r \<or>
     coord_ok (fLeft r) \<and> coord_ok (fTop r) \<and> coord_ok (fRight r) \<and> coord_ok (fBottom r)"

lemma rect_pts_bounds_of:
  assumes "wf_lines ls"
  shows "in_lines ls x y \<Longrightarrow> (x, y) \<in> rect_pts (bounds_of ls)"
    and "(x, y) \<in> rect_pts (bounds_of ls) \<Longrightarrow> y < fst (last ls)"
proof -
  show "(x, y) \<in> rect_pts (bounds_of ls)" if "in_lines ls x y"
    using that fold_UnionWith_upper(2) unfolding in_lines_rects [OF assms] bounds_of_def by blast
  let ?t = "EmRect_make (- (2 ^ 30)) (- (2 ^ 30)) (2 ^ 30) (fst (last ls))"
  have "rect_pts r \<subseteq> rect_pts ?t" if "r \<in> set (rects_of ls)" for r
    using rects_of_coords [OF assms that] by (auto simp: coord_ok_def rect_pts_def EmRect_make_def)
  then have "rect_pts (bounds_of ls) \<subseteq> rect_pts ?t"
    unfolding bounds_of_def by (intro fold_UnionWith_least) auto
  then show "y < fst (last ls)" if "(x, y) \<in> rect_pts (bounds_of ls)"
    using that by (auto simp: rect_pts_def EmRect_make_def)
qed

lemma bounds_of_empty_iff: "wf_lines ls \<Longrightarrow> EmRect_IsEmpty (bounds_of ls) \<longleftrightarrow> rects_of ls = []"
proof
  assume wf: "wf_lines ls" and e: "EmRect_IsEmpty (bounds_of ls)"
  show "rects_of ls = []"
  proof (rule ccontr)
    assume "rects_of ls \<noteq> []"
    then obtain r where r: "r \<in> set (rects_of ls)" by (meson last_in_set)
    then have "rect_pts r \<subseteq> rect_pts (bounds_of ls)"
      unfolding bounds_of_def by (rule fold_UnionWith_upper(2))
    with r e rects_of_nonempty [OF wf] show False by (auto simp: EmRect_IsEmpty_iff)
  qed
qed (simp add: bounds_of_def EmRect_IsEmpty_iff)

section \<open>Contains\<close>

lemma contains_pairs_enc:
  assumes "even (length xs)" and "n = int (length xs) + 1"
  shows "\<exists>rest'. contains_pairs n (xs @ rest) x =
    Some (\<exists>(l, r)\<in>set (pairs xs). l \<le> x \<and> x < r, rest') \<and>
    (\<not> (\<exists>(l, r)\<in>set (pairs xs). l \<le> x \<and> x < r) \<longrightarrow> rest' = rest)"
  using assms
proof (induction xs arbitrary: n rule: pairs.induct)
  case (1 l r xs)
  then show ?case by (subst contains_pairs.simps) (auto simp: add.commute)
qed (auto simp: contains_pairs.simps)

lemma contains_loop_enc:
  assumes "wf_lines ls" and "y < fst (last ls)"
  shows "contains_loop (enc ls) (EmPoint_make x y) = Some (in_lines ls x y)"
  using assms
proof (induction ls rule: rects_of_induct)
  case (1 y0 xs y1 xs' ls)
  let ?tail = "(y1, xs') # ls"
  have wf: "wf_lines ?tail" and lt: "y0 < y1" and xs: "incr xs" "even (length xs)" and y: "y < fst (last ?tail)"
    using "1.prems" by (auto simp: wf_lines_def wf_xs_def)
  define T where "T = enc ?tail"
  have IH: "contains_loop T (EmPoint_make x y) = Some (in_lines ?tail x y)"
    unfolding T_def using "1.IH" wf y by blast
  have pk: "peek (xs @ T) (int (length xs) + 1) = Some y1"
    by (simp add: peek_append_right T_def) (simp add: peek_def)
  obtain rest' where c: "contains_pairs (int (length xs) + 1) (xs @ T) x = Some (in_xs xs x, rest')"
    "\<not> in_xs xs x \<Longrightarrow> rest' = T"
    using contains_pairs_enc [OF xs(2) refl, of T x] unfolding in_xs_pairs [OF xs] by blast
  have "contains_loop (enc ((y0, xs) # ?tail)) (EmPoint_make x y) =
      contains_loop ((int (length xs) + 1) # y0 # xs @ T) (EmPoint_make x y)"
    by (simp add: T_def)
  also have "\<dots> = (if y0 \<le> y \<and> y < y1 \<and> in_xs xs x then Some True else contains_loop T (EmPoint_make x y))"
    using pk c by (subst contains_loop.simps) (auto simp: EmPoint_make_def split: bool.splits)
  also have "\<dots> = Some (in_lines ((y0, xs) # ?tail) x y)"
    using IH lt by (auto simp: in_lines_def)
  finally show ?case .
next
  case (lone v)
  obtain y0 where v: "v = (y0, [])" and y: "y < y0"
    using lone by (cases v) (auto simp: wf_lines_def)
  have "contains_loop [1, y0, 0] (EmPoint_make x y) = contains_loop [0] (EmPoint_make x y)"
    using y by (subst contains_loop.simps) (simp add: EmPoint_make_def)
  also have "\<dots> = Some False" by (subst contains_loop.simps) simp
  finally show ?case using y by (simp add: v in_lines_def)
qed (simp add: wf_lines_def)

lemma EmPoint_make_sel [simp]: "fX (EmPoint_make x y) = x" "fY (EmPoint_make x y) = y"
  by (simp_all add: EmPoint_make_def)

lemma rgn_lines_Contains:
  assumes "rgn_lines rg ls"
  shows "EmRegionImpl_Contains rg (EmPoint_make x y) = Some (in_lines ls x y)"
proof (cases "(x, y) \<in> rect_pts (bounds_of ls)")
  case True
  then have "contains_loop (enc ls) (EmPoint_make x y) = Some (in_lines ls x y)"
    using assms rect_pts_bounds_of(2) by (intro contains_loop_enc) (auto simp: rgn_lines_def)
  then show ?thesis
    using assms True by (simp add: EmRegionImpl_Contains_def rgn_lines_def EmRect_Contains_pt_iff)
next
  case False
  then have "\<not> in_lines ls x y" using assms rect_pts_bounds_of(1) by (auto simp: rgn_lines_def)
  then show ?thesis
    using assms False by (simp add: EmRegionImpl_Contains_def rgn_lines_def EmRect_Contains_pt_iff)
qed

lemma rgn_lines_pts: "rgn_lines rg ls \<Longrightarrow> rgn_pts rg = {(x, y). in_lines ls x y}"
  by (simp add: rgn_pts_def rgn_lines_Contains)

lemma rgn_empty_Contains:
  "EmRegion_IsEmpty rg \<Longrightarrow> EmRegionImpl_Contains rg p = Some False"
  by (simp add: EmRegion_IsEmpty_def EmRegionImpl_Contains_def EmRect_Contains_pt_iff EmRect_IsEmpty_iff)

lemma rgn_empty_pts: "EmRegion_IsEmpty rg \<Longrightarrow> rgn_pts rg = {}"
  by (simp add: rgn_pts_def rgn_empty_Contains)

lemma rgn_lines_empty_rects:
  assumes "rgn_lines rg ls" and "EmRegion_IsEmpty rg"
  shows "rects_of ls = []"
  using assms by (simp add: rgn_lines_def EmRegion_IsEmpty_def bounds_of_empty_iff)

lemma rgn_lines_void:
  assumes "rgn_lines rg ls" and "EmRegion_IsEmpty rg"
  shows "rgn_void rg"
  using assms rgn_lines_empty_rects [OF assms] wf_lines_shape_ok [of ls]
  unfolding rgn_void_def rgn_lines_def by force

lemma rgn_wf_cases:
  assumes "rgn_wf rg"
  obtains "EmRegion_IsEmpty rg" "rgn_void rg" | ls where "\<not> EmRegion_IsEmpty rg" "rgn_lines rg ls"
  using assms rgn_lines_void by (auto simp: rgn_wf_def rgn_void_def)

lemma rgn_lines_wf: "rgn_lines rg ls \<Longrightarrow> rgn_wf rg"
  unfolding rgn_wf_def by blast

text \<open>\<open>Contains\<close> answers for every point of a well-formed region: it reads no memory outside.\<close>

lemma Contains_total:
  assumes "rgn_wf rg"
  shows "EmRegionImpl_Contains rg (EmPoint_make x y) = Some ((x, y) \<in> rgn_pts rg)"
  using assms
  by (rule rgn_wf_cases) (auto simp: rgn_empty_Contains rgn_empty_pts rgn_lines_Contains rgn_lines_pts)

lemma IsEmpty_iff_pts:
  assumes "rgn_wf rg"
  shows "EmRegion_IsEmpty rg \<longleftrightarrow> rgn_pts rg = {}"
  using assms
proof (rule rgn_wf_cases)
  fix ls assume ls: "\<not> EmRegion_IsEmpty rg" "rgn_lines rg ls"
  then have wf: "wf_lines ls" and "rects_of ls \<noteq> []"
    by (auto simp: rgn_lines_def EmRegion_IsEmpty_def bounds_of_empty_iff)
  then obtain r where r: "r \<in> set (rects_of ls)" by (meson last_in_set)
  then have "(fLeft r, fTop r) \<in> rgn_pts rg"
    using rects_of_nonempty [OF wf r] unfolding rgn_lines_pts [OF ls(2)]
    by (auto simp: in_lines_rects [OF wf] dest: EmRect_not_empty_corners)
  with ls show ?thesis by auto
qed (simp add: rgn_empty_pts)

section \<open>The regions the class builds are well-formed\<close>

lemma EmRegionImpl_empty_wf [simp]: "rgn_wf EmRegionImpl_empty" "rgn_pts EmRegionImpl_empty = {}"
  "EmRegion_IsEmpty EmRegionImpl_empty"
  by (auto simp: rgn_wf_def rgn_void_def EmRegionImpl_empty_def EmRegion_IsEmpty_def EmRect_IsEmpty_def
      EmRect_make_def intro!: rgn_empty_pts)

lemma EmRegionImpl_rect_lines:
  assumes "rect_ok r" and "\<not> EmRect_IsEmpty r"
  shows "rgn_lines (EmRegionImpl_rect r) [(fTop r, [fLeft r, fRight r]), (fBottom r, [])]"
  using assms
  by (cases r) (auto simp: rgn_lines_def EmRegionImpl_rect_def wf_lines_def wf_xs_def rect_ok_def
      EmRect_IsEmpty_def bounds_of_def line_rects_def EmRect_UnionWith_def EmRect_make_def)

lemma rect_region_wf:
  assumes "rect_ok r"
  shows "rgn_wf (EmRegionImpl_rect r) \<and> rgn_pts (EmRegionImpl_rect r) = rect_pts r"
proof (cases "EmRect_IsEmpty r")
  case True
  have "shape_ok [(fTop r, [fLeft r, fRight r]), (fBottom r, [])]" by (simp add: shape_ok_def)
  moreover have "fBuf (EmRegionImpl_rect r) = Some (enc [(fTop r, [fLeft r, fRight r]), (fBottom r, [])])"
    by (simp add: EmRegionImpl_rect_def)
  moreover have "EmRegion_IsEmpty (EmRegionImpl_rect r)"
    using True by (simp add: EmRegion_IsEmpty_def EmRegionImpl_rect_def)
  moreover have "\<forall>r'\<in>set (rects_of [(fTop r, [fLeft r, fRight r]), (fBottom r, [])]). EmRect_IsEmpty r'"
    using True by (auto simp: line_rects_def EmRect_make_def EmRect_IsEmpty_def)
  moreover have "fCapacity (EmRegionImpl_rect r) =
      int (length (enc [(fTop r, [fLeft r, fRight r]), (fBottom r, [])]))"
    by (simp add: EmRegionImpl_rect_def)
  ultimately have "rgn_void (EmRegionImpl_rect r)" unfolding rgn_void_def by blast
  then show ?thesis
    using True rgn_empty_pts [of "EmRegionImpl_rect r"] by (auto simp: rgn_wf_def rgn_void_def EmRect_IsEmpty_iff)
next
  case False
  let ?ls = "[(fTop r, [fLeft r, fRight r]), (fBottom r, [])]"
  have l: "rgn_lines (EmRegionImpl_rect r) ?ls" using assms False by (rule EmRegionImpl_rect_lines)
  then have wf: "wf_lines ?ls" by (simp add: rgn_lines_def)
  have "rgn_pts (EmRegionImpl_rect r) = rect_pts r"
    unfolding rgn_lines_pts [OF l] in_lines_rects [OF wf]
    by (auto simp: line_rects_def EmRect_make_def rect_pts_def)
  with l show ?thesis by (auto intro: rgn_lines_wf)
qed

lemma EmRegionImpl_buf_enc:
  assumes "wf_lines ls"
  obtains rg where "EmRegionImpl_buf (enc ls) (int (length (enc ls))) = Some rg" "rgn_lines rg ls"
proof -
  have "scan_loop (\<lambda>r bounds. EmRect_UnionWith bounds r) (enc ls) (EmRect_make 0 0 0 0) =
      Some (bounds_of ls, [])"
    using scan_loop_enc [OF wf_lines_shape_ok [OF assms], of _ "[]" "EmRect_make 0 0 0 0"]
    by (simp add: bounds_of_def)
  moreover have "EmRect_BeEmpty (EmRect_make 0 0 0 0) = EmRect_make 0 0 0 0"
    by (simp add: EmRect_BeEmpty_def EmRect_make_def)
  moreover have "0 < int (length (enc ls))" by (simp add: enc_def)
  ultimately show ?thesis
    using assms
      that [of "\<lparr>fBounds = bounds_of ls, fCapacity = int (length (enc ls)), fBuf = Some (enc ls)\<rparr>"]
    by (simp add: EmRegionImpl_buf_def EmRegionImpl_CalcBounds_def rgn_lines_def Let_def)
qed

section \<open>RegionOp\<close>

text \<open>The general case of \<open>RegionOp\<close>: both regions have scanlines.\<close>

lemma RegionOp_general:
  assumes "rgn_lines r1 l1" and "rgn_lines r2 l2"
    and ne: "\<not> EmRegion_IsEmpty r1" "\<not> EmRegion_IsEmpty r2"
  obtains rg where "EmRegion_RegionOp code r1 r2 = Some rg" "rgn_lines rg (alines code l1 l2 [] [] [])"
proof -
  let ?buflen = "fCapacity r1 * fCapacity r2" and ?ls = "alines code l1 l2 [] [] []"
  have wf: "wf_lines l1" "wf_lines l2" and ok: "lines_ok l1" "lines_ok l2"
    using assms by (auto simp: rgn_lines_def wf_lines_def lines_ok_def)
  have "?buflen = int (length (enc l1) * length (enc l2))"
    using assms by (simp add: rgn_lines_def)
  then have room: "int (cost l1 l2 0 0 + 1) < ?buflen"
    using cost_lt_buflen [of l1 l2] wf by (simp only: of_nat_less_iff) (auto simp: wf_lines_def)
  then have "region_loop code ?buflen (enc l1) (enc l2) [] 0 [] 0 [] None (- 1) = Some (encs ?ls)"
    using region_loop_eq [OF ok, of "[]" "[]" "[]" None "- 1" ?buflen code "[]" "[]"] by (simp add: olds_def)
  moreover have "emit ?buflen (encs ?ls) [0] = Some (enc ?ls)"
  proof -
    have "length (encs ?ls) \<le> length (encs ([] :: scanline list)) + cost l1 l2 0 0"
      using length_alines [of code l1 l2 "[]" "[]" "[]"] by simp
    then show ?thesis using room by (simp add: emit_Some enc_def)
  qed
  moreover obtain rg where "EmRegionImpl_buf (enc ?ls) (int (length (enc ?ls))) = Some rg" "rgn_lines rg ?ls"
    using EmRegionImpl_buf_enc wf_lines_alines [OF wf] by blast
  moreover have "0 < ?buflen" using room by simp
  ultimately show ?thesis
    using assms that
    by (cases code) (auto simp: EmRegion_RegionOp_def rgn_lines_def EmRegion_Length_def EmRegion_GetBuf_def)
qed

lemma RegionOp_ok:
  assumes "rgn_wf r1" and "rgn_wf r2"
  shows "\<exists>r. EmRegion_RegionOp code r1 r2 = Some r \<and> rgn_wf r \<and>
    rgn_pts r = setop code (rgn_pts r1) (rgn_pts r2)"
proof (cases "EmRegion_IsEmpty r1 \<or> EmRegion_IsEmpty r2")
  case True
  then show ?thesis
    using assms by (cases code) (auto simp: EmRegion_RegionOp_def Let_def rgn_empty_pts)
next
  case False
  then obtain l1 l2 where l: "rgn_lines r1 l1" "rgn_lines r2 l2"
    using assms rgn_wf_cases by metis
  obtain rg where rg: "EmRegion_RegionOp code r1 r2 = Some rg" "rgn_lines rg (alines code l1 l2 [] [] [])"
    using RegionOp_general [OF l] False by blast
  have "wf_lines l1" "wf_lines l2" using l by (auto simp: rgn_lines_def)
  then have "rgn_pts rg = setop code (rgn_pts r1) (rgn_pts r2)"
    unfolding rgn_lines_pts [OF rg(2)] rgn_lines_pts [OF l(1)] rgn_lines_pts [OF l(2)]
    by (auto simp: in_lines_alines mem_setop)
  with rg show ?thesis by (auto intro: rgn_lines_wf)
qed

interpretation rgn: point_region rgn_wf rgn_pts EmRegion_RegionOp EmRegionImpl_rect rect_ok
  by unfold_locales (auto simp: RegionOp_ok rect_region_wf)

end
