(* ===== verification/RegionProps.thy ===== *)
theory RegionProps
  imports RegionSpec
begin

text \<open>
  The other operations of the region class against its contract: equality, offsetting,
  the decomposition into rectangles, the iterator and \<open>Inset\<close>.
\<close>

section \<open>Equality\<close>

lemma enc_inject: "enc ls = enc ms \<Longrightarrow> ls = ms"
proof (induction ls arbitrary: ms)
  case Nil
  then show ?case by (cases ms) auto
next
  case (Cons l ls)
  then obtain m ms' where ms: "ms = m # ms'" by (cases ms; cases l) auto
  obtain y xs y' xs' where lm: "l = (y, xs)" "m = (y', xs')" by (cases l; cases m)
  from Cons.prems have "length xs = length xs'" "y = y'" "xs @ enc ls = xs' @ enc ms'"
    by (auto simp: ms lm)
  with Cons.IH [of ms'] show ?case by (auto simp: ms lm)
qed

lemma rgn_wf_buf:
  assumes "rgn_wf rg"
  shows "(fBuf rg = None \<and> rgn_pts rg = {}) \<or>
    (\<exists>ls. fBuf rg = Some (enc ls) \<and> fCapacity rg = int (length (enc ls)) \<and>
       rgn_pts rg = (\<Union>r\<in>set (rects_of ls). rect_pts r))"
  using assms unfolding rgn_wf_def
proof (elim disjE exE)
  assume v: "rgn_void rg"
  then have "rgn_pts rg = {}" by (simp add: rgn_void_def rgn_empty_pts)
  then show ?thesis using v by (auto simp: rgn_void_def EmRect_IsEmpty_iff)
next
  fix ls assume l: "rgn_lines rg ls"
  then have "rgn_pts rg = (\<Union>r\<in>set (rects_of ls). rect_pts r)"
    unfolding rgn_lines_pts [OF l] by (auto simp: rgn_lines_def in_lines_rects)
  then show ?thesis using l unfolding rgn_lines_def by blast
qed

lemma IsEqual_buf:
  assumes "EmRegion_IsEqual r1 r2" and "rgn_wf r1" and "rgn_wf r2"
  shows "fBuf r1 = fBuf r2"
proof -
  have "EmRegionImpl_IsEqual r1 r2"
    using assms(1) by (auto simp: EmRegion_IsEqual_def EmRegionImpl_eq_def split: if_splits)
  with rgn_wf_buf [OF assms(2)] rgn_wf_buf [OF assms(3)] show ?thesis
    by (elim disjE exE conjE) (simp_all add: EmRegionImpl_IsEqual_def split: if_splits)
qed

lemma IsEqual_pts:
  assumes "rgn_wf r1" and "rgn_wf r2" and "EmRegion_IsEqual r1 r2"
  shows "rgn_pts r1 = rgn_pts r2"
  using rgn_wf_buf [OF assms(1)] rgn_wf_buf [OF assms(2)] IsEqual_buf [OF assms(3,1,2)]
  by (elim disjE exE conjE) (simp_all, drule sym, drule enc_inject, simp)

section \<open>The decomposition into rectangles\<close>

abbreviation disjoint_rects :: "EmRect list \<Rightarrow> bool" where
  "disjoint_rects \<equiv> sorted_wrt (\<lambda>r s. rect_pts r \<inter> rect_pts s = {})"

lemma fold_add_rect: "fold add_rect rs acc = acc @ filter (\<lambda>r. \<not> EmRect_IsEmpty r) rs"
  by (induction rs arbitrary: acc) (auto simp: add_rect_def)

lemma line_rects_disjoint: "incr xs \<Longrightarrow> disjoint_rects (line_rects t xs b)"
proof (induction xs rule: pairs.induct)
  case (1 l r xs)
  have "r \<le> l'" if "(l', r') \<in> set (pairs xs)" for l' r'
    using pairs_nonempty [of xs l' r'] that "1.prems" by (auto simp: less_imp_le)
  with 1 show ?case
    by (fastforce simp: line_rects_simps set_line_rects EmRect_make_def rect_pts_def)
qed (auto simp: line_rects_def)

lemma rects_of_disjoint: "wf_lines ls \<Longrightarrow> disjoint_rects (rects_of ls)"
proof (induction ls rule: rects_of_induct)
  case (1 y xs y' xs' ls)
  let ?tail = "(y', xs') # ls"
  have wf: "wf_lines ?tail" and xs: "incr xs" using "1.prems" by (auto simp: wf_lines_def wf_xs_def)
  have "rect_pts r \<inter> rect_pts s = {}"
    if "r \<in> set (line_rects y xs y')" "s \<in> set (rects_of ?tail)" for r s
    using that(1) rects_of_below [OF wf that(2)]
    by (auto simp: set_line_rects EmRect_make_def rect_pts_def)
  then show ?case using "1.IH" wf line_rects_disjoint [OF xs] by (auto simp: sorted_wrt_append)
qed auto

lemma GetRects_lines: "rgn_lines rg ls \<Longrightarrow> EmRegionImpl_GetRects rg = Some (rects_of ls)"
  using scan_loop_enc [of ls add_rect "[]" "[]"] rects_of_nonempty [of ls]
  by (auto simp: EmRegionImpl_GetRects_def rgn_lines_def fold_add_rect wf_lines_shape_ok)

lemma GetRects_void: "rgn_void rg \<Longrightarrow> EmRegionImpl_GetRects rg = Some []"
  using scan_loop_enc [of _ add_rect "[]" "[]"]
  by (auto simp: EmRegionImpl_GetRects_def rgn_void_def fold_add_rect)

lemma GetRects_ok:
  assumes "rgn_wf rg"
  shows "\<exists>rs. EmRegionImpl_GetRects rg = Some rs \<and> (\<Union>r\<in>set rs. rect_pts r) = rgn_pts rg \<and>
    disjoint_rects rs \<and> (\<forall>r\<in>set rs. \<not> EmRect_IsEmpty r)"
  using assms
proof (rule rgn_wf_cases)
  fix ls assume l: "rgn_lines rg ls"
  then have wf: "wf_lines ls" by (simp add: rgn_lines_def)
  then show ?thesis
    using GetRects_lines [OF l] rects_of_disjoint rects_of_nonempty
    by (auto simp: rgn_lines_pts [OF l] in_lines_rects)
qed (auto simp: GetRects_void rgn_empty_pts)

section \<open>The iterator\<close>

text \<open>A loop over the iterator is a loop over the rectangles of the scanlines.\<close>

fun fold_rects :: "(EmRect \<Rightarrow> 'a \<Rightarrow> (EmRect \<times> 'a) option) \<Rightarrow> EmRect list \<Rightarrow> 'a \<Rightarrow> 'a option" where
  "fold_rects body [] acc = Some acc"
| "fold_rects body (r # rs) acc =
     (case body r acc of None \<Rightarrow> None | Some (_, acc') \<Rightarrow> fold_rects body rs acc')"

definition keeps_top :: "(EmRect \<Rightarrow> 'a \<Rightarrow> (EmRect \<times> 'a) option) \<Rightarrow> bool" where
  "keeps_top body \<longleftrightarrow> (\<forall>r acc r' acc'. body r acc = Some (r', acc') \<longrightarrow> fTop r' = fTop r)"

lemma keeps_topD: "keeps_top body \<Longrightarrow> body r acc = Some (r', acc') \<Longrightarrow> fTop r' = fTop r"
  by (auto simp: keeps_top_def)

lemma for_each_line:
  assumes "keeps_top body" and "even (length xs)" and "n = int (length xs) + 1" and "fTop r = t"
    and rest: "\<And>r acc. for_each_rect body \<lparr>fRegion = rg, fBufPtr = Some rest, fNext = 1\<rparr> r (Some b) acc =
      fold_rects body rs acc"
  shows "for_each_rect body \<lparr>fRegion = rg, fBufPtr = Some (xs @ rest), fNext = n\<rparr> r (Some b) acc =
    fold_rects body (line_rects t xs b @ rs) acc"
  using assms(2-4)
proof (induction xs arbitrary: n r acc rule: pairs.induct)
  case (1 l rt xs)
  have r: "r\<lparr>fLeft := l, fRight := rt, fBottom := b\<rparr> = EmRect_make l t rt b"
    using "1.prems" by (cases r) (simp add: EmRect_make_def)
  show ?case
    using "1.prems" "1.IH" keeps_topD [OF assms(1)]
    by (subst for_each_rect.simps)
      (auto simp: EmRegionRectIterator_Next_def next_loop.simps r line_rects_simps add.commute
        EmRect_make_def split: option.splits)
qed (auto simp: line_rects_simps rest)

lemma for_each_rect_cong:
  assumes "next_loop p n r bo = next_loop q m r' bo'"
  shows "for_each_rect body \<lparr>fRegion = rg, fBufPtr = Some p, fNext = n\<rparr> r bo acc =
    for_each_rect body \<lparr>fRegion = rg, fBufPtr = Some q, fNext = m\<rparr> r' bo' acc"
  by (subst (1 2) for_each_rect.simps) (simp add: EmRegionRectIterator_Next_def assms split: option.split)

lemma for_each_lines:
  assumes "keeps_top body" and "shape_ok ls" and "n \<le> 1"
  shows "for_each_rect body \<lparr>fRegion = rg, fBufPtr = Some (enc ls), fNext = n\<rparr> r bo acc =
    fold_rects body (rects_of ls) acc"
  using assms(2,3)
proof (induction ls arbitrary: n r bo acc rule: rects_of_induct)
  case (1 y xs y' xs' ls)
  let ?tail = "enc ((y', xs') # ls)"
  have pk: "peek (xs @ ?tail) (int (length xs) + 1) = Some y'"
    by (simp add: peek_append_right) (simp add: peek_def)
  have sh: "shape_ok ((y', xs') # ls)" and ev: "even (length xs)"
    using "1.prems" by (auto simp: shape_ok_def)
  have "for_each_rect body \<lparr>fRegion = rg, fBufPtr = Some (enc ((y, xs) # (y', xs') # ls)), fNext = n\<rparr> r bo acc =
    for_each_rect body \<lparr>fRegion = rg, fBufPtr = Some (xs @ ?tail), fNext = int (length xs) + 1\<rparr>
      (r\<lparr>fTop := y\<rparr>) (Some y') acc"
    using "1.prems" pk by (intro for_each_rect_cong) (subst next_loop.simps, simp)
  also have "\<dots> = fold_rects body (line_rects y xs y' @ rects_of ((y', xs') # ls)) acc"
    using "1.IH" sh by (intro for_each_line [OF assms(1) ev refl]) auto
  finally show ?case by simp
next
  case (lone v)
  then show ?case
    by (cases v) (auto simp: shape_ok_def for_each_rect.simps EmRegionRectIterator_Next_def
        next_loop.simps)
qed (simp add: shape_ok_def)

lemma for_each_rect_lines:
  assumes "keeps_top body" and "shape_ok ls" and "fBuf rg = Some (enc ls)"
  shows "for_each_rect body (EmRegionRectIterator_make rg) r bo acc = fold_rects body (rects_of ls) acc"
  using for_each_lines [OF assms(1,2), of 0] assms(3)
  by (simp add: EmRegionRectIterator_make_def EmRegionRectIterator_Reset_def EmRegion_GetBuf_def)

lemma for_each_rect_nobuf:
  "fBuf rg = None \<Longrightarrow> for_each_rect body (EmRegionRectIterator_make rg) r bo acc = Some acc"
  by (simp add: for_each_rect.simps EmRegionRectIterator_Next_def EmRegionRectIterator_make_def
      EmRegionRectIterator_Reset_def EmRegion_GetBuf_def)

section \<open>Offsetting\<close>

definition shift_line :: "int \<Rightarrow> int \<Rightarrow> scanline \<Rightarrow> scanline" where
  "shift_line dx dy l = (fst l + dy, map (\<lambda>x. x + dx) (snd l))"

lemma shift_line_sel [simp]:
  "fst (shift_line dx dy l) = fst l + dy" "snd (shift_line dx dy l) = map (\<lambda>x. x + dx) (snd l)"
  "shift_line dx dy (y, xs) = (y + dy, map (\<lambda>x. x + dx) xs)"
  by (simp_all add: shift_line_def)

lemma offset_pairs_enc:
  assumes "even (length xs)" and "n = int (length xs) + 1"
  shows "offset_pairs dx n (xs @ rest) = Some (map (\<lambda>x. x + dx) xs, rest)"
  using assms
proof (induction xs arbitrary: n rule: pairs.induct)
  case (1 l r xs)
  then show ?case by (subst offset_pairs.simps) (simp add: add.commute)
qed (auto simp: offset_pairs.simps)

lemma offset_loop_enc:
  "\<forall>l\<in>set ls. even (length (snd l)) \<Longrightarrow>
     offset_loop dx dy (enc ls) = Some (enc (map (shift_line dx dy) ls))"
proof (induction ls)
  case Nil
  then show ?case by (simp add: offset_loop.simps)
next
  case (Cons l ls)
  obtain y xs where l: "l = (y, xs)" by (cases l)
  show ?case
    using Cons by (subst offset_loop.simps) (simp add: l offset_pairs_enc)
qed

lemma in_xs_shift [simp]: "in_xs (map (\<lambda>x. x + dx) xs) x \<longleftrightarrow> in_xs xs (x - dx)"
  by (induction xs) auto

lemma line_at_shift:
  "line_at (map (\<lambda>x. x + dx) cur) (map (shift_line dx dy) ls) y = map (\<lambda>x. x + dx) (line_at cur ls (y - dy))"
  by (induction cur ls "y - dy" rule: line_at.induct) auto

lemma in_lines_shift: "in_lines (map (shift_line dx dy) ls) x y \<longleftrightarrow> in_lines ls (x - dx) (y - dy)"
  using line_at_shift [of dx "[]" dy ls y] by (simp add: in_lines_def)

lemma pairs_shift: "pairs (map (\<lambda>x. x + dx) xs) = map (\<lambda>(l, r). (l + dx, r + dx)) (pairs xs)"
  by (induction xs rule: pairs.induct) auto

lemma line_rects_shift:
  "line_rects (t + dy) (map (\<lambda>x. x + dx) xs) (b + dy) = map (\<lambda>r. EmRect_Offset r dx dy) (line_rects t xs b)"
  by (auto simp: line_rects_def pairs_shift EmRect_Offset_def EmRect_make_def)

lemma rects_of_shift:
  "rects_of (map (shift_line dx dy) ls) = map (\<lambda>r. EmRect_Offset r dx dy) (rects_of ls)"
  by (induction ls rule: rects_of_induct) (auto simp: line_rects_shift)

lemma EmRect_Offset_IsEmpty [simp]: "EmRect_IsEmpty (EmRect_Offset r dx dy) \<longleftrightarrow> EmRect_IsEmpty r"
  by (auto simp: EmRect_Offset_def EmRect_IsEmpty_def)

lemma shape_ok_shift: "shape_ok ls \<Longrightarrow> shape_ok (map (shift_line dx dy) ls)"
  by (auto simp: shape_ok_def last_map)

lemma fold_UnionWith_shift:
  "fold (\<lambda>r b. EmRect_UnionWith b r) (map (\<lambda>r. EmRect_Offset r dx dy) rs) (EmRect_Offset b dx dy) =
    EmRect_Offset (fold (\<lambda>r b. EmRect_UnionWith b r) rs b) dx dy"
proof -
  have "EmRect_UnionWith (EmRect_Offset b dx dy) (EmRect_Offset r dx dy) = EmRect_Offset (EmRect_UnionWith b r) dx dy"
    for b r by (cases b; cases r)
      (auto simp: EmRect_UnionWith_def EmRect_Offset_def EmRect_IsEmpty_def EmRect_ExtendTo_def Let_def)
  then show ?thesis by (induction rs arbitrary: b) auto
qed

lemma bounds_of_shift:
  assumes "rects_of ls \<noteq> []"
  shows "bounds_of (map (shift_line dx dy) ls) = EmRect_Offset (bounds_of ls) dx dy"
proof -
  obtain r rs where rs: "rects_of ls = r # rs" using assms by (cases "rects_of ls") auto
  have e: "EmRect_UnionWith (EmRect_make 0 0 0 0) r = r" for r
    by (simp add: EmRect_UnionWith_def EmRect_IsEmpty_def EmRect_make_def)
  show ?thesis
    using fold_UnionWith_shift [of dx dy rs r] by (simp add: bounds_of_def rects_of_shift rs e)
qed

text \<open>The numbers of the buffer leave room for the offset.\<close>

definition offset_fits :: "int \<Rightarrow> int \<Rightarrow> EmRegionImpl \<Rightarrow> bool" where
  "offset_fits dx dy rg \<longleftrightarrow>
     (case fBuf rg of None \<Rightarrow> True | Some s \<Rightarrow> \<forall>c\<in>set s. coord_ok (c + dx) \<and> coord_ok (c + dy))"

lemma set_encs: "l \<in> set ls \<Longrightarrow> fst l \<in> set (encs ls) \<and> set (snd l) \<subseteq> set (encs ls)"
  by (induction ls) auto

lemma wf_lines_shift:
  assumes "wf_lines ls" and "\<forall>c\<in>set (enc ls). coord_ok (c + dx) \<and> coord_ok (c + dy)"
  shows "wf_lines (map (shift_line dx dy) ls)"
proof -
  have "coord_ok (fst l + dy) \<and> (\<forall>x\<in>set (snd l). coord_ok (x + dx))" if "l \<in> set ls" for l
    using set_encs [OF that] assms(2) by (auto simp: enc_def)
  then show ?thesis
    using assms(1) by (auto simp: wf_lines_def wf_xs_def sorted_wrt_map last_map)
qed

lemma length_enc_shift [simp]: "length (enc (map (shift_line dx dy) ls)) = length (enc ls)"
  by (induction ls) auto

lemma Offset_lines:
  assumes "rgn_lines rg ls" and "offset_fits dx dy rg" and "\<not> EmRegion_IsEmpty rg"
  obtains rg' where "EmRegionImpl_Offset rg dx dy = Some rg'" "rgn_lines rg' (map (shift_line dx dy) ls)"
proof (cases "dx = 0 \<and> dy = 0")
  case True
  then have "map (shift_line dx dy) ls = ls" by (auto simp: shift_line_def intro!: map_idI)
  then show ?thesis using True assms(1) that [of rg] by (auto simp: EmRegionImpl_Offset_def rgn_lines_def)
next
  case False
  have wf: "wf_lines ls" and ne: "rects_of ls \<noteq> []"
    using assms by (auto simp: rgn_lines_def EmRegion_IsEmpty_def bounds_of_empty_iff)
  have "wf_lines (map (shift_line dx dy) ls)"
    using assms by (intro wf_lines_shift) (auto simp: rgn_lines_def offset_fits_def)
  moreover have "offset_loop dx dy (enc ls) = Some (enc (map (shift_line dx dy) ls))"
    using wf_lines_shape_ok [OF wf] by (intro offset_loop_enc) (simp add: shape_ok_def)
  ultimately show ?thesis
    using assms(1) False bounds_of_shift [OF ne]
      that [of "rg\<lparr>fBuf := Some (enc (map (shift_line dx dy) ls)), fBounds := EmRect_Offset (fBounds rg) dx dy\<rparr>"]
    by (simp add: EmRegionImpl_Offset_def rgn_lines_def)
qed

lemma Offset_void:
  assumes "rgn_void rg"
  shows "\<exists>rg'. EmRegionImpl_Offset rg dx dy = Some rg' \<and> rgn_void rg'"
proof (cases "fBuf rg = None \<or> dx = 0 \<and> dy = 0")
  case True
  then show ?thesis using assms by (auto simp: EmRegionImpl_Offset_def split: option.split)
next
  case False
  then obtain ls where ls: "shape_ok ls" "fBuf rg = Some (enc ls)" "fCapacity rg = int (length (enc ls))"
    "\<forall>r\<in>set (rects_of ls). EmRect_IsEmpty r" "EmRegion_IsEmpty rg"
    using assms by (auto simp: rgn_void_def)
  have "offset_loop dx dy (enc ls) = Some (enc (map (shift_line dx dy) ls))"
    using ls(1) by (intro offset_loop_enc) (simp add: shape_ok_def)
  moreover have "\<forall>r\<in>set (rects_of (map (shift_line dx dy) ls)). EmRect_IsEmpty r"
    using ls(4) by (auto simp: rects_of_shift)
  ultimately show ?thesis
    using False ls shape_ok_shift [OF ls(1)] unfolding rgn_void_def EmRegion_IsEmpty_def
    by (auto simp: EmRegionImpl_Offset_def intro!: exI [of _ "map (shift_line dx dy) ls"])
qed

lemma Offset_ok:
  assumes "rgn_wf rg" and "offset_fits dx dy rg"
  shows "\<exists>rg'. EmRegionImpl_Offset rg dx dy = Some rg' \<and> rgn_wf rg' \<and>
    rgn_pts rg' = (\<lambda>(x, y). (x + dx, y + dy)) ` rgn_pts rg"
  using assms(1)
proof (rule rgn_wf_cases)
  assume "rgn_void rg"
  then show ?thesis using Offset_void [of rg dx dy] by (auto simp: rgn_wf_def rgn_void_def rgn_empty_pts)
next
  fix ls assume ls: "\<not> EmRegion_IsEmpty rg" "rgn_lines rg ls"
  obtain rg' where rg': "EmRegionImpl_Offset rg dx dy = Some rg'" "rgn_lines rg' (map (shift_line dx dy) ls)"
    using Offset_lines [OF ls(2) assms(2) ls(1)] .
  have "rgn_pts rg' = (\<lambda>(x, y). (x + dx, y + dy)) ` rgn_pts rg"
    unfolding rgn_lines_pts [OF rg'(2)] rgn_lines_pts [OF ls(2)] by (force simp: in_lines_shift)
  with rg' show ?thesis using rgn_lines_wf by blast
qed

section \<open>Inset\<close>

text \<open>
  The x-pairs of a scanline are the maximal runs of points inside: the points next to a
  pair are outside. So insetting each pair erodes the scanline.
\<close>

lemma pairs_maximal:
  assumes "incr xs" and "even (length xs)" and "(l, r) \<in> set (pairs xs)"
  shows "\<not> in_xs xs (l - 1)" and "\<not> in_xs xs r"
proof -
  have "\<not> in_xs xs (l - 1) \<and> \<not> in_xs xs r" using assms
  proof (induction xs rule: pairs.induct)
    case (1 a b xs)
    have outer: "\<not> in_xs xs x" if "x \<le> b" for x using "1.prems" that by (intro in_xs_below) auto
    consider "l = a" "r = b" | "(l, r) \<in> set (pairs xs)" using "1.prems" by auto
    then show ?case
    proof cases
      case 1
      then show ?thesis using "1.prems" outer by auto
    next
      case 2
      moreover have "incr xs" using "1.prems" by simp
      ultimately have "b < l" "l < r" using pairs_nonempty [of xs l r] "1.prems" by auto
      then show ?thesis using 2 "1.IH" "1.prems" by auto
    qed
  qed auto
  then show "\<not> in_xs xs (l - 1)" "\<not> in_xs xs r" by auto
qed

lemma in_xs_run:
  assumes xs: "incr xs" "even (length xs)" and d: "0 \<le> d"
  shows "(\<forall>i\<in>{-d..d}. in_xs xs (x + i)) \<longleftrightarrow> (\<exists>(l, r)\<in>set (pairs xs). l + d \<le> x \<and> x < r - d)"
proof
  assume all: "\<forall>i\<in>{-d..d}. in_xs xs (x + i)"
  moreover have "0 \<in> {-d..d}" using d by simp
  ultimately have "in_xs xs (x + 0)" by blast
  then obtain l r where lr: "(l, r) \<in> set (pairs xs)" "l \<le> x" "x < r" unfolding in_xs_pairs [OF xs] by auto
  note out = pairs_maximal [OF xs lr(1)]
  have "l + d \<le> x"
  proof (rule ccontr)
    assume "\<not> ?thesis"
    then have "l - 1 - x \<in> {-d..d}" using lr by auto
    with all have "in_xs xs (x + (l - 1 - x))" by blast
    with out show False by simp
  qed
  moreover have "x < r - d"
  proof (rule ccontr)
    assume "\<not> ?thesis"
    then have "r - x \<in> {-d..d}" using lr by auto
    with all have "in_xs xs (x + (r - x))" by blast
    with out show False by simp
  qed
  ultimately show "\<exists>(l, r)\<in>set (pairs xs). l + d \<le> x \<and> x < r - d" using lr(1) by auto
next
  assume "\<exists>(l, r)\<in>set (pairs xs). l + d \<le> x \<and> x < r - d"
  then obtain l r where "(l, r) \<in> set (pairs xs)" "l + d \<le> x" "x < r - d" by auto
  then show "\<forall>i\<in>{-d..d}. in_xs xs (x + i)"
    unfolding in_xs_pairs [OF xs] by (auto intro!: bexI [of _ "(l, r)"])
qed

definition inset_rect :: "int \<Rightarrow> EmRect \<Rightarrow> EmRect" where
  "inset_rect dx r = r\<lparr>fLeft := fLeft r + dx, fRight := fRight r - dx\<rparr>"

definition flip_rect :: "EmRect \<Rightarrow> EmRect" where
  "flip_rect r = \<lparr>fTop = fLeft r, fLeft = fTop r, fBottom = fRight r, fRight = fBottom r\<rparr>"

lemma rect_pts_flip: "rect_pts (flip_rect r) = (\<lambda>(x, y). (y, x)) ` rect_pts r"
  by (force simp: flip_rect_def rect_pts_def)

definition erode_x :: "int \<Rightarrow> (int \<times> int) set \<Rightarrow> (int \<times> int) set" where
  "erode_x d A = {(x, y). \<forall>i\<in>{-d..d}. (x + i, y) \<in> A}"

lemma rects_of_erode:
  assumes "wf_lines ls" and d: "0 \<le> d"
  shows "(\<forall>i\<in>{-d..d}. in_lines ls (x + i) y) \<longleftrightarrow> (\<exists>r\<in>set (rects_of ls). (x, y) \<in> rect_pts (inset_rect d r))"
  using assms(1)
proof (induction ls rule: rects_of_induct)
  case (1 y0 xs y1 xs' ls)
  let ?tail = "(y1, xs') # ls"
  have wf: "wf_lines ?tail" and lt: "y0 < y1" and xs: "incr xs" "even (length xs)"
    using "1.prems" by (auto simp: wf_lines_def wf_xs_def)
  note IH = "1.IH" [OF wf]
  have first: "(\<exists>r\<in>set (line_rects y0 xs y1). (x, y) \<in> rect_pts (inset_rect d r)) \<longleftrightarrow>
      y0 \<le> y \<and> y < y1 \<and> (\<forall>i\<in>{-d..d}. in_xs xs (x + i))"
    unfolding in_xs_run [OF xs d] set_line_rects
    by (fastforce simp: EmRect_make_def inset_rect_def rect_pts_def Bex_def set_line_rects)
  have rest: "y < y1 \<Longrightarrow> \<not> (\<exists>r\<in>set (rects_of ?tail). (x, y) \<in> rect_pts (inset_rect d r))"
    using rects_of_below [OF wf] by (fastforce simp: rect_pts_def inset_rect_def)
  have zero: "0 \<in> {-d..d}" using d by simp
  consider "y < y0" | "y0 \<le> y" "y < y1" | "y1 \<le> y" by linarith
  then show ?case
  proof cases
    case 3
    then show ?thesis using first IH lt by (auto simp: in_lines_def)
  next
    case 2
    then show ?thesis using first rest by (auto simp: in_lines_def)
  next
    case 1
    then have "\<not> in_lines ((y0, xs) # ?tail) (x + i) y" for i by (simp add: in_lines_def)
    then show ?thesis using zero first rest 1 lt by (simp only: rects_of.simps) auto
  qed
next
  case (lone v)
  have "0 \<in> {-d..d}" using d by simp
  then show ?case using lone by (cases v) (auto simp: in_lines_def wf_lines_def)
qed (simp add: wf_lines_def)

text \<open>One turn of \<open>Inset\<close>: the loops over the rectangles are \<open>add_rects\<close> of the contract.\<close>

definition inset_rect_fits :: "int \<Rightarrow> EmRect \<Rightarrow> bool" where
  "inset_rect_fits d r \<longleftrightarrow> int32_sum (fLeft r + d) \<noteq> None \<and> int32_sum (fRight r - d) \<noteq> None"

text \<open>
  The numbers of the buffer leave room for the inset. The scanlines of a region that is not
  empty are within a quarter of the 32 bits, so they leave room for a delta below \<open>2 ^ 30\<close>.
\<close>

definition inset_fits :: "int \<Rightarrow> EmRegionImpl \<Rightarrow> bool" where
  "inset_fits d rg \<longleftrightarrow>
     (case fBuf rg of None \<Rightarrow> True | Some s \<Rightarrow> \<forall>c\<in>set s. int32_sum (c + d) \<noteq> None \<and> int32_sum (c - d) \<noteq> None)"

definition tidy :: "EmRegionImpl \<Rightarrow> bool" where
  "tidy rg \<longleftrightarrow> (EmRegion_IsEmpty rg \<longrightarrow> fBuf rg = None)"

lemma set_pairs: "(l, r) \<in> set (pairs xs) \<Longrightarrow> l \<in> set xs \<and> r \<in> set xs"
  by (induction xs rule: pairs.induct) auto

lemma rects_of_numbers: "r \<in> set (rects_of ls) \<Longrightarrow> {fLeft r, fRight r} \<subseteq> set (enc ls)"
  by (induction ls rule: rects_of_induct)
    (auto simp: set_line_rects EmRect_make_def enc_def dest: set_pairs)

lemma inset_fits_rects:
  "inset_fits d rg \<Longrightarrow> fBuf rg = Some (enc ls) \<Longrightarrow> r \<in> set (rects_of ls) \<Longrightarrow> inset_rect_fits d r"
  using rects_of_numbers [of r ls] by (auto simp: inset_fits_def inset_rect_fits_def)

lemma coord_ok_inset_rect_fits:
  assumes "wf_lines ls" and "r \<in> set (rects_of ls)" and "0 \<le> d" and "d < 2 ^ 30"
  shows "inset_rect_fits d r"
  using rects_of_coords [OF assms(1,2)] assms(3,4)
  by (auto simp: inset_rect_fits_def int32_sum_def coord_ok_def)

lemma fold_rects_inset:
  "\<forall>r\<in>set rs. inset_rect_fits dx r \<Longrightarrow> fold_rects (inset_body dx) rs new =
     rgn.add_rects (filter (\<lambda>r. \<not> EmRect_IsEmpty r) (map (inset_rect dx) rs)) new"
proof (induction rs arbitrary: new)
  case (Cons r rs)
  then have "int32_sum (fLeft r + dx) = Some (fLeft r + dx)" "int32_sum (fRight r - dx) = Some (fRight r - dx)"
    by (auto simp: inset_rect_fits_def int32_sum_def split: if_splits)
  then show ?case
    using Cons by (auto simp: inset_body_def inset_rect_def Let_def EmRegion_UnionWith_def split: option.split)
qed simp

lemma fold_rects_flip: "fold_rects flip_body rs new = rgn.add_rects (map flip_rect rs) new"
  by (induction rs arbitrary: new)
    (auto simp: flip_body_def flip_rect_def Let_def EmRegion_UnionWith_def split: option.split)

lemma keeps_top_inset: "keeps_top (inset_body dx)"
  by (auto simp: keeps_top_def inset_body_def Let_def split: if_splits option.splits)

lemma keeps_top_flip: "keeps_top flip_body"
  by (auto simp: keeps_top_def flip_body_def Let_def)

lemma BeEmpty_ok:
  assumes "rgn_wf rg"
  shows "rgn_wf (EmRegion_BeEmpty rg)" and "rgn_pts (EmRegion_BeEmpty rg) = {}"
  using rgn_wf_buf [OF assms] assms by (auto simp: EmRegion_BeEmpty_def)

lemma for_each_wf:
  assumes "rgn_wf rg" and "keeps_top body"
  obtains "rgn_void rg" "for_each_rect body (EmRegionRectIterator_make rg) r bo acc = Some acc"
  | ls where "shape_ok ls" "fBuf rg = Some (enc ls)" "rgn_void rg \<or> rgn_lines rg ls"
    "rgn_void rg \<longrightarrow> (\<forall>r\<in>set (rects_of ls). EmRect_IsEmpty r)"
    "for_each_rect body (EmRegionRectIterator_make rg) r bo acc = fold_rects body (rects_of ls) acc"
  using assms(1)
proof (rule rgn_wf_cases)
  assume v: "rgn_void rg"
  show thesis
  proof (cases "fBuf rg")
    case None
    then show thesis using v that(1) by (simp add: for_each_rect_nobuf)
  next
    case (Some s)
    with v obtain ls where "shape_ok ls" "fBuf rg = Some (enc ls)" "\<forall>r\<in>set (rects_of ls). EmRect_IsEmpty r"
      by (auto simp: rgn_void_def)
    then show thesis using that(2) v for_each_rect_lines [OF assms(2)] by blast
  qed
next
  fix ls assume l: "\<not> EmRegion_IsEmpty rg" "rgn_lines rg ls"
  then have "shape_ok ls" "fBuf rg = Some (enc ls)" "\<not> rgn_void rg"
    by (auto simp: rgn_lines_def rgn_void_def wf_lines_shape_ok)
  then show thesis using l that(2) for_each_rect_lines [OF assms(2)] by blast
qed

lemma rect_ok_inset:
  assumes "wf_lines ls" and "r \<in> set (rects_of ls)" and "0 \<le> d"
  shows "rect_ok (inset_rect d r)"
  using rects_of_coords [OF assms(1,2)] assms(3)
  by (auto simp: rect_ok_def inset_rect_def EmRect_IsEmpty_def coord_ok_def)

lemma rect_ok_flip:
  "wf_lines ls \<Longrightarrow> r \<in> set (rects_of ls) \<Longrightarrow> rect_ok (flip_rect r)"
  by (drule (1) rects_of_coords) (auto simp: rect_ok_def flip_rect_def)

lemma add_rects_empty:
  assumes "rgn_wf a" and "rgn_pts a = {}" and "\<forall>r\<in>set rs. rect_ok r"
  shows "\<exists>b. rgn.add_rects rs a = Some b \<and> rgn_wf b \<and> rgn_pts b = (\<Union>r\<in>set rs. rect_pts r)"
  using rgn.add_rects_ok [OF assms(1,3)] assms(2) by simp

text \<open>The rectangles the iterator yields leave room for the inset.\<close>

definition inset_room :: "int \<Rightarrow> EmRegionImpl \<Rightarrow> bool" where
  "inset_room d rg \<longleftrightarrow> (\<forall>ls. fBuf rg = Some (enc ls) \<longrightarrow> (\<forall>r\<in>set (rects_of ls). inset_rect_fits d r))"

lemma inset_fits_room: "inset_fits d rg \<Longrightarrow> inset_room d rg"
  unfolding inset_room_def using inset_fits_rects by blast

lemma tidy_room:
  assumes "rgn_wf rg" and "tidy rg" and "0 \<le> d" and "d < 2 ^ 30"
  shows "inset_room d rg"
  using assms(1)
proof (rule rgn_wf_cases)
  fix ls assume "rgn_lines rg ls"
  then show ?thesis
    using coord_ok_inset_rect_fits [OF _ _ assms(3,4)]
    by (auto simp: inset_room_def rgn_lines_def dest: enc_inject)
qed (use assms(2) in \<open>simp add: tidy_def inset_room_def\<close>)

lemma tidy_pts: "rgn_wf rg \<Longrightarrow> rgn_pts rg \<noteq> {} \<Longrightarrow> tidy rg"
  by (simp add: tidy_def IsEmpty_iff_pts)

lemma add_rects_tidy:
  assumes "rgn.add_rects rs a = Some b" and "fBuf a = None" and "\<forall>r\<in>set rs. \<not> EmRect_IsEmpty r"
    and "rgn_wf b" and "rgn_pts b = (\<Union>r\<in>set rs. rect_pts r)"
  shows "tidy b"
proof (cases rs)
  case Nil
  then show ?thesis using assms(1,2) by (simp add: tidy_def)
next
  case (Cons r rs')
  then have "rgn_pts b \<noteq> {}" using assms(3,5) by (auto simp: EmRect_IsEmpty_iff)
  then show ?thesis using tidy_pts [OF assms(4)] by blast
qed

lemma inset_pass:
  assumes wf: "rgn_wf rg" and new: "rgn_wf new" "rgn_pts new = {}" "fBuf new = None" and d: "0 \<le> d"
    and room: "inset_room d rg"
  shows "\<exists>b. for_each_rect (inset_body d) (EmRegionRectIterator_make rg) r bo new = Some b \<and>
    rgn_wf b \<and> tidy b \<and> rgn_pts b = erode_x d (rgn_pts rg)"
  using wf
proof (rule rgn_wf_cases)
  have zero: "0 \<in> {-d..d}" using d by simp
  assume v: "EmRegion_IsEmpty rg" "rgn_void rg"
  then have none: "erode_x d (rgn_pts rg) = {}" using zero by (auto simp: erode_x_def rgn_empty_pts)
  have t: "tidy new" using new(3) by (simp add: tidy_def)
  show ?thesis
  proof (rule for_each_wf [OF wf keeps_top_inset, of d r bo new])
    fix ls assume "shape_ok ls" and buf: "fBuf rg = Some (enc ls)"
      and f: "for_each_rect (inset_body d) (EmRegionRectIterator_make rg) r bo new =
        fold_rects (inset_body d) (rects_of ls) new"
      and e: "rgn_void rg \<longrightarrow> (\<forall>r\<in>set (rects_of ls). EmRect_IsEmpty r)"
    have "filter (\<lambda>r. \<not> EmRect_IsEmpty r) (map (inset_rect d) (rects_of ls)) = []"
      using e v d by (auto simp: filter_empty_conv inset_rect_def EmRect_IsEmpty_def)
    moreover have "\<forall>r\<in>set (rects_of ls). inset_rect_fits d r" using room buf by (simp add: inset_room_def)
    ultimately show ?thesis using f new none t by (simp add: fold_rects_inset)
  qed (use new none t in simp)
next
  fix ls assume ls: "\<not> EmRegion_IsEmpty rg" "rgn_lines rg ls"
  then have wfl: "wf_lines ls" and buf: "fBuf rg = Some (enc ls)" by (auto simp: rgn_lines_def)
  let ?rs = "filter (\<lambda>r. \<not> EmRect_IsEmpty r) (map (inset_rect d) (rects_of ls))"
  obtain b where b: "rgn.add_rects ?rs new = Some b" "rgn_wf b" "rgn_pts b = (\<Union>r\<in>set ?rs. rect_pts r)"
    using add_rects_empty [OF new(1,2), of ?rs] rect_ok_inset [OF wfl _ d] by auto
  have t: "tidy b" by (rule add_rects_tidy [OF b(1) new(3) _ b(2,3)]) simp
  have "rgn_pts b = (\<Union>r\<in>set (rects_of ls). rect_pts (inset_rect d r))"
    unfolding b(3) using EmRect_IsEmpty_iff by auto
  also have "\<dots> = erode_x d (rgn_pts rg)"
    unfolding erode_x_def rgn_lines_pts [OF ls(2)] using rects_of_erode [OF wfl d] by auto
  finally show ?thesis
    using b t room buf for_each_rect_lines [OF keeps_top_inset wf_lines_shape_ok [OF wfl] buf]
    by (simp add: fold_rects_inset inset_room_def)
qed

lemma flip_pass:
  assumes wf: "rgn_wf rg" and new: "rgn_wf new" "rgn_pts new = {}"
  shows "\<exists>b. for_each_rect flip_body (EmRegionRectIterator_make rg) r bo new = Some b \<and>
    rgn_wf b \<and> rgn_pts b = (\<lambda>(x, y). (y, x)) ` rgn_pts rg"
proof (rule for_each_wf [OF wf keeps_top_flip, of r bo new])
  fix ls assume ls: "shape_ok ls" "fBuf rg = Some (enc ls)" "rgn_void rg \<or> rgn_lines rg ls"
    "rgn_void rg \<longrightarrow> (\<forall>r\<in>set (rects_of ls). EmRect_IsEmpty r)"
    and f: "for_each_rect flip_body (EmRegionRectIterator_make rg) r bo new =
      fold_rects flip_body (rects_of ls) new"
  have pts: "rgn_pts rg = (\<Union>r\<in>set (rects_of ls). rect_pts r)"
    using rgn_wf_buf [OF wf] ls(2) enc_inject by auto
  have "\<forall>r\<in>set (map flip_rect (rects_of ls)). rect_ok r"
  proof -
    have "rect_ok (flip_rect r)" if "EmRect_IsEmpty r" for r
      using that by (auto simp: rect_ok_def flip_rect_def EmRect_IsEmpty_def)
    then show ?thesis using ls(3,4) rect_ok_flip by (auto simp: rgn_lines_def)
  qed
  from add_rects_empty [OF new this] obtain b where
    "rgn.add_rects (map flip_rect (rects_of ls)) new = Some b" "rgn_wf b"
    "rgn_pts b = (\<Union>r\<in>set (rects_of ls). rect_pts (flip_rect r))" by auto
  then show ?thesis unfolding f fold_rects_flip pts rect_pts_flip by (auto simp: image_UN)
qed (use new in \<open>auto simp: rgn_void_def rgn_empty_pts\<close>)

lemma flip_tidy:
  assumes "rgn_wf a" and "tidy a" and "fBuf new = None"
    and "for_each_rect flip_body (EmRegionRectIterator_make a) r bo new = Some b"
    and "rgn_wf b" and "rgn_pts b = (\<lambda>(x, y). (y, x)) ` rgn_pts a"
  shows "tidy b"
proof (cases "rgn_pts a = {}")
  case True
  then have "fBuf a = None" using assms(1,2) by (simp add: tidy_def IsEmpty_iff_pts)
  then show ?thesis using assms(3,4) by (simp add: for_each_rect_nobuf tidy_def)
next
  case False
  then show ?thesis using assms(5,6) by (intro tidy_pts) auto
qed

lemma inset_turn_ok:
  assumes "rgn_wf this" and "rgn_wf new" and "0 \<le> d" and "inset_room d this"
  shows "\<exists>b. inset_turn this new d = Some (b, b) \<and> rgn_wf b \<and> tidy b \<and>
    rgn_pts b = (\<lambda>(x, y). (y, x)) ` erode_x d (rgn_pts this)"
proof -
  have nobuf: "fBuf (EmRegion_BeEmpty r) = None" for r by (simp add: EmRegion_BeEmpty_def EmRegionImpl_empty_def)
  obtain a where a: "for_each_rect (inset_body d) (EmRegionRectIterator_make this) (EmRect_make 0 0 0 0) None
      (EmRegion_BeEmpty new) = Some a" "rgn_wf a" "tidy a" "rgn_pts a = erode_x d (rgn_pts this)"
    using inset_pass [OF assms(1) BeEmpty_ok [OF assms(2)] nobuf assms(3,4)] by blast
  obtain b where b: "for_each_rect flip_body (EmRegionRectIterator_make a) (EmRect_make 0 0 0 0) None
      (EmRegion_BeEmpty a) = Some b" "rgn_wf b" "rgn_pts b = (\<lambda>(x, y). (y, x)) ` rgn_pts a"
    using flip_pass [OF a(2) BeEmpty_ok [OF a(2)]] by blast
  have "tidy b" by (rule flip_tidy [OF a(2,3) nobuf b])
  with a b show ?thesis by (simp add: inset_turn_def)
qed

lemma Inset_ok:
  assumes "rgn_wf rg" and "0 \<le> dx" and "0 \<le> dy" and "inset_fits dx rg" and "dy < 2 ^ 30"
  shows "\<exists>r. EmRegion_Inset rg dx dy = Some r \<and> rgn_wf r \<and>
    rgn_pts r = {(x, y). \<forall>i\<in>{-dx..dx}. \<forall>j\<in>{-dy..dy}. (x + i, y + j) \<in> rgn_pts rg}"
proof -
  obtain a where a: "inset_turn rg EmRegionImpl_empty dx = Some (a, a)" "rgn_wf a" "tidy a"
    "rgn_pts a = (\<lambda>(x, y). (y, x)) ` erode_x dx (rgn_pts rg)"
    using inset_turn_ok [OF assms(1) EmRegionImpl_empty_wf(1) assms(2) inset_fits_room [OF assms(4)]] by blast
  obtain b where b: "inset_turn a a dy = Some (b, b)" "rgn_wf b"
    "rgn_pts b = (\<lambda>(x, y). (y, x)) ` erode_x dy (rgn_pts a)"
    using inset_turn_ok [OF a(2) a(2) assms(3) tidy_room [OF a(2,3) assms(3,5)]] by blast
  have mem: "(x, y) \<in> (\<lambda>(x, y). (y, x)) ` A \<longleftrightarrow> (y, x) \<in> A" for x y :: int and A by force
  have "(x, y) \<in> rgn_pts b \<longleftrightarrow> (\<forall>i\<in>{-dx..dx}. \<forall>j\<in>{-dy..dy}. (x + i, y + j) \<in> rgn_pts rg)" for x y
    unfolding b(3) mem a(4) by (auto simp: erode_x_def mem)
  then have "rgn_pts b = {(x, y). \<forall>i\<in>{-dx..dx}. \<forall>j\<in>{-dy..dy}. (x + i, y + j) \<in> rgn_pts rg}"
    by (auto simp: set_eq_iff)
  with a b show ?thesis by (simp add: EmRegion_Inset_def)
qed

end
