(* ===== verification/RefCounted.thy ===== *)
theory RefCounted
  imports Prelude
begin

text \<open>
  \<open>EmRefCounted\<close> and \<open>EmRefCounter\<close> (\<open>EmRefCounted.h\<close>): objects that count the
  counters pointing to them and delete themselves when the last one goes.

  The heap maps addresses to objects with their counts; \<open>brk\<close> is the first address
  never used. A counter is the value of its \<open>fObject\<close>, \<open>None\<close> for NULL. The handles of
  a program are the counters named by its variables. \<open>None\<close> as a result is a use of a
  deleted object or a failed assertion.
\<close>

section \<open>Counted objects\<close>

type_synonym addr = nat

record 'a EmRefCounted =
  fRefCount :: int
  object :: 'a

record 'a world =
  store :: "addr \<Rightarrow> 'a EmRefCounted option"
  brk :: addr

definition EmRefCounted_new :: "'a \<Rightarrow> 'a world \<Rightarrow> addr \<times> 'a world" where
  "EmRefCounted_new x w =
     (brk w, w\<lparr>store := (store w)(brk w \<mapsto> \<lparr>fRefCount = 0, object = x\<rparr>), brk := Suc (brk w)\<rparr>)"

definition EmRefCounted_isShareable :: "'a EmRefCounted \<Rightarrow> bool" where
  "EmRefCounted_isShareable ob \<longleftrightarrow> fRefCount ob \<ge> 0"

definition EmRefCounted_isShared :: "'a EmRefCounted \<Rightarrow> bool" where
  "EmRefCounted_isShared ob \<longleftrightarrow> fRefCount ob > 0"

definition EmRefCounted_markUnshareable :: "addr \<Rightarrow> 'a world \<Rightarrow> 'a world option" where
  "EmRefCounted_markUnshareable a w =
     map_option (\<lambda>ob. w\<lparr>store := (store w)(a \<mapsto> ob\<lparr>fRefCount := - 1\<rparr>)\<rparr>) (store w a)"

definition EmRefCounted_addReference :: "addr \<Rightarrow> 'a world \<Rightarrow> 'a world option" where
  "EmRefCounted_addReference a w =
     (case store w a of
        None \<Rightarrow> None
      | Some ob \<Rightarrow>
          if fRefCount ob \<ge> 0
          then Some (w\<lparr>store := (store w)(a \<mapsto> ob\<lparr>fRefCount := fRefCount ob + 1\<rparr>)\<rparr>)
          else None)"

definition EmRefCounted_removeReference :: "addr \<Rightarrow> 'a world \<Rightarrow> 'a world option" where
  "EmRefCounted_removeReference a w =
     (case store w a of
        None \<Rightarrow> None
      | Some ob \<Rightarrow>
          let count = fRefCount ob - 1
          in if count \<le> 0 then Some (w\<lparr>store := (store w)(a := None)\<rparr>)
             else Some (w\<lparr>store := (store w)(a \<mapsto> ob\<lparr>fRefCount := count\<rparr>)\<rparr>))"

section \<open>Counters\<close>

text \<open>
  \<open>clone\<close> is the copy constructor of \<open>T\<close>; the copy constructor of the base class
  gives the copy a count of zero.
\<close>

definition EmRefCounter_Init :: "('a \<Rightarrow> 'a) \<Rightarrow> addr option \<Rightarrow> 'a world \<Rightarrow> (addr option \<times> 'a world) option" where
  "EmRefCounter_Init clone fObject w =
     (case fObject of
        None \<Rightarrow> Some (None, w)
      | Some a \<Rightarrow>
          (case store w a of
             None \<Rightarrow> None
           | Some ob \<Rightarrow>
               let (a', w') = (if \<not> EmRefCounted_isShareable ob then EmRefCounted_new (clone (object ob)) w
                               else (a, w))
               in map_option (Pair (Some a')) (EmRefCounted_addReference a' w')))"

definition EmRefCounter_make :: "('a \<Rightarrow> 'a) \<Rightarrow> addr option \<Rightarrow> 'a world \<Rightarrow> (addr option \<times> 'a world) option" where
  "EmRefCounter_make clone p w = EmRefCounter_Init clone p w"

definition EmRefCounter_copy :: "('a \<Rightarrow> 'a) \<Rightarrow> addr option \<Rightarrow> 'a world \<Rightarrow> (addr option \<times> 'a world) option" where
  "EmRefCounter_copy clone other w = EmRefCounter_Init clone other w"

definition EmRefCounter_destroy :: "addr option \<Rightarrow> 'a world \<Rightarrow> 'a world option" where
  "EmRefCounter_destroy fObject w =
     (case fObject of None \<Rightarrow> Some w | Some a \<Rightarrow> EmRefCounted_removeReference a w)"

definition EmRefCounter_Replace :: "('a \<Rightarrow> 'a) \<Rightarrow> addr option \<Rightarrow> addr option \<Rightarrow> 'a world
    \<Rightarrow> (addr option \<times> 'a world) option" where
  "EmRefCounter_Replace clone fObject p w =
     (if fObject \<noteq> p
      then (case (case fObject of None \<Rightarrow> Some w | Some a \<Rightarrow> EmRefCounted_removeReference a w) of
              None \<Rightarrow> None
            | Some w' \<Rightarrow> EmRefCounter_Init clone p w')
      else Some (fObject, w))"

definition EmRefCounter_assign :: "('a \<Rightarrow> 'a) \<Rightarrow> addr option \<Rightarrow> addr option \<Rightarrow> 'a world
    \<Rightarrow> (addr option \<times> 'a world) option" where
  "EmRefCounter_assign clone fObject other w = EmRefCounter_Replace clone fObject other w"

definition EmRefCounter_assign_ptr :: "('a \<Rightarrow> 'a) \<Rightarrow> addr option \<Rightarrow> addr option \<Rightarrow> 'a world
    \<Rightarrow> (addr option \<times> 'a world) option" where
  "EmRefCounter_assign_ptr clone fObject p w = EmRefCounter_Replace clone fObject p w"

text \<open>
  \<open>operator==\<close>: \<open>same\<close> tells that both operands are the same counter. The objects are
  compared with the \<open>operator==\<close> of \<open>T\<close>.
\<close>

definition EmRefCounter_eq :: "('a \<Rightarrow> 'a \<Rightarrow> bool) \<Rightarrow> bool \<Rightarrow> addr option \<Rightarrow> addr option \<Rightarrow> 'a world \<Rightarrow> bool option" where
  "EmRefCounter_eq eq same p q w =
     (if same then Some True
      else if p = q then Some True
      else (case (p, q) of
              (Some a, Some b) \<Rightarrow>
                (case (store w a, store w b) of
                   (Some x, Some y) \<Rightarrow> Some (eq (object x) (object y))
                 | _ \<Rightarrow> None)
            | _ \<Rightarrow> None))"

section \<open>The handles of a program\<close>

type_synonym var = nat

record 'a handles =
  vars :: "var \<Rightarrow> addr option"
  world :: "'a world"

definition owners :: "'a handles \<Rightarrow> addr \<Rightarrow> var set" where
  "owners st a = {v. vars st v = Some a}"

definition deref :: "'a handles \<Rightarrow> var \<Rightarrow> 'a option" where
  "deref st v = (case vars st v of None \<Rightarrow> None | Some a \<Rightarrow> map_option object (store (world st) a))"

text \<open>
  The invariant: an object is alive exactly as long as a handle refers to it, and its
  count is the number of handles. Objects at addresses of \<open>L\<close> may be without owner:
  they were allocated and no counter has them yet.
\<close>

definition slot_ok :: "bool \<Rightarrow> 'a EmRefCounted option \<Rightarrow> var set \<Rightarrow> bool" where
  "slot_ok new cell ow \<longleftrightarrow>
     (case cell of
        None \<Rightarrow> ow = {}
      | Some ob \<Rightarrow> fRefCount ob = int (card ow) \<and> (ow = {} \<longrightarrow> new))"

definition counts_ok :: "addr set \<Rightarrow> 'a handles \<Rightarrow> bool" where
  "counts_ok L st \<longleftrightarrow> finite (dom (vars st)) \<and>
     (\<forall>a. slot_ok (a \<in> L) (store (world st) a) (owners st a)) \<and>
     (\<forall>a\<ge>brk (world st). store (world st) a = None)"

lemma counts_ok_slot: "counts_ok L st \<Longrightarrow> slot_ok (a \<in> L) (store (world st) a) (owners st a)"
  by (simp add: counts_ok_def)

lemma slot_ok_simps [simp]:
  "slot_ok new None ow \<longleftrightarrow> ow = {}"
  "slot_ok new (Some ob) ow \<longleftrightarrow> fRefCount ob = int (card ow) \<and> (ow = {} \<longrightarrow> new)"
  by (simp_all add: slot_ok_def)

lemma finite_owners: "finite (dom (vars st)) \<Longrightarrow> finite (owners st a)"
  by (rule finite_subset [of _ "dom (vars st)"]) (auto simp: owners_def)

lemma counts_okD:
  assumes "counts_ok L st" and "vars st v = Some a"
  obtains ob where "store (world st) a = Some ob" "fRefCount ob = int (card (owners st a))" "0 < card (owners st a)"
proof -
  have v: "v \<in> owners st a" using assms(2) by (simp add: owners_def)
  then have "0 < card (owners st a)"
    using assms(1) finite_owners card_gt_0_iff unfolding counts_ok_def by blast
  with v assms(1) that show ?thesis
    using counts_ok_slot [OF assms(1), of a] by (cases "store (world st) a") auto
qed

lemma counts_ok_alloc:
  assumes "counts_ok {} st" and "EmRefCounted_new x (world st) = (a, w)"
  shows "counts_ok {a} (st\<lparr>world := w\<rparr>)" and "store w a = Some \<lparr>fRefCount = 0, object = x\<rparr>"
    and "store (world st) a = None" and "b \<noteq> a \<Longrightarrow> store w b = store (world st) b"
proof -
  have a: "a = brk (world st)" and w: "w = (world st)\<lparr>store := (store (world st))(a \<mapsto> \<lparr>fRefCount = 0, object = x\<rparr>),
      brk := Suc a\<rparr>" using assms(2) by (auto simp: EmRefCounted_new_def)
  show none: "store (world st) a = None" using assms(1) a by (simp add: counts_ok_def)
  have own: "owners (st\<lparr>world := w\<rparr>) b = owners st b" for b by (simp add: owners_def)
  have "owners st a = {}" using counts_ok_slot [OF assms(1), of a] none by simp
  then have "slot_ok (b \<in> {a}) (store w b) (owners st b)" for b
    using counts_ok_slot [OF assms(1), of b] by (cases "store (world st) b") (auto simp: w)
  then show "counts_ok {a} (st\<lparr>world := w\<rparr>)"
    using assms(1) a own by (auto simp: counts_ok_def w)
  show "store w a = Some \<lparr>fRefCount = 0, object = x\<rparr>" "b \<noteq> a \<Longrightarrow> store w b = store (world st) b"
    by (auto simp: w)
qed

text \<open>A variable that holds nothing starts to refer to a live object.\<close>

lemma counts_ok_attach:
  assumes ok: "counts_ok L st" and v: "vars st v = None" and a: "store (world st) a = Some ob"
  obtains w where "EmRefCounter_Init clone (Some a) (world st) = Some (Some a, w)"
    "counts_ok (L - {a}) (st\<lparr>vars := (vars st)(v \<mapsto> a), world := w\<rparr>)"
    "\<And>b. map_option object (store w b) = map_option object (store (world st) b)"
proof -
  let ?w = "(world st)\<lparr>store := (store (world st))(a \<mapsto> ob\<lparr>fRefCount := fRefCount ob + 1\<rparr>)\<rparr>"
  let ?st = "st\<lparr>vars := (vars st)(v \<mapsto> a), world := ?w\<rparr>"
  have fin: "finite (dom (vars st))" and cnt: "fRefCount ob = int (card (owners st a))"
    using ok counts_ok_slot [OF ok, of a] a by (auto simp: counts_ok_def)
  have own: "owners ?st b = (if b = a then insert v (owners st a) else owners st b)" for b
    using v by (auto simp: owners_def)
  have "v \<notin> owners st a" using v by (simp add: owners_def)
  then have card: "card (insert v (owners st a)) = Suc (card (owners st a))"
    using finite_owners [OF fin] by simp
  have "counts_ok (L - {a}) ?st"
    unfolding counts_ok_def
  proof (intro conjI allI impI)
    show "finite (dom (vars ?st))" using fin by simp
    fix b
    show "slot_ok (b \<in> L - {a}) (store (world ?st) b) (owners ?st b)"
      using counts_ok_slot [OF ok, of b] own [of b] card cnt by (cases "b = a") auto
    show "brk (world ?st) \<le> b \<Longrightarrow> store (world ?st) b = None"
      using ok a by (auto simp: counts_ok_def)
  qed
  moreover have "EmRefCounter_Init clone (Some a) (world st) = Some (Some a, ?w)"
    using a cnt by (simp add: EmRefCounter_Init_def EmRefCounted_isShareable_def EmRefCounted_addReference_def)
  ultimately show ?thesis using a that by auto
qed

text \<open>A variable drops its object, which is deleted if it was the last owner.\<close>

lemma counts_ok_detach:
  assumes ok: "counts_ok L st" and v: "vars st v = Some a"
  obtains w where "EmRefCounted_removeReference a (world st) = Some w"
    "counts_ok L (st\<lparr>vars := (vars st)(v := None), world := w\<rparr>)"
    "\<And>b. b \<noteq> a \<Longrightarrow> store w b = store (world st) b"
    "owners st a \<noteq> {v} \<Longrightarrow> map_option object (store w a) = map_option object (store (world st) a)"
proof -
  obtain ob where a: "store (world st) a = Some ob" "fRefCount ob = int (card (owners st a))"
    "0 < card (owners st a)" using counts_okD [OF ok v] by metis
  have fin: "finite (dom (vars st))" using ok by (simp add: counts_ok_def)
  have own: "owners (st\<lparr>vars := (vars st)(v := None), world := w\<rparr>) b =
      (if b = a then owners st a - {v} else owners st b)" for b w
    using v by (auto simp: owners_def)
  have vin: "v \<in> owners st a" using v by (simp add: owners_def)
  have card: "card (owners st a - {v}) = card (owners st a) - 1"
    using vin finite_owners [OF fin] by (simp add: card_Diff_singleton)
  have last: "card (owners st a) = 1 \<longleftrightarrow> owners st a = {v}"
    using vin by (metis card_1_singletonE is_singletonI singletonD is_singleton_altdef)
  define w where "w = (world st)\<lparr>store := (store (world st))
    (a := if owners st a = {v} then None else Some (ob\<lparr>fRefCount := fRefCount ob - 1\<rparr>))\<rparr>"
  have "EmRefCounted_removeReference a (world st) = Some w"
    using a last by (auto simp: EmRefCounted_removeReference_def w_def Let_def)
  moreover have "counts_ok L (st\<lparr>vars := (vars st)(v := None), world := w\<rparr>)" (is "counts_ok L ?st")
    unfolding counts_ok_def
  proof (intro conjI allI impI)
    show "finite (dom (vars ?st))" using fin by simp
    fix b
    have "owners st a \<noteq> {v} \<Longrightarrow> owners st a - {v} \<noteq> {}" using vin by auto
    then show "slot_ok (b \<in> L) (store (world ?st) b) (owners ?st b)"
      using counts_ok_slot [OF ok, of b] own [of w b] card a by (cases "b = a") (auto simp: w_def)
    show "brk (world ?st) \<le> b \<Longrightarrow> store (world ?st) b = None"
      using ok a(1) by (auto simp: counts_ok_def w_def)
  qed
  ultimately show ?thesis using that a(1) by (auto simp: w_def)
qed

lemma deref_cong:
  assumes "\<And>b. b \<in> ran (vars st) \<Longrightarrow> map_option object (store w b) = map_option object (store (world st) b)"
  shows "deref (st\<lparr>vars := (vars st)(v := x), world := w\<rparr>) =
    (deref st)(v := case x of None \<Rightarrow> None | Some a \<Rightarrow> map_option object (store w a))"
  using assms by (auto simp: deref_def fun_eq_iff ran_def split: option.splits)

lemma deref_None_iff: "counts_ok L st \<Longrightarrow> deref st v = None \<longleftrightarrow> vars st v = None"
  by (auto simp: deref_def split: option.splits elim: counts_okD)

section \<open>Handles as variables\<close>

text \<open>
  The operations on handles that a client of the counters writes: a constructor from a
  new object, the copy constructor, the destructor and the two assignments. The
  temporary of an expression is a variable like another.
\<close>

definition handle_init :: "var \<Rightarrow> (addr option \<times> 'a world) option \<Rightarrow> 'a handles \<Rightarrow> 'a handles option" where
  "handle_init v r st = map_option (\<lambda>(fObject, w). st\<lparr>vars := (vars st)(v := fObject), world := w\<rparr>) r"

definition handle_new :: "var \<Rightarrow> 'a \<Rightarrow> 'a handles \<Rightarrow> 'a handles option" where
  "handle_new v x st =
     (let (a, w) = EmRefCounted_new x (world st) in handle_init v (EmRefCounter_make id (Some a) w) st)"

definition handle_copy :: "var \<Rightarrow> var \<Rightarrow> 'a handles \<Rightarrow> 'a handles option" where
  "handle_copy v u st = handle_init v (EmRefCounter_copy id (vars st u) (world st)) st"

definition handle_assign :: "var \<Rightarrow> var \<Rightarrow> 'a handles \<Rightarrow> 'a handles option" where
  "handle_assign v u st = handle_init v (EmRefCounter_assign id (vars st v) (vars st u) (world st)) st"

definition handle_assign_new :: "var \<Rightarrow> 'a \<Rightarrow> 'a handles \<Rightarrow> 'a handles option" where
  "handle_assign_new v x st =
     (let (a, w) = EmRefCounted_new x (world st)
      in handle_init v (EmRefCounter_assign_ptr id (vars st v) (Some a) w) st)"

definition handle_destroy :: "var \<Rightarrow> 'a handles \<Rightarrow> 'a handles option" where
  "handle_destroy v st =
     map_option (\<lambda>w. st\<lparr>vars := (vars st)(v := None), world := w\<rparr>)
       (EmRefCounter_destroy (vars st v) (world st))"

lemma handle_new_ok:
  assumes ok: "counts_ok {} st" and v: "deref st v = None"
  shows "\<exists>st'. handle_new v x st = Some st' \<and> counts_ok {} st' \<and> deref st' = (deref st)(v \<mapsto> x)"
proof -
  obtain a w where aw: "EmRefCounted_new x (world st) = (a, w)" by (cases "EmRefCounted_new x (world st)")
  note new = counts_ok_alloc [OF ok aw]
  have vn: "vars (st\<lparr>world := w\<rparr>) v = None" using v deref_None_iff [OF ok] by simp
  have a: "store (world (st\<lparr>world := w\<rparr>)) a = Some \<lparr>fRefCount = 0, object = x\<rparr>" using new by simp
  obtain w' where w': "EmRefCounter_Init id (Some a) w = Some (Some a, w')"
    "counts_ok {} (st\<lparr>vars := (vars st)(v \<mapsto> a), world := w'\<rparr>)"
    "\<And>b. map_option object (store w' b) = map_option object (store w b)"
    using counts_ok_attach [OF new(1) vn a, of id] by auto
  have "b \<noteq> a" if "b \<in> ran (vars st)" for b
    using that new(3) counts_okD [OF ok] by (force simp: ran_def)
  then have "deref (st\<lparr>vars := (vars st)(v \<mapsto> a), world := w'\<rparr>) = (deref st)(v \<mapsto> x)"
    using new(2,4) w'(3) by (subst deref_cong) auto
  with w' show ?thesis by (simp add: handle_new_def aw handle_init_def EmRefCounter_make_def)
qed

lemma handle_copy_ok:
  assumes ok: "counts_ok {} st" and v: "deref st v = None" and u: "deref st u = Some x"
  shows "\<exists>st'. handle_copy v u st = Some st' \<and> counts_ok {} st' \<and> deref st' = (deref st)(v \<mapsto> x)"
proof -
  obtain a ob where a: "vars st u = Some a" "store (world st) a = Some ob" "object ob = x"
    using u by (auto simp: deref_def split: option.splits)
  have vn: "vars st v = None" using v deref_None_iff [OF ok] by simp
  obtain w where w: "EmRefCounter_Init id (Some a) (world st) = Some (Some a, w)"
    "counts_ok {} (st\<lparr>vars := (vars st)(v \<mapsto> a), world := w\<rparr>)"
    "\<And>b. map_option object (store w b) = map_option object (store (world st) b)"
    using counts_ok_attach [OF ok vn a(2), of id] by auto
  then have "deref (st\<lparr>vars := (vars st)(v \<mapsto> a), world := w\<rparr>) = (deref st)(v \<mapsto> x)"
    using a by (subst deref_cong) auto
  with w a show ?thesis by (simp add: handle_copy_def handle_init_def EmRefCounter_copy_def)
qed

lemma handle_destroy_ok:
  assumes ok: "counts_ok L st" and v: "deref st v = Some x"
  shows "\<exists>st'. handle_destroy v st = Some st' \<and> counts_ok L st' \<and> deref st' = (deref st)(v := None)"
proof -
  obtain a where a: "vars st v = Some a" using v by (auto simp: deref_def split: option.splits)
  obtain w where w: "EmRefCounted_removeReference a (world st) = Some w"
    "counts_ok L (st\<lparr>vars := (vars st)(v := None), world := w\<rparr>)" (is "counts_ok L ?st")
    "\<And>b. b \<noteq> a \<Longrightarrow> store w b = store (world st) b"
    "owners st a \<noteq> {v} \<Longrightarrow> map_option object (store w a) = map_option object (store (world st) a)"
    using counts_ok_detach [OF ok a] by metis
  have "deref ?st u = ((deref st)(v := None)) u" for u
  proof (cases "u = v")
    case False
    then have "vars st u = Some a \<Longrightarrow> owners st a \<noteq> {v}" by (auto simp: owners_def)
    then show ?thesis using False w(3,4) by (auto simp: deref_def split: option.split) (metis not_None_eq)+
  qed (simp add: deref_def)
  then have "deref ?st = (deref st)(v := None)" by blast
  with w a show ?thesis by (simp add: handle_destroy_def EmRefCounter_destroy_def)
qed

lemma counts_ok_replace:
  assumes ok: "counts_ok L st" and L: "L \<subseteq> {p}" and v: "vars st v = Some a"
    and p: "store (world st) p = Some ob"
  shows "\<exists>st'. handle_init v (EmRefCounter_Replace id (Some a) (Some p) (world st)) st = Some st' \<and>
    counts_ok {} st' \<and> vars st' = (vars st)(v \<mapsto> p) \<and> deref st' = (deref st)(v \<mapsto> object ob)"
proof (cases "a = p")
  case True
  have "owners st p \<noteq> {}" using v True by (auto simp: owners_def)
  then have "slot_ok (b \<in> {}) (store (world st) b) (owners st b)" for b
    using counts_ok_slot [OF ok, of b] L by (cases "store (world st) b") auto
  then have "counts_ok {} st" using ok by (simp add: counts_ok_def)
  moreover have "(vars st)(v \<mapsto> p) = vars st" "(deref st)(v \<mapsto> object ob) = deref st"
    using v p True by (auto simp: deref_def)
  ultimately show ?thesis using True by (simp add: EmRefCounter_Replace_def handle_init_def)
next
  case False
  obtain oa where "store (world st) a = Some oa" by (rule counts_okD [OF ok v])
  then have "deref st v = Some (object oa)" by (simp add: deref_def v)
  then obtain st1 where st1: "handle_destroy v st = Some st1" "counts_ok L st1" "deref st1 = (deref st)(v := None)"
    using handle_destroy_ok [OF ok] by blast
  obtain w1 where w1: "EmRefCounted_removeReference a (world st) = Some w1"
    "st1 = st\<lparr>vars := (vars st)(v := None), world := w1\<rparr>"
    using st1(1) v by (auto simp: handle_destroy_def EmRefCounter_destroy_def)
  have "store w1 p = Some ob"
    using w1(1) p False by (auto simp: EmRefCounted_removeReference_def Let_def split: option.splits if_splits)
  then have p1: "store (world st1) p = Some ob" and v1: "vars st1 v = None" using w1(2) by auto
  obtain w where w: "EmRefCounter_Init id (Some p) (world st1) = Some (Some p, w)"
    "counts_ok (L - {p}) (st1\<lparr>vars := (vars st1)(v \<mapsto> p), world := w\<rparr>)"
    "\<And>b. map_option object (store w b) = map_option object (store (world st1) b)"
    using counts_ok_attach [OF st1(2) v1 p1, of id] by blast
  have L0: "L - {p} = {}" using L by blast
  have "deref (st1\<lparr>vars := (vars st1)(v \<mapsto> p), world := w\<rparr>) = (deref st)(v \<mapsto> object ob)"
    using w(3) p1 st1(3) by (subst deref_cong) auto
  moreover have "handle_init v (EmRefCounter_Replace id (Some a) (Some p) (world st)) st =
      Some (st1\<lparr>vars := (vars st1)(v \<mapsto> p), world := w\<rparr>)"
    using w(1) w1 False by (simp add: EmRefCounter_Replace_def handle_init_def)
  ultimately show ?thesis using w(2) w1(2) L0 by auto
qed

lemma deref_cases:
  assumes "deref st v = Some x"
  obtains a ob where "vars st v = Some a" "store (world st) a = Some ob" "object ob = x"
  using assms by (auto simp: deref_def split: option.splits)

lemma handle_assign_ok:
  assumes ok: "counts_ok {} st" and v: "deref st v = Some y" and u: "deref st u = Some x"
  shows "\<exists>st'. handle_assign v u st = Some st' \<and> counts_ok {} st' \<and>
    vars st' = (vars st)(v := vars st u) \<and> deref st' = (deref st)(v \<mapsto> x)"
proof -
  obtain a ob b ob' where a: "vars st v = Some a" and b: "vars st u = Some b" "store (world st) b = Some ob'" "object ob' = x"
    using deref_cases [OF v] deref_cases [OF u] by metis
  show ?thesis using counts_ok_replace [OF ok _ a b(2)] a b by (simp add: handle_assign_def EmRefCounter_assign_def)
qed

lemma handle_assign_new_ok:
  assumes ok: "counts_ok {} st" and v: "deref st v = Some y"
  shows "\<exists>st'. handle_assign_new v x st = Some st' \<and> counts_ok {} st' \<and> deref st' = (deref st)(v \<mapsto> x)"
proof -
  obtain a' w where aw: "EmRefCounted_new x (world st) = (a', w)" by (cases "EmRefCounted_new x (world st)")
  obtain a where a: "vars st v = Some a" using deref_cases [OF v] by metis
  note new = counts_ok_alloc [OF ok aw]
  have "b \<noteq> a'" if "b \<in> ran (vars st)" for b
    using that new(3) counts_okD [OF ok] by (force simp: ran_def)
  then have "store w b = store (world st) b" if "vars st u = Some b" for u b
    using that new(4) [of b] by (auto simp: ran_def)
  then have "deref (st\<lparr>world := w\<rparr>) = deref st"
    by (auto simp: deref_def fun_eq_iff split: option.split)
  then show ?thesis
    using counts_ok_replace [OF new(1) subset_refl, of v a "\<lparr>fRefCount = 0, object = x\<rparr>"] a new(2) aw
    by (auto simp: handle_assign_new_def EmRefCounter_assign_ptr_def handle_init_def)
qed

section \<open>The contract of handles\<close>

text \<open>
  A handle is a variable that holds a value: copying and assigning it copies the value,
  and no operation changes the value of another variable.
\<close>

locale value_handles =
  fixes ok :: "'s \<Rightarrow> bool"
    and val :: "'s \<Rightarrow> var \<Rightarrow> 'a option"
    and mk :: "var \<Rightarrow> 'a \<Rightarrow> 's \<Rightarrow> 's option"
    and cp :: "var \<Rightarrow> var \<Rightarrow> 's \<Rightarrow> 's option"
    and asg :: "var \<Rightarrow> var \<Rightarrow> 's \<Rightarrow> 's option"
    and del :: "var \<Rightarrow> 's \<Rightarrow> 's option"
  assumes mk_ok: "ok s \<Longrightarrow> val s v = None \<Longrightarrow> \<exists>s'. mk v x s = Some s' \<and> ok s' \<and> val s' = (val s)(v \<mapsto> x)"
    and cp_ok: "ok s \<Longrightarrow> val s v = None \<Longrightarrow> val s u = Some x \<Longrightarrow>
      \<exists>s'. cp v u s = Some s' \<and> ok s' \<and> val s' = (val s)(v \<mapsto> x)"
    and asg_ok: "ok s \<Longrightarrow> val s v = Some y \<Longrightarrow> val s u = Some x \<Longrightarrow>
      \<exists>s'. asg v u s = Some s' \<and> ok s' \<and> val s' = (val s)(v \<mapsto> x)"
    and del_ok: "ok s \<Longrightarrow> val s v = Some y \<Longrightarrow> \<exists>s'. del v s = Some s' \<and> ok s' \<and> val s' = (val s)(v := None)"
begin

text \<open>Assigning a temporary that dies afterwards.\<close>

lemma assign_temporary:
  assumes "ok s" and "val s v = Some y" and "val s t = Some x" and "t \<noteq> v"
  shows "\<exists>s' s''. asg v t s = Some s' \<and> del t s' = Some s'' \<and> ok s'' \<and> val s'' = (val s)(v \<mapsto> x, t := None)"
proof -
  obtain s' where s': "asg v t s = Some s'" "ok s'" "val s' = (val s)(v \<mapsto> x)"
    using asg_ok [OF assms(1-3)] by blast
  then have "val s' t = Some x" using assms by simp
  then show ?thesis using s' del_ok [OF s'(2)] by fastforce
qed

end

interpretation counted: value_handles "counts_ok {}" deref handle_new handle_copy handle_assign handle_destroy
  by unfold_locales (auto intro: handle_new_ok handle_copy_ok handle_destroy_ok dest: handle_assign_ok)

end
