(* ===== verification/RegionHandles.thy ===== *)
theory RegionHandles
  imports RegionProps RefCounted
begin

text \<open>
  \<open>EmRegion\<close> as the program sees it: variables whose \<open>fImpl\<close> counts references to
  shared \<open>EmRegionImpl\<close> objects. \<open>Region\<close> has what the operations compute; here is
  which object they read, write, share and delete. The temporaries that C++ creates for
  an expression are variables given as arguments.

  \<open>fBuf\<close> is \<open>fRectBuf\<close>, the array inside the object, for every buffer of at most
  seven coordinates: the constructors choose it by the length.
\<close>

section \<open>The operations on handles\<close>

type_synonym regions = "EmRegionImpl handles"

definition rg_Default :: "var \<Rightarrow> regions \<Rightarrow> regions option" where
  "rg_Default v st = handle_new v EmRegionImpl_empty st"

definition rg_FromRect :: "var \<Rightarrow> EmRect \<Rightarrow> regions \<Rightarrow> regions option" where
  "rg_FromRect v r st = handle_new v (EmRegionImpl_rect r) st"

definition rg_FromBuf :: "var \<Rightarrow> EmRegionImpl \<Rightarrow> regions \<Rightarrow> regions option" where
  "rg_FromBuf v i st = handle_new v i st"

definition rg_Copy :: "var \<Rightarrow> var \<Rightarrow> regions \<Rightarrow> regions option" where
  "rg_Copy v u st = handle_copy v u st"

definition rg_Destroy :: "var \<Rightarrow> regions \<Rightarrow> regions option" where
  "rg_Destroy v st = handle_destroy v st"

definition rg_Assign :: "var \<Rightarrow> var \<Rightarrow> regions \<Rightarrow> regions option" where
  "rg_Assign v u st = (if v \<noteq> u then handle_assign v u st else Some st)"

text \<open>The object of a handle, with its count.\<close>

definition rg_cell :: "var \<Rightarrow> regions \<Rightarrow> (addr \<times> EmRegionImpl EmRefCounted) option" where
  "rg_cell v st =
     (case vars st v of None \<Rightarrow> None | Some a \<Rightarrow> map_option (Pair a) (store (world st) a))"

definition rg_write :: "addr \<Rightarrow> EmRegionImpl EmRefCounted \<Rightarrow> EmRegionImpl \<Rightarrow> regions \<Rightarrow> regions" where
  "rg_write a ob i st = st\<lparr>world := (world st)\<lparr>store := (store (world st))(a \<mapsto> ob\<lparr>object := i\<rparr>)\<rparr>\<rparr>"

text \<open>
  \<open>operator= (const EmRect&)\<close>: the quick copy into an object that is not shared, or a
  new object through the temporary counter \<open>t\<close>.
\<close>

definition rg_AssignRect :: "var \<Rightarrow> EmRect \<Rightarrow> var \<Rightarrow> regions \<Rightarrow> regions option" where
  "rg_AssignRect v r t st =
     (case rg_cell v st of
        None \<Rightarrow> None
      | Some (a, ob) \<Rightarrow>
          if \<not> EmRefCounted_isShared ob \<and> fCapacity (object ob) \<le> 7
          then Some (rg_write a ob ((object ob)\<lparr>fCapacity := 7,
                 fBuf := Some [3, fTop r, fLeft r, fRight r, 1, fBottom r, 0], fBounds := r\<rparr>) st)
          else Option.bind (handle_new t (EmRegionImpl_rect r) st) (\<lambda>st1.
               Option.bind (handle_assign v t st1) (\<lambda>st2. handle_destroy t st2)))"

definition rg_BeEmpty :: "var \<Rightarrow> regions \<Rightarrow> regions option" where
  "rg_BeEmpty v st =
     (case rg_cell v st of
        None \<Rightarrow> None
      | Some (a, ob) \<Rightarrow>
          if fBuf (object ob) \<noteq> None
          then (if \<not> EmRefCounted_isShared ob \<and> fCapacity (object ob) \<le> 7
                then Some (rg_write a ob ((object ob)\<lparr>fBuf := None, fCapacity := 0,
                       fBounds := EmRect_BeEmpty (fBounds (object ob))\<rparr>) st)
                else handle_assign_new v EmRegionImpl_empty st)
          else Some st)"

text \<open>\<open>Offset\<close> changes the object of the handle, whoever else refers to it.\<close>

definition rg_Offset :: "var \<Rightarrow> EmCoord \<Rightarrow> EmCoord \<Rightarrow> regions \<Rightarrow> regions option" where
  "rg_Offset v dx dy st =
     (case rg_cell v st of
        None \<Rightarrow> None
      | Some (a, ob) \<Rightarrow> map_option (\<lambda>i. rg_write a ob i st) (EmRegionImpl_Offset (object ob) dx dy))"

text \<open>\<open>RegionOp\<close> returns a region: an empty one, a copy of an operand, or a new one.\<close>

definition rg_RegionOp :: "EOpcode \<Rightarrow> var \<Rightarrow> var \<Rightarrow> var \<Rightarrow> regions \<Rightarrow> regions option" where
  "rg_RegionOp code t v u st =
     (case (deref st v, deref st u) of
        (Some r1, Some r2) \<Rightarrow>
          (let general = Option.bind (EmRegion_RegionOp code r1 r2) (\<lambda>i. rg_FromBuf t i st)
           in case code of
                eUnion \<Rightarrow>
                  (if EmRegion_IsEmpty r1 \<and> EmRegion_IsEmpty r2 then rg_Default t st
                   else if EmRegion_IsEmpty r1 then rg_Copy t u st
                   else if EmRegion_IsEmpty r2 then rg_Copy t v st
                   else general)
              | eDifference \<Rightarrow>
                  (if EmRegion_IsEmpty r1 then rg_Default t st
                   else if EmRegion_IsEmpty r2 then rg_Copy t v st
                   else general)
              | eRevDifference \<Rightarrow>
                  (if EmRegion_IsEmpty r2 then rg_Default t st
                   else if EmRegion_IsEmpty r1 then rg_Copy t u st
                   else general)
              | eIntersection \<Rightarrow>
                  (if EmRegion_IsEmpty r1 \<or> EmRegion_IsEmpty r2 then rg_Default t st
                   else general))
      | _ \<Rightarrow> None)"

text \<open>\<open>UnionWith\<close>, \<open>IntersectWith\<close> and \<open>Subtract\<close>: \<open>*this = RegionOp (code, *this, other)\<close>.\<close>

definition rg_Combine :: "EOpcode \<Rightarrow> var \<Rightarrow> var \<Rightarrow> var \<Rightarrow> regions \<Rightarrow> regions option" where
  "rg_Combine code v u t st =
     Option.bind (rg_RegionOp code t v u st) (\<lambda>st1.
     Option.bind (rg_Assign v t st1) (\<lambda>st2. rg_Destroy t st2))"

text \<open>
  \<open>*this = Xor (*this, other)\<close>. The order in which the two arguments of \<open>Difference\<close>
  are evaluated is not specified; the union comes first here.
\<close>

definition rg_XorWith :: "var \<Rightarrow> var \<Rightarrow> var \<Rightarrow> var \<Rightarrow> var \<Rightarrow> regions \<Rightarrow> regions option" where
  "rg_XorWith v u t1 t2 t st =
     Option.bind (rg_RegionOp eUnion t1 v u st) (\<lambda>st1.
     Option.bind (rg_RegionOp eIntersection t2 v u st1) (\<lambda>st2.
     Option.bind (rg_RegionOp eDifference t t1 t2 st2) (\<lambda>st3.
     Option.bind (rg_Assign v t st3) (\<lambda>st4.
     Option.bind (rg_Destroy t st4) (\<lambda>st5.
     Option.bind (rg_Destroy t2 st5) (\<lambda>st6. rg_Destroy t1 st6))))))"

datatype stmt =
    Default var
  | FromRect var EmRect
  | CopyOf var var
  | Destroy var
  | Assign var var
  | AssignRect var EmRect var
  | BeEmpty var
  | OffsetBy var EmCoord EmCoord
  | Combine EOpcode var var var
  | XorWith var var var var var

fun exec :: "stmt \<Rightarrow> regions \<Rightarrow> regions option" where
  "exec (Default v) st = rg_Default v st"
| "exec (FromRect v r) st = rg_FromRect v r st"
| "exec (CopyOf v u) st = rg_Copy v u st"
| "exec (Destroy v) st = rg_Destroy v st"
| "exec (Assign v u) st = rg_Assign v u st"
| "exec (AssignRect v r t) st = rg_AssignRect v r t st"
| "exec (BeEmpty v) st = rg_BeEmpty v st"
| "exec (OffsetBy v dx dy) st = rg_Offset v dx dy st"
| "exec (Combine code v u t) st = rg_Combine code v u t st"
| "exec (XorWith v u t1 t2 t) st = rg_XorWith v u t1 t2 t st"

section \<open>The promise: variables that hold sets of points\<close>

type_synonym env = "var \<Rightarrow> (int \<times> int) set option"

definition env_of :: "regions \<Rightarrow> env" where
  "env_of st v = map_option rgn_pts (deref st v)"

fun meaning :: "stmt \<Rightarrow> env \<Rightarrow> env" where
  "meaning (Default v) e = e(v \<mapsto> {})"
| "meaning (FromRect v r) e = e(v \<mapsto> rect_pts r)"
| "meaning (CopyOf v u) e = e(v := e u)"
| "meaning (Destroy v) e = e(v := None)"
| "meaning (Assign v u) e = e(v := e u)"
| "meaning (AssignRect v r t) e = e(v \<mapsto> rect_pts r)"
| "meaning (BeEmpty v) e = e(v \<mapsto> {})"
| "meaning (OffsetBy v dx dy) e = e(v := map_option ((`) (\<lambda>(x, y). (x + dx, y + dy))) (e v))"
| "meaning (Combine code v u t) e = e(v \<mapsto> setop code (the (e v)) (the (e u)))"
| "meaning (XorWith v u t1 t2 t) e = e(v \<mapsto> (the (e v) - the (e u)) \<union> (the (e u) - the (e v)))"

text \<open>
  When a statement may run: C++ declares a variable once and uses it while it lives.
  Rectangles and offsets stay in the range of coordinates.
\<close>

definition live :: "regions \<Rightarrow> var \<Rightarrow> bool" where
  "live st v \<longleftrightarrow> vars st v \<noteq> None"

fun legal :: "stmt \<Rightarrow> regions \<Rightarrow> bool" where
  "legal (Default v) st \<longleftrightarrow> \<not> live st v"
| "legal (FromRect v r) st \<longleftrightarrow> \<not> live st v \<and> rect_ok r"
| "legal (CopyOf v u) st \<longleftrightarrow> \<not> live st v \<and> live st u"
| "legal (Destroy v) st \<longleftrightarrow> live st v"
| "legal (Assign v u) st \<longleftrightarrow> live st v \<and> live st u"
| "legal (AssignRect v r t) st \<longleftrightarrow> live st v \<and> \<not> live st t \<and> rect_ok r"
| "legal (BeEmpty v) st \<longleftrightarrow> live st v"
| "legal (OffsetBy v dx dy) st \<longleftrightarrow> live st v \<and> offset_fits dx dy (the (deref st v))"
| "legal (Combine code v u t) st \<longleftrightarrow> live st v \<and> live st u \<and> \<not> live st t"
| "legal (XorWith v u t1 t2 t) st \<longleftrightarrow>
     live st v \<and> live st u \<and> \<not> live st t \<and> \<not> live st t1 \<and> \<not> live st t2 \<and> distinct [t, t1, t2]"

definition regions_ok :: "regions \<Rightarrow> bool" where
  "regions_ok st \<longleftrightarrow> counts_ok {} st \<and> (\<forall>v i. deref st v = Some i \<longrightarrow> rgn_wf i)"

text \<open>What a statement achieves that keeps the promise.\<close>

definition achieves :: "stmt \<Rightarrow> regions \<Rightarrow> bool" where
  "achieves s st \<longleftrightarrow> (\<exists>st'. exec s st = Some st' \<and> regions_ok st' \<and> env_of st' = meaning s (env_of st))"

section \<open>The operations keep the promise\<close>

lemma live_deref: "counts_ok {} st \<Longrightarrow> live st v \<longleftrightarrow> (\<exists>i. deref st v = Some i)"
  using deref_None_iff [of "{}" st v] by (auto simp: live_def)

lemma regions_okD:
  assumes "regions_ok st"
  shows "counts_ok {} st" and "deref st v = Some i \<Longrightarrow> rgn_wf i"
  using assms by (auto simp: regions_ok_def)

lemma regions_ok_upd:
  assumes "regions_ok st" and "counts_ok {} st'" and "deref st' = (deref st)(v \<mapsto> i)" and "rgn_wf i"
  shows "regions_ok st'" and "env_of st' = (env_of st)(v \<mapsto> rgn_pts i)"
  using assms by (auto simp: regions_ok_def env_of_def)

lemma env_of_deref: "deref st v = Some i \<Longrightarrow> env_of st v = Some (rgn_pts i)"
  by (simp add: env_of_def)

lemma env_of_None: "deref st v = None \<Longrightarrow> env_of st v = None"
  by (simp add: env_of_def)

text \<open>
  A live object has a count of at least one, so \<open>isShared\<close> holds of every object a handle
  refers to: the quick paths of the assignment of a rectangle and of \<open>BeEmpty\<close> are never taken.
\<close>

lemma cell_shared:
  assumes "counts_ok {} st" and "rg_cell v st = Some (a, ob)"
  shows "EmRefCounted_isShared ob" and "deref st v = Some (object ob)" and "vars st v = Some a"
    and "store (world st) a = Some ob"
proof -
  show v: "vars st v = Some a" and s: "store (world st) a = Some ob"
    using assms(2) by (auto simp: rg_cell_def split: option.splits)
  obtain ob' where "store (world st) a = Some ob'" "fRefCount ob' = int (card (owners st a))"
    "0 < card (owners st a)" by (rule counts_okD [OF assms(1) v])
  with v s show "EmRefCounted_isShared ob" "deref st v = Some (object ob)"
    by (simp_all add: EmRefCounted_isShared_def deref_def)
qed

lemma cell_live:
  assumes "deref st v = Some i"
  obtains a ob where "rg_cell v st = Some (a, ob)" "object ob = i"
  using assms by (auto simp: rg_cell_def deref_def split: option.splits)

lemma achieves_new:
  assumes "regions_ok st" and "\<not> live st v" and "rgn_wf i"
    and "exec s st = handle_new v i st" and "meaning s (env_of st) = (env_of st)(v \<mapsto> rgn_pts i)"
  shows "achieves s st"
proof -
  have "deref st v = None" using assms(1,2) live_deref [of st v] by (auto simp: regions_ok_def)
  then obtain st' where "handle_new v i st = Some st'" "counts_ok {} st'" "deref st' = (deref st)(v \<mapsto> i)"
    using counted.mk_ok [OF regions_okD(1) [OF assms(1)]] by blast
  then show ?thesis using assms regions_ok_upd [OF assms(1)] by (auto simp: achieves_def)
qed

lemma achieves_Copy:
  assumes "regions_ok st" and "legal (CopyOf v u) st"
  shows "achieves (CopyOf v u) st"
proof -
  obtain i where i: "deref st u = Some i" "deref st v = None"
    using assms live_deref [of st] by (auto simp: regions_ok_def)
  then obtain st' where "handle_copy v u st = Some st'" "counts_ok {} st'" "deref st' = (deref st)(v \<mapsto> i)"
    using counted.cp_ok [OF regions_okD(1) [OF assms(1)]] by blast
  then show ?thesis using i assms regions_okD(2) [OF assms(1) i(1)] regions_ok_upd [OF assms(1)]
    by (auto simp: achieves_def rg_Copy_def env_of_deref)
qed

lemma achieves_Destroy:
  assumes "regions_ok st" and "legal (Destroy v) st"
  shows "achieves (Destroy v) st"
proof -
  obtain i where i: "deref st v = Some i" using assms live_deref [of st] by (auto simp: regions_ok_def)
  then obtain st' where "handle_destroy v st = Some st'" "counts_ok {} st'" "deref st' = (deref st)(v := None)"
    using counted.del_ok [OF regions_okD(1) [OF assms(1)]] by blast
  then show ?thesis using assms by (auto simp: achieves_def rg_Destroy_def regions_ok_def env_of_def fun_eq_iff)
qed

lemma rg_Assign_ok:
  assumes "counts_ok {} st" and "deref st v = Some y" and "deref st u = Some x"
  shows "\<exists>st'. rg_Assign v u st = Some st' \<and> counts_ok {} st' \<and> deref st' = (deref st)(v \<mapsto> x)"
  using counted.asg_ok [OF assms] assms by (auto simp: rg_Assign_def fun_upd_idem)

lemma achieves_Assign:
  assumes "regions_ok st" and "legal (Assign v u) st"
  shows "achieves (Assign v u) st"
proof -
  obtain x y where xy: "deref st v = Some y" "deref st u = Some x"
    using assms live_deref [of st] by (auto simp: regions_ok_def)
  obtain st' where "rg_Assign v u st = Some st'" "counts_ok {} st'" "deref st' = (deref st)(v \<mapsto> x)"
    using rg_Assign_ok [OF regions_okD(1) [OF assms(1)] xy] by blast
  then show ?thesis using xy assms regions_okD(2) [OF assms(1) xy(2)] regions_ok_upd [OF assms(1)]
    by (auto simp: achieves_def env_of_deref)
qed

lemma achieves_AssignRect:
  assumes "regions_ok st" and "legal (AssignRect v r t) st"
  shows "achieves (AssignRect v r t) st"
proof -
  note ok = regions_okD(1) [OF assms(1)]
  obtain y where y: "deref st v = Some y" "deref st t = None"
    using assms live_deref [OF ok] by auto
  obtain a ob where c: "rg_cell v st = Some (a, ob)" using cell_live [OF y(1)] by metis
  obtain st1 where st1: "handle_new t (EmRegionImpl_rect r) st = Some st1" "counts_ok {} st1"
    "deref st1 = (deref st)(t \<mapsto> EmRegionImpl_rect r)" using counted.mk_ok [OF ok y(2)] by blast
  have tv: "t \<noteq> v" using y by auto
  obtain st2 st3 where st2: "handle_assign v t st1 = Some st2" "handle_destroy t st2 = Some st3" "counts_ok {} st3"
    "deref st3 = (deref st1)(v \<mapsto> EmRegionImpl_rect r, t := None)"
    using counted.assign_temporary [OF st1(2) _ _ tv, of y "EmRegionImpl_rect r"] st1(3) y tv by auto
  have "deref st3 = (deref st)(v \<mapsto> EmRegionImpl_rect r)" using st2(4) st1(3) y(2) tv by (auto simp: fun_eq_iff)
  then show ?thesis
    using st1 st2 c cell_shared(1) [OF ok c] assms rect_region_wf [of r]
      regions_ok_upd [OF assms(1) st2(3)] by (auto simp: achieves_def rg_AssignRect_def)
qed

lemma achieves_BeEmpty:
  assumes "regions_ok st" and "legal (BeEmpty v) st"
  shows "achieves (BeEmpty v) st"
proof -
  note ok = regions_okD(1) [OF assms(1)]
  obtain y where y: "deref st v = Some y" using assms live_deref [OF ok] by auto
  obtain a ob where c: "rg_cell v st = Some (a, ob)" "object ob = y" using cell_live [OF y] by metis
  show ?thesis
  proof (cases "fBuf y")
    case None
    have "rgn_wf y" using regions_okD(2) [OF assms(1) y] .
    then have "rgn_pts y = {}" using rgn_wf_buf [of y] None by auto
    then have "env_of st = (env_of st)(v \<mapsto> {})" using env_of_deref [OF y] by (auto simp: fun_eq_iff)
    then show ?thesis using None c assms by (auto simp: achieves_def rg_BeEmpty_def)
  next
    case (Some s)
    obtain st' where "handle_assign_new v EmRegionImpl_empty st = Some st'" "counts_ok {} st'"
      "deref st' = (deref st)(v \<mapsto> EmRegionImpl_empty)" using handle_assign_new_ok [OF ok y] by blast
    then show ?thesis
      using Some c cell_shared(1) [OF ok c(1)] regions_ok_upd [OF assms(1)]
      by (auto simp: achieves_def rg_BeEmpty_def)
  qed
qed

lemma rg_RegionOp_ok:
  assumes ok: "counts_ok {} st" and t: "deref st t = None"
    and vu: "deref st v = Some r1" "deref st u = Some r2" and i: "EmRegion_RegionOp code r1 r2 = Some i"
  shows "\<exists>st'. rg_RegionOp code t v u st = Some st' \<and> counts_ok {} st' \<and> deref st' = (deref st)(t \<mapsto> i)"
  using i vu counted.mk_ok [OF ok t, of i] counted.cp_ok [OF ok t vu(1)] counted.cp_ok [OF ok t vu(2)]
  by (cases code) (auto simp: rg_RegionOp_def rg_Default_def rg_Copy_def rg_FromBuf_def EmRegion_RegionOp_def Let_def
      split: if_splits)

lemma achieves_Combine:
  assumes "regions_ok st" and "legal (Combine code v u t) st"
  shows "achieves (Combine code v u t) st"
proof -
  note ok = regions_okD(1) [OF assms(1)]
  obtain r1 r2 where r: "deref st v = Some r1" "deref st u = Some r2" and t: "deref st t = None"
    using assms live_deref [OF ok] by auto
  obtain i where i: "EmRegion_RegionOp code r1 r2 = Some i" "rgn_wf i" "rgn_pts i = setop code (rgn_pts r1) (rgn_pts r2)"
    using rgn.rop_ok [OF regions_okD(2) [OF assms(1) r(1)] regions_okD(2) [OF assms(1) r(2)]] by blast
  obtain st1 where st1: "rg_RegionOp code t v u st = Some st1" "counts_ok {} st1" "deref st1 = (deref st)(t \<mapsto> i)"
    using rg_RegionOp_ok [OF ok t r i(1)] by blast
  have tv: "t \<noteq> v" using r t by auto
  obtain st2 st3 where st2: "handle_assign v t st1 = Some st2" "handle_destroy t st2 = Some st3" "counts_ok {} st3"
    "deref st3 = (deref st1)(v \<mapsto> i, t := None)"
    using counted.assign_temporary [OF st1(2) _ _ tv, of r1 i] st1(3) r tv by auto
  have "deref st3 = (deref st)(v \<mapsto> i)" using st2(4) st1(3) t tv by (auto simp: fun_eq_iff)
  then show ?thesis
    using st1 st2 tv i r regions_ok_upd [OF assms(1) st2(3)]
    by (auto simp: achieves_def rg_Combine_def rg_Assign_def rg_Destroy_def env_of_deref)
qed

lemma achieves_XorWith:
  assumes "regions_ok st" and "legal (XorWith v u t1 t2 t) st"
  shows "achieves (XorWith v u t1 t2 t) st"
proof -
  note ok = regions_okD(1) [OF assms(1)]
  obtain r1 r2 where r: "deref st v = Some r1" "deref st u = Some r2"
    and t: "deref st t = None" "deref st t1 = None" "deref st t2 = None" and d: "t \<noteq> t1" "t \<noteq> t2" "t1 \<noteq> t2"
    using assms live_deref [OF ok] by auto
  have neq: "t \<noteq> v" "t1 \<noteq> v" "t2 \<noteq> v" "t1 \<noteq> u" "t2 \<noteq> u" using r t by auto
  obtain a b i where ops: "EmRegion_RegionOp eUnion r1 r2 = Some a" "EmRegion_RegionOp eIntersection r1 r2 = Some b"
    "EmRegion_RegionOp eDifference a b = Some i" "rgn_wf i"
    "rgn_pts i = (rgn_pts r1 - rgn_pts r2) \<union> (rgn_pts r2 - rgn_pts r1)"
    using rgn.xor_ok [OF regions_okD(2) [OF assms(1) r(1)] regions_okD(2) [OF assms(1) r(2)]] by blast
  obtain st1 where st1: "rg_RegionOp eUnion t1 v u st = Some st1" "counts_ok {} st1" "deref st1 = (deref st)(t1 \<mapsto> a)"
    using rg_RegionOp_ok [OF ok t(2) r ops(1)] by blast
  have p1: "deref st1 t2 = None" "deref st1 v = Some r1" "deref st1 u = Some r2"
    using t r d neq by (simp_all add: st1(3))
  obtain st2 where st2: "rg_RegionOp eIntersection t2 v u st1 = Some st2" "counts_ok {} st2" "deref st2 = (deref st1)(t2 \<mapsto> b)"
    using rg_RegionOp_ok [OF st1(2) p1 ops(2)] by blast
  have p2: "deref st2 t = None" "deref st2 t1 = Some a" "deref st2 t2 = Some b"
    using t d by (simp_all add: st2(3) st1(3))
  obtain st3 where st3: "rg_RegionOp eDifference t t1 t2 st2 = Some st3" "counts_ok {} st3" "deref st3 = (deref st2)(t \<mapsto> i)"
    using rg_RegionOp_ok [OF st2(2) p2 ops(3)] by blast
  have vals: "deref st3 v = Some r1" "deref st3 t = Some i" using neq r by (simp_all add: st3(3) st2(3) st1(3))
  obtain st4 st5 where st5: "handle_assign v t st3 = Some st4" "handle_destroy t st4 = Some st5" "counts_ok {} st5"
    "deref st5 = (deref st3)(v \<mapsto> i, t := None)"
    using counted.assign_temporary [OF st3(2) vals neq(1)] by blast
  have v2: "deref st5 t2 = Some b" using d neq by (simp add: st5(4) st3(3) st2(3))
  obtain st6 where st6: "handle_destroy t2 st5 = Some st6" "counts_ok {} st6" "deref st6 = (deref st5)(t2 := None)"
    using counted.del_ok [OF st5(3) v2] by blast
  have v1: "deref st6 t1 = Some a" using d neq by (simp add: st6(3) st5(4) st3(3) st2(3) st1(3))
  obtain st7 where st7: "handle_destroy t1 st6 = Some st7" "counts_ok {} st7" "deref st7 = (deref st6)(t1 := None)"
    using counted.del_ok [OF st6(2) v1] by blast
  have "deref st7 = (deref st)(v \<mapsto> i)"
    unfolding st7(3) st6(3) st5(4) st3(3) st2(3) st1(3) using t neq by (simp add: fun_eq_iff)
  note fin = regions_ok_upd [OF assms(1) st7(2) this ops(4)]
  have "exec (XorWith v u t1 t2 t) st = Some st7"
    using neq by (simp add: rg_XorWith_def rg_Assign_def rg_Destroy_def st1(1) st2(1) st3(1) st5(1,2) st6(1) st7(1))
  then show ?thesis using fin ops(5) r unfolding achieves_def by (simp add: env_of_deref)
qed

text \<open>\<open>Offset\<close> moves every region that shares the object.\<close>

lemma rg_write_counts:
  assumes "counts_ok {} st" and "store (world st) a = Some ob"
  shows "counts_ok {} (rg_write a ob i st)"
    and "deref (rg_write a ob i st) u = (if vars st u = Some a then Some i else deref st u)"
proof -
  have own: "owners (rg_write a ob i st) b = owners st b" for b by (simp add: owners_def rg_write_def)
  have "slot_ok (b \<in> {}) (store (world (rg_write a ob i st)) b) (owners st b)" for b
    using counts_ok_slot [OF assms(1), of b] assms(2) by (auto simp: rg_write_def)
  then show "counts_ok {} (rg_write a ob i st)"
    using assms own by (auto simp: counts_ok_def rg_write_def)
  show "deref (rg_write a ob i st) u = (if vars st u = Some a then Some i else deref st u)"
    by (auto simp: deref_def rg_write_def split: option.splits)
qed

lemma rg_Offset_aliases:
  assumes "regions_ok st" and "legal (OffsetBy v dx dy) st"
  shows "\<exists>st'. exec (OffsetBy v dx dy) st = Some st' \<and> regions_ok st' \<and>
    (\<forall>u. env_of st' u = (if vars st u = vars st v
       then map_option ((`) (\<lambda>(x, y). (x + dx, y + dy))) (env_of st u) else env_of st u))"
proof -
  note ok = regions_okD(1) [OF assms(1)]
  obtain i where i: "deref st v = Some i" using assms live_deref [OF ok] by auto
  obtain a ob where c: "rg_cell v st = Some (a, ob)" "object ob = i" using cell_live [OF i] by metis
  note cell = cell_shared [OF ok c(1)]
  have "offset_fits dx dy i" using assms(2) i by simp
  then obtain i' where i': "EmRegionImpl_Offset i dx dy = Some i'" "rgn_wf i'"
    "rgn_pts i' = (\<lambda>(x, y). (x + dx, y + dy)) ` rgn_pts i"
    using Offset_ok [OF regions_okD(2) [OF assms(1) i], of dx dy] by blast
  note w = rg_write_counts [OF ok cell(4), of i']
  have "regions_ok (rg_write a ob i' st)"
    using w assms(1) i'(2) by (auto simp: regions_ok_def split: if_splits)
  moreover have "env_of (rg_write a ob i' st) u = (if vars st u = vars st v
       then map_option ((`) (\<lambda>(x, y). (x + dx, y + dy))) (env_of st u) else env_of st u)" for u
    using w(2) [of u] cell(3) i i'(3) cell c(2) by (auto simp: env_of_def deref_def)
  ultimately show ?thesis using c i'(1) by (simp add: rg_Offset_def)
qed

definition unaliased :: "stmt \<Rightarrow> regions \<Rightarrow> bool" where
  "unaliased s st \<longleftrightarrow>
     (case s of OffsetBy v dx dy \<Rightarrow> \<forall>u. vars st u = vars st v \<longrightarrow> u = v | _ \<Rightarrow> True)"

lemma achieves_OffsetBy:
  assumes "regions_ok st" and "legal (OffsetBy v dx dy) st" and "unaliased (OffsetBy v dx dy) st"
  shows "achieves (OffsetBy v dx dy) st"
proof -
  obtain st' where st': "exec (OffsetBy v dx dy) st = Some st'" "regions_ok st'"
    "\<And>u. env_of st' u = (if vars st u = vars st v
       then map_option ((`) (\<lambda>(x, y). (x + dx, y + dy))) (env_of st u) else env_of st u)"
    using rg_Offset_aliases [OF assms(1,2)] by blast
  have "env_of st' = meaning (OffsetBy v dx dy) (env_of st)"
  proof
    show "env_of st' u = meaning (OffsetBy v dx dy) (env_of st) u" for u
      using st'(3) [of u] assms(3) by (cases "u = v") (auto simp: unaliased_def)
  qed
  with st' show ?thesis unfolding achieves_def by blast
qed

lemma achieves_all:
  assumes "regions_ok st" and "legal s st" and "unaliased s st"
  shows "achieves s st"
proof (cases s)
  case (Default v)
  then show ?thesis using assms achieves_new [of st v EmRegionImpl_empty s] by (simp add: rg_Default_def)
next
  case (FromRect v r)
  then show ?thesis
    using assms achieves_new [of st v "EmRegionImpl_rect r" s] rect_region_wf [of r] by (simp add: rg_FromRect_def)
qed (use assms in \<open>auto intro: achieves_Copy achieves_Destroy achieves_Assign achieves_AssignRect
    achieves_BeEmpty achieves_OffsetBy achieves_Combine achieves_XorWith\<close>)

text \<open>Programs: lists of statements, from the state without variables.\<close>

definition no_regions :: regions where
  "no_regions = \<lparr>vars = (\<lambda>_. None), world = \<lparr>store = (\<lambda>_. None), brk = 0\<rparr>\<rparr>"

inductive region_reach :: "regions \<Rightarrow> bool" where
  start: "region_reach no_regions"
| step: "region_reach st \<Longrightarrow> legal s st \<Longrightarrow> exec s st = Some st' \<Longrightarrow> region_reach st'"

lemma no_regions_ok: "regions_ok no_regions"
  by (simp add: regions_ok_def no_regions_def counts_ok_def deref_def owners_def slot_ok_def)

lemma legal_exec_ok:
  assumes "regions_ok st" and "legal s st"
  shows "\<exists>st'. exec s st = Some st' \<and> regions_ok st'"
proof (cases "unaliased s st")
  case True
  then show ?thesis using achieves_all [OF assms] by (auto simp: achieves_def)
next
  case False
  then obtain v dx dy where "s = OffsetBy v dx dy" by (cases s) (auto simp: unaliased_def)
  then show ?thesis using rg_Offset_aliases [OF assms(1), of v dx dy] assms(2) by blast
qed

lemma region_reach_ok: "region_reach st \<Longrightarrow> regions_ok st"
proof (induction rule: region_reach.induct)
  case (step st s st')
  then show ?case using legal_exec_ok [of st s] by auto
qed (rule no_regions_ok)

end
