(* ===== verification/RegionResults.thy ===== *)
theory RegionResults
  imports RegionHandles
begin

text \<open>
  The properties of regions, on the model of the class: what its operations compute on
  sets of points, and what its reference-counted handles keep.
\<close>

abbreviation square :: "int \<Rightarrow> int \<Rightarrow> EmRegionImpl" where
  "square a b \<equiv> EmRegionImpl_rect (EmRect_make a a b b)"

lemma square_wf [simp]: "coord_ok a \<Longrightarrow> coord_ok b \<Longrightarrow> rgn_wf (square a b)"
  and square_pts: "coord_ok a \<Longrightarrow> coord_ok b \<Longrightarrow> rgn_pts (square a b) = rect_pts (EmRect_make a a b b)"
  using rect_region_wf [of "EmRect_make a a b b"] by (simp_all add: rect_ok_def EmRect_make_def)

lemma coord_ok_small [simp]: "coord_ok 0" "coord_ok 1" "coord_ok (numeral k) \<longleftrightarrow> numeral k < (2 ^ 30 :: int)"
  by (simp_all add: coord_ok_def)

lemma bounds_least:
  assumes "rgn_wf rg" and "rgn_pts rg \<subseteq> rect_pts t"
  shows "rect_pts (EmRegion_Bounds rg) \<subseteq> rect_pts t"
  using assms(1)
proof (rule rgn_wf_cases)
  assume "EmRegion_IsEmpty rg"
  then show ?thesis by (simp add: EmRegion_IsEmpty_def EmRegion_Bounds_def EmRect_IsEmpty_iff)
next
  fix ls assume l: "rgn_lines rg ls"
  then have "rgn_pts rg = (\<Union>r\<in>set (rects_of ls). rect_pts r)"
    unfolding rgn_lines_pts [OF l] by (auto simp: rgn_lines_def in_lines_rects)
  then have "\<forall>r\<in>set (rects_of ls). rect_pts r \<subseteq> rect_pts t" using assms(2) by blast
  then have "rect_pts (bounds_of ls) \<subseteq> rect_pts t"
    unfolding bounds_of_def by (intro fold_UnionWith_least) auto
  then show ?thesis using l by (simp add: rgn_lines_def EmRegion_Bounds_def)
qed

lemma bounds_upper:
  assumes "rgn_wf rg"
  shows "rgn_pts rg \<subseteq> rect_pts (EmRegion_Bounds rg)"
  by (auto simp: rgn_pts_def EmRegionImpl_Contains_def EmRegion_Bounds_def EmRect_Contains_pt_iff split: if_splits)

section \<open>Properties\<close>





text \<open>
  C3: the queries agree with the points of a region: \<open>Contains\<close> answers for every point,
  \<open>IsEmpty\<close> holds exactly of the regions without points, and \<open>Bounds\<close> is the least
  rectangle around the points.
\<close>

theorem queries_agree_with_points:
  assumes "rgn_wf rg"
  shows "EmRegionImpl_Contains rg (EmPoint_make x y) = Some ((x, y) \<in> rgn_pts rg) \<and>
    EmRegion_IsEmpty rg = (rgn_pts rg = {}) \<and>
    (rgn_pts rg \<subseteq> rect_pts t) = (rect_pts (EmRegion_Bounds rg) \<subseteq> rect_pts t)"
  using Contains_total [OF assms] IsEmpty_iff_pts [OF assms] bounds_least [OF assms]
    bounds_upper [OF assms] by blast

lemma queries_agree_with_points_witness:
  "EmRegionImpl_Contains (square 3 7) (EmPoint_make 3 6) = Some ((3, 6) \<in> rgn_pts (square 3 7)) \<and>
    EmRegion_IsEmpty (square 3 7) = (rgn_pts (square 3 7) = {}) \<and>
    (rgn_pts (square 3 7) \<subseteq> rect_pts (EmRect_make 0 0 9 9)) =
      (rect_pts (EmRegion_Bounds (square 3 7)) \<subseteq> rect_pts (EmRect_make 0 0 9 9))"
  using queries_agree_with_points [of "square 3 7" 3 6 "EmRect_make 0 0 9 9"] by simp



text \<open>
  The region of an empty rectangle: \<open>GetRects\<close> returns nothing, the iterator one rectangle.
\<close>

lemma empty_region_iterates:
  "EmRegionImpl_GetRects (square 0 0) = Some []"
  "for_each_rect (\<lambda>r seen. Some (r, EmRegionImpl_rect r)) (EmRegionRectIterator_make (square 0 0))
     (EmRect_make 7 7 7 7) None EmRegionImpl_empty = Some (square 0 0)"
  "square 0 0 \<noteq> EmRegionImpl_empty"
  by code_simp+

text \<open>
  C5: \<open>Inset\<close> with deltas that are not negative erodes a region: the result has the points
  all of whose neighbours within the deltas are points of the region. The numbers of the
  region's buffer leave room for \<open>dx\<close> in 32 bits, and \<open>dy\<close> is below \<open>2 ^ 30\<close>. \<open>Inset\<close>
  insets the rectangles of the decomposition, joins them again, and does the same on the
  region flipped around the diagonal; all four loops end and all unions succeed.
\<close>

theorem Inset_erodes:
  assumes "rgn_wf rg" and "0 \<le> dx" and "0 \<le> dy" and "inset_fits dx rg" and "dy < 2 ^ 30"
  shows "\<exists>r. EmRegion_Inset rg dx dy = Some r \<and> rgn_wf r \<and>
    rgn_pts r = {(x, y). \<forall>i\<in>{-dx..dx}. \<forall>j\<in>{-dy..dy}. (x + i, y + j) \<in> rgn_pts rg}"
  by (rule Inset_ok [OF assms])

lemma Inset_erodes_witness:
  "\<exists>r. EmRegion_Inset (square 0 10) 2 3 = Some r \<and> rgn_wf r \<and>
    rgn_pts r = {(x, y). \<forall>i\<in>{-2..2}. \<forall>j\<in>{-3..3}. (x + i, y + j) \<in> rgn_pts (square 0 10)}"
  by (rule Inset_erodes)
    (simp_all add: inset_fits_def EmRegionImpl_rect_def EmRect_make_def int32_sum_def
      square_wf [unfolded EmRegionImpl_rect_def EmRect_make_def, simplified] coord_ok_def)

text \<open>
  Without room for the delta the sums overflow: \<open>fLeft += dx\<close> on the square from 1 to 10
  with the largest \<open>dx\<close> is not a 32-bit number.
\<close>

lemma Inset_overflows: "EmRegion_Inset (square 1 10) 0x7FFFFFFF 0 = None"
  by code_simp

text \<open>
  \<open>Offset\<close> translates the points of a region and keeps it well-formed, as long as the
  coordinates of the buffer stay in range.
\<close>

theorem Offset_translates:
  assumes "rgn_wf rg" and "offset_fits dx dy rg"
  shows "\<exists>rg'. EmRegionImpl_Offset rg dx dy = Some rg' \<and> rgn_wf rg' \<and>
    rgn_pts rg' = (\<lambda>(x, y). (x + dx, y + dy)) ` rgn_pts rg"
  by (rule Offset_ok [OF assms])

lemma Offset_translates_witness:
  "\<exists>rg'. EmRegionImpl_Offset (square 3 7) 5 6 = Some rg' \<and> rgn_wf rg' \<and>
    rgn_pts rg' = (\<lambda>(x, y). (x + 5, y + 6)) ` rgn_pts (square 3 7)"
  by (rule Offset_translates) (simp_all add: offset_fits_def EmRegionImpl_rect_def EmRect_make_def
      square_wf [unfolded EmRegionImpl_rect_def EmRect_make_def, simplified] coord_ok_def)

text \<open>
  C7: regions that \<open>IsEqual\<close> holds equal have the same points. (The converse fails: see the next
  property.)
\<close>

theorem IsEqual_sound:
  assumes "rgn_wf r1" and "rgn_wf r2" and "EmRegion_IsEqual r1 r2"
  shows "rgn_pts r1 = rgn_pts r2"
  by (rule IsEqual_pts [OF assms])

lemma IsEqual_sound_witness:
  "rgn_pts (square 3 7) = rgn_pts (the (EmRegion_RegionOp eUnion EmRegionImpl_empty (square 3 7)))"
proof -
  have "EmRegion_RegionOp eUnion EmRegionImpl_empty (square 3 7) = Some (square 3 7)" by code_simp
  moreover have "EmRegion_IsEqual (square 3 7) (square 3 7)" by code_simp
  ultimately show ?thesis using IsEqual_sound [of "square 3 7" "square 3 7"] by simp
qed

text \<open>
  C8: \<open>IsEqual\<close> compares buffers and not areas: the intersection of two squares, one in the
  other, has the points of the inner square, but its buffer keeps an empty scanline above and
  one below, and \<open>IsEqual\<close> answers that it differs from the inner square.
\<close>

theorem IsEqual_incomplete:
  "\<exists>r. EmRegion_RegionOp eIntersection (square 0 10) (square 3 7) = Some r \<and>
     rgn_pts r = rgn_pts (square 3 7) \<and> \<not> EmRegion_IsEqual r (square 3 7)"
proof -
  let ?r = "\<lparr>fBounds = \<lparr>fTop = 3, fLeft = 3, fBottom = 7, fRight = 7\<rparr>, fCapacity = 11,
     fBuf = Some [1, 0, 3, 3, 3, 7, 1, 7, 1, 10, 0]\<rparr>"
  have e: "EmRegion_RegionOp eIntersection (square 0 10) (square 3 7) = Some ?r" by code_simp
  have "rgn_pts ?r = rgn_pts (square 0 10) \<inter> rgn_pts (square 3 7)"
    using rgn.rop_ok [of "square 0 10" "square 3 7" eIntersection] e by auto
  also have "\<dots> = rgn_pts (square 3 7)" 
    using square_pts [of 0 10] square_pts [of 3 7] by (auto simp: rect_pts_def EmRect_make_def)
  finally have "rgn_pts ?r = rgn_pts (square 3 7)" .
  moreover have "\<not> EmRegion_IsEqual ?r (square 3 7)" by code_simp
  ultimately show ?thesis using e by blast
qed



text \<open>The state after \<open>EmRegion a (rect);\<close>.\<close>

definition one_square :: regions where
  "one_square = \<lparr>vars = [0 \<mapsto> 0],
     world = \<lparr>store = [0 \<mapsto> \<lparr>fRefCount = 1, object = square 0 2\<rparr>], brk = 1\<rparr>\<rparr>"

lemma one_square_exec: "exec (FromRect 0 (EmRect_make 0 0 2 2)) no_regions = Some one_square"
  by (simp add: one_square_def rg_FromRect_def handle_new_def handle_init_def EmRefCounter_make_def EmRefCounter_Init_def
      EmRefCounted_new_def EmRefCounted_isShareable_def EmRefCounted_addReference_def no_regions_def)

lemma one_square_reach: "region_reach one_square"
  by (rule region_reach.step [OF region_reach.start _ one_square_exec])
    (simp add: live_def no_regions_def rect_ok_def EmRect_make_def)

text \<open>
  C10: reference counting is exact. In every state that legal statements reach from the
  beginning, an object exists exactly while a variable refers to it, its count is the number of
  these variables, and any legal statement runs without using a deleted object.
\<close>

theorem reference_counts_exact:
  assumes "region_reach st"
  shows "(case store (world st) a of None \<Rightarrow> owners st a = {}
      | Some ob \<Rightarrow> owners st a \<noteq> {} \<and> fRefCount ob = int (card (owners st a))) \<and>
    (legal s st \<longrightarrow> exec s st \<noteq> None)"
proof -
  have ok: "regions_ok st" using region_reach_ok [OF assms] .
  have "case store (world st) a of None \<Rightarrow> owners st a = {}
      | Some ob \<Rightarrow> owners st a \<noteq> {} \<and> fRefCount ob = int (card (owners st a))"
    using counts_ok_slot [OF regions_okD(1) [OF ok], of a] by (cases "store (world st) a") auto
  moreover have "legal s st \<longrightarrow> exec s st \<noteq> None" using legal_exec_ok [OF ok, of s] by auto
  ultimately show ?thesis by blast
qed

lemma reference_counts_exact_witness:
  "(case store (world one_square) 0 of None \<Rightarrow> owners one_square 0 = {}
      | Some ob \<Rightarrow> owners one_square 0 \<noteq> {} \<and> fRefCount ob = int (card (owners one_square 0))) \<and>
    exec (CopyOf 1 0) one_square \<noteq> None"
  using reference_counts_exact [OF one_square_reach, of 0 "CopyOf 1 0"]
  by (simp add: live_def one_square_def)

text \<open>
  C11: \<open>Offset\<close> changes the shared object in place, so it moves every region that shares it:
  after \<open>EmRegion a (rect); EmRegion b (a); a.Offset (5, 5);\<close> the copy \<open>b\<close> has moved as well.
\<close>

theorem Offset_moves_copies:
  "\<exists>s1 s2 s3. exec (FromRect 0 (EmRect_make 0 0 2 2)) no_regions = Some s1 \<and> exec (CopyOf 1 0) s1 = Some s2 \<and>
     exec (OffsetBy 0 5 5) s2 = Some s3 \<and>
     deref s2 1 = Some (square 0 2) \<and> deref s3 1 = Some (square 5 7)"
proof -
  let ?w = "\<lambda>n sq. \<lparr>store = [0 \<mapsto> \<lparr>fRefCount = n, object = sq\<rparr>], brk = 1\<rparr>"
  have 1: "exec (FromRect 0 (EmRect_make 0 0 2 2)) no_regions = Some \<lparr>vars = [0 \<mapsto> 0], world = ?w 1 (square 0 2)\<rparr>"
    using one_square_exec by (simp add: one_square_def)
  have 2: "exec (CopyOf 1 0) \<lparr>vars = [0 \<mapsto> 0], world = ?w 1 (square 0 2)\<rparr> =
      Some \<lparr>vars = [0 \<mapsto> 0, 1 \<mapsto> 0], world = ?w 2 (square 0 2)\<rparr>"
    by (simp add: rg_Copy_def handle_copy_def handle_init_def EmRefCounter_copy_def EmRefCounter_Init_def
        EmRefCounted_isShareable_def EmRefCounted_addReference_def)
  have "EmRegionImpl_Offset (square 0 2) 5 5 = Some (square 5 7)" by code_simp
  then have 3: "exec (OffsetBy 0 5 5) \<lparr>vars = [0 \<mapsto> 0, 1 \<mapsto> 0], world = ?w 2 (square 0 2)\<rparr> =
      Some \<lparr>vars = [0 \<mapsto> 0, 1 \<mapsto> 0], world = ?w 2 (square 5 7)\<rparr>"
    by (simp add: rg_Offset_def rg_cell_def rg_write_def)
  show ?thesis using 1 2 3 by (simp add: deref_def)
qed

text \<open>
  Rectangles: \<open>IntersectWith\<close> is the intersection of the points; \<open>UnionWith\<close> is the least
  rectangle that contains both; \<open>Contains\<close>, \<open>IsEmpty\<close> and \<open>Offset\<close> agree with the points.
\<close>

theorem rect_operations_on_points:
  "rect_pts (EmRect_IntersectWith r s) = rect_pts r \<inter> rect_pts s \<and>
   (rect_pts (EmRect_UnionWith r s) \<subseteq> rect_pts t) = (rect_pts r \<union> rect_pts s \<subseteq> rect_pts t) \<and>
   EmRect_Contains_pt r p = ((fX p, fY p) \<in> rect_pts r) \<and>
   EmRect_IsEmpty r = (rect_pts r = {}) \<and>
   rect_pts (EmRect_Offset r dx dy) = (\<lambda>(x, y). (x + dx, y + dy)) ` rect_pts r"
proof (intro conjI)
  show "(rect_pts (EmRect_UnionWith r s) \<subseteq> rect_pts t) = (rect_pts r \<union> rect_pts s \<subseteq> rect_pts t)"
    using rect_pts_UnionWith_subset(1) [of r s] rect_pts_UnionWith_subset(2) [of s r] EmRect_UnionWith_least [of r t s] by blast
  show "rect_pts (EmRect_Offset r dx dy) = (\<lambda>(x, y). (x + dx, y + dy)) ` rect_pts r"
    by (force simp: rect_pts_Offset)
qed (simp_all add: rect_pts_IntersectWith EmRect_Contains_pt_iff EmRect_IsEmpty_iff)

end
