(* ===== verification/HostMem.thy ===== *)
theory HostMem
  imports Prelude
begin

unbundle bit_operations_syntax

text \<open>
  The buffers that stand for emulated memory and their accessors \<open>EmMemDoGet8\<close> to
  \<open>EmMemDoPut32\<close> (\<open>Hardware/EmMemory.h\<close>), on a little-endian host: there
  \<open>Switches.h\<close> sets \<open>WORDSWAP_MEMORY\<close>, so the two bytes of every 16-bit word are kept
  in the host's order and byte accesses flip the lowest bit of the address.

  A buffer is the list of its bytes; an access outside of it is \<open>None\<close>. Buffers come from
  the allocator and begin at an even host address, so flipping the lowest bit of a pointer
  flips the one of the offset. \<open>lbyte\<close> reads the buffer as the emulated big-endian
  processor does; the lemmas show that the accessors are big-endian accesses.
\<close>

type_synonym emuptr = "32 word"
type_synonym uint8 = "8 word"
type_synonym uint16 = "16 word"
type_synonym uint32 = "32 word"
type_synonym hostmem = "uint8 list"

lemma unat_of_nat_32: "k < 2 ^ 32 \<Longrightarrow> unat (of_nat k :: uint32) = k"
  by (simp add: unat_of_nat)

lemma ucast_8_32 [simp]: "ucast (ucast (v :: uint8) :: uint32) = v"
  by (rule bit_word_eqI) (auto simp: bit_simps)

section \<open>The accessors\<close>

definition host_byte :: "hostmem \<Rightarrow> nat \<Rightarrow> uint8 option" where
  "host_byte m p = (if p < length m then Some (m ! p) else None)"

definition host_put :: "hostmem \<Rightarrow> nat \<Rightarrow> uint8 \<Rightarrow> hostmem option" where
  "host_put m p v = (if p < length m then Some (m[p := v]) else None)"

text \<open>A 16-bit load or store of the little-endian host.\<close>

definition host_get16 :: "hostmem \<Rightarrow> nat \<Rightarrow> uint16 option" where
  "host_get16 m p =
     (case (host_byte m p, host_byte m (p + 1)) of
        (Some lo, Some hi) \<Rightarrow> Some (push_bit 8 (ucast hi) OR ucast lo)
      | _ \<Rightarrow> None)"

definition host_put16 :: "hostmem \<Rightarrow> nat \<Rightarrow> uint16 \<Rightarrow> hostmem option" where
  "host_put16 m p v = Option.bind (host_put m p (ucast v)) (\<lambda>m1. host_put m1 (p + 1) (ucast (drop_bit 8 v)))"

text \<open>\<open>(long) a ^ 1\<close>\<close>

definition swap_byte :: "nat \<Rightarrow> nat" where
  "swap_byte a = a XOR 1"

definition EmMemDoGet8 :: "hostmem \<Rightarrow> nat \<Rightarrow> uint8 option" where
  "EmMemDoGet8 m a = host_byte m (swap_byte a)"

definition EmMemDoGet16 :: "hostmem \<Rightarrow> nat \<Rightarrow> uint16 option" where
  "EmMemDoGet16 m a = host_get16 m a"

definition EmMemDoGet32 :: "hostmem \<Rightarrow> nat \<Rightarrow> uint32 option" where
  "EmMemDoGet32 m a =
     (case (host_get16 m a, host_get16 m (a + 2)) of
        (Some hi, Some lo) \<Rightarrow> Some (push_bit 16 (ucast hi) OR ucast lo)
      | _ \<Rightarrow> None)"

definition EmMemDoPut8 :: "hostmem \<Rightarrow> nat \<Rightarrow> uint8 \<Rightarrow> hostmem option" where
  "EmMemDoPut8 m a v = host_put m (swap_byte a) v"

definition EmMemDoPut16 :: "hostmem \<Rightarrow> nat \<Rightarrow> uint16 \<Rightarrow> hostmem option" where
  "EmMemDoPut16 m a v = host_put16 m a v"

definition EmMemDoPut32 :: "hostmem \<Rightarrow> nat \<Rightarrow> uint32 \<Rightarrow> hostmem option" where
  "EmMemDoPut32 m a v =
     Option.bind (host_put16 m a (ucast (drop_bit 16 v))) (\<lambda>m1. host_put16 m1 (a + 2) (ucast v))"

section \<open>The buffer as big-endian memory\<close>

definition lbyte :: "hostmem \<Rightarrow> nat \<Rightarrow> uint8" where
  "lbyte m a = m ! (swap_byte a)"

definition be16 :: "uint8 \<Rightarrow> uint8 \<Rightarrow> uint16" where
  "be16 b0 b1 = push_bit 8 (ucast b0) OR ucast b1"

definition be32 :: "uint8 \<Rightarrow> uint8 \<Rightarrow> uint8 \<Rightarrow> uint8 \<Rightarrow> uint32" where
  "be32 b0 b1 b2 b3 = push_bit 24 (ucast b0) OR push_bit 16 (ucast b1) OR push_bit 8 (ucast b2) OR ucast b3"

lemma swap_byte_eq: "swap_byte a = (if even a then a + 1 else a - 1)"
  by (simp add: swap_byte_def xor_Suc_0_eq)

lemma swap_byte_inj [simp]: "swap_byte a = swap_byte b \<longleftrightarrow> a = b"
  unfolding swap_byte_eq by presburger

lemma swap_byte_less: "even n \<Longrightarrow> swap_byte a < n \<longleftrightarrow> a < n"
  by (auto simp: swap_byte_eq elim!: evenE oddE)

lemma be16_bytes: "ucast (be16 b0 b1) = b1" "ucast (drop_bit 8 (be16 b0 b1)) = b0"
  unfolding be16_def by (rule bit_word_eqI; auto simp: bit_simps dest: bit_imp_le_length)+

lemma be16_of_bytes: "be16 (ucast (drop_bit 8 v)) (ucast v) = v"
  unfolding be16_def by (rule bit_word_eqI) (auto simp: bit_simps)

lemma be32_words: "push_bit 16 (ucast (be16 b0 b1)) OR ucast (be16 b2 b3) = be32 b0 b1 b2 b3"
proof (rule bit_word_eqI)
  fix n assume "n < LENGTH(32)"
  then consider "n < 8" | "8 \<le> n" "n < 16" | "16 \<le> n" "n < 24" | "24 \<le> n" "n < 32" by force
  then show "bit (push_bit 16 (ucast (be16 b0 b1)) OR ucast (be16 b2 b3) :: uint32) n = bit (be32 b0 b1 b2 b3) n"
    by cases (auto simp: be16_def be32_def bit_simps dest: bit_imp_le_length)
qed

lemma be32_of_bytes:
  "be32 (ucast (drop_bit 24 v)) (ucast (drop_bit 16 v)) (ucast (drop_bit 8 v)) (ucast v) = v"
proof (rule bit_word_eqI)
  fix n assume "n < LENGTH(32)"
  then consider "n < 8" | "8 \<le> n" "n < 16" | "16 \<le> n" "n < 24" | "24 \<le> n" "n < 32" by force
  then show "bit (be32 (ucast (drop_bit 24 v)) (ucast (drop_bit 16 v)) (ucast (drop_bit 8 v)) (ucast v)) n = bit v n"
    by cases (auto simp: be32_def bit_simps dest: bit_imp_le_length)
qed

lemma EmMemDoGet8_lbyte:
  "even (length m) \<Longrightarrow> a < length m \<Longrightarrow> EmMemDoGet8 m a = Some (lbyte m a)"
  by (simp add: EmMemDoGet8_def host_byte_def lbyte_def swap_byte_less)

lemma EmMemDoGet16_lbyte:
  "even a \<Longrightarrow> a + 1 < length m \<Longrightarrow> EmMemDoGet16 m a = Some (be16 (lbyte m a) (lbyte m (a + 1)))"
  by (simp add: EmMemDoGet16_def host_get16_def host_byte_def lbyte_def swap_byte_eq be16_def)

lemma EmMemDoGet32_lbyte:
  "even a \<Longrightarrow> a + 3 < length m \<Longrightarrow>
     EmMemDoGet32 m a = Some (be32 (lbyte m a) (lbyte m (a + 1)) (lbyte m (a + 2)) (lbyte m (a + 3)))"
  using EmMemDoGet16_lbyte [of a m] EmMemDoGet16_lbyte [of "a + 2" m]
  by (simp add: EmMemDoGet32_def EmMemDoGet16_def be32_words add.commute numeral_3_eq_3)

text \<open>Stores, as changes of the big-endian bytes.\<close>

definition lput :: "hostmem \<Rightarrow> nat \<Rightarrow> uint8 \<Rightarrow> hostmem" where
  "lput m a v = m[swap_byte a := v]"

lemma length_lput [simp]: "length (lput m a v) = length m"
  by (simp add: lput_def)

lemma lbyte_lput:
  "even (length m) \<Longrightarrow> a < length m \<Longrightarrow> lbyte (lput m a v) b = (if b = a then v else lbyte m b)"
  by (simp add: lbyte_def lput_def nth_list_update swap_byte_less)

lemma EmMemDoPut8_lput:
  "even (length m) \<Longrightarrow> a < length m \<Longrightarrow> EmMemDoPut8 m a v = Some (lput m a v)"
  by (simp add: EmMemDoPut8_def host_put_def lput_def swap_byte_less)

lemma EmMemDoPut16_lput:
  "even a \<Longrightarrow> a + 1 < length m \<Longrightarrow>
     EmMemDoPut16 m a v = Some (lput (lput m a (ucast (drop_bit 8 v))) (a + 1) (ucast v))"
  by (simp add: EmMemDoPut16_def host_put16_def host_put_def lput_def swap_byte_eq list_update_swap)

lemma EmMemDoPut32_lput:
  assumes "even a" and "a + 3 < length m"
  shows "EmMemDoPut32 m a v = Some (lput (lput (lput (lput m a (ucast (drop_bit 24 v)))
     (a + 1) (ucast (drop_bit 16 v))) (a + 2) (ucast (drop_bit 8 v))) (a + 3) (ucast v))"
proof -
  have b: "ucast (drop_bit 8 (ucast (drop_bit 16 v) :: uint16)) = (ucast (drop_bit 24 v) :: uint8)"
    "ucast (ucast (drop_bit 16 v) :: uint16) = (ucast (drop_bit 16 v) :: uint8)"
    "ucast (drop_bit 8 (ucast v :: uint16)) = (ucast (drop_bit 8 v) :: uint8)"
    "ucast (ucast v :: uint16) = (ucast v :: uint8)" for v :: uint32
    by (rule bit_word_eqI; auto simp: bit_simps)+
  show ?thesis
    using assms EmMemDoPut16_lput [of a m "ucast (drop_bit 16 v)"]
      EmMemDoPut16_lput [of "a + 2" "lput (lput m a (ucast (drop_bit 24 v))) (a + 1) (ucast (drop_bit 16 v))" "ucast v"]
    by (simp add: EmMemDoPut32_def EmMemDoPut16_def b numeral_3_eq_3)
qed

end
