(* ===== verification/Machine.thy ===== *)
theory Machine
  imports HostMem
begin

text \<open>
  The state the memory system works on, and the parts its banks share: the compile-time
  switches of \<open>Switches.h\<close> that guard their checks, the access flags, the errors an access
  can end with, the test of meta-memory bits (\<open>MetaMemory.h\<close>), the screen's dirty range
  (\<open>EmScreen::MarkDirty\<close>) and \<open>CEnableFullAccess\<close>.
\<close>

section \<open>Switches\<close>

text \<open>The settings of \<open>Switches.h\<close>. Profiling is off.\<close>

definition CHECK_FOR_ADDRESS_ERROR :: bool where "CHECK_FOR_ADDRESS_ERROR = True"
definition VALIDATE_DRAM_GET :: bool where "VALIDATE_DRAM_GET = True"
definition VALIDATE_DRAM_SET :: bool where "VALIDATE_DRAM_SET = True"
definition VALIDATE_SRAM_GET :: bool where "VALIDATE_SRAM_GET = False"
definition VALIDATE_SRAM_SET :: bool where "VALIDATE_SRAM_SET = False"
definition VALIDATE_ROM_GET :: bool where "VALIDATE_ROM_GET = False"
definition PREVENT_USER_SRAM_GET :: bool where "PREVENT_USER_SRAM_GET = False"
definition PREVENT_USER_SRAM_SET :: bool where "PREVENT_USER_SRAM_SET = True"
definition PREVENT_USER_ROM_GET :: bool where "PREVENT_USER_ROM_GET = False"
definition PREVENT_USER_ROM_SET :: bool where "PREVENT_USER_ROM_SET = True"
definition PREVENT_SYSTEM_ROM_GET :: bool where "PREVENT_SYSTEM_ROM_GET = False"
definition PREVENT_SYSTEM_ROM_SET :: bool where "PREVENT_SYSTEM_ROM_SET = True"

lemmas switches = CHECK_FOR_ADDRESS_ERROR_def VALIDATE_DRAM_GET_def VALIDATE_DRAM_SET_def
  VALIDATE_SRAM_GET_def VALIDATE_SRAM_SET_def VALIDATE_ROM_GET_def PREVENT_USER_SRAM_GET_def
  PREVENT_USER_SRAM_SET_def PREVENT_USER_ROM_GET_def PREVENT_USER_ROM_SET_def
  PREVENT_SYSTEM_ROM_GET_def PREVENT_SYSTEM_ROM_SET_def

section \<open>The state\<close>

record MemAccessFlags =
  fValidate_DummyGet :: bool
  fValidate_DummySet :: bool
  fValidate_RegisterGet :: bool
  fValidate_RegisterSet :: bool
  fValidate_DRAMGet :: bool
  fValidate_DRAMSet :: bool
  fValidate_SRAMGet :: bool
  fValidate_SRAMSet :: bool
  fValidate_ROMGet :: bool
  fValidate_ROMSet :: bool
  fProtect_SRAMGet :: bool
  fProtect_SRAMSet :: bool
  fProtect_ROMGet :: bool
  fProtect_ROMSet :: bool
  fProtect_RegisterGet :: bool
  fProtect_RegisterSet :: bool
  fProtect_SysROMGet :: bool
  fProtect_SysROMSet :: bool

definition kZeroMemAccessFlags :: MemAccessFlags where
  "kZeroMemAccessFlags = \<lparr>fValidate_DummyGet = False, fValidate_DummySet = False,
     fValidate_RegisterGet = False, fValidate_RegisterSet = False, fValidate_DRAMGet = False,
     fValidate_DRAMSet = False, fValidate_SRAMGet = False, fValidate_SRAMSet = False,
     fValidate_ROMGet = False, fValidate_ROMSet = False, fProtect_SRAMGet = False,
     fProtect_SRAMSet = False, fProtect_ROMGet = False, fProtect_ROMSet = False,
     fProtect_RegisterGet = False, fProtect_RegisterSet = False, fProtect_SysROMGet = False,
     fProtect_SysROMSet = False\<rparr>"

definition initial_flags :: MemAccessFlags where
  "initial_flags = \<lparr>fValidate_DummyGet = True, fValidate_DummySet = True,
     fValidate_RegisterGet = True, fValidate_RegisterSet = True, fValidate_DRAMGet = True,
     fValidate_DRAMSet = True, fValidate_SRAMGet = True, fValidate_SRAMSet = True,
     fValidate_ROMGet = True, fValidate_ROMSet = True, fProtect_SRAMGet = False,
     fProtect_SRAMSet = True, fProtect_ROMGet = False, fProtect_ROMSet = True,
     fProtect_RegisterGet = True, fProtect_RegisterSet = True, fProtect_SysROMGet = False,
     fProtect_SysROMSet = True\<rparr>"

datatype EAccessType = kOKAccess | kLowMemAccess | kGlobalVarAccess | kScreenAccess | kMemMgrAccess
  | kLowStackAccess | kFreeChunkAccess | kUnlockedChunkAccess | kUnknownAccess

text \<open>
  An access that does not return ends with an exception of the emulated processor
  (\<open>EmCPU68K::AddressError\<close>, \<open>BusError\<close>) or, as \<open>HostFault\<close>, with an access outside of
  a buffer of the host or a failed assertion; \<open>Throw\<close> is \<open>Errors::Throw\<close>. Errors that are only scheduled, and the call
  of the debugger's \<open>CheckStepSpy\<close>, are recorded as events.
\<close>

datatype rom_error = kError_BadROM | kError_UnsupportedROM | kError_WrongROMForType

datatype exc = AddressError emuptr nat bool | BusError emuptr nat bool | HostFault | Throw rom_error

datatype event = DeferredErrROM emuptr nat bool
  | DeferredErrLowMemory emuptr nat bool
  | DeferredErrSystemGlobals emuptr nat bool
  | DeferredErrScreen emuptr nat bool
  | DeferredErrMemMgrStructures emuptr nat bool
  | DeferredErrFreeChunk emuptr nat bool
  | DeferredErrUnlockedChunk emuptr nat bool
  | DeferredErrLowStack emuptr nat bool
  | CheckStepSpy emuptr nat
  | BadChecksumDialog

datatype EmAddressBank = bankDummy | bankRegs | bankSRAM | bankDRAM | bankROM | bankMapped | bankFlash

datatype AMDState = kAMDState_Normal | kAMDState_Unlocked1 | kAMDState_Unlocked2
  | kAMDState_Autoselect | kAMDState_Program | kAMDState_EraseDone | kAMDState_ProgramDone

text \<open>
  The globals of the banks. \<open>gLastIter\<close> is an iterator over the mapped ranges, as an index;
  \<open>host_space\<close> is the memory of the host outside of the banks, by address. The fields from \<open>ChipSelectsConfigured\<close> on are what the banks
  learn from other parts of the emulator: \<open>EmHAL\<close>, the device, the processor, the patches
  of the Palm OS and the heap walk of \<open>MetaMemory::GetWhatHappened\<close>.
\<close>

record MapRange =
  realAddress :: uint32
  mappedAddress :: emuptr
  range_size :: uint32

record machine =
  gRAM_Memory :: hostmem
  gRAM_MetaMemory :: hostmem
  gRAMBank_Size :: uint32
  gRAMBank_Mask :: uint32
  gMemoryStart :: emuptr
  gDynamicHeapSize :: uint32
  gROM_Memory :: hostmem
  gROM_MetaMemory :: hostmem
  gROMBank_Size :: uint32
  gManagedROMSize :: uint32
  gROMImage_Size :: uint32
  gROMBank_Mask :: uint32
  gROMMemoryStart :: emuptr
  gState :: AMDState
  gEraseIsSetup :: bool
  gMemAccessFlags :: MemAccessFlags
  fgAccessCount :: int
  gPCInRAM :: bool
  gPCInROM :: bool
  gScreenDirtyLow :: emuptr
  gScreenDirtyHigh :: emuptr
  gEmMemBanks :: "nat \<Rightarrow> EmAddressBank option"
  gMappedRanges :: "MapRange list"
  gLastIter :: nat
  host_space :: "uint32 \<rightharpoonup> uint8"
  events :: "event list"
  ChipSelectsConfigured :: bool
  GetROMBaseAddress :: emuptr
  GetROMSize :: uint32
  GetDynamicHeapSize :: uint32
  HasFlash :: bool
  GetSP :: emuptr
  gStackLow :: emuptr
  InSysLaunch :: bool
  bootStack :: "emuptr \<times> emuptr"
  IsPCInMemMgr :: bool
  InRAMOSComponent :: bool
  GetWhatHappened :: "emuptr \<Rightarrow> nat \<Rightarrow> bool \<Rightarrow> EAccessType"

text \<open>The machine before anything is initialized, on a device without flash.\<close>

definition blank_machine :: machine where
  "blank_machine = \<lparr>gRAM_Memory = [], gRAM_MetaMemory = [], gRAMBank_Size = 0, gRAMBank_Mask = 0,
     gMemoryStart = 0x10000000, gDynamicHeapSize = 0, gROM_Memory = [], gROM_MetaMemory = [],
     gROMBank_Size = 0, gManagedROMSize = 0, gROMImage_Size = 0, gROMBank_Mask = 0,
     gROMMemoryStart = 0x10C00000, gState = kAMDState_Normal, gEraseIsSetup = False,
     gMemAccessFlags = initial_flags, fgAccessCount = 0, gPCInRAM = False, gPCInROM = False,
     gScreenDirtyLow = 0, gScreenDirtyHigh = 0, gEmMemBanks = (\<lambda>_. None), gMappedRanges = [],
     gLastIter = 0, host_space = Map.empty, events = [], ChipSelectsConfigured = False,
     GetROMBaseAddress = 0, GetROMSize = 0, GetDynamicHeapSize = 0, HasFlash = False, GetSP = 0,
     gStackLow = 0, InSysLaunch = False, bootStack = (0, 0), IsPCInMemMgr = False,
     InRAMOSComponent = False, GetWhatHappened = (\<lambda>_ _ _. kUnknownAccess)\<rparr>"

type_synonym 'a outcome = "(exc + 'a) \<times> machine"

definition fail :: "exc \<Rightarrow> machine \<Rightarrow> 'a outcome" where
  "fail e st = (Inl e, st)"

definition host :: "'a option \<Rightarrow> ('a \<Rightarrow> machine \<Rightarrow> 'b outcome) \<Rightarrow> machine \<Rightarrow> 'b outcome" where
  "host r f st = (case r of None \<Rightarrow> fail HostFault st | Some x \<Rightarrow> f x st)"

lemma host_simps [simp]: "host None f st = (Inl HostFault, st)" "host (Some x) f st = f x st"
  by (simp_all add: host_def fail_def)

definition emit_event :: "event \<Rightarrow> machine \<Rightarrow> machine" where
  "emit_event e st = st\<lparr>events := events st @ [e]\<rparr>"

definition odd_address :: "emuptr \<Rightarrow> bool" where
  "odd_address address \<longleftrightarrow> address AND 1 \<noteq> 0"

lemma odd_address_iff: "odd_address a \<longleftrightarrow> odd (unat a)"
proof -
  have "odd_address a \<longleftrightarrow> odd a" by (simp add: odd_address_def and_one_eq odd_iff_mod_2_eq_one)
  also have "odd a \<longleftrightarrow> odd (unat a)" by transfer (simp add: even_nat_iff)
  finally show ?thesis .
qed

end
