(* ===== verification/MetaMem.thy ===== *)
theory MetaMem
  imports Machine
begin

text \<open>
  Meta-memory (\<open>MetaMemory.h\<close>, \<open>MetaMemory.cpp\<close>): one byte of permission and break bits
  for each byte of emulated memory. Here are the tests the banks make on it, \<open>META_CHECK\<close>
  with \<open>EmBankDRAM::ProbableCause\<close>, and the routines that set and clear bits of a range, which
  work on 32-bit words of the host where they can. The lemmas show that the word loops do
  what a loop over the bytes would do.
\<close>

section \<open>Bits\<close>

definition kNoAppAccess :: uint8 where "kNoAppAccess = 0x01"
definition kNoSystemAccess :: uint8 where "kNoSystemAccess = 0x02"
definition kNoMemMgrAccess :: uint8 where "kNoMemMgrAccess = 0x04"
definition kScreenBuffer :: uint8 where "kScreenBuffer = 0x20"
definition kInstructionBreak :: uint8 where "kInstructionBreak = 0x40"
definition kDataBreak :: uint8 where "kDataBreak = 0x80"
definition kAccessBitMask :: uint8 where "kAccessBitMask = 0x07"

definition META_BITS_32 :: "uint8 \<Rightarrow> uint32" where
  "META_BITS_32 bits =
     push_bit 24 (ucast bits) OR push_bit 16 (ucast bits) OR push_bit 8 (ucast bits) OR ucast bits"

definition META_BITS_16 :: "uint8 \<Rightarrow> uint16" where
  "META_BITS_16 bits = push_bit 8 (ucast bits) OR ucast bits"

definition META_VALUE_32 :: "hostmem \<Rightarrow> nat \<Rightarrow> uint32 option" where
  "META_VALUE_32 m p =
     (case (host_byte m p, host_byte m (p + 1), host_byte m (p + 2), host_byte m (p + 3)) of
        (Some b0, Some b1, Some b2, Some b3) \<Rightarrow>
          Some (push_bit 24 (ucast b0) OR push_bit 16 (ucast b1) OR push_bit 8 (ucast b2) OR ucast b3)
      | _ \<Rightarrow> None)"

definition META_VALUE_16 :: "hostmem \<Rightarrow> nat \<Rightarrow> uint16 option" where
  "META_VALUE_16 m p =
     (case (host_byte m p, host_byte m (p + 1)) of
        (Some b0, Some b1) \<Rightarrow> Some (push_bit 8 (ucast b0) OR ucast b1)
      | _ \<Rightarrow> None)"

definition META_VALUE_8 :: "hostmem \<Rightarrow> nat \<Rightarrow> uint8 option" where
  "META_VALUE_8 m p = host_byte m p"

text \<open>
  \<open>CanAppGetLong\<close>, \<open>CanSystemSetWord\<close> and the others, which the macro
  \<open>DEFINE_FUNCTIONS\<close> makes: \<open>bits\<close> is the bit of the kind, and the size of the access picks
  the function.
\<close>

definition CanAccess :: "uint8 \<Rightarrow> nat \<Rightarrow> hostmem \<Rightarrow> nat \<Rightarrow> bool option" where
  "CanAccess bits sz m p =
     (if sz = 4 then map_option (\<lambda>v. v AND META_BITS_32 bits = 0) (META_VALUE_32 m p)
      else if sz = 2 then map_option (\<lambda>v. v AND META_BITS_16 bits = 0) (META_VALUE_16 m p)
      else map_option (\<lambda>v. v AND bits = 0) (META_VALUE_8 m p))"

fun screen_loop :: "hostmem \<Rightarrow> nat \<Rightarrow> nat \<Rightarrow> bool option" where
  "screen_loop m p 0 = Some False"
| "screen_loop m p (Suc n) =
     (case host_byte m p of
        None \<Rightarrow> None
      | Some b \<Rightarrow> if b AND kScreenBuffer \<noteq> 0 then Some True else screen_loop m (p + 1) n)"

definition IsScreenBuffer :: "hostmem \<Rightarrow> nat \<Rightarrow> nat \<Rightarrow> bool option" where
  "IsScreenBuffer m p sz =
     (if sz = 1 then map_option (\<lambda>v. v AND kScreenBuffer \<noteq> 0) (META_VALUE_8 m p)
      else if sz = 2 then map_option (\<lambda>v. v AND META_BITS_16 kScreenBuffer \<noteq> 0) (META_VALUE_16 m p)
      else if sz = 4 then map_option (\<lambda>v. v AND META_BITS_32 kScreenBuffer \<noteq> 0) (META_VALUE_32 m p)
      else screen_loop m p sz)"

lemma META_32_bytes:
  "(push_bit 24 (ucast b0) OR push_bit 16 (ucast b1) OR push_bit 8 (ucast b2) OR ucast b3) AND META_BITS_32 bits = 0
   \<longleftrightarrow> b0 AND bits = 0 \<and> b1 AND bits = 0 \<and> b2 AND bits = 0 \<and> b3 AND bits = (0 :: uint8)"
proof -
  have "(push_bit 24 (ucast b0) OR push_bit 16 (ucast b1) OR push_bit 8 (ucast b2) OR ucast b3) AND META_BITS_32 bits
      = be32 (b0 AND bits) (b1 AND bits) (b2 AND bits) (b3 AND bits)" (is "?l = ?r")
  proof (rule bit_word_eqI)
    fix n assume "n < LENGTH(32)"
    then consider "n < 8" | "8 \<le> n" "n < 16" | "16 \<le> n" "n < 24" | "24 \<le> n" "n < 32" by force
    then show "bit ?l n = bit ?r n"
      by cases (auto simp: be32_def META_BITS_32_def bit_simps dest: bit_imp_le_length)
  qed
  moreover have "be32 c0 c1 c2 c3 = 0 \<longleftrightarrow> c0 = 0 \<and> c1 = 0 \<and> c2 = 0 \<and> c3 = 0" for c0 c1 c2 c3
  proof
    assume z: "be32 c0 c1 c2 c3 = 0"
    have "c0 = ucast (drop_bit 24 (be32 c0 c1 c2 c3))" "c1 = ucast (drop_bit 16 (be32 c0 c1 c2 c3))"
      "c2 = ucast (drop_bit 8 (be32 c0 c1 c2 c3))" "c3 = ucast (be32 c0 c1 c2 c3)"
      unfolding be32_def by (rule bit_word_eqI; auto simp: bit_simps dest: bit_imp_le_length)+
    then show "c0 = 0 \<and> c1 = 0 \<and> c2 = 0 \<and> c3 = 0" unfolding z by auto
  qed (simp add: be32_def)
  ultimately show ?thesis by simp
qed

lemma META_16_bytes:
  "(push_bit 8 (ucast b0) OR ucast b1) AND META_BITS_16 bits = 0 \<longleftrightarrow> b0 AND bits = 0 \<and> b1 AND bits = (0 :: uint8)"
proof -
  have "(push_bit 8 (ucast b0) OR ucast b1) AND META_BITS_16 bits = be16 (b0 AND bits) (b1 AND bits)"
    unfolding be16_def META_BITS_16_def by (rule bit_word_eqI) (auto simp: bit_simps dest: bit_imp_le_length)
  moreover have "be16 c0 c1 = 0 \<longleftrightarrow> c0 = 0 \<and> c1 = 0" for c0 c1
    using be16_bytes [of c0 c1] by (auto simp: be16_def)
  ultimately show ?thesis by simp
qed

text \<open>All the tests ask whether one of the bytes of the access has the bit.\<close>

lemma CanAccess_bytes:
  assumes "p + sz \<le> length m" and "sz \<in> {1, 2, 4}"
  shows "CanAccess bits sz m p = Some (\<forall>i < sz. m ! (p + i) AND bits = 0)"
proof -
  have "(\<forall>i<2. Q i) \<longleftrightarrow> Q 0 \<and> Q (1 :: nat)" "(\<forall>i<4. Q i) \<longleftrightarrow> Q 0 \<and> Q 1 \<and> Q 2 \<and> Q (3 :: nat)" for Q
    by (auto simp: less_Suc_eq numeral_eq_Suc)
  then show ?thesis
    using assms META_32_bytes META_16_bytes
    by (auto simp: CanAccess_def META_VALUE_32_def META_VALUE_16_def META_VALUE_8_def host_byte_def)
qed

lemma IsScreenBuffer_bytes:
  assumes "p + sz \<le> length m" and "sz \<in> {1, 2, 4}"
  shows "IsScreenBuffer m p sz = Some (\<exists>i < sz. m ! (p + i) AND kScreenBuffer \<noteq> 0)"
  using CanAccess_bytes [OF assms, of kScreenBuffer] assms(2)
  by (auto simp: IsScreenBuffer_def CanAccess_def)

section \<open>META\_CHECK\<close>

text \<open>
  \<open>EmBankDRAM::ProbableCause\<close>: schedule the error that \<open>GetWhatHappened\<close> names. The two
  values it never returns are a failed assertion.
\<close>

definition ProbableCause :: "emuptr \<Rightarrow> nat \<Rightarrow> bool \<Rightarrow> machine \<Rightarrow> machine option" where
  "ProbableCause address sz forRead st =
     (case GetWhatHappened st address sz forRead of
        kOKAccess \<Rightarrow> Some st
      | kLowMemAccess \<Rightarrow> Some (emit_event (DeferredErrLowMemory address sz forRead) st)
      | kGlobalVarAccess \<Rightarrow> Some (emit_event (DeferredErrSystemGlobals address sz forRead) st)
      | kScreenAccess \<Rightarrow> Some (emit_event (DeferredErrScreen address sz forRead) st)
      | kMemMgrAccess \<Rightarrow> Some (emit_event (DeferredErrMemMgrStructures address sz forRead) st)
      | kFreeChunkAccess \<Rightarrow> Some (emit_event (DeferredErrFreeChunk address sz forRead) st)
      | kUnlockedChunkAccess \<Rightarrow> Some (emit_event (DeferredErrUnlockedChunk address sz forRead) st)
      | kUnknownAccess \<Rightarrow> None
      | kLowStackAccess \<Rightarrow> None)"

definition META_CHECK :: "nat \<Rightarrow> emuptr \<Rightarrow> nat \<Rightarrow> bool \<Rightarrow> machine \<Rightarrow> machine option" where
  "META_CHECK metaAddress address sz forRead st =
     (let can = (\<lambda>bits. CanAccess bits sz (gRAM_MetaMemory st) metaAddress);
          cause = ProbableCause address sz forRead st
      in if gPCInRAM st then
           (case can kNoAppAccess of
              None \<Rightarrow> None
            | Some True \<Rightarrow> Some st
            | Some False \<Rightarrow>
                if \<not> InRAMOSComponent st then cause
                else (case can kNoSystemAccess of
                        None \<Rightarrow> None
                      | Some True \<Rightarrow> Some st
                      | Some False \<Rightarrow> cause))
         else if IsPCInMemMgr st then
           (case can kNoMemMgrAccess of None \<Rightarrow> None | Some True \<Rightarrow> Some st | Some False \<Rightarrow> cause)
         else
           (case can kNoSystemAccess of None \<Rightarrow> None | Some True \<Rightarrow> Some st | Some False \<Rightarrow> cause))"

section \<open>The dirty range of the screen\<close>

definition MarkDirty :: "emuptr \<Rightarrow> uint32 \<Rightarrow> machine \<Rightarrow> machine" where
  "MarkDirty address sz st =
     (let st = (if address < gScreenDirtyLow st then st\<lparr>gScreenDirtyLow := address\<rparr> else st)
      in if address + sz > gScreenDirtyHigh st then st\<lparr>gScreenDirtyHigh := address + sz\<rparr> else st)"

definition PrvScreenCheck :: "nat \<Rightarrow> emuptr \<Rightarrow> nat \<Rightarrow> machine \<Rightarrow> machine option" where
  "PrvScreenCheck metaAddress address sz st =
     (case IsScreenBuffer (gRAM_MetaMemory st) metaAddress sz of
        None \<Rightarrow> None
      | Some True \<Rightarrow> Some (MarkDirty address (of_nat sz) st)
      | Some False \<Rightarrow> Some st)"

section \<open>Marking ranges\<close>

text \<open>
  Which buffer of meta-memory an address belongs to, and the offset in it. The bank of the
  registers has no meta-memory; the dummy and the mapped bank return the address of four
  static bytes.
\<close>

datatype metabuf = metaRAM | metaROM | metaDummy

definition EmMemBankIndex :: "emuptr \<Rightarrow> nat" where
  "EmMemBankIndex addr = unat (drop_bit 16 addr)"

definition EmMemGetMetaAddress :: "emuptr \<Rightarrow> machine \<Rightarrow> (metabuf \<times> nat) option" where
  "EmMemGetMetaAddress address st =
     (case gEmMemBanks st (EmMemBankIndex address) of
        Some bankSRAM \<Rightarrow> Some (metaRAM, unat (address AND gRAMBank_Mask st))
      | Some bankDRAM \<Rightarrow> Some (metaRAM, unat address)
      | Some bankROM \<Rightarrow> Some (metaROM, unat (address AND gROMBank_Mask st))
      | Some bankFlash \<Rightarrow> Some (metaROM, unat (address AND gROMBank_Mask st))
      | Some bankDummy \<Rightarrow> Some (metaDummy, 0)
      | Some bankMapped \<Rightarrow> Some (metaDummy, 0)
      | Some bankRegs \<Rightarrow> None
      | None \<Rightarrow> None)"

text \<open>
  The loops. \<open>p\<close> and \<open>e\<close> are offsets in the buffer, whose host address is \<open>base\<close>; only
  its remainder by four matters. \<open>leading\<close> runs until the pointer is aligned and returns
  where it stopped.
\<close>

function byte_loop :: "(uint8 \<Rightarrow> uint8) \<Rightarrow> hostmem \<Rightarrow> nat \<Rightarrow> nat \<Rightarrow> hostmem option" where
  "byte_loop f m p e =
     (if p < e then
        (case host_byte m p of None \<Rightarrow> None | Some b \<Rightarrow> byte_loop f (m[p := f b]) (p + 1) e)
      else Some m)"
  by pat_completeness auto
termination by (relation "measure (\<lambda>(f, m, p, e). e - p)") auto

declare byte_loop.simps [simp del]

function leading :: "(uint8 \<Rightarrow> uint8) \<Rightarrow> nat \<Rightarrow> hostmem \<Rightarrow> nat \<Rightarrow> (hostmem \<times> nat) option" where
  "leading f base m p =
     (if (base + p) mod 4 \<noteq> 0 then
        (case host_byte m p of None \<Rightarrow> None | Some b \<Rightarrow> leading f base (m[p := f b]) (p + 1))
      else Some (m, p))"
  by pat_completeness auto
termination
  by (relation "measure (\<lambda>(f, base, m, p). (4 - (base + p) mod 4) mod 4)") (auto simp: mod_Suc)

declare leading.simps [simp del]

text \<open>A 32-bit load and store of the little-endian host.\<close>

definition host_get32 :: "hostmem \<Rightarrow> nat \<Rightarrow> uint32 option" where
  "host_get32 m p =
     (case (host_byte m p, host_byte m (p + 1), host_byte m (p + 2), host_byte m (p + 3)) of
        (Some b0, Some b1, Some b2, Some b3) \<Rightarrow> Some (be32 b3 b2 b1 b0)
      | _ \<Rightarrow> None)"

definition host_put32 :: "hostmem \<Rightarrow> nat \<Rightarrow> uint32 \<Rightarrow> hostmem" where
  "host_put32 m p v = m[p := ucast v, p + 1 := ucast (drop_bit 8 v), p + 2 := ucast (drop_bit 16 v),
     p + 3 := ucast (drop_bit 24 v)]"

function long_loop :: "(uint32 \<Rightarrow> uint32) \<Rightarrow> hostmem \<Rightarrow> nat \<Rightarrow> nat \<Rightarrow> (hostmem \<times> nat) option" where
  "long_loop g m p e =
     (if p < e then
        (case host_get32 m p of None \<Rightarrow> None | Some v \<Rightarrow> long_loop g (host_put32 m p (g v)) (p + 4) e)
      else Some (m, p))"
  by pat_completeness auto
termination by (relation "measure (\<lambda>(g, m, p, e). e - p)") auto

declare long_loop.simps [simp del]

text \<open>The four bytes of \<open>longValue |= (longValue << 8); longValue |= (longValue << 16);\<close>\<close>

definition long_of :: "uint8 \<Rightarrow> uint32" where
  "long_of v = (let l = ucast v; l = l OR push_bit 8 l in l OR push_bit 16 l)"

definition long_range :: "(uint8 \<Rightarrow> uint8) \<Rightarrow> (uint32 \<Rightarrow> uint32) \<Rightarrow> nat \<Rightarrow> hostmem \<Rightarrow> nat \<Rightarrow> nat \<Rightarrow> hostmem option" where
  "long_range f g base m startP endP =
     (case leading f base m startP of
        None \<Rightarrow> None
      | Some (m1, p1) \<Rightarrow>
          (case long_loop g m1 p1 ((base + endP) div 4 * 4 - base) of
             None \<Rightarrow> None
           | Some (m2, p2) \<Rightarrow> byte_loop f m2 p2 endP))"

text \<open>What the three routines do with the buffer, for \<open>end - start = endP - startP\<close>.\<close>

definition MarkRange_buf :: "nat \<Rightarrow> uint8 \<Rightarrow> hostmem \<Rightarrow> nat \<Rightarrow> nat \<Rightarrow> hostmem option" where
  "MarkRange_buf base v m startP endP =
     (if endP - startP < 12 then byte_loop (\<lambda>b. b AND v) m startP endP
      else long_range (\<lambda>b. b OR v) (\<lambda>w. w OR long_of v) base m startP endP)"

definition UnmarkRange_buf :: "nat \<Rightarrow> uint8 \<Rightarrow> hostmem \<Rightarrow> nat \<Rightarrow> nat \<Rightarrow> hostmem option" where
  "UnmarkRange_buf base v0 m startP endP =
     (let v = NOT v0
      in if endP - startP < 12 then byte_loop (\<lambda>b. b AND v) m startP endP
         else long_range (\<lambda>b. b AND v) (\<lambda>w. w AND long_of v) base m startP endP)"

definition MarkUnmarkRange_buf :: "nat \<Rightarrow> uint8 \<Rightarrow> uint8 \<Rightarrow> hostmem \<Rightarrow> nat \<Rightarrow> nat \<Rightarrow> hostmem option" where
  "MarkUnmarkRange_buf base andValue orValue m startP endP =
     (if andValue = 0xFF then byte_loop (\<lambda>b. b OR orValue) m startP endP
      else if orValue = 0 then byte_loop (\<lambda>b. b AND andValue) m startP endP
      else if endP - startP < 12 then byte_loop (\<lambda>b. (b AND andValue) OR orValue) m startP endP
      else long_range (\<lambda>b. (b AND andValue) OR orValue) (\<lambda>w. (w AND long_of andValue) OR long_of orValue)
             base m startP endP)"

text \<open>
  The common frame: clamp the end to the RAM the start lies in, find the buffer and check
  the assertions. \<open>bases\<close> gives the host addresses of the buffers. The four static bytes of
  the dummy bank are read by no one, and the model drops what is written there.
\<close>

definition clamp_end :: "emuptr \<Rightarrow> emuptr \<Rightarrow> machine \<Rightarrow> emuptr" where
  "clamp_end start e st =
     (let e = (if start \<ge> 0 \<and> start < 0 + gRAMBank_Size st \<and> e \<ge> 0 + gRAMBank_Size st
               then gRAMBank_Size st - 1 else e)
      in if start \<ge> gMemoryStart st \<and> start < gMemoryStart st + gRAMBank_Size st \<and>
            e \<ge> gMemoryStart st + gRAMBank_Size st
         then gMemoryStart st + gRAMBank_Size st - 1 else e)"

definition range_op :: "(nat \<Rightarrow> hostmem \<Rightarrow> nat \<Rightarrow> nat \<Rightarrow> hostmem option) \<Rightarrow> (metabuf \<Rightarrow> nat) \<Rightarrow> emuptr \<Rightarrow> emuptr
    \<Rightarrow> machine \<Rightarrow> machine option" where
  "range_op loop bases start e0 st =
     (if gEmMemBanks st (EmMemBankIndex start) = Some bankRegs then Some st
      else
        (let e = clamp_end start e0 st
         in case EmMemGetMetaAddress start st of
              None \<Rightarrow> None
            | Some (buf, startP) \<Rightarrow>
                if e < start then None
                else
                  (let endP = startP + unat (e - start)
                   in case buf of
                        metaRAM \<Rightarrow> map_option (\<lambda>m. st\<lparr>gRAM_MetaMemory := m\<rparr>)
                                     (loop (bases buf) (gRAM_MetaMemory st) startP endP)
                      | metaROM \<Rightarrow> map_option (\<lambda>m. st\<lparr>gROM_MetaMemory := m\<rparr>)
                                     (loop (bases buf) (gROM_MetaMemory st) startP endP)
                      | metaDummy \<Rightarrow> map_option (\<lambda>_. st) (loop (bases buf) [0, 0, 0, 0] startP endP))))"

definition MarkRange :: "(metabuf \<Rightarrow> nat) \<Rightarrow> emuptr \<Rightarrow> emuptr \<Rightarrow> uint8 \<Rightarrow> machine \<Rightarrow> machine option" where
  "MarkRange bases start e v st = range_op (\<lambda>base. MarkRange_buf base v) bases start e st"

definition UnmarkRange :: "(metabuf \<Rightarrow> nat) \<Rightarrow> emuptr \<Rightarrow> emuptr \<Rightarrow> uint8 \<Rightarrow> machine \<Rightarrow> machine option" where
  "UnmarkRange bases start e v st = range_op (\<lambda>base. UnmarkRange_buf base v) bases start e st"

definition MarkUnmarkRange :: "(metabuf \<Rightarrow> nat) \<Rightarrow> emuptr \<Rightarrow> emuptr \<Rightarrow> uint8 \<Rightarrow> uint8 \<Rightarrow> machine \<Rightarrow> machine option" where
  "MarkUnmarkRange bases start e andValue orValue st =
     range_op (\<lambda>base. MarkUnmarkRange_buf base andValue orValue) bases start e st"

section \<open>The marking loops, byte by byte\<close>

definition map_range :: "(uint8 \<Rightarrow> uint8) \<Rightarrow> hostmem \<Rightarrow> nat \<Rightarrow> nat \<Rightarrow> hostmem" where
  "map_range f m s e = map (\<lambda>i. if s \<le> i \<and> i < e then f (m ! i) else m ! i) [0..<length m]"

lemma length_map_range [simp]: "length (map_range f m s e) = length m"
  by (simp add: map_range_def)

lemma nth_map_range [simp]:
  "i < length m \<Longrightarrow> map_range f m s e ! i = (if s \<le> i \<and> i < e then f (m ! i) else m ! i)"
  by (simp add: map_range_def)

lemma map_range_empty [simp]: "e \<le> s \<Longrightarrow> map_range f m s e = m"
  by (rule nth_equalityI) auto

lemma map_range_step: "p < e \<Longrightarrow> p < length m \<Longrightarrow> map_range f (m[p := f (m ! p)]) (Suc p) e = map_range f m p e"
  by (rule nth_equalityI) (auto simp: nth_list_update)

lemma map_range_compose:
  "a \<le> b \<Longrightarrow> b \<le> c \<Longrightarrow> map_range f (map_range f m a b) b c = map_range f m a c"
  by (rule nth_equalityI) auto

lemma byte_loop_eq: "e \<le> length m \<Longrightarrow> byte_loop f m p e = Some (map_range f m p e)"
proof (induction f m p e rule: byte_loop.induct)
  case (1 f m p e)
  then show ?case
    by (subst byte_loop.simps) (auto simp: host_byte_def map_range_step)
qed

text \<open>How far a pointer is from the next multiple of four.\<close>

definition to_align :: "nat \<Rightarrow> nat" where
  "to_align w = (4 - w mod 4) mod 4"

lemma to_align: "w mod 4 \<noteq> 0 \<Longrightarrow> to_align w = Suc (to_align (Suc w))" "w mod 4 = 0 \<Longrightarrow> to_align w = 0"
  "(w + to_align w) mod 4 = 0" "to_align w \<le> 3"
proof -
  have "w mod 4 < 4" by simp
  then consider "w mod 4 = 0" | "w mod 4 = 1" | "w mod 4 = 2" | "w mod 4 = 3" by linarith
  then show "(w + to_align w) mod 4 = 0"
    by cases (simp_all add: to_align_def mod_Suc numeral_3_eq_3)
  show "w mod 4 \<noteq> 0 \<Longrightarrow> to_align w = Suc (to_align (Suc w))"
    using \<open>w mod 4 < 4\<close> by (auto simp: to_align_def mod_Suc)
qed (simp_all add: to_align_def)

lemma leading_eq:
  "p + to_align (base + p) \<le> length m \<Longrightarrow>
     leading f base m p = Some (map_range f m p (p + to_align (base + p)), p + to_align (base + p))"
proof (induction f base m p rule: leading.induct)
  case (1 f base m p)
  show ?case
  proof (cases "(base + p) mod 4 = 0")
    case True
    then show ?thesis by (subst leading.simps) (simp add: to_align(2))
  next
    case False
    note st = to_align(1) [OF False]
    with "1.prems" have p: "p < length m" by simp
    have "leading f base (m[p := f (m ! p)]) (Suc p) =
        Some (map_range f (m[p := f (m ! p)]) (Suc p) (Suc p + to_align (base + Suc p)), Suc p + to_align (base + Suc p))"
      using "1.IH" [OF False, of "m ! p"] "1.prems" st p by (simp add: host_byte_def)
    then show ?thesis
      using False p st by (subst leading.simps) (simp add: host_byte_def map_range_step)
  qed
qed

lemma four_bytes:
  assumes "p + 3 < length m" and "\<And>b0 b1 b2 b3. g (be32 b0 b1 b2 b3) = be32 (f b0) (f b1) (f b2) (f b3)"
  shows "host_get32 m p = Some (be32 (m ! (p + 3)) (m ! (p + 2)) (m ! (p + 1)) (m ! p))"
    and "host_put32 m p (g (be32 (m ! (p + 3)) (m ! (p + 2)) (m ! (p + 1)) (m ! p))) = map_range f m p (p + 4)"
proof -
  show "host_get32 m p = Some (be32 (m ! (p + 3)) (m ! (p + 2)) (m ! (p + 1)) (m ! p))"
    using assms(1) by (simp add: host_get32_def host_byte_def)
  have b: "ucast (be32 b0 b1 b2 b3) = b3" "ucast (drop_bit 8 (be32 b0 b1 b2 b3)) = b2"
    "ucast (drop_bit 16 (be32 b0 b1 b2 b3)) = b1" "ucast (drop_bit 24 (be32 b0 b1 b2 b3)) = b0" for b0 b1 b2 b3
    unfolding be32_def by (rule bit_word_eqI; auto simp: bit_simps dest: bit_imp_le_length)+
  show "host_put32 m p (g (be32 (m ! (p + 3)) (m ! (p + 2)) (m ! (p + 1)) (m ! p))) = map_range f m p (p + 4)"
  proof (rule nth_equalityI)
    fix i assume "i < length (host_put32 m p (g (be32 (m ! (p + 3)) (m ! (p + 2)) (m ! (p + 1)) (m ! p))))"
    then have i: "i < length m" by (simp add: host_put32_def)
    consider "i < p" | "i = p" | "i = p + 1" | "i = p + 2" | "i = p + 3" | "p + 4 \<le> i" by linarith
    then show "host_put32 m p (g (be32 (m ! (p + 3)) (m ! (p + 2)) (m ! (p + 1)) (m ! p))) ! i =
        map_range f m p (p + 4) ! i"
      using i by cases (auto simp: host_put32_def assms(2) b nth_list_update)
  qed (simp add: host_put32_def)
qed

lemma long_loop_eq:
  assumes "\<And>b0 b1 b2 b3. g (be32 b0 b1 b2 b3) = be32 (f b0) (f b1) (f b2) (f b3)"
  shows "e \<le> length m \<Longrightarrow> e = p + 4 * n \<Longrightarrow> long_loop g m p e = Some (map_range f m p e, e)"
proof (induction n arbitrary: m p)
  case 0
  then show ?case by (subst long_loop.simps) simp
next
  case (Suc n)
  then have "p + 3 < length m" by simp
  note four = four_bytes [of p m g f, OF this assms]
  have "p < e" using Suc.prems by simp
  then have "long_loop g m p e = long_loop g (map_range f m p (p + 4)) (p + 4) e"
    by (subst long_loop.simps) (simp only: four if_True option.case)
  also have "\<dots> = Some (map_range f (map_range f m p (p + 4)) (p + 4) e, e)"
    using Suc.prems by (intro Suc.IH) auto
  finally show ?case using Suc.prems by (simp add: map_range_compose)
qed

lemma long_range_eq:
  assumes g: "\<And>b0 b1 b2 b3. g (be32 b0 b1 b2 b3) = be32 (f b0) (f b1) (f b2) (f b3)"
    and e: "endP \<le> length m" "12 \<le> endP - startP"
  shows "long_range f g base m startP endP = Some (map_range f m startP endP)"
proof -
  define q where "q = startP + to_align (base + startP)"
  have q: "leading f base m startP = Some (map_range f m startP q, q)" "startP \<le> q" "q \<le> startP + 3"
    "(base + q) mod 4 = 0"
    using leading_eq [of startP base m f] e to_align(3,4) [of "base + startP"] by (auto simp: q_def add.assoc)
  define e4 where "e4 = (base + endP) div 4 * 4 - base"
  obtain k where k: "base + q = 4 * k" using q(4) by (auto elim: mod_eqE)
  have "4 * k \<le> base + endP" using k q(3) e(2) by linarith
  then have "k \<le> (base + endP) div 4" by simp
  then obtain n where n': "(base + endP) div 4 = k + n" by (metis le_iff_add)
  then have n: "e4 = q + 4 * n" using k by (simp add: e4_def)
  have "(base + endP) div 4 * 4 \<le> base + endP" by simp
  then have e4: "q \<le> e4" "e4 \<le> endP" using n by (auto simp: e4_def)
  have "long_loop g (map_range f m startP q) q e4 = Some (map_range f (map_range f m startP q) q e4, e4)"
    using long_loop_eq [of g f, OF g, of e4 "map_range f m startP q" q n] e4(2) e n by simp
  then show ?thesis
    using q e e4 by (simp add: long_range_def e4_def [symmetric] map_range_compose byte_loop_eq)
qed

lemma long_of_be32: "long_of v = be32 v v v v"
proof (rule bit_word_eqI)
  fix n assume "n < LENGTH(32)"
  then consider "n < 8" | "8 \<le> n" "n < 16" | "16 \<le> n" "n < 24" | "24 \<le> n" "n < 32" by force
  then show "bit (long_of v) n = bit (be32 v v v v) n"
    by cases (auto simp: be32_def long_of_def Let_def bit_simps dest: bit_imp_le_length)
qed

lemma be32_AND: "be32 a0 a1 a2 a3 AND be32 b0 b1 b2 b3 = be32 (a0 AND b0) (a1 AND b1) (a2 AND b2) (a3 AND b3)"
proof (rule bit_word_eqI)
  fix n assume "n < LENGTH(32)"
  then consider "n < 8" | "8 \<le> n" "n < 16" | "16 \<le> n" "n < 24" | "24 \<le> n" "n < 32" by force
  then show "bit (be32 a0 a1 a2 a3 AND be32 b0 b1 b2 b3) n = bit (be32 (a0 AND b0) (a1 AND b1) (a2 AND b2) (a3 AND b3)) n"
    by cases (auto simp: be32_def bit_simps dest: bit_imp_le_length)
qed

lemma be32_OR: "be32 a0 a1 a2 a3 OR be32 b0 b1 b2 b3 = be32 (a0 OR b0) (a1 OR b1) (a2 OR b2) (a3 OR b3)"
  unfolding be32_def by (rule bit_word_eqI) (auto simp: bit_simps)

text \<open>The ranges that the three routines change, and what they do to a byte.\<close>

lemma MarkUnmarkRange_buf_eq:
  assumes "endP \<le> length m"
  shows "MarkUnmarkRange_buf base a r m startP endP = Some (map_range (\<lambda>b. (b AND a) OR r) m startP endP)"
proof -
  have ff: "(0xFF :: uint8) = - 1" by simp
  have "(\<lambda>b :: uint8. (b AND 0xFF) OR r) = (\<lambda>b. b OR r)" "(\<lambda>b :: uint8. (b AND a) OR 0) = (\<lambda>b. b AND a)"
    unfolding ff by simp_all
  then show ?thesis
    using assms long_range_eq [of "\<lambda>w. (w AND long_of a) OR long_of r" "\<lambda>b. (b AND a) OR r" endP m startP base]
    by (auto simp: MarkUnmarkRange_buf_def byte_loop_eq long_of_be32 be32_AND be32_OR)
qed

lemma UnmarkRange_buf_eq:
  assumes "endP \<le> length m"
  shows "UnmarkRange_buf base v m startP endP = Some (map_range (\<lambda>b. b AND NOT v) m startP endP)"
  using assms long_range_eq [of "\<lambda>w. w AND long_of (NOT v)" "\<lambda>b. b AND NOT v" endP m startP base]
  by (auto simp: UnmarkRange_buf_def Let_def byte_loop_eq long_of_be32 be32_AND)

lemma MarkRange_buf_eq:
  assumes "endP \<le> length m"
  shows "MarkRange_buf base v m startP endP =
    Some (map_range (if endP - startP < 12 then (\<lambda>b. b AND v) else (\<lambda>b. b OR v)) m startP endP)"
  using assms long_range_eq [of "\<lambda>w. w OR long_of v" "\<lambda>b. b OR v" endP m startP base]
  by (auto simp: MarkRange_buf_def byte_loop_eq long_of_be32 be32_OR)

section \<open>The operations on ranges\<close>

definition MarkTotalAccess :: "(metabuf \<Rightarrow> nat) \<Rightarrow> emuptr \<Rightarrow> emuptr \<Rightarrow> machine \<Rightarrow> machine option" where
  "MarkTotalAccess bases b e st = UnmarkRange bases b e kAccessBitMask st"

definition SetAccess :: "(metabuf \<Rightarrow> nat) \<Rightarrow> emuptr \<Rightarrow> emuptr \<Rightarrow> uint8 \<Rightarrow> machine \<Rightarrow> machine option" where
  "SetAccess bases b e bits st = MarkUnmarkRange bases b e (NOT kAccessBitMask) bits st"

definition kLowMemoryBits :: uint8 where
  "kLowMemoryBits = kNoAppAccess OR kNoSystemAccess OR kNoMemMgrAccess"
definition kGlobalsBits :: uint8 where "kGlobalsBits = kNoAppAccess"
definition kMPTBits :: uint8 where "kMPTBits = kNoAppAccess"
definition kMemStructBits :: uint8 where "kMemStructBits = kNoAppAccess OR kNoSystemAccess"
definition kLowStackBits :: uint8 where
  "kLowStackBits = kNoAppAccess OR kNoSystemAccess OR kNoMemMgrAccess"
definition kFreeChunkBits :: uint8 where "kFreeChunkBits = kNoAppAccess OR kNoSystemAccess"
definition kUnlockedChunkBits :: uint8 where "kUnlockedChunkBits = kNoAppAccess OR kNoSystemAccess"
definition kScreenBits :: uint8 where "kScreenBits = kNoAppAccess OR kScreenBuffer"
definition kUIObjectBits :: uint8 where "kUIObjectBits = kNoAppAccess"

definition MarkLowMemory :: "(metabuf \<Rightarrow> nat) \<Rightarrow> emuptr \<Rightarrow> emuptr \<Rightarrow> machine \<Rightarrow> machine option" where
  "MarkLowMemory bases b e st = SetAccess bases b e kLowMemoryBits st"
definition MarkSystemGlobals :: "(metabuf \<Rightarrow> nat) \<Rightarrow> emuptr \<Rightarrow> emuptr \<Rightarrow> machine \<Rightarrow> machine option" where
  "MarkSystemGlobals bases b e st = SetAccess bases b e kGlobalsBits st"
definition MarkHeapHeader :: "(metabuf \<Rightarrow> nat) \<Rightarrow> emuptr \<Rightarrow> emuptr \<Rightarrow> machine \<Rightarrow> machine option" where
  "MarkHeapHeader bases b e st = SetAccess bases b e kMemStructBits st"
definition MarkMPT :: "(metabuf \<Rightarrow> nat) \<Rightarrow> emuptr \<Rightarrow> emuptr \<Rightarrow> machine \<Rightarrow> machine option" where
  "MarkMPT bases b e st = SetAccess bases b e kMPTBits st"
definition MarkChunkHeader :: "(metabuf \<Rightarrow> nat) \<Rightarrow> emuptr \<Rightarrow> emuptr \<Rightarrow> machine \<Rightarrow> machine option" where
  "MarkChunkHeader bases b e st = SetAccess bases b e kMemStructBits st"
definition MarkChunkTrailer :: "(metabuf \<Rightarrow> nat) \<Rightarrow> emuptr \<Rightarrow> emuptr \<Rightarrow> machine \<Rightarrow> machine option" where
  "MarkChunkTrailer bases b e st = SetAccess bases b e kMemStructBits st"
definition MarkLowStack :: "(metabuf \<Rightarrow> nat) \<Rightarrow> emuptr \<Rightarrow> emuptr \<Rightarrow> machine \<Rightarrow> machine option" where
  "MarkLowStack bases b e st = SetAccess bases b e kLowStackBits st"
definition MarkUnlockedChunk :: "(metabuf \<Rightarrow> nat) \<Rightarrow> emuptr \<Rightarrow> emuptr \<Rightarrow> machine \<Rightarrow> machine option" where
  "MarkUnlockedChunk bases b e st = SetAccess bases b e kUnlockedChunkBits st"
definition MarkFreeChunk :: "(metabuf \<Rightarrow> nat) \<Rightarrow> emuptr \<Rightarrow> emuptr \<Rightarrow> machine \<Rightarrow> machine option" where
  "MarkFreeChunk bases b e st = SetAccess bases b e kFreeChunkBits st"
definition MarkScreen :: "(metabuf \<Rightarrow> nat) \<Rightarrow> emuptr \<Rightarrow> emuptr \<Rightarrow> machine \<Rightarrow> machine option" where
  "MarkScreen bases b e st = SetAccess bases b e kScreenBits st"
definition UnmarkScreen :: "(metabuf \<Rightarrow> nat) \<Rightarrow> emuptr \<Rightarrow> emuptr \<Rightarrow> machine \<Rightarrow> machine option" where
  "UnmarkScreen bases b e st = Option.bind (MarkTotalAccess bases b e st) (UnmarkRange bases b e kScreenBuffer)"
definition MarkUIObject :: "(metabuf \<Rightarrow> nat) \<Rightarrow> emuptr \<Rightarrow> emuptr \<Rightarrow> machine \<Rightarrow> machine option" where
  "MarkUIObject bases b e st = SetAccess bases b e kUIObjectBits st"
definition UnmarkUIObject :: "(metabuf \<Rightarrow> nat) \<Rightarrow> emuptr \<Rightarrow> emuptr \<Rightarrow> machine \<Rightarrow> machine option" where
  "UnmarkUIObject bases b e st = MarkTotalAccess bases b e st"
definition MarkDataBreak :: "(metabuf \<Rightarrow> nat) \<Rightarrow> emuptr \<Rightarrow> emuptr \<Rightarrow> machine \<Rightarrow> machine option" where
  "MarkDataBreak bases b e st = MarkRange bases b e kDataBreak st"
definition UnmarkDataBreak :: "(metabuf \<Rightarrow> nat) \<Rightarrow> emuptr \<Rightarrow> emuptr \<Rightarrow> machine \<Rightarrow> machine option" where
  "UnmarkDataBreak bases b e st = UnmarkRange bases b e kDataBreak st"

text \<open>The break bit of one instruction, whose address must be even.\<close>

definition meta_byte_op :: "(uint8 \<Rightarrow> uint8) \<Rightarrow> emuptr \<Rightarrow> machine \<Rightarrow> machine option" where
  "meta_byte_op f loc st =
     (if odd_address loc then None
      else (case EmMemGetMetaAddress loc st of
              None \<Rightarrow> None
            | Some (metaRAM, p) \<Rightarrow>
                map_option (\<lambda>b. st\<lparr>gRAM_MetaMemory := (gRAM_MetaMemory st)[p := f b]\<rparr>)
                  (host_byte (gRAM_MetaMemory st) p)
            | Some (metaROM, p) \<Rightarrow>
                map_option (\<lambda>b. st\<lparr>gROM_MetaMemory := (gROM_MetaMemory st)[p := f b]\<rparr>)
                  (host_byte (gROM_MetaMemory st) p)
            | Some (metaDummy, p) \<Rightarrow> Some st))"

definition MarkInstructionBreak :: "emuptr \<Rightarrow> machine \<Rightarrow> machine option" where
  "MarkInstructionBreak loc st = meta_byte_op (\<lambda>b. b OR kInstructionBreak) loc st"

definition UnmarkInstructionBreak :: "emuptr \<Rightarrow> machine \<Rightarrow> machine option" where
  "UnmarkInstructionBreak loc st = meta_byte_op (\<lambda>b. b AND NOT kInstructionBreak) loc st"

definition IsCPUBreak :: "emuptr \<Rightarrow> machine \<Rightarrow> bool option" where
  "IsCPUBreak loc st =
     (if odd_address loc then None
      else (case EmMemGetMetaAddress loc st of
              None \<Rightarrow> None
            | Some (metaRAM, p) \<Rightarrow>
                map_option (\<lambda>b. b AND kInstructionBreak \<noteq> 0) (host_byte (gRAM_MetaMemory st) p)
            | Some (metaROM, p) \<Rightarrow>
                map_option (\<lambda>b. b AND kInstructionBreak \<noteq> 0) (host_byte (gROM_MetaMemory st) p)
            | Some (metaDummy, p) \<Rightarrow> Some False))"

end
