(* ===== verification/BankRAM.thy ===== *)
theory BankRAM
  imports MetaMem
begin

text \<open>
  The banks of RAM: \<open>Hardware/EmBankSRAM.cpp\<close> for the storage heap and
  \<open>Hardware/EmBankDRAM.cpp\<close> for the dynamic heap, which share their memory, and
  \<open>Hardware/EmBankDummy.cpp\<close> for addresses where there is nothing. A value that is read
  or written is a \<open>uint32\<close>, whatever the size of the access.
\<close>

section \<open>EmBankSRAM\<close>

definition EmBankSRAM_ValidAddress :: "emuptr \<Rightarrow> uint32 \<Rightarrow> machine \<Rightarrow> bool" where
  "EmBankSRAM_ValidAddress address sz st \<longleftrightarrow>
     (let address = address - gMemoryStart st in address + sz \<le> gMemoryStart st + gRAMBank_Size st)"

definition EmBankSRAM_GetLong :: "emuptr \<Rightarrow> machine \<Rightarrow> uint32 outcome" where
  "EmBankSRAM_GetLong address st =
     (if CHECK_FOR_ADDRESS_ERROR \<and> odd_address address then fail (AddressError address 4 True) st
      else if PREVENT_USER_SRAM_GET \<and> fProtect_SRAMGet (gMemAccessFlags st)
      then fail (BusError address 4 True) st
      else if VALIDATE_SRAM_GET \<and> fValidate_SRAMGet (gMemAccessFlags st) \<and> \<not> EmBankSRAM_ValidAddress address 4 st
      then fail (BusError address 4 True) st
      else host (EmMemDoGet32 (gRAM_Memory st) (unat (address AND gRAMBank_Mask st))) (\<lambda>v st. (Inr v, st)) st)"

definition EmBankSRAM_GetWord :: "emuptr \<Rightarrow> machine \<Rightarrow> uint32 outcome" where
  "EmBankSRAM_GetWord address st =
     (if CHECK_FOR_ADDRESS_ERROR \<and> odd_address address then fail (AddressError address 2 True) st
      else if PREVENT_USER_SRAM_GET \<and> fProtect_SRAMGet (gMemAccessFlags st)
      then fail (BusError address 2 True) st
      else if VALIDATE_SRAM_GET \<and> fValidate_SRAMGet (gMemAccessFlags st) \<and> \<not> EmBankSRAM_ValidAddress address 2 st
      then fail (BusError address 2 True) st
      else host (EmMemDoGet16 (gRAM_Memory st) (unat (address AND gRAMBank_Mask st))) (\<lambda>v st. (Inr (ucast v), st)) st)"

definition EmBankSRAM_GetByte :: "emuptr \<Rightarrow> machine \<Rightarrow> uint32 outcome" where
  "EmBankSRAM_GetByte address st =
     (if PREVENT_USER_SRAM_GET \<and> fProtect_SRAMGet (gMemAccessFlags st)
      then fail (BusError address 1 True) st
      else if VALIDATE_SRAM_GET \<and> fValidate_SRAMGet (gMemAccessFlags st) \<and> \<not> EmBankSRAM_ValidAddress address 1 st
      then fail (BusError address 1 True) st
      else host (EmMemDoGet8 (gRAM_Memory st) (unat (address AND gRAMBank_Mask st))) (\<lambda>v st. (Inr (ucast v), st)) st)"

text \<open>
  The stores: after the checks, mark the screen dirty if the bytes belong to it, store, and
  let the debugger look.
\<close>

definition EmBankSRAM_store :: "nat \<Rightarrow> (hostmem \<Rightarrow> nat \<Rightarrow> hostmem option) \<Rightarrow> emuptr \<Rightarrow> machine \<Rightarrow> unit outcome" where
  "EmBankSRAM_store sz put address st =
     (let phyAddress = unat (address AND gRAMBank_Mask st)
      in host (PrvScreenCheck phyAddress address sz st) (\<lambda>st1 _.
           host (put (gRAM_Memory st1) phyAddress) (\<lambda>m st1.
             (Inr (), emit_event (CheckStepSpy address sz) (st1\<lparr>gRAM_Memory := m\<rparr>))) st1) st)"

definition EmBankSRAM_SetLong :: "emuptr \<Rightarrow> uint32 \<Rightarrow> machine \<Rightarrow> unit outcome" where
  "EmBankSRAM_SetLong address val st =
     (if CHECK_FOR_ADDRESS_ERROR \<and> odd_address address then fail (AddressError address 4 False) st
      else if PREVENT_USER_SRAM_SET \<and> fProtect_SRAMSet (gMemAccessFlags st)
      then fail (BusError address 4 False) st
      else if VALIDATE_SRAM_SET \<and> fValidate_SRAMSet (gMemAccessFlags st) \<and> \<not> EmBankSRAM_ValidAddress address 4 st
      then fail (BusError address 4 False) st
      else EmBankSRAM_store 4 (\<lambda>m p. EmMemDoPut32 m p val) address st)"

definition EmBankSRAM_SetWord :: "emuptr \<Rightarrow> uint32 \<Rightarrow> machine \<Rightarrow> unit outcome" where
  "EmBankSRAM_SetWord address val st =
     (if CHECK_FOR_ADDRESS_ERROR \<and> odd_address address then fail (AddressError address 2 False) st
      else if PREVENT_USER_SRAM_SET \<and> fProtect_SRAMSet (gMemAccessFlags st)
      then fail (BusError address 2 False) st
      else if VALIDATE_SRAM_SET \<and> fValidate_SRAMSet (gMemAccessFlags st) \<and> \<not> EmBankSRAM_ValidAddress address 2 st
      then fail (BusError address 2 False) st
      else EmBankSRAM_store 2 (\<lambda>m p. EmMemDoPut16 m p (ucast val)) address st)"

definition EmBankSRAM_SetByte :: "emuptr \<Rightarrow> uint32 \<Rightarrow> machine \<Rightarrow> unit outcome" where
  "EmBankSRAM_SetByte address val st =
     (if PREVENT_USER_SRAM_SET \<and> fProtect_SRAMSet (gMemAccessFlags st)
      then fail (BusError address 1 False) st
      else if VALIDATE_SRAM_SET \<and> fValidate_SRAMSet (gMemAccessFlags st) \<and> \<not> EmBankSRAM_ValidAddress address 1 st
      then fail (BusError address 1 False) st
      else EmBankSRAM_store 1 (\<lambda>m p. EmMemDoPut8 m p (ucast val)) address st)"

text \<open>Addresses in the buffers of the host are offsets.\<close>

definition EmBankSRAM_GetRealAddress :: "emuptr \<Rightarrow> machine \<Rightarrow> nat" where
  "EmBankSRAM_GetRealAddress address st = unat (address AND gRAMBank_Mask st)"

definition EmBankSRAM_GetMetaAddress :: "emuptr \<Rightarrow> machine \<Rightarrow> nat" where
  "EmBankSRAM_GetMetaAddress address st = unat (address AND gRAMBank_Mask st)"

subsection \<open>Life cycle\<close>

text \<open>What the model asks of the device the session emulates (\<open>EmDevice\<close>).\<close>

record EmDevice =
  Supports68328 :: bool
  Supports68EZ328 :: bool
  Supports68VZ328 :: bool
  Supports68SZ328 :: bool
  PrismPlatinumEdgeHack :: bool

definition kMemoryStart :: emuptr where "kMemoryStart = 0x10000000"
definition kMemoryStartEZ :: emuptr where "kMemoryStartEZ = 0"
definition kMemoryStartVZ :: emuptr where "kMemoryStartVZ = 0"

text \<open>
  \<open>ramSize\<close> is in kilobytes. The assertions ask that no memory is allocated yet; the
  buffers come cleared.
\<close>

definition EmBankSRAM_Initialize :: "uint32 \<Rightarrow> EmDevice \<Rightarrow> machine \<Rightarrow> machine option" where
  "EmBankSRAM_Initialize ramSize device st =
     (if gRAM_Memory st \<noteq> [] \<or> gRAM_MetaMemory st \<noteq> [] then None
      else
        (let st = (if ramSize > 0
                   then (let sz = ramSize * 1024
                         in st\<lparr>gRAMBank_Size := sz, gRAMBank_Mask := sz - 1,
                               gRAM_Memory := replicate (unat sz) 0,
                               gRAM_MetaMemory := replicate (unat sz) 0\<rparr>)
                   else st)
         in Some (st\<lparr>gMemoryStart := (if Supports68EZ328 device then kMemoryStartEZ
                                  else if Supports68VZ328 device then kMemoryStartVZ else kMemoryStart)\<rparr>)))"

definition EmBankSRAM_Reset :: "machine \<Rightarrow> machine" where
  "EmBankSRAM_Reset st = st\<lparr>gRAM_MetaMemory := replicate (unat (gRAMBank_Size st)) 0\<rparr>"

text \<open>
  \<open>ByteswapWords\<close> exchanges the bytes of each 16-bit word. A session file holds the image
  of RAM and the one of its meta-memory, in the order of the emulated processor;
  \<open>StWordSwapper\<close> swaps the memory before it is written and swaps it back afterwards.
\<close>

fun ByteswapWords :: "hostmem \<Rightarrow> hostmem" where
  "ByteswapWords (b0 # b1 # m) = b1 # b0 # ByteswapWords m"
| "ByteswapWords m = m"

record SessionFile =
  RAMImage :: "hostmem option"
  MetaRAMImage :: "hostmem option"
  MetaROMImage :: "hostmem option"
  ROMFileReference :: "string option"
  CanReload :: bool

text \<open>
  An image is read from the file right into a buffer of the host, as long as the image is
  and whatever the size of the buffer.
\<close>

definition read_image :: "hostmem \<Rightarrow> hostmem \<Rightarrow> hostmem option" where
  "read_image i m = (if length i \<le> length m then Some (i @ drop (length i) m) else None)"

definition EmBankSRAM_Save :: "SessionFile \<Rightarrow> machine \<Rightarrow> SessionFile \<times> machine" where
  "EmBankSRAM_Save f st =
     (let st1 = st\<lparr>gRAM_Memory := ByteswapWords (gRAM_Memory st)\<rparr>;
          f1 = f\<lparr>RAMImage := Some (gRAM_Memory st1)\<rparr>;
          st2 = st1\<lparr>gRAM_MetaMemory := ByteswapWords (gRAM_MetaMemory st1)\<rparr>;
          f2 = f1\<lparr>MetaRAMImage := Some (gRAM_MetaMemory st2)\<rparr>;
          st3 = st2\<lparr>gRAM_MetaMemory := ByteswapWords (gRAM_MetaMemory st2)\<rparr>
      in (f2, st3\<lparr>gRAM_Memory := ByteswapWords (gRAM_Memory st3)\<rparr>))"

definition load_meta :: "SessionFile \<Rightarrow> machine \<Rightarrow> SessionFile outcome" where
  "load_meta f st =
     (case MetaRAMImage f of
        None \<Rightarrow> (Inr (f\<lparr>CanReload := False\<rparr>), st)
      | Some i \<Rightarrow> host (read_image i (gRAM_MetaMemory st)) (\<lambda>m st.
          (Inr f, st\<lparr>gRAM_MetaMemory := ByteswapWords m\<rparr>)) st)"

definition EmBankSRAM_Load :: "SessionFile \<Rightarrow> machine \<Rightarrow> SessionFile outcome" where
  "EmBankSRAM_Load f st =
     (if gRAM_Memory st = [] \<or> gRAM_MetaMemory st = [] then fail HostFault st
      else (case RAMImage f of
              None \<Rightarrow> load_meta (f\<lparr>CanReload := False\<rparr>) st
            | Some i \<Rightarrow> host (read_image i (gRAM_Memory st)) (\<lambda>m st.
                load_meta f (st\<lparr>gRAM_Memory := ByteswapWords m\<rparr>)) st))"

definition EmBankSRAM_Dispose :: "machine \<Rightarrow> machine" where
  "EmBankSRAM_Dispose st = st\<lparr>gRAM_Memory := [], gRAM_MetaMemory := []\<rparr>"

section \<open>EmBankDRAM\<close>

definition EmBankDRAM_ValidAddress :: "emuptr \<Rightarrow> uint32 \<Rightarrow> machine \<Rightarrow> bool" where
  "EmBankDRAM_ValidAddress address sz st \<longleftrightarrow> address + sz \<le> gRAMBank_Size st"

definition PrvReportBelowStackPointerAccess :: "emuptr \<Rightarrow> nat \<Rightarrow> bool \<Rightarrow> machine \<Rightarrow> machine" where
  "PrvReportBelowStackPointerAccess address sz forRead st =
     (if gStackLow st = 0 then st
      else if InSysLaunch st then st
      else if fgAccessCount st > 0 then st
      else if address \<ge> fst (bootStack st) \<and> address < snd (bootStack st) then st
      else emit_event (DeferredErrLowStack address sz forRead) st)"

definition PrvCheckBelowStackPointerAccess :: "emuptr \<Rightarrow> nat \<Rightarrow> bool \<Rightarrow> machine \<Rightarrow> machine" where
  "PrvCheckBelowStackPointerAccess address sz forRead st =
     (if address < GetSP st \<and> address \<ge> gStackLow st
      then PrvReportBelowStackPointerAccess address sz forRead st else st)"

text \<open>
  The checks of meta-memory and stack that all accesses make, and then the validation of the
  address.
\<close>

definition EmBankDRAM_checks :: "nat \<Rightarrow> bool \<Rightarrow> emuptr \<Rightarrow> (machine \<Rightarrow> 'a outcome) \<Rightarrow> machine \<Rightarrow> 'a outcome" where
  "EmBankDRAM_checks sz forRead address k st =
     host (META_CHECK (unat address) address sz forRead st) (\<lambda>st1 _.
       (let st2 = PrvCheckBelowStackPointerAccess address sz forRead st1
        in if (if forRead then VALIDATE_DRAM_GET \<and> fValidate_DRAMGet (gMemAccessFlags st2)
               else VALIDATE_DRAM_SET \<and> fValidate_DRAMSet (gMemAccessFlags st2)) \<and>
              \<not> EmBankDRAM_ValidAddress address (of_nat sz) st2
           then fail (BusError address sz forRead) st2
           else k st2)) st"

definition EmBankDRAM_GetLong :: "emuptr \<Rightarrow> machine \<Rightarrow> uint32 outcome" where
  "EmBankDRAM_GetLong address st =
     (if address > gDynamicHeapSize st then EmBankSRAM_GetLong address st
      else if CHECK_FOR_ADDRESS_ERROR \<and> odd_address address then fail (AddressError address 4 True) st
      else EmBankDRAM_checks 4 True address (\<lambda>st.
             host (EmMemDoGet32 (gRAM_Memory st) (unat address)) (\<lambda>v st. (Inr v, st)) st) st)"

definition EmBankDRAM_GetWord :: "emuptr \<Rightarrow> machine \<Rightarrow> uint32 outcome" where
  "EmBankDRAM_GetWord address st =
     (if address > gDynamicHeapSize st then EmBankSRAM_GetWord address st
      else if CHECK_FOR_ADDRESS_ERROR \<and> odd_address address then fail (AddressError address 2 True) st
      else EmBankDRAM_checks 2 True address (\<lambda>st.
             host (EmMemDoGet16 (gRAM_Memory st) (unat address)) (\<lambda>v st. (Inr (ucast v), st)) st) st)"

definition EmBankDRAM_GetByte :: "emuptr \<Rightarrow> machine \<Rightarrow> uint32 outcome" where
  "EmBankDRAM_GetByte address st =
     (if address > gDynamicHeapSize st then EmBankSRAM_GetByte address st
      else EmBankDRAM_checks 1 True address (\<lambda>st.
             host (EmMemDoGet8 (gRAM_Memory st) (unat address)) (\<lambda>v st. (Inr (ucast v), st)) st) st)"

definition EmBankDRAM_store :: "nat \<Rightarrow> (hostmem \<Rightarrow> nat \<Rightarrow> hostmem option) \<Rightarrow> emuptr \<Rightarrow> machine \<Rightarrow> unit outcome" where
  "EmBankDRAM_store sz put address st =
     EmBankDRAM_checks sz False address (\<lambda>st.
       host (PrvScreenCheck (unat address) address sz st) (\<lambda>st1 _.
         host (put (gRAM_Memory st1) (unat address)) (\<lambda>m st1.
           (Inr (), emit_event (CheckStepSpy address sz) (st1\<lparr>gRAM_Memory := m\<rparr>))) st1) st) st"

definition EmBankDRAM_SetLong :: "emuptr \<Rightarrow> uint32 \<Rightarrow> machine \<Rightarrow> unit outcome" where
  "EmBankDRAM_SetLong address val st =
     (if address > gDynamicHeapSize st then EmBankSRAM_SetLong address val st
      else if CHECK_FOR_ADDRESS_ERROR \<and> odd_address address then fail (AddressError address 4 False) st
      else EmBankDRAM_store 4 (\<lambda>m p. EmMemDoPut32 m p val) address st)"

definition EmBankDRAM_SetWord :: "emuptr \<Rightarrow> uint32 \<Rightarrow> machine \<Rightarrow> unit outcome" where
  "EmBankDRAM_SetWord address val st =
     (if address > gDynamicHeapSize st then EmBankSRAM_SetWord address val st
      else if CHECK_FOR_ADDRESS_ERROR \<and> odd_address address then fail (AddressError address 2 False) st
      else EmBankDRAM_store 2 (\<lambda>m p. EmMemDoPut16 m p (ucast val)) address st)"

definition EmBankDRAM_SetByte :: "emuptr \<Rightarrow> uint32 \<Rightarrow> machine \<Rightarrow> unit outcome" where
  "EmBankDRAM_SetByte address val st =
     (if address > gDynamicHeapSize st then EmBankSRAM_SetByte address val st
      else EmBankDRAM_store 1 (\<lambda>m p. EmMemDoPut8 m p (ucast val)) address st)"

definition EmBankDRAM_GetRealAddress :: "emuptr \<Rightarrow> nat" where
  "EmBankDRAM_GetRealAddress address = unat address"

definition EmBankDRAM_GetMetaAddress :: "emuptr \<Rightarrow> nat" where
  "EmBankDRAM_GetMetaAddress address = unat address"

section \<open>EmBankDummy\<close>

definition HackForHwrGetRAMSize :: "emuptr \<Rightarrow> machine \<Rightarrow> bool" where
  "HackForHwrGetRAMSize address st \<longleftrightarrow> address = gMemoryStart st + gRAMBank_Size st"

definition EmBankDummy_InvalidAccess :: "emuptr \<Rightarrow> nat \<Rightarrow> bool \<Rightarrow> 'a \<Rightarrow> machine \<Rightarrow> 'a outcome" where
  "EmBankDummy_InvalidAccess address sz forRead r st =
     (if fgAccessCount st > 0 then (Inr r, st) else fail (BusError address sz forRead) st)"

definition EmBankDummy_Get :: "nat \<Rightarrow> emuptr \<Rightarrow> machine \<Rightarrow> uint32 outcome" where
  "EmBankDummy_Get sz address st =
     (if HackForHwrGetRAMSize address st then (Inr 0, st)
      else EmBankDummy_InvalidAccess address sz True (NOT 0) st)"

text \<open>The stores report their access as a read.\<close>

definition EmBankDummy_Set :: "nat \<Rightarrow> emuptr \<Rightarrow> uint32 \<Rightarrow> machine \<Rightarrow> unit outcome" where
  "EmBankDummy_Set sz address val st =
     (if HackForHwrGetRAMSize address st then (Inr (), st)
      else EmBankDummy_InvalidAccess address sz True () st)"

definition EmBankDummy_GetLong :: "emuptr \<Rightarrow> machine \<Rightarrow> uint32 outcome" where
  "EmBankDummy_GetLong address st = EmBankDummy_Get 4 address st"
definition EmBankDummy_GetWord :: "emuptr \<Rightarrow> machine \<Rightarrow> uint32 outcome" where
  "EmBankDummy_GetWord address st = EmBankDummy_Get 2 address st"
definition EmBankDummy_GetByte :: "emuptr \<Rightarrow> machine \<Rightarrow> uint32 outcome" where
  "EmBankDummy_GetByte address st = EmBankDummy_Get 1 address st"
definition EmBankDummy_SetLong :: "emuptr \<Rightarrow> uint32 \<Rightarrow> machine \<Rightarrow> unit outcome" where
  "EmBankDummy_SetLong address val st = EmBankDummy_Set 4 address val st"
definition EmBankDummy_SetWord :: "emuptr \<Rightarrow> uint32 \<Rightarrow> machine \<Rightarrow> unit outcome" where
  "EmBankDummy_SetWord address val st = EmBankDummy_Set 2 address val st"
definition EmBankDummy_SetByte :: "emuptr \<Rightarrow> uint32 \<Rightarrow> machine \<Rightarrow> unit outcome" where
  "EmBankDummy_SetByte address val st = EmBankDummy_Set 1 address val st"

end
