(* ===== verification/Crc.thy ===== *)
theory Crc
  imports HostMem
begin

text \<open>
  The checksum of ROM images, \<open>Crc16CalcBigBlock\<close> of
  \<open>Palm/Platform/Core/System/Src/Crc.c\<close>: a table of 256 remainders, used once per byte.
  \<open>Crc16CalcBlock\<close> of the same file counts the bytes in 16 bits.
  The reference definition is the bitwise division by the CCITT polynomial.
\<close>

definition crctt_16 :: "uint16 list" where
  "crctt_16 = [
   0x0000, 0x1021, 0x2042, 0x3063, 0x4084, 0x50A5, 0x60C6, 0x70E7, 0x8108, 0x9129, 0xA14A, 0xB16B,
   0xC18C, 0xD1AD, 0xE1CE, 0xF1EF, 0x1231, 0x0210, 0x3273, 0x2252, 0x52B5, 0x4294, 0x72F7, 0x62D6,
   0x9339, 0x8318, 0xB37B, 0xA35A, 0xD3BD, 0xC39C, 0xF3FF, 0xE3DE, 0x2462, 0x3443, 0x0420, 0x1401,
   0x64E6, 0x74C7, 0x44A4, 0x5485, 0xA56A, 0xB54B, 0x8528, 0x9509, 0xE5EE, 0xF5CF, 0xC5AC, 0xD58D,
   0x3653, 0x2672, 0x1611, 0x0630, 0x76D7, 0x66F6, 0x5695, 0x46B4, 0xB75B, 0xA77A, 0x9719, 0x8738,
   0xF7DF, 0xE7FE, 0xD79D, 0xC7BC, 0x48C4, 0x58E5, 0x6886, 0x78A7, 0x0840, 0x1861, 0x2802, 0x3823,
   0xC9CC, 0xD9ED, 0xE98E, 0xF9AF, 0x8948, 0x9969, 0xA90A, 0xB92B, 0x5AF5, 0x4AD4, 0x7AB7, 0x6A96,
   0x1A71, 0x0A50, 0x3A33, 0x2A12, 0xDBFD, 0xCBDC, 0xFBBF, 0xEB9E, 0x9B79, 0x8B58, 0xBB3B, 0xAB1A,
   0x6CA6, 0x7C87, 0x4CE4, 0x5CC5, 0x2C22, 0x3C03, 0x0C60, 0x1C41, 0xEDAE, 0xFD8F, 0xCDEC, 0xDDCD,
   0xAD2A, 0xBD0B, 0x8D68, 0x9D49, 0x7E97, 0x6EB6, 0x5ED5, 0x4EF4, 0x3E13, 0x2E32, 0x1E51, 0x0E70,
   0xFF9F, 0xEFBE, 0xDFDD, 0xCFFC, 0xBF1B, 0xAF3A, 0x9F59, 0x8F78, 0x9188, 0x81A9, 0xB1CA, 0xA1EB,
   0xD10C, 0xC12D, 0xF14E, 0xE16F, 0x1080, 0x00A1, 0x30C2, 0x20E3, 0x5004, 0x4025, 0x7046, 0x6067,
   0x83B9, 0x9398, 0xA3FB, 0xB3DA, 0xC33D, 0xD31C, 0xE37F, 0xF35E, 0x02B1, 0x1290, 0x22F3, 0x32D2,
   0x4235, 0x5214, 0x6277, 0x7256, 0xB5EA, 0xA5CB, 0x95A8, 0x8589, 0xF56E, 0xE54F, 0xD52C, 0xC50D,
   0x34E2, 0x24C3, 0x14A0, 0x0481, 0x7466, 0x6447, 0x5424, 0x4405, 0xA7DB, 0xB7FA, 0x8799, 0x97B8,
   0xE75F, 0xF77E, 0xC71D, 0xD73C, 0x26D3, 0x36F2, 0x0691, 0x16B0, 0x6657, 0x7676, 0x4615, 0x5634,
   0xD94C, 0xC96D, 0xF90E, 0xE92F, 0x99C8, 0x89E9, 0xB98A, 0xA9AB, 0x5844, 0x4865, 0x7806, 0x6827,
   0x18C0, 0x08E1, 0x3882, 0x28A3, 0xCB7D, 0xDB5C, 0xEB3F, 0xFB1E, 0x8BF9, 0x9BD8, 0xABBB, 0xBB9A,
   0x4A75, 0x5A54, 0x6A37, 0x7A16, 0x0AF1, 0x1AD0, 0x2AB3, 0x3A92, 0xFD2E, 0xED0F, 0xDD6C, 0xCD4D,
   0xBDAA, 0xAD8B, 0x9DE8, 0x8DC9, 0x7C26, 0x6C07, 0x5C64, 0x4C45, 0x3CA2, 0x2C83, 0x1CE0, 0x0CC1,
   0xEF1F, 0xFF3E, 0xCF5D, 0xDF7C, 0xAF9B, 0xBFBA, 0x8FD9, 0x9FF8, 0x6E17, 0x7E36, 0x4E55, 0x5E74,
   0x2E93, 0x3EB2, 0x0ED1, 0x1EF0]"

fun Crc16CalcBigBlock :: "uint8 list \<Rightarrow> uint16 \<Rightarrow> uint16" where
  "Crc16CalcBigBlock [] crc = crc"
| "Crc16CalcBigBlock (b # bs) crc =
     Crc16CalcBigBlock bs
       (push_bit 8 crc XOR crctt_16 ! unat (ucast (drop_bit 8 crc XOR ucast b) :: uint8))"

text \<open>The loop of \<open>Crc16CalcBlock\<close>, whose counter has 16 bits; \<open>None\<close> is a byte behind the buffer.\<close>

fun crc_do :: "uint8 list \<Rightarrow> uint16 \<Rightarrow> uint16 \<Rightarrow> uint16 option" where
  "crc_do [] count crc = None"
| "crc_do (b # bs) count crc =
     (let crc = push_bit 8 crc XOR crctt_16 ! unat (ucast (drop_bit 8 crc XOR ucast b) :: uint8);
          count = count - 1
      in if count \<noteq> 0 then crc_do bs count crc else Some crc)"

definition Crc16CalcBlock :: "uint8 list \<Rightarrow> uint16 \<Rightarrow> uint16 \<Rightarrow> uint16 option" where
  "Crc16CalcBlock bs count crc = (if count \<noteq> 0 then crc_do bs count crc else Some crc)"

text \<open>One bit, and eight of them.\<close>

definition crc_bit :: "uint16 \<Rightarrow> uint16" where
  "crc_bit crc = (if bit crc 15 then push_bit 1 crc XOR 0x1021 else push_bit 1 crc)"

definition crc_byte :: "uint16 \<Rightarrow> uint16" where
  "crc_byte crc = (crc_bit ^^ 8) crc"

fun crc_ref :: "uint8 list \<Rightarrow> uint16 \<Rightarrow> uint16" where
  "crc_ref [] crc = crc"
| "crc_ref (b # bs) crc = crc_ref bs (crc_byte (crc XOR push_bit 8 (ucast b)))"

lemma Crc16_append: "Crc16CalcBigBlock (xs @ ys) crc = Crc16CalcBigBlock ys (Crc16CalcBigBlock xs crc)"
  by (induction xs arbitrary: crc) auto

text \<open>
  Both give the same for the bytes that are counted. A block of 2^16 bytes has the count 0: it is not
  looked at.
\<close>

lemma crc_do_big:
  assumes "count \<noteq> 0" and "unat count \<le> length bs"
  shows "crc_do bs count crc = Some (Crc16CalcBigBlock (take (unat count) bs) crc)"
  using assms
proof (induction bs count crc rule: crc_do.induct)
  case (2 b bs count crc)
  have n: "unat count = Suc (unat (count - 1))" using "2.prems"(1) unat_eq_zero [of count] by (simp add: unat_minus_one)
  show ?case
  proof (cases "count - 1 = 0")
    case True
    then show ?thesis using n by (simp add: Let_def)
  next
    case False
    then show ?thesis using "2.IH" [OF refl refl] "2.prems"(2) n by (simp add: Let_def)
  qed
qed (use unat_eq_zero in auto)

lemma Crc16CalcBlock_big:
  "unat count \<le> length bs \<Longrightarrow> Crc16CalcBlock bs count crc = Some (Crc16CalcBigBlock (take (unat count) bs) crc)"
  using crc_do_big by (simp add: Crc16CalcBlock_def)

lemma Crc16CalcBlock_wraps: "length bs = 0x10000 \<Longrightarrow> Crc16CalcBlock bs (of_nat (length bs)) crc = Some crc"
  by (simp add: Crc16CalcBlock_def)

section \<open>The table computes the division\<close>

lemma crc_bit_eval: "crc_bit 0 = 0" "crc_bit (numeral k) = (if bit (numeral k :: uint16) 15 then push_bit 1 (numeral k) XOR 0x1021 else push_bit 1 (numeral k))"
 by (simp_all add: crc_bit_def)

lemma crc_byte_8: "crc_byte x = crc_bit (crc_bit (crc_bit (crc_bit (crc_bit (crc_bit (crc_bit (crc_bit x)))))))"
  by (simp add: crc_byte_def numeral_eq_Suc)

lemma crctt_16_eq: "crctt_16 = map (\<lambda>h. crc_byte (push_bit 8 (of_nat h))) [0..<256]"
proof -
  have "[0..<256] = 0 # 1 # [2..<256::nat]" by (simp add: upt_conv_Cons numeral_2_eq_2)
  then show ?thesis by (simp add: crctt_16_def crc_byte_8 crc_bit_eval upt_rec_numeral)
qed

lemma crc_bit_XOR: "crc_bit (a XOR b) = crc_bit a XOR crc_bit b"
  by (auto simp: crc_bit_def bit_xor_iff push_bit_xor ac_simps)

lemma crc_byte_XOR: "crc_byte (a XOR b) = crc_byte a XOR crc_byte b"
  by (simp add: crc_byte_8 crc_bit_XOR)

lemma crc_byte_low: 
  assumes "take_bit 8 x = x" shows "crc_byte x = push_bit 8 x"
proof -
  have h: "\<not> bit x n" if "n \<ge> 8" for n
  proof -
    have "bit x n = bit (take_bit 8 x) n" using assms by simp
    with that show ?thesis by (simp add: bit_take_bit_iff)
  qed
  have "(crc_bit ^^ k) x = push_bit k x" if "k \<le> 8" for k
    using that
  proof (induction k)
    case (Suc k)
    have "\<not> bit (push_bit k x) 15" using h Suc by (auto simp: bit_simps)
    then show ?case using Suc by (simp add: crc_bit_def)
  qed simp
  from this [of 8] show ?thesis by (simp add: crc_byte_def)
qed

lemma crc_step: "push_bit 8 crc XOR crctt_16 ! unat (ucast (drop_bit 8 crc XOR ucast b) :: uint8) =
    crc_byte (crc XOR push_bit 8 (ucast (b :: uint8)))"
proof -
  let ?h = "ucast (drop_bit 8 crc XOR ucast b) :: uint8"
  have lt: "unat ?h < 256" using unsigned_less [of ?h] by simp
  have "crc XOR push_bit 8 (ucast b) = push_bit 8 (ucast ?h) XOR take_bit 8 crc"
  proof (rule bit_word_eqI)
    fix n
    assume "n < LENGTH(16)"
    then show "bit (crc XOR push_bit 8 (ucast b)) n = bit (push_bit 8 (ucast ?h) XOR take_bit 8 crc) n"
      by (cases "n < 8") (auto simp: bit_simps)
  qed
  moreover have "crc_byte (take_bit 8 crc) = push_bit 8 crc"
  proof -
    have "crc_byte (take_bit 8 crc) = push_bit 8 (take_bit 8 crc)" by (rule crc_byte_low) simp
    also have "\<dots> = push_bit 8 crc" by (rule bit_word_eqI) (auto simp: bit_simps)
    finally show ?thesis .
  qed
  moreover have "crctt_16 ! unat ?h = crc_byte (push_bit 8 (ucast ?h))"
    unfolding crctt_16_eq using lt by simp
  ultimately show ?thesis by (simp add: crc_byte_XOR ac_simps)
qed

text \<open>
  C13: the table-driven checksum is the bitwise CRC with polynomial 0x1021, for every block and
  every seed; and the checksum of a block can be computed in pieces, as \<open>CheckChecksum\<close> does.
\<close>

theorem Crc16_is_bitwise_ccitt:
  "Crc16CalcBigBlock (xs @ ys) crc = crc_ref ys (Crc16CalcBigBlock xs crc) \<and>
   Crc16CalcBigBlock xs crc = crc_ref xs crc"
proof -
  have ref: "Crc16CalcBigBlock bs c = crc_ref bs c" for bs c
    by (induction bs arbitrary: c) (simp_all add: crc_step)
  show ?thesis unfolding Crc16_append by (simp only: ref)
qed

end
