(* ===== verification/BankROM.thy ===== *)
theory BankROM
  imports BankRAM Crc
begin

text \<open>
  The bank of the ROM, \<open>Hardware/EmBankROM.cpp\<close>: its accesses, the checks of a ROM image
  (class \<open>Card\<close>) and how it is loaded. The state machine of the flash part is in \<open>Flash\<close>,
  as it writes through the dispatch of memory accesses.
\<close>

section \<open>EmBankROM: accesses\<close>

definition EmBankROM_ValidAddress :: "emuptr \<Rightarrow> uint32 \<Rightarrow> machine \<Rightarrow> bool" where
  "EmBankROM_ValidAddress address sz st \<longleftrightarrow>
     (let address = address - gROMMemoryStart st
      in address + sz \<le> gROMMemoryStart st + gROMBank_Size st)"

text \<open>\<open>InvalidAccess\<close> schedules the error and returns.\<close>

definition EmBankROM_InvalidAccess :: "emuptr \<Rightarrow> nat \<Rightarrow> bool \<Rightarrow> machine \<Rightarrow> machine" where
  "EmBankROM_InvalidAccess address sz forRead st = emit_event (DeferredErrROM address sz forRead) st"

text \<open>
  Reads: the error is reported, if the switches ask for it, and the access goes on. Writes:
  the assertion on the address, and the access is dropped when it is reported.
\<close>

definition EmBankROM_read_checks :: "nat \<Rightarrow> emuptr \<Rightarrow> machine \<Rightarrow> machine" where
  "EmBankROM_read_checks sz address st =
     (let st = (if VALIDATE_ROM_GET \<and> fValidate_ROMGet (gMemAccessFlags st) \<and>
                   \<not> EmBankROM_ValidAddress address (of_nat sz) st
                then EmBankROM_InvalidAccess address sz True st else st)
      in if gPCInRAM st
         then (if PREVENT_USER_ROM_GET \<and> fProtect_ROMGet (gMemAccessFlags st)
               then EmBankROM_InvalidAccess address sz True st else st)
         else (if PREVENT_SYSTEM_ROM_GET \<and> fProtect_SysROMGet (gMemAccessFlags st)
               then EmBankROM_InvalidAccess address sz True st else st))"

definition rom_protected :: "machine \<Rightarrow> bool" where
  "rom_protected st \<longleftrightarrow>
     (if gPCInRAM st then PREVENT_USER_ROM_SET \<and> fProtect_ROMSet (gMemAccessFlags st)
      else PREVENT_SYSTEM_ROM_SET \<and> fProtect_SysROMSet (gMemAccessFlags st))"

definition EmBankROM_store :: "nat \<Rightarrow> (hostmem \<Rightarrow> nat \<Rightarrow> hostmem option) \<Rightarrow> emuptr \<Rightarrow> machine \<Rightarrow> unit outcome" where
  "EmBankROM_store sz put address st =
     (if \<not> EmBankROM_ValidAddress address (of_nat sz) st then fail HostFault st
      else if rom_protected st then (Inr (), EmBankROM_InvalidAccess address sz False st)
      else host (put (gROM_Memory st) (unat (address AND gROMBank_Mask st)))
             (\<lambda>m st. (Inr (), st\<lparr>gROM_Memory := m\<rparr>)) st)"

definition EmBankROM_GetLong :: "emuptr \<Rightarrow> machine \<Rightarrow> uint32 outcome" where
  "EmBankROM_GetLong address st =
     (if CHECK_FOR_ADDRESS_ERROR \<and> odd_address address then fail (AddressError address 4 True) st
      else (let st = EmBankROM_read_checks 4 address st
            in host (EmMemDoGet32 (gROM_Memory st) (unat (address AND gROMBank_Mask st))) (\<lambda>v st. (Inr v, st)) st))"

definition EmBankROM_GetWord :: "emuptr \<Rightarrow> machine \<Rightarrow> uint32 outcome" where
  "EmBankROM_GetWord address st =
     (if CHECK_FOR_ADDRESS_ERROR \<and> odd_address address then fail (AddressError address 2 True) st
      else (let st = EmBankROM_read_checks 2 address st
            in host (EmMemDoGet16 (gROM_Memory st) (unat (address AND gROMBank_Mask st))) (\<lambda>v st. (Inr (ucast v), st)) st))"

definition EmBankROM_GetByte :: "emuptr \<Rightarrow> machine \<Rightarrow> uint32 outcome" where
  "EmBankROM_GetByte address st =
     (let st = EmBankROM_read_checks 1 address st
      in host (EmMemDoGet8 (gROM_Memory st) (unat (address AND gROMBank_Mask st))) (\<lambda>v st. (Inr (ucast v), st)) st)"

definition EmBankROM_SetLong :: "emuptr \<Rightarrow> uint32 \<Rightarrow> machine \<Rightarrow> unit outcome" where
  "EmBankROM_SetLong address val st =
     (if CHECK_FOR_ADDRESS_ERROR \<and> odd_address address then fail (AddressError address 4 False) st
      else EmBankROM_store 4 (\<lambda>m p. EmMemDoPut32 m p val) address st)"

definition EmBankROM_SetWord :: "emuptr \<Rightarrow> uint32 \<Rightarrow> machine \<Rightarrow> unit outcome" where
  "EmBankROM_SetWord address val st =
     (if CHECK_FOR_ADDRESS_ERROR \<and> odd_address address then fail (AddressError address 2 False) st
      else EmBankROM_store 2 (\<lambda>m p. EmMemDoPut16 m p (ucast val)) address st)"

definition EmBankROM_SetByte :: "emuptr \<Rightarrow> uint32 \<Rightarrow> machine \<Rightarrow> unit outcome" where
  "EmBankROM_SetByte address val st = EmBankROM_store 1 (\<lambda>m p. EmMemDoPut8 m p (ucast val)) address st"

definition EmBankROM_GetRealAddress :: "emuptr \<Rightarrow> machine \<Rightarrow> nat" where
  "EmBankROM_GetRealAddress address st = unat (address AND gROMBank_Mask st)"

definition EmBankROM_GetMetaAddress :: "emuptr \<Rightarrow> machine \<Rightarrow> nat" where
  "EmBankROM_GetMetaAddress address st = unat (address AND gROMBank_Mask st)"

section \<open>EmBankROM: life cycle\<close>

text \<open>\<open>memset\<close> of the first bytes of a buffer; \<open>None\<close> when it is shorter.\<close>

definition clear_bytes :: "uint32 \<Rightarrow> hostmem \<Rightarrow> hostmem option" where
  "clear_bytes n m = (if unat n \<le> length m then Some (replicate (unat n) 0 @ drop (unat n) m) else None)"

definition EmBankROM_Reset :: "machine \<Rightarrow> unit outcome" where
  "EmBankROM_Reset st =
     host (clear_bytes (gROMImage_Size st) (gROM_MetaMemory st)) (\<lambda>m st. (Inr (), st\<lparr>gROM_MetaMemory := m\<rparr>)) st"

definition EmBankROM_Save :: "string \<Rightarrow> SessionFile \<Rightarrow> machine \<Rightarrow> SessionFile \<times> machine" where
  "EmBankROM_Save fROMFile f st =
     (let f1 = f\<lparr>ROMFileReference := Some fROMFile\<rparr>;
          st1 = st\<lparr>gROM_MetaMemory := ByteswapWords (gROM_MetaMemory st)\<rparr>;
          f2 = f1\<lparr>MetaROMImage := Some (gROM_MetaMemory st1)\<rparr>
      in (f2, st1\<lparr>gROM_MetaMemory := ByteswapWords (gROM_MetaMemory st1)\<rparr>))"

definition EmBankROM_Load :: "SessionFile \<Rightarrow> machine \<Rightarrow> SessionFile outcome" where
  "EmBankROM_Load f st =
     (if gROM_MetaMemory st = [] then fail HostFault st
      else (case MetaROMImage f of
              None \<Rightarrow> (Inr (f\<lparr>CanReload := False\<rparr>), st)
            | Some i \<Rightarrow> host (read_image i (gROM_MetaMemory st)) (\<lambda>m st.
                (Inr f, st\<lparr>gROM_MetaMemory := ByteswapWords m\<rparr>)) st))"

definition EmBankROM_Dispose :: "machine \<Rightarrow> machine" where
  "EmBankROM_Dispose st = st\<lparr>gROM_Memory := [], gROM_MetaMemory := []\<rparr>"

section \<open>Card\<close>

text \<open>
  Fields of a card header (\<open>EmPalmStructs.i\<close>) at their offsets, in the byte order of the
  emulated processor.
\<close>

definition be_word :: "uint8 list \<Rightarrow> nat \<Rightarrow> uint16 option" where
  "be_word bs n = (case (host_byte bs n, host_byte bs (n + 1)) of
     (Some b0, Some b1) \<Rightarrow> Some (be16 b0 b1) | _ \<Rightarrow> None)"

definition be_long :: "uint8 list \<Rightarrow> nat \<Rightarrow> uint32 option" where
  "be_long bs n = (case (host_byte bs n, host_byte bs (n + 1), host_byte bs (n + 2), host_byte bs (n + 3)) of
     (Some b0, Some b1, Some b2, Some b3) \<Rightarrow> Some (be32 b0 b1 b2 b3) | _ \<Rightarrow> None)"

record CardHeaderType =
  initStack :: uint32
  resetVector :: uint32
  signature :: uint32
  hdrVersion :: uint16
  flags :: uint16
  bigROMOffset :: uint32
  checksumBytes :: uint32
  checksumValue :: uint16

definition kCardHeaderSize :: nat where "kCardHeaderSize = 256"

definition card_header :: "uint8 list \<Rightarrow> CardHeaderType option" where
  "card_header bs =
     (case (be_long bs 0, be_long bs 4, be_long bs 8, be_word bs 12, be_word bs 14) of
        (Some s, Some r, Some g, Some v, Some fl) \<Rightarrow>
          (case (be_long bs 104, be_long bs 108, be_word bs 112) of
             (Some big, Some c, Some cv) \<Rightarrow> Some \<lparr>initStack = s, resetVector = r, signature = g, hdrVersion = v,
                flags = fl, bigROMOffset = big, checksumBytes = c, checksumValue = cv\<rparr>
           | _ \<Rightarrow> None)
      | _ \<Rightarrow> None)"

definition sysCardSignature :: uint32 where "sysCardSignature = 0xFEEDBEEF"
definition memCardHeaderFlagRAMOnly :: uint16 where "memCardHeaderFlagRAMOnly = 0x0001"
definition memCardHeaderFlag328 :: uint16 where "memCardHeaderFlag328 = 0x0010"
definition memCardHeaderFlagEZ :: uint16 where "memCardHeaderFlagEZ = 0x0020"
definition memCardHeaderFlagVZ :: uint16 where "memCardHeaderFlagVZ = 0x0040"
definition memCardHeaderFlagSZ :: uint16 where "memCardHeaderFlagSZ = 0x0080"

definition CheckCardHeader :: "CardHeaderType \<Rightarrow> bool" where
  "CheckCardHeader cardHdr \<longleftrightarrow>
     (if initStack cardHdr = 0 \<or> initStack cardHdr > 0x000FFFFF then False
      else if signature cardHdr \<noteq> sysCardSignature then False
      else if hdrVersion cardHdr = 0 \<or> hdrVersion cardHdr > 255 then False
      else if flags cardHdr AND memCardHeaderFlagRAMOnly \<noteq> 0 then False
      else True)"

text \<open>
  \<open>p\<close> is the rest of the buffer from the pointer on; \<open>None\<close> is a read past its end. In the
  second part the count is computed on 32 bits.
\<close>

definition crc_bytes :: "nat \<Rightarrow> nat \<Rightarrow> uint8 list \<Rightarrow> uint16 \<Rightarrow> uint16 option" where
  "crc_bytes off n p crc =
     (if off + n \<le> length p then Some (Crc16CalcBigBlock (take n (drop off p)) crc) else None)"

datatype checked = ChecksumOK | ChecksumBad | ChecksumThrow rom_error

definition kDebug20 :: uint16 where "kDebug20 = 0x9BED"

definition CheckChecksum :: "uint8 list \<Rightarrow> uint32 \<Rightarrow> checked option" where
  "CheckChecksum p fileLength =
     (case card_header p of
        None \<Rightarrow> None
      | Some cardHdr \<Rightarrow>
          if hdrVersion cardHdr = 1
          then map_option (\<lambda>v. if v = kDebug20 then ChecksumThrow kError_UnsupportedROM else ChecksumOK)
                 (crc_bytes 0 (unat fileLength) p 0)
          else (let chunkSize = 112; skipSize = chunkSize + 2
                in Option.bind (crc_bytes 0 (unat chunkSize) p 0) (\<lambda>v.
                     map_option (\<lambda>v. if v = checksumValue cardHdr then ChecksumOK else ChecksumBad)
                       (crc_bytes (unat skipSize) (unat (checksumBytes cardHdr - skipSize)) p v))))"

definition Supports328 :: "CardHeaderType \<Rightarrow> bool" where
  "Supports328 cardHdr \<longleftrightarrow> hdrVersion cardHdr < 3 \<or> flags cardHdr AND memCardHeaderFlag328 \<noteq> 0"
definition SupportsEZ :: "CardHeaderType \<Rightarrow> bool" where
  "SupportsEZ cardHdr \<longleftrightarrow> hdrVersion cardHdr \<ge> 3 \<and> flags cardHdr AND memCardHeaderFlagEZ \<noteq> 0"
definition SupportsVZ :: "CardHeaderType \<Rightarrow> bool" where
  "SupportsVZ cardHdr \<longleftrightarrow> hdrVersion cardHdr \<ge> 3 \<and> flags cardHdr AND memCardHeaderFlagVZ \<noteq> 0"
definition SupportsSZ :: "CardHeaderType \<Rightarrow> bool" where
  "SupportsSZ cardHdr \<longleftrightarrow> hdrVersion cardHdr \<ge> 3 \<and> flags cardHdr AND memCardHeaderFlagSZ \<noteq> 0"

section \<open>Loading a ROM\<close>

text \<open>\<open>NextPowerOf2\<close> of \<open>Miscellaneous.cpp\<close>.\<close>

definition NextPowerOf2 :: "uint32 \<Rightarrow> uint32" where
  "NextPowerOf2 n =
     (let n2 = n;
          n2 = n2 OR drop_bit 1 n2;
          n2 = n2 OR drop_bit 2 n2;
          n2 = n2 OR drop_bit 4 n2;
          n2 = n2 OR drop_bit 8 n2;
          n2 = n2 OR drop_bit 16 n2;
          n2 = n2 AND NOT (drop_bit 1 n2)
      in if n2 \<noteq> n then push_bit 1 n2 else n2)"

text \<open>
  A stream is the bytes of the file; reading fewer bytes than asked for leaves the rest of the
  buffer as it is. The buffer of a header comes cleared.
\<close>

definition GetBytes :: "uint8 list \<Rightarrow> nat \<Rightarrow> uint8 list \<Rightarrow> uint8 list" where
  "GetBytes file marker buf =
     (let got = take (length buf) (drop marker file) in got @ drop (length got) buf)"

definition read_header :: "uint8 list \<Rightarrow> nat \<Rightarrow> CardHeaderType option" where
  "read_header file marker = card_header (GetBytes file marker (replicate kCardHeaderSize 0))"

text \<open>The check that the device can run the ROM.\<close>

definition rom_supported :: "EmDevice \<Rightarrow> CardHeaderType \<Rightarrow> bool" where
  "rom_supported device cardHdr \<longleftrightarrow>
     (if SupportsEZ cardHdr then Supports68EZ328 device \<or> PrismPlatinumEdgeHack device
      else if SupportsVZ cardHdr then Supports68VZ328 device
      else if SupportsSZ cardHdr then Supports68SZ328 device
      else Supports68328 device)"

text \<open>Where the big ROM starts, according to the first header.\<close>

definition big_rom_offset :: "CardHeaderType \<Rightarrow> uint32" where
  "big_rom_offset cardHeader =
     (if hdrVersion cardHeader = 1 then 0x3000 else bigROMOffset cardHeader AND 0x000FFFFF)"

text \<open>
  A checksum is followed by the rest of the function, unless it throws; when it does not match,
  the user is told and the ROM is loaded all the same.
\<close>

definition with_checksum :: "checked option \<Rightarrow> (machine \<Rightarrow> 'a outcome) \<Rightarrow> machine \<Rightarrow> 'a outcome" where
  "with_checksum c k st =
     (case c of
        None \<Rightarrow> fail HostFault st
      | Some ChecksumOK \<Rightarrow> k st
      | Some ChecksumBad \<Rightarrow> k (emit_event BadChecksumDialog st)
      | Some (ChecksumThrow e) \<Rightarrow> fail (Throw e) st)"

text \<open>The end of \<open>LoadROM\<close>, with the image complete. \<open>fresh\<close> is what allocated memory holds.\<close>

definition install_rom :: "EmDevice \<Rightarrow> CardHeaderType \<Rightarrow> hostmem \<Rightarrow> uint8 list \<Rightarrow> machine \<Rightarrow> unit outcome" where
  "install_rom device cardHeader fresh romImage st =
     (case card_header romImage of
        None \<Rightarrow> fail HostFault st
      | Some cardHdr \<Rightarrow>
          if \<not> rom_supported device cardHdr then fail (Throw kError_WrongROMForType) st
          else if gROM_Memory st \<noteq> [] \<or> gROM_MetaMemory st \<noteq> [] then fail HostFault st
          else (Inr (), st\<lparr>gROM_Memory := ByteswapWords romImage, gROM_MetaMemory := fresh,
                  gROMBank_Mask := gROMBank_Size st - 1,
                  gROMMemoryStart := resetVector cardHeader AND 0xFFF00000\<rparr>))"

definition EmBankROM_LoadROM :: "EmDevice \<Rightarrow> (nat \<Rightarrow> hostmem) \<Rightarrow> uint8 list \<Rightarrow> machine \<Rightarrow> unit outcome" where
  "EmBankROM_LoadROM device allocate hROM st =
     (if length hROM < kCardHeaderSize then fail (Throw kError_BadROM) st
      else (case read_header hROM 0 of
        None \<Rightarrow> fail HostFault st
      | Some cardHeader \<Rightarrow>
          if \<not> CheckCardHeader cardHeader then fail (Throw kError_BadROM) st
          else (let bigROM = unat (big_rom_offset cardHeader)
            in if length hROM < bigROM then fail (Throw kError_BadROM) st
               else (case read_header hROM bigROM of
                 None \<Rightarrow> fail HostFault st
               | Some cardHeader2 \<Rightarrow>
                   (let bufferOffset = (if CheckCardHeader cardHeader2 then 0 else bigROM);
                        imageSize = of_nat (length hROM + bufferOffset);
                        st = st\<lparr>gROMImage_Size := imageSize, gROMBank_Size := NextPowerOf2 imageSize\<rparr>;
                        romImage = replicate bufferOffset 0 @ hROM
                    in with_checksum (CheckChecksum (drop bigROM romImage) (imageSize - of_nat bigROM))
                         (if bufferOffset \<noteq> 0
                          then \<lambda>st.
                            (if length hROM < kCardHeaderSize \<or> bigROM < kCardHeaderSize
                             then fail HostFault st
                             else install_rom device cardHeader (allocate (unat imageSize))
                               (take kCardHeaderSize hROM @ replicate (bigROM - kCardHeaderSize) 0xFF @ hROM) st)
                          else with_checksum
                            (case card_header romImage of None \<Rightarrow> None
                             | Some cardHdr \<Rightarrow> CheckChecksum romImage (checksumBytes cardHdr))
                            (install_rom device cardHeader (allocate (unat imageSize)) romImage)) st)))))"

definition EmBankROM_Initialize :: "EmDevice \<Rightarrow> (nat \<Rightarrow> hostmem) \<Rightarrow> uint8 list \<Rightarrow> machine \<Rightarrow> unit outcome" where
  "EmBankROM_Initialize = EmBankROM_LoadROM"

end
