(* ===== verification/BankMapped.thy ===== *)
theory BankMapped
  imports BankROM
begin

text \<open>
  The bank through which emulated code sees memory of the host,
  \<open>Hardware/EmBankMapped.cpp\<close>: a list of ranges, sorted by emulated address, first-fit
  allocation of the emulated addresses, and a cache of the range used last.
\<close>

section \<open>Ranges\<close>

definition Contains_real :: "MapRange \<Rightarrow> uint32 \<Rightarrow> bool" where
  "Contains_real r addr \<longleftrightarrow>
     (let lo = realAddress r; hi = lo + range_size r in addr \<ge> lo \<and> addr < hi)"

definition Contains_emu :: "MapRange \<Rightarrow> emuptr \<Rightarrow> bool" where
  "Contains_emu r addr \<longleftrightarrow>
     (let lo = mappedAddress r; hi = lo + range_size r in addr \<ge> lo \<and> addr < hi)"

definition kMappedStart :: emuptr where "kMappedStart = 0x13000000"
definition kMappedFinish :: emuptr where "kMappedFinish = 0x18000000"

text \<open>The iterator \<open>end ()\<close> is the index one past the last element.\<close>

definition PrvInvalidateCache :: "machine \<Rightarrow> machine" where
  "PrvInvalidateCache st = st\<lparr>gLastIter := length (gMappedRanges st)\<rparr>"

fun first_match :: "(MapRange \<Rightarrow> bool) \<Rightarrow> MapRange list \<Rightarrow> nat" where
  "first_match P [] = 0"
| "first_match P (r # rs) = (if P r then 0 else Suc (first_match P rs))"

definition PrvGetMappingInfo :: "(MapRange \<Rightarrow> bool) \<Rightarrow> machine \<Rightarrow> nat \<times> machine" where
  "PrvGetMappingInfo P st =
     (if gLastIter st < length (gMappedRanges st) \<and> P (gMappedRanges st ! gLastIter st)
      then (gLastIter st, st)
      else (let iter = first_match P (gMappedRanges st) in (iter, st\<lparr>gLastIter := iter\<rparr>)))"

lemma AND_3_iff: "(a :: uint32) AND 3 = b AND 3 \<longleftrightarrow> uint a mod 4 = uint b mod 4"
proof -
  have m: "w AND 3 = take_bit 2 w" for w :: uint32
    by (simp add: take_bit_eq_mask mask_eq_exp_minus_1)
  have "uint (take_bit 2 w) = take_bit 2 (uint w)" for w :: uint32
    by (rule unsigned_take_bit_eq)
  then have "uint (take_bit 2 w) = uint w mod 4" for w :: uint32
    by (simp only: take_bit_eq_mod) simp
  then show ?thesis unfolding m word_uint_eq_iff by simp
qed

lemma mod_4_dec: "(x :: int) mod 4 \<noteq> 0 \<Longrightarrow> (x - 1) mod 4 < x mod 4"
  by presburger

lemma uint_inc_mod_4: "uint (a + 1 :: uint32) mod 4 = (uint a + 1) mod 4"
  by (simp add: uint_word_ariths mod_mod_cancel)

function PrvEnsureAligned :: "emuptr \<Rightarrow> uint32 \<Rightarrow> emuptr" where
  "PrvEnsureAligned candidate addr =
     (if candidate AND 3 \<noteq> addr AND 3 then PrvEnsureAligned (candidate + 1) addr else candidate)"
  by auto
termination
proof (relation "measure (\<lambda>(c, a). nat ((uint a - uint c) mod 4))")
  fix c a :: uint32
  assume "c AND 3 \<noteq> a AND 3"
  then have "(uint a - uint c) mod 4 \<noteq> 0"
    unfolding AND_3_iff by (metis mod_eq_0_iff_dvd mod_eq_dvd_iff)
  then have "(uint a - uint c - 1) mod 4 < (uint a - uint c) mod 4" by (rule mod_4_dec)
  moreover have "(uint a - uint (c + 1)) mod 4 = (uint a - uint c - 1) mod 4"
    using uint_inc_mod_4 [of c] by (metis diff_diff_eq mod_diff_right_eq)
  ultimately have "(uint a - uint (c + 1)) mod 4 < (uint a - uint c) mod 4" by simp
  then show "((c + 1, a), c, a) \<in> measure (\<lambda>(c, a). nat ((uint a - uint c) mod 4))" by simp
qed simp

declare PrvEnsureAligned.simps [simp del]

section \<open>Mapping and unmapping\<close>

text \<open>
  The search for room, and the insertion in front of the first range that leaves it; the
  second component is the position of the new range.
\<close>

fun map_insert :: "uint32 \<Rightarrow> uint32 \<Rightarrow> emuptr \<Rightarrow> MapRange list \<Rightarrow> MapRange list \<times> nat" where
  "map_insert addr sz candidate [] =
     ([\<lparr>realAddress = addr, mappedAddress = candidate, range_size = sz\<rparr>], 0)"
| "map_insert addr sz candidate (r # rs) =
     (if mappedAddress r \<ge> candidate + sz
      then (\<lparr>realAddress = addr, mappedAddress = candidate, range_size = sz\<rparr> # r # rs, 0)
      else (let (rs', iter) = map_insert addr sz (PrvEnsureAligned (mappedAddress r + range_size r) addr) rs
            in (r # rs', Suc iter)))"

definition EmBankMapped_MapPhysicalMemory :: "uint32 \<Rightarrow> uint32 \<Rightarrow> machine \<Rightarrow> machine" where
  "EmBankMapped_MapPhysicalMemory addr sz st =
     (if addr = 0 then st
      else (let (rs, iter) = map_insert addr sz (PrvEnsureAligned kMappedStart addr) (gMappedRanges st)
            in st\<lparr>gMappedRanges := rs, gLastIter := iter\<rparr>))"

definition EmBankMapped_UnmapPhysicalMemory :: "uint32 \<Rightarrow> machine \<Rightarrow> machine" where
  "EmBankMapped_UnmapPhysicalMemory addr st =
     (if addr = 0 then st
      else (let (iter, st) = PrvGetMappingInfo (\<lambda>r. Contains_real r addr) st
            in if iter \<noteq> length (gMappedRanges st)
               then PrvInvalidateCache
                 (st\<lparr>gMappedRanges := take iter (gMappedRanges st) @ drop (Suc iter) (gMappedRanges st)\<rparr>)
               else st))"

definition EmBankMapped_GetMappingInfo :: "emuptr \<Rightarrow> machine \<Rightarrow> (uint32 \<times> uint32) \<times> machine" where
  "EmBankMapped_GetMappingInfo addr st =
     (let (iter, st) = PrvGetMappingInfo (\<lambda>r. Contains_emu r addr) st
      in if iter \<noteq> length (gMappedRanges st)
         then ((realAddress (gMappedRanges st ! iter), range_size (gMappedRanges st ! iter)), st)
         else ((0, 0), st))"

definition EmBankMapped_GetRealAddress :: "emuptr \<Rightarrow> machine \<Rightarrow> uint32 \<times> machine" where
  "EmBankMapped_GetRealAddress address st =
     (let (iter, st) = PrvGetMappingInfo (\<lambda>r. Contains_emu r address) st
      in if iter = length (gMappedRanges st) then (0, st)
         else (realAddress (gMappedRanges st ! iter) + (address - mappedAddress (gMappedRanges st ! iter)), st))"

text \<open>\<open>None\<close> is the assertion that the address is mapped.\<close>

definition EmBankMapped_GetEmulatedAddress :: "uint32 \<Rightarrow> machine \<Rightarrow> emuptr option \<times> machine" where
  "EmBankMapped_GetEmulatedAddress address st =
     (let (iter, st) = PrvGetMappingInfo (\<lambda>r. Contains_real r address) st
      in if iter = length (gMappedRanges st) then (None, st)
         else (Some (mappedAddress (gMappedRanges st ! iter) +
                 (address - realAddress (gMappedRanges st ! iter))), st))"

definition EmBankMapped_ValidAddress :: "emuptr \<Rightarrow> machine \<Rightarrow> bool \<times> machine" where
  "EmBankMapped_ValidAddress address st =
     (let (p, st) = EmBankMapped_GetRealAddress address st in (p \<noteq> 0, st))"

definition EmBankMapped_Initialize :: "machine \<Rightarrow> machine" where
  "EmBankMapped_Initialize st = PrvInvalidateCache (st\<lparr>gMappedRanges := []\<rparr>)"

definition EmBankMapped_Dispose :: "machine \<Rightarrow> machine" where
  "EmBankMapped_Dispose st = PrvInvalidateCache (st\<lparr>gMappedRanges := []\<rparr>)"

section \<open>Accesses\<close>

text \<open>The bytes of an access are those of the host, in order; \<open>None\<close> is an invalid pointer.\<close>

fun host_bytes :: "(uint32 \<rightharpoonup> uint8) \<Rightarrow> uint32 \<Rightarrow> nat \<Rightarrow> uint8 list option" where
  "host_bytes h p 0 = Some []"
| "host_bytes h p (Suc n) =
     (case (h p, host_bytes h (p + 1) n) of (Some b, Some bs) \<Rightarrow> Some (b # bs) | _ \<Rightarrow> None)"

fun set_host_bytes :: "(uint32 \<rightharpoonup> uint8) \<Rightarrow> uint32 \<Rightarrow> uint8 list \<Rightarrow> (uint32 \<rightharpoonup> uint8) option" where
  "set_host_bytes h p [] = Some h"
| "set_host_bytes h p (b # bs) =
     (if h p = None then None else set_host_bytes (h(p \<mapsto> b)) (p + 1) bs)"

fun from_be :: "uint8 list \<Rightarrow> uint32 \<Rightarrow> uint32" where
  "from_be [] acc = acc"
| "from_be (b # bs) acc = from_be bs (push_bit 8 acc OR ucast b)"

definition EmBankMapped_Get :: "nat \<Rightarrow> emuptr \<Rightarrow> machine \<Rightarrow> uint32 outcome" where
  "EmBankMapped_Get sz address st =
     (let (p, st) = EmBankMapped_GetRealAddress address st
      in if p = 0 then (Inr (NOT 0), st)
         else host (host_bytes (host_space st) p sz) (\<lambda>bs st. (Inr (from_be bs 0), st)) st)"

definition EmBankMapped_Set :: "uint8 list \<Rightarrow> emuptr \<Rightarrow> machine \<Rightarrow> unit outcome" where
  "EmBankMapped_Set bytes address st =
     (let (p, st) = EmBankMapped_GetRealAddress address st
      in if p = 0 then (Inr (), st)
         else host (set_host_bytes (host_space st) p bytes) (\<lambda>h st. (Inr (), st\<lparr>host_space := h\<rparr>)) st)"

definition EmBankMapped_GetLong :: "emuptr \<Rightarrow> machine \<Rightarrow> uint32 outcome" where
  "EmBankMapped_GetLong address st =
     (if CHECK_FOR_ADDRESS_ERROR \<and> odd_address address then fail (AddressError address 4 True) st
      else EmBankMapped_Get 4 address st)"

definition EmBankMapped_GetWord :: "emuptr \<Rightarrow> machine \<Rightarrow> uint32 outcome" where
  "EmBankMapped_GetWord address st =
     (if CHECK_FOR_ADDRESS_ERROR \<and> odd_address address then fail (AddressError address 2 True) st
      else EmBankMapped_Get 2 address st)"

definition EmBankMapped_GetByte :: "emuptr \<Rightarrow> machine \<Rightarrow> uint32 outcome" where
  "EmBankMapped_GetByte address st = EmBankMapped_Get 1 address st"

definition EmBankMapped_SetLong :: "emuptr \<Rightarrow> uint32 \<Rightarrow> machine \<Rightarrow> unit outcome" where
  "EmBankMapped_SetLong address val st =
     (if CHECK_FOR_ADDRESS_ERROR \<and> odd_address address then fail (AddressError address 4 False) st
      else EmBankMapped_Set [ucast (drop_bit 24 val), ucast (drop_bit 16 val), ucast (drop_bit 8 val), ucast val]
             address st)"

definition EmBankMapped_SetWord :: "emuptr \<Rightarrow> uint32 \<Rightarrow> machine \<Rightarrow> unit outcome" where
  "EmBankMapped_SetWord address val st =
     (if CHECK_FOR_ADDRESS_ERROR \<and> odd_address address then fail (AddressError address 2 False) st
      else EmBankMapped_Set [ucast (drop_bit 8 val), ucast val] address st)"

definition EmBankMapped_SetByte :: "emuptr \<Rightarrow> uint32 \<Rightarrow> machine \<Rightarrow> unit outcome" where
  "EmBankMapped_SetByte address val st = EmBankMapped_Set [ucast val] address st"

end
