(* ===== verification/MappedProps.thy ===== *)
theory MappedProps
  imports BankMapped
begin

text \<open>
  What the mapped bank promises: its ranges stay sorted and apart, the addresses of emulated
  code form a partial function to addresses of the host that mapping extends and unmapping
  restores, and neither depends on the cache.
\<close>

section \<open>Alignment\<close>

definition pad :: "emuptr \<Rightarrow> uint32 \<Rightarrow> nat" where
  "pad candidate addr = nat ((uint addr - uint candidate) mod 4)"

lemma pad_le: "pad c a \<le> 3"
  unfolding pad_def using pos_mod_bound [of 4 "uint a - uint c"] by linarith

lemma pad_0_iff: "pad c a = 0 \<longleftrightarrow> c AND 3 = a AND 3"
proof -
  have "pad c a = 0 \<longleftrightarrow> (uint a - uint c) mod 4 = 0"
    unfolding pad_def using pos_mod_sign [of 4 "uint a - uint c"] by linarith
  also have "\<dots> \<longleftrightarrow> uint a mod 4 = uint c mod 4" by (simp add: mod_eq_dvd_iff mod_eq_0_iff_dvd)
  finally show ?thesis unfolding AND_3_iff by auto
qed

lemma pad_step:
  assumes "c AND 3 \<noteq> a AND 3"
  shows "pad c a = Suc (pad (c + 1) a)"
proof -
  have nz: "(uint a - uint c) mod 4 \<noteq> 0" using assms unfolding pad_0_iff [symmetric] pad_def by simp
  have "(uint a - uint (c + 1)) mod 4 = (uint a - uint c - 1) mod 4"
    using uint_inc_mod_4 [of c] by (metis diff_diff_eq mod_diff_right_eq)
  also have "\<dots> = (uint a - uint c) mod 4 - 1"
  proof -
    have "(x - 1) mod 4 = x mod 4 - 1" if "x mod 4 \<noteq> 0" for x :: int using that by presburger
    then show ?thesis using nz by blast
  qed
  finally show ?thesis unfolding pad_def using nz pos_mod_sign [of 4 "uint a - uint c"] by linarith
qed

lemma PrvEnsureAligned_aligned: "PrvEnsureAligned c a AND 3 = a AND 3"
  by (induction c a rule: PrvEnsureAligned.induct) (subst PrvEnsureAligned.simps, simp)

lemma PrvEnsureAligned_eq: "unat c + pad c a < 2 ^ 32 \<Longrightarrow> unat (PrvEnsureAligned c a) = unat c + pad c a"
proof (induction c a rule: PrvEnsureAligned.induct)
  case (1 c a)
  show ?case
  proof (cases "c AND 3 = a AND 3")
    case True
    then show ?thesis by (subst PrvEnsureAligned.simps) (simp add: pad_0_iff)
  next
    case False
    note p = pad_step [OF False]
    have c: "unat (c + 1) = unat c + 1"
      using "1.prems" p unat_add_lem [of c 1] by simp
    show ?thesis using "1.IH" False "1.prems" p c by (subst PrvEnsureAligned.simps) simp
  qed
qed

section \<open>The ranges\<close>

definition lo :: "MapRange \<Rightarrow> nat" where "lo r = unat (mappedAddress r)"
definition hi :: "MapRange \<Rightarrow> nat" where "hi r = unat (mappedAddress r) + unat (range_size r)"

fun ranges_from :: "nat \<Rightarrow> MapRange list \<Rightarrow> bool" where
  "ranges_from b [] \<longleftrightarrow> True"
| "ranges_from b (r # rs) \<longleftrightarrow> b \<le> lo r \<and> hi r < 2 ^ 32 \<and> ranges_from (hi r) rs"

fun ranges_end :: "nat \<Rightarrow> MapRange list \<Rightarrow> nat" where
  "ranges_end b [] = b"
| "ranges_end b (r # rs) = ranges_end (hi r) rs"

lemma lo_le_hi: "lo r \<le> hi r"
  by (simp add: lo_def hi_def)

lemma ranges_from_lower: "ranges_from b rs \<Longrightarrow> r \<in> set rs \<Longrightarrow> b \<le> lo r \<and> hi r < 2 ^ 32"
proof (induction rs arbitrary: b)
  case (Cons s rs)
  then show ?case using lo_le_hi [of s] by (cases "r = s") force+
qed simp

lemma ranges_end_ge: "ranges_from b rs \<Longrightarrow> b \<le> ranges_end b rs"
proof (induction rs arbitrary: b)
  case (Cons r rs)
  from Cons.prems have "b \<le> lo r" "ranges_from (hi r) rs" by auto
  then show ?case using Cons.IH [of "hi r"] lo_le_hi [of r] by simp
qed simp

lemma Contains_emu_iff:
  assumes "hi r < 2 ^ 32"
  shows "Contains_emu r a \<longleftrightarrow> lo r \<le> unat a \<and> unat a < hi r"
proof -
  have "unat (mappedAddress r + range_size r) = hi r"
    using assms unfolding hi_def by (intro unat_add_lem [THEN iffD1]) simp
  then show ?thesis by (simp add: Contains_emu_def Let_def word_le_nat_alt word_less_nat_alt lo_def)
qed

lemma Contains_emu_diff:
  assumes "hi r < 2 ^ 32"
  shows "Contains_emu r a \<longleftrightarrow> a - mappedAddress r < range_size r"
proof (cases "mappedAddress r \<le> a")
  case True
  then have "unat (a - mappedAddress r) = unat a - lo r" by (simp add: lo_def unat_sub)
  then show ?thesis using True unfolding Contains_emu_iff [OF assms]
    by (auto simp: word_less_nat_alt word_le_nat_alt lo_def hi_def)
next
  case False
  then have lt: "unat a < lo r" by (simp add: lo_def word_less_nat_alt not_le)
  have "unat (a - mappedAddress r) = 2 ^ 32 + unat a - lo r"
    using False by (simp add: unat_sub_if' lo_def word_le_nat_alt)
  then have "\<not> a - mappedAddress r < range_size r"
    using assms lt by (simp add: word_less_nat_alt hi_def lo_def)
  then show ?thesis using lt unfolding Contains_emu_iff [OF assms] by simp
qed

lemma ranges_unique:
  "ranges_from b rs \<Longrightarrow> r \<in> set rs \<Longrightarrow> r' \<in> set rs \<Longrightarrow> Contains_emu r a \<Longrightarrow> Contains_emu r' a \<Longrightarrow> r = r'"
proof (induction rs arbitrary: b)
  case (Cons s rs)
  have below: "\<not> Contains_emu t a" if "Contains_emu s a" "t \<in> set rs" for t
    using that Cons.prems(1) ranges_from_lower [of "hi s" rs t]
    by (auto simp: Contains_emu_iff)
  show ?case using Cons below by (cases "r = s"; cases "r' = s") auto
qed simp

section \<open>The mapping of addresses\<close>

definition translate :: "MapRange \<Rightarrow> emuptr \<Rightarrow> uint32" where
  "translate r a = realAddress r + (a - mappedAddress r)"

definition mapping :: "MapRange list \<Rightarrow> emuptr \<Rightarrow> uint32 option" where
  "mapping rs a = map_option (\<lambda>r. translate r a) (find (\<lambda>r. Contains_emu r a) rs)"

lemma mapping_None: "mapping rs a = None \<longleftrightarrow> (\<forall>r\<in>set rs. \<not> Contains_emu r a)"
  by (auto simp: mapping_def find_None_iff)

lemma mapping_Some:
  assumes "ranges_from b rs" and "r \<in> set rs" and "Contains_emu r a"
  shows "mapping rs a = Some (translate r a)"
proof -
  obtain r' where f: "find (\<lambda>r. Contains_emu r a) rs = Some r'"
    using assms(2,3) by (cases "find (\<lambda>r. Contains_emu r a) rs") (auto simp: find_None_iff)
  then have "r' \<in> set rs" "Contains_emu r' a" by (auto simp: find_Some_iff)
  then have "r' = r" using ranges_unique [OF assms(1)] assms(2,3) by blast
  with f show ?thesis by (simp add: mapping_def)
qed

definition mapped_ok :: "machine \<Rightarrow> bool" where
  "mapped_ok st \<longleftrightarrow> ranges_from (unat kMappedStart) (gMappedRanges st) \<and> gLastIter st \<le> length (gMappedRanges st)"

lemma first_match_le: "first_match P rs \<le> length rs"
  by (induction rs) auto

lemma first_match_hit: "first_match P rs < length rs \<Longrightarrow> P (rs ! first_match P rs)"
  by (induction rs) (auto split: if_splits)

lemma first_match_miss: "first_match P rs = length rs \<longleftrightarrow> (\<forall>r\<in>set rs. \<not> P r)"
  by (induction rs) auto

text \<open>A lookup finds a range if there is one, and changes nothing but the cache.\<close>

lemma PrvGetMappingInfo_cases:
  assumes "PrvGetMappingInfo P st = (i, st')"
  obtains (hit) "i < length (gMappedRanges st)" and "P (gMappedRanges st ! i)" and "st' = st\<lparr>gLastIter := i\<rparr>"
  | (miss) "i = length (gMappedRanges st)" and "\<forall>r\<in>set (gMappedRanges st). \<not> P r" and "st' = st\<lparr>gLastIter := i\<rparr>"
proof (cases "gLastIter st < length (gMappedRanges st) \<and> P (gMappedRanges st ! gLastIter st)")
  case True
  with assms show thesis by (intro hit) (auto simp: PrvGetMappingInfo_def)
next
  case False
  with assms have i: "i = first_match P (gMappedRanges st)" "st' = st\<lparr>gLastIter := i\<rparr>"
    by (auto simp: PrvGetMappingInfo_def Let_def)
  show thesis
  proof (cases "i < length (gMappedRanges st)")
    case True
    with i show thesis using first_match_hit [of P "gMappedRanges st"] by (intro hit) auto
  next
    case False
    then have "i = length (gMappedRanges st)" using first_match_le [of P "gMappedRanges st"] i by simp
    with i show thesis using first_match_miss [of P "gMappedRanges st"] by (intro miss) auto
  qed
qed

lemma GetRealAddress_eq:
  assumes "mapped_ok st"
  shows "\<exists>i. i \<le> length (gMappedRanges st) \<and> EmBankMapped_GetRealAddress a st =
    ((case mapping (gMappedRanges st) a of None \<Rightarrow> 0 | Some p \<Rightarrow> p), st\<lparr>gLastIter := i\<rparr>)"
proof -
  obtain i st' where g: "PrvGetMappingInfo (\<lambda>r. Contains_emu r a) st = (i, st')" by fastforce
  from g show ?thesis
  proof (cases rule: PrvGetMappingInfo_cases)
    case hit
    then have "mapping (gMappedRanges st) a = Some (translate (gMappedRanges st ! i) a)"
      using assms by (intro mapping_Some) (auto simp: mapped_ok_def)
    then show ?thesis using g hit
      by (intro exI [of _ i]) (simp add: EmBankMapped_GetRealAddress_def translate_def)
  next
    case miss
    then have "mapping (gMappedRanges st) a = None" by (simp add: mapping_None)
    then show ?thesis using g miss by (intro exI [of _ i]) (simp add: EmBankMapped_GetRealAddress_def)
  qed
qed

section \<open>Mapping and unmapping\<close>

definition new_range :: "uint32 \<Rightarrow> uint32 \<Rightarrow> emuptr \<Rightarrow> MapRange" where
  "new_range addr sz c = \<lparr>realAddress = addr, mappedAddress = c, range_size = sz\<rparr>"

text \<open>Enough room: the range fits behind all others, with the padding, below the end of the address space.\<close>

definition fits :: "uint32 \<Rightarrow> nat \<Rightarrow> MapRange list \<Rightarrow> bool" where
  "fits sz b rs \<longleftrightarrow> ranges_end b rs + 3 + unat sz < 2 ^ 32"

lemma unat_add_small: "unat a + unat b < 2 ^ 32 \<Longrightarrow> unat (a + b :: uint32) = unat a + unat b"
  using unat_add_lem [of a b] by simp

lemma next_candidate:
  assumes "hi r + 3 < 2 ^ 32"
  shows "hi r \<le> unat (PrvEnsureAligned (mappedAddress r + range_size r) addr)"
    and "unat (PrvEnsureAligned (mappedAddress r + range_size r) addr) \<le> hi r + 3"
proof -
  have h: "unat (mappedAddress r + range_size r) = hi r"
    using assms unfolding hi_def by (intro unat_add_small) simp
  have "unat (PrvEnsureAligned (mappedAddress r + range_size r) addr) =
      hi r + pad (mappedAddress r + range_size r) addr"
    using assms pad_le [of "mappedAddress r + range_size r" addr] h by (subst PrvEnsureAligned_eq) auto
  then show "hi r \<le> unat (PrvEnsureAligned (mappedAddress r + range_size r) addr)"
    and "unat (PrvEnsureAligned (mappedAddress r + range_size r) addr) \<le> hi r + 3"
    using pad_le [of "mappedAddress r + range_size r" addr] by auto
qed

lemma map_insert_ok:
  assumes "ranges_from b rs" and "b \<le> unat c" and "unat c \<le> b + 3" and "fits sz b rs" and "c AND 3 = addr AND 3"
  shows "\<exists>m i. i \<le> length rs \<and> map_insert addr sz c rs = (take i rs @ new_range addr sz m # drop i rs, i) \<and>
    m AND 3 = addr AND 3 \<and> ranges_from b (take i rs @ new_range addr sz m # drop i rs)"
  using assms
proof (induction rs arbitrary: b c)
  case Nil
  then show ?case
    by (intro exI [of _ c]) (simp add: new_range_def lo_def hi_def fits_def)
next
  case (Cons r rs)
  have r: "b \<le> lo r" "hi r < 2 ^ 32" "ranges_from (hi r) rs" using Cons.prems(1) by auto
  have room: "fits sz (hi r) rs" and e: "hi r + 3 + unat sz < 2 ^ 32"
    using Cons.prems(4) ranges_end_ge [OF r(3)] by (auto simp: fits_def)
  show ?case
  proof (cases "mappedAddress r \<ge> c + sz")
    case True
    have "unat c + unat sz < 2 ^ 32" using Cons.prems(3) r(1) e lo_le_hi [of r] by linarith
    then have "unat (c + sz) = unat c + unat sz" by (rule unat_add_small)
    then have "unat c + unat sz \<le> lo r" using True by (simp add: word_le_nat_alt lo_def)
    then have "ranges_from b (new_range addr sz c # r # rs)"
      using Cons.prems(2) r by (simp add: new_range_def lo_def hi_def)
    then show ?thesis using True Cons.prems(5)
      by (intro exI [of _ c] exI [of _ 0]) (simp add: new_range_def)
  next
    case False
    let ?c = "PrvEnsureAligned (mappedAddress r + range_size r) addr"
    have c: "hi r \<le> unat ?c" "unat ?c \<le> hi r + 3" using e by (intro next_candidate; linarith)+
    obtain m i where mi: "i \<le> length rs" "map_insert addr sz ?c rs = (take i rs @ new_range addr sz m # drop i rs, i)"
      "m AND 3 = addr AND 3" "ranges_from (hi r) (take i rs @ new_range addr sz m # drop i rs)"
      using Cons.IH [OF r(3) c room PrvEnsureAligned_aligned] by blast
    show ?thesis using False mi r
      by (intro exI [of _ m] exI [of _ "Suc i"]) simp
  qed
qed

lemma MapPhysicalMemory_ok:
  assumes "mapped_ok st" and "addr \<noteq> 0" and "fits sz (unat kMappedStart) (gMappedRanges st)"
  obtains m i where "i \<le> length (gMappedRanges st)" and "m AND 3 = addr AND 3"
    and "EmBankMapped_MapPhysicalMemory addr sz st = st\<lparr>gMappedRanges :=
      take i (gMappedRanges st) @ new_range addr sz m # drop i (gMappedRanges st), gLastIter := i\<rparr>"
    and "ranges_from (unat kMappedStart) (take i (gMappedRanges st) @ new_range addr sz m # drop i (gMappedRanges st))"
proof -
  let ?c = "PrvEnsureAligned kMappedStart addr"
  have "unat ?c = unat kMappedStart + pad kMappedStart addr"
    using pad_le [of kMappedStart addr] by (intro PrvEnsureAligned_eq) (simp add: kMappedStart_def)
  then have "unat kMappedStart \<le> unat ?c" "unat ?c \<le> unat kMappedStart + 3"
    using pad_le [of kMappedStart addr] by auto
  then show thesis
    using map_insert_ok [OF _ _ _ assms(3) PrvEnsureAligned_aligned, of kMappedStart addr] assms(1,2) that
    by (auto simp: mapped_ok_def EmBankMapped_MapPhysicalMemory_def)
qed

lemma set_insert_at: "i \<le> length rs \<Longrightarrow> set (take i rs @ x # drop i rs) = insert x (set rs)"
  by (metis append_take_drop_id set_append set_simps(2) Un_insert_right)

lemma mapping_insert:
  assumes "ranges_from b rs" and "ranges_from b rs'" and "set rs' = insert (new_range addr sz m) (set rs)"
  shows "mapping rs' a = (if a - m < sz then Some (addr + (a - m)) else mapping rs a)"
proof -
  have hi: "hi (new_range addr sz m) < 2 ^ 32" using ranges_from_lower [OF assms(2)] assms(3) by blast
  have new: "Contains_emu (new_range addr sz m) a \<longleftrightarrow> a - m < sz"
    using Contains_emu_diff [OF hi] by (simp add: new_range_def)
  show ?thesis
  proof (cases "a - m < sz")
    case True
    then have "mapping rs' a = Some (translate (new_range addr sz m) a)"
      using new assms(3) by (intro mapping_Some [OF assms(2)]) auto
    then show ?thesis using True by (simp add: translate_def new_range_def)
  next
    case False
    show ?thesis
    proof (cases "mapping rs a")
      case None
      then have "mapping rs' a = None" using False new assms(3) by (simp add: mapping_None)
      with None False show ?thesis by simp
    next
      case (Some p)
      then obtain r where r: "r \<in> set rs" "Contains_emu r a" using mapping_None [of rs a] by auto
      then show ?thesis using mapping_Some [OF assms(1) r] mapping_Some [OF assms(2) _ r(2)] False assms(3) by simp
    qed
  qed
qed

lemma Unmap_inserted:
  assumes "addr \<noteq> 0" and "0 < sz" and "unat addr + unat sz < 2 ^ 32" and "i \<le> length rs"
  shows "EmBankMapped_UnmapPhysicalMemory addr
      (st\<lparr>gMappedRanges := take i rs @ new_range addr sz m # drop i rs, gLastIter := i\<rparr>) =
    st\<lparr>gMappedRanges := rs, gLastIter := length rs\<rparr>"
proof -
  have "unat (addr + sz) = unat addr + unat sz" using assms(3) by (rule unat_add_small)
  then have "Contains_real (new_range addr sz m) addr"
    using assms(2) by (simp add: Contains_real_def new_range_def Let_def word_less_nat_alt)
  then show ?thesis using assms(1,4)
    by (simp add: EmBankMapped_UnmapPhysicalMemory_def PrvGetMappingInfo_def PrvInvalidateCache_def
        nth_append min_def)
qed

section \<open>Accesses\<close>

lemma from_be_long:
  "from_be [ucast (drop_bit 24 v), ucast (drop_bit 16 v), ucast (drop_bit 8 v), ucast v] 0 = (v :: uint32)"
proof (rule bit_word_eqI)
  fix n
  assume "n < LENGTH(32)"
  then consider "n < 8" | "8 \<le> n" "n < 16" | "16 \<le> n" "n < 24" | "24 \<le> n" "n < 32" by fastforce
  then show "bit (from_be [ucast (drop_bit 24 v), ucast (drop_bit 16 v), ucast (drop_bit 8 v), ucast v] 0) n = bit v n"
    by cases (auto simp: bit_simps dest: bit_imp_le_length)
qed

lemma add_small_neq: "p + 1 \<noteq> (p :: uint32)" "p + 2 \<noteq> p" "p + 3 \<noteq> p" "p + 1 \<noteq> p + (2 :: uint32)"
  "p + 1 \<noteq> p + (3 :: uint32)" "p + 2 \<noteq> p + (3 :: uint32)"
  by simp_all

lemma set_get_4:
  assumes "h p \<noteq> None" "h (p + 1) \<noteq> None" "h (p + 2) \<noteq> None" "h (p + 3) \<noteq> None"
  shows "set_host_bytes h p [a, b, c, d] = Some (h(p \<mapsto> a, p + 1 \<mapsto> b, p + 2 \<mapsto> c, p + 3 \<mapsto> d))"
    and "host_bytes (h(p \<mapsto> a, p + 1 \<mapsto> b, p + 2 \<mapsto> c, p + 3 \<mapsto> d)) p 4 = Some [a, b, c, d]"
proof -
  have e: "p + 1 + 1 = p + 2" "p + 2 + 1 = p + 3" by simp_all
  note neq = add_small_neq add_small_neq [symmetric]
  show "set_host_bytes h p [a, b, c, d] = Some (h(p \<mapsto> a, p + 1 \<mapsto> b, p + 2 \<mapsto> c, p + 3 \<mapsto> d))"
    by (simp only: set_host_bytes.simps e fun_upd_apply neq assms if_False)
  have "4 = Suc (Suc (Suc (Suc 0)))" by simp
  then show "host_bytes (h(p \<mapsto> a, p + 1 \<mapsto> b, p + 2 \<mapsto> c, p + 3 \<mapsto> d)) p 4 = Some [a, b, c, d]"
    by (simp only: host_bytes.simps e fun_upd_apply neq if_False) simp
qed

lemma gMappedRanges_lookup:
  assumes "mapped_ok st" and "EmBankMapped_GetRealAddress a st = (p, st')"
  shows "\<exists>i. st' = st\<lparr>gLastIter := i\<rparr> \<and> mapped_ok st'"
    and "mapped_ok (st'\<lparr>host_space := h\<rparr>)"
    and "fst (EmBankMapped_GetRealAddress a (st'\<lparr>host_space := h\<rparr>)) = p"
proof -
  obtain i where i: "i \<le> length (gMappedRanges st)" "st' = st\<lparr>gLastIter := i\<rparr>"
    "p = (case mapping (gMappedRanges st) a of None \<Rightarrow> 0 | Some p \<Rightarrow> p)"
    using GetRealAddress_eq [OF assms(1), of a] assms(2) by auto
  show "\<exists>i. st' = st\<lparr>gLastIter := i\<rparr> \<and> mapped_ok st'" using i assms(1) by (auto simp: mapped_ok_def)
  show ok: "mapped_ok (st'\<lparr>host_space := h\<rparr>)" using i assms(1) by (simp add: mapped_ok_def)
  show "fst (EmBankMapped_GetRealAddress a (st'\<lparr>host_space := h\<rparr>)) = p"
    using GetRealAddress_eq [OF ok, of a] i by auto
qed

section \<open>Properties\<close>


text \<open>A machine with one range.\<close>

definition one_mapped :: machine where
  "one_mapped = EmBankMapped_MapPhysicalMemory 0x08000001 16 blank_machine"

lemma one_mapped_eq: "one_mapped = blank_machine\<lparr>gMappedRanges :=
    [\<lparr>realAddress = 0x08000001, mappedAddress = 0x13000001, range_size = 16\<rparr>], gLastIter := 0\<rparr>"
  by (simp add: one_mapped_def EmBankMapped_MapPhysicalMemory_def blank_machine_def kMappedStart_def
      PrvEnsureAligned.simps)

lemma one_mapped_ok: "mapped_ok one_mapped"
  by (simp add: one_mapped_eq mapped_ok_def kMappedStart_def lo_def hi_def blank_machine_def)




text \<open>
  C16: emulated code and host share mapped memory: a long word that is stored through the bank
  puts its four bytes, most significant first, into the memory of the host, at the translated
  address, and is read back unchanged.
\<close>

theorem mapped_long_reaches_host:
  assumes "mapped_ok st" and "\<not> odd_address address"
    and "fst (EmBankMapped_GetRealAddress address st) = p" and "p \<noteq> 0"
    and "host_space st p \<noteq> None" "host_space st (p + 1) \<noteq> None" "host_space st (p + 2) \<noteq> None"
      "host_space st (p + 3) \<noteq> None"
  shows "\<exists>st'. EmBankMapped_SetLong address v st = (Inr (), st') \<and>
    host_space st' = (host_space st)(p \<mapsto> ucast (drop_bit 24 v), p + 1 \<mapsto> ucast (drop_bit 16 v),
      p + 2 \<mapsto> ucast (drop_bit 8 v), p + 3 \<mapsto> ucast v) \<and>
    fst (EmBankMapped_GetLong address st') = Inr v"
proof -
  obtain s where s: "EmBankMapped_GetRealAddress address st = (p, s)" using assms(3) by (metis prod.collapse)
  note l = gMappedRanges_lookup [OF assms(1) s]
  obtain i where i: "s = st\<lparr>gLastIter := i\<rparr>" using l(1) by blast
  define h where "h = (host_space st)(p \<mapsto> ucast (drop_bit 24 v), p + 1 \<mapsto> ucast (drop_bit 16 v),
      p + 2 \<mapsto> ucast (drop_bit 8 v), p + 3 \<mapsto> ucast v)"
  have set: "EmBankMapped_SetLong address v st = (Inr (), s\<lparr>host_space := h\<rparr>)"
    using assms(2,4) s i set_get_4(1) [OF assms(5-8)]
    by (simp add: EmBankMapped_SetLong_def EmBankMapped_Set_def h_def del: set_host_bytes.simps)
  obtain s2 where s2: "EmBankMapped_GetRealAddress address (s\<lparr>host_space := h\<rparr>) = (p, s2)"
    using l(3) [of h] by (metis prod.collapse)
  have "host_space s2 = h" using gMappedRanges_lookup(1) [OF l(2) s2] by auto
  then have "fst (EmBankMapped_GetLong address (s\<lparr>host_space := h\<rparr>)) = Inr v"
    using assms(2,4) s2 set_get_4(2) [OF assms(5-8)] from_be_long [of v]
    by (simp add: EmBankMapped_GetLong_def EmBankMapped_Get_def h_def del: host_bytes.simps)
  with set show ?thesis unfolding h_def by (intro exI conjI) simp_all
qed

definition host_page :: machine where
  "host_page = one_mapped\<lparr>host_space := (\<lambda>p. if 0x08000000 \<le> p \<and> p < 0x08000020 then Some 0 else None)\<rparr>"

lemma mapped_long_reaches_host_witness:
  "\<exists>st'. EmBankMapped_SetLong 0x13000004 0x12345678 host_page = (Inr (), st') \<and>
    host_space st' = (host_space host_page)(0x08000004 \<mapsto> ucast (drop_bit 24 (0x12345678 :: uint32)),
      0x08000004 + 1 \<mapsto> ucast (drop_bit 16 (0x12345678 :: uint32)),
      0x08000004 + 2 \<mapsto> ucast (drop_bit 8 (0x12345678 :: uint32)), 0x08000004 + 3 \<mapsto> ucast (0x12345678 :: uint32)) \<and>
    fst (EmBankMapped_GetLong 0x13000004 st') = Inr 0x12345678"
proof (rule mapped_long_reaches_host)
  show "mapped_ok host_page" using one_mapped_ok by (simp add: host_page_def mapped_ok_def)
qed (simp_all add: host_page_def one_mapped_eq odd_address_def EmBankMapped_GetRealAddress_def
    PrvGetMappingInfo_def Contains_emu_def)

end
