(* ===== verification/Dispatch.thy ===== *)
theory Dispatch
  imports MappedProps
begin

text \<open>
  The memory system as a whole: the flash part of \<open>Hardware/EmBankROM.cpp\<close>, the dispatch of
  accesses on the bank an address belongs to (\<open>Hardware/EmMemory.h\<close>), and the assignment of
  banks to addresses with the life cycle of all banks (class \<open>Memory\<close> of
  \<open>Hardware/EmMemory.cpp\<close>).

  The registers of the processors and devices (\<open>EmBankRegs\<close> and the \<open>EmRegs\<close> classes) are a
  parameter, the record \<open>platform\<close>, with the addresses of the host's buffers for RAM and ROM.
\<close>

section \<open>Full access\<close>

text \<open>
  The life of a \<open>CEnableFullAccess\<close> object: it is constructed, the rest of the block runs, and
  it is destructed, also when the block is left by an exception.
\<close>

definition CEnableFullAccess_ctor :: "machine \<Rightarrow> MemAccessFlags \<times> machine" where
  "CEnableFullAccess_ctor st =
     (gMemAccessFlags st, st\<lparr>gMemAccessFlags := kZeroMemAccessFlags, fgAccessCount := fgAccessCount st + 1\<rparr>)"

definition CEnableFullAccess_dtor :: "MemAccessFlags \<Rightarrow> machine \<Rightarrow> machine" where
  "CEnableFullAccess_dtor old st = st\<lparr>gMemAccessFlags := old, fgAccessCount := fgAccessCount st - 1\<rparr>"

definition CEnableFullAccess_AccessOK :: "machine \<Rightarrow> bool" where
  "CEnableFullAccess_AccessOK st \<longleftrightarrow> fgAccessCount st > 0"

definition with_full_access :: "(machine \<Rightarrow> 'a outcome) \<Rightarrow> machine \<Rightarrow> 'a outcome" where
  "with_full_access f st =
     (let (old, st1) = CEnableFullAccess_ctor st; (r, st2) = f st1 in (r, CEnableFullAccess_dtor old st2))"

text \<open>Run one part, and the next one if it returns.\<close>

definition andthen :: "'a outcome \<Rightarrow> ('a \<Rightarrow> machine \<Rightarrow> 'b outcome) \<Rightarrow> 'b outcome" where
  "andthen o1 k = (case o1 of (Inl e, st) \<Rightarrow> (Inl e, st) | (Inr x, st) \<Rightarrow> k x st)"

lemma andthen_simps [simp]: "andthen (Inl e, st) k = (Inl e, st)" "andthen (Inr x, st) k = k x st"
  by (simp_all add: andthen_def)

record platform =
  regs_get :: "nat \<Rightarrow> emuptr \<Rightarrow> machine \<Rightarrow> uint32 outcome"
  regs_put :: "nat \<Rightarrow> emuptr \<Rightarrow> uint32 \<Rightarrow> machine \<Rightarrow> unit outcome"
  regs_real :: "emuptr \<Rightarrow> machine \<Rightarrow> uint32"
  ram_base :: uint32
  rom_base :: uint32
  regs_Initialize :: "machine \<Rightarrow> machine"
  regs_Reset :: "bool \<Rightarrow> machine \<Rightarrow> machine"
  regs_Save :: "SessionFile \<Rightarrow> machine \<Rightarrow> SessionFile \<times> machine"
  regs_Load :: "SessionFile \<Rightarrow> machine \<Rightarrow> SessionFile outcome"
  regs_Dispose :: "machine \<Rightarrow> machine"
  regs_SetBankHandlers :: "machine \<Rightarrow> machine"
  HardwareID :: uint32

section \<open>Flash\<close>

definition EmBankFlash_GetLong :: "emuptr \<Rightarrow> machine \<Rightarrow> uint32 outcome" where
  "EmBankFlash_GetLong address st = EmBankROM_GetLong address st"
definition EmBankFlash_GetByte :: "emuptr \<Rightarrow> machine \<Rightarrow> uint32 outcome" where
  "EmBankFlash_GetByte address st = EmBankROM_GetByte address st"
definition EmBankFlash_SetLong :: "emuptr \<Rightarrow> uint32 \<Rightarrow> machine \<Rightarrow> unit outcome" where
  "EmBankFlash_SetLong address val st = EmBankROM_SetLong address val st"
definition EmBankFlash_SetByte :: "emuptr \<Rightarrow> uint32 \<Rightarrow> machine \<Rightarrow> unit outcome" where
  "EmBankFlash_SetByte address val st = EmBankROM_SetByte address val st"

definition EmBankFlash_GetWord :: "emuptr \<Rightarrow> machine \<Rightarrow> uint32 outcome" where
  "EmBankFlash_GetWord address st =
     (case gState st of
        kAMDState_Autoselect \<Rightarrow>
          if address = gROMMemoryStart st then (Inr 0x0001, st)
          else if address = gROMMemoryStart st + 2 then (Inr 0x0049, st)
          else EmBankROM_GetWord address st
      | kAMDState_EraseDone \<Rightarrow> (Inr 0x0080, st\<lparr>gState := kAMDState_Normal\<rparr>)
      | kAMDState_ProgramDone \<Rightarrow>
          andthen (EmBankROM_GetWord address (st\<lparr>gState := kAMDState_Normal\<rparr>)) (\<lambda>w st. (Inr (0x0080 AND w), st))
      | _ \<Rightarrow> EmBankROM_GetWord address st)"

definition EmBankFlash_Reset :: "bool \<Rightarrow> machine \<Rightarrow> machine" where
  "EmBankFlash_Reset hardwareReset st = (if hardwareReset then st\<lparr>gState := kAMDState_Normal\<rparr> else st)"

definition EmBankFlash_ValidAddress :: "emuptr \<Rightarrow> uint32 \<Rightarrow> machine \<Rightarrow> bool" where
  "EmBankFlash_ValidAddress address sz st \<longleftrightarrow> EmBankROM_ValidAddress address sz st"
definition EmBankFlash_GetRealAddress :: "emuptr \<Rightarrow> machine \<Rightarrow> nat" where
  "EmBankFlash_GetRealAddress address st = unat (address AND gROMBank_Mask st)"
definition EmBankFlash_GetMetaAddress :: "emuptr \<Rightarrow> machine \<Rightarrow> nat" where
  "EmBankFlash_GetMetaAddress address st = unat (address AND gROMBank_Mask st)"

section \<open>Dispatch\<close>

text \<open>The stores of a bank, by size.\<close>

definition bank_lput :: "platform \<Rightarrow> EmAddressBank \<Rightarrow> emuptr \<Rightarrow> uint32 \<Rightarrow> machine \<Rightarrow> unit outcome" where
  "bank_lput pf b = (case b of bankDummy \<Rightarrow> EmBankDummy_SetLong | bankRegs \<Rightarrow> regs_put pf 4
     | bankSRAM \<Rightarrow> EmBankSRAM_SetLong | bankDRAM \<Rightarrow> EmBankDRAM_SetLong | bankROM \<Rightarrow> EmBankROM_SetLong
     | bankMapped \<Rightarrow> EmBankMapped_SetLong | bankFlash \<Rightarrow> EmBankFlash_SetLong)"

definition bank_bput :: "platform \<Rightarrow> EmAddressBank \<Rightarrow> emuptr \<Rightarrow> uint32 \<Rightarrow> machine \<Rightarrow> unit outcome" where
  "bank_bput pf b = (case b of bankDummy \<Rightarrow> EmBankDummy_SetByte | bankRegs \<Rightarrow> regs_put pf 1
     | bankSRAM \<Rightarrow> EmBankSRAM_SetByte | bankDRAM \<Rightarrow> EmBankDRAM_SetByte | bankROM \<Rightarrow> EmBankROM_SetByte
     | bankMapped \<Rightarrow> EmBankMapped_SetByte | bankFlash \<Rightarrow> EmBankFlash_SetByte)"

text \<open>
  \<open>EmMem_memset\<close>: bytes up to the first multiple of four, long words, and the bytes that are
  left; all of them through the bank of the first address.
\<close>

fun memset_leading :: "(emuptr \<Rightarrow> uint32 \<Rightarrow> machine \<Rightarrow> unit outcome) \<Rightarrow> uint32 \<Rightarrow> emuptr \<Rightarrow> nat \<Rightarrow> machine \<Rightarrow>
    (emuptr \<times> nat) outcome" where
  "memset_leading put val q 0 st = (Inr (q, 0), st)"
| "memset_leading put val q (Suc len) st =
     (if q AND 3 \<noteq> 0 then andthen (put q val st) (\<lambda>_ st. memset_leading put val (q + 1) len st)
      else (Inr (q, Suc len), st))"

fun memset_longs :: "(emuptr \<Rightarrow> uint32 \<Rightarrow> machine \<Rightarrow> unit outcome) \<Rightarrow> uint32 \<Rightarrow> emuptr \<Rightarrow> nat \<Rightarrow> machine \<Rightarrow>
    (emuptr \<times> nat) outcome" where
  "memset_longs put longVal q (Suc (Suc (Suc (Suc len)))) st =
     andthen (put q longVal st) (\<lambda>_ st. memset_longs put longVal (q + 4) len st)"
| "memset_longs put longVal q len st = (Inr (q, len), st)"

fun memset_trailing :: "(emuptr \<Rightarrow> uint32 \<Rightarrow> machine \<Rightarrow> unit outcome) \<Rightarrow> uint32 \<Rightarrow> emuptr \<Rightarrow> nat \<Rightarrow> machine \<Rightarrow>
    unit outcome" where
  "memset_trailing put val q 0 st = (Inr (), st)"
| "memset_trailing put val q (Suc len) st =
     andthen (put q val st) (\<lambda>_ st. memset_trailing put val (q + 1) len st)"

definition long_value :: "uint32 \<Rightarrow> uint32" where
  "long_value val = (let longVal = val OR push_bit 8 val in longVal OR push_bit 16 longVal)"

definition EmMem_memset :: "platform \<Rightarrow> emuptr \<Rightarrow> uint32 \<Rightarrow> uint32 \<Rightarrow> machine \<Rightarrow> unit outcome" where
  "EmMem_memset pf dst val len st =
     (case gEmMemBanks st (EmMemBankIndex dst) of
        None \<Rightarrow> fail HostFault st
      | Some b \<Rightarrow>
          andthen (memset_leading (bank_bput pf b) val dst (unat len) st) (\<lambda>(q, len) st.
          andthen (memset_longs (bank_lput pf b) (long_value val) q len st) (\<lambda>(q, len) st.
          memset_trailing (bank_bput pf b) val q len st)))"

text \<open>Erasing a sector, if the address is the start of one of the four the part has.\<close>

definition sectors :: "(emuptr \<times> uint32) list" where
  "sectors = [(0x10C00000, 0x00004000), (0x10C04000, 0x00002000), (0x10C06000, 0x00002000),
     (0x10C08000, 0x00008000)]"

definition erase_sector :: "platform \<Rightarrow> emuptr \<Rightarrow> machine \<Rightarrow> unit outcome" where
  "erase_sector pf address st =
     (case map_of sectors address of
        Some sz \<Rightarrow> EmMem_memset pf address 0xFF sz st
      | None \<Rightarrow> (Inr (), st))"

definition EmBankFlash_SetWord :: "platform \<Rightarrow> emuptr \<Rightarrow> uint32 \<Rightarrow> machine \<Rightarrow> unit outcome" where
  "EmBankFlash_SetWord pf address val st =
     (case gState st of
        kAMDState_Normal \<Rightarrow>
          if address = gROMMemoryStart st + 0xAAAA \<and> val = 0x00AA
          then (Inr (), st\<lparr>gState := kAMDState_Unlocked1\<rparr>)
          else if address = gROMMemoryStart st \<and> (val = 0x00FF \<or> val = 0x00F0 \<or> val = 0x0090)
          then (Inr (), st)
          else EmBankROM_SetWord address val st
      | kAMDState_Unlocked1 \<Rightarrow>
          if val = 0x00F0 then (Inr (), st\<lparr>gState := kAMDState_Normal\<rparr>)
          else if address = gROMMemoryStart st + 0x5554 \<and> val = 0x0055
          then (Inr (), st\<lparr>gState := kAMDState_Unlocked2\<rparr>)
          else EmBankROM_SetWord address val st
      | kAMDState_Unlocked2 \<Rightarrow>
          if val = 0x00F0 then (Inr (), st\<lparr>gState := kAMDState_Normal\<rparr>)
          else if val = 0x0030 \<and> gEraseIsSetup st
          then with_full_access (\<lambda>st.
                 andthen (erase_sector pf address st) (\<lambda>_ st. (Inr (), st\<lparr>gState := kAMDState_EraseDone\<rparr>))) st
          else if address = gROMMemoryStart st + 0xAAAA \<and> val = 0x0090
          then (Inr (), st\<lparr>gState := kAMDState_Autoselect\<rparr>)
          else if address = gROMMemoryStart st + 0xAAAA \<and> val = 0x0080
          then (Inr (), st\<lparr>gEraseIsSetup := True, gState := kAMDState_Normal\<rparr>)
          else if address = gROMMemoryStart st + 0xAAAA \<and> val = 0x00A0
          then (Inr (), st\<lparr>gState := kAMDState_Program\<rparr>)
          else EmBankROM_SetWord address val st
      | kAMDState_Autoselect \<Rightarrow>
          if val = 0x00F0 then (Inr (), st\<lparr>gState := kAMDState_Normal\<rparr>)
          else EmBankROM_SetWord address val st
      | kAMDState_Program \<Rightarrow>
          host (EmMemDoPut16 (gROM_Memory st) (unat (address AND gROMBank_Mask st)) (ucast val))
            (\<lambda>m st. (Inr (), st\<lparr>gROM_Memory := m, gState := kAMDState_ProgramDone\<rparr>)) st
      | kAMDState_EraseDone \<Rightarrow> (Inr (), st)
      | kAMDState_ProgramDone \<Rightarrow> (Inr (), st))"

definition bank_wput :: "platform \<Rightarrow> EmAddressBank \<Rightarrow> emuptr \<Rightarrow> uint32 \<Rightarrow> machine \<Rightarrow> unit outcome" where
  "bank_wput pf b = (case b of bankDummy \<Rightarrow> EmBankDummy_SetWord | bankRegs \<Rightarrow> regs_put pf 2
     | bankSRAM \<Rightarrow> EmBankSRAM_SetWord | bankDRAM \<Rightarrow> EmBankDRAM_SetWord | bankROM \<Rightarrow> EmBankROM_SetWord
     | bankMapped \<Rightarrow> EmBankMapped_SetWord | bankFlash \<Rightarrow> EmBankFlash_SetWord pf)"

definition bank_lget :: "platform \<Rightarrow> EmAddressBank \<Rightarrow> emuptr \<Rightarrow> machine \<Rightarrow> uint32 outcome" where
  "bank_lget pf b = (case b of bankDummy \<Rightarrow> EmBankDummy_GetLong | bankRegs \<Rightarrow> regs_get pf 4
     | bankSRAM \<Rightarrow> EmBankSRAM_GetLong | bankDRAM \<Rightarrow> EmBankDRAM_GetLong | bankROM \<Rightarrow> EmBankROM_GetLong
     | bankMapped \<Rightarrow> EmBankMapped_GetLong | bankFlash \<Rightarrow> EmBankFlash_GetLong)"

definition bank_wget :: "platform \<Rightarrow> EmAddressBank \<Rightarrow> emuptr \<Rightarrow> machine \<Rightarrow> uint32 outcome" where
  "bank_wget pf b = (case b of bankDummy \<Rightarrow> EmBankDummy_GetWord | bankRegs \<Rightarrow> regs_get pf 2
     | bankSRAM \<Rightarrow> EmBankSRAM_GetWord | bankDRAM \<Rightarrow> EmBankDRAM_GetWord | bankROM \<Rightarrow> EmBankROM_GetWord
     | bankMapped \<Rightarrow> EmBankMapped_GetWord | bankFlash \<Rightarrow> EmBankFlash_GetWord)"

definition bank_bget :: "platform \<Rightarrow> EmAddressBank \<Rightarrow> emuptr \<Rightarrow> machine \<Rightarrow> uint32 outcome" where
  "bank_bget pf b = (case b of bankDummy \<Rightarrow> EmBankDummy_GetByte | bankRegs \<Rightarrow> regs_get pf 1
     | bankSRAM \<Rightarrow> EmBankSRAM_GetByte | bankDRAM \<Rightarrow> EmBankDRAM_GetByte | bankROM \<Rightarrow> EmBankROM_GetByte
     | bankMapped \<Rightarrow> EmBankMapped_GetByte | bankFlash \<Rightarrow> EmBankFlash_GetByte)"

text \<open>A bank whose entry in the table is not set is a null pointer.\<close>

definition on_bank :: "emuptr \<Rightarrow> (EmAddressBank \<Rightarrow> machine \<Rightarrow> 'a outcome) \<Rightarrow> machine \<Rightarrow> 'a outcome" where
  "on_bank addr f st = (case gEmMemBanks st (EmMemBankIndex addr) of None \<Rightarrow> fail HostFault st | Some b \<Rightarrow> f b st)"

definition EmMemGet32 :: "platform \<Rightarrow> emuptr \<Rightarrow> machine \<Rightarrow> uint32 outcome" where
  "EmMemGet32 pf addr = on_bank addr (\<lambda>b. bank_lget pf b addr)"
definition EmMemGet16 :: "platform \<Rightarrow> emuptr \<Rightarrow> machine \<Rightarrow> uint32 outcome" where
  "EmMemGet16 pf addr = on_bank addr (\<lambda>b. bank_wget pf b addr)"
definition EmMemGet8 :: "platform \<Rightarrow> emuptr \<Rightarrow> machine \<Rightarrow> uint32 outcome" where
  "EmMemGet8 pf addr = on_bank addr (\<lambda>b. bank_bget pf b addr)"
definition EmMemPut32 :: "platform \<Rightarrow> emuptr \<Rightarrow> uint32 \<Rightarrow> machine \<Rightarrow> unit outcome" where
  "EmMemPut32 pf addr l = on_bank addr (\<lambda>b. bank_lput pf b addr l)"
definition EmMemPut16 :: "platform \<Rightarrow> emuptr \<Rightarrow> uint32 \<Rightarrow> machine \<Rightarrow> unit outcome" where
  "EmMemPut16 pf addr w = on_bank addr (\<lambda>b. bank_wput pf b addr w)"
definition EmMemPut8 :: "platform \<Rightarrow> emuptr \<Rightarrow> uint32 \<Rightarrow> machine \<Rightarrow> unit outcome" where
  "EmMemPut8 pf addr v = on_bank addr (\<lambda>b. bank_bput pf b addr v)"

text \<open>Addresses of the host. The dummy bank hands the address back.\<close>

definition EmMemGetRealAddress :: "platform \<Rightarrow> emuptr \<Rightarrow> machine \<Rightarrow> uint32 outcome" where
  "EmMemGetRealAddress pf addr = on_bank addr (\<lambda>b st. case b of
       bankDummy \<Rightarrow> (Inr addr, st)
     | bankRegs \<Rightarrow> (Inr (regs_real pf addr st), st)
     | bankSRAM \<Rightarrow> (Inr (ram_base pf + of_nat (EmBankSRAM_GetRealAddress addr st)), st)
     | bankDRAM \<Rightarrow> (Inr (ram_base pf + of_nat (EmBankDRAM_GetRealAddress addr)), st)
     | bankROM \<Rightarrow> (Inr (rom_base pf + of_nat (EmBankROM_GetRealAddress addr st)), st)
     | bankFlash \<Rightarrow> (Inr (rom_base pf + of_nat (EmBankFlash_GetRealAddress addr st)), st)
     | bankMapped \<Rightarrow> (let (p, st) = EmBankMapped_GetRealAddress addr st in (Inr p, st)))"

section \<open>Banks and addresses\<close>

text \<open>
  The table has 65536 entries; writing beyond it is outside of the array. The bounds are
  signed numbers of 32 bits.
\<close>

definition InitializeBanks :: "EmAddressBank \<Rightarrow> uint32 \<Rightarrow> uint32 \<Rightarrow> machine \<Rightarrow> unit outcome" where
  "InitializeBanks b iStartingBankIndex iNumberOfBanks st =
     (let s = sint iStartingBankIndex; e = sint (iStartingBankIndex + iNumberOfBanks)
      in if s < e \<and> (s < 0 \<or> e > 65536) then fail HostFault st
         else (Inr (), st\<lparr>gEmMemBanks := (\<lambda>i. if s \<le> int i \<and> int i < e then Some b else gEmMemBanks st i)\<rparr>))"

definition bank_index :: "emuptr \<Rightarrow> uint32" where
  "bank_index addr = drop_bit 16 addr"

definition EmBankDummy_SetBankHandlers :: "machine \<Rightarrow> unit outcome" where
  "EmBankDummy_SetBankHandlers = InitializeBanks bankDummy 0 0xFFFF"

definition EmBankSRAM_SetBankHandlers :: "machine \<Rightarrow> unit outcome" where
  "EmBankSRAM_SetBankHandlers st =
     (let numBanks = bank_index (gMemoryStart st + gRAMBank_Size st - 1) - bank_index (gMemoryStart st) + 1
      in InitializeBanks bankSRAM (bank_index (gMemoryStart st)) numBanks st)"

definition EmBankDRAM_SetBankHandlers :: "machine \<Rightarrow> unit outcome" where
  "EmBankDRAM_SetBankHandlers st =
     (let st = st\<lparr>gDynamicHeapSize := GetDynamicHeapSize st\<rparr>;
          st = (if gDynamicHeapSize st > gRAMBank_Size st then st\<lparr>gDynamicHeapSize := gRAMBank_Size st\<rparr> else st);
          sixtyFourK = 64 * 1024;
          numBanks = (gDynamicHeapSize st + sixtyFourK - 1) div sixtyFourK
      in InitializeBanks bankDRAM (bank_index 0) numBanks st)"

definition rom_handlers :: "EmAddressBank \<Rightarrow> machine \<Rightarrow> unit outcome" where
  "rom_handlers b st =
     (let st = st\<lparr>gManagedROMSize := GetROMSize st\<rparr>;
          first_bank = bank_index (gROMMemoryStart st);
          last_bank = bank_index (gROMMemoryStart st + gManagedROMSize st - 1)
      in InitializeBanks b first_bank (last_bank - first_bank + 1) st)"

definition EmBankROM_SetBankHandlers :: "machine \<Rightarrow> unit outcome" where
  "EmBankROM_SetBankHandlers st =
     rom_handlers bankROM (if ChipSelectsConfigured st then st\<lparr>gROMMemoryStart := GetROMBaseAddress st\<rparr> else st)"

definition EmBankMapped_SetBankHandlers :: "machine \<Rightarrow> unit outcome" where
  "EmBankMapped_SetBankHandlers =
     InitializeBanks bankMapped (bank_index kMappedStart) (drop_bit 16 (kMappedFinish - kMappedStart))"

definition EmBankFlash_SetBankHandlers :: "machine \<Rightarrow> unit outcome" where
  "EmBankFlash_SetBankHandlers = rom_handlers bankFlash"

definition halModelIDVisorPrism :: uint32 where "halModelIDVisorPrism = 0x0a"

definition ResetBankHandlers :: "platform \<Rightarrow> machine \<Rightarrow> unit outcome" where
  "ResetBankHandlers pf st =
     andthen (EmBankDummy_SetBankHandlers st) (\<lambda>_ st.
     andthen (EmBankSRAM_SetBankHandlers (regs_SetBankHandlers pf st)) (\<lambda>_ st.
     andthen (EmBankDRAM_SetBankHandlers st) (\<lambda>_ st.
     andthen (EmBankROM_SetBankHandlers st) (\<lambda>_ st.
     andthen (EmBankMapped_SetBankHandlers st) (\<lambda>_ st.
     (let st = (if HardwareID pf = halModelIDVisorPrism then regs_SetBankHandlers pf st else st)
      in if HasFlash st then EmBankFlash_SetBankHandlers st else (Inr (), st)))))))"

section \<open>Life cycle\<close>

definition Memory_Initialize :: "platform \<Rightarrow> EmDevice \<Rightarrow> (nat \<Rightarrow> hostmem) \<Rightarrow> uint8 list \<Rightarrow> uint32 \<Rightarrow> machine \<Rightarrow> unit outcome" where
  "Memory_Initialize pf device allocate hROM ramSize st =
     (let st = regs_Initialize pf (st\<lparr>gEmMemBanks := (\<lambda>_. None)\<rparr>)
      in host (EmBankSRAM_Initialize ramSize device st) (\<lambda>st _.
           andthen (EmBankROM_Initialize device allocate hROM st) (\<lambda>_ st. (Inr (), EmBankMapped_Initialize st))) st)"

definition Memory_Reset :: "platform \<Rightarrow> bool \<Rightarrow> machine \<Rightarrow> unit outcome" where
  "Memory_Reset pf hardwareReset st =
     (let st = EmBankSRAM_Reset (regs_Reset pf hardwareReset st)
      in andthen (EmBankROM_Reset st) (\<lambda>_ st.
         (let st = (if HasFlash st then EmBankFlash_Reset hardwareReset st else st)
          in ResetBankHandlers pf st)))"

definition Memory_Save :: "platform \<Rightarrow> string \<Rightarrow> SessionFile \<Rightarrow> machine \<Rightarrow> SessionFile \<times> machine" where
  "Memory_Save pf fROMFile f st =
     (let (f, st) = regs_Save pf f st; (f, st) = EmBankSRAM_Save f st in EmBankROM_Save fROMFile f st)"

definition Memory_Load :: "platform \<Rightarrow> SessionFile \<Rightarrow> machine \<Rightarrow> SessionFile outcome" where
  "Memory_Load pf f st =
     andthen (regs_Load pf f st) (\<lambda>f st.
     andthen (EmBankSRAM_Load f st) (\<lambda>f st.
     andthen (EmBankROM_Load f st) (\<lambda>f st.
     andthen (ResetBankHandlers pf st) (\<lambda>_ st. (Inr f, st)))))"

definition Memory_Dispose :: "platform \<Rightarrow> machine \<Rightarrow> machine" where
  "Memory_Dispose pf st = EmBankMapped_Dispose (EmBankROM_Dispose (EmBankSRAM_Dispose (regs_Dispose pf st)))"

definition CheckNewPC :: "emuptr \<Rightarrow> machine \<Rightarrow> machine" where
  "CheckNewPC newPC st = st\<lparr>gPCInRAM := newPC < gROMMemoryStart st, gPCInROM := newPC \<ge> gROMMemoryStart st\<rparr>"

end
