(* ===== verification/MemString.thy ===== *)
theory MemString
  imports Dispatch
begin

text \<open>
  The memory and string functions at the end of \<open>Hardware/EmMemory.cpp\<close>. They are templates
  over two kinds of pointers, those of emulated code and those of the host; here they take the
  operations \<open>_get_byte\<close> and \<open>_put_byte\<close> of the kind of pointer as arguments. Functions that
  look for the end of a string may never return, which is \<open>None\<close>.

  The locale \<open>byte_space\<close> is what they need of memory.
\<close>

section \<open>Pointers\<close>

definition get_byte_emu :: "platform \<Rightarrow> emuptr \<Rightarrow> machine \<Rightarrow> uint8 outcome" where
  "get_byte_emu pf p st = andthen (EmMemGet8 pf p st) (\<lambda>v st. (Inr (ucast v), st))"

definition put_byte_emu :: "platform \<Rightarrow> emuptr \<Rightarrow> uint8 \<Rightarrow> machine \<Rightarrow> unit outcome" where
  "put_byte_emu pf p v st = EmMemPut8 pf p (ucast v) st"

definition get_byte_host :: "uint32 \<Rightarrow> machine \<Rightarrow> uint8 outcome" where
  "get_byte_host p st = host (host_space st p) (\<lambda>b st. (Inr b, st)) st"

definition put_byte_host :: "uint32 \<Rightarrow> uint8 \<Rightarrow> machine \<Rightarrow> unit outcome" where
  "put_byte_host p v st =
     (if host_space st p = None then fail HostFault st
      else (Inr (), st\<lparr>host_space := (host_space st)(p \<mapsto> v)\<rparr>))"

type_synonym getter = "uint32 \<Rightarrow> machine \<Rightarrow> uint8 outcome"
type_synonym putter = "uint32 \<Rightarrow> uint8 \<Rightarrow> machine \<Rightarrow> unit outcome"

section \<open>Memory\<close>

text \<open>A byte is a \<open>char\<close>, which is signed, when it is compared to the \<open>int\<close> it is looked up by.\<close>

fun memchr_loop :: "getter \<Rightarrow> uint32 \<Rightarrow> uint32 \<Rightarrow> nat \<Rightarrow> machine \<Rightarrow> uint32 outcome" where
  "memchr_loop get p val 0 st = (Inr 0, st)"
| "memchr_loop get p val (Suc len) st =
     andthen (get p st) (\<lambda>b st. if scast b = val then (Inr p, st) else memchr_loop get (p + 1) val len st)"

definition EmMem_memchr :: "getter \<Rightarrow> uint32 \<Rightarrow> uint32 \<Rightarrow> uint32 \<Rightarrow> machine \<Rightarrow> uint32 outcome" where
  "EmMem_memchr get src val len = memchr_loop get src val (unat len)"

fun memcmp_loop :: "getter \<Rightarrow> getter \<Rightarrow> uint32 \<Rightarrow> uint32 \<Rightarrow> nat \<Rightarrow> machine \<Rightarrow> int outcome" where
  "memcmp_loop get1 get2 p1 p2 0 st = (Inr 0, st)"
| "memcmp_loop get1 get2 p1 p2 (Suc len) st =
     andthen (get1 p1 st) (\<lambda>ch1 st. andthen (get2 p2 st) (\<lambda>ch2 st.
       if ch1 \<noteq> ch2 then (Inr (if ch1 < ch2 then - 1 else 1), st)
       else memcmp_loop get1 get2 (p1 + 1) (p2 + 1) len st))"

definition EmMem_memcmp :: "getter \<Rightarrow> getter \<Rightarrow> uint32 \<Rightarrow> uint32 \<Rightarrow> uint32 \<Rightarrow> machine \<Rightarrow> int outcome" where
  "EmMem_memcmp get1 get2 src1 src2 len = memcmp_loop get1 get2 src1 src2 (unat len)"

fun memcpy_loop :: "getter \<Rightarrow> putter \<Rightarrow> uint32 \<Rightarrow> uint32 \<Rightarrow> nat \<Rightarrow> machine \<Rightarrow> unit outcome" where
  "memcpy_loop get put q p 0 st = (Inr (), st)"
| "memcpy_loop get put q p (Suc len) st =
     andthen (get p st) (\<lambda>b st. andthen (put q b st) (\<lambda>_ st. memcpy_loop get put (q + 1) (p + 1) len st))"

definition EmMem_memcpy :: "getter \<Rightarrow> putter \<Rightarrow> uint32 \<Rightarrow> uint32 \<Rightarrow> uint32 \<Rightarrow> machine \<Rightarrow> unit outcome" where
  "EmMem_memcpy get put dst src len = memcpy_loop get put dst src (unat len)"

fun memmove_down :: "getter \<Rightarrow> putter \<Rightarrow> uint32 \<Rightarrow> uint32 \<Rightarrow> nat \<Rightarrow> machine \<Rightarrow> unit outcome" where
  "memmove_down get put q p 0 st = (Inr (), st)"
| "memmove_down get put q p (Suc len) st =
     andthen (get (p - 1) st) (\<lambda>b st. andthen (put (q - 1) b st) (\<lambda>_ st.
       memmove_down get put (q - 1) (p - 1) len st))"

text \<open>\<open>real1\<close> and \<open>real2\<close> are \<open>_get_real_address\<close> of the destination and of the source.\<close>

definition EmMem_memmove :: "getter \<Rightarrow> putter \<Rightarrow> (uint32 \<Rightarrow> machine \<Rightarrow> uint32 outcome) \<Rightarrow>
    (uint32 \<Rightarrow> machine \<Rightarrow> uint32 outcome) \<Rightarrow> uint32 \<Rightarrow> uint32 \<Rightarrow> uint32 \<Rightarrow> machine \<Rightarrow> unit outcome" where
  "EmMem_memmove get put real1 real2 dst src len st =
     andthen (real1 dst st) (\<lambda>r1 st. andthen (real2 src st) (\<lambda>r2 st.
       if r1 \<le> r2 then memcpy_loop get put dst src (unat len) st
       else memmove_down get put (dst + len) (src + len) (unat len) st))"

section \<open>Strings\<close>

partial_function (option) strlen_loop :: "getter \<Rightarrow> uint32 \<Rightarrow> machine \<Rightarrow> uint32 outcome option" where
  "strlen_loop get eos st =
     (case get eos st of
        (Inl e, st) \<Rightarrow> Some (Inl e, st)
      | (Inr b, st) \<Rightarrow> if b \<noteq> 0 then strlen_loop get (eos + 1) st else Some (Inr eos, st))"

declare strlen_loop.simps [code]

definition EmMem_strlen :: "getter \<Rightarrow> uint32 \<Rightarrow> machine \<Rightarrow> uint32 outcome option" where
  "EmMem_strlen get str st =
     map_option (\<lambda>r. andthen r (\<lambda>eos st. (Inr (eos - str), st))) (strlen_loop get str st)"

partial_function (option) EmMem_strcpy :: "getter \<Rightarrow> putter \<Rightarrow> uint32 \<Rightarrow> uint32 \<Rightarrow> machine \<Rightarrow> unit outcome option" where
  "EmMem_strcpy get put q p st =
     (case get p st of
        (Inl e, st) \<Rightarrow> Some (Inl e, st)
      | (Inr ch, st) \<Rightarrow>
          (case put q ch st of
             (Inl e, st) \<Rightarrow> Some (Inl e, st)
           | (Inr u, st) \<Rightarrow> if ch \<noteq> 0 then EmMem_strcpy get put (q + 1) (p + 1) st else Some (Inr (), st)))"

declare EmMem_strcpy.simps [code]

fun fill_loop :: "putter \<Rightarrow> uint32 \<Rightarrow> nat \<Rightarrow> machine \<Rightarrow> unit outcome" where
  "fill_loop put q 0 st = (Inr (), st)"
| "fill_loop put q (Suc len) st = andthen (put q 0 st) (\<lambda>_ st. fill_loop put (q + 1) len st)"

fun strncpy_loop :: "getter \<Rightarrow> putter \<Rightarrow> uint32 \<Rightarrow> uint32 \<Rightarrow> nat \<Rightarrow> machine \<Rightarrow> unit outcome" where
  "strncpy_loop get put q p 0 st = (Inr (), st)"
| "strncpy_loop get put q p (Suc len) st =
     andthen (get p st) (\<lambda>ch st. andthen (put q ch st) (\<lambda>_ st.
       if ch = 0 then fill_loop put (q + 1) len st else strncpy_loop get put (q + 1) (p + 1) len st))"

definition EmMem_strncpy :: "getter \<Rightarrow> putter \<Rightarrow> uint32 \<Rightarrow> uint32 \<Rightarrow> uint32 \<Rightarrow> machine \<Rightarrow> unit outcome" where
  "EmMem_strncpy get put dst src len = strncpy_loop get put dst src (unat len)"

partial_function (option) strcat_copy :: "getter \<Rightarrow> putter \<Rightarrow> uint32 \<Rightarrow> uint32 \<Rightarrow> machine \<Rightarrow> unit outcome option" where
  "strcat_copy get put q p st =
     (case get p st of
        (Inl e, st) \<Rightarrow> Some (Inl e, st)
      | (Inr c, st) \<Rightarrow>
          if c \<noteq> 0
          then (case get p st of
                  (Inl e, st) \<Rightarrow> Some (Inl e, st)
                | (Inr b, st) \<Rightarrow>
                    (case put q b st of
                       (Inl e, st) \<Rightarrow> Some (Inl e, st)
                     | (Inr u, st) \<Rightarrow> strcat_copy get put (q + 1) (p + 1) st))
          else Some (put q 0 st))"

declare strcat_copy.simps [code]

text \<open>\<open>get1\<close> reads the destination, \<open>get2\<close> the source.\<close>

definition after_end :: "getter \<Rightarrow> uint32 \<Rightarrow> (uint32 \<Rightarrow> machine \<Rightarrow> unit outcome option) \<Rightarrow> machine \<Rightarrow> unit outcome option" where
  "after_end get1 dst k st =
     (case strlen_loop get1 dst st of
        None \<Rightarrow> None
      | Some (Inl e, st) \<Rightarrow> Some (Inl e, st)
      | Some (Inr q, st) \<Rightarrow> k q st)"

definition EmMem_strcat :: "getter \<Rightarrow> getter \<Rightarrow> putter \<Rightarrow> uint32 \<Rightarrow> uint32 \<Rightarrow> machine \<Rightarrow> unit outcome option" where
  "EmMem_strcat get1 get2 put dst src = after_end get1 dst (\<lambda>q. strcat_copy get2 put q src)"

fun strncat_loop :: "getter \<Rightarrow> putter \<Rightarrow> uint32 \<Rightarrow> uint32 \<Rightarrow> nat \<Rightarrow> machine \<Rightarrow> unit outcome" where
  "strncat_loop get put q p 0 st = put q 0 st"
| "strncat_loop get put q p (Suc len) st =
     andthen (get p st) (\<lambda>ch st. andthen (put q ch st) (\<lambda>_ st.
       if ch = 0 then (Inr (), st) else strncat_loop get put (q + 1) (p + 1) len st))"

definition EmMem_strncat :: "getter \<Rightarrow> getter \<Rightarrow> putter \<Rightarrow> uint32 \<Rightarrow> uint32 \<Rightarrow> uint32 \<Rightarrow> machine \<Rightarrow> unit outcome option" where
  "EmMem_strncat get1 get2 put dst src len =
     after_end get1 dst (\<lambda>q st. Some (strncat_loop get2 put q src (unat len) st))"

partial_function (option) EmMem_strcmp :: "getter \<Rightarrow> getter \<Rightarrow> uint32 \<Rightarrow> uint32 \<Rightarrow> machine \<Rightarrow> int outcome option" where
  "EmMem_strcmp get1 get2 p1 p2 st =
     (case get1 p1 st of
        (Inl e, st) \<Rightarrow> Some (Inl e, st)
      | (Inr c1, st) \<Rightarrow>
          (case get2 p2 st of
             (Inl e, st) \<Rightarrow> Some (Inl e, st)
           | (Inr c2, st) \<Rightarrow>
               if c1 \<noteq> c2 then Some (Inr (uint c1 - uint c2), st)
               else if c1 = 0 then Some (Inr 0, st)
               else EmMem_strcmp get1 get2 (p1 + 1) (p2 + 1) st))"

declare EmMem_strcmp.simps [code]

fun strncmp_loop :: "getter \<Rightarrow> getter \<Rightarrow> uint32 \<Rightarrow> uint32 \<Rightarrow> nat \<Rightarrow> machine \<Rightarrow> int outcome" where
  "strncmp_loop get1 get2 p1 p2 0 st = (Inr 0, st)"
| "strncmp_loop get1 get2 p1 p2 (Suc len) st =
     andthen (get1 p1 st) (\<lambda>c1 st. andthen (get2 p2 st) (\<lambda>c2 st.
       if c1 \<noteq> c2 then (Inr (uint c1 - uint c2), st)
       else if c1 = 0 then (Inr 0, st)
       else strncmp_loop get1 get2 (p1 + 1) (p2 + 1) len st))"

definition EmMem_strncmp :: "getter \<Rightarrow> getter \<Rightarrow> uint32 \<Rightarrow> uint32 \<Rightarrow> uint32 \<Rightarrow> machine \<Rightarrow> int outcome" where
  "EmMem_strncmp get1 get2 dst src len = strncmp_loop get1 get2 dst src (unat len)"

end
