(* ===== verification/ByteSpace.thy ===== *)
theory ByteSpace
  imports MemString "HOL-Library.List_Lexorder"
begin

text \<open>
  The contract between memory and the functions on bytes: a locale \<open>byte_space\<close> for accesses
  by bytes that succeed on a set of addresses and behave like an array there, its extension
  \<open>long_space\<close> by aligned stores of long words, and the functional correctness of the memory
  and string functions in it.
\<close>

section \<open>Spans of addresses\<close>

definition span :: "uint32 \<Rightarrow> nat \<Rightarrow> uint32 set" where
  "span q n = {b. unat (b - q) < n}"

lemma span_0 [simp]: "span q 0 = {}"
  by (simp add: span_def)

lemma unat_diff_Suc:
  assumes "b \<noteq> q"
  shows "unat (b - q) = Suc (unat (b - (q + 1)))"
proof -
  have "b - q \<noteq> 0" using assms by simp
  then have "0 < unat (b - q)" and "unat (b - q - 1) = unat (b - q) - 1"
    by (simp_all add: unat_gt_0 unat_minus_one)
  then show ?thesis by (simp add: diff_diff_eq)
qed

lemma unat_diff_self: "unat (q - (q + 1) :: uint32) = 2 ^ 32 - 1"
  by (simp add: unsigned_minus_1_eq_mask mask_eq_exp_minus_1)

lemma span_Suc: "Suc n \<le> 2 ^ 32 \<Longrightarrow> span q (Suc n) = insert q (span (q + 1) n)"
proof (rule set_eqI)
  fix b
  assume "Suc n \<le> 2 ^ 32"
  then show "b \<in> span q (Suc n) \<longleftrightarrow> b \<in> insert q (span (q + 1) n)"
    using unat_diff_Suc [of b q] by (cases "b = q") (auto simp: span_def)
qed

lemma notin_span_Suc: "n < 2 ^ 32 \<Longrightarrow> q \<notin> span (q + 1) n"
  using unat_diff_self [of q] by (simp only: span_def mem_Collect_eq)

lemma far_span: "q = p \<or> Suc n \<le> unat (q - p) \<Longrightarrow> n < 2 ^ 32 \<Longrightarrow> q \<notin> span (p + 1) n"
  using notin_span_Suc [of n p] unat_diff_Suc [of q p] by (cases "q = p") (simp_all add: span_def)

lemma span_mono: "m \<le> n \<Longrightarrow> span q m \<subseteq> span q n"
  by (auto simp: span_def)

lemma of_nat_in_span: "k < n \<Longrightarrow> n \<le> 2 ^ 32 \<Longrightarrow> q + of_nat k \<in> span q n"
  by (simp add: span_def unat_of_nat_32)

lemma span_add: "a + b \<le> 2 ^ 32 \<Longrightarrow> span q (a + b) = span q a \<union> span (q + of_nat a) b"
proof (induction a arbitrary: q)
  case (Suc a)
  then show ?case using span_Suc [of "a + b" q] span_Suc [of a q] by (simp add: add.assoc)
qed simp

definition long_byte :: "uint32 \<Rightarrow> nat \<Rightarrow> uint8" where
  "long_byte v k = ucast (drop_bit (24 - 8 * k) v)"

lemma add_eq_diff: "a + x = b + e \<Longrightarrow> a - b = e - (x :: uint32)"
proof -
  assume "a + x = b + e"
  then have "a = b + e - x" by (simp add: eq_diff_eq)
  then show ?thesis by simp
qed

lemma uint_nz: "(x :: uint8) \<noteq> 0 \<Longrightarrow> uint x \<noteq> 0 \<and> 0 < uint x"
  using uint_ge_0 [of x] by (auto simp: uint_0_iff order_less_le)

section \<open>Contents\<close>

definition same :: "uint32 set \<Rightarrow> (uint32 \<Rightarrow> uint8) \<Rightarrow> (uint32 \<Rightarrow> uint8) \<Rightarrow> bool" where
  "same A f g \<longleftrightarrow> (\<forall>b\<in>A. f b = g b)"

lemma same_trans: "same A f g \<Longrightarrow> same A g h \<Longrightarrow> same A f h"
  by (simp add: same_def)

lemma same_subset: "same A f g \<Longrightarrow> B \<subseteq> A \<Longrightarrow> same B f g"
  by (auto simp: same_def)

definition bytes_at :: "(uint32 \<Rightarrow> uint8) \<Rightarrow> uint32 \<Rightarrow> nat \<Rightarrow> uint8 list" where
  "bytes_at f s n = map (\<lambda>k. f (s + of_nat k)) [0..<n]"

lemma bytes_at_0 [simp]: "bytes_at f s 0 = []"
  by (simp add: bytes_at_def)

lemma bytes_at_Suc: "bytes_at f s (Suc n) = f s # bytes_at f (s + 1) n"
proof -
  have "[0..<Suc n] = 0 # map Suc [0..<n]" by (simp add: upt_conv_Cons map_Suc_upt del: upt_Suc)
  then show ?thesis by (simp add: bytes_at_def add.assoc del: upt_Suc)
qed

lemma bytes_at_cong:
  "same (span s n) f g \<Longrightarrow> n \<le> 2 ^ 32 \<Longrightarrow> bytes_at f s n = bytes_at g s n"
  using of_nat_in_span [of _ n s] by (auto simp: bytes_at_def same_def)

text \<open>The bytes of a string, without its end.\<close>

fun cstring :: "(uint32 \<Rightarrow> uint8) \<Rightarrow> uint32 \<Rightarrow> uint8 list \<Rightarrow> bool" where
  "cstring f s [] \<longleftrightarrow> f s = 0"
| "cstring f s (x # xs) \<longleftrightarrow> f s = x \<and> x \<noteq> 0 \<and> cstring f (s + 1) xs"

lemma cstring_bytes_at: "cstring f s xs \<longleftrightarrow> 0 \<notin> set xs \<and> bytes_at f s (Suc (length xs)) = xs @ [0]"
  by (induction xs arbitrary: s) (auto simp: bytes_at_Suc)

lemma cstring_cong:
  "same (span s (Suc (length xs))) f g \<Longrightarrow> length xs < 2 ^ 32 \<Longrightarrow> cstring f s xs = cstring g s xs"
proof (induction xs arbitrary: s)
  case Nil
  then show ?case using span_Suc [of 0 s] by (simp add: same_def)
next
  case (Cons x xs)
  then have "f s = g s" "same (span (s + 1) (Suc (length xs))) f g"
    using span_Suc [of "Suc (length xs)" s] by (auto simp: same_def)
  then show ?case using Cons by simp
qed

lemma bytes_at_add: "bytes_at f s (m + n) = bytes_at f s m @ bytes_at f (s + of_nat m) n"
  by (induction m arbitrary: s) (simp_all add: bytes_at_Suc add.assoc)

lemma cstring_append:
  "cstring f s (xs @ ys) \<longleftrightarrow> bytes_at f s (length xs) = xs \<and> 0 \<notin> set xs \<and> cstring f (s + of_nat (length xs)) ys"
  by (induction xs arbitrary: s) (auto simp: bytes_at_Suc add.assoc)

lemma span_disjoint: "m + n \<le> 2 ^ 32 \<Longrightarrow> span s m \<inter> span (s + of_nat m) n = {}"
proof (induction m arbitrary: s)
  case (Suc m)
  have "s \<notin> span (s + of_nat (Suc m)) n"
  proof
    assume s: "s \<in> span (s + of_nat (Suc m)) n"
    then have "0 < n" and m: "Suc m < 2 ^ 32" using Suc.prems by (auto simp: span_def)
    have "unat (- of_nat (Suc m) :: uint32) = 2 ^ 32 - Suc m"
      using unat_sub_if_size [of 0 "of_nat (Suc m) :: uint32"] unat_of_nat_32 [OF m] by (simp add: word_size)
    then show False using s Suc.prems by (simp add: span_def)
  qed
  then show ?case using Suc.IH [of "s + 1"] Suc.prems span_Suc [of m s] by (auto simp: add.assoc)
qed simp

text \<open>A signed \<open>char\<close> equals a byte from 0 to 255 only if that byte is below 128.\<close>

lemma scast_ucast_8: "(scast (b :: uint8) :: uint32) = ucast (c :: uint8) \<longleftrightarrow> \<not> bit c 7 \<and> b = c"
proof (cases "bit b 7")
  case True
  then have "bit (scast b :: uint32) 8" by (simp add: bit_simps)
  moreover have "\<not> bit (ucast c :: uint32) 8" by (auto simp: bit_simps dest: bit_imp_le_length)
  ultimately show ?thesis using True by auto
next
  case False
  then have "scast b = (ucast b :: uint32)"
    by (intro bit_word_eqI) (auto simp: bit_simps min_def not_less le_less dest: bit_imp_le_length)
  moreover have "(ucast b :: uint32) = ucast c \<longleftrightarrow> b = c" by (metis ucast_8_32)
  ultimately show ?thesis using False by auto
qed

section \<open>The contract\<close>

locale byte_space =
  fixes get :: getter
    and put :: putter
    and ok :: "machine \<Rightarrow> bool"
    and valid :: "uint32 set"
    and byte :: "machine \<Rightarrow> uint32 \<Rightarrow> uint8"
  assumes get_law: "ok st \<Longrightarrow> a \<in> valid \<Longrightarrow>
      \<exists>st'. get a st = (Inr (byte st a), st') \<and> ok st' \<and> (\<forall>b\<in>valid. byte st' b = byte st b)"
    and put_law: "ok st \<Longrightarrow> a \<in> valid \<Longrightarrow>
      \<exists>st'. put a v st = (Inr (), st') \<and> ok st' \<and> (\<forall>b\<in>valid. byte st' b = (if b = a then v else byte st b))"
begin

lemma get_okE:
  assumes "ok st" and "a \<in> valid"
  obtains st' where "get a st = (Inr (byte st a), st')" and "ok st'"
    and "\<forall>b\<in>valid. byte st' b = byte st b"
  using get_law [OF assms] that by blast

lemma put_okE:
  assumes "ok st" and "a \<in> valid"
  obtains st' where "put a v st = (Inr (), st')" and "ok st'"
    and "\<forall>b\<in>valid. byte st' b = (if b = a then v else byte st b)"
  using put_law [OF assms] that by blast

subsection \<open>Copying\<close>

text \<open>
  Copying upwards is right if the destination does not start inside of the source, or is the
  source; copying downwards is right in the mirrored case.
\<close>

lemma memcpy_loop_ok:
  assumes "ok st" and "span q n \<subseteq> valid" and "span p n \<subseteq> valid" and "n \<le> 2 ^ 32"
    and "q = p \<or> n \<le> unat (q - p)"
  shows "\<exists>st'. memcpy_loop get put q p n st = (Inr (), st') \<and> ok st' \<and>
    (\<forall>b\<in>valid. byte st' b = (if b \<in> span q n then byte st (p + (b - q)) else byte st b))"
  using assms
proof (induction n arbitrary: q p st)
  case (Suc n)
  note spq = span_Suc [OF Suc.prems(4), of q] and spp = span_Suc [OF Suc.prems(4), of p]
  have n: "n < 2 ^ 32" using Suc.prems(4) by simp
  have qv: "q \<in> valid" and pv: "p \<in> valid" using Suc.prems(2,3) spq spp by auto
  obtain s1 where s1: "get p st = (Inr (byte st p), s1)" "ok s1"
    "\<forall>b\<in>valid. byte s1 b = byte st b" by (rule get_okE [OF Suc.prems(1) pv])
  obtain s2 where s2: "put q (byte st p) s1 = (Inr (), s2)" "ok s2"
    "\<forall>b\<in>valid. byte s2 b = (if b = q then byte st p else byte s1 b)"
    by (rule put_okE [OF s1(2) qv, of "byte st p"])
  have apart: "q + 1 = p + 1 \<or> n \<le> unat (q + 1 - (p + 1))" using Suc.prems(5) by auto
  obtain s3 where s3: "memcpy_loop get put (q + 1) (p + 1) n s2 = (Inr (), s3)" "ok s3"
    "\<forall>b\<in>valid. byte s3 b = (if b \<in> span (q + 1) n then byte s2 (p + 1 + (b - (q + 1))) else byte s2 b)"
    using Suc.IH [OF s2(2) _ _ _ apart] Suc.prems(2,3) spq spp n by auto
  have "byte s3 b = (if b \<in> span q (Suc n) then byte st (p + (b - q)) else byte st b)" if b: "b \<in> valid" for b
  proof (cases "b \<in> span (q + 1) n")
    case True
    then have bq: "b \<noteq> q" using notin_span_Suc [OF n] by blast
    have un: "unat (b - q) = Suc (unat (b - (q + 1)))" by (rule unat_diff_Suc [OF bq])
    have lt: "unat (b - q) < Suc n" using True un by (simp add: span_def)
    have pb: "p + (b - q) \<in> valid" using Suc.prems(3) lt by (auto simp: span_def)
    have "p + (b - q) \<noteq> q"
    proof
      assume "p + (b - q) = q"
      then have "q - p = b - q" by (metis add_diff_cancel_left')
      with Suc.prems(5) lt un bq show False by auto
    qed
    moreover have "p + 1 + (b - (q + 1)) = p + (b - q)" by simp
    ultimately have "byte s3 b = byte st (p + (b - q))" using s3(3) True b pb s2(3) s1(3) by simp
    then show ?thesis using True spq by simp
  next
    case False
    then show ?thesis using s3(3) b bspec [OF s2(3) b] bspec [OF s1(3) b] spq by auto
  qed
  then show ?case using s1(1) s2(1) s3(1,2) by simp
qed simp

lemma memmove_down_ok:
  assumes "ok st" and "span q n \<subseteq> valid" and "span p n \<subseteq> valid" and "n \<le> 2 ^ 32"
    and "q = p \<or> n \<le> unat (p - q)"
  shows "\<exists>st'. memmove_down get put (q + of_nat n) (p + of_nat n) n st = (Inr (), st') \<and> ok st' \<and>
    (\<forall>b\<in>valid. byte st' b = (if b \<in> span q n then byte st (p + (b - q)) else byte st b))"
  using assms
proof (induction n arbitrary: st)
  case (Suc n)
  have n: "n < 2 ^ 32" using Suc.prems(4) by simp
  define e where "e = (of_nat n :: uint32)"
  have e: "unat e = n" using n by (simp add: e_def unat_of_nat_32)
  have e1: "q + of_nat (Suc n) - 1 = q + e" "p + of_nat (Suc n) - 1 = p + e" by (simp_all add: e_def)
  have qv: "q + e \<in> valid" and pv: "p + e \<in> valid"
    using Suc.prems(2,3) e by (auto simp: span_def)
  obtain s1 where s1: "get (p + e) st = (Inr (byte st (p + e)), s1)" "ok s1"
    "\<forall>b\<in>valid. byte s1 b = byte st b" by (rule get_okE [OF Suc.prems(1) pv])
  obtain s2 where s2: "put (q + e) (byte st (p + e)) s1 = (Inr (), s2)" "ok s2"
    "\<forall>b\<in>valid. byte s2 b = (if b = q + e then byte st (p + e) else byte s1 b)"
    by (rule put_okE [OF s1(2) qv, of "byte st (p + e)"])
  have sub: "span q n \<subseteq> valid" "span p n \<subseteq> valid" using Suc.prems(2,3) span_mono [of n "Suc n"] by auto
  obtain s3 where s3: "memmove_down get put (q + e) (p + e) n s2 = (Inr (), s3)" "ok s3"
    "\<forall>b\<in>valid. byte s3 b = (if b \<in> span q n then byte s2 (p + (b - q)) else byte s2 b)"
    using Suc.IH [OF s2(2) sub] Suc.prems(5) n unfolding e_def by auto
  have "byte s3 b = (if b \<in> span q (Suc n) then byte st (p + (b - q)) else byte st b)" if b: "b \<in> valid" for b
  proof (cases "b \<in> span q n")
    case True
    have pb: "p + (b - q) \<in> valid" using True sub(2) by (auto simp: span_def)
    have "p + (b - q) \<noteq> q + e"
    proof
      assume "p + (b - q) = q + e"
      then have pq: "p - q = e - (b - q)" by (rule add_eq_diff)
      have lt: "unat (b - q) < unat e" using True e by (simp add: span_def)
      then have "unat (p - q) = unat e - unat (b - q)"
        unfolding pq by (intro unat_sub) (simp add: word_le_nat_alt)
      with Suc.prems(5) lt e show False by auto
    qed
    then have "byte s3 b = byte st (p + (b - q))" using s3(3) True b pb s2(3) s1(3) by simp
    moreover have "b \<in> span q (Suc n)" using True by (simp add: span_def)
    ultimately show ?thesis by simp
  next
    case False
    have "b \<in> span q (Suc n) \<longleftrightarrow> unat (b - q) = n" using False by (auto simp: span_def)
    also have "\<dots> \<longleftrightarrow> b - q = e" using e by (simp add: word_unat_eq_iff)
    also have "\<dots> \<longleftrightarrow> b = q + e" by (simp add: diff_eq_eq add.commute)
    finally show ?thesis using s3(3) b False bspec [OF s2(3) b] bspec [OF s1(3) b] by auto
  qed
  then show ?case using s1(1) s2(1) s3(1,2) by (simp only: memmove_down.simps e1 andthen_simps) blast
qed simp

subsection \<open>Strings\<close>

text \<open>The steps all loops over strings make: the next byte, and the string behind it.\<close>

lemma get_same:
  assumes "ok st" and "a \<in> valid"
  obtains st' where "get a st = (Inr (byte st a), st')" and "ok st'" and "same valid (byte st') (byte st)"
  using get_law [OF assms] that by (auto simp: same_def)

lemma strlen_loop_ok:
  assumes "ok st" and "span s (Suc (length xs)) \<subseteq> valid" and "length xs < 2 ^ 32" and "cstring (byte st) s xs"
  shows "\<exists>st'. strlen_loop get s st = Some (Inr (s + of_nat (length xs)), st') \<and> ok st' \<and>
    same valid (byte st') (byte st)"
  using assms
proof (induction xs arbitrary: s st)
  case Nil
  then have "s \<in> valid" by (auto simp: span_def)
  then obtain s1 where "get s st = (Inr (byte st s), s1)" "ok s1" "same valid (byte s1) (byte st)"
    by (rule get_same [OF Nil(1)])
  then show ?case using Nil(4) by (subst strlen_loop.simps) simp
next
  case (Cons x xs)
  have sub: "s \<in> valid" "span (s + 1) (Suc (length xs)) \<subseteq> valid"
    using Cons.prems(2) span_Suc [of "Suc (length xs)" s] Cons.prems(3) by auto
  obtain s1 where s1: "get s st = (Inr (byte st s), s1)" "ok s1" "same valid (byte s1) (byte st)"
    by (rule get_same [OF Cons.prems(1) sub(1)])
  have "cstring (byte s1) (s + 1) xs"
    using Cons.prems(3,4) cstring_cong [OF same_subset [OF s1(3) sub(2)]] by simp
  then obtain s2 where s2: "strlen_loop get (s + 1) s1 = Some (Inr (s + 1 + of_nat (length xs)), s2)" "ok s2"
    "same valid (byte s2) (byte s1)"
    using Cons.IH [OF s1(2) sub(2)] Cons.prems(3) by auto
  have "strlen_loop get s st = Some (Inr (s + of_nat (length (x # xs))), s2)"
    using s1(1) s2(1) Cons.prems(4) by (subst strlen_loop.simps) (simp add: add.assoc)
  then show ?case using s2 s1(3) by (auto intro: same_trans)
qed

lemma strcpy_memcpy:
  assumes "ok st" and "span q (Suc (length xs)) \<subseteq> valid" and "span p (Suc (length xs)) \<subseteq> valid"
    and "length xs < 2 ^ 32" and "q = p \<or> Suc (length xs) \<le> unat (q - p)" and "cstring (byte st) p xs"
  shows "EmMem_strcpy get put q p st = Some (memcpy_loop get put q p (Suc (length xs)) st)"
  using assms
proof (induction xs arbitrary: q p st)
  case Nil
  then have v: "p \<in> valid" "q \<in> valid" by (auto simp: span_def)
  obtain s1 where s1: "get p st = (Inr (byte st p), s1)" "ok s1" by (rule get_okE [OF Nil(1) v(1)])
  obtain s2 where s2: "put q 0 s1 = (Inr (), s2)" by (rule put_okE [OF s1(2) v(2), of 0])
  show ?case using s1 s2 Nil(6) by (subst EmMem_strcpy.simps) simp
next
  case (Cons x xs)
  have sub: "p \<in> valid" "span (p + 1) (Suc (length xs)) \<subseteq> valid" "q \<in> valid" "span (q + 1) (Suc (length xs)) \<subseteq> valid"
    using Cons.prems(2,3) span_Suc [of "Suc (length xs)" p] span_Suc [of "Suc (length xs)" q] Cons.prems(4) by auto
  have x: "byte st p = x" "x \<noteq> 0" "cstring (byte st) (p + 1) xs" using Cons.prems(6) by auto
  obtain s1 where s1: "get p st = (Inr (byte st p), s1)" "ok s1" "same valid (byte s1) (byte st)"
    by (rule get_same [OF Cons.prems(1) sub(1)])
  obtain s2 where s2: "put q x s1 = (Inr (), s2)" "ok s2"
    "\<forall>b\<in>valid. byte s2 b = (if b = q then x else byte s1 b)"
    by (rule put_okE [OF s1(2) sub(3), of x])
  have far: "q \<notin> span (p + 1) (Suc (length xs))"
    using Cons.prems(4,5) by (intro far_span) auto
  have "same (span (p + 1) (Suc (length xs))) (byte s2) (byte st)"
    using far s2(3) s1(3) sub(2) unfolding same_def by fastforce
  then have c: "cstring (byte s2) (p + 1) xs" using x(3) cstring_cong Cons.prems(4) by simp
  have apart: "q + 1 = p + 1 \<or> Suc (length xs) \<le> unat (q + 1 - (p + 1))" using Cons.prems(5) by auto
  have "EmMem_strcpy get put (q + 1) (p + 1) s2 = Some (memcpy_loop get put (q + 1) (p + 1) (Suc (length xs)) s2)"
    using Cons.IH [OF s2(2) sub(4,2) _ apart c] Cons.prems(4) by simp
  then show ?case using s1(1) s2(1) x by (subst EmMem_strcpy.simps) simp
qed

lemma strcat_copy_ok:
  assumes "ok st" and "span q (Suc (length xs)) \<subseteq> valid" and "span p (Suc (length xs)) \<subseteq> valid"
    and "length xs < 2 ^ 32" and "q = p \<or> Suc (length xs) \<le> unat (q - p)" and "cstring (byte st) p xs"
  shows "\<exists>st'. strcat_copy get put q p st = Some (Inr (), st') \<and> ok st' \<and>
    cstring (byte st') q xs \<and> same (valid - span q (Suc (length xs))) (byte st') (byte st)"
  using assms
proof (induction xs arbitrary: q p st)
  case Nil
  then have v: "p \<in> valid" "q \<in> valid" by (auto simp: span_def)
  obtain s1 where s1: "get p st = (Inr (byte st p), s1)" "ok s1" "same valid (byte s1) (byte st)"
    by (rule get_same [OF Nil(1) v(1)])
  obtain s2 where s2: "put q 0 s1 = (Inr (), s2)" "ok s2" "\<forall>b\<in>valid. byte s2 b = (if b = q then 0 else byte s1 b)"
    by (rule put_okE [OF s1(2) v(2), of 0])
  have "same (valid - span q (Suc 0)) (byte s2) (byte st)"
    using s2(3) s1(3) span_Suc [of 0 q] by (auto simp: same_def)
  then show ?case using s1 s2 Nil(6) v by (subst strcat_copy.simps) auto
next
  case (Cons x xs)
  note spq = span_Suc [of "Suc (length xs)" q]
  have sub: "p \<in> valid" "span (p + 1) (Suc (length xs)) \<subseteq> valid" "q \<in> valid" "span (q + 1) (Suc (length xs)) \<subseteq> valid"
    using Cons.prems(2,3) span_Suc [of "Suc (length xs)" p] spq Cons.prems(4) by auto
  have x: "byte st p = x" "x \<noteq> 0" "cstring (byte st) (p + 1) xs" using Cons.prems(6) by auto
  obtain s1 where s1: "get p st = (Inr (byte st p), s1)" "ok s1" "same valid (byte s1) (byte st)"
    by (rule get_same [OF Cons.prems(1) sub(1)])
  obtain s1' where s1': "get p s1 = (Inr (byte s1 p), s1')" "ok s1'" "same valid (byte s1') (byte s1)"
    by (rule get_same [OF s1(2) sub(1)])
  have again: "byte s1 p = x" using s1(3) sub(1) x(1) by (simp add: same_def)
  obtain s2 where s2: "put q x s1' = (Inr (), s2)" "ok s2"
    "\<forall>b\<in>valid. byte s2 b = (if b = q then x else byte s1' b)"
    by (rule put_okE [OF s1'(2) sub(3), of x])
  have s2': "\<forall>b\<in>valid. byte s2 b = (if b = q then x else byte st b)"
    using s2(3) s1(3) s1'(3) by (simp add: same_def)
  have far: "q \<notin> span (p + 1) (Suc (length xs))"
    using Cons.prems(4,5) by (intro far_span) auto
  have "same (span (p + 1) (Suc (length xs))) (byte s2) (byte st)"
    using far s2' sub(2) unfolding same_def by fastforce
  then have c: "cstring (byte s2) (p + 1) xs" using x(3) cstring_cong Cons.prems(4) by simp
  have apart: "q + 1 = p + 1 \<or> Suc (length xs) \<le> unat (q + 1 - (p + 1))" using Cons.prems(5) by auto
  obtain s3 where s3: "strcat_copy get put (q + 1) (p + 1) s2 = Some (Inr (), s3)" "ok s3"
    "cstring (byte s3) (q + 1) xs" "same (valid - span (q + 1) (Suc (length xs))) (byte s3) (byte s2)"
    using Cons.IH [OF s2(2) sub(4,2) _ apart c] Cons.prems(4) by auto
  have qn: "q \<notin> span (q + 1) (Suc (length xs))" using notin_span_Suc [of "Suc (length xs)" q] Cons.prems(4) by simp
  have "cstring (byte s3) q (x # xs)" using s3(3,4) s2' sub(3) qn x(2) by (simp add: same_def)
  moreover have "same (valid - span q (Suc (length (x # xs)))) (byte s3) (byte st)"
    using s3(4) s2' spq Cons.prems(4) by (auto simp: same_def)
  moreover have "strcat_copy get put q p st = Some (Inr (), s3)"
    using s1(1) s1'(1) s2(1) s3(1) x again by (subst strcat_copy.simps) simp
  ultimately show ?case using s3(2) by blast
qed

subsection \<open>Comparing and searching\<close>

lemma memcmp_loop_ok:
  assumes "ok st" and "span p1 n \<subseteq> valid" and "span p2 n \<subseteq> valid" and "n \<le> 2 ^ 32"
  shows "\<exists>st'. memcmp_loop get get p1 p2 n st = (Inr (if bytes_at (byte st) p1 n = bytes_at (byte st) p2 n then 0
      else if bytes_at (byte st) p1 n < bytes_at (byte st) p2 n then - 1 else 1), st') \<and> ok st' \<and>
    same valid (byte st') (byte st)"
  using assms
proof (induction n arbitrary: p1 p2 st)
  case 0
  then show ?case by (simp add: same_def)
next
  case (Suc n)
  have sub: "p1 \<in> valid" "span (p1 + 1) n \<subseteq> valid" "p2 \<in> valid" "span (p2 + 1) n \<subseteq> valid"
    using Suc.prems(2,3) span_Suc [OF Suc.prems(4), of p1] span_Suc [OF Suc.prems(4), of p2] by auto
  obtain s1 where s1: "get p1 st = (Inr (byte st p1), s1)" "ok s1" "same valid (byte s1) (byte st)"
    by (rule get_same [OF Suc.prems(1) sub(1)])
  obtain s2 where s2: "get p2 s1 = (Inr (byte s1 p2), s2)" "ok s2" "same valid (byte s2) (byte s1)"
    by (rule get_same [OF s1(2) sub(3)])
  have s21: "same valid (byte s2) (byte st)" using s2(3) s1(3) by (rule same_trans)
  have b2: "byte s1 p2 = byte st p2" using s1(3) sub(3) by (simp add: same_def)
  have eq: "bytes_at (byte s2) (p1 + 1) n = bytes_at (byte st) (p1 + 1) n"
    "bytes_at (byte s2) (p2 + 1) n = bytes_at (byte st) (p2 + 1) n"
    using bytes_at_cong [OF same_subset [OF s21]] sub Suc.prems(4) by auto
  obtain s3 where s3: "memcmp_loop get get (p1 + 1) (p2 + 1) n s2 =
      (Inr (if bytes_at (byte st) (p1 + 1) n = bytes_at (byte st) (p2 + 1) n then 0
      else if bytes_at (byte st) (p1 + 1) n < bytes_at (byte st) (p2 + 1) n then - 1 else 1), s3)" "ok s3"
    "same valid (byte s3) (byte s2)"
    using Suc.IH [OF s2(2) sub(2,4)] Suc.prems(4) unfolding eq by auto
  show ?case
  proof (cases "byte st p1 = byte st p2")
    case True
    then show ?thesis using s1(1) s2(1) s3 b2 same_trans [OF s3(3) s21] by (simp add: bytes_at_Suc)
  next
    case False
    then show ?thesis using s1(1) s2(1,2) b2 s21 by (simp add: bytes_at_Suc)
  qed
qed

lemma memchr_loop_ok:
  assumes "ok st" and "span p n \<subseteq> valid" and "n \<le> 2 ^ 32"
  shows "\<exists>st'. memchr_loop get p (ucast c) n st = (Inr (if \<not> bit c 7 \<and> c \<in> set (bytes_at (byte st) p n)
      then p + of_nat (length (takeWhile ((\<noteq>) c) (bytes_at (byte st) p n))) else 0), st') \<and> ok st' \<and>
    same valid (byte st') (byte st)"
  using assms
proof (induction n arbitrary: p st)
  case 0
  then show ?case by (simp add: same_def)
next
  case (Suc n)
  have sub: "p \<in> valid" "span (p + 1) n \<subseteq> valid" using Suc.prems(2) span_Suc [OF Suc.prems(3), of p] by auto
  obtain s1 where s1: "get p st = (Inr (byte st p), s1)" "ok s1" "same valid (byte s1) (byte st)"
    by (rule get_same [OF Suc.prems(1) sub(1)])
  have eq: "bytes_at (byte s1) (p + 1) n = bytes_at (byte st) (p + 1) n"
    using bytes_at_cong [OF same_subset [OF s1(3) sub(2)]] Suc.prems(3) by simp
  obtain s2 where s2: "memchr_loop get (p + 1) (ucast c) n s1 = (Inr (if \<not> bit c 7 \<and> c \<in> set (bytes_at (byte st) (p + 1) n)
      then p + 1 + of_nat (length (takeWhile ((\<noteq>) c) (bytes_at (byte st) (p + 1) n))) else 0), s2)" "ok s2"
    "same valid (byte s2) (byte s1)"
    using Suc.IH [OF s1(2) sub(2)] Suc.prems(3) unfolding eq by auto
  show ?case
  proof (cases "\<not> bit c 7 \<and> byte st p = c")
    case True
    then have "scast (byte st p) = (ucast c :: uint32)" by (simp add: scast_ucast_8)
    then show ?thesis using s1 True by (simp add: bytes_at_Suc)
  next
    case False
    then have "scast (byte st p) \<noteq> (ucast c :: uint32)" by (simp add: scast_ucast_8)
    then show ?thesis using s1(1) s2 same_trans [OF s2(3) s1(3)] False by (auto simp: bytes_at_Suc add.assoc)
  qed
qed

lemma strcpy_ok:
  assumes "ok st" and "span q (Suc (length xs)) \<subseteq> valid" and "span p (Suc (length xs)) \<subseteq> valid"
    and "length xs < 2 ^ 32" and "q = p \<or> Suc (length xs) \<le> unat (q - p)" and "cstring (byte st) p xs"
  shows "\<exists>st'. EmMem_strcpy get put q p st = Some (Inr (), st') \<and> ok st' \<and> cstring (byte st') q xs \<and>
    same (valid - span q (Suc (length xs))) (byte st') (byte st)"
proof -
  have le: "Suc (length xs) \<le> 2 ^ 32" using assms(4) by simp
  obtain st' where st': "memcpy_loop get put q p (Suc (length xs)) st = (Inr (), st')" "ok st'"
    "\<forall>b\<in>valid. byte st' b = (if b \<in> span q (Suc (length xs)) then byte st (p + (b - q)) else byte st b)"
    using memcpy_loop_ok [OF assms(1-3) le assms(5)] by blast
  have "byte st' (q + of_nat k) = byte st (p + of_nat k)" if "k < Suc (length xs)" for k
    using of_nat_in_span [OF that le, of q] assms(2) st'(3) by auto
  then have "bytes_at (byte st') q (Suc (length xs)) = bytes_at (byte st) p (Suc (length xs))"
    by (simp add: bytes_at_def del: upt_Suc)
  then have "cstring (byte st') q xs" using assms(6) by (simp add: cstring_bytes_at)
  then show ?thesis using st' strcpy_memcpy [OF assms] by (auto simp: same_def)
qed

lemma strcat_ok:
  assumes "ok st" and "span d (Suc (length ds + length xs)) \<subseteq> valid" and "span p (Suc (length xs)) \<subseteq> valid"
    and "length ds + length xs < 2 ^ 32" and "span d (Suc (length ds + length xs)) \<inter> span p (Suc (length xs)) = {}"
    and "cstring (byte st) d ds" and "cstring (byte st) p xs"
  shows "\<exists>st'. EmMem_strcat get get put d p st = Some (Inr (), st') \<and> ok st' \<and> cstring (byte st') d (ds @ xs) \<and>
    same (valid - span d (Suc (length ds + length xs))) (byte st') (byte st)"
proof -
  let ?q = "d + of_nat (length ds)"
  have sp: "span d (Suc (length ds + length xs)) = span d (length ds) \<union> span ?q (Suc (length xs))"
    using span_add [of "length ds" "Suc (length xs)" d] assms(4) by simp
  have "span d (Suc (length ds)) \<subseteq> valid" using assms(2) span_mono [of "Suc (length ds)" "Suc (length ds + length xs)" d] by auto
  then obtain s1 where s1: "strlen_loop get d st = Some (Inr ?q, s1)" "ok s1" "same valid (byte s1) (byte st)"
    using strlen_loop_ok [OF assms(1) _ _ assms(6)] assms(4) by auto
  have c: "cstring (byte s1) p xs"
    using assms(4,7) cstring_cong [OF same_subset [OF s1(3) assms(3)]] by simp
  have sub: "span ?q (Suc (length xs)) \<subseteq> valid" using assms(2) sp by blast
  have "?q \<in> span ?q (Suc (length xs))" by (simp add: span_def)
  then have "?q \<notin> span p (Suc (length xs))" using assms(5) sp by blast
  then have apart: "?q = p \<or> Suc (length xs) \<le> unat (?q - p)" by (simp add: span_def not_less)
  obtain s2 where s2: "strcat_copy get put ?q p s1 = Some (Inr (), s2)" "ok s2" "cstring (byte s2) ?q xs"
    "same (valid - span ?q (Suc (length xs))) (byte s2) (byte s1)"
    using strcat_copy_ok [OF s1(2) sub assms(3) _ apart c] assms(4) by auto
  have disj: "span d (length ds) \<inter> span ?q (Suc (length xs)) = {}"
    using assms(4) by (intro span_disjoint) simp
  have "span d (length ds) \<subseteq> valid - span ?q (Suc (length xs))" "span d (length ds) \<subseteq> valid"
    using assms(2) disj unfolding sp by auto
  then have "same (span d (length ds)) (byte s2) (byte st)"
    using same_trans [OF same_subset [OF s2(4)] same_subset [OF s1(3)]] by simp
  then have "bytes_at (byte s2) d (length ds) = bytes_at (byte st) d (length ds)"
    using assms(4) by (intro bytes_at_cong) auto
  then have "cstring (byte s2) d (ds @ xs)"
    using assms(6) s2(3) cstring_append [of "byte st" d ds "[]"] by (simp add: cstring_append)
  moreover have "same (valid - span d (Suc (length ds + length xs))) (byte s2) (byte st)"
    unfolding sp by (rule same_trans [OF same_subset [OF s2(4)] same_subset [OF s1(3)]]) auto
  ultimately show ?thesis using s1(1) s2(1,2) by (simp add: EmMem_strcat_def after_end_def)
qed

lemma strcmp_ok:
  assumes "ok st" and "span p1 (Suc (length xs)) \<subseteq> valid" and "span p2 (Suc (length ys)) \<subseteq> valid"
    and "length xs < 2 ^ 32" and "length ys < 2 ^ 32" and "cstring (byte st) p1 xs" and "cstring (byte st) p2 ys"
  shows "\<exists>r st'. EmMem_strcmp get get p1 p2 st = Some (Inr r, st') \<and> (r = 0 \<longleftrightarrow> xs = ys) \<and> (r < 0 \<longleftrightarrow> xs < ys)"
  using assms
proof (induction xs arbitrary: p1 p2 ys st)
  case Nil
  then have v: "p1 \<in> valid" "p2 \<in> valid" by (auto simp: span_def)
  obtain s1 where s1: "get p1 st = (Inr (byte st p1), s1)" "ok s1" "same valid (byte s1) (byte st)"
    by (rule get_same [OF Nil(1) v(1)])
  obtain s2 where s2: "get p2 s1 = (Inr (byte s1 p2), s2)" by (rule get_same [OF s1(2) v(2)])
  have "byte s1 p2 = byte st p2" using s1(3) v(2) by (simp add: same_def)
  then show ?case using Nil(6,7) s1(1) s2 by (cases ys) (subst EmMem_strcmp.simps, simp add: uint_nz)+
next
  case (Cons x xs)
  have v: "p1 \<in> valid" "span (p1 + 1) (Suc (length xs)) \<subseteq> valid" "p2 \<in> valid"
    using Cons.prems(2,3,4) span_Suc [of "Suc (length xs)" p1] by (auto simp: span_def)
  obtain s1 where s1: "get p1 st = (Inr (byte st p1), s1)" "ok s1" "same valid (byte s1) (byte st)"
    by (rule get_same [OF Cons.prems(1) v(1)])
  obtain s2 where s2: "get p2 s1 = (Inr (byte s1 p2), s2)" "ok s2" "same valid (byte s2) (byte s1)"
    by (rule get_same [OF s1(2) v(3)])
  have b2: "byte s1 p2 = byte st p2" using s1(3) v(3) by (simp add: same_def)
  have s21: "same valid (byte s2) (byte st)" using s2(3) s1(3) by (rule same_trans)
  show ?case
  proof (cases ys)
    case Nil
    then show ?thesis using Cons.prems(6,7) s1(1) s2(1) b2
      by (subst EmMem_strcmp.simps) (auto simp: uint_nz dest: uint_nz)
  next
    case ys: (Cons y ys')
    have v2: "span (p2 + 1) (Suc (length ys')) \<subseteq> valid"
      using Cons.prems(3,5) ys span_Suc [of "Suc (length ys')" p2] by auto
    show ?thesis
    proof (cases "x = y")
      case True
      have c: "cstring (byte s2) (p1 + 1) xs" "cstring (byte s2) (p2 + 1) ys'"
        using Cons.prems ys cstring_cong [OF same_subset [OF s21 v(2)]] cstring_cong [OF same_subset [OF s21 v2]] by auto
      obtain r s3 where "EmMem_strcmp get get (p1 + 1) (p2 + 1) s2 = Some (Inr r, s3)" "r = 0 \<longleftrightarrow> xs = ys'" "r < 0 \<longleftrightarrow> xs < ys'"
        using Cons.IH [OF s2(2) v(2) v2 _ _ c] Cons.prems(4,5) ys by auto
      then show ?thesis using Cons.prems(6,7) s1(1) s2(1) b2 ys True by (subst EmMem_strcmp.simps) simp
    next
      case False
      then show ?thesis using Cons.prems(6,7) s1(1) s2(1) b2 ys
        by (subst EmMem_strcmp.simps) (simp add: word_less_def word_uint_eq_iff)
    qed
  qed
qed

end

section \<open>Long words\<close>

lemma long_byte_value:
  assumes "k < 4"
  shows "long_byte (long_value (ucast (v :: uint8))) k = v"
proof (rule bit_word_eqI)
  fix n
  assume n: "n < LENGTH(8)"
  from assms consider "k = 0" | "k = 1" | "k = 2" | "k = 3" by linarith
  then show "bit (long_byte (long_value (ucast v)) k) n = bit v n"
    using n by cases (auto simp: long_byte_def long_value_def Let_def bit_simps dest: bit_imp_le_length)
qed

lemma aligned_add_4: "(q :: uint32) AND 3 = 0 \<Longrightarrow> (q + 4) AND 3 = 0"
proof -
  assume "q AND 3 = 0"
  then have "q AND 3 = 0 AND 3" by simp
  then have "uint q mod 4 = 0" unfolding AND_3_iff by simp
  then have "uint (q + 4) mod 4 = uint (0 :: uint32) mod 4" by (simp add: uint_word_ariths mod_mod_cancel)
  then have "(q + 4) AND 3 = 0 AND 3" unfolding AND_3_iff .
  then show ?thesis by simp
qed

locale long_space = byte_space +
  fixes lput :: "uint32 \<Rightarrow> uint32 \<Rightarrow> machine \<Rightarrow> unit outcome"
  assumes lput_law: "ok st \<Longrightarrow> q AND 3 = 0 \<Longrightarrow> span q 4 \<subseteq> valid \<Longrightarrow>
      \<exists>st'. lput q v st = (Inr (), st') \<and> ok st' \<and>
        (\<forall>b\<in>valid. byte st' b = (if b \<in> span q 4 then long_byte v (unat (b - q)) else byte st b))"
begin

text \<open>The bytes of a set have a value, the other ones are as before.\<close>

abbreviation filled :: "uint32 set \<Rightarrow> uint8 \<Rightarrow> machine \<Rightarrow> machine \<Rightarrow> bool" where
  "filled A v st st' \<equiv> \<forall>b\<in>valid. byte st' b = (if b \<in> A then v else byte st b)"

abbreviation wput :: "uint32 \<Rightarrow> uint32 \<Rightarrow> machine \<Rightarrow> unit outcome" where
  "wput q v \<equiv> put q (ucast v)"

lemma wput_filled:
  assumes "ok st" and "q \<in> valid"
  obtains st' where "wput q (ucast v) st = (Inr (), st')" and "ok st'" and "filled {q} v st st'"
proof -
  obtain s where "put q v st = (Inr (), s)" "ok s" "filled {q} v st s"
    using put_law [OF assms, of v] by auto
  then show thesis by (intro that [of s]) simp_all
qed

lemma memset_trailing_ok:
  assumes "ok st" and "span q n \<subseteq> valid" and "n \<le> 2 ^ 32"
  shows "\<exists>st'. memset_trailing wput (ucast v) q n st = (Inr (), st') \<and> ok st' \<and> filled (span q n) v st st'"
  using assms
proof (induction n arbitrary: q st)
  case (Suc n)
  note sp = span_Suc [OF Suc.prems(3), of q]
  obtain s1 where s1: "wput q (ucast v) st = (Inr (), s1)" "ok s1" "filled {q} v st s1"
    using Suc.prems(2) sp by (auto intro: wput_filled [OF Suc.prems(1), of q v])
  obtain s2 where "memset_trailing wput (ucast v) (q + 1) n s1 = (Inr (), s2)" "ok s2"
    "filled (span (q + 1) n) v s1 s2"
    using Suc.IH [OF s1(2), of "q + 1"] Suc.prems(2,3) sp by auto
  then show ?case using s1 sp by simp
qed simp

lemma memset_leading_ok:
  assumes "ok st" and "span q n \<subseteq> valid" and "n \<le> 2 ^ 32"
  shows "\<exists>k st'. k \<le> n \<and> memset_leading wput (ucast v) q n st = (Inr (q + of_nat k, n - k), st') \<and>
    (k < n \<longrightarrow> (q + of_nat k) AND 3 = 0) \<and> ok st' \<and> filled (span q k) v st st'"
  using assms
proof (induction n arbitrary: q st)
  case (Suc n)
  note sp = span_Suc [OF Suc.prems(3), of q]
  show ?case
  proof (cases "q AND 3 = 0")
    case True
    then show ?thesis using Suc.prems(1) by (intro exI [of _ 0] exI [of _ st]) simp
  next
    case False
    obtain s1 where s1: "wput q (ucast v) st = (Inr (), s1)" "ok s1" "filled {q} v st s1"
      using Suc.prems(2) sp by (auto intro: wput_filled [OF Suc.prems(1), of q v])
    obtain k s2 where k: "k \<le> n" "memset_leading wput (ucast v) (q + 1) n s1 = (Inr (q + 1 + of_nat k, n - k), s2)"
      "k < n \<longrightarrow> (q + 1 + of_nat k) AND 3 = 0" "ok s2" "filled (span (q + 1) k) v s1 s2"
      using Suc.IH [OF s1(2), of "q + 1"] Suc.prems(2,3) sp by auto
    have "filled (span q (Suc k)) v st s2"
      using k(1,5) s1(3) span_Suc [of k q] Suc.prems(3) by simp
    then show ?thesis using False s1(1) k
      by (intro exI [of _ "Suc k"] exI [of _ s2]) (simp add: add.assoc)
  qed
qed simp

lemma memset_longs_ok:
  assumes "ok st" and "span q n \<subseteq> valid" and "n \<le> 2 ^ 32" and "q AND 3 = 0 \<or> n < 4"
  shows "\<exists>k st'. k \<le> n \<and> memset_longs lput (long_value (ucast v)) q n st = (Inr (q + of_nat k, n - k), st') \<and>
    ok st' \<and> filled (span q k) v st st'"
  using assms
proof (induction n arbitrary: q st rule: less_induct)
  case (less n)
  show ?case
  proof (cases "n < 4")
    case True
    then have "memset_longs lput (long_value (ucast v)) q n st = (Inr (q, n), st)"
      by (cases "(lput, long_value (ucast v), q, n, st)" rule: memset_longs.cases) auto
    then show ?thesis using less.prems(1) by (intro exI [of _ 0] exI [of _ st]) simp
  next
    case False
    then obtain m where nm: "n = 4 + m" using le_Suc_ex [of 4 n] by auto
    then have m: "n = Suc (Suc (Suc (Suc m)))" by simp
    have sp: "span q (4 + k) = span q 4 \<union> span (q + 4) k" if "k \<le> m" for k
      using span_add [of 4 k q] that less.prems(3) nm by simp
    have sub: "span q 4 \<subseteq> valid" "span (q + 4) m \<subseteq> valid" using less.prems(2) sp [of m] nm by auto
    obtain s1 where s1: "lput q (long_value (ucast v)) st = (Inr (), s1)" "ok s1"
      "\<forall>b\<in>valid. byte s1 b = (if b \<in> span q 4 then long_byte (long_value (ucast v)) (unat (b - q)) else byte st b)"
      using lput_law [OF less.prems(1) _ sub(1)] less.prems(4) False by blast
    have f: "filled (span q 4) v st s1" using s1(3) long_byte_value by (simp add: span_def)
    have al: "(q + 4) AND 3 = 0 \<or> m < 4" using less.prems(4) False aligned_add_4 by blast
    obtain k s2 where k: "k \<le> m" "memset_longs lput (long_value (ucast v)) (q + 4) m s1 = (Inr (q + 4 + of_nat k, m - k), s2)"
      "ok s2" "filled (span (q + 4) k) v s1 s2"
      using less.IH [of m, OF _ s1(2) sub(2) _ al] less.prems(3) nm by auto
    have "filled (span q (4 + k)) v st s2" using f k(4) sp [OF k(1)] by simp
    moreover have "memset_longs lput (long_value (ucast v)) q n st = (Inr (q + of_nat (4 + k), n - (4 + k)), s2)"
      using s1(1) k(2) m by (simp add: add.assoc)
    ultimately show ?thesis using k nm by (intro exI [of _ "4 + k"] exI [of _ s2]) simp
  qed
qed

lemma memset_ok:
  assumes "ok st" and "span q n \<subseteq> valid" and "n \<le> 2 ^ 32"
  shows "\<exists>st'. andthen (memset_leading wput (ucast v) q n st) (\<lambda>(q, len) st.
      andthen (memset_longs lput (long_value (ucast v)) q len st) (\<lambda>(q, len) st.
      memset_trailing wput (ucast v) q len st)) = (Inr (), st') \<and> ok st' \<and> filled (span q n) v st st'"
proof -
  obtain k s1 where k: "k \<le> n" "memset_leading wput (ucast v) q n st = (Inr (q + of_nat k, n - k), s1)"
    "k < n \<longrightarrow> (q + of_nat k) AND 3 = 0" "ok s1" "filled (span q k) v st s1"
    using memset_leading_ok [OF assms] by blast
  have sp1: "span q n = span q k \<union> span (q + of_nat k) (n - k)"
    using span_add [of k "n - k" q] k(1) assms(3) by simp
  have sub1: "span (q + of_nat k) (n - k) \<subseteq> valid" using assms(2) sp1 by blast
  have al: "(q + of_nat k) AND 3 = 0 \<or> n - k < 4" using k(1,3) by (cases "k < n") auto
  obtain j s2 where j: "j \<le> n - k" "memset_longs lput (long_value (ucast v)) (q + of_nat k) (n - k) s1 =
      (Inr (q + of_nat k + of_nat j, n - k - j), s2)" "ok s2" "filled (span (q + of_nat k) j) v s1 s2"
    using memset_longs_ok [OF k(4) sub1 _ al] assms(3) by force
  define r where "r = n - k - j"
  have nk: "n - k = j + r" using j(1) by (simp add: r_def)
  have sp2: "span (q + of_nat k) (n - k) = span (q + of_nat k) j \<union> span (q + of_nat k + of_nat j) r"
    unfolding nk using nk assms(3) by (intro span_add) simp
  have r: "r \<le> 2 ^ 32" using nk assms(3) by simp
  have sub2: "span (q + of_nat k + of_nat j) r \<subseteq> valid" using sub1 sp2 by blast
  obtain s3 where s3: "memset_trailing wput (ucast v) (q + of_nat k + of_nat j) r s2 = (Inr (), s3)" "ok s3"
    "filled (span (q + of_nat k + of_nat j) r) v s2 s3"
    using memset_trailing_ok [OF j(3) sub2 r, of v] by blast
  have "filled (span q n) v st s3" using k(5) j(4) s3(3) unfolding sp1 sp2 by simp
  then show ?thesis using k(2) j(2) s3 by (simp add: r_def)
qed

end

end
