(* ===== verification/SramProps.thy ===== *)
theory SramProps
  imports ByteSpace
begin

text \<open>
  RAM behaves as an array of bytes: the storage bank (\<open>EmBankSRAM\<close>), by itself and behind the
  dispatch on banks, meets the contract of \<open>ByteSpace\<close>. The properties of the memory and string
  functions on emulated memory follow.
\<close>

section \<open>RAM in its place\<close>

definition ram_span :: "nat \<Rightarrow> uint32 set" where
  "ram_span k = span kMemoryStart (2 ^ k)"

text \<open>
  A machine with \<open>2 ^ k\<close> bytes of RAM, where user programs may write. The buffers have the size
  of the bank, and every address of RAM belongs to the storage bank.
\<close>

definition sram_ok :: "nat \<Rightarrow> machine \<Rightarrow> bool" where
  "sram_ok k st \<longleftrightarrow> 2 \<le> k \<and> k \<le> 28 \<and> length (gRAM_Memory st) = 2 ^ k \<and> length (gRAM_MetaMemory st) = 2 ^ k \<and>
     gRAMBank_Mask st = mask k \<and> \<not> fProtect_SRAMSet (gMemAccessFlags st) \<and>
     (\<forall>a\<in>ram_span k. gEmMemBanks st (EmMemBankIndex a) = Some bankSRAM)"

definition ram_offset :: "uint32 \<Rightarrow> nat" where
  "ram_offset a = unat (a - kMemoryStart)"

definition sram_byte :: "machine \<Rightarrow> uint32 \<Rightarrow> uint8" where
  "sram_byte st a = lbyte (gRAM_Memory st) (ram_offset a)"

lemma ram_span_offset: "a \<in> ram_span k \<longleftrightarrow> ram_offset a < 2 ^ k"
  by (simp add: ram_span_def span_def ram_offset_def)

lemma ram_offset_inject: "ram_offset a = ram_offset b \<longleftrightarrow> a = b"
  by (simp add: ram_offset_def flip: word_unat_eq_iff)

lemma masked_offset:
  assumes "k \<le> 28" and "a \<in> ram_span k"
  shows "unat (a AND mask k) = ram_offset a"
proof -
  have lt: "ram_offset a < 2 ^ k" using assms(2) ram_span_offset by blast
  have "(2::nat) ^ k \<le> 2 ^ 28" using assms(1) by (intro power_increasing) auto
  then have small: "ram_offset a < 2 ^ 28" using lt by linarith
  have a: "a = kMemoryStart + (a - kMemoryStart)" by simp
  have "unat a = 2 ^ 28 + ram_offset a"
    using small unat_add_small [of kMemoryStart "a - kMemoryStart"]
    by (subst a) (simp add: ram_offset_def kMemoryStart_def)
  moreover have "(2::nat) ^ 28 mod 2 ^ k = 0"
    using le_imp_power_dvd [OF assms(1), of "2::nat"] by (rule dvd_imp_mod_0)
  ultimately have "unat a mod 2 ^ k = ram_offset a" using lt by (metis mod_less mod_add_left_eq add_0)
  moreover have "unat (a AND mask k) = unat a mod 2 ^ k"
    by (simp add: take_bit_eq_mask [symmetric] unsigned_take_bit_eq) (simp add: take_bit_eq_mod)
  ultimately show ?thesis by simp
qed

lemma offset_add:
  assumes "k \<le> 28" and "a \<in> ram_span k" and "j < 4"
  shows "ram_offset (a + of_nat j) = ram_offset a + j"
proof -
  have "(2::nat) ^ k \<le> 2 ^ 28" using assms(1) by (intro power_increasing) auto
  then have "ram_offset a < 2 ^ 28" using assms(2) ram_span_offset [of a k] by linarith
  moreover have j: "unat (of_nat j :: uint32) = j" using assms(3) by (simp add: unat_of_nat)
  ultimately have "unat (a - kMemoryStart + of_nat j) = unat (a - kMemoryStart) + j"
    using assms(3) unat_add_small [of "a - kMemoryStart" "of_nat j"] by (simp add: ram_offset_def)
  moreover have "a + of_nat j - kMemoryStart = a - kMemoryStart + of_nat j" by simp
  ultimately show ?thesis by (simp only: ram_offset_def)
qed

lemma span_offset:
  assumes "sram_ok k st" and "span a (Suc n) \<subseteq> ram_span k" and "n < 4"
  shows "ram_offset a + n < 2 ^ k"
proof -
  have k: "k \<le> 28" using assms(1) by (simp add: sram_ok_def)
  have "a + of_nat n \<in> span a (Suc n)" using assms(3) by (intro of_nat_in_span) auto
  then have "a + of_nat n \<in> ram_span k" using assms(2) by blast
  moreover have "a \<in> ram_span k" using assms(2,3) by (auto simp: span_def)
  ultimately show ?thesis using offset_add [OF k _ assms(3), of a] ram_span_offset by simp
qed

section \<open>The operations of the bank\<close>

lemma PrvScreenCheck_ok:
  assumes "p + sz \<le> length (gRAM_MetaMemory st)" and "sz \<in> {1, 2, 4}"
  shows "PrvScreenCheck p a sz st = Some st \<or> PrvScreenCheck p a sz st = Some (MarkDirty a (of_nat sz) st)"
  using IsScreenBuffer_bytes [OF assms] by (auto simp: PrvScreenCheck_def split: bool.split)

lemma MarkDirty_fields [simp]:
  "gRAM_Memory (MarkDirty a sz st) = gRAM_Memory st" "gRAM_MetaMemory (MarkDirty a sz st) = gRAM_MetaMemory st"
  "gRAMBank_Mask (MarkDirty a sz st) = gRAMBank_Mask st" "gMemAccessFlags (MarkDirty a sz st) = gMemAccessFlags st"
  "gEmMemBanks (MarkDirty a sz st) = gEmMemBanks st"
  by (simp_all add: MarkDirty_def Let_def)

lemma store_ok:
  assumes "sram_ok k st" and "a \<in> ram_span k" and "ram_offset a + sz \<le> 2 ^ k" and "sz \<in> {1, 2, 4}"
    and "put (gRAM_Memory st) (ram_offset a) = Some m" and "length m = 2 ^ k"
  shows "\<exists>st'. EmBankSRAM_store sz put a st = (Inr (), st') \<and> sram_ok k st' \<and> gRAM_Memory st' = m"
proof -
  have k: "k \<le> 28" and off: "unat (a AND gRAMBank_Mask st) = ram_offset a"
    using assms(1) masked_offset [OF _ assms(2)] by (auto simp: sram_ok_def)
  have "ram_offset a + sz \<le> length (gRAM_MetaMemory st)" using assms(1,3) by (simp add: sram_ok_def)
  from PrvScreenCheck_ok [OF this assms(4), of a] obtain s where
    s: "PrvScreenCheck (ram_offset a) a sz st = Some s" "s = st \<or> s = MarkDirty a (of_nat sz) st" by blast
  let ?st' = "emit_event (CheckStepSpy a sz) (s\<lparr>gRAM_Memory := m\<rparr>)"
  have "EmBankSRAM_store sz put a st = (Inr (), ?st')"
    using s assms(5) by (auto simp: EmBankSRAM_store_def Let_def off)
  moreover have "sram_ok k ?st'" using assms(1,6) s(2) by (auto simp: sram_ok_def emit_event_def)
  moreover have "gRAM_Memory ?st' = m" by (simp add: emit_event_def)
  ultimately show ?thesis by blast
qed

lemma even_ram: "sram_ok k st \<Longrightarrow> even (length (gRAM_Memory st))"
  by (auto simp: sram_ok_def)

lemma odd_offset: "odd_address a \<longleftrightarrow> odd (ram_offset a)"
proof -
  have w: "odd_address x \<longleftrightarrow> odd x" for x by (simp add: odd_address_def and_one_eq odd_iff_mod_2_eq_one)
  have "odd a \<longleftrightarrow> odd (a - kMemoryStart)" by (simp add: kMemoryStart_def)
  then show ?thesis using odd_address_iff [of "a - kMemoryStart"] unfolding w ram_offset_def by blast
qed

lemma GetByte_ok:
  assumes "sram_ok k st" and "a \<in> ram_span k"
  shows "EmBankSRAM_GetByte a st = (Inr (ucast (sram_byte st a)), st)"
  using assms masked_offset [of k a] EmMemDoGet8_lbyte [OF even_ram [OF assms(1)], of "ram_offset a"]
    ram_span_offset [of a k]
  by (simp add: EmBankSRAM_GetByte_def switches sram_ok_def sram_byte_def)

lemma SetByte_ok:
  assumes "sram_ok k st" and "a \<in> ram_span k"
  shows "\<exists>st'. EmBankSRAM_SetByte a v st = (Inr (), st') \<and> sram_ok k st' \<and>
    (\<forall>b\<in>ram_span k. sram_byte st' b = (if b = a then ucast v else sram_byte st b))"
proof -
  have lt: "ram_offset a < length (gRAM_Memory st)" using assms ram_span_offset [of a k] by (simp add: sram_ok_def)
  let ?m = "lput (gRAM_Memory st) (ram_offset a) (ucast v)"
  have le: "ram_offset a + 1 \<le> 2 ^ k" and len: "length ?m = 2 ^ k" using lt assms(1) by (simp_all add: sram_ok_def)
  obtain st' where "EmBankSRAM_store 1 (\<lambda>m p. EmMemDoPut8 m p (ucast v)) a st = (Inr (), st')" "sram_ok k st'"
    "gRAM_Memory st' = ?m"
    using store_ok [where put = "\<lambda>m p. EmMemDoPut8 m p (ucast v)", OF assms le _ _ len] EmMemDoPut8_lput [OF even_ram [OF assms(1)] lt] by auto
  then show ?thesis using assms lbyte_lput [OF even_ram [OF assms(1)] lt]
    by (auto simp: EmBankSRAM_SetByte_def switches sram_ok_def sram_byte_def ram_offset_inject)
qed

lemma in_span_4: "b \<in> span q 4 \<longleftrightarrow> b = q \<or> b = q + 1 \<or> b = q + 2 \<or> b = q + (3 :: uint32)"
proof -
  have s: "span x (Suc n) = insert x (span (x + 1) n)" if "n \<le> 3" for n and x :: uint32
    using span_Suc [of n x] that by simp
  have "span q (Suc (Suc (Suc (Suc 0)))) = {q, q + 1, q + 2, q + 3}" by (simp add: s add.commute)
  moreover have "4 = Suc (Suc (Suc (Suc 0)))" by simp
  ultimately have "span q 4 = {q, q + 1, q + 2, q + 3}" by (simp only:)
  then show ?thesis by simp
qed

lemma long_offsets:
  assumes "sram_ok k st" and "span q 4 \<subseteq> ram_span k"
  shows "q \<in> ram_span k" and "ram_offset q + 3 < 2 ^ k"
    and "ram_offset (q + 1) = ram_offset q + 1" "ram_offset (q + 2) = ram_offset q + 2" "ram_offset (q + 3) = ram_offset q + 3"
proof -
  have k: "k \<le> 28" using assms(1) by (simp add: sram_ok_def)
  show q: "q \<in> ram_span k" using assms(2) in_span_4 by blast
  show "ram_offset q + 3 < 2 ^ k" using span_offset [OF assms(1), of q 3] assms(2) by simp
  show "ram_offset (q + 1) = ram_offset q + 1" "ram_offset (q + 2) = ram_offset q + 2" "ram_offset (q + 3) = ram_offset q + 3"
    using offset_add [OF k q, of 1] offset_add [OF k q, of 2] offset_add [OF k q, of 3] by simp_all
qed

lemma SetLong_ok:
  assumes "sram_ok k st" and "\<not> odd_address q" and "span q 4 \<subseteq> ram_span k"
  shows "\<exists>st'. EmBankSRAM_SetLong q v st = (Inr (), st') \<and> sram_ok k st' \<and>
    (\<forall>b\<in>ram_span k. sram_byte st' b = (if b \<in> span q 4 then long_byte v (unat (b - q)) else sram_byte st b))"
proof -
  note off = long_offsets [OF assms(1,3)]
  let ?o = "ram_offset q"
  have ev: "even ?o" using assms(2) odd_offset by simp
  have len: "length (gRAM_Memory st) = 2 ^ k" using assms(1) by (simp add: sram_ok_def)
  define m where "m = lput (lput (lput (lput (gRAM_Memory st) ?o (ucast (drop_bit 24 v)))
     (?o + 1) (ucast (drop_bit 16 v))) (?o + 2) (ucast (drop_bit 8 v))) (?o + 3) (ucast v)"
  have put: "EmMemDoPut32 (gRAM_Memory st) ?o v = Some m"
    unfolding m_def using EmMemDoPut32_lput [OF ev] off(2) len by simp
  have lm: "length m = 2 ^ k" using len by (simp add: m_def)
  have le: "?o + 4 \<le> 2 ^ k" using off(2) by simp
  obtain st' where st': "EmBankSRAM_store 4 (\<lambda>m p. EmMemDoPut32 m p v) q st = (Inr (), st')" "sram_ok k st'"
    "gRAM_Memory st' = m"
    using store_ok [where put = "\<lambda>m p. EmMemDoPut32 m p v", OF assms(1) off(1) le _ put lm] by auto
  have set: "EmBankSRAM_SetLong q v st = (Inr (), st')"
    using st'(1) assms(1,2) by (simp add: EmBankSRAM_SetLong_def switches sram_ok_def)
  have "sram_byte st' b = (if b \<in> span q 4 then long_byte v (unat (b - q)) else sram_byte st b)" for b
  proof -
    have l: "lbyte m (ram_offset b) = (if ram_offset b = ?o + 3 then ucast v else if ram_offset b = ?o + 2 then ucast (drop_bit 8 v)
      else if ram_offset b = ?o + 1 then ucast (drop_bit 16 v) else if ram_offset b = ?o then ucast (drop_bit 24 v)
      else lbyte (gRAM_Memory st) (ram_offset b))"
      using off(2) len even_ram [OF assms(1)] by (simp add: m_def lbyte_lput)
    have eq: "ram_offset b = ?o + 3 \<longleftrightarrow> b = q + 3" "ram_offset b = ?o + 2 \<longleftrightarrow> b = q + 2" "ram_offset b = ?o + 1 \<longleftrightarrow> b = q + 1"
      "ram_offset b = ?o \<longleftrightarrow> b = q"
      using off(3-5) ram_offset_inject by metis+
    show ?thesis
      unfolding sram_byte_def st'(3) l eq in_span_4 by (auto simp: long_byte_def)
  qed
  with set st'(2) show ?thesis by blast
qed

lemma GetLong_ok:
  assumes "sram_ok k st" and "\<not> odd_address q" and "span q 4 \<subseteq> ram_span k"
  shows "EmBankSRAM_GetLong q st =
    (Inr (be32 (sram_byte st q) (sram_byte st (q + 1)) (sram_byte st (q + 2)) (sram_byte st (q + 3))), st)"
proof -
  note off = long_offsets [OF assms(1,3)]
  have ev: "even (ram_offset q)" using assms(2) odd_offset by simp
  have "unat (q AND gRAMBank_Mask st) = ram_offset q"
    using assms(1) masked_offset [OF _ off(1)] by (simp add: sram_ok_def)
  then show ?thesis using assms(1,2) EmMemDoGet32_lbyte [OF ev, of "gRAM_Memory st"] off
    by (simp add: EmBankSRAM_GetLong_def switches sram_ok_def sram_byte_def)
qed

text \<open>The last word of RAM is not the place for a long: the host reads beyond the buffer.\<close>

lemma GetLong_overrun:
  assumes "sram_ok k st" and "ram_offset q = 2 ^ k - 2"
  shows "EmBankSRAM_GetLong q st = (Inl HostFault, st)"
proof -
  have p: "(2::nat) \<le> 2 ^ k" "even ((2::nat) ^ k)" using assms(1) power_increasing [of 1 k "2::nat"] by (auto simp: sram_ok_def)
  then have q: "q \<in> ram_span k" using assms(2) by (simp add: ram_span_offset)
  have ev: "\<not> odd_address q" using assms(2) p by (simp add: odd_offset)
  have "unat (q AND gRAMBank_Mask st) = 2 ^ k - 2"
    using assms masked_offset [OF _ q] by (simp add: sram_ok_def)
  moreover have "2 ^ k - 2 + 2 = length (gRAM_Memory st)" using assms(1) p by (simp add: sram_ok_def)
  ultimately show ?thesis using ev assms(1)
    by (simp add: EmBankSRAM_GetLong_def switches sram_ok_def EmMemDoGet32_def host_get16_def host_byte_def
        split: option.split)
qed

section \<open>The contract\<close>

definition sram_get :: getter where
  "sram_get a st = andthen (EmBankSRAM_GetByte a st) (\<lambda>v st. (Inr (ucast v), st))"

definition sram_put :: putter where
  "sram_put a v st = EmBankSRAM_SetByte a (ucast v) st"

lemma aligned_even: "q AND 3 = 0 \<Longrightarrow> \<not> odd_address q"
proof -
  assume "q AND 3 = 0"
  then have "q AND 3 = 0 AND 3" by simp
  then have "uint q mod 4 = 0" unfolding AND_3_iff by simp
  moreover have "uint q = int (unat q)" by simp
  ultimately have "even (unat q)" by presburger
  then show ?thesis by (simp add: odd_address_iff)
qed

interpretation sram: long_space sram_get sram_put "sram_ok k" "ram_span k" sram_byte EmBankSRAM_SetLong
  for k
proof
  show "\<exists>st'. sram_get a st = (Inr (sram_byte st a), st') \<and> sram_ok k st' \<and> (\<forall>b\<in>ram_span k. sram_byte st' b = sram_byte st b)"
    if "sram_ok k st" "a \<in> ram_span k" for st a
    using GetByte_ok [OF that] that(1) by (simp add: sram_get_def)
  show "\<exists>st'. sram_put a v st = (Inr (), st') \<and> sram_ok k st' \<and>
      (\<forall>b\<in>ram_span k. sram_byte st' b = (if b = a then v else sram_byte st b))"
    if "sram_ok k st" "a \<in> ram_span k" for st a v
    using SetByte_ok [OF that, of "ucast v"] unfolding sram_put_def ucast_8_32 .
  show "\<exists>st'. EmBankSRAM_SetLong q v st = (Inr (), st') \<and> sram_ok k st' \<and>
      (\<forall>b\<in>ram_span k. sram_byte st' b = (if b \<in> span q 4 then long_byte v (unat (b - q)) else sram_byte st b))"
    if "sram_ok k st" "q AND 3 = 0" "span q 4 \<subseteq> ram_span k" for st q v
    using SetLong_ok [OF that(1) aligned_even [OF that(2)] that(3)] .
qed

lemma ram_bank: "sram_ok k st \<Longrightarrow> a \<in> ram_span k \<Longrightarrow> gEmMemBanks st (EmMemBankIndex a) = Some bankSRAM"
  by (simp add: sram_ok_def)

text \<open>Behind the dispatch.\<close>

interpretation ram: byte_space "get_byte_emu pf" "put_byte_emu pf" "sram_ok k" "ram_span k" sram_byte
  for pf k
proof
  show "\<exists>st'. get_byte_emu pf a st = (Inr (sram_byte st a), st') \<and> sram_ok k st' \<and>
      (\<forall>b\<in>ram_span k. sram_byte st' b = sram_byte st b)"
    if "sram_ok k st" "a \<in> ram_span k" for st a
    using sram.get_law [OF that] ram_bank [OF that]
    by (simp add: get_byte_emu_def EmMemGet8_def on_bank_def bank_bget_def sram_get_def)
  show "\<exists>st'. put_byte_emu pf a v st = (Inr (), st') \<and> sram_ok k st' \<and>
      (\<forall>b\<in>ram_span k. sram_byte st' b = (if b = a then v else sram_byte st b))"
    if "sram_ok k st" "a \<in> ram_span k" for st a v
    using sram.put_law [OF that, of v] ram_bank [OF that]
    by (simp add: put_byte_emu_def EmMemPut8_def on_bank_def bank_bput_def sram_put_def)
qed

end
