(* ===== verification/RamResults.thy ===== *)
theory RamResults
  imports SramProps
begin

text \<open>
  The properties of accesses to RAM and of the memory and string functions on it. They are
  the lemmas of \<open>byte_space\<close> and \<open>long_space\<close>, used through the interpretations of \<open>SramProps\<close>.
\<close>

section \<open>Machines for examples\<close>

definition plain_platform :: platform where
  "plain_platform = \<lparr>regs_get = (\<lambda>_ _ st. (Inr 0, st)), regs_put = (\<lambda>_ _ _ st. (Inr (), st)),
     regs_real = (\<lambda>_ _. 0), ram_base = 0x08000000, rom_base = 0x0A000000, regs_Initialize = (\<lambda>st. st),
     regs_Reset = (\<lambda>_ st. st), regs_Save = (\<lambda>f st. (f, st)), regs_Load = (\<lambda>f st. (Inr f, st)),
     regs_Dispose = (\<lambda>st. st), regs_SetBankHandlers = (\<lambda>st. st), HardwareID = 0\<rparr>"

text \<open>Sixteen bytes of RAM, with the strings ``ab'' at offset 0 and ``ac'' at offset 4.\<close>

definition tiny_ram :: machine where
  "tiny_ram = blank_machine\<lparr>gRAM_Memory := [98, 97, 0, 0, 99, 97, 0, 0, 0, 0, 0, 0, 0, 0, 0, 0],
     gRAM_MetaMemory := replicate 16 0, gRAMBank_Size := 16, gRAMBank_Mask := 15,
     gMemAccessFlags := kZeroMemAccessFlags, gEmMemBanks := (\<lambda>_. Some bankSRAM)\<rparr>"

lemma tiny_ram_ok: "sram_ok 4 tiny_ram"
  by (simp add: sram_ok_def tiny_ram_def kZeroMemAccessFlags_def mask_eq_exp_minus_1)

lemma span_in_tiny: "ram_offset q + n \<le> 16 \<Longrightarrow> span q n \<subseteq> ram_span 4"
proof
  fix b
  assume n: "ram_offset q + n \<le> 16" and "b \<in> span q n"
  then have lt: "unat (b - q) < n" by (simp add: span_def)
  have "b - kMemoryStart = (q - kMemoryStart) + (b - q)" by simp
  moreover have "unat ((q - kMemoryStart) + (b - q)) = ram_offset q + unat (b - q)"
    using n lt unat_add_small [of "q - kMemoryStart" "b - q"] by (simp add: ram_offset_def)
  ultimately show "b \<in> ram_span 4" using n lt by (simp add: ram_span_offset ram_offset_def)
qed

lemma tiny_offsets [simp]: "ram_offset 0x10000000 = 0" "ram_offset 0x10000004 = 4" "ram_offset 0x10000001 = 1"
  "ram_offset 0x10000002 = 2" "ram_offset 0x10000008 = 8" "ram_offset 0x10000003 = 3" "ram_offset 0x10000005 = 5"
  "ram_offset 0x10000006 = 6" "ram_offset 0x1000000E = 14"
  by (simp_all add: ram_offset_def kMemoryStart_def)

lemma tiny_strings: "cstring (sram_byte tiny_ram) 0x10000000 [97, 98]" "cstring (sram_byte tiny_ram) 0x10000004 [97, 99]"
  by (simp_all add: sram_byte_def tiny_ram_def lbyte_def swap_byte_eq)

section \<open>Accesses\<close>

text \<open>
  C17: RAM is big-endian memory of bytes. A long word stored at an even address of RAM puts its
  bytes, most significant first, at that address and the three behind it, changes no other byte,
  and is what a load of the address returns; the load of a long word is its four bytes.
\<close>

theorem ram_long_is_four_bytes:
  assumes "sram_ok k st" and "\<not> odd_address q" and "span q 4 \<subseteq> ram_span k"
  shows "(\<exists>st'. EmMemPut32 pf q v st = (Inr (), st') \<and> sram_ok k st' \<and>
      fst (EmMemGet32 pf q st') = Inr v \<and>
      (\<forall>b\<in>ram_span k. fst (EmMemGet8 pf b st') =
        (if b \<in> span q 4 then Inr (ucast (long_byte v (unat (b - q)))) else fst (EmMemGet8 pf b st)))) \<and>
    EmMemGet32 pf q st = (Inr (be32 (sram_byte st q) (sram_byte st (q + 1)) (sram_byte st (q + 2))
      (sram_byte st (q + 3))), st)"
proof -
  have q: "q \<in> ram_span k" using assms(3) in_span_4 by blast
  have get: "EmMemGet32 pf q s = (Inr (be32 (sram_byte s q) (sram_byte s (q + 1)) (sram_byte s (q + 2))
      (sram_byte s (q + 3))), s)" if "sram_ok k s" for s
    using GetLong_ok [OF that assms(2,3)] ram_bank [OF that q] by (simp add: EmMemGet32_def on_bank_def bank_lget_def)
  from get [OF assms(1)] have now: "EmMemGet32 pf q st = (Inr (be32 (sram_byte st q) (sram_byte st (q + 1))
      (sram_byte st (q + 2)) (sram_byte st (q + 3))), st)" .
  obtain st' where st': "EmBankSRAM_SetLong q v st = (Inr (), st')" "sram_ok k st'"
    "\<forall>b\<in>ram_span k. sram_byte st' b = (if b \<in> span q 4 then long_byte v (unat (b - q)) else sram_byte st b)"
    using SetLong_ok [OF assms] by blast
  have mem: "q \<in> span q 4" "q + 1 \<in> span q 4" "q + 2 \<in> span q 4" "q + 3 \<in> span q 4" by (simp_all add: span_def)
  then have "sram_byte st' q = ucast (drop_bit 24 v)" "sram_byte st' (q + 1) = ucast (drop_bit 16 v)"
    "sram_byte st' (q + 2) = ucast (drop_bit 8 v)" "sram_byte st' (q + 3) = ucast v"
    using st'(3) assms(3) by (auto simp: long_byte_def)
  then have "fst (EmMemGet32 pf q st') = Inr v" using get [OF st'(2)] be32_of_bytes [of v] by simp
  moreover have "fst (EmMemGet8 pf b s) = Inr (ucast (sram_byte s b))" if "sram_ok k s" "b \<in> ram_span k" for s b
    using GetByte_ok [OF that] ram_bank [OF that] by (simp add: EmMemGet8_def on_bank_def bank_bget_def)
  moreover have "EmMemPut32 pf q v st = (Inr (), st')"
    using st'(1) ram_bank [OF assms(1) q] by (simp add: EmMemPut32_def on_bank_def bank_lput_def)
  ultimately have "\<exists>st'. EmMemPut32 pf q v st = (Inr (), st') \<and> sram_ok k st' \<and>
      fst (EmMemGet32 pf q st') = Inr v \<and>
      (\<forall>b\<in>ram_span k. fst (EmMemGet8 pf b st') =
        (if b \<in> span q 4 then Inr (ucast (long_byte v (unat (b - q)))) else fst (EmMemGet8 pf b st)))"
    using st'(2,3) assms(1) by (intro exI [of _ st']) simp
  with now show ?thesis by blast
qed

lemma ram_long_is_four_bytes_witness:
  "EmMemGet32 plain_platform 0x10000000 tiny_ram = (Inr 0x61620000, tiny_ram) \<and>
   (\<exists>st'. EmMemPut32 plain_platform 0x10000004 0x12345678 tiny_ram = (Inr (), st') \<and>
      fst (EmMemGet32 plain_platform 0x10000004 st') = Inr 0x12345678)"
proof
  show "EmMemGet32 plain_platform 0x10000000 tiny_ram = (Inr 0x61620000, tiny_ram)"
    using ram_long_is_four_bytes [where q = "0x10000000" and pf = plain_platform, OF tiny_ram_ok] span_in_tiny [of "0x10000000" 4]
    by (simp add: odd_offset sram_byte_def tiny_ram_def lbyte_def swap_byte_eq be32_def)
  show "\<exists>st'. EmMemPut32 plain_platform 0x10000004 0x12345678 tiny_ram = (Inr (), st') \<and>
      fst (EmMemGet32 plain_platform 0x10000004 st') = Inr 0x12345678"
    using ram_long_is_four_bytes [where q = "0x10000004" and pf = plain_platform and v = "0x12345678", OF tiny_ram_ok] span_in_tiny [of "0x10000004" 4]
    by (simp add: odd_offset) blast
qed

text \<open>
  C18: the bound the bank does not check. A long word that starts at the last word of RAM is
  even and in the bank, but its second half is read two bytes beyond the end of the host's
  buffer, whatever the contents of RAM.
\<close>

theorem long_at_end_of_ram_overruns:
  assumes "sram_ok k st" and "ram_offset q = 2 ^ k - 2"
  shows "fst (EmMemGet32 pf q st) = Inl HostFault"
proof -
  have "(2::nat) \<le> 2 ^ k" using assms(1) power_increasing [of 1 k "2::nat"] by (simp add: sram_ok_def)
  then have "q \<in> ram_span k" using assms(2) by (simp add: ram_span_offset)
  then show ?thesis using GetLong_overrun [OF assms] ram_bank [OF assms(1)]
    by (simp add: EmMemGet32_def on_bank_def bank_lget_def)
qed

lemma long_at_end_of_ram_overruns_witness:
  "fst (EmMemGet32 plain_platform 0x1000000E tiny_ram) = Inl HostFault"
  by (rule long_at_end_of_ram_overruns [OF tiny_ram_ok]) simp

section \<open>Memory functions\<close>

lemma len_le: "unat (len :: uint32) \<le> 2 ^ 32"
proof -
  have "unat len < 2 ^ LENGTH(32)" by (rule unsigned_less)
  then show ?thesis by simp
qed

lemma bank_bput_sram: "bank_bput pf bankSRAM = (\<lambda>q v. sram_put q (ucast v))"
  by (intro ext) (simp add: bank_bput_def sram_put_def EmBankSRAM_SetByte_def)

lemma wrap_diff: "unat u < unat (w :: uint32) \<Longrightarrow> unat (u - w) = 2 ^ 32 + unat u - unat w"
  by (simp add: unat_sub_if')

text \<open>
  C19: \<open>EmMem_memset\<close>, which stores bytes up to an aligned address, then long words, then the
  remaining bytes, has the effect of storing the byte everywhere in the range, for every start
  and length within RAM.
\<close>

theorem memset_fills_range:
  assumes "sram_ok k st" and "span dst (unat len) \<subseteq> ram_span k" and "dst \<in> ram_span k"
  shows "\<exists>st'. EmMem_memset pf dst (ucast v) len st = (Inr (), st') \<and> sram_ok k st' \<and>
    (\<forall>b\<in>ram_span k. sram_byte st' b = (if b \<in> span dst (unat len) then v else sram_byte st b))"
proof -
  have "unat len \<le> 2 ^ 32" by (rule len_le)
  from sram.memset_ok [OF assms(1,2) this, of v] show ?thesis
    using ram_bank [OF assms(1,3)]
    by (simp add: EmMem_memset_def bank_bput_sram bank_lput_def case_prod_unfold)
qed

lemma memset_fills_range_witness:
  "\<exists>st'. EmMem_memset plain_platform 0x10000003 (ucast (0xAB :: uint8)) 10 tiny_ram = (Inr (), st') \<and> sram_ok 4 st' \<and>
    (\<forall>b\<in>ram_span 4. sram_byte st' b = (if b \<in> span 0x10000003 (unat (10 :: uint32)) then 0xAB else sram_byte tiny_ram b))"
  by (rule memset_fills_range [OF tiny_ram_ok])
    (rule span_in_tiny, simp, simp add: ram_span_offset)

text \<open>
  C20: \<open>EmMem_memmove\<close> copies as if through a buffer. Wherever the two ranges lie in RAM, also
  when they overlap, the destination ends up with the bytes the source had before the call, and
  nothing else changes. The host's buffer must not wrap around its address space.
\<close>

theorem memmove_is_simultaneous_copy:
  assumes "sram_ok k st" and "span dst (unat len) \<subseteq> ram_span k" and "span src (unat len) \<subseteq> ram_span k"
    and "dst \<in> ram_span k" and "src \<in> ram_span k" and "unat len \<le> 2 ^ k" and "unat (ram_base pf) + 2 ^ k \<le> 2 ^ 32"
  shows "\<exists>st'. EmMem_memmove (get_byte_emu pf) (put_byte_emu pf) (EmMemGetRealAddress pf) (EmMemGetRealAddress pf)
      dst src len st = (Inr (), st') \<and>
    (\<forall>b\<in>ram_span k. sram_byte st' b =
      (if b \<in> span dst (unat len) then sram_byte st (src + (b - dst)) else sram_byte st b))"
proof -
  have k: "k \<le> 28" "gRAMBank_Mask st = mask k" using assms(1) by (auto simp: sram_ok_def)
  have k28: "(2::nat) ^ k \<le> 2 ^ 28" using k(1) by (intro power_increasing) auto
  have real: "EmMemGetRealAddress pf a st = (Inr (ram_base pf + of_nat (ram_offset a)), st)"
    and base: "unat (ram_base pf + of_nat (ram_offset a)) = unat (ram_base pf) + ram_offset a"
    if a: "a \<in> ram_span k" for a
  proof -
    show "EmMemGetRealAddress pf a st = (Inr (ram_base pf + of_nat (ram_offset a)), st)"
      using ram_bank [OF assms(1) a] masked_offset [OF k(1) a] k(2)
      by (simp add: EmMemGetRealAddress_def on_bank_def EmBankSRAM_GetRealAddress_def)
    have lt: "ram_offset a < 2 ^ k" using a ram_span_offset by blast
    then have "unat (of_nat (ram_offset a) :: uint32) = ram_offset a" using k28 by (intro unat_of_nat_32) simp
    then show "unat (ram_base pf + of_nat (ram_offset a)) = unat (ram_base pf) + ram_offset a"
      using lt assms(7) by (subst unat_add_small) auto
  qed
  have len32: "unat len \<le> 2 ^ 32" by (rule len_le)
  have diff: "x = y \<or> unat len \<le> unat (x - y)" if "ram_offset x \<le> ram_offset y" "y \<in> ram_span k" for x y
  proof (cases "x = y")
    case False
    then have lt: "ram_offset x < ram_offset y" using that(1) ram_offset_inject [of x y] by linarith
    have "x - y = (x - kMemoryStart) - (y - kMemoryStart)" by simp
    then have "unat (x - y) = 2 ^ 32 + ram_offset x - ram_offset y"
      using lt wrap_diff unfolding ram_offset_def by metis
    moreover have "ram_offset y < 2 ^ 28" using that(2) ram_span_offset [of y k] k28 by linarith
    moreover have "(2::nat) ^ 32 = 16 * 2 ^ 28" by simp
    ultimately have "unat len \<le> unat (x - y)" using le_trans [OF assms(6) k28] by linarith
    then show ?thesis ..
  qed simp
  show ?thesis
  proof (cases "ram_base pf + of_nat (ram_offset dst) \<le> ram_base pf + of_nat (ram_offset src)")
    case True
    then have "ram_offset dst \<le> ram_offset src"
      unfolding word_le_nat_alt base [OF assms(4)] base [OF assms(5)] by simp
    then show ?thesis
      using ram.memcpy_loop_ok [OF assms(1-3) len32 diff [OF _ assms(5)], of pf] True real [OF assms(4)] real [OF assms(5)]
      by (auto simp: EmMem_memmove_def)
  next
    case False
    then have "ram_offset src \<le> ram_offset dst"
      unfolding word_le_nat_alt base [OF assms(4)] base [OF assms(5)] by simp
    then have "dst = src \<or> unat len \<le> unat (src - dst)" using diff [OF _ assms(4), of src] by auto
    then show ?thesis
      using ram.memmove_down_ok [OF assms(1-3) len32, of pf] False real [OF assms(4)] real [OF assms(5)]
      by (auto simp: EmMem_memmove_def)
  qed
qed

lemma memmove_is_simultaneous_copy_witness:
  "\<exists>st'. EmMem_memmove (get_byte_emu plain_platform) (put_byte_emu plain_platform) (EmMemGetRealAddress plain_platform)
      (EmMemGetRealAddress plain_platform) 0x10000002 0x10000000 6 tiny_ram = (Inr (), st') \<and>
    (\<forall>b\<in>ram_span 4. sram_byte st' b =
      (if b \<in> span 0x10000002 (unat (6 :: uint32)) then sram_byte tiny_ram (0x10000000 + (b - 0x10000002))
       else sram_byte tiny_ram b))"
  by (rule memmove_is_simultaneous_copy [OF tiny_ram_ok])
    (rule span_in_tiny, simp, rule span_in_tiny, simp, simp_all add: ram_span_offset plain_platform_def)

section \<open>String functions\<close>

lemma strlen_ram:
  assumes "sram_ok k st" and "span s (Suc (length xs)) \<subseteq> ram_span k" and "length xs < 2 ^ 32"
    and "cstring (sram_byte st) s xs"
  shows "\<exists>st'. EmMem_strlen (get_byte_emu pf) s st = Some (Inr (of_nat (length xs)), st') \<and> sram_ok k st' \<and>
    same (ram_span k) (sram_byte st') (sram_byte st)"
  using ram.strlen_loop_ok [OF assms, of pf] by (auto simp: EmMem_strlen_def)

text \<open>
  C21: \<open>EmMem_strcpy\<close> returns, leaves a copy of the string at the destination, whose length
  \<open>EmMem_strlen\<close> then finds, and changes no byte behind the end it writes; this holds for every
  string that ends within RAM, unless the destination starts inside of the source.
\<close>

theorem strcpy_then_strlen:
  assumes "sram_ok k st" and "span q (Suc (length xs)) \<subseteq> ram_span k" and "span p (Suc (length xs)) \<subseteq> ram_span k"
    and "length xs < 2 ^ 32" and "q = p \<or> Suc (length xs) \<le> unat (q - p)" and "cstring (sram_byte st) p xs"
  shows "\<exists>st' st''. EmMem_strcpy (get_byte_emu pf) (put_byte_emu pf) q p st = Some (Inr (), st') \<and>
    cstring (sram_byte st') q xs \<and> same (ram_span k - span q (Suc (length xs))) (sram_byte st') (sram_byte st) \<and>
    EmMem_strlen (get_byte_emu pf) q st' = Some (Inr (of_nat (length xs)), st'')"
proof -
  obtain st' where "EmMem_strcpy (get_byte_emu pf) (put_byte_emu pf) q p st = Some (Inr (), st')" "sram_ok k st'"
    "cstring (sram_byte st') q xs" "same (ram_span k - span q (Suc (length xs))) (sram_byte st') (sram_byte st)"
    using ram.strcpy_ok [OF assms] by blast
  then show ?thesis using strlen_ram [of k st' q xs pf] assms(2,4) by blast
qed

lemma strcpy_then_strlen_witness:
  "\<exists>st' st''. EmMem_strcpy (get_byte_emu plain_platform) (put_byte_emu plain_platform) 0x10000008 0x10000000 tiny_ram =
      Some (Inr (), st') \<and> cstring (sram_byte st') 0x10000008 [97, 98] \<and>
    same (ram_span 4 - span 0x10000008 (Suc (length [97, 98 :: uint8]))) (sram_byte st') (sram_byte tiny_ram) \<and>
    EmMem_strlen (get_byte_emu plain_platform) 0x10000008 st' = Some (Inr (of_nat (length [97, 98 :: uint8])), st'')"
  by (rule strcpy_then_strlen [OF tiny_ram_ok _ _ _ _ tiny_strings(1)])
    (rule span_in_tiny, simp, rule span_in_tiny, simp_all)

text \<open>
  \<open>EmMem_strcat\<close> returns and leaves the concatenation of the two strings at the
  destination, if both the strings and the result lie in RAM and the source is disjoint from
  the bytes of the result; no other byte changes.
\<close>

theorem strcat_concatenates:
  assumes "sram_ok k st" and "span d (Suc (length ds + length xs)) \<subseteq> ram_span k" and "span p (Suc (length xs)) \<subseteq> ram_span k"
    and "length ds + length xs < 2 ^ 32" and "span d (Suc (length ds + length xs)) \<inter> span p (Suc (length xs)) = {}"
    and "cstring (sram_byte st) d ds" and "cstring (sram_byte st) p xs"
  shows "\<exists>st'. EmMem_strcat (get_byte_emu pf) (get_byte_emu pf) (put_byte_emu pf) d p st = Some (Inr (), st') \<and>
    cstring (sram_byte st') d (ds @ xs) \<and>
    same (ram_span k - span d (Suc (length ds + length xs))) (sram_byte st') (sram_byte st)"
  using ram.strcat_ok [OF assms, of pf] by blast

lemma strcat_concatenates_witness:
  "\<exists>st'. EmMem_strcat (get_byte_emu plain_platform) (get_byte_emu plain_platform) (put_byte_emu plain_platform)
      0x10000004 0x10000000 tiny_ram = Some (Inr (), st') \<and>
    cstring (sram_byte st') 0x10000004 ([97, 99] @ [97, 98]) \<and>
    same (ram_span 4 - span 0x10000004 (Suc (length [97, 99 :: uint8] + length [97, 98 :: uint8])))
      (sram_byte st') (sram_byte tiny_ram)"
proof (rule strcat_concatenates [OF tiny_ram_ok _ _ _ _ tiny_strings(2,1)])
  have "span 0x10000000 4 \<inter> span (0x10000000 + of_nat 4) 5 = {}" by (rule span_disjoint) simp
  moreover have "span 0x10000000 3 \<subseteq> span 0x10000000 4" by (rule span_mono) simp
  ultimately have apart: "span 0x10000004 5 \<inter> span 0x10000000 3 = {}" by auto
  have "Suc (length [97, 99 :: uint8] + length [97, 98 :: uint8]) = 5" "Suc (length [97, 98 :: uint8]) = 3" by simp_all
  then show "span 0x10000004 (Suc (length [97, 99 :: uint8] + length [97, 98 :: uint8])) \<inter>
      span 0x10000000 (Suc (length [97, 98 :: uint8])) = {}" using apart by (simp only:)
qed (rule span_in_tiny, simp, rule span_in_tiny, simp_all)

text \<open>
  \<open>EmMem_strcmp\<close> returns, and the sign of its result tells whether the first string is
  smaller than, equal to or greater than the second in the lexicographic order of their
  unsigned bytes; \<open>EmMem_memcmp\<close> orders the bytes of two ranges of one length in the same way.
\<close>

theorem comparisons_are_lexicographic:
  assumes "sram_ok k st" and "span p (Suc (length xs)) \<subseteq> ram_span k" and "span q (Suc (length ys)) \<subseteq> ram_span k"
    and "length xs < 2 ^ 32" and "length ys < 2 ^ 32" and "cstring (sram_byte st) p xs" and "cstring (sram_byte st) q ys"
    and "span p (unat len) \<subseteq> ram_span k" and "span q (unat len) \<subseteq> ram_span k"
  shows "(\<exists>r st'. EmMem_strcmp (get_byte_emu pf) (get_byte_emu pf) p q st = Some (Inr r, st') \<and>
      (r = 0 \<longleftrightarrow> xs = ys) \<and> (r < 0 \<longleftrightarrow> xs < ys)) \<and>
    fst (EmMem_memcmp (get_byte_emu pf) (get_byte_emu pf) p q len st) =
      Inr (if bytes_at (sram_byte st) p (unat len) = bytes_at (sram_byte st) q (unat len) then 0
           else if bytes_at (sram_byte st) p (unat len) < bytes_at (sram_byte st) q (unat len) then - 1 else 1)"
  using ram.strcmp_ok [OF assms(1-7), of pf] ram.memcmp_loop_ok [OF assms(1,8,9) len_le, of pf]
  by (auto simp: EmMem_memcmp_def)

lemma comparisons_are_lexicographic_witness:
  "(\<exists>r st'. EmMem_strcmp (get_byte_emu plain_platform) (get_byte_emu plain_platform) 0x10000000 0x10000004 tiny_ram =
      Some (Inr r, st') \<and> (r = 0 \<longleftrightarrow> [97, 98 :: uint8] = [97, 99]) \<and> (r < 0 \<longleftrightarrow> [97, 98 :: uint8] < [97, 99])) \<and>
    fst (EmMem_memcmp (get_byte_emu plain_platform) (get_byte_emu plain_platform) 0x10000000 0x10000004 4 tiny_ram) =
      Inr (if bytes_at (sram_byte tiny_ram) 0x10000000 (unat (4 :: uint32)) = bytes_at (sram_byte tiny_ram) 0x10000004 (unat (4 :: uint32)) then 0
           else if bytes_at (sram_byte tiny_ram) 0x10000000 (unat (4 :: uint32)) < bytes_at (sram_byte tiny_ram) 0x10000004 (unat (4 :: uint32)) then - 1 else 1)"
  by (rule comparisons_are_lexicographic [OF tiny_ram_ok _ _ _ _ tiny_strings])
    (rule span_in_tiny, simp, rule span_in_tiny, simp, simp, simp, rule span_in_tiny, simp, rule span_in_tiny, simp)

text \<open>
  \<open>EmMem_memchr\<close> returns the address of the first byte of the range that has the value it
  is given, and 0 if there is none, but only for values below 128: it compares a signed \<open>char\<close>
  to the value, and never finds a byte from 128 up, even where it occurs.
\<close>

theorem memchr_finds_ascii_only:
  assumes "sram_ok k st" and "span p (unat len) \<subseteq> ram_span k"
  shows "fst (EmMem_memchr (get_byte_emu pf) p (ucast (c :: uint8)) len st) =
    Inr (let bs = bytes_at (sram_byte st) p (unat len)
         in if c < 128 \<and> c \<in> set bs then p + of_nat (length (takeWhile ((\<noteq>) c) bs)) else 0)"
proof -
  have "bit c 7 \<longleftrightarrow> \<not> c < 128"
  proof -
    have "bit c 7 \<longleftrightarrow> odd (uint c div 2 ^ 7)"
      using bit_uint_iff [of c 7] by (simp add: bit_iff_odd [of "uint c"])
    moreover have "odd (uint c div 2 ^ 7) \<longleftrightarrow> \<not> uint c < 128"
    proof -
      have "0 \<le> uint c \<and> uint c < 256" using uint_lt2p [of c] by simp
      then have "uint c div 128 = (if uint c < 128 then 0 else 1)" by auto
      then show ?thesis by simp
    qed
    ultimately show ?thesis by (simp add: word_less_def)
  qed
  then show ?thesis
    using ram.memchr_loop_ok [OF assms len_le, of pf c] by (auto simp: EmMem_memchr_def Let_def)
qed

lemma memchr_finds_ascii_only_witness:
  "fst (EmMem_memchr (get_byte_emu plain_platform) 0x10000000 (ucast (98 :: uint8)) 4 tiny_ram) =
    Inr (let bs = bytes_at (sram_byte tiny_ram) 0x10000000 (unat (4 :: uint32))
         in if (98 :: uint8) < 128 \<and> 98 \<in> set bs then 0x10000000 + of_nat (length (takeWhile ((\<noteq>) 98) bs)) else 0)"
  by (rule memchr_finds_ascii_only [OF tiny_ram_ok]) (rule span_in_tiny, simp)

end
