(* ===== verification/Misc.thy ===== *)
theory Misc
  imports Geometry BankROM
begin

text \<open>
  The small functions of \<open>Miscellaneous.cpp\<close> other parts of the emulator rely on: counting bits,
  powers of two, dates, lists in strings, formatted numbers, and placing one rectangle in
  another. \<open>NextPowerOf2\<close> is in \<open>BankROM\<close>, which uses it.
\<close>

section \<open>Numbers\<close>

definition kBitCount :: "nat list" where
  "kBitCount = [0, 1, 1, 2, 1, 2, 2, 3, 1, 2, 2, 3, 2, 3, 3, 4]"

definition CountBits :: "uint32 \<Rightarrow> nat" where
  "CountBits v = kBitCount ! unat (v AND 0x0F) + kBitCount ! unat (drop_bit 4 v AND 0x0F) +
     kBitCount ! unat (drop_bit 8 v AND 0x0F) + kBitCount ! unat (drop_bit 12 v AND 0x0F)"

text \<open>\<open>None\<close> is an index outside of the table of months.\<close>

definition month2days :: "uint32 list" where
  "month2days = [0, 31, 59, 90, 120, 151, 181, 212, 243, 273, 304, 334]"

definition DateToDays :: "uint32 \<Rightarrow> uint32 \<Rightarrow> uint32 \<Rightarrow> uint32 option" where
  "DateToDays year month day =
     (let year = year - 1904; month = month - 1; day = day - 1; kNumDaysInLeapCycle = 4 * 365 + 1
      in if unat month < length month2days
         then (let days = day + month2days ! unat month + (year * kNumDaysInLeapCycle + 3) div 4
               in Some (if month \<ge> 2 \<and> year AND 3 = 0 then days + 1 else days))
         else None)"

section \<open>Strings\<close>

function SeparateList :: "string list \<Rightarrow> string \<Rightarrow> char \<Rightarrow> string list" where
  "SeparateList stringList str delimiter =
     (if delimiter \<in> set str
      then SeparateList (stringList @ [takeWhile ((\<noteq>) delimiter) str])
             (tl (dropWhile ((\<noteq>) delimiter) str)) delimiter
      else stringList @ [str])"
  by pat_completeness auto
termination
proof (relation "measure (\<lambda>(_, str, _). length str)", goal_cases)
  case (2 stringList str delimiter)
  then have "dropWhile ((\<noteq>) delimiter) str \<noteq> []" by (auto simp: dropWhile_eq_Nil_conv)
  then have "length (tl (dropWhile ((\<noteq>) delimiter) str)) < length (dropWhile ((\<noteq>) delimiter) str)" by simp
  also have "\<dots> \<le> length str" by (rule length_dropWhile_le)
  finally show ?case by simp
qed simp

declare SeparateList.simps [simp del]

definition Strip :: "string \<Rightarrow> string \<Rightarrow> bool \<Rightarrow> bool \<Rightarrow> string" where
  "Strip s chars lead trail =
     (let result = (if lead then dropWhile (\<lambda>c. c \<in> set chars) s else s)
      in if trail then rev (dropWhile (\<lambda>c. c \<in> set chars) (rev result)) else result)"

text \<open>\<open>string::find\<close>: the first position from \<open>pos\<close> on at which the pattern occurs.\<close>

definition find_string :: "string \<Rightarrow> string \<Rightarrow> nat \<Rightarrow> nat option" where
  "find_string s pattern pos =
     find (\<lambda>k. take (length pattern) (drop k s) = pattern) [pos..<Suc (length s)]"

text \<open>\<open>None\<close> does not return: an empty pattern is found again behind every replacement.\<close>

partial_function (option) replace_from :: "string \<Rightarrow> string \<Rightarrow> string \<Rightarrow> nat \<Rightarrow> string option" where
  "replace_from result pattern replacement pos =
     (case find_string result pattern pos of
        None \<Rightarrow> Some result
      | Some p \<Rightarrow> replace_from (take p result @ replacement @ drop (p + length pattern) result) pattern replacement
                    (p + length replacement))"

declare replace_from.simps [code]

definition ReplaceString :: "string \<Rightarrow> string \<Rightarrow> string \<Rightarrow> string option" where
  "ReplaceString source pattern replacement = replace_from source pattern replacement 0"

text \<open>Decimal digits, as the stream prints an unsigned number.\<close>

fun decimal :: "nat \<Rightarrow> string" where
  "decimal n = (if n < 10 then [char_of (48 + n)] else decimal (n div 10) @ [char_of (48 + n mod 10)])"

declare decimal.simps [simp del]

text \<open>The loop for \<open>ii\<close> from 1 up to \<open>numCommas\<close>.\<close>

fun insert_commas :: "nat \<Rightarrow> nat \<Rightarrow> string \<Rightarrow> string \<Rightarrow> string" where
  "insert_commas 0 ii sep result = result"
| "insert_commas (Suc k) ii sep result =
     (let p = length result + 1 - 4 * ii
      in insert_commas k (ii + 1) sep (take p result @ sep @ drop p result))"

definition FormatInteger :: "string \<Rightarrow> uint32 \<Rightarrow> string" where
  "FormatInteger locale_sep integer =
     (let result = decimal (unat integer);
          thousands_sep = (if locale_sep = '''' then '','' else locale_sep);
          numCommas = (if length result \<le> 4 then 0 else (length result - 1) div 3)
      in insert_commas numCommas 1 thousands_sep result)"

definition two_digits :: "nat \<Rightarrow> string" where
  "two_digits n = (if n < 10 then ''0'' @ decimal n else decimal n)"

definition FormatElapsedTime :: "uint32 \<Rightarrow> string" where
  "FormatElapsedTime mSecs =
     (let hours = mSecs div 3600000; mSecs = mSecs - hours * 3600000;
          minutes = mSecs div 60000; mSecs = mSecs - minutes * 60000;
          seconds = mSecs div 1000
      in decimal (unat hours) @ '':'' @ two_digits (unat minutes) @ '':'' @ two_digits (unat seconds))"

section \<open>Rectangles\<close>

definition PinRectInRect :: "EmRect \<Rightarrow> EmRect \<Rightarrow> bool \<times> EmRect" where
  "PinRectInRect inner outer =
     (let (r, i) = (False, inner);
          (r, i) = (if fBottom i > fBottom outer then (True, EmRect_Offset i 0 (fBottom outer - fBottom i)) else (r, i));
          (r, i) = (if fRight i > fRight outer then (True, EmRect_Offset i (fRight outer - fRight i) 0) else (r, i));
          (r, i) = (if fTop i < fTop outer then (True, EmRect_Offset i 0 (fTop outer - fTop i)) else (r, i));
          (r, i) = (if fLeft i < fLeft outer then (True, EmRect_Offset i (fLeft outer - fLeft i) 0) else (r, i))
      in (r, i))"

section \<open>Lemmas\<close>

text \<open>\<open>CountBits\<close> looks at the lower half of the word only.\<close>

lemma CountBits_low_half: "CountBits v = CountBits (v AND 0xFFFF)"
proof -
  have "drop_bit k v AND 0x0F = drop_bit k (v AND 0xFFFF) AND 0x0F" if "k \<le> 12" for k
  proof (rule bit_word_eqI)
    fix n assume "n < LENGTH(32)"
    have f: "(0x0F :: uint32) = mask 4" "(0xFFFF :: uint32) = mask 16" by (simp_all add: mask_eq_exp_minus_1)
    show "bit (drop_bit k v AND 0x0F) n = bit (drop_bit k (v AND 0xFFFF) AND 0x0F) n"
      unfolding f using that by (auto simp: bit_simps)
  qed
  from this [of 0] this [of 4] this [of 8] this [of 12] show ?thesis by (simp add: CountBits_def)
qed

lemma CountBits_misses: "CountBits 0x80000000 = 0"
  by (subst CountBits_low_half) (simp add: CountBits_def kBitCount_def)

text \<open>The elements of a list, with the delimiter between them, are the string that was separated.\<close>

fun joined :: "char \<Rightarrow> string list \<Rightarrow> string" where
  "joined c [] = []"
| "joined c [x] = x"
| "joined c (x # y # xs) = x @ c # joined c (y # xs)"

lemma SeparateList_ok:
  "\<exists>xs. SeparateList acc str c = acc @ xs \<and> xs \<noteq> [] \<and> joined c xs = str \<and> (\<forall>x\<in>set xs. c \<notin> set x)"
proof (induction str arbitrary: acc rule: length_induct)
  case (1 str)
  show ?case
  proof (cases "c \<in> set str")
    case True
    then obtain a b where s: "str = a @ c # b" "c \<notin> set a" by (meson split_list_first)
    then have t: "takeWhile ((\<noteq>) c) str = a" "dropWhile ((\<noteq>) c) str = c # b"
      by (auto simp: takeWhile_append dropWhile_append takeWhile_eq_all_conv)
    obtain xs where xs: "SeparateList (acc @ [a]) b c = (acc @ [a]) @ xs" "xs \<noteq> []" "joined c xs = b" "\<forall>x\<in>set xs. c \<notin> set x"
      using 1 [rule_format, of b "acc @ [a]"] s(1) by auto
    have "joined c (a # xs) = str" using xs(2,3) s(1) by (cases xs) auto
    then show ?thesis using True xs s(2) t by (subst SeparateList.simps) (auto intro!: exI [of _ "a # xs"])
  next
    case False
    then show ?thesis by (subst SeparateList.simps) auto
  qed
qed

definition is_digit :: "char \<Rightarrow> bool" where
  "is_digit c \<longleftrightarrow> 48 \<le> (of_char c :: nat) \<and> (of_char c :: nat) \<le> 57"

lemma decimal_digits: "filter is_digit (decimal n) = decimal n"
proof (induction n rule: decimal.induct)
  case (1 n)
  have "is_digit (char_of (48 + k))" if "k < 10" for k :: nat
    using that by (simp add: is_digit_def)
  then show ?case using 1 by (subst (1 2) decimal.simps) auto
qed

text \<open>Formatting only inserts separators.\<close>

lemma insert_commas_digits:
  "filter P sep = [] \<Longrightarrow> filter P (insert_commas k ii sep r) = filter P r"
proof (induction k arbitrary: ii r)
  case (Suc k)
  let ?p = "length r + 1 - 4 * ii"
  have "filter P (take ?p r @ sep @ drop ?p r) = filter P (take ?p r @ drop ?p r)"
    using Suc.prems by (simp del: append_take_drop_id)
  then show ?case using Suc by (simp add: Let_def del: filter_append)
qed simp

lemma FormatInteger_digits: "filter is_digit (FormatInteger '''' n) = decimal (unat n)"
  by (simp add: FormatInteger_def Let_def insert_commas_digits decimal_digits is_digit_def)

lemma PinRectInRect_size:
  "fRight (snd (PinRectInRect inner outer)) - fLeft (snd (PinRectInRect inner outer)) = fRight inner - fLeft inner \<and>
   fBottom (snd (PinRectInRect inner outer)) - fTop (snd (PinRectInRect inner outer)) = fBottom inner - fTop inner"
  by (simp add: PinRectInRect_def EmRect_Offset_def Let_def)

lemma PinRectInRect_inside:
  assumes "fRight inner - fLeft inner \<le> fRight outer - fLeft outer" and "fBottom inner - fTop inner \<le> fBottom outer - fTop outer"
    and "fLeft inner \<le> fRight inner" and "fTop inner \<le> fBottom inner"
  shows "EmRect_Contains_rt outer (snd (PinRectInRect inner outer))"
  using assms by (simp add: PinRectInRect_def EmRect_Offset_def Let_def EmRect_Contains_rt_def)

section \<open>Properties\<close>

lemma smear:
  assumes "\<And>i. bit (a :: uint32) i \<longleftrightarrow> (\<exists>d<m. bit (n :: uint32) (i + d))" and "k = m + m"
  shows "bit (a OR drop_bit m a) i \<longleftrightarrow> (\<exists>d<k. bit n (i + d))"
proof -
  have "bit (a OR drop_bit m a) i \<longleftrightarrow> (\<exists>d<m. bit n (i + d)) \<or> (\<exists>d<m. bit n (i + (m + d)))"
    by (simp add: bit_simps assms(1) add.assoc add.left_commute)
  also have "\<dots> \<longleftrightarrow> (\<exists>d<k. bit n (i + d))"
  proof
    assume "\<exists>d<k. bit n (i + d)"
    then obtain d where d: "d < k" "bit n (i + d)" by blast
    show "(\<exists>d<m. bit n (i + d)) \<or> (\<exists>d<m. bit n (i + (m + d)))"
    proof (cases "d < m")
      case False
      then have "d - m < m" "m + (d - m) = d" using d(1) assms(2) by simp_all
      then show ?thesis using d(2) by metis
    qed (use d(2) in blast)
  next
    assume "(\<exists>d<m. bit n (i + d)) \<or> (\<exists>d<m. bit n (i + (m + d)))"
    then show "\<exists>d<k. bit n (i + d)" using assms(2) by (metis add_less_cancel_left trans_less_add1)
  qed
  finally show ?thesis .
qed

lemma smeared:
  "bit (let a = n; a = a OR drop_bit 1 a; a = a OR drop_bit 2 a; a = a OR drop_bit 4 a; a = a OR drop_bit 8 a
        in a OR drop_bit 16 a) i \<longleftrightarrow> (\<exists>d<32. bit (n :: uint32) (i + d))"
  unfolding Let_def
proof (rule smear)+
  show "bit n i \<longleftrightarrow> (\<exists>d<1. bit n (i + d))" for i by simp
qed simp_all

text \<open>The highest bit of a word.\<close>

lemma high_bit:
  assumes "0 < unat (n :: uint32)"
  obtains h where "h < 32" and "2 ^ h \<le> unat n" and "unat n < 2 ^ (h + 1)" and "\<And>i. (\<exists>d<32. bit n (i + d)) \<longleftrightarrow> i \<le> h"
proof -
  obtain h where h: "2 ^ h \<le> unat n" "unat n < 2 ^ (h + 1)" using ex_power_ivl1 [of 2 "unat n"] assms by auto
  have "unat n < 2 ^ 32" using unsigned_less [of n] by simp
  then have "h < 32" using h(1) by (meson le_less_trans power_less_imp_less_exp one_less_numeral_iff semiring_norm(76))
  have bit: "bit n i \<longleftrightarrow> odd (unat n div 2 ^ i)" for i
  proof -
    have "bit (unat n) i = bit n i" by (simp add: bit_unsigned_iff)
    then show ?thesis by (simp add: bit_iff_odd)
  qed
  have "unat n div 2 ^ h = 1" by (rule div_nat_eqI) (use h in simp_all)
  then have top: "bit n h" unfolding bit by simp
  have above: "\<not> bit n i" if "h < i" for i
  proof -
    have "(2 :: nat) ^ (h + 1) \<le> 2 ^ i" using that by (intro power_increasing) auto
    then show ?thesis unfolding bit using h(2) by simp
  qed
  have "(\<exists>d<32. bit n (i + d)) \<longleftrightarrow> i \<le> h" for i
  proof
    assume "\<exists>d<32. bit n (i + d)"
    then show "i \<le> h" using above by (meson le_add1 le_trans not_le_imp_less)
  next
    assume "i \<le> h"
    then show "\<exists>d<32. bit n (i + d)" using top \<open>h < 32\<close> by (intro exI [of _ "h - i"]) simp
  qed
  with \<open>h < 32\<close> h show thesis using that by blast
qed

text \<open>
  \<open>NextPowerOf2\<close> of a positive number is the least power of two that is not below it; from
  \<open>2 ^ 31 + 1\<close> on, where that is \<open>2 ^ 32\<close>, it wraps around to 0.
\<close>

theorem NextPowerOf2_least:
  assumes "0 < n"
  shows "\<exists>k\<le>32. unat n \<le> 2 ^ k \<and> 2 ^ k < 2 * unat n \<and> NextPowerOf2 n = 2 ^ k"
proof -
  have "0 < unat n" using assms by (simp add: unat_gt_0)
  then obtain h where h: "h < 32" "2 ^ h \<le> unat n" "unat n < 2 ^ (h + 1)" "\<And>i. (\<exists>d<32. bit n (i + d)) \<longleftrightarrow> i \<le> h"
    using high_bit by blast
  define a where "a = (let a = n; a = a OR drop_bit 1 a; a = a OR drop_bit 2 a; a = a OR drop_bit 4 a;
    a = a OR drop_bit 8 a in a OR drop_bit 16 a)"
  have a: "bit a i \<longleftrightarrow> i \<le> h" for i unfolding a_def smeared by (rule h(4))
  have "a AND NOT (drop_bit 1 a) = 2 ^ h"
  proof (rule bit_word_eqI)
    fix i assume i: "i < LENGTH(32)"
    have "bit (a AND NOT (drop_bit 1 a)) i \<longleftrightarrow> bit a i \<and> \<not> bit a (Suc i)"
      using i by (simp add: bit_and_iff bit_not_iff bit_drop_bit_eq)
    also have "\<dots> \<longleftrightarrow> i = h" unfolding a by auto
    also have "\<dots> \<longleftrightarrow> bit (2 ^ h :: uint32) i" using i by (simp add: bit_exp_iff eq_commute)
    finally show "bit (a AND NOT (drop_bit 1 a)) i = bit (2 ^ h :: uint32) i" .
  qed
  moreover have "NextPowerOf2 n = (let n2 = a AND NOT (drop_bit 1 a) in if n2 \<noteq> n then push_bit 1 n2 else n2)"
    unfolding NextPowerOf2_def a_def Let_def by (rule refl)
  ultimately have next_eq: "NextPowerOf2 n = (if 2 ^ h \<noteq> n then push_bit 1 (2 ^ h) else 2 ^ h)"
    by (simp only: Let_def)
  have p: "unat (2 ^ h :: uint32) = 2 ^ h" using power_strict_increasing [OF h(1), of "2 :: nat"] unat_of_nat_32 [of "2 ^ h"] by simp
  show ?thesis
  proof (cases "2 ^ h = n")
    case True
    then show ?thesis using next_eq h(1) p by (intro exI [of _ h]) auto
  next
    case False
    then have "2 ^ h \<noteq> unat n" using p by (metis word_unat_eq_iff)
    then show ?thesis using next_eq h False by (intro exI [of _ "Suc h"]) (auto simp: push_bit_eq_mult mult.commute)
  qed
qed

lemma NextPowerOf2_least_witness:
  "\<exists>k\<le>32. unat (0x180000 :: uint32) \<le> 2 ^ k \<and> 2 ^ k < 2 * unat (0x180000 :: uint32) \<and> NextPowerOf2 0x180000 = 2 ^ k"
  by (rule NextPowerOf2_least) simp

text \<open>The rule of the code, a leap year every four years.\<close>

definition year_length :: "nat \<Rightarrow> nat" where
  "year_length y = (if 4 dvd y then 366 else 365)"

definition month_length :: "nat \<Rightarrow> nat \<Rightarrow> nat" where
  "month_length y m = (if m = 2 then (if 4 dvd y then 29 else 28) else if m \<in> {4, 6, 9, 11} then 30 else 31)"

text \<open>The Gregorian calendar: the days of the years, of the months and of the month before a date.\<close>

definition leap_year :: "nat \<Rightarrow> bool" where
  "leap_year y \<longleftrightarrow> 4 dvd y \<and> (100 dvd y \<longrightarrow> 400 dvd y)"

definition days_of_year :: "nat \<Rightarrow> nat" where
  "days_of_year y = (if leap_year y then 366 else 365)"

definition days_of_month :: "nat \<Rightarrow> nat \<Rightarrow> nat" where
  "days_of_month y m = (if m = 2 then (if leap_year y then 29 else 28) else if m \<in> {4, 6, 9, 11} then 30 else 31)"

definition days_since_1904 :: "nat \<Rightarrow> nat \<Rightarrow> nat \<Rightarrow> nat" where
  "days_since_1904 y m d = (\<Sum>i = 1904..<y. days_of_year i) + (\<Sum>i = 1..<m. days_of_month y i) + (d - 1)"

lemma years_before: "(\<Sum>y = 1904..<1904 + k. year_length y) = (k * 1461 + 3) div 4"
proof (induction k)
  case (Suc k)
  have y: "year_length (1904 + k) = 365 + (if 4 dvd k then 1 else 0)"
    using dvd_add_right_iff [of 4 1904 k] by (simp add: year_length_def)
  have e: "(i * 1461 + 3) div 4 = 365 * i + (i + 3) div 4" for i :: nat
  proof -
    have "i * 1461 + 3 = 4 * (365 * i) + (i + 3)" by simp
    then show ?thesis by (simp only: div_mult_self4)
  qed
  have s: "(Suc k + 3) div 4 = (k + 3) div 4 + (if 4 dvd k then 1 else 0)" by presburger
  have "{1904..<1904 + Suc k} = insert (1904 + k) {1904..<1904 + k}" by auto
  then have "(\<Sum>y = 1904..<1904 + Suc k. year_length y) = (k * 1461 + 3) div 4 + year_length (1904 + k)"
    using Suc by (simp del: add_Suc_right)
  then show ?case unfolding e y s by simp
qed simp

text \<open>From 1904 to 2199 the rules differ in the year 2100 only.\<close>

lemma leap_years:
  assumes "1904 \<le> y" and "y < 2200"
  shows "leap_year y \<longleftrightarrow> 4 dvd y \<and> y \<noteq> 2100"
proof -
  have "y = 2000 \<or> y = 2100" if d: "100 dvd y"
  proof -
    obtain k where k: "y = 100 * k" using d by blast
    then have "19 < k" "k < 22" using assms by linarith+
    then show ?thesis using k by (cases "k = 20") auto
  qed
  then show ?thesis by (auto simp: leap_year_def)
qed

lemma years_apart:
  assumes "1904 \<le> y" and "y < 2200"
  shows "(\<Sum>i = 1904..<y. year_length i) = (\<Sum>i = 1904..<y. days_of_year i) + (if 2100 < y then 1 else 0)"
  using assms
proof (induction y rule: nat_induct_at_least)
  case (Suc y)
  then have "leap_year y \<longleftrightarrow> 4 dvd y \<and> y \<noteq> 2100" by (intro leap_years) auto
  then have "year_length y = days_of_year y + (if y = 2100 then 1 else 0)" by (auto simp: year_length_def days_of_year_def)
  then show ?case using Suc by (auto simp: sum.atLeastLessThan_Suc)
qed simp

lemma months_apart:
  assumes "1904 \<le> y" and "y < 2200" and "m \<le> 12"
  shows "(\<Sum>i = 1..<m. month_length y i) = (\<Sum>i = 1..<m. days_of_month y i) + (if y = 2100 \<and> 2 < m then 1 else 0)"
  using assms(3)
proof (induction m)
  case (Suc m)
  have "month_length y m = days_of_month y m + (if y = 2100 \<and> m = 2 then 1 else 0)"
    using leap_years [OF assms(1,2)] by (auto simp: month_length_def days_of_month_def)
  then show ?case using Suc by (cases "m = 0") (auto simp: sum.atLeastLessThan_Suc)
qed simp

lemma months:
  assumes "m < (12 :: nat)"
  shows "m = 0 \<or> m = 1 \<or> m = 2 \<or> m = 3 \<or> m = 4 \<or> m = 5 \<or> m = 6 \<or> m = 7 \<or> m = 8 \<or> m = 9 \<or> m = 10 \<or> m = 11"
  using assms by (auto simp: eval_nat_numeral less_Suc_eq)

lemma months_before:
  assumes "m < 12"
  shows "(\<Sum>i = 1..<m + 1. month_length y i) = [0, 31, 59, 90, 120, 151, 181, 212, 243, 273, 304, 334] ! m + (if 2 \<le> m \<and> 4 dvd y then 1 else 0)"
  using months [OF assms] by (elim disjE) (simp_all add: month_length_def atLeastLessThan_nat_numeral)

lemma low_two_bits: "(w :: uint32) AND 3 = 0 \<longleftrightarrow> 4 dvd unat w"
proof -
  have "w AND 3 = take_bit 2 w" by (simp add: take_bit_eq_mask mask_eq_exp_minus_1)
  moreover have "unat (take_bit 2 w) = unat w mod 4"
    using unsigned_take_bit_eq [of 2 w, where 'a = nat] unfolding take_bit_eq_mod by simp
  ultimately show ?thesis by (metis dvd_eq_mod_eq_0 unat_eq_zero)
qed

lemma of_nat_div_4: "n < 2 ^ 32 \<Longrightarrow> (of_nat n :: uint32) div 4 = of_nat (n div 4)"
  by (rule word_unat_eq_iff [THEN iffD2]) (simp add: unat_div unat_of_nat_32 less_imp_diff_less div_le_dividend order_le_less_trans [of "n div 4" n])

text \<open>In 32 bits, over 2^20 years, the code counts by the four-year rule.\<close>

lemma DateToDays_four_years:
  assumes "k < 2 ^ 20" and "m < 12" and "d < 2 ^ 20"
  shows "DateToDays (of_nat (1904 + k)) (of_nat (m + 1)) (of_nat (d + 1)) =
    Some (of_nat ((\<Sum>y = 1904..<1904 + k. year_length y) + (\<Sum>i = 1..<m + 1. month_length (1904 + k) i) + d))"
proof -
  have w: "of_nat (1904 + k) - 1904 = (of_nat k :: uint32)" "of_nat (m + 1) - 1 = (of_nat m :: uint32)"
    "of_nat (d + 1) - 1 = (of_nat d :: uint32)" by simp_all
  have um: "unat (of_nat m :: uint32) = m" and uk: "unat (of_nat k :: uint32) = k"
    using assms by (simp_all add: unat_of_nat_32)
  have b: "k * 1461 + 3 < 2 ^ 32" using assms(1) by simp
  have days: "(of_nat k * (4 * 365 + 1) + 3) div 4 = (of_nat ((k * 1461 + 3) div 4) :: uint32)"
    using of_nat_div_4 [OF b] by simp
  have tab: "month2days ! m = of_nat ([0, 31, 59, 90, 120, 151, 181, 212, 243, 273, 304, 334] ! m)"
    using months [OF assms(2)] by (elim disjE) (simp_all add: month2days_def)
  have leap: "(of_nat k :: uint32) AND 3 = 0 \<longleftrightarrow> 4 dvd (1904 + k)"
    unfolding low_two_bits uk using dvd_add_right_iff [of 4 1904 k] by simp
  have march: "(2 :: uint32) \<le> of_nat m \<longleftrightarrow> 2 \<le> m" using um by (simp add: word_le_nat_alt)
  have "m < length month2days" using assms(2) by (simp add: month2days_def)
  then show ?thesis
    unfolding DateToDays_def Let_def w um leap march years_before months_before [OF assms(2)] days tab
    by (simp add: algebra_simps)
qed

text \<open>
  C27: \<open>DateToDays\<close> counts the days from 1 January 1904 to a date of the Gregorian calendar, for every
  date up to 28 February 2100. The year 2100 has no leap day in the calendar, but it has one in the
  code: from 1 March 2100 to the end of 2199 the result is one day too many. Days past the end of the
  month are counted on, as in March 35. (The function's comment gives 2040 as the end of its range.)
\<close>

theorem DateToDays_counts:
  assumes "1904 \<le> y" and "y < 2200" and "1 \<le> m" and "m \<le> 12" and "1 \<le> d" and "d < 2 ^ 20"
  shows "DateToDays (of_nat y) (of_nat m) (of_nat d) =
    Some (of_nat (days_since_1904 y m d + (if y < 2100 \<or> y = 2100 \<and> m \<le> 2 then 0 else 1)))"
proof -
  have n: "1904 + (y - 1904) = y" "m - 1 + 1 = m" "d - 1 + 1 = d" using assms by simp_all
  have "y - 1904 < 2 ^ 20" "m - 1 < 12" "d - 1 < 2 ^ 20" using assms by simp_all
  from DateToDays_four_years [OF this] show ?thesis
    unfolding n years_apart [OF assms(1,2)] months_apart [OF assms(1,2,4)] by (auto simp: days_since_1904_def)
qed

text \<open>1 March 2000, and the first date that is wrong.\<close>

lemma DateToDays_counts_witness:
  "DateToDays (of_nat 2000) (of_nat 3) (of_nat 1) = Some (of_nat (days_since_1904 2000 3 1)) \<and>
    DateToDays (of_nat 2100) (of_nat 3) (of_nat 1) = Some (of_nat (days_since_1904 2100 3 1 + 1))"
  using DateToDays_counts [of 2000 3 1] DateToDays_counts [of 2100 3 1] by simp

end
