(* ===== verification/Streams.thy ===== *)
theory Streams
  imports HostMem
begin

text \<open>
  Streams of bytes: class \<open>EmStream\<close> (\<open>EmStream.cpp\<close>) with its marker and length, the buffer
  class \<open>Chunk\<close> and the streams over a chunk and over a fixed block of memory
  (\<open>ChunkFile.cpp\<close>, \<open>EmStream.cpp\<close>).

  The virtual functions of a stream are a record of operations on a state; the locales
  \<open>read_stream\<close> and \<open>rw_stream\<close> say what the users of a stream rely on, in terms of the
  contents and the position of the stream.
\<close>

section \<open>EmStream\<close>

text \<open>
  Offsets and lengths are \<open>int32\<close>; as overflow is undefined in C++, they are integers here.
  An operation that accesses memory outside of a buffer is \<open>None\<close>.
\<close>

datatype StreamFromType = kStreamFromStart | kStreamFromEnd | kStreamFromMarker

record EmStream =
  mMarker :: int
  mLength :: int

definition EmStream_new :: EmStream where
  "EmStream_new = \<lparr>mMarker = 0, mLength = 0\<rparr>"

definition EmStream_SetMarker :: "int \<Rightarrow> StreamFromType \<Rightarrow> 'a EmStream_scheme \<Rightarrow> 'a EmStream_scheme" where
  "EmStream_SetMarker inOffset inFromWhere s =
     (let newMarker = (case inFromWhere of kStreamFromStart \<Rightarrow> inOffset
            | kStreamFromEnd \<Rightarrow> mLength s - inOffset | kStreamFromMarker \<Rightarrow> mMarker s + inOffset)
      in s\<lparr>mMarker := (if newMarker < 0 then 0 else if newMarker > mLength s then mLength s else newMarker)\<rparr>)"

definition EmStream_SetLength :: "int \<Rightarrow> 'a EmStream_scheme \<Rightarrow> 'a EmStream_scheme" where
  "EmStream_SetLength inLength s =
     (let oldLength = mLength s; s = s\<lparr>mLength := inLength\<rparr>
      in if oldLength > inLength then EmStream_SetMarker (mMarker s) kStreamFromStart s else s)"

definition AtEnd :: "'a EmStream_scheme \<Rightarrow> bool" where
  "AtEnd s \<longleftrightarrow> mMarker s \<ge> mLength s"

text \<open>\<open>memmove\<close> out of and into a buffer, for a count that may be negative by mistake.\<close>

definition copy_out :: "hostmem \<Rightarrow> int \<Rightarrow> int \<Rightarrow> uint8 list option" where
  "copy_out m p n = (if 0 \<le> p \<and> 0 \<le> n \<and> p + n \<le> int (length m) then Some (take (nat n) (drop (nat p) m)) else None)"

definition copy_in :: "hostmem \<Rightarrow> int \<Rightarrow> uint8 list \<Rightarrow> hostmem option" where
  "copy_in m p bs = (if 0 \<le> p \<and> p + int (length bs) \<le> int (length m)
     then Some (take (nat p) m @ bs @ drop (nat p + length bs) m) else None)"

section \<open>Chunk\<close>

text \<open>The bytes that \<open>Platform::ReallocMemory\<close> adds have no specified value; they are 0 here.\<close>

record Chunk =
  fPtr :: hostmem
  fUsedSize :: int
  fAllocatedSize :: int

definition Chunk_new :: Chunk where
  "Chunk_new = \<lparr>fPtr = [], fUsedSize = 0, fAllocatedSize = 0\<rparr>"

definition ReallocMemory :: "hostmem \<Rightarrow> nat \<Rightarrow> hostmem" where
  "ReallocMemory m n = take n m @ replicate (n - length m) 0"

definition Chunk_SetLength :: "int \<Rightarrow> Chunk \<Rightarrow> Chunk" where
  "Chunk_SetLength inLength c =
     (let c = (if inLength > fAllocatedSize c
               then (let newAllocatedLength = inLength + 100
                     in c\<lparr>fPtr := ReallocMemory (fPtr c) (nat newAllocatedLength), fAllocatedSize := newAllocatedLength\<rparr>)
               else if inLength = 0 then c\<lparr>fPtr := [], fAllocatedSize := 0\<rparr>
               else c)
      in c\<lparr>fUsedSize := inLength\<rparr>)"

definition Chunk_of_length :: "int \<Rightarrow> Chunk" where
  "Chunk_of_length inLength = Chunk_SetLength inLength Chunk_new"

definition Chunk_assign :: "Chunk \<Rightarrow> Chunk \<Rightarrow> Chunk option" where
  "Chunk_assign c other =
     (let c = Chunk_SetLength (fUsedSize other) c
      in case copy_out (fPtr other) 0 (fUsedSize other) of
           None \<Rightarrow> None
         | Some bs \<Rightarrow> map_option (\<lambda>m. c\<lparr>fPtr := m\<rparr>) (copy_in (fPtr c) 0 bs))"

definition Chunk_copy :: "Chunk \<Rightarrow> Chunk option" where
  "Chunk_copy other = Chunk_assign Chunk_new other"

section \<open>A stream over a chunk, and one over a block\<close>

record EmStreamChunk = EmStream +
  fChunk :: Chunk

definition EmStreamChunk_new :: "Chunk \<Rightarrow> EmStreamChunk" where
  "EmStreamChunk_new c = EmStream_SetLength (fUsedSize c) (EmStream.extend EmStream_new \<lparr>fChunk = c\<rparr>)"

definition EmStreamChunk_SetLength :: "int \<Rightarrow> EmStreamChunk \<Rightarrow> EmStreamChunk" where
  "EmStreamChunk_SetLength inLength s = EmStream_SetLength inLength (s\<lparr>fChunk := Chunk_SetLength inLength (fChunk s)\<rparr>)"

text \<open>Results carry the error code, 0 for \<open>errNone\<close>.\<close>

definition EmStreamChunk_PutBytes :: "uint8 list \<Rightarrow> EmStreamChunk \<Rightarrow> (int \<times> EmStreamChunk) option" where
  "EmStreamChunk_PutBytes inBuffer s =
     (let ioByteCount = int (length inBuffer); endOfWrite = mMarker s + ioByteCount;
          s = (if endOfWrite > mLength s then EmStreamChunk_SetLength endOfWrite s else s)
      in if ioByteCount > 0
         then map_option (\<lambda>m. (0, EmStream_SetMarker ioByteCount kStreamFromMarker (s\<lparr>fChunk := fChunk s\<lparr>fPtr := m\<rparr>\<rparr>)))
                (copy_in (fPtr (fChunk s)) (mMarker s) inBuffer)
         else Some (0, s))"

text \<open>The bytes that were read; there are fewer than asked for when the stream ends.\<close>

definition EmStreamChunk_GetBytes :: "int \<Rightarrow> EmStreamChunk \<Rightarrow> (int \<times> uint8 list \<times> EmStreamChunk) option" where
  "EmStreamChunk_GetBytes ioByteCount s =
     (let (ioByteCount, err) = (if mMarker s + ioByteCount > mLength s then (mLength s - mMarker s, 1) else (ioByteCount, 0))
      in map_option (\<lambda>bs. (err, bs, EmStream_SetMarker ioByteCount kStreamFromMarker s))
           (copy_out (fPtr (fChunk s)) (mMarker s) ioByteCount))"

record EmStreamBlock = EmStream +
  fData :: hostmem

definition EmStreamBlock_new :: "hostmem \<Rightarrow> int \<Rightarrow> EmStreamBlock" where
  "EmStreamBlock_new data len = EmStream_SetLength len (EmStream.extend EmStream_new \<lparr>fData = data\<rparr>)"

text \<open>\<open>EmStreamBlock::SetLength\<close> does nothing, and \<open>PutBytes\<close> goes on behind the end.\<close>

definition EmStreamBlock_PutBytes :: "uint8 list \<Rightarrow> EmStreamBlock \<Rightarrow> (int \<times> EmStreamBlock) option" where
  "EmStreamBlock_PutBytes inBuffer s =
     (let ioByteCount = int (length inBuffer)
      in if ioByteCount > 0
         then map_option (\<lambda>m. (0, EmStream_SetMarker ioByteCount kStreamFromMarker (s\<lparr>fData := m\<rparr>)))
                (copy_in (fData s) (mMarker s) inBuffer)
         else Some (0, s))"

definition EmStreamBlock_GetBytes :: "int \<Rightarrow> EmStreamBlock \<Rightarrow> (int \<times> uint8 list \<times> EmStreamBlock) option" where
  "EmStreamBlock_GetBytes ioByteCount s =
     (let (ioByteCount, err) = (if mMarker s + ioByteCount > mLength s then (mLength s - mMarker s, 1) else (ioByteCount, 0))
      in map_option (\<lambda>bs. (err, bs, EmStream_SetMarker ioByteCount kStreamFromMarker s))
           (copy_out (fData s) (mMarker s) ioByteCount))"

section \<open>The interface\<close>

record 's stream_ops =
  SetMarker :: "int \<Rightarrow> StreamFromType \<Rightarrow> 's \<Rightarrow> 's"
  GetMarker :: "'s \<Rightarrow> int"
  GetLength :: "'s \<Rightarrow> int"
  PutBytes :: "uint8 list \<Rightarrow> 's \<Rightarrow> (int \<times> 's) option"
  GetBytes :: "int \<Rightarrow> 's \<Rightarrow> (int \<times> uint8 list \<times> 's) option"

definition chunk_stream :: "EmStreamChunk stream_ops" where
  "chunk_stream = \<lparr>SetMarker = EmStream_SetMarker, GetMarker = mMarker, GetLength = mLength,
     PutBytes = EmStreamChunk_PutBytes, GetBytes = EmStreamChunk_GetBytes\<rparr>"

definition block_stream :: "EmStreamBlock stream_ops" where
  "block_stream = \<lparr>SetMarker = EmStream_SetMarker, GetMarker = mMarker, GetLength = mLength,
     PutBytes = EmStreamBlock_PutBytes, GetBytes = EmStreamBlock_GetBytes\<rparr>"

locale read_stream =
  fixes ops :: "'s stream_ops"
    and ok :: "'s \<Rightarrow> bool"
    and content :: "'s \<Rightarrow> uint8 list"
    and pos :: "'s \<Rightarrow> nat"
  assumes pos_law: "ok s \<Longrightarrow> pos s \<le> length (content s)"
    and marker_law: "ok s \<Longrightarrow> GetMarker ops s = int (pos s)"
    and length_law: "ok s \<Longrightarrow> GetLength ops s = int (length (content s))"
    and start_law: "ok s \<Longrightarrow> n \<le> length (content s) \<Longrightarrow>
      ok (SetMarker ops (int n) kStreamFromStart s) \<and> pos (SetMarker ops (int n) kStreamFromStart s) = n \<and>
      content (SetMarker ops (int n) kStreamFromStart s) = content s"
    and skip_law: "ok s \<Longrightarrow> pos s + n \<le> length (content s) \<Longrightarrow>
      ok (SetMarker ops (int n) kStreamFromMarker s) \<and> pos (SetMarker ops (int n) kStreamFromMarker s) = pos s + n \<and>
      content (SetMarker ops (int n) kStreamFromMarker s) = content s"
    and get_law: "ok s \<Longrightarrow> pos s + n \<le> length (content s) \<Longrightarrow>
      \<exists>s'. GetBytes ops (int n) s = Some (0, take n (drop (pos s) (content s)), s') \<and> ok s' \<and>
        content s' = content s \<and> pos s' = pos s + n"

locale rw_stream = read_stream +
  assumes put_law: "ok s \<Longrightarrow> \<exists>s'. PutBytes ops bs s = Some (0, s') \<and> ok s' \<and>
      content s' = take (pos s) (content s) @ bs @ drop (pos s + length bs) (content s) \<and> pos s' = pos s + length bs"

section \<open>The streams keep the contract\<close>

lemma SetMarker_start: "0 \<le> n \<Longrightarrow> n \<le> mLength s \<Longrightarrow> EmStream_SetMarker n kStreamFromStart s = s\<lparr>mMarker := n\<rparr>"
  by (simp add: EmStream_SetMarker_def)

lemma SetMarker_skip: "0 \<le> mMarker s + n \<Longrightarrow> mMarker s + n \<le> mLength s \<Longrightarrow>
    EmStream_SetMarker n kStreamFromMarker s = s\<lparr>mMarker := mMarker s + n\<rparr>"
  by (simp add: EmStream_SetMarker_def)

definition stream_ok :: "'a EmStream_scheme \<Rightarrow> bool" where
  "stream_ok s \<longleftrightarrow> 0 \<le> mMarker s \<and> mMarker s \<le> mLength s"

text \<open>The marker stays within the stream, wherever it is sent.\<close>

lemma SetMarker_ok: "0 \<le> mLength s \<Longrightarrow> stream_ok (EmStream_SetMarker n w s)"
  by (simp add: stream_ok_def EmStream_SetMarker_def Let_def)

lemma SetLength_ok: "stream_ok s \<Longrightarrow> 0 \<le> n \<Longrightarrow> stream_ok (EmStream_SetLength n s)"
  by (auto simp: EmStream_SetLength_def Let_def stream_ok_def EmStream_SetMarker_def)

definition chunk_ok :: "EmStreamChunk \<Rightarrow> bool" where
  "chunk_ok s \<longleftrightarrow> stream_ok s \<and> fUsedSize (fChunk s) = mLength s \<and>
     fAllocatedSize (fChunk s) = int (length (fPtr (fChunk s))) \<and> mLength s \<le> fAllocatedSize (fChunk s)"

definition chunk_content :: "EmStreamChunk \<Rightarrow> uint8 list" where
  "chunk_content s = take (nat (mLength s)) (fPtr (fChunk s))"

definition marker :: "'a EmStream_scheme \<Rightarrow> nat" where
  "marker s = nat (mMarker s)"

definition block_ok :: "EmStreamBlock \<Rightarrow> bool" where
  "block_ok s \<longleftrightarrow> stream_ok s \<and> mLength s \<le> int (length (fData s))"

definition block_content :: "EmStreamBlock \<Rightarrow> uint8 list" where
  "block_content s = take (nat (mLength s)) (fData s)"

lemma copy_out_content:
  assumes "0 \<le> p" and "0 \<le> l" and "l \<le> int (length m)" and "nat p + n \<le> length (take (nat l) m)"
  shows "copy_out m p (int n) = Some (take n (drop (nat p) (take (nat l) m)))"
proof -
  have "n \<le> nat l - nat p" using assms by simp
  then have "take n (drop (nat p) (take (nat l) m)) = take n (drop (nat p) m)"
    by (simp add: drop_take min_def)
  then show ?thesis using assms by (simp add: copy_out_def)
qed

interpretation chunk: read_stream chunk_stream chunk_ok chunk_content marker
proof
  fix s :: EmStreamChunk and n :: nat
  assume ok: "chunk_ok s"
  then have len: "int (length (chunk_content s)) = mLength s"
    by (auto simp: chunk_ok_def stream_ok_def chunk_content_def min_def)
  have m: "0 \<le> mMarker s" "mMarker s \<le> mLength s" using ok by (auto simp: chunk_ok_def stream_ok_def)
  show "marker s \<le> length (chunk_content s)" using len m by (simp add: marker_def)
  show "GetMarker chunk_stream s = int (marker s)" using m by (simp add: chunk_stream_def marker_def)
  show "GetLength chunk_stream s = int (length (chunk_content s))" using len by (simp add: chunk_stream_def)
  show "chunk_ok (SetMarker chunk_stream (int n) kStreamFromStart s) \<and> marker (SetMarker chunk_stream (int n) kStreamFromStart s) = n \<and>
      chunk_content (SetMarker chunk_stream (int n) kStreamFromStart s) = chunk_content s"
    if "n \<le> length (chunk_content s)"
  proof -
    have "int n \<le> mLength s" using that len by linarith
    then show ?thesis
      using ok by (simp add: chunk_stream_def SetMarker_start marker_def chunk_content_def chunk_ok_def stream_ok_def)
  qed
  show skip: "chunk_ok (SetMarker chunk_stream (int n) kStreamFromMarker s) \<and>
      marker (SetMarker chunk_stream (int n) kStreamFromMarker s) = marker s + n \<and>
      chunk_content (SetMarker chunk_stream (int n) kStreamFromMarker s) = chunk_content s"
    if n: "marker s + n \<le> length (chunk_content s)"
  proof -
    have "mMarker s + int n \<le> mLength s" using n len m unfolding marker_def by linarith
    then show ?thesis
      using ok m by (simp add: chunk_stream_def SetMarker_skip marker_def chunk_content_def chunk_ok_def stream_ok_def nat_add_distrib)
  qed
  show "\<exists>s'. GetBytes chunk_stream (int n) s = Some (0, take n (drop (marker s) (chunk_content s)), s') \<and> chunk_ok s' \<and>
      chunk_content s' = chunk_content s \<and> marker s' = marker s + n"
    if n: "marker s + n \<le> length (chunk_content s)"
  proof -
    have "\<not> mMarker s + int n > mLength s" using n len m by (simp add: marker_def)
    moreover have "copy_out (fPtr (fChunk s)) (mMarker s) (int n) = Some (take n (drop (marker s) (chunk_content s)))"
      unfolding chunk_content_def marker_def using n ok m
      by (intro copy_out_content) (auto simp: chunk_ok_def chunk_content_def marker_def)
    ultimately have "GetBytes chunk_stream (int n) s = Some (0, take n (drop (marker s) (chunk_content s)),
        SetMarker chunk_stream (int n) kStreamFromMarker s)"
      by (simp add: chunk_stream_def EmStreamChunk_GetBytes_def)
    then show ?thesis using skip [OF n] by blast
  qed
qed

text \<open>Growing a chunk keeps what it holds.\<close>

lemma Chunk_SetLength_grow:
  assumes "fAllocatedSize c = int (length (fPtr c))" and "fUsedSize c \<le> fAllocatedSize c" and "0 \<le> fUsedSize c"
    and "fUsedSize c < n"
  shows "fUsedSize (Chunk_SetLength n c) = n"
    and "fAllocatedSize (Chunk_SetLength n c) = int (length (fPtr (Chunk_SetLength n c)))"
    and "n \<le> fAllocatedSize (Chunk_SetLength n c)"
    and "take (nat (fUsedSize c)) (fPtr (Chunk_SetLength n c)) = take (nat (fUsedSize c)) (fPtr c)"
  using assms by (auto simp: Chunk_SetLength_def Let_def ReallocMemory_def)

lemma copy_in_content:
  assumes "0 \<le> p" and "p \<le> l" and "l \<le> l'" and "l' \<le> int (length m)" and "p + int (length bs) \<le> l'"
    and "take (nat l) m = c" and "l' = (if p + int (length bs) > l then p + int (length bs) else l)"
  shows "\<exists>m'. copy_in m p bs = Some m' \<and> length m' = length m \<and>
    take (nat l') m' = take (nat p) c @ bs @ drop (nat p + length bs) c"
proof -
  define m' where "m' = take (nat p) m @ bs @ drop (nat p + length bs) m"
  have "copy_in m p bs = Some m'" using assms(1,4,5) by (simp add: copy_in_def m'_def)
  moreover have "length m' = length m" using assms(1,4,5) by (simp add: m'_def)
  moreover have "take (nat l') m' = take (nat p) c @ bs @ drop (nat p + length bs) c"
  proof -
    have tp: "take (nat p) c = take (nat p) m" "nat p \<le> length m" using assms(1-4,6) by (auto simp: min_def)
    show ?thesis
    proof (cases "p + int (length bs) > l")
      case True
      then have "nat l' = nat p + length bs" "length c \<le> nat p + length bs" using assms(1,6,7) by auto
      then show ?thesis using tp by (simp add: m'_def min_def)
    next
      case False
      then have l: "l' = l" "nat p + length bs \<le> nat l" using assms(1,7) by auto
      then have "drop (nat p + length bs) c = take (nat l - nat p - length bs) (drop (nat p + length bs) m)"
        using assms(6) by (auto simp: drop_take)
      moreover have "take (nat l) m' = take (nat p) m @ bs @ take (nat l - nat p - length bs) (drop (nat p + length bs) m)"
        using l(2) tp(2) by (cases "nat l = nat p") (auto simp: m'_def min_def)
      ultimately show ?thesis using l(1) tp(1) by simp
    qed
  qed
  ultimately show ?thesis by blast
qed

interpretation chunk: rw_stream chunk_stream chunk_ok chunk_content marker
proof
  fix s :: EmStreamChunk and bs :: "uint8 list"
  assume ok: "chunk_ok s"
  let ?n = "mMarker s + int (length bs)"
  define t where "t = (if ?n > mLength s then EmStreamChunk_SetLength ?n s else s)"
  have m: "0 \<le> mMarker s" "mMarker s \<le> mLength s" using ok by (auto simp: chunk_ok_def stream_ok_def)
  have t: "mMarker t = mMarker s" "mLength t = (if ?n > mLength s then ?n else mLength s)"
    "fUsedSize (fChunk t) = mLength t" "fAllocatedSize (fChunk t) = int (length (fPtr (fChunk t)))"
    "mLength t \<le> fAllocatedSize (fChunk t)" "take (nat (mLength s)) (fPtr (fChunk t)) = chunk_content s"
    using ok m Chunk_SetLength_grow [of "fChunk s" ?n]
    by (auto simp: t_def chunk_ok_def EmStreamChunk_SetLength_def EmStream_SetLength_def Let_def chunk_content_def)
  have le: "mLength s \<le> mLength t" "?n \<le> mLength t" using t(2) by auto
  obtain d where d: "copy_in (fPtr (fChunk t)) (mMarker s) bs = Some d" "length d = length (fPtr (fChunk t))"
    "take (nat (mLength t)) d = take (nat (mMarker s)) (chunk_content s) @ bs @ drop (nat (mMarker s) + length bs) (chunk_content s)"
    using copy_in_content [OF m le(1) _ le(2) t(6) t(2)] t(4,5) by auto
  show "\<exists>s'. PutBytes chunk_stream bs s = Some (0, s') \<and> chunk_ok s' \<and>
      chunk_content s' = take (marker s) (chunk_content s) @ bs @ drop (marker s + length bs) (chunk_content s) \<and>
      marker s' = marker s + length bs"
  proof (cases "bs = []")
    case True
    then show ?thesis using ok m by (simp add: chunk_stream_def EmStreamChunk_PutBytes_def)
  next
    case False
    define u where "u = t\<lparr>fChunk := fChunk t\<lparr>fPtr := d\<rparr>\<rparr>"
    have "PutBytes chunk_stream bs s = Some (0, EmStream_SetMarker (int (length bs)) kStreamFromMarker u)"
      using False d(1) t(1) by (simp add: chunk_stream_def EmStreamChunk_PutBytes_def Let_def t_def u_def)
    moreover have "EmStream_SetMarker (int (length bs)) kStreamFromMarker u = u\<lparr>mMarker := ?n\<rparr>"
      using t(1,2) m by (subst SetMarker_skip) (auto simp: u_def)
    ultimately show ?thesis using d t m
      by (auto simp: u_def chunk_ok_def stream_ok_def chunk_content_def marker_def nat_add_distrib)
  qed
qed

interpretation block: read_stream block_stream block_ok block_content marker
proof
  fix s :: EmStreamBlock and n :: nat
  assume ok: "block_ok s"
  then have len: "int (length (block_content s)) = mLength s"
    by (auto simp: block_ok_def stream_ok_def block_content_def min_def)
  have m: "0 \<le> mMarker s" "mMarker s \<le> mLength s" using ok by (auto simp: block_ok_def stream_ok_def)
  show "marker s \<le> length (block_content s)" using len m by (simp add: marker_def)
  show "GetMarker block_stream s = int (marker s)" using m by (simp add: block_stream_def marker_def)
  show "GetLength block_stream s = int (length (block_content s))" using len by (simp add: block_stream_def)
  show "block_ok (SetMarker block_stream (int n) kStreamFromStart s) \<and> marker (SetMarker block_stream (int n) kStreamFromStart s) = n \<and>
      block_content (SetMarker block_stream (int n) kStreamFromStart s) = block_content s"
    if "n \<le> length (block_content s)"
  proof -
    have "int n \<le> mLength s" using that len by linarith
    then show ?thesis
      using ok by (simp add: block_stream_def SetMarker_start marker_def block_content_def block_ok_def stream_ok_def)
  qed
  show skip: "block_ok (SetMarker block_stream (int n) kStreamFromMarker s) \<and>
      marker (SetMarker block_stream (int n) kStreamFromMarker s) = marker s + n \<and>
      block_content (SetMarker block_stream (int n) kStreamFromMarker s) = block_content s"
    if n: "marker s + n \<le> length (block_content s)"
  proof -
    have "mMarker s + int n \<le> mLength s" using n len m unfolding marker_def by linarith
    then show ?thesis
      using ok m by (simp add: block_stream_def SetMarker_skip marker_def block_content_def block_ok_def stream_ok_def nat_add_distrib)
  qed
  show "\<exists>s'. GetBytes block_stream (int n) s = Some (0, take n (drop (marker s) (block_content s)), s') \<and> block_ok s' \<and>
      block_content s' = block_content s \<and> marker s' = marker s + n"
    if n: "marker s + n \<le> length (block_content s)"
  proof -
    have "\<not> mMarker s + int n > mLength s" using n len m by (simp add: marker_def)
    moreover have "copy_out (fData s) (mMarker s) (int n) = Some (take n (drop (marker s) (block_content s)))"
      unfolding block_content_def marker_def using n ok m
      by (intro copy_out_content) (auto simp: block_ok_def block_content_def marker_def)
    ultimately have "GetBytes block_stream (int n) s = Some (0, take n (drop (marker s) (block_content s)),
        SetMarker block_stream (int n) kStreamFromMarker s)"
      by (simp add: block_stream_def EmStreamBlock_GetBytes_def)
    then show ?thesis using skip [OF n] by blast
  qed
qed

end
