(* ===== verification/RunLength.thy ===== *)
theory RunLength
  imports HostMem "HOL-Library.Signed_Division"
begin

text \<open>
  The run-length packing of \<open>Miscellaneous.cpp\<close> (the scheme of QuickDraw's \<open>PackBits\<close>):
  \<open>RunLengthEncode\<close>, \<open>RunLengthDecode\<close> and \<open>RunLengthWorstSize\<close>. The encoder is a machine of
  three phases that looks at a window of three samples; it is related to a list of operations,
  fills and copies, whose bytes it writes.
\<close>

section \<open>The encoder\<close>

datatype rle_phase = kBeginRun | kRepeatRun | kCopyRun

text \<open>
  The samples are wider than a byte, so that -1 means that there is none. \<open>dstP\<close> are the bytes
  written so far, \<open>opP\<close> the index of the flag-counter byte a copy run has left open (a 0 here; it is set
  when the run ends).
\<close>

record rle =
  sample0 :: int
  sample1 :: int
  sample2 :: int
  opCount :: int
  phase :: rle_phase
  opP :: nat
  dstP :: "uint8 list"

definition rle_start :: rle where
  "rle_start = \<lparr>sample0 = - 1, sample1 = - 1, sample2 = - 1, opCount = 0, phase = kBeginRun, opP = 0, dstP = []\<rparr>"

definition rle_shift :: "int \<Rightarrow> rle \<Rightarrow> rle" where
  "rle_shift b s = s\<lparr>sample0 := sample1 s, sample1 := sample2 s, sample2 := b\<rparr>"

definition rle_switch :: "rle \<Rightarrow> rle" where
  "rle_switch s =
     (case phase s of
        kBeginRun \<Rightarrow>
          if sample2 s = sample0 s \<and> sample2 s = sample1 s then s\<lparr>phase := kRepeatRun, opCount := - 2\<rparr>
          else if sample0 s \<noteq> - 1
          then s\<lparr>phase := kCopyRun, opCount := 0, opP := length (dstP s), dstP := dstP s @ [0, of_int (sample0 s)]\<rparr>
          else s
      | kRepeatRun \<Rightarrow>
          (let s' = (if sample2 s = sample1 s then s\<lparr>opCount := opCount s - 1\<rparr> else s)
           in if sample2 s = sample1 s \<and> opCount s' > - 127 then s'
              else (let s' = (if sample2 s = sample1 s then s'\<lparr>sample2 := - 1\<rparr> else s')
                    in s'\<lparr>sample1 := - 1, dstP := dstP s' @ [of_int (opCount s'), of_int (sample0 s')], phase := kBeginRun\<rparr>))
      | kCopyRun \<Rightarrow>
          if sample0 s \<noteq> sample1 s \<or> sample0 s \<noteq> sample2 s
          then (let s' = s\<lparr>dstP := dstP s @ [of_int (sample0 s)], opCount := opCount s + 1\<rparr>
                in if opCount s' \<ge> 127 then s'\<lparr>dstP := (dstP s')[opP s' := of_int (opCount s')], phase := kBeginRun\<rparr>
                   else s')
          else s\<lparr>dstP := (dstP s)[opP s := of_int (opCount s)], phase := kRepeatRun, opCount := - 2\<rparr>)"

text \<open>
  The loop, for \<open>srcBytes\<close> from one more than the length of the source down to 0; \<open>None\<close> if it
  reads past the source.
\<close>

fun rle_loop :: "nat \<Rightarrow> uint8 list \<Rightarrow> rle \<Rightarrow> (uint8 list \<times> rle) option" where
  "rle_loop 0 src s = Some (src, s)"
| "rle_loop (Suc srcBytes) src s =
     (if srcBytes > 1
      then (case src of [] \<Rightarrow> None | b # src \<Rightarrow> rle_loop srcBytes src (rle_switch (rle_shift (uint b) s)))
      else rle_loop srcBytes src (rle_switch (rle_shift (- 1) s)))"

definition rle_finish :: "rle \<Rightarrow> uint8 list" where
  "rle_finish s = (if phase s = kCopyRun then (dstP s)[opP s := of_int (opCount s)] else dstP s)"

definition RunLengthEncode :: "uint8 list \<Rightarrow> nat \<Rightarrow> (uint8 list \<times> uint8 list) option" where
  "RunLengthEncode src srcBytes =
     map_option (\<lambda>(src, s). (src, rle_finish s)) (rle_loop (srcBytes + 2) src rle_start)"

section \<open>The decoder\<close>

text \<open>\<open>n\<close> bytes from the source; \<open>None\<close> if it has fewer.\<close>

definition take_bytes :: "nat \<Rightarrow> uint8 list \<Rightarrow> (uint8 list \<times> uint8 list) option" where
  "take_bytes n src = (if n \<le> length src then Some (take n src, drop n src) else None)"

text \<open>
  The result is the rest of the source and everything that was written, which can be more than
  \<open>dstBytes\<close> bytes: the limit is only looked at between operations.
\<close>

function RunLengthDecode :: "uint8 list \<Rightarrow> uint8 list \<Rightarrow> nat \<Rightarrow> (uint8 list \<times> uint8 list) option" where
  "RunLengthDecode src dst dstBytes =
     (if length dst < dstBytes
      then (case src of
              [] \<Rightarrow> None
            | b # src \<Rightarrow>
                (let op = sint b
                 in if op = - 128 then RunLengthDecode src dst dstBytes
                    else if op \<ge> 0
                    then (case take_bytes (nat (op + 1)) src of
                            None \<Rightarrow> None
                          | Some (bs, src') \<Rightarrow> RunLengthDecode (drop (nat (op + 1)) src) (dst @ bs) dstBytes)
                    else (case src of
                            [] \<Rightarrow> None
                          | fillData # src \<Rightarrow> RunLengthDecode src (dst @ replicate (nat (1 - op)) fillData) dstBytes)))
      else Some (src, dst))"
  by pat_completeness auto
termination by (relation "measure (\<lambda>(src, _, _). length src)") auto

declare RunLengthDecode.simps [simp del]

definition RunLengthWorstSize :: "int \<Rightarrow> int" where
  "RunLengthWorstSize srcBytes = srcBytes + (srcBytes + 126) sdiv 127"

section \<open>Operations\<close>

datatype rle_op = Fill nat uint8 | Copy "uint8 list"

fun op_bytes :: "rle_op \<Rightarrow> uint8 list" where
  "op_bytes (Fill n x) = [of_int (1 - int n), x]"
| "op_bytes (Copy xs) = of_int (int (length xs) - 1) # xs"

fun op_data :: "rle_op \<Rightarrow> uint8 list" where
  "op_data (Fill n x) = replicate n x"
| "op_data (Copy xs) = xs"

fun op_ok :: "rle_op \<Rightarrow> bool" where
  "op_ok (Fill n x) \<longleftrightarrow> 3 \<le> n \<and> n \<le> 128"
| "op_ok (Copy xs) \<longleftrightarrow> 1 \<le> length xs \<and> length xs \<le> 128"

definition packed :: "uint8 list \<Rightarrow> uint8 list \<Rightarrow> bool" where
  "packed D xs \<longleftrightarrow> (\<exists>ops. list_all op_ok ops \<and> D = concat (map op_bytes ops) \<and> xs = concat (map op_data ops))"

lemma packed_Nil [simp]: "packed [] []"
  unfolding packed_def by (rule exI [of _ "[]"]) simp

lemma packed_snoc: "packed D xs \<Longrightarrow> op_ok p \<Longrightarrow> packed (D @ op_bytes p) (xs @ op_data p)"
  unfolding packed_def by (elim exE, rule_tac x = "ops @ [p]" in exI) auto

lemma packed_Fill: "packed D xs \<Longrightarrow> 3 \<le> n \<Longrightarrow> n \<le> 128 \<Longrightarrow> packed (D @ [of_int (1 - int n), x]) (xs @ replicate n x)"
  using packed_snoc [of D xs "Fill n x"] by simp

lemma packed_Copy:
  "packed D xs \<Longrightarrow> 1 \<le> length ys \<Longrightarrow> length ys \<le> 128 \<Longrightarrow> packed (D @ of_int (int (length ys) - 1) # ys) (xs @ ys)"
  using packed_snoc [of D xs "Copy ys"] by simp

lemma sint_count: "- 128 \<le> i \<Longrightarrow> i < 128 \<Longrightarrow> sint (of_int i :: uint8) = i"
  by (simp add: signed_of_int signed_take_bit_int_eq_self)

lemma decode_op:
  assumes "op_ok p" and "length dst < n"
  shows "RunLengthDecode (op_bytes p @ rest) dst n = RunLengthDecode rest (dst @ op_data p) n"
proof (cases p)
  case (Fill k x)
  then show ?thesis using assms sint_count [of "1 - int k"]
    by (subst RunLengthDecode.simps) (simp add: Let_def)
next
  case (Copy xs)
  then have "xs \<noteq> []" using assms(1) by auto
  then show ?thesis using Copy assms sint_count [of "int (length xs) - 1"]
    by (subst RunLengthDecode.simps) (simp add: Let_def take_bytes_def)
qed

lemma decode_ops:
  assumes "list_all op_ok ops" and "n = length dst + length (concat (map op_data ops))"
  shows "RunLengthDecode (concat (map op_bytes ops) @ rest) dst n = Some (rest, dst @ concat (map op_data ops))"
  using assms
proof (induction ops arbitrary: dst)
  case Nil
  then show ?case by (subst RunLengthDecode.simps) simp
next
  case (Cons p ops)
  have "0 < length (op_data p)" using Cons.prems(1) by (cases p) auto
  then show ?case using Cons by (simp add: decode_op)
qed

lemma decode_packed: "packed D xs \<Longrightarrow> RunLengthDecode (D @ rest) [] (length xs) = Some (rest, xs)"
  unfolding packed_def using decode_ops [where dst = "[]"] by fastforce

section \<open>What the encoder has done\<close>

text \<open>
  \<open>small\<close> bounds what is written: 129 bytes for every 128 bytes of the source that are done,
  with some slack.
\<close>

definition small :: "uint8 list \<Rightarrow> uint8 list \<Rightarrow> nat \<Rightarrow> bool" where
  "small D xs slack \<longleftrightarrow> 128 * length D \<le> 129 * length xs + slack"

definition copying :: "rle \<Rightarrow> uint8 list \<Rightarrow> bool" where
  "copying s xs \<longleftrightarrow> (\<exists>D ds z ys. packed D ds \<and> small D ds 0 \<and> dstP s = D @ z # ys \<and> opP s = length D \<and>
     opCount s + 1 = int (length ys) \<and> 1 \<le> length ys \<and> length ys \<le> 127 \<and> xs = ds @ ys)"

definition repeating :: "rle \<Rightarrow> uint8 list \<Rightarrow> bool" where
  "repeating s xs \<longleftrightarrow> (\<exists>ds x n. packed (dstP s) ds \<and> small (dstP s) ds 127 \<and> sample1 s = uint x \<and>
     sample2 s = uint x \<and> opCount s = 1 - int n \<and> 3 \<le> n \<and> n \<le> 127 \<and> xs = ds @ replicate n x)"

definition beginning :: "rle \<Rightarrow> uint8 list \<Rightarrow> bool" where
  "beginning s xs \<longleftrightarrow> packed (dstP s) xs \<and> small (dstP s) xs 0"

text \<open>While there is input: the window holds what is not written yet.\<close>

definition rle_inv :: "uint8 list \<Rightarrow> rle \<Rightarrow> bool" where
  "rle_inv xs s \<longleftrightarrow>
     (phase s = kBeginRun \<and> (\<exists>ds y1 y2. beginning s ds \<and>
        ((sample1 s = - 1 \<and> sample2 s = - 1 \<and> xs = ds) \<or> (sample1 s = - 1 \<and> sample2 s = uint y2 \<and> xs = ds @ [y2]) \<or>
         (sample1 s = uint y1 \<and> sample2 s = uint y2 \<and> xs = ds @ [y1, y2])))) \<or>
     (phase s = kCopyRun \<and> (\<exists>ds y1 y2. copying s ds \<and> sample1 s = uint y1 \<and> sample2 s = uint y2 \<and> xs = ds @ [y1, y2])) \<or>
     (phase s = kRepeatRun \<and> repeating s xs)"

lemma uint_simps [simp]: "uint (x :: uint8) \<noteq> - 1" "- 1 \<noteq> uint (x :: uint8)" "uint x = uint y \<longleftrightarrow> x = y"
proof -
  show "uint x \<noteq> - 1" "- 1 \<noteq> uint x" using uint_ge_0 [of x] by linarith+
qed (simp add: word_uint_eq_iff)

lemma copying_close:
  assumes "copying s xs"
  shows "packed ((dstP s)[opP s := of_int (opCount s)]) xs" and "small ((dstP s)[opP s := of_int (opCount s)]) xs 127"
proof -
  obtain D ds z ys where c: "packed D ds" "small D ds 0" "dstP s = D @ z # ys" "opP s = length D"
    "opCount s = int (length ys) - 1" "1 \<le> length ys" "length ys \<le> 127" "xs = ds @ ys"
    using assms by (force simp: copying_def)
  have "packed (D @ of_int (int (length ys) - 1) # ys) (ds @ ys)"
    using c(6,7) by (intro packed_Copy [OF c(1)]) auto
  then show "packed ((dstP s)[opP s := of_int (opCount s)]) xs" using c by (simp add: list_update_append)
  show "small ((dstP s)[opP s := of_int (opCount s)]) xs 127" using c by (simp add: small_def)
qed

lemma copying_more:
  assumes "copying s xs" and "dstP t = dstP s @ [y]" and "opP t = opP s" and "opCount t = opCount s + 1"
  shows "opCount t < 127 \<Longrightarrow> copying t (xs @ [y])"
    and "opCount t \<ge> 127 \<Longrightarrow> packed ((dstP t)[opP t := of_int (opCount t)]) (xs @ [y]) \<and>
      small ((dstP t)[opP t := of_int (opCount t)]) (xs @ [y]) 0"
proof -
  obtain D ds z ys where c: "packed D ds" "small D ds 0" "dstP s = D @ z # ys" "opP s = length D"
    "opCount s + 1 = int (length ys)" "1 \<le> length ys" "length ys \<le> 127" "xs = ds @ ys"
    using assms(1) by (auto simp: copying_def)
  show "copying t (xs @ [y])" if "opCount t < 127"
    using c that assms(2-4) unfolding copying_def
    by (intro exI [of _ D] exI [of _ ds] exI [of _ z] exI [of _ "ys @ [y]"]) simp
  assume "opCount t \<ge> 127"
  then have n: "length ys = 127" "opCount t = 127" using c(5,7) assms(4) by auto
  have "packed (D @ of_int (int (length (ys @ [y])) - 1) # (ys @ [y])) (ds @ (ys @ [y]))"
    using n by (intro packed_Copy [OF c(1)]) simp_all
  then show "packed ((dstP t)[opP t := of_int (opCount t)]) (xs @ [y]) \<and>
      small ((dstP t)[opP t := of_int (opCount t)]) (xs @ [y]) 0"
    using c n assms(2-4) by (simp add: list_update_append small_def)
qed

lemma start_copy: "beginning s ds \<Longrightarrow> dstP t = dstP s @ [0, y] \<Longrightarrow> opP t = length (dstP s) \<Longrightarrow> opCount t = 0 \<Longrightarrow>
    copying t (ds @ [y])"
  unfolding copying_def beginning_def
  by (intro exI [of _ "dstP s"] exI [of _ ds] exI [of _ 0] exI [of _ "[y]"]) simp

lemma start_repeat: "packed (dstP t) ds \<Longrightarrow> small (dstP t) ds 127 \<Longrightarrow> sample1 t = uint y \<Longrightarrow> sample2 t = uint y \<Longrightarrow>
    opCount t = - 2 \<Longrightarrow> repeating t (ds @ [y, y, y])"
  unfolding repeating_def by (intro exI [of _ ds] exI [of _ y] exI [of _ 3]) (simp add: eval_nat_numeral)

lemma fill_done:
  assumes "packed D ds" and "small D ds 127" and "3 \<le> n" and "n \<le> 128"
  shows "packed (D @ [of_int (1 - int n), x]) (ds @ replicate n x)" and "small (D @ [of_int (1 - int n), x]) (ds @ replicate n x) 0"
  using packed_Fill [OF assms(1), of n x] assms by (simp_all add: small_def)

lemma rle_step:
  assumes "rle_inv xs s"
  shows "rle_inv (xs @ [b]) (rle_switch (rle_shift (uint b) s))"
proof -
  let ?t = "rle_switch (rle_shift (uint b) s)"
  consider (b) "phase s = kBeginRun" | (c) "phase s = kCopyRun" | (r) "phase s = kRepeatRun" by (cases "phase s") auto
  then show ?thesis
  proof cases
    case b
    then obtain ds y1 y2 where i: "beginning s ds"
        "(sample1 s = - 1 \<and> sample2 s = - 1 \<and> xs = ds) \<or> (sample1 s = - 1 \<and> sample2 s = uint y2 \<and> xs = ds @ [y2]) \<or>
         (sample1 s = uint y1 \<and> sample2 s = uint y2 \<and> xs = ds @ [y1, y2])"
      using assms by (auto simp: rle_inv_def)
    show ?thesis
    proof (cases "sample1 s = - 1")
      case True
      then show ?thesis using b i by (auto simp: rle_inv_def rle_switch_def rle_shift_def beginning_def)
    next
      case False
      then have w: "sample1 s = uint y1" "sample2 s = uint y2" "xs = ds @ [y1, y2]" using i(2) by auto
      show ?thesis
      proof (cases "b = y1 \<and> b = y2")
        case True
        then have eq: "y1 = b" "y2 = b" by auto
        have "repeating ?t (ds @ [b, b, b])"
          using b w i(1) unfolding eq by (intro start_repeat) (auto simp: rle_switch_def rle_shift_def beginning_def small_def)
        then show ?thesis using b w unfolding eq by (simp add: rle_inv_def rle_switch_def rle_shift_def)
      next
        case False
        have "copying ?t (ds @ [y1])"
          using b w False by (intro start_copy [OF i(1)]) (auto simp: rle_switch_def rle_shift_def)
        then show ?thesis using b w False by (auto simp: rle_inv_def rle_switch_def rle_shift_def)
      qed
    qed
  next
    case c
    then obtain ds y1 y2 where i: "copying s ds" "sample1 s = uint y1" "sample2 s = uint y2" "xs = ds @ [y1, y2]"
      using assms by (auto simp: rle_inv_def)
    show ?thesis
    proof (cases "y1 = y2 \<and> y1 = b")
      case True
      then have eq: "y1 = b" "y2 = b" by auto
      have "repeating ?t (ds @ [b, b, b])"
        using c i(2-4) unfolding eq using copying_close [OF i(1)] by (intro start_repeat) (auto simp: rle_switch_def rle_shift_def)
      then show ?thesis using c i(2-4) unfolding eq by (simp add: rle_inv_def rle_switch_def rle_shift_def)
    next
      case False
      define t where "t = rle_shift (uint b) s\<lparr>dstP := dstP s @ [y1], opCount := opCount s + 1\<rparr>"
      have m: "opCount t < 127 \<Longrightarrow> copying t (ds @ [y1])"
        "opCount t \<ge> 127 \<Longrightarrow> packed ((dstP t)[opP t := of_int (opCount t)]) (ds @ [y1]) \<and>
          small ((dstP t)[opP t := of_int (opCount t)]) (ds @ [y1]) 0"
        using copying_more [OF i(1), of t y1] by (auto simp: t_def rle_shift_def)
      have e: "?t = (if opCount t \<ge> 127 then t\<lparr>dstP := (dstP t)[opP t := of_int (opCount t)], phase := kBeginRun\<rparr> else t)"
        using c i False by (auto simp: rle_switch_def rle_shift_def t_def Let_def)
      have f: "phase t = kCopyRun" "sample1 t = uint y2" "sample2 t = uint b"
        using c i by (simp_all add: t_def rle_shift_def)
      show ?thesis using m f i(4) unfolding e by (auto simp: rle_inv_def beginning_def)
    qed
  next
    case r
    then obtain ds x n where i: "packed (dstP s) ds" "small (dstP s) ds 127" "sample1 s = uint x" "sample2 s = uint x"
      "opCount s = 1 - int n" "3 \<le> n" "n \<le> 127" "xs = ds @ replicate n x"
      using assms by (auto simp: rle_inv_def repeating_def)
    show ?thesis
    proof (cases "b = x")
      case False
      have n: "3 \<le> n" "n \<le> 128" using i by auto
      show ?thesis using r i False fill_done [OF i(1,2) n, of x]
        by (auto simp: rle_inv_def rle_switch_def rle_shift_def beginning_def Let_def)
    next
      case True
      have xs: "xs @ [b] = ds @ replicate (Suc n) x" using i True by (simp add: replicate_append_same)
      show ?thesis
      proof (cases "n = 127")
        case True
        then show ?thesis using r i \<open>b = x\<close> fill_done [OF i(1,2), of 128 x] unfolding xs
          by (auto simp: rle_inv_def rle_switch_def rle_shift_def beginning_def Let_def)
      next
        case False
        have "repeating ?t (ds @ replicate (Suc n) x)"
          unfolding repeating_def using r i False \<open>b = x\<close>
          by (intro exI [of _ ds] exI [of _ x] exI [of _ "Suc n"]) (auto simp: rle_switch_def rle_shift_def Let_def)
        then show ?thesis unfolding xs using r i False \<open>b = x\<close>
          by (auto simp: rle_inv_def rle_switch_def rle_shift_def Let_def)
      qed
    qed
  qed
qed

text \<open>The two turns of the loop behind the end of the source.\<close>

definition rle_flushed :: "uint8 list \<Rightarrow> rle \<Rightarrow> bool" where
  "rle_flushed xs s \<longleftrightarrow> sample2 s = - 1 \<and>
     ((phase s = kBeginRun \<and> (\<exists>ds y. beginning s ds \<and>
         ((sample1 s = - 1 \<and> xs = ds) \<or> (sample1 s = uint y \<and> xs = ds @ [y])))) \<or>
      (phase s = kCopyRun \<and> (\<exists>ds y. copying s ds \<and> sample1 s = uint y \<and> xs = ds @ [y])) \<or>
      (phase s = kRepeatRun \<and> beginning s xs \<and> sample1 s = - 1 \<and> opCount s = - 2))"

lemma rle_step_copy:
  assumes "copying s ds" and "sample0 t = uint y" and "sample2 t = - 1" and "phase t = kCopyRun"
    and "dstP t = dstP s" and "opP t = opP s" and "opCount t = opCount s"
  shows "(phase (rle_switch t) = kCopyRun \<and> copying (rle_switch t) (ds @ [y]) \<or>
      phase (rle_switch t) = kBeginRun \<and> beginning (rle_switch t) (ds @ [y])) \<and>
    sample1 (rle_switch t) = sample1 t \<and> sample2 (rle_switch t) = - 1"
proof -
  define u where "u = t\<lparr>dstP := dstP t @ [y], opCount := opCount t + 1\<rparr>"
  have "rle_switch t = (if opCount u \<ge> 127 then u\<lparr>dstP := (dstP u)[opP u := of_int (opCount u)], phase := kBeginRun\<rparr> else u)"
    using assms(2-4) by (simp add: rle_switch_def u_def Let_def)
  moreover have "phase u = kCopyRun" "sample1 u = sample1 t" "sample2 u = - 1" using assms(3,4) by (simp_all add: u_def)
  moreover have "opCount u < 127 \<Longrightarrow> copying u (ds @ [y])" "opCount u \<ge> 127 \<Longrightarrow>
      packed ((dstP u)[opP u := of_int (opCount u)]) (ds @ [y]) \<and> small ((dstP u)[opP u := of_int (opCount u)]) (ds @ [y]) 0"
    using copying_more [OF assms(1), of u y] assms(5-7) by (auto simp: u_def)
  ultimately show ?thesis by (auto simp: beginning_def)
qed

lemma rle_flush_1:
  assumes "rle_inv xs s"
  shows "rle_flushed xs (rle_switch (rle_shift (- 1) s))"
proof -
  let ?t = "rle_switch (rle_shift (- 1) s)"
  consider (b) "phase s = kBeginRun" | (c) "phase s = kCopyRun" | (r) "phase s = kRepeatRun" by (cases "phase s") auto
  then show ?thesis
  proof cases
    case b
    then obtain ds y1 y2 where i: "beginning s ds"
        "(sample1 s = - 1 \<and> sample2 s = - 1 \<and> xs = ds) \<or> (sample1 s = - 1 \<and> sample2 s = uint y2 \<and> xs = ds @ [y2]) \<or>
         (sample1 s = uint y1 \<and> sample2 s = uint y2 \<and> xs = ds @ [y1, y2])"
      using assms by (auto simp: rle_inv_def)
    show ?thesis
    proof (cases "sample1 s = - 1")
      case True
      then show ?thesis using b i by (auto simp: rle_flushed_def rle_switch_def rle_shift_def beginning_def)
    next
      case False
      then have w: "sample1 s = uint y1" "sample2 s = uint y2" "xs = ds @ [y1, y2]" using i(2) by auto
      have "copying ?t (ds @ [y1])"
        using b w by (intro start_copy [OF i(1)]) (auto simp: rle_switch_def rle_shift_def)
      then show ?thesis using b w by (auto simp: rle_flushed_def rle_switch_def rle_shift_def)
    qed
  next
    case c
    then obtain ds y1 y2 where i: "copying s ds" "sample1 s = uint y1" "sample2 s = uint y2" "xs = ds @ [y1, y2]"
      using assms by (auto simp: rle_inv_def)
    have "(phase ?t = kCopyRun \<and> copying ?t (ds @ [y1]) \<or> phase ?t = kBeginRun \<and> beginning ?t (ds @ [y1])) \<and>
        sample1 ?t = sample1 (rle_shift (- 1) s) \<and> sample2 ?t = - 1"
      using c i(2) by (intro rle_step_copy [OF i(1)]) (simp_all add: rle_shift_def)
    then show ?thesis using i(3,4) by (auto simp: rle_flushed_def rle_shift_def)
  next
    case r
    then obtain ds x n where i: "packed (dstP s) ds" "small (dstP s) ds 127" "sample1 s = uint x" "sample2 s = uint x"
      "opCount s = 1 - int n" "3 \<le> n" "n \<le> 127" "xs = ds @ replicate n x"
      using assms by (auto simp: rle_inv_def repeating_def)
    then have n: "3 \<le> n" "n \<le> 128" by auto
    show ?thesis using r i fill_done [OF i(1,2) n, of x]
      by (auto simp: rle_flushed_def rle_switch_def rle_shift_def beginning_def Let_def)
  qed
qed

lemma finish_copy: "copying t xs \<Longrightarrow> phase t = kCopyRun \<Longrightarrow> packed (rle_finish t) xs \<and> small (rle_finish t) xs 127"
  using copying_close [of t xs] by (simp add: rle_finish_def)

lemma finish_begin: "beginning t xs \<Longrightarrow> phase t \<noteq> kCopyRun \<Longrightarrow> packed (rle_finish t) xs \<and> small (rle_finish t) xs 127"
  by (simp add: rle_finish_def beginning_def small_def)

lemma rle_flush_2:
  assumes "rle_flushed xs s"
  defines "t \<equiv> rle_switch (rle_shift (- 1) s)"
  shows "packed (rle_finish t) xs \<and> small (rle_finish t) xs 127"
proof -
  consider (b) "phase s = kBeginRun" | (c) "phase s = kCopyRun" | (r) "phase s = kRepeatRun" by (cases "phase s") auto
  then show ?thesis
  proof cases
    case b
    then obtain ds y where i: "beginning s ds" "sample2 s = - 1"
        "(sample1 s = - 1 \<and> xs = ds) \<or> (sample1 s = uint y \<and> xs = ds @ [y])"
      using assms by (auto simp: rle_flushed_def)
    show ?thesis
    proof (cases "sample1 s = - 1")
      case True
      then show ?thesis using b i
        by (intro finish_begin) (auto simp: t_def rle_switch_def rle_shift_def beginning_def)
    next
      case False
      then have w: "sample1 s = uint y" "xs = ds @ [y]" using i(3) by auto
      have "copying t (ds @ [y])"
        using b w i(2) by (intro start_copy [OF i(1)]) (auto simp: t_def rle_switch_def rle_shift_def)
      then show ?thesis unfolding w(2) using b w i(2)
        by (intro finish_copy) (auto simp: t_def rle_switch_def rle_shift_def)
    qed
  next
    case c
    then obtain ds y where i: "copying s ds" "sample1 s = uint y" "sample2 s = - 1" "xs = ds @ [y]"
      using assms by (auto simp: rle_flushed_def)
    have "phase t = kCopyRun \<and> copying t (ds @ [y]) \<or> phase t = kBeginRun \<and> beginning t (ds @ [y])"
      unfolding t_def using c i(2,3) rle_step_copy [OF i(1), of "rle_shift (- 1) s" y] by (simp add: rle_shift_def)
    then show ?thesis unfolding i(4) using finish_copy finish_begin by fastforce
  next
    case r
    then show ?thesis using assms
      by (intro finish_begin) (auto simp: rle_flushed_def rle_switch_def rle_shift_def beginning_def Let_def)
  qed
qed

lemma rle_loop_data:
  "rle_inv ds s \<Longrightarrow> length xs = n \<Longrightarrow>
    \<exists>t. rle_loop (n + 2) (xs @ rest) s = rle_loop 2 rest t \<and> rle_inv (ds @ xs) t"
proof (induction xs arbitrary: ds s n)
  case Nil
  then show ?case by (intro exI [of _ s]) (simp add: numeral_2_eq_2)
next
  case (Cons b xs)
  obtain t where "rle_loop (length xs + 2) (xs @ rest) (rle_switch (rle_shift (uint b) s)) = rle_loop 2 rest t"
    "rle_inv ((ds @ [b]) @ xs) t"
    using Cons.IH [OF rle_step [OF Cons.prems(1)] refl] by blast
  moreover have "rle_loop (n + 2) ((b # xs) @ rest) s = rle_loop (length xs + 2) (xs @ rest) (rle_switch (rle_shift (uint b) s))"
    using Cons.prems(2) by auto
  ultimately show ?case by auto
qed

lemma RunLengthEncode_ok:
  "\<exists>D. RunLengthEncode (xs @ rest) (length xs) = Some (rest, D) \<and> packed D xs \<and> 128 * length D \<le> 129 * length xs + 127"
proof -
  have "rle_inv [] rle_start" by (simp add: rle_inv_def rle_start_def beginning_def small_def)
  then obtain t where t: "rle_loop (length xs + 2) (xs @ rest) rle_start = rle_loop 2 rest t" "rle_inv xs t"
    using rle_loop_data [of "[]" rle_start xs "length xs" rest] by auto
  define u where "u = rle_switch (rle_shift (- 1) (rle_switch (rle_shift (- 1) t)))"
  have "rle_loop 2 rest t = Some (rest, u)" by (simp add: u_def numeral_2_eq_2)
  moreover have "packed (rle_finish u) xs \<and> small (rle_finish u) xs 127"
    unfolding u_def by (rule rle_flush_2 [OF rle_flush_1 [OF t(2)]])
  ultimately show ?thesis using t(1) by (simp add: RunLengthEncode_def small_def)
qed

lemma worst_size:
  "128 * length D \<le> 129 * n + 127 \<Longrightarrow> int (length D) \<le> RunLengthWorstSize (int n)"
proof -
  assume "128 * length D \<le> 129 * n + 127"
  moreover have "(int n + 126) sdiv 127 = (int n + 126) div 127"
    by (simp add: signed_divide_int_def sgn_if)
  ultimately show ?thesis unfolding RunLengthWorstSize_def by linarith
qed

section \<open>Properties\<close>

text \<open>
  C25: packing and unpacking. For every block of bytes, \<open>RunLengthEncode\<close> reads exactly the block,
  \<open>RunLengthDecode\<close> terminates, reads exactly the packed bytes and restores the block, and the
  packed bytes fit the buffer that \<open>RunLengthWorstSize\<close> asks for.
\<close>

theorem RunLength_round_trip:
  "\<exists>D. RunLengthEncode (xs @ rest) (length xs) = Some (rest, D) \<and>
    (\<forall>more. RunLengthDecode (D @ more) [] (length xs) = Some (more, xs)) \<and>
    int (length D) \<le> RunLengthWorstSize (int (length xs))"
proof -
  obtain D where D: "RunLengthEncode (xs @ rest) (length xs) = Some (rest, D)" "packed D xs"
    "128 * length D \<le> 129 * length xs + 127" using RunLengthEncode_ok by blast
  then show ?thesis using decode_packed [OF D(2)] worst_size [OF D(3)] by blast
qed

end
