(* ===== verification/ChunkFile.thy ===== *)
theory ChunkFile
  imports Streams RunLength
begin

text \<open>
  Chunk files (\<open>ChunkFile.cpp\<close>): a sequence of chunks, each a tag, a length and its bytes, on a
  stream; and the packed chunks of session files (\<open>SessionFile::WriteChunk\<close>, \<open>ReadChunk\<close>). Numbers
  are stored big-endian (\<open>Byteswapping.h\<close>), whatever the order of the host, here little-endian.

  All functions take the operations of the stream as an argument, and the lemmas about them hold
  for every stream that keeps the contracts \<open>read_stream\<close> and \<open>rw_stream\<close>.
\<close>

section \<open>Byte order\<close>

definition BYTE_SWAP_16 :: "uint16 \<Rightarrow> uint16" where
  "BYTE_SWAP_16 n = drop_bit 8 n OR push_bit 8 n"

definition BYTE_SWAP_32 :: "uint32 \<Rightarrow> uint32" where
  "BYTE_SWAP_32 n = push_bit 24 n OR (push_bit 8 n AND 0x00FF0000) OR (drop_bit 8 n AND 0x0000FF00) OR drop_bit 24 n"

definition Canonical :: "uint32 \<Rightarrow> uint32" where
  "Canonical v = BYTE_SWAP_32 v"

text \<open>A number in the memory of the host, and back.\<close>

definition host_long :: "uint32 \<Rightarrow> uint8 list" where
  "host_long v = [ucast v, ucast (drop_bit 8 v), ucast (drop_bit 16 v), ucast (drop_bit 24 v)]"

fun long_at :: "uint8 list \<Rightarrow> uint32 option" where
  "long_at (b0 # b1 # b2 # b3 # _) = Some (be32 b3 b2 b1 b0)"
| "long_at _ = None"

lemma length_host_long [simp]: "length (host_long v) = 4"
  by (simp add: host_long_def)

lemma long_at_host_long [simp]: "long_at (host_long v @ rest) = Some v" "long_at (host_long v) = Some v"
  by (simp_all add: host_long_def be32_of_bytes)

lemma BYTE_SWAP_32_invol: "BYTE_SWAP_32 (BYTE_SWAP_32 v) = v"
proof (rule bit_word_eqI)
  fix n
  have m: "(0x00FF0000 :: uint32) = push_bit 16 (mask 8)" "(0x0000FF00 :: uint32) = push_bit 8 (mask 8)"
    by (simp_all add: mask_eq_exp_minus_1 push_bit_eq_mult)
  assume "n < LENGTH(32)"
  then consider "n < 8" | "8 \<le> n" "n < 16" | "16 \<le> n" "n < 24" | "24 \<le> n" "n < 32" by fastforce
  then show "bit (BYTE_SWAP_32 (BYTE_SWAP_32 v)) n = bit v n"
    unfolding BYTE_SWAP_32_def m by cases (auto simp: bit_simps dest: bit_imp_le_length)
qed

lemma Canonical_invol [simp]: "Canonical (Canonical v) = v"
  by (simp add: Canonical_def BYTE_SWAP_32_invol)

section \<open>ChunkFile\<close>

text \<open>
  An operation fails with \<open>HostError\<close> if it accesses memory outside of a buffer and with
  \<open>Uninitialised\<close> if it goes on with a variable that the stream did not fill. \<open>None\<close> does not return.
\<close>

datatype io_error = HostError | Uninitialised

definition read_long :: "'s stream_ops \<Rightarrow> 's \<Rightarrow> io_error + uint32 \<times> 's" where
  "read_long ops s =
     (case GetBytes ops 4 s of
        None \<Rightarrow> Inl HostError
      | Some (_, bs, s) \<Rightarrow> (case long_at bs of None \<Rightarrow> Inl Uninitialised | Some v \<Rightarrow> Inr (Canonical v, s)))"

definition kChunkNotFound :: int where
  "kChunkNotFound = - 1"

partial_function (option) FindChunk_loop ::
    "'s stream_ops \<Rightarrow> uint32 \<Rightarrow> int \<Rightarrow> int \<Rightarrow> 's \<Rightarrow> (io_error + int \<times> 's) option" where
  "FindChunk_loop ops targetTag fileLength fileOffset s =
     (if fileOffset < fileLength
      then (case read_long ops s of
              Inl e \<Rightarrow> Some (Inl e)
            | Inr (chunkTag, s) \<Rightarrow>
                (case read_long ops s of
                   Inl e \<Rightarrow> Some (Inl e)
                 | Inr (chunkLen, s) \<Rightarrow>
                     if chunkTag = targetTag then Some (Inr (sint chunkLen, s))
                     else FindChunk_loop ops targetTag fileLength (fileOffset + (4 + 4 + sint chunkLen))
                            (SetMarker ops (sint chunkLen) kStreamFromMarker s)))
      else Some (Inr (kChunkNotFound, s)))"

declare FindChunk_loop.simps [code]

definition FindChunk :: "'s stream_ops \<Rightarrow> uint32 \<Rightarrow> 's \<Rightarrow> (io_error + int \<times> 's) option" where
  "FindChunk ops targetTag s =
     FindChunk_loop ops targetTag (GetLength ops s) 0 (SetMarker ops 0 kStreamFromStart s)"

text \<open>\<open>ReadChunk (size, data)\<close>: the bytes that are stored at \<open>data\<close>.\<close>

definition ReadBytes :: "'s stream_ops \<Rightarrow> int \<Rightarrow> 's \<Rightarrow> io_error + uint8 list \<times> 's" where
  "ReadBytes ops sz s = (case GetBytes ops sz s of None \<Rightarrow> Inl HostError | Some (_, bs, s) \<Rightarrow> Inr (bs, s))"

text \<open>Into a chunk that takes on the length; what the stream does not fill stays as it is.\<close>

definition read_into :: "'s stream_ops \<Rightarrow> int \<Rightarrow> Chunk \<Rightarrow> 's \<Rightarrow> io_error + Chunk \<times> 's" where
  "read_into ops sz c s =
     (let c = Chunk_SetLength sz c
      in case ReadBytes ops sz s of
           Inl e \<Rightarrow> Inl e
         | Inr (bs, s) \<Rightarrow> (case copy_in (fPtr c) 0 bs of None \<Rightarrow> Inl HostError | Some m \<Rightarrow> Inr (c\<lparr>fPtr := m\<rparr>, s)))"

definition ReadChunk :: "'s stream_ops \<Rightarrow> uint32 \<Rightarrow> Chunk \<Rightarrow> 's \<Rightarrow> (io_error + bool \<times> Chunk \<times> 's) option" where
  "ReadChunk ops tag c s =
     map_option (\<lambda>r. case r of
         Inl e \<Rightarrow> Inl e
       | Inr (sz, s) \<Rightarrow>
           if sz = kChunkNotFound then Inr (False, c, s)
           else (case read_into ops sz c s of Inl e \<Rightarrow> Inl e | Inr (c, s) \<Rightarrow> Inr (True, c, s)))
       (FindChunk ops tag s)"

partial_function (option) ReadChunkAt_loop ::
    "'s stream_ops \<Rightarrow> int \<Rightarrow> int \<Rightarrow> int \<Rightarrow> Chunk \<Rightarrow> 's \<Rightarrow> (io_error + (uint32 \<times> Chunk) option \<times> 's) option" where
  "ReadChunkAt_loop ops index fileLength fileOffset c s =
     (if fileOffset < fileLength
      then (case read_long ops s of
              Inl e \<Rightarrow> Some (Inl e)
            | Inr (chunkTag, s) \<Rightarrow>
                (case read_long ops s of
                   Inl e \<Rightarrow> Some (Inl e)
                 | Inr (chunkLen, s) \<Rightarrow>
                     if index = 0
                     then Some (case read_into ops (sint chunkLen) c s of Inl e \<Rightarrow> Inl e | Inr (c, s) \<Rightarrow> Inr (Some (chunkTag, c), s))
                     else ReadChunkAt_loop ops (index - 1) fileLength (fileOffset + (4 + 4 + sint chunkLen)) c
                            (SetMarker ops (sint chunkLen) kStreamFromMarker s)))
      else Some (Inr (None, s)))"

declare ReadChunkAt_loop.simps [code]

definition ReadChunkAt :: "'s stream_ops \<Rightarrow> int \<Rightarrow> Chunk \<Rightarrow> 's \<Rightarrow> (io_error + (uint32 \<times> Chunk) option \<times> 's) option" where
  "ReadChunkAt ops index c s =
     ReadChunkAt_loop ops index (GetLength ops s) 0 c (SetMarker ops 0 kStreamFromStart s)"

definition ReadInt :: "'s stream_ops \<Rightarrow> uint32 \<Rightarrow> 's \<Rightarrow> (io_error + uint32 option \<times> 's) option" where
  "ReadInt ops tag s =
     map_option (\<lambda>r. case r of
         Inl e \<Rightarrow> Inl e
       | Inr (sz, s) \<Rightarrow>
           if sz = kChunkNotFound then Inr (None, s)
           else (case read_long ops s of Inl e \<Rightarrow> Inl e | Inr (v, s) \<Rightarrow> Inr (Some v, s)))
       (FindChunk ops tag s)"

definition ReadString :: "'s stream_ops \<Rightarrow> uint32 \<Rightarrow> 's \<Rightarrow> (io_error + uint8 list option \<times> 's) option" where
  "ReadString ops tag s =
     map_option (\<lambda>r. case r of
         Inl e \<Rightarrow> Inl e
       | Inr (len, s) \<Rightarrow>
           if len = kChunkNotFound then Inr (None, s)
           else if len < 0 then Inl HostError
           else if len > 0
           then (case ReadBytes ops len s of Inl e \<Rightarrow> Inl e
                 | Inr (bs, s) \<Rightarrow> Inr (Some (bs @ replicate (nat len - length bs) 0), s))
           else Inr (Some [], s))
       (FindChunk ops tag s)"

text \<open>The error codes of the stream are ignored.\<close>

definition put :: "'s stream_ops \<Rightarrow> uint8 list \<Rightarrow> 's \<Rightarrow> io_error + 's" where
  "put ops bs s = (case PutBytes ops bs s of None \<Rightarrow> Inl HostError | Some (_, s) \<Rightarrow> Inr s)"

definition WriteChunk :: "'s stream_ops \<Rightarrow> uint32 \<Rightarrow> uint8 list \<Rightarrow> 's \<Rightarrow> io_error + 's" where
  "WriteChunk ops tag data s =
     (case put ops (host_long (Canonical tag)) s of
        Inl e \<Rightarrow> Inl e
      | Inr s \<Rightarrow>
          (case put ops (host_long (Canonical (of_nat (length data)))) s of
             Inl e \<Rightarrow> Inl e
           | Inr s \<Rightarrow> put ops data s))"

definition WriteInt :: "'s stream_ops \<Rightarrow> uint32 \<Rightarrow> uint32 \<Rightarrow> 's \<Rightarrow> io_error + 's" where
  "WriteInt ops tag val s = WriteChunk ops tag (host_long (Canonical val)) s"

definition WriteString :: "'s stream_ops \<Rightarrow> uint32 \<Rightarrow> uint8 list \<Rightarrow> 's \<Rightarrow> io_error + 's" where
  "WriteString ops tag str s = WriteChunk ops tag str s"

fun WriteAll :: "'s stream_ops \<Rightarrow> (uint32 \<times> uint8 list) list \<Rightarrow> 's \<Rightarrow> io_error + 's" where
  "WriteAll ops [] s = Inr s"
| "WriteAll ops ((tag, data) # cs) s = (case WriteChunk ops tag data s of Inl e \<Rightarrow> Inl e | Inr s \<Rightarrow> WriteAll ops cs s)"

section \<open>What a chunk file holds\<close>

definition chunk_bytes :: "uint32 \<times> uint8 list \<Rightarrow> uint8 list" where
  "chunk_bytes c = host_long (Canonical (fst c)) @ host_long (Canonical (of_nat (length (snd c)))) @ snd c"

definition file_bytes :: "(uint32 \<times> uint8 list) list \<Rightarrow> uint8 list" where
  "file_bytes cs = concat (map chunk_bytes cs)"

lemma file_bytes_simps [simp]: "file_bytes [] = []" "file_bytes (c # cs) = chunk_bytes c @ file_bytes cs"
  "file_bytes (cs @ ds) = file_bytes cs @ file_bytes ds"
  by (simp_all add: file_bytes_def)

lemma length_chunk_bytes: "length (chunk_bytes c) = 8 + length (snd c)"
  by (simp add: chunk_bytes_def)

definition lengths_ok :: "(uint32 \<times> uint8 list) list \<Rightarrow> bool" where
  "lengths_ok cs \<longleftrightarrow> (\<forall>c\<in>set cs. length (snd c) < 2 ^ 31)"

lemma sint_length: "n < 2 ^ 31 \<Longrightarrow> sint (of_nat n :: uint32) = int n"
  by (simp add: signed_of_nat signed_take_bit_int_eq_self)

context read_stream
begin

lemma read_long_ok:
  assumes "ok s" and "content s = pre @ host_long (Canonical v) @ rest" and "pos s = length pre"
  shows "\<exists>s'. read_long ops s = Inr (v, s') \<and> ok s' \<and> content s' = content s \<and> pos s' = length pre + 4"
proof -
  have "pos s + 4 \<le> length (content s)" using assms(2,3) by simp
  then obtain s' where "GetBytes ops (int 4) s = Some (0, take 4 (drop (pos s) (content s)), s')" "ok s'"
    "content s' = content s" "pos s' = pos s + 4" using get_law [OF assms(1)] by blast
  then show ?thesis using assms(2,3) by (simp add: read_long_def)
qed

text \<open>The loop, from the start of a chunk.\<close>

lemma chunk_start:
  assumes "ok s" and "content s = pre @ chunk_bytes (t, d) @ rest" and "pos s = length pre"
  obtains s1 s2 where "read_long ops s = Inr (t, s1)" and "read_long ops s1 = Inr (of_nat (length d), s2)"
    and "ok s2" and "content s2 = content s" and "pos s2 = length pre + 8"
proof -
  obtain s1 where s1: "read_long ops s = Inr (t, s1)" "ok s1" "content s1 = content s" "pos s1 = length pre + 4"
    using read_long_ok [OF assms(1) _ assms(3)] assms(2) by (auto simp: chunk_bytes_def)
  have "content s1 = (pre @ host_long (Canonical t)) @ host_long (Canonical (of_nat (length d))) @ (d @ rest)"
    using s1(3) assms(2) by (simp add: chunk_bytes_def)
  then obtain s2 where "read_long ops s1 = Inr (of_nat (length d), s2)" "ok s2" "content s2 = content s1" "pos s2 = length pre + 8"
    using read_long_ok [OF s1(2), of "pre @ host_long (Canonical t)"] s1(4) by fastforce
  then show thesis using that s1 by simp
qed

lemma skip_chunk:
  assumes "ok s" and "content s = pre @ chunk_bytes (t, d) @ rest" and "pos s = length pre + 8"
  shows "ok (SetMarker ops (int (length d)) kStreamFromMarker s)"
    and "content (SetMarker ops (int (length d)) kStreamFromMarker s) = (pre @ chunk_bytes (t, d)) @ rest"
    and "pos (SetMarker ops (int (length d)) kStreamFromMarker s) = length (pre @ chunk_bytes (t, d))"
  using skip_law [OF assms(1), of "length d"] assms(2,3) by (simp_all add: length_chunk_bytes)

lemma FindChunk_loop_ok:
  assumes "ok s" and "content s = pre @ file_bytes cs" and "pos s = length pre" and "lengths_ok cs"
    and "L = int (length (content s))"
  shows "\<exists>s'. ok s' \<and> content s' = content s \<and>
    FindChunk_loop ops t L (int (length pre)) s =
      Some (Inr (case map_of cs t of None \<Rightarrow> kChunkNotFound | Some d \<Rightarrow> int (length d), s')) \<and>
    (\<forall>d. map_of cs t = Some d \<longrightarrow> (\<exists>rest. drop (pos s') (content s') = d @ rest))"
  using assms
proof (induction cs arbitrary: pre s)
  case Nil
  then show ?case by (subst FindChunk_loop.simps) auto
next
  case (Cons c cs)
  obtain u d where c: "c = (u, d)" by (cases c)
  have d: "sint (of_nat (length d) :: uint32) = int (length d)"
    using Cons.prems(4) c by (simp add: lengths_ok_def sint_length)
  have cont: "content s = pre @ chunk_bytes (u, d) @ file_bytes cs" using Cons.prems(2) c by simp
  obtain s1 s2 where s: "read_long ops s = Inr (u, s1)" "read_long ops s1 = Inr (of_nat (length d), s2)"
    "ok s2" "content s2 = content s" "pos s2 = length pre + 8"
    by (rule chunk_start [OF Cons.prems(1) cont Cons.prems(3)])
  have off: "int (length pre) < L" using cont Cons.prems(5) by (simp add: length_chunk_bytes)
  show ?case
  proof (cases "u = t")
    case True
    have "drop (pos s2) (content s2) = d @ file_bytes cs"
      using s(4,5) cont by (simp add: chunk_bytes_def)
    then show ?thesis using s off d c True by (subst FindChunk_loop.simps) auto
  next
    case False
    have cont2: "content s2 = pre @ chunk_bytes (u, d) @ file_bytes cs" using s(4) cont by simp
    note k = skip_chunk [OF s(3) cont2 s(5)]
    have "lengths_ok cs" using Cons.prems(4) by (simp add: lengths_ok_def)
    then obtain s' where s': "ok s'" "content s' = content (SetMarker ops (int (length d)) kStreamFromMarker s2)"
      "FindChunk_loop ops t L (int (length (pre @ chunk_bytes (u, d)))) (SetMarker ops (int (length d)) kStreamFromMarker s2) =
        Some (Inr (case map_of cs t of None \<Rightarrow> kChunkNotFound | Some d \<Rightarrow> int (length d), s'))"
      "\<forall>d. map_of cs t = Some d \<longrightarrow> (\<exists>rest. drop (pos s') (content s') = d @ rest)"
      using Cons.IH [OF k] Cons.prems(5) s(4) cont k(2) by auto
    have "FindChunk_loop ops t L (int (length pre)) s =
        FindChunk_loop ops t L (int (length (pre @ chunk_bytes (u, d)))) (SetMarker ops (int (length d)) kStreamFromMarker s2)"
      using s off d False by (subst FindChunk_loop.simps) (simp add: length_chunk_bytes add.assoc)
    then have "FindChunk_loop ops t L (int (length pre)) s =
        Some (Inr (case map_of (c # cs) t of None \<Rightarrow> kChunkNotFound | Some d \<Rightarrow> int (length d), s'))"
      using s'(3) c False by simp
    moreover have "content s' = content s" using s'(2) k(2) cont by simp
    moreover have "map_of (c # cs) t = map_of cs t" using c False by simp
    ultimately show ?thesis using s'(1,4) by auto
  qed
qed

lemma FindChunk_ok:
  assumes "ok s" and "content s = file_bytes cs" and "lengths_ok cs"
  shows "\<exists>s'. ok s' \<and> content s' = content s \<and>
    FindChunk ops t s = Some (Inr (case map_of cs t of None \<Rightarrow> kChunkNotFound | Some d \<Rightarrow> int (length d), s')) \<and>
    (\<forall>d. map_of cs t = Some d \<longrightarrow> (\<exists>rest. drop (pos s') (content s') = d @ rest))"
proof -
  let ?s = "SetMarker ops (int 0) kStreamFromStart s"
  have s: "ok ?s" "pos ?s = 0" "content ?s = content s" using start_law [OF assms(1), of 0] by auto
  have l: "GetLength ops s = int (length (content ?s))" using length_law [OF assms(1)] s(3) by simp
  show ?thesis
    using FindChunk_loop_ok [OF s(1), of "[]" cs, OF _ _ assms(3) l] s assms(2) by (simp add: FindChunk_def)
qed

lemma read_into_ok:
  assumes "ok s" and "drop (pos s) (content s) = d @ rest"
    and "fAllocatedSize c = int (length (fPtr c))"
  shows "\<exists>c' s'. read_into ops (int (length d)) c s = Inr (c', s') \<and> fUsedSize c' = int (length d) \<and>
    take (length d) (fPtr c') = d \<and> ok s' \<and> content s' = content s"
proof -
  have "pos s + length d \<le> length (content s)"
  proof -
    have "length (content s) - pos s = length d + length rest" using assms(2) by (metis length_append length_drop)
    then show ?thesis using pos_law [OF assms(1)] by simp
  qed
  then obtain s' where s': "GetBytes ops (int (length d)) s = Some (0, d, s')" "ok s'" "content s' = content s"
    using get_law [OF assms(1), of "length d"] assms(2) by auto
  have len: "length d \<le> length (fPtr (Chunk_SetLength (int (length d)) c))" "fUsedSize (Chunk_SetLength (int (length d)) c) = int (length d)"
    using assms(3) by (auto simp: Chunk_SetLength_def Let_def ReallocMemory_def)
  then show ?thesis using s' by (auto simp: read_into_def ReadBytes_def Let_def copy_in_def)
qed

end

context rw_stream
begin

lemma put_end:
  assumes "ok s" and "pos s = length (content s)"
  shows "\<exists>s'. put ops bs s = Inr s' \<and> ok s' \<and> content s' = content s @ bs \<and> pos s' = length (content s')"
  using put_law [OF assms(1), of bs] assms(2) by (auto simp: put_def)

lemma WriteChunk_ok:
  assumes "ok s" and "pos s = length (content s)"
  shows "\<exists>s'. WriteChunk ops tag data s = Inr s' \<and> ok s' \<and> content s' = content s @ chunk_bytes (tag, data) \<and>
    pos s' = length (content s')"
proof -
  obtain s1 where s1: "put ops (host_long (Canonical tag)) s = Inr s1" "ok s1"
    "content s1 = content s @ host_long (Canonical tag)" "pos s1 = length (content s1)"
    using put_end [OF assms] by blast
  obtain s2 where s2: "put ops (host_long (Canonical (of_nat (length data)))) s1 = Inr s2" "ok s2"
    "content s2 = content s1 @ host_long (Canonical (of_nat (length data)))" "pos s2 = length (content s2)"
    using put_end [OF s1(2,4)] by blast
  obtain s3 where s3: "put ops data s2 = Inr s3" "ok s3" "content s3 = content s2 @ data" "pos s3 = length (content s3)"
    using put_end [OF s2(2,4)] by blast
  then show ?thesis using s1 s2 by (simp add: WriteChunk_def chunk_bytes_def)
qed

lemma WriteAll_ok:
  assumes "ok s" and "pos s = length (content s)"
  shows "\<exists>s'. WriteAll ops cs s = Inr s' \<and> ok s' \<and> content s' = content s @ file_bytes cs \<and> pos s' = length (content s')"
  using assms
proof (induction cs arbitrary: s)
  case (Cons c cs)
  obtain t d where c: "c = (t, d)" by (cases c)
  obtain s1 where s1: "WriteChunk ops t d s = Inr s1" "ok s1" "content s1 = content s @ chunk_bytes (t, d)"
    "pos s1 = length (content s1)" using WriteChunk_ok [OF Cons.prems] by blast
  then show ?case using Cons.IH [OF s1(2,4)] c by auto
qed simp

end

lemma empty_chunk_stream:
  "chunk_ok (EmStreamChunk_new Chunk_new)" "chunk_content (EmStreamChunk_new Chunk_new) = []" "marker (EmStreamChunk_new Chunk_new) = 0"
  by (simp_all add: EmStreamChunk_new_def Chunk_new_def EmStream_new_def EmStream_SetLength_def EmStream.defs
      chunk_ok_def stream_ok_def chunk_content_def marker_def)

section \<open>Properties\<close>

text \<open>
  C28: what is written to a chunk file is found in it. After any sequence of chunks has been
  written to an empty stream, reading a tag yields the bytes of the first chunk with that tag,
  and reading a tag that no chunk has reports that there is none; reading always returns.
\<close>

theorem chunk_file_round_trip:
  assumes "lengths_ok cs"
  shows "\<exists>s. WriteAll chunk_stream cs (EmStreamChunk_new Chunk_new) = Inr s \<and> chunk_content s = file_bytes cs \<and>
    (\<forall>tag. \<exists>c s'. ReadChunk chunk_stream tag Chunk_new s = Some (Inr (map_of cs tag \<noteq> None, c, s')) \<and>
      (case map_of cs tag of None \<Rightarrow> c = Chunk_new
       | Some d \<Rightarrow> fUsedSize c = int (length d) \<and> take (length d) (fPtr c) = d))"
proof -
  obtain s where s: "WriteAll chunk_stream cs (EmStreamChunk_new Chunk_new) = Inr s" "chunk_ok s" "chunk_content s = file_bytes cs"
    using chunk.WriteAll_ok [OF empty_chunk_stream(1), of cs] empty_chunk_stream(2,3) by auto
  have "\<exists>c s'. ReadChunk chunk_stream tag Chunk_new s = Some (Inr (map_of cs tag \<noteq> None, c, s')) \<and>
      (case map_of cs tag of None \<Rightarrow> c = Chunk_new
       | Some d \<Rightarrow> fUsedSize c = int (length d) \<and> take (length d) (fPtr c) = d)" for tag
  proof -
    obtain s1 where s1: "chunk_ok s1" "FindChunk chunk_stream tag s =
        Some (Inr (case map_of cs tag of None \<Rightarrow> kChunkNotFound | Some d \<Rightarrow> int (length d), s1))"
      "\<forall>d. map_of cs tag = Some d \<longrightarrow> (\<exists>rest. drop (marker s1) (chunk_content s1) = d @ rest)"
      using chunk.FindChunk_ok [OF s(2,3) assms] by blast
    show ?thesis
    proof (cases "map_of cs tag")
      case None
      then show ?thesis using s1(2) by (simp add: ReadChunk_def)
    next
      case (Some d)
      then obtain rest where "drop (marker s1) (chunk_content s1) = d @ rest" using s1(3) by blast
      then obtain c s2 where "read_into chunk_stream (int (length d)) Chunk_new s1 = Inr (c, s2)"
        "fUsedSize c = int (length d)" "take (length d) (fPtr c) = d"
        using chunk.read_into_ok [OF s1(1), of d rest Chunk_new] by (auto simp: Chunk_new_def)
      then show ?thesis using s1(2) Some by (simp add: ReadChunk_def kChunkNotFound_def)
    qed
  qed
  then show ?thesis using s by blast
qed

definition two_chunks :: "(uint32 \<times> uint8 list) list" where
  "two_chunks = [(1, [7, 8]), (2, [9])]"

lemma chunk_file_round_trip_witness:
  "\<exists>s. WriteAll chunk_stream two_chunks (EmStreamChunk_new Chunk_new) = Inr s \<and> chunk_content s = file_bytes two_chunks \<and>
    (\<forall>tag. \<exists>c s'. ReadChunk chunk_stream tag Chunk_new s = Some (Inr (map_of two_chunks tag \<noteq> None, c, s')) \<and>
      (case map_of two_chunks tag of None \<Rightarrow> c = Chunk_new
       | Some d \<Rightarrow> fUsedSize c = int (length d) \<and> take (length d) (fPtr c) = d))"
  by (rule chunk_file_round_trip) (simp add: lengths_ok_def two_chunks_def)

text \<open>A file of a single chunk whose length says -8.\<close>

definition looping_file :: EmStreamChunk where
  "looping_file = EmStreamChunk_new \<lparr>fPtr = [0, 0, 0, 1, 0xFF, 0xFF, 0xFF, 0xF8], fUsedSize = 8, fAllocatedSize = 8\<rparr>"

lemma looping_turn:
  "mMarker looping_file = 0" "mLength looping_file = 8"
  "read_long chunk_stream looping_file = Inr (1, looping_file\<lparr>mMarker := 4\<rparr>)"
  "read_long chunk_stream (looping_file\<lparr>mMarker := 4\<rparr>) = Inr (- 8, looping_file\<lparr>mMarker := 8\<rparr>)"
  "SetMarker chunk_stream (- 8) kStreamFromMarker (looping_file\<lparr>mMarker := 8\<rparr>) = looping_file"
  by (simp_all add: looping_file_def EmStreamChunk_new_def EmStream_new_def EmStream_SetLength_def EmStream.defs read_long_def
      chunk_stream_def EmStreamChunk_GetBytes_def copy_out_def EmStream_SetMarker_def be32_def Canonical_def BYTE_SWAP_32_def)

text \<open>
  C29: \<open>FindChunk\<close> trusts the lengths in the file. A chunk with the length -8 leads back to its own
  start, and the search for any other tag never returns.
\<close>

theorem FindChunk_can_loop:
  assumes "tag \<noteq> 1"
  shows "FindChunk chunk_stream tag looping_file = None"
proof -
  have "FindChunk_loop chunk_stream tag 8 0 looping_file = None"
  proof (rule ccontr)
    assume "FindChunk_loop chunk_stream tag 8 0 looping_file \<noteq> None"
    then obtain r where "FindChunk_loop chunk_stream tag 8 0 looping_file = Some r" by blast
    then have "\<not> (chunk_stream = chunk_stream \<and> tag = tag \<and> (8 :: int) = 8 \<and> (0 :: int) = 0 \<and> looping_file = looping_file)"
    proof (rule FindChunk_loop.raw_induct [where
          P = "\<lambda>ops t L off s r. \<not> (ops = chunk_stream \<and> t = tag \<and> L = 8 \<and> off = 0 \<and> s = looping_file)", rotated])
      fix f ops t L off s r
      assume ih: "\<And>ops t L off s r. f ops t L off s = Some r \<Longrightarrow>
          \<not> (ops = chunk_stream \<and> t = tag \<and> L = 8 \<and> off = 0 \<and> s = looping_file)"
        and body: "(if off < L
          then case read_long ops s of Inl e \<Rightarrow> Some (Inl e)
            | Inr (chunkTag, s) \<Rightarrow>
                (case read_long ops s of Inl e \<Rightarrow> Some (Inl e)
                 | Inr (chunkLen, s) \<Rightarrow>
                     if chunkTag = t then Some (Inr (sint chunkLen, s))
                     else f ops t L (off + (4 + 4 + sint chunkLen)) (SetMarker ops (sint chunkLen) kStreamFromMarker s))
          else Some (Inr (kChunkNotFound, s))) = Some r"
      show "\<not> (ops = chunk_stream \<and> t = tag \<and> L = 8 \<and> off = 0 \<and> s = looping_file)"
      proof
        assume "ops = chunk_stream \<and> t = tag \<and> L = 8 \<and> off = 0 \<and> s = looping_file"
        then have "f chunk_stream tag 8 0 looping_file = Some r" using body assms by (simp add: looping_turn)
        then show False using ih by blast
      qed
    qed
    then show False by simp
  qed
  moreover have "SetMarker chunk_stream 0 kStreamFromStart looping_file = looping_file"
    by (simp add: chunk_stream_def EmStream_SetMarker_def looping_turn(1,2))
  moreover have "GetLength chunk_stream looping_file = 8" by (simp add: chunk_stream_def looping_turn)
  ultimately show ?thesis by (simp add: FindChunk_def)
qed

lemma FindChunk_can_loop_witness: "FindChunk chunk_stream 2 looping_file = None"
  by (rule FindChunk_can_loop) simp

end
