(* ===== verification/PackedChunks.thy ===== *)
theory PackedChunks
  imports ChunkFile
begin

text \<open>
  Packed chunks of session files: \<open>SessionFile::WriteChunk\<close> and \<open>ReadChunk\<close> with their three kinds
  of compression, over chunk files and the run-length packing.

  The compressor of gzip, a copy of which is in \<open>SrcShared/Gzip\<close>, is not modelled. It is the parameter
  \<open>deflate\<close>, \<open>inflate\<close>: all bytes it puts out for an input. \<open>GzipEncode\<close> and \<open>GzipDecode\<close> of
  \<open>Miscellaneous.cpp\<close> hand it procedures that write no more than \<open>dstBytes\<close> of them. The property
  of this theory is about chunks that are not packed or packed by run lengths; \<open>gzip_unpack\<close> says
  what would be needed of gzip.
\<close>

section \<open>Packing\<close>

datatype CompressionType = kNoCompression | kRLECompression | kGzipCompression

definition GzipEncode :: "(uint8 list \<Rightarrow> uint8 list) \<Rightarrow> uint8 list \<Rightarrow> nat \<Rightarrow> uint8 list" where
  "GzipEncode deflate src dstBytes = take dstBytes (deflate src @ [0])"

definition GzipDecode :: "(uint8 list \<Rightarrow> uint8 list) \<Rightarrow> uint8 list \<Rightarrow> nat \<Rightarrow> uint8 list" where
  "GzipDecode inflate src dstBytes = take dstBytes (inflate src)"

definition GzipWorstSize :: "int \<Rightarrow> int" where
  "GzipWorstSize srcBytes = srcBytes * 2"

text \<open>
  The buffer for the packed data has room for \<open>worstPackedSize\<close> bytes, with the four of the size;
  writing more is an error of the host.
\<close>

definition pack :: "(uint8 list \<Rightarrow> uint8 list) \<Rightarrow> CompressionType \<Rightarrow> uint8 list \<Rightarrow> io_error + uint8 list" where
  "pack deflate compType img =
     (let sz = int (length img);
          worstPackedSize = 4 + (if compType = kGzipCompression then GzipWorstSize sz else RunLengthWorstSize sz);
          dest = (if compType = kGzipCompression then Some (GzipEncode deflate img (nat worstPackedSize))
                  else map_option snd (RunLengthEncode img (length img)))
      in case dest of
           None \<Rightarrow> Inl HostError
         | Some d \<Rightarrow>
             let packedImage = host_long (Canonical (of_nat (length img))) @ d
             in if int (length packedImage) \<le> worstPackedSize then Inr packedImage else Inl HostError)"

definition SessionFile_WriteChunk :: "(uint8 list \<Rightarrow> uint8 list) \<Rightarrow> 's stream_ops \<Rightarrow> uint32 \<Rightarrow> uint8 list \<Rightarrow>
    CompressionType \<Rightarrow> 's \<Rightarrow> io_error + 's" where
  "SessionFile_WriteChunk deflate ops tag img compType s =
     (if compType = kNoCompression then WriteChunk ops tag img s
      else case pack deflate compType img of
             Inl e \<Rightarrow> Inl e
           | Inr packedImage \<Rightarrow> WriteChunk ops tag packedImage s)"

text \<open>
  Everything that is stored at \<open>image\<close>; it is not compared to the room there is. \<open>packedImage\<close> is
  as long as the chunk.
\<close>

definition unpack :: "(uint8 list \<Rightarrow> uint8 list) \<Rightarrow> CompressionType \<Rightarrow> uint8 list \<Rightarrow> io_error + uint8 list" where
  "unpack inflate compType packedImage =
     (case long_at packedImage of
        None \<Rightarrow> Inl HostError
      | Some l \<Rightarrow>
          let unpackedSize = nat (sint (Canonical l)); src = drop 4 packedImage
          in if compType = kGzipCompression then Inr (GzipDecode inflate src unpackedSize)
             else (case RunLengthDecode src [] unpackedSize of None \<Rightarrow> Inl HostError | Some (_, bs) \<Rightarrow> Inr bs))"

definition SessionFile_ReadChunk :: "(uint8 list \<Rightarrow> uint8 list) \<Rightarrow> 's stream_ops \<Rightarrow> uint32 \<Rightarrow>
    CompressionType \<Rightarrow> 's \<Rightarrow> (io_error + uint8 list option \<times> 's) option" where
  "SessionFile_ReadChunk inflate ops tag compType s =
     map_option (\<lambda>r. case r of
         Inl e \<Rightarrow> Inl e
       | Inr (chunkSize, s) \<Rightarrow>
           if chunkSize = kChunkNotFound then Inr (None, s)
           else if chunkSize = 0 then Inr (Some [], s)
           else (case ReadBytes ops chunkSize s of
                   Inl e \<Rightarrow> Inl e
                 | Inr (bs, s) \<Rightarrow>
                     if compType = kNoCompression then Inr (Some bs, s)
                     else if int (length bs) < chunkSize then Inl Uninitialised
                     else (case unpack inflate compType bs of Inl e \<Rightarrow> Inl e | Inr img \<Rightarrow> Inr (Some img, s))))
       (FindChunk ops tag s)"

section \<open>Lemmas\<close>

context read_stream
begin

lemma ReadBytes_ok:
  assumes "ok s" and "drop (pos s) (content s) = d @ rest"
  shows "\<exists>s'. ReadBytes ops (int (length d)) s = Inr (d, s') \<and> ok s' \<and> content s' = content s"
proof -
  have "length (content s) - pos s = length d + length rest" using assms(2) by (metis length_append length_drop)
  then have "pos s + length d \<le> length (content s)" using pos_law [OF assms(1)] by simp
  then show ?thesis using get_law [OF assms(1), of "length d"] assms(2) by (auto simp: ReadBytes_def)
qed

end

lemma sint_Canonical: "n < 2 ^ 31 \<Longrightarrow> nat (sint (Canonical (Canonical (of_nat n)))) = n"
  by (simp add: sint_length)

definition gzip_ok :: "(uint8 list \<Rightarrow> uint8 list) \<Rightarrow> (uint8 list \<Rightarrow> uint8 list) \<Rightarrow> uint8 list \<Rightarrow> bool" where
  "gzip_ok deflate inflate img \<longleftrightarrow>
     inflate (deflate img @ [0]) = img \<and> length (deflate img) + 1 \<le> 2 * length img"

lemma gzip_unpack:
  assumes "length img < 2 ^ 31" and "gzip_ok deflate inflate img"
  shows "\<exists>p. pack deflate kGzipCompression img = Inr p \<and> unpack inflate kGzipCompression p = Inr img"
proof -
  have g: "inflate (deflate img @ [0]) = img" "length (deflate img) + 1 \<le> 2 * length img"
    using assms(2) by (auto simp: gzip_ok_def)
  then have e: "GzipEncode deflate img (nat (4 + GzipWorstSize (int (length img)))) = deflate img @ [0]"
    by (simp add: GzipEncode_def GzipWorstSize_def nat_add_distrib nat_mult_distrib)
  show ?thesis
    using g assms(1) by (simp add: pack_def Let_def e [unfolded GzipWorstSize_def] GzipWorstSize_def unpack_def GzipDecode_def sint_length)
qed

lemma pack_unpack:
  assumes "length img < 2 ^ 31" and "compType \<noteq> kGzipCompression" and "compType \<noteq> kNoCompression"
  shows "\<exists>p. pack deflate compType img = Inr p \<and> unpack inflate compType p = Inr img \<and> 4 \<le> length p \<and>
    length p \<le> 4 + 2 * length img"
proof -
  obtain D where D: "RunLengthEncode img (length img) = Some ([], D)" "packed D img" "128 * length D \<le> 129 * length img + 127"
    using RunLengthEncode_ok [of img "[]"] by auto
  have "RunLengthDecode D [] (length img) = Some ([], img)" using decode_packed [OF D(2), of "[]"] by simp
  moreover have "length D \<le> 2 * length img"
  proof (cases img)
    case Nil
    then have "128 * length D \<le> 127" using D(3) by simp
    then have "length D = 0" by linarith
    then show ?thesis by simp
  next
    case Cons
    then show ?thesis using D(3) by simp
  qed
  ultimately show ?thesis
    using assms(2) D(1) worst_size [OF D(3)] assms(1) by (simp add: pack_def Let_def unpack_def sint_length)
qed

section \<open>Properties\<close>

text \<open>
  C30: packed images survive the session file. An image that is written as a chunk of its own,
  uncompressed or packed by run lengths, behind any other chunks, is what reading the first chunk
  of its tag stores; packing stays in its buffer, and the reader returns. (The third kind of
  compression, gzip, is not covered.)
\<close>

theorem packed_chunk_round_trip:
  assumes "length img < 2 ^ 29" and "compType \<noteq> kGzipCompression"
    and "lengths_ok cs" and "map_of cs tag = None"
  shows "\<exists>s s1 s2. WriteAll chunk_stream cs (EmStreamChunk_new Chunk_new) = Inr s \<and>
    SessionFile_WriteChunk deflate chunk_stream tag img compType s = Inr s1 \<and>
    SessionFile_ReadChunk inflate chunk_stream tag compType s1 = Some (Inr (Some img, s2))"
proof -
  obtain s where s: "WriteAll chunk_stream cs (EmStreamChunk_new Chunk_new) = Inr s" "chunk_ok s" "chunk_content s = file_bytes cs"
    "marker s = length (chunk_content s)"
    using chunk.WriteAll_ok [OF empty_chunk_stream(1), of cs] empty_chunk_stream(2,3) by auto
  obtain d where d: "SessionFile_WriteChunk deflate chunk_stream tag img compType s = WriteChunk chunk_stream tag d s"
    "length d < 2 ^ 31" "compType = kNoCompression \<Longrightarrow> d = img"
    "compType \<noteq> kNoCompression \<Longrightarrow> unpack inflate compType d = Inr img \<and> d \<noteq> []"
  proof (cases "compType = kNoCompression")
    case True
    then show thesis using that [of img] assms(1) by (simp add: SessionFile_WriteChunk_def)
  next
    case False
    have "length img < 2 ^ 31" using assms(1) by simp
    then obtain p where "pack deflate compType img = Inr p" "unpack inflate compType p = Inr img" "4 \<le> length p"
      "length p \<le> 4 + 2 * length img" using pack_unpack [OF _ assms(2) False] by blast
    moreover from this have "p \<noteq> []" by auto
    ultimately show thesis using that [of p] False assms(1) by (simp add: SessionFile_WriteChunk_def)
  qed
  obtain s1 where s1: "WriteChunk chunk_stream tag d s = Inr s1" "chunk_ok s1" "chunk_content s1 = file_bytes (cs @ [(tag, d)])"
    using chunk.WriteChunk_ok [OF s(2,4), of tag d] s(3) by auto
  have "lengths_ok (cs @ [(tag, d)])" using assms(3) d(2) by (auto simp: lengths_ok_def)
  moreover have m: "map_of (cs @ [(tag, d)]) tag = Some d" using assms(4) by (simp add: map_add_def)
  ultimately obtain s2 rest where s2: "chunk_ok s2" "FindChunk chunk_stream tag s1 = Some (Inr (int (length d), s2))"
    "drop (marker s2) (chunk_content s2) = d @ rest"
    using chunk.FindChunk_ok [OF s1(2,3)] by fastforce
  obtain s3 where "ReadBytes chunk_stream (int (length d)) s2 = Inr (d, s3)"
    using chunk.ReadBytes_ok [OF s2(1,3)] by blast
  then have "\<exists>s'. SessionFile_ReadChunk inflate chunk_stream tag compType s1 = Some (Inr (Some img, s'))"
    using s2(2) d(3,4) by (cases "compType = kNoCompression") (auto simp: SessionFile_ReadChunk_def kChunkNotFound_def)
  then show ?thesis using s(1) d(1) s1(1) by auto
qed

lemma packed_chunk_round_trip_witness:
  "\<exists>s s1 s2. WriteAll chunk_stream two_chunks (EmStreamChunk_new Chunk_new) = Inr s \<and>
    SessionFile_WriteChunk id chunk_stream 3 [5, 5, 5, 5, 6] kRLECompression s = Inr s1 \<and>
    SessionFile_ReadChunk id chunk_stream 3 kRLECompression s1 = Some (Inr (Some [5, 5, 5, 5, 6], s2))"
  by (rule packed_chunk_round_trip) (simp_all add: lengths_ok_def two_chunks_def)

end
