(* ===== verification/Queues.thy ===== *)
theory Queues
  imports Main
begin

text \<open>
  The queues of \<open>EmThreadSafeQueue.cpp\<close>. A queue has a bound, 0 for none; a failed assertion (the
  queue is full, or empty) is \<open>None\<close>. The lock of a queue makes each of its operations one step.
  The condition that \<open>WaitForDataAvailable\<close> waits for is left out.
\<close>

section \<open>EmThreadSafeQueue\<close>

record 'a queue =
  fContainer :: "'a list"
  fMaxSize :: int

definition queue_new :: "int \<Rightarrow> 'a queue" where
  "queue_new maxSize = \<lparr>fContainer = [], fMaxSize = maxSize\<rparr>"

definition Put :: "'a \<Rightarrow> 'a queue \<Rightarrow> 'a queue option" where
  "Put v q = (if fMaxSize q = 0 \<or> int (length (fContainer q)) < fMaxSize q
     then Some (q\<lparr>fContainer := fContainer q @ [v]\<rparr>) else None)"

definition Get :: "'a queue \<Rightarrow> ('a \<times> 'a queue) option" where
  "Get q = (case fContainer q of [] \<Rightarrow> None | x # xs \<Rightarrow> Some (x, q\<lparr>fContainer := xs\<rparr>))"

definition Peek :: "'a queue \<Rightarrow> 'a option" where
  "Peek q = (case fContainer q of [] \<Rightarrow> None | x # xs \<Rightarrow> Some x)"

definition GetFree :: "'a queue \<Rightarrow> int" where
  "GetFree q = fMaxSize q - int (length (fContainer q))"

definition GetUsed :: "'a queue \<Rightarrow> int" where
  "GetUsed q = int (length (fContainer q))"

definition Clear :: "'a queue \<Rightarrow> 'a queue" where
  "Clear q = q\<lparr>fContainer := []\<rparr>"

definition GetMaxSize :: "'a queue \<Rightarrow> int" where
  "GetMaxSize q = fMaxSize q"

end
