(* ===== verification/UART.thy ===== *)
theory UART
  imports HostMem Queues
begin

text \<open>
  The serial port of the Dragonball processors, \<open>Hardware/EmUARTDragonball.cpp\<close>, which moves bytes
  between its queues, its register bits and a transport of the host.

  The transport is a parameter, the record \<open>transport\<close> of the operations the UART calls. A failed
  assertion is \<open>None\<close>.
\<close>

section \<open>The registers\<close>

datatype UART_Type = kUART_Dragonball | kUART_DragonballEZ | kUART_DragonballVZ | kUART_DragonballSZ

text \<open>The bits of \<open>State\<close> that the UART looks at or sets.\<close>

record State =
  UART_TYPE :: UART_Type
  UART_ENABLE :: bool
  RX_ENABLE :: bool
  TX_ENABLE :: bool
  PARITY_EN :: bool
  ODD_EVEN :: bool
  STOP_BITS :: bool
  CHAR8_7 :: bool
  DIVIDE :: uint32
  PRESCALER :: uint32
  RX_FIFO_FULL :: bool
  RX_FIFO_HALF :: bool
  DATA_READY :: bool
  RX_DATA :: uint32
  TX_FIFO_EMPTY :: bool
  TX_FIFO_HALF :: bool
  TX_AVAIL :: bool
  SEND_BREAK :: bool
  IGNORE_CTS :: bool
  BUSY :: bool
  CTS_STATUS :: bool
  TX_DATA :: uint32
  LOOP :: bool
  RTS_CONT :: bool
  RTS :: bool
  IRDA_ENABLE :: bool
  TXFIFO_LEVEL_MARKER :: nat
  RXFIFO_LEVEL_MARKER :: nat

datatype Parity = kNoParity | kOddParity | kEvenParity
datatype RTSControl = kRTSOff | kRTSOn | kRTSAuto

record ConfigSerial =
  fBaud :: uint32
  fParity :: Parity
  fStopBits :: nat
  fDataBits :: nat
  fHwrHandshake :: bool

text \<open>
  The operations of a transport; those from \<open>SetRTS\<close> on are those of a serial one.
  \<open>Read\<close> and \<open>Write\<close> have an error code, 0 for none; \<open>Read\<close> may hand over fewer bytes.
\<close>

record 't transport =
  serial :: bool
  CanRead :: "'t \<Rightarrow> bool"
  CanWrite :: "'t \<Rightarrow> bool"
  BytesInBuffer :: "int \<Rightarrow> 't \<Rightarrow> int"
  Read :: "int \<Rightarrow> 't \<Rightarrow> int \<times> uint8 list \<times> 't"
  Write :: "uint8 list \<Rightarrow> 't \<Rightarrow> int \<times> 't"
  SetRTS :: "RTSControl \<Rightarrow> 't \<Rightarrow> 't"
  SetBreak :: "bool \<Rightarrow> 't \<Rightarrow> 't"
  SetConfig :: "ConfigSerial \<Rightarrow> 't \<Rightarrow> 't"

text \<open>The UART, and the transport it is connected to, if there is one.\<close>

record 't uart =
  fUARTNum :: nat
  fState :: State
  fRxFIFO :: "uint8 queue"
  fTxFIFO :: "uint8 queue"
  port :: "('t transport \<times> 't) option"

definition PrvFIFOSize :: "UART_Type \<Rightarrow> nat \<Rightarrow> bool \<Rightarrow> int option" where
  "PrvFIFOSize type num forRX =
     (case type of
        kUART_Dragonball \<Rightarrow> Some 8
      | kUART_DragonballEZ \<Rightarrow> Some (if forRX then 12 else 8)
      | kUART_DragonballVZ \<Rightarrow> Some (if num = 0 then (if forRX then 12 else 8) else 64)
      | kUART_DragonballSZ \<Rightarrow> None)"

definition PrvLevelMarker :: "'t uart \<Rightarrow> bool \<Rightarrow> int option" where
  "PrvLevelMarker u forRX =
     (let level = (if forRX then GetMaxSize (fRxFIFO u) else GetMaxSize (fTxFIFO u)) div 2
      in case UART_TYPE (fState u) of
           kUART_Dragonball \<Rightarrow> Some level
         | kUART_DragonballEZ \<Rightarrow> Some level
         | kUART_DragonballVZ \<Rightarrow>
             if fUARTNum u = 1
             then (let marker = (if forRX then TXFIFO_LEVEL_MARKER (fState u) else RXFIFO_LEVEL_MARKER (fState u))
                   in Some (if marker \<noteq> 0 then int marker * 4 else level))
             else Some level
         | kUART_DragonballSZ \<Rightarrow> None)"

text \<open>The constructor leaves the bits of \<open>State\<close> as they are in memory; they are an argument.\<close>

definition uart_new :: "State \<Rightarrow> nat \<Rightarrow> ('t transport \<times> 't) option \<Rightarrow> 't uart option" where
  "uart_new st num p =
     (case (PrvFIFOSize (UART_TYPE st) num True, PrvFIFOSize (UART_TYPE st) num False) of
        (Some r, Some t) \<Rightarrow> Some \<lparr>fUARTNum = num, fState = st, fRxFIFO = queue_new r, fTxFIFO = queue_new t, port = p\<rparr>
      | _ \<Rightarrow> None)"

section \<open>Moving bytes\<close>

fun put_all :: "'a list \<Rightarrow> 'a queue \<Rightarrow> 'a queue option" where
  "put_all [] q = Some q"
| "put_all (x # xs) q = (case Put x q of None \<Rightarrow> None | Some q \<Rightarrow> put_all xs q)"

text \<open>The buffer on the stack has \<open>kMaxFifoSize\<close> bytes.\<close>

definition kMaxFifoSize :: int where
  "kMaxFifoSize = 64"

definition TransmitTxFIFO :: "'t uart \<Rightarrow> 't uart option" where
  "TransmitTxFIFO u =
     (case port u of
        None \<Rightarrow> None
      | Some (ops, t) \<Rightarrow>
          if CanWrite ops t
          then (let spaceInTxFIFO = GetUsed (fTxFIFO u)
                in if spaceInTxFIFO > 0
                   then (if spaceInTxFIFO \<le> kMaxFifoSize
                         then (let (err, t') = Write ops (fContainer (fTxFIFO u)) t
                               in Some (u\<lparr>fTxFIFO := Clear (fTxFIFO u), port := Some (ops, t')\<rparr>))
                         else None)
                   else Some u)
          else Some u)"

definition ReceiveRxFIFO :: "'t uart \<Rightarrow> 't uart option" where
  "ReceiveRxFIFO u =
     (case port u of
        None \<Rightarrow> None
      | Some (ops, t) \<Rightarrow>
          if CanRead ops t
          then (let spaceInRxFIFO = GetFree (fRxFIFO u);
                    bytesToBuffer = BytesInBuffer ops (GetMaxSize (fRxFIFO u)) t;
                    bytesToBuffer = (if bytesToBuffer > spaceInRxFIFO then spaceInRxFIFO else bytesToBuffer)
                in if bytesToBuffer > 0 \<and> (RTS_CONT (fState u) \<or> RTS (fState u))
                   then (if bytesToBuffer \<le> kMaxFifoSize
                         then (let (err, bytes, t') = Read ops bytesToBuffer t; u = u\<lparr>port := Some (ops, t')\<rparr>
                               in if err = 0 then map_option (\<lambda>q. u\<lparr>fRxFIFO := q\<rparr>) (put_all bytes (fRxFIFO u))
                                  else Some u)
                         else None)
                   else Some u)
          else Some u)"

section \<open>UpdateState\<close>

text \<open>The received data, when the software reads the register; with 7 bits the top one is cleared.\<close>

definition refresh_data :: "State \<Rightarrow> bool \<Rightarrow> 't uart \<Rightarrow> (State \<times> 't uart) option" where
  "refresh_data st refreshRxData u =
     (if DATA_READY st \<and> UART_ENABLE st \<and> RX_ENABLE st \<and> refreshRxData
      then map_option (\<lambda>(b, q). (st\<lparr>RX_DATA := (if CHAR8_7 st then ucast b else ucast b AND 0x7F)\<rparr>, u\<lparr>fRxFIFO := q\<rparr>))
             (Get (fRxFIFO u))
      else Some (st, u))"

definition UpdateState :: "State \<Rightarrow> bool \<Rightarrow> 't uart \<Rightarrow> (State \<times> 't uart) option" where
  "UpdateState st refreshRxData u =
     (if UART_TYPE (fState u) \<noteq> UART_TYPE st then None
      else case (if port u = None then Some u else ReceiveRxFIFO u) of
        None \<Rightarrow> None
      | Some u \<Rightarrow>
          (case (PrvLevelMarker u True, PrvLevelMarker u False) of
             (Some rlevel, Some tlevel) \<Rightarrow>
               let st = st\<lparr>RX_FIFO_FULL := GetFree (fRxFIFO u) = 0,
                     RX_FIFO_HALF := GetFree (fRxFIFO u) \<le> rlevel,
                     DATA_READY := GetUsed (fRxFIFO u) > 0\<rparr>
               in (case refresh_data st refreshRxData u of
                     None \<Rightarrow> None
                   | Some (st, u) \<Rightarrow>
                       let st = st\<lparr>TX_FIFO_EMPTY := GetUsed (fTxFIFO u) = 0,
                             TX_FIFO_HALF := GetUsed (fTxFIFO u) < tlevel,
                             TX_AVAIL := GetFree (fTxFIFO u) > 0,
                             BUSY := \<not> (GetUsed (fTxFIFO u) = 0),
                             CTS_STATUS := \<not> (GetUsed (fTxFIFO u) = 0)\<rparr>
                       in Some (st, u\<lparr>fState := st\<rparr>))
           | _ \<Rightarrow> None))"

section \<open>StateChanged\<close>

definition PrvPinBaudTo :: "uint32 \<Rightarrow> uint32 \<Rightarrow> uint32 option" where
  "PrvPinBaudTo newBaud testBaud =
     (if newBaud > testBaud - testBaud div 50 \<and> newBaud < testBaud + testBaud div 50 then Some testBaud else None)"

definition standard_bauds :: "uint32 list" where
  "standard_bauds = [150, 300, 600, 1200, 1800, 2400, 3600, 4800, 7200, 9600, 14400, 19200, 28800, 38400,
     57600, 115200, 230400]"

definition PrvPinBaud :: "uint32 \<Rightarrow> uint32" where
  "PrvPinBaud newBaud =
     (case List.find (\<lambda>b. PrvPinBaudTo newBaud b \<noteq> None) standard_bauds of None \<Rightarrow> newBaud | Some b \<Rightarrow> b)"

text \<open>\<open>None\<close> divides by zero, or shifts too far.\<close>

definition baud_rate :: "uint32 \<Rightarrow> State \<Rightarrow> uint32 option" where
  "baud_rate sysClockFreq st =
     (if PRESCALER st = 65 \<or> DIVIDE st > 30 then None
      else Some (PrvPinBaud (sysClockFreq div (65 - PRESCALER st) div push_bit (unat (DIVIDE st)) 1 div 16)))"

definition new_config :: "uint32 \<Rightarrow> State \<Rightarrow> ConfigSerial" where
  "new_config baud st = \<lparr>fBaud = baud,
     fParity = (if \<not> PARITY_EN st then kNoParity else if ODD_EVEN st then kOddParity else kEvenParity),
     fStopBits = (if STOP_BITS st then 2 else 1), fDataBits = (if CHAR8_7 st then 8 else 7),
     fHwrHandshake = (\<not> IGNORE_CTS st)\<rparr>"

definition on_serial :: "('t transport \<Rightarrow> 't \<Rightarrow> 't) \<Rightarrow> 't uart \<Rightarrow> 't uart" where
  "on_serial f u =
     (case port u of
        Some (ops, t) \<Rightarrow> if serial ops then u\<lparr>port := Some (ops, f ops t)\<rparr> else u
      | None \<Rightarrow> u)"

definition send_data :: "ConfigSerial \<Rightarrow> State \<Rightarrow> 't uart \<Rightarrow> 't uart option" where
  "send_data config st u =
     (if \<not> LOOP st
      then (case port u of
              Some (ops, t) \<Rightarrow>
                if CanWrite ops t
                then (if GetFree (fTxFIFO u) > 0
                      then (case Put (ucast (TX_DATA st)) (fTxFIFO u) of
                              None \<Rightarrow> None
                            | Some q \<Rightarrow> TransmitTxFIFO (u\<lparr>fTxFIFO := q\<rparr>))
                      else Some u)
                else (if fHwrHandshake config \<and> GetFree (fTxFIFO u) > 0
                      then map_option (\<lambda>q. u\<lparr>fTxFIFO := q\<rparr>) (Put (ucast (TX_DATA st)) (fTxFIFO u))
                      else Some u)
            | None \<Rightarrow>
                (if fHwrHandshake config \<and> GetFree (fTxFIFO u) > 0
                 then map_option (\<lambda>q. u\<lparr>fTxFIFO := q\<rparr>) (Put (ucast (TX_DATA st)) (fTxFIFO u))
                 else Some u))
      else (if GetFree (fRxFIFO u) > 0
            then map_option (\<lambda>q. u\<lparr>fRxFIFO := q\<rparr>) (Put (ucast (TX_DATA st)) (fRxFIFO u))
            else Some u))"

text \<open>The settings that changed: the queues of a disabled side are flushed, and the transport is told.\<close>

definition apply_settings :: "ConfigSerial \<Rightarrow> State \<Rightarrow> State \<Rightarrow> 't uart \<Rightarrow> 't uart" where
  "apply_settings config old st u =
     (let u = (if RX_ENABLE old \<noteq> RX_ENABLE st \<and> \<not> RX_ENABLE st then u\<lparr>fRxFIFO := Clear (fRxFIFO u)\<rparr> else u);
          u = (if TX_ENABLE old \<noteq> TX_ENABLE st \<and> \<not> TX_ENABLE st then u\<lparr>fTxFIFO := Clear (fTxFIFO u)\<rparr> else u);
          u = (if RTS_CONT old \<noteq> RTS_CONT st \<or> RTS old \<noteq> RTS st
               then on_serial (\<lambda>ops. SetRTS ops (if RTS_CONT st then kRTSAuto else if RTS st then kRTSOn else kRTSOff)) u
               else u);
          u = (if UART_ENABLE st then on_serial (\<lambda>ops. SetConfig ops config) u else u)
      in if SEND_BREAK old \<noteq> SEND_BREAK st then on_serial (\<lambda>ops. SetBreak ops (SEND_BREAK st)) u else u)"

definition StateChanged :: "uint32 \<Rightarrow> State \<Rightarrow> bool \<Rightarrow> 't uart \<Rightarrow> (State \<times> 't uart) option" where
  "StateChanged sysClockFreq st sendTxData u =
     (if UART_TYPE (fState u) \<noteq> UART_TYPE st then None
      else case baud_rate sysClockFreq st of
        None \<Rightarrow> None
      | Some baud \<Rightarrow>
          let config = new_config baud st; u = apply_settings config (fState u) st u
          in (case (if sendTxData \<and> UART_ENABLE st \<and> TX_ENABLE st then send_data config st u else Some u) of
                None \<Rightarrow> None
              | Some u \<Rightarrow> UpdateState st False u))"

section \<open>Queues\<close>

definition fifo_ok :: "uint8 queue \<Rightarrow> bool" where
  "fifo_ok q \<longleftrightarrow> fMaxSize q \<in> {8, 12, 64} \<and> int (length (fContainer q)) \<le> fMaxSize q"

lemma Put_ok: "fifo_ok q \<Longrightarrow> GetFree q > 0 \<Longrightarrow>
    Put v q = Some (q\<lparr>fContainer := fContainer q @ [v]\<rparr>) \<and> fifo_ok (q\<lparr>fContainer := fContainer q @ [v]\<rparr>)"
  by (simp add: Put_def GetFree_def fifo_ok_def)

lemma put_all_ok: "fifo_ok q \<Longrightarrow> int (length xs) \<le> GetFree q \<Longrightarrow>
    put_all xs q = Some (q\<lparr>fContainer := fContainer q @ xs\<rparr>) \<and> fifo_ok (q\<lparr>fContainer := fContainer q @ xs\<rparr>)"
proof (induction xs arbitrary: q)
  case (Cons x xs)
  then have "GetFree q > 0" by simp
  note p = Put_ok [OF Cons.prems(1) this, of x]
  show ?case using Cons.IH [OF conjunct2 [OF p]] p Cons.prems(2) by (simp add: GetFree_def)
qed simp

lemma Clear_ok: "fifo_ok q \<Longrightarrow> fifo_ok (Clear q)"
  by (auto simp: fifo_ok_def Clear_def)

section \<open>The invariant\<close>

text \<open>What the UART relies on: \<open>Read\<close> hands over no more bytes than it is asked for.\<close>

definition transport_ok :: "'t transport \<Rightarrow> bool" where
  "transport_ok ops \<longleftrightarrow> (\<forall>n t. 0 \<le> n \<longrightarrow> int (length (fst (snd (Read ops n t)))) \<le> n)"

definition uart_ok :: "'t uart \<Rightarrow> bool" where
  "uart_ok u \<longleftrightarrow> UART_TYPE (fState u) \<noteq> kUART_DragonballSZ \<and> fifo_ok (fRxFIFO u) \<and> fifo_ok (fTxFIFO u) \<and>
     (case port u of None \<Rightarrow> True | Some (ops, t) \<Rightarrow> transport_ok ops)"

text \<open>The registers hold 6 bits of \<open>PRESCALER\<close> and 3 bits of \<open>DIVIDE\<close>.\<close>

definition register_ok :: "State \<Rightarrow> bool" where
  "register_ok st \<longleftrightarrow> PRESCALER st < 64 \<and> DIVIDE st < 8"

lemma uart_new_ok:
  assumes "uart_new st num p = Some u" and "case p of None \<Rightarrow> True | Some (ops, t) \<Rightarrow> transport_ok ops"
  shows "uart_ok u"
  using assms by (auto simp: uart_new_def PrvFIFOSize_def queue_new_def uart_ok_def fifo_ok_def
      split: UART_Type.splits if_splits option.splits)

lemma level_ok: "UART_TYPE (fState u) \<noteq> kUART_DragonballSZ \<Longrightarrow> \<exists>l. PrvLevelMarker u b = Some l"
  by (cases "UART_TYPE (fState u)") (auto simp: PrvLevelMarker_def Let_def)

lemma uart_ok_port: "uart_ok u \<Longrightarrow> port u = Some (ops, t) \<Longrightarrow> uart_ok (u\<lparr>port := Some (ops, t')\<rparr>)"
  by (simp add: uart_ok_def)

text \<open>What receiving does: it moves bytes that \<open>Read\<close> hands over behind those in the queue.\<close>

lemma ReceiveRxFIFO_ok:
  assumes "uart_ok u" and "port u = Some (ops, t)"
  shows "\<exists>bs t'. ReceiveRxFIFO u = Some (u\<lparr>fRxFIFO := fRxFIFO u\<lparr>fContainer := fContainer (fRxFIFO u) @ bs\<rparr>, port := Some (ops, t')\<rparr>) \<and>
    fifo_ok (fRxFIFO u\<lparr>fContainer := fContainer (fRxFIFO u) @ bs\<rparr>) \<and>
    (bs = [] \<and> t' = t \<or> (\<exists>n err bs'. 0 < n \<and> Read ops n t = (err, bs', t') \<and> bs = (if err = 0 then bs' else [])))"
proof -
  define n where "n = (if BytesInBuffer ops (GetMaxSize (fRxFIFO u)) t > GetFree (fRxFIFO u) then GetFree (fRxFIFO u)
    else BytesInBuffer ops (GetMaxSize (fRxFIFO u)) t)"
  have q: "fifo_ok (fRxFIFO u)" and tr: "transport_ok ops" using assms by (auto simp: uart_ok_def)
  have n: "n \<le> GetFree (fRxFIFO u)" "n \<le> 64" using q by (auto simp: n_def GetFree_def fifo_ok_def)
  have eq: "ReceiveRxFIFO u = (if CanRead ops t \<and> n > 0 \<and> (RTS_CONT (fState u) \<or> RTS (fState u))
      then (let (err, bytes, t') = Read ops n t; u = u\<lparr>port := Some (ops, t')\<rparr>
            in if err = 0 then map_option (\<lambda>q. u\<lparr>fRxFIFO := q\<rparr>) (put_all bytes (fRxFIFO u)) else Some u)
      else Some u)"
    using assms(2) n(2) by (auto simp: ReceiveRxFIFO_def Let_def n_def [symmetric] kMaxFifoSize_def)
  show ?thesis
  proof (cases "CanRead ops t \<and> n > 0 \<and> (RTS_CONT (fState u) \<or> RTS (fState u))")
    case False
    then have "ReceiveRxFIFO u = Some u" unfolding eq by (rule if_not_P)
    moreover have "u = u\<lparr>fRxFIFO := fRxFIFO u\<lparr>fContainer := fContainer (fRxFIFO u) @ []\<rparr>, port := Some (ops, t)\<rparr>"
      using assms(2) by simp
    ultimately show ?thesis using q by (intro exI [of _ "[]"] exI [of _ t]) simp
  next
    case True
    obtain err bs t' where r: "Read ops n t = (err, bs, t')" by (cases "Read ops n t") auto
    have "int (length (fst (snd (Read ops n t)))) \<le> n" using tr True by (simp add: transport_ok_def)
    then have "int (length bs) \<le> GetFree (fRxFIFO u)" using r n(1) by simp
    note p = put_all_ok [OF q this]
    have "ReceiveRxFIFO u = Some (u\<lparr>fRxFIFO := fRxFIFO u\<lparr>fContainer := fContainer (fRxFIFO u) @ (if err = 0 then bs else [])\<rparr>,
        port := Some (ops, t')\<rparr>)"
      unfolding eq using True r p by simp
    then show ?thesis
      using p q True r by (intro exI [of _ "if err = 0 then bs else []"] exI [of _ t']) auto
  qed
qed

lemma TransmitTxFIFO_ok:
  assumes "uart_ok u" and "port u = Some (ops, t)"
  shows "TransmitTxFIFO u = Some (if CanWrite ops t \<and> fContainer (fTxFIFO u) \<noteq> []
      then u\<lparr>fTxFIFO := Clear (fTxFIFO u), port := Some (ops, snd (Write ops (fContainer (fTxFIFO u)) t))\<rparr> else u)"
proof -
  have "GetUsed (fTxFIFO u) \<le> 64" using assms(1) by (auto simp: uart_ok_def fifo_ok_def GetUsed_def)
  then show ?thesis
    using assms(2) by (auto simp: TransmitTxFIFO_def Let_def kMaxFifoSize_def GetUsed_def split: prod.splits)
qed

lemma uart_ok_queues:
  "uart_ok u \<Longrightarrow> fifo_ok q \<Longrightarrow> uart_ok (u\<lparr>fRxFIFO := q\<rparr>)" "uart_ok u \<Longrightarrow> fifo_ok q \<Longrightarrow> uart_ok (u\<lparr>fTxFIFO := q\<rparr>)"
  by (auto simp: uart_ok_def)

text \<open>The first part of \<open>UpdateState\<close>.\<close>

lemma receive_ok:
  assumes "uart_ok u"
  shows "\<exists>u'. (if port u = None then Some u else ReceiveRxFIFO u) = Some u' \<and> uart_ok u' \<and> fState u' = fState u \<and>
    fTxFIFO u' = fTxFIFO u \<and> fUARTNum u' = fUARTNum u"
proof (cases "port u")
  case (Some p)
  then obtain ops t where "port u = Some (ops, t)" by (cases p) auto
  then obtain bs t' where "ReceiveRxFIFO u = Some (u\<lparr>fRxFIFO := fRxFIFO u\<lparr>fContainer := fContainer (fRxFIFO u) @ bs\<rparr>, port := Some (ops, t')\<rparr>)"
    "fifo_ok (fRxFIFO u\<lparr>fContainer := fContainer (fRxFIFO u) @ bs\<rparr>)"
    using ReceiveRxFIFO_ok [OF assms] by blast
  then show ?thesis using assms \<open>port u = Some (ops, t)\<close> by (simp add: uart_ok_def)
qed (use assms in auto)

lemma UpdateState_ok:
  assumes "uart_ok u" and "UART_TYPE (fState u) = UART_TYPE st"
  shows "\<exists>st' u'. UpdateState st r u = Some (st', u') \<and> uart_ok u' \<and> fState u' = st' \<and> UART_TYPE st' = UART_TYPE st \<and>
    TX_FIFO_EMPTY st' = (fContainer (fTxFIFO u') = []) \<and> BUSY st' = (fContainer (fTxFIFO u') \<noteq> []) \<and>
    TX_AVAIL st' = (int (length (fContainer (fTxFIFO u'))) < fMaxSize (fTxFIFO u'))"
proof -
  obtain v where v: "(if port u = None then Some u else ReceiveRxFIFO u) = Some v" "uart_ok v" "fState v = fState u"
    using receive_ok [OF assms(1)] by auto
  have "UART_TYPE (fState v) \<noteq> kUART_DragonballSZ" using v(2) by (simp add: uart_ok_def)
  then obtain l1 l2 where l: "PrvLevelMarker v True = Some l1" "PrvLevelMarker v False = Some l2"
    using level_ok [of v] by blast
  define s where "s = st\<lparr>RX_FIFO_FULL := GetFree (fRxFIFO v) = 0, RX_FIFO_HALF := GetFree (fRxFIFO v) \<le> l1,
    DATA_READY := GetUsed (fRxFIFO v) > 0\<rparr>"
  have "\<exists>s' w. refresh_data s r v = Some (s', w) \<and> uart_ok w \<and> UART_TYPE s' = UART_TYPE st \<and> fTxFIFO w = fTxFIFO v"
  proof (cases "fContainer (fRxFIFO v)")
    case Nil
    then show ?thesis using v(2) by (simp add: refresh_data_def s_def GetUsed_def)
  next
    case (Cons b bs)
    then have "fifo_ok (fRxFIFO v\<lparr>fContainer := bs\<rparr>)" using v(2) by (auto simp: uart_ok_def fifo_ok_def)
    then show ?thesis using v(2) Cons by (simp add: refresh_data_def s_def Get_def uart_ok_queues)
  qed
  then obtain s' w where w: "refresh_data s r v = Some (s', w)" "uart_ok w" "UART_TYPE s' = UART_TYPE st" by blast
  define s2 where "s2 = s'\<lparr>TX_FIFO_EMPTY := GetUsed (fTxFIFO w) = 0, TX_FIFO_HALF := GetUsed (fTxFIFO w) < l2,
    TX_AVAIL := GetFree (fTxFIFO w) > 0, BUSY := \<not> (GetUsed (fTxFIFO w) = 0), CTS_STATUS := \<not> (GetUsed (fTxFIFO w) = 0)\<rparr>"
  have "UpdateState st r u = Some (s2, w\<lparr>fState := s2\<rparr>)"
    unfolding UpdateState_def v(1) using assms(2) l w(1) by (simp add: Let_def s_def s2_def)
  moreover have "uart_ok (w\<lparr>fState := s2\<rparr>)" using w(2,3) assms v(2,3) by (simp add: uart_ok_def s2_def)
  moreover have "UART_TYPE s2 = UART_TYPE st" using w(3) by (simp add: s2_def)
  ultimately show ?thesis by (auto simp: s2_def GetUsed_def GetFree_def)
qed

lemma fState_on_serial [simp]: "fState (on_serial f u) = fState u"
  by (simp add: on_serial_def split: option.splits prod.splits)

lemma on_serial_ok: "uart_ok u \<Longrightarrow> uart_ok (on_serial f u)"
  by (auto simp: on_serial_def uart_ok_def split: option.splits)

lemma send_data_ok:
  assumes "uart_ok u"
  shows "\<exists>u'. send_data config st u = Some u' \<and> uart_ok u' \<and> fState u' = fState u"
proof -
  have rx: "GetFree (fRxFIFO u) > 0 \<Longrightarrow> \<exists>q. Put v (fRxFIFO u) = Some q \<and> fifo_ok q"
    and tx: "GetFree (fTxFIFO u) > 0 \<Longrightarrow> \<exists>q. Put v (fTxFIFO u) = Some q \<and> fifo_ok q" for v
    using Put_ok assms by (fastforce simp: uart_ok_def)+
  let ?v = "ucast (TX_DATA st) :: uint8"
  consider (loop) "LOOP st" | (none) "\<not> LOOP st" "port u = None" | (port) ops t where "\<not> LOOP st" "port u = Some (ops, t)"
    by (cases "LOOP st"; cases "port u") auto
  then show ?thesis
  proof cases
    case loop
    then show ?thesis using assms rx [of ?v] by (auto simp: send_data_def uart_ok_queues)
  next
    case none
    then show ?thesis using assms tx [of ?v] by (auto simp: send_data_def uart_ok_queues)
  next
    case port
    show ?thesis
    proof (cases "CanWrite ops t \<and> GetFree (fTxFIFO u) > 0")
      case True
      then obtain q where q: "Put ?v (fTxFIFO u) = Some q" "fifo_ok q" using tx by blast
      have ok: "uart_ok (u\<lparr>fTxFIFO := q\<rparr>)" using assms q(2) by (rule uart_ok_queues)
      have "port (u\<lparr>fTxFIFO := q\<rparr>) = Some (ops, t)" using port by simp
      note T = TransmitTxFIFO_ok [OF ok this]
      have "uart_ok (u\<lparr>fTxFIFO := Clear q, port := Some (ops, t')\<rparr>)" for t'
        using assms port Clear_ok [OF q(2)] by (simp add: uart_ok_def)
      then show ?thesis using True port q T ok by (auto simp: send_data_def)
    next
      case False
      then show ?thesis using assms port tx [of ?v] by (auto simp: send_data_def uart_ok_queues)
    qed
  qed
qed

lemma apply_settings_ok:
  assumes "uart_ok u"
  shows "uart_ok (apply_settings config old st u) \<and> fState (apply_settings config old st u) = fState u"
proof -
  have c: "uart_ok v \<Longrightarrow> uart_ok (v\<lparr>fRxFIFO := Clear (fRxFIFO v)\<rparr>)" "uart_ok v \<Longrightarrow> uart_ok (v\<lparr>fTxFIFO := Clear (fTxFIFO v)\<rparr>)" for v :: "'a uart"
    using Clear_ok by (auto simp: uart_ok_def)
  show ?thesis unfolding apply_settings_def Let_def
    by (simp add: c on_serial_ok assms)
qed

lemma StateChanged_ok:
  assumes "uart_ok u" and "UART_TYPE (fState u) = UART_TYPE st" and "register_ok st"
  shows "\<exists>st' u'. StateChanged clk st b u = Some (st', u') \<and> uart_ok u' \<and> UART_TYPE st' = UART_TYPE st \<and> fState u' = st'"
proof -
  have "PRESCALER st \<noteq> 65" "\<not> DIVIDE st > 30"
    using assms(3) by (auto simp: register_ok_def word_less_nat_alt)
  then obtain baud where baud: "baud_rate clk st = Some baud" by (simp add: baud_rate_def)
  let ?u = "apply_settings (new_config baud st) (fState u) st u"
  note u = apply_settings_ok [OF assms(1), of "new_config baud st" "fState u" st]
  obtain v where v: "(if b \<and> UART_ENABLE st \<and> TX_ENABLE st then send_data (new_config baud st) st ?u else Some ?u) = Some v"
    "uart_ok v" "fState v = fState u"
    using send_data_ok [of ?u "new_config baud st" st] u
    by (cases "b \<and> UART_ENABLE st \<and> TX_ENABLE st") auto
  have "StateChanged clk st b u = UpdateState st False v"
    unfolding StateChanged_def using assms(2) baud v(1) by (simp add: Let_def)
  then show ?thesis using UpdateState_ok [OF v(2), of st False] v(3) assms(2) by auto
qed

section \<open>Properties\<close>

text \<open>
  What can happen to a UART: the registers are updated, they change, or the transport, at the
  other end of which is the host, is in another state or is exchanged.
\<close>

inductive uart_step :: "'t uart \<Rightarrow> 't uart \<Rightarrow> bool" where
  update: "UpdateState st r u = Some (st', u') \<Longrightarrow> uart_step u u'"
| change: "register_ok st \<Longrightarrow> StateChanged clk st b u = Some (st', u') \<Longrightarrow> uart_step u u'"
| host: "(case p of None \<Rightarrow> True | Some (ops, t) \<Rightarrow> transport_ok ops) \<Longrightarrow> uart_step u (u\<lparr>port := p\<rparr>)"

inductive uart_reach :: "'t uart \<Rightarrow> bool" where
  start: "uart_new st num p = Some u \<Longrightarrow> (case p of None \<Rightarrow> True | Some (ops, t) \<Rightarrow> transport_ok ops) \<Longrightarrow> uart_reach u"
| step: "uart_reach u \<Longrightarrow> uart_step u u' \<Longrightarrow> uart_reach u'"

inductive_cases uart_stepE: "uart_step u u'"

lemma update_type: "UpdateState st r u = Some (st', u') \<Longrightarrow> UART_TYPE (fState u) = UART_TYPE st"
  by (auto simp: UpdateState_def split: if_splits)

lemma change_type: "StateChanged clk st b u = Some (st', u') \<Longrightarrow> UART_TYPE (fState u) = UART_TYPE st"
  by (auto simp: StateChanged_def split: if_splits)

lemma uart_step_ok: "uart_step u u' \<Longrightarrow> uart_ok u \<Longrightarrow> uart_ok u'"
proof (erule uart_stepE)
  fix st r st'
  assume "UpdateState st r u = Some (st', u')" and "uart_ok u"
  then show "uart_ok u'" using UpdateState_ok [of u st r] update_type by fastforce
next
  fix st clk b st'
  assume "register_ok st" and "StateChanged clk st b u = Some (st', u')" and "uart_ok u"
  then show "uart_ok u'" using StateChanged_ok [of u st clk b] change_type by fastforce
next
  fix p
  assume "case p of None \<Rightarrow> True | Some (ops, t) \<Rightarrow> transport_ok ops" and "u' = u\<lparr>port := p\<rparr>" and "uart_ok u"
  then show "uart_ok u'" by (simp add: uart_ok_def)
qed

lemma uart_reach_ok: "uart_reach u \<Longrightarrow> uart_ok u"
  by (induction rule: uart_reach.induct) (auto intro: uart_new_ok uart_step_ok)

text \<open>
  C31: the queues of a UART never overflow, whatever software and host do, and none of its
  assertions can fail: in every reachable state the queues hold at most 64 bytes and at most
  their size, and both operations return, as long as the type of the UART stays the same and
  the register fields have their width.
\<close>

theorem uart_never_overflows:
  assumes "uart_reach u" and "UART_TYPE st = UART_TYPE (fState u)" and "register_ok st"
  shows "int (length (fContainer (fRxFIFO u))) \<le> fMaxSize (fRxFIFO u) \<and> fMaxSize (fRxFIFO u) \<le> 64 \<and>
    int (length (fContainer (fTxFIFO u))) \<le> fMaxSize (fTxFIFO u) \<and> fMaxSize (fTxFIFO u) \<le> 64 \<and>
    UpdateState st r u \<noteq> None \<and> StateChanged clk st b u \<noteq> None"
proof -
  note ok = uart_reach_ok [OF assms(1)]
  have "fifo_ok (fRxFIFO u)" "fifo_ok (fTxFIFO u)" using ok by (simp_all add: uart_ok_def)
  then show ?thesis
    using UpdateState_ok [OF ok, of st r] StateChanged_ok [OF ok _ assms(3), of clk b] assms(2) by (auto simp: fifo_ok_def)
qed

text \<open>A host port that keeps the bytes that wait in it and those that were written to it.\<close>

definition host_port :: "(uint8 list \<times> uint8 list) transport" where
  "host_port = \<lparr>serial = True, CanRead = (\<lambda>_. True), CanWrite = (\<lambda>_. True), BytesInBuffer = (\<lambda>_ t. int (length (fst t))),
     Read = (\<lambda>n t. (0, take (nat n) (fst t), drop (nat n) (fst t), snd t)) , Write = (\<lambda>bs t. (0, fst t, snd t @ bs)),
     SetRTS = (\<lambda>_ t. t), SetBreak = (\<lambda>_ t. t), SetConfig = (\<lambda>_ t. t)\<rparr>"

lemma host_port_ok: "transport_ok host_port"
  by (auto simp: transport_ok_def host_port_def)

definition blank_state :: State where
  "blank_state = \<lparr>UART_TYPE = kUART_DragonballEZ, UART_ENABLE = True, RX_ENABLE = True, TX_ENABLE = True, PARITY_EN = False,
     ODD_EVEN = False, STOP_BITS = False, CHAR8_7 = True, DIVIDE = 0, PRESCALER = 0x26, RX_FIFO_FULL = False,
     RX_FIFO_HALF = False, DATA_READY = False, RX_DATA = 0, TX_FIFO_EMPTY = False, TX_FIFO_HALF = False, TX_AVAIL = False,
     SEND_BREAK = False, IGNORE_CTS = True, BUSY = False, CTS_STATUS = False, TX_DATA = 65, LOOP = False, RTS_CONT = True,
     RTS = False, IRDA_ENABLE = False, TXFIFO_LEVEL_MARKER = 0, RXFIFO_LEVEL_MARKER = 0\<rparr>"

text \<open>The second UART of an EZ, connected to a port in which three bytes wait.\<close>

definition some_uart :: "(uint8 list \<times> uint8 list) uart" where
  "some_uart = \<lparr>fUARTNum = 0, fState = blank_state, fRxFIFO = queue_new 12, fTxFIFO = queue_new 8,
     port = Some (host_port, [1, 2, 3], [])\<rparr>"

lemma some_uart_reach: "uart_reach some_uart"
  by (rule uart_reach.start [of blank_state 0 "Some (host_port, [1, 2, 3], [])"])
    (simp_all add: uart_new_def some_uart_def blank_state_def PrvFIFOSize_def host_port_ok)

lemma uart_never_overflows_witness:
  "int (length (fContainer (fRxFIFO some_uart))) \<le> fMaxSize (fRxFIFO some_uart) \<and> fMaxSize (fRxFIFO some_uart) \<le> 64 \<and>
    int (length (fContainer (fTxFIFO some_uart))) \<le> fMaxSize (fTxFIFO some_uart) \<and> fMaxSize (fTxFIFO some_uart) \<le> 64 \<and>
    UpdateState blank_state True some_uart \<noteq> None \<and> StateChanged 16580608 blank_state True some_uart \<noteq> None"
  by (rule uart_never_overflows [OF some_uart_reach]) (simp_all add: some_uart_def register_ok_def blank_state_def)

text \<open>
  A sequence of register reads: the software hands in its registers and either looks at the
  status or reads the data register, whose byte it gets if one is ready.
\<close>

fun read_registers :: "(State \<times> bool) list \<Rightarrow> 't uart \<Rightarrow> (uint8 list \<times> 't uart) option" where
  "read_registers [] u = Some ([], u)"
| "read_registers ((st, refresh) # rs) u =
     (case UpdateState st refresh u of
        None \<Rightarrow> None
      | Some (st', u) \<Rightarrow>
          map_option (\<lambda>(bs, u). ((if refresh \<and> DATA_READY st' then [ucast (RX_DATA st')] else []) @ bs, u))
            (read_registers rs u))"

text \<open>A transport that loses nothing: \<open>wait t\<close> are the bytes that wait to be read.\<close>

definition lossless :: "'t transport \<Rightarrow> ('t \<Rightarrow> uint8 list) \<Rightarrow> bool" where
  "lossless ops wait \<longleftrightarrow> transport_ok ops \<and>
     (\<forall>n t err bs t'. Read ops n t = (err, bs, t') \<longrightarrow> (if err = 0 then wait t = bs @ wait t' else wait t' = wait t))"

definition on_the_way :: "('t \<Rightarrow> uint8 list) \<Rightarrow> 't uart \<Rightarrow> uint8 list" where
  "on_the_way wait u = fContainer (fRxFIFO u) @ (case port u of None \<Rightarrow> [] | Some (ops, t) \<Rightarrow> wait t)"

definition port_lossless :: "('t \<Rightarrow> uint8 list) \<Rightarrow> 't uart \<Rightarrow> bool" where
  "port_lossless wait u \<longleftrightarrow> (case port u of None \<Rightarrow> True | Some (ops, t) \<Rightarrow> lossless ops wait)"

lemma fState_update_simps [simp]: "on_the_way wait (u\<lparr>fState := st\<rparr>) = on_the_way wait u"
  "port_lossless wait (u\<lparr>fState := st\<rparr>) = port_lossless wait u"
  by (simp_all add: on_the_way_def port_lossless_def)

lemma receive_on_the_way:
  assumes "uart_ok u" and "port_lossless wait u"
  shows "\<exists>u'. (if port u = None then Some u else ReceiveRxFIFO u) = Some u' \<and> uart_ok u' \<and> fState u' = fState u \<and>
    on_the_way wait u' = on_the_way wait u \<and> port_lossless wait u'"
proof (cases "port u")
  case (Some p)
  then obtain ops t where p: "port u = Some (ops, t)" by (cases p) auto
  obtain bs t' where r: "ReceiveRxFIFO u = Some (u\<lparr>fRxFIFO := fRxFIFO u\<lparr>fContainer := fContainer (fRxFIFO u) @ bs\<rparr>, port := Some (ops, t')\<rparr>)"
    "fifo_ok (fRxFIFO u\<lparr>fContainer := fContainer (fRxFIFO u) @ bs\<rparr>)"
    "bs = [] \<and> t' = t \<or> (\<exists>n err bs'. 0 < n \<and> Read ops n t = (err, bs', t') \<and> bs = (if err = 0 then bs' else []))"
    using ReceiveRxFIFO_ok [OF assms(1) p] by blast
  have "lossless ops wait" using assms(2) p by (simp add: port_lossless_def)
  then have "bs @ wait t' = wait t" using r(3) by (auto simp: lossless_def)
  then show ?thesis using r(1,2) p assms by (simp add: uart_ok_def on_the_way_def port_lossless_def)
qed (use assms in auto)

lemma UpdateState_on_the_way:
  assumes "uart_ok u" and "port_lossless wait u" and "UART_TYPE st = UART_TYPE (fState u)"
    and "UART_ENABLE st \<and> RX_ENABLE st \<and> CHAR8_7 st"
  shows "\<exists>st' u'. UpdateState st r u = Some (st', u') \<and> uart_ok u' \<and> port_lossless wait u' \<and> UART_TYPE (fState u') = UART_TYPE st \<and>
    on_the_way wait u = (if r \<and> DATA_READY st' then [ucast (RX_DATA st')] else []) @ on_the_way wait u'"
proof -
  obtain v where v: "(if port u = None then Some u else ReceiveRxFIFO u) = Some v" "uart_ok v" "fState v = fState u"
    "on_the_way wait v = on_the_way wait u" "port_lossless wait v"
    using receive_on_the_way [OF assms(1,2)] by blast
  have "UART_TYPE (fState v) \<noteq> kUART_DragonballSZ" using v(2) by (simp add: uart_ok_def)
  then obtain l1 l2 where l: "PrvLevelMarker v True = Some l1" "PrvLevelMarker v False = Some l2"
    using level_ok [of v] by blast
  define s where "s = st\<lparr>RX_FIFO_FULL := GetFree (fRxFIFO v) = 0, RX_FIFO_HALF := GetFree (fRxFIFO v) \<le> l1,
    DATA_READY := GetUsed (fRxFIFO v) > 0\<rparr>"
  obtain s' w where w: "refresh_data s r v = Some (s', w)" "UART_TYPE s' = UART_TYPE st" "port_lossless wait w"
      "on_the_way wait v = (if r \<and> DATA_READY s' then [ucast (RX_DATA s')] else []) @ on_the_way wait w"
  proof (cases "fContainer (fRxFIFO v)")
    case Nil
    then show thesis using that [of s v] v(5) by (simp add: refresh_data_def s_def GetUsed_def)
  next
    case (Cons b bs)
    then show thesis
      using that v(5) assms(4)
      by (cases r) (simp_all add: refresh_data_def s_def Get_def GetUsed_def on_the_way_def port_lossless_def)
  qed
  define s2 where "s2 = s'\<lparr>TX_FIFO_EMPTY := GetUsed (fTxFIFO w) = 0, TX_FIFO_HALF := GetUsed (fTxFIFO w) < l2,
    TX_AVAIL := GetFree (fTxFIFO w) > 0, BUSY := \<not> (GetUsed (fTxFIFO w) = 0), CTS_STATUS := \<not> (GetUsed (fTxFIFO w) = 0)\<rparr>"
  have u: "UpdateState st r u = Some (s2, w\<lparr>fState := s2\<rparr>)"
    unfolding UpdateState_def v(1) using assms(3) l w(1) by (simp add: Let_def s_def s2_def)
  moreover have "uart_ok (w\<lparr>fState := s2\<rparr>)" using UpdateState_ok [OF assms(1), of st r] assms(3) u by simp
  moreover have "on_the_way wait u = (if r \<and> DATA_READY s2 then [ucast (RX_DATA s2)] else []) @ on_the_way wait w"
    using w(4) v(4) by (simp add: s2_def)
  moreover have "UART_TYPE s2 = UART_TYPE st" using w(2) by (simp add: s2_def)
  ultimately show ?thesis using w(3) by (intro exI [of _ s2] exI [of _ "w\<lparr>fState := s2\<rparr>"]) simp
qed

text \<open>
  C32: serial input is a stream. However the software mixes looking at the status with reading
  the data register, the bytes it gets, followed by those left in the queue and in the transport,
  are the bytes that were in the queue and in the transport before: none is lost, duplicated or
  reordered. (8 data bits, receiver enabled, a transport that loses nothing itself.)
\<close>

theorem received_bytes_in_order:
  assumes "uart_reach u" and "port_lossless wait u"
    and "\<forall>(st, r)\<in>set rs. UART_TYPE st = UART_TYPE (fState u) \<and> UART_ENABLE st \<and> RX_ENABLE st \<and> CHAR8_7 st"
  shows "\<exists>out u'. read_registers rs u = Some (out, u') \<and> on_the_way wait u = out @ on_the_way wait u'"
proof -
  have "uart_ok u" using uart_reach_ok [OF assms(1)] .
  then show ?thesis using assms(2,3)
  proof (induction rs arbitrary: u)
    case (Cons p rs)
    obtain st r where p: "p = (st, r)" by (cases p)
    have "UART_TYPE st = UART_TYPE (fState u)" "UART_ENABLE st \<and> RX_ENABLE st \<and> CHAR8_7 st"
      using Cons.prems(3) p by auto
    from UpdateState_on_the_way [OF Cons.prems(1,2) this, of r]
    obtain st' u' where s: "UpdateState st r u = Some (st', u')" "uart_ok u'" "port_lossless wait u'"
      "UART_TYPE (fState u') = UART_TYPE st"
      "on_the_way wait u = (if r \<and> DATA_READY st' then [ucast (RX_DATA st')] else []) @ on_the_way wait u'" by blast
    have "\<forall>(st, r)\<in>set rs. UART_TYPE st = UART_TYPE (fState u') \<and> UART_ENABLE st \<and> RX_ENABLE st \<and> CHAR8_7 st"
      using Cons.prems(3) p s(4) by auto
    then obtain out v where "read_registers rs u' = Some (out, v)" "on_the_way wait u' = out @ on_the_way wait v"
      using Cons.IH [OF s(2,3)] by blast
    then show ?case using s(1,5) p by simp
  qed simp
qed

lemma lossless_host_port: "lossless host_port fst"
  unfolding lossless_def using host_port_ok by (auto simp: host_port_def)

lemma received_bytes_in_order_witness:
  "\<exists>out u'. read_registers [(blank_state, True), (blank_state, False), (blank_state, True)] some_uart = Some (out, u') \<and>
    on_the_way fst some_uart = out @ on_the_way fst u'"
  by (rule received_bytes_in_order [OF some_uart_reach])
    (auto simp: port_lossless_def some_uart_def lossless_host_port blank_state_def)

end
