(* ===== verification/Session.thy ===== *)
theory Session
  imports Queues Prelude
begin

unbundle bit_operations_syntax

text \<open>
  The session of \<open>EmSession.cpp\<close>: the state that the thread of the emulated processor and the
  thread of the user interface share, the requests to suspend and resume, what is scheduled for the
  end of a cycle, resets, and the queues of events. \<open>SessionThreads\<close> lets the two threads run.

  The modelled variant is the one with threads (\<open>HAS_OMNI_THREAD\<close>). Functions here are critical
  sections, from the lock of \<open>fSharedLock\<close> to its release or to a wait.
\<close>

section \<open>Requests to suspend\<close>

text \<open>
  The counters are signed fields of four bits and flags of one bit; a non-zero flag is \<open>True\<close>.
  \<open>fAllCounters\<close> sees them all at once.
\<close>

record counters =
  fSuspendByUIThread :: "4 word"
  fSuspendByDebugger :: "4 word"
  fSuspendByExternal :: "4 word"
  fSuspendByTimeout :: bool
  fSuspendBySysCall :: bool
  fSuspendBySubroutineReturn :: bool

definition no_counters :: counters where
  "no_counters = \<lparr>fSuspendByUIThread = 0, fSuspendByDebugger = 0, fSuspendByExternal = 0, fSuspendByTimeout = False,
     fSuspendBySysCall = False, fSuspendBySubroutineReturn = False\<rparr>"

definition fAllCounters :: "counters \<Rightarrow> bool" where
  "fAllCounters c \<longleftrightarrow> c \<noteq> no_counters"

datatype EmSessionState = kRunning | kStopped | kSuspended | kBlockedOnUI

datatype EmStopMethod = kStopNone | kStopNow | kStopOnCycle | kStopOnSysCall

record session =
  fThread :: bool
  fStop :: bool
  fSuspendState :: counters
  fState :: EmSessionState
  fBreakOnSysCall :: bool
  fNestLevel :: int

definition session_new :: session where
  "session_new = \<lparr>fThread = False, fStop = False, fSuspendState = no_counters, fState = kStopped, fBreakOnSysCall = False,
     fNestLevel = 0\<rparr>"

abbreviation on_counters :: "(counters \<Rightarrow> counters) \<Rightarrow> 'z session_scheme \<Rightarrow> 'z session_scheme" where
  "on_counters f s \<equiv> s\<lparr>fSuspendState := f (fSuspendState s)\<rparr>"

definition IsNested :: "'z session_scheme \<Rightarrow> bool" where
  "IsNested s \<longleftrightarrow> fNestLevel s > 0"

definition CreateThread :: "bool \<Rightarrow> 'z session_scheme \<Rightarrow> 'z session_scheme" where
  "CreateThread suspended s =
     (if fThread s then s
      else s\<lparr>fThread := True, fStop := False,
             fSuspendState := no_counters\<lparr>fSuspendByUIThread := if suspended then 1 else 0\<rparr>,
             fState := if suspended then kSuspended else kRunning\<rparr>)"

text \<open>\<open>DestroyThread\<close> up to its wait.\<close>

definition DestroyThread_request :: "'z session_scheme \<Rightarrow> 'z session_scheme" where
  "DestroyThread_request s =
     on_counters (\<lambda>c. c\<lparr>fSuspendByUIThread := fSuspendByUIThread c + 1\<rparr>) (s\<lparr>fStop := True\<rparr>)"

text \<open>\<open>SuspendThread\<close> up to its wait, and from there on with the assertions of its end.\<close>

definition SuspendThread_request :: "EmStopMethod \<Rightarrow> 'z session_scheme \<Rightarrow> 'z session_scheme" where
  "SuspendThread_request how s =
     (case how of
        kStopNow \<Rightarrow> on_counters (\<lambda>c. c\<lparr>fSuspendByUIThread := fSuspendByUIThread c + 1\<rparr>) s
      | kStopOnCycle \<Rightarrow> on_counters (\<lambda>c. c\<lparr>fSuspendByUIThread := fSuspendByUIThread c + 1\<rparr>) s
      | _ \<Rightarrow> s)"

definition SuspendThread_result :: "EmStopMethod \<Rightarrow> 'z session_scheme \<Rightarrow> bool" where
  "SuspendThread_result how s =
     (case how of
        kStopNone \<Rightarrow> False
      | kStopNow \<Rightarrow> True
      | kStopOnCycle \<Rightarrow> fState s = kSuspended
      | kStopOnSysCall \<Rightarrow> fState s = kSuspended \<and> fSuspendBySysCall (fSuspendState s))"

definition SuspendThread_end :: "EmStopMethod \<Rightarrow> 'z session_scheme \<Rightarrow> bool \<times> 'z session_scheme" where
  "SuspendThread_end how s =
     (let result = SuspendThread_result how s;
          s = (if how = kStopOnSysCall \<and> result
               then on_counters (\<lambda>c. c\<lparr>fSuspendByUIThread := fSuspendByUIThread c + 1\<rparr>) s else s)
      in (result, s\<lparr>fBreakOnSysCall := False\<rparr>))"

definition SuspendThread_asserts :: "bool \<Rightarrow> 'z session_scheme \<Rightarrow> bool" where
  "SuspendThread_asserts result s \<longleftrightarrow>
     (fState s = kSuspended \<or> fState s = kBlockedOnUI) \<and>
     (result \<longrightarrow> 0 < sint (fSuspendByUIThread (fSuspendState s)) \<and> \<not> fSuspendBySubroutineReturn (fSuspendState s) \<and>
        (fNestLevel s = 0 \<or> fState s = kBlockedOnUI))"

definition ResumeThread :: "'z session_scheme \<Rightarrow> 'z session_scheme" where
  "ResumeThread s =
     (if 0 < sint (fSuspendByUIThread (fSuspendState s))
      then (let s = on_counters (\<lambda>c. c\<lparr>fSuspendByUIThread := fSuspendByUIThread c - 1\<rparr>) s;
                s = (if fSuspendByUIThread (fSuspendState s) = 0 \<and> fSuspendByExternal (fSuspendState s) = 0
                     then on_counters (\<lambda>c. c\<lparr>fSuspendBySysCall := False\<rparr>) s else s)
            in if \<not> fAllCounters (fSuspendState s) \<and> fState s = kSuspended then s\<lparr>fState := kRunning\<rparr> else s)
      else s)"

definition SetSuspendState :: "counters \<Rightarrow> 'z session_scheme \<Rightarrow> 'z session_scheme" where
  "SetSuspendState c s = s\<lparr>fSuspendState := c\<rparr>"

text \<open>\<open>GetSuspendState\<close> and \<open>SetSuspendState\<close> assert this outside of the processor's thread.\<close>

definition outside_asserts :: "'z session_scheme \<Rightarrow> bool" where
  "outside_asserts s \<longleftrightarrow> (fNestLevel s = 0 \<and> fState s \<noteq> kRunning) \<or> (fNestLevel s > 0 \<and> fState s = kRunning)"

text \<open>The end of a session of the debugger (\<open>DebugMgr.cpp\<close>).\<close>

definition debugger_continues :: "'z session_scheme \<Rightarrow> 'z session_scheme" where
  "debugger_continues s = SetSuspendState ((fSuspendState s)\<lparr>fSuspendByDebugger := 0\<rparr>) s"

datatype sched = SuspendException | SuspendError | SuspendExternal | SuspendTimeout | SuspendSysCall
  | SuspendSubroutineReturn | ResumeExternal

definition Schedule :: "sched \<Rightarrow> 'z session_scheme \<Rightarrow> 'z session_scheme" where
  "Schedule e =
     (case e of
        SuspendException \<Rightarrow> on_counters (\<lambda>c. c\<lparr>fSuspendByDebugger := fSuspendByDebugger c + 1\<rparr>)
      | SuspendError \<Rightarrow> on_counters (\<lambda>c. c\<lparr>fSuspendByDebugger := fSuspendByDebugger c + 1\<rparr>)
      | SuspendExternal \<Rightarrow>
          on_counters (\<lambda>c. c\<lparr>fSuspendByExternal := fSuspendByExternal c + 1, fSuspendBySysCall := True\<rparr>)
      | SuspendTimeout \<Rightarrow> on_counters (\<lambda>c. c\<lparr>fSuspendByTimeout := True\<rparr>)
      | SuspendSysCall \<Rightarrow> on_counters (\<lambda>c. c\<lparr>fSuspendBySysCall := True\<rparr>)
      | SuspendSubroutineReturn \<Rightarrow> on_counters (\<lambda>c. c\<lparr>fSuspendBySubroutineReturn := True\<rparr>)
      | ResumeExternal \<Rightarrow> on_counters (\<lambda>c. c\<lparr>fSuspendByExternal := fSuspendByExternal c - 1\<rparr>))"

definition CheckForBreak :: "'z session_scheme \<Rightarrow> bool" where
  "CheckForBreak s =
     (if \<not> fAllCounters (fSuspendState s) then False
      else if IsNested s then fAllCounters ((fSuspendState s)\<lparr>fSuspendByExternal := 0\<rparr>)
      else fAllCounters (fSuspendState s))"

section \<open>Subroutines of the emulated system\<close>

text \<open>
  \<open>ExecuteSubroutine\<close> sets the counters aside. One turn of its loop enters the processor; what
  the processor's run has requested meanwhile is merged into the counters that were set aside.
\<close>

definition merge_counters :: "counters \<Rightarrow> counters \<Rightarrow> counters" where
  "merge_counters old c =
     old\<lparr>fSuspendByUIThread := fSuspendByUIThread old + fSuspendByUIThread c,
         fSuspendByDebugger := fSuspendByDebugger old + fSuspendByDebugger c,
         fSuspendByExternal := fSuspendByExternal old + fSuspendByExternal c,
         fSuspendByTimeout := (fSuspendByTimeout old \<or> fSuspendByTimeout c)\<rparr>"

definition keep_counters :: "counters \<Rightarrow> counters" where
  "keep_counters c =
     c\<lparr>fSuspendByUIThread := 0, fSuspendByExternal := 0, fSuspendBySysCall := False, fSuspendByTimeout := False\<rparr>"

definition no_negative :: "counters \<Rightarrow> counters" where
  "no_negative c = (if sint (fSuspendByExternal c) < 0 then c\<lparr>fSuspendByExternal := 0\<rparr> else c)"

text \<open>
  What is on a thread's stack: a call of \<open>CallCPU\<close> with the state it restores, and a call of
  \<open>ExecuteSubroutine\<close> with the counters set aside and the nesting level it restores.
\<close>

datatype activation = CallCPU EmSessionState | Sub counters int

text \<open>
  A thread in the processor is about to call \<open>CallCPU\<close>, in \<open>EmCPU::Execute\<close>, about to leave
  \<open>CallCPU\<close>, or back in \<open>ExecuteSubroutine\<close>.
\<close>

datatype phase = Enter | Exec | Leave | Back

definition CallCPU_enter :: "'z session_scheme \<Rightarrow> activation list \<Rightarrow> 'z session_scheme \<times> activation list" where
  "CallCPU_enter s st = (s\<lparr>fState := kRunning\<rparr>, CallCPU (fState s) # st)"

definition CallCPU_leave :: "'z session_scheme \<Rightarrow> activation list \<Rightarrow> ('z session_scheme \<times> activation list) option" where
  "CallCPU_leave s st = (case st of CallCPU old # st \<Rightarrow> Some (s\<lparr>fState := old\<rparr>, st) | _ \<Rightarrow> None)"

definition ExecuteSubroutine_begin :: "'z session_scheme \<Rightarrow> activation list \<Rightarrow> 'z session_scheme \<times> activation list" where
  "ExecuteSubroutine_begin s st =
     (s\<lparr>fSuspendState := no_counters, fNestLevel := fNestLevel s + 1\<rparr>, Sub (fSuspendState s) (fNestLevel s) # st)"

text \<open>Back from \<open>CallCPU\<close>: the result says whether the loop goes on.\<close>

definition ExecuteSubroutine_back ::
    "'z session_scheme \<Rightarrow> activation list \<Rightarrow> (bool \<times> 'z session_scheme \<times> activation list) option" where
  "ExecuteSubroutine_back s st =
     (case st of
        Sub old level # st \<Rightarrow>
          let old = merge_counters old (fSuspendState s);
              c = keep_counters (fSuspendState s)
          in if \<not> fAllCounters c
             then Some (True, s\<lparr>fSuspendState := c, fNestLevel := level + 1\<rparr>, Sub old level # st)
             else Some (False, s\<lparr>fSuspendState := no_negative old, fNestLevel := level\<rparr>, st)
      | _ \<Rightarrow> None)"

section \<open>Resets and the end of a cycle\<close>

text \<open>
  The other duties of a session. \<open>'e\<close> is a deferred error, \<open>'b\<close> a button, \<open>'k\<close> a key
  event; a pen event is a point and whether the pen is down.
\<close>

type_synonym pen_event = "(int \<times> int) \<times> bool"

record ('e, 'b, 'k) EmSession = session +
  fReset :: bool
  fResetBanks :: bool
  fHordeAutoSaveState :: bool
  fHordeSaveRootState :: bool
  fHordeSaveSuspendState :: bool
  fHordeLoadRootState :: bool
  fHordeNextGremlinFromRootState :: bool
  fHordeNextGremlinFromSuspendState :: bool
  fMinimizeLoadState :: bool
  fDeferredErrs :: "'e list"
  fResetType :: "32 word"
  fButtonQueue :: "('b \<times> bool) queue"
  fKeyQueue :: "'k queue"
  fPenQueue :: "pen_event queue"
  fLastPenEvent :: pen_event
  fBootKeys :: "32 word"

definition kResetSys :: "32 word" where "kResetSys = 0"
definition kResetSoft :: "32 word" where "kResetSoft = 1"
definition kResetHard :: "32 word" where "kResetHard = 2"
definition kResetDebug :: "32 word" where "kResetDebug = 3"
definition kResetTypeMask :: "32 word" where "kResetTypeMask = 7"
definition kResetExtMask :: "32 word" where "kResetExtMask = 8"
definition kResetNoExt :: "32 word" where "kResetNoExt = 8"

definition ScheduleReset :: "32 word \<Rightarrow> ('e, 'b, 'k, 'z) EmSession_scheme \<Rightarrow> ('e, 'b, 'k, 'z) EmSession_scheme" where
  "ScheduleReset resetType s = s\<lparr>fReset := True, fResetType := resetType\<rparr>"

text \<open>The other end-of-cycle actions that can be scheduled.\<close>

datatype duty = ResetBanks | AutoSaveState | SaveRootState | SaveSuspendedState | LoadRootState
  | NextGremlinFromRootState | NextGremlinFromSuspendedState | MinimizeLoadState

definition ScheduleDuty :: "duty \<Rightarrow> ('e, 'b, 'k, 'z) EmSession_scheme \<Rightarrow> ('e, 'b, 'k, 'z) EmSession_scheme" where
  "ScheduleDuty d s =
     (case d of
        ResetBanks \<Rightarrow> s\<lparr>fResetBanks := True\<rparr>
      | AutoSaveState \<Rightarrow> s\<lparr>fHordeAutoSaveState := True\<rparr>
      | SaveRootState \<Rightarrow> s\<lparr>fHordeSaveRootState := True\<rparr>
      | SaveSuspendedState \<Rightarrow> s\<lparr>fHordeSaveSuspendState := True\<rparr>
      | LoadRootState \<Rightarrow> s\<lparr>fHordeLoadRootState := True\<rparr>
      | NextGremlinFromRootState \<Rightarrow> s\<lparr>fHordeNextGremlinFromRootState := True\<rparr>
      | NextGremlinFromSuspendedState \<Rightarrow> s\<lparr>fHordeNextGremlinFromSuspendState := True\<rparr>
      | MinimizeLoadState \<Rightarrow> s\<lparr>fMinimizeLoadState := True\<rparr>)"

text \<open>\<open>gIterating\<close> is a global variable; scheduling an error while it is set fails an assertion.\<close>

definition ScheduleDeferredError ::
    "bool \<Rightarrow> 'e \<Rightarrow> ('e, 'b, 'k, 'z) EmSession_scheme \<Rightarrow> ('e, 'b, 'k, 'z) EmSession_scheme option" where
  "ScheduleDeferredError gIterating err s =
     (if gIterating then None else Some (s\<lparr>fDeferredErrs := fDeferredErrs s @ [err]\<rparr>))"

definition ClearDeferredErrors :: "('e, 'b, 'k, 'z) EmSession_scheme \<Rightarrow> ('e, 'b, 'k, 'z) EmSession_scheme" where
  "ClearDeferredErrors s = s\<lparr>fDeferredErrs := []\<rparr>"

text \<open>The part of \<open>Reset\<close> that concerns the threads.\<close>

definition Reset_threads :: "'z session_scheme \<Rightarrow> 'z session_scheme" where
  "Reset_threads s =
     (on_counters (\<lambda>c. c\<lparr>fSuspendByDebugger := 0, fSuspendByExternal := 0, fSuspendBySysCall := False,
         fSuspendBySubroutineReturn := False\<rparr>) s)\<lparr>fBreakOnSysCall := False, fNestLevel := 0\<rparr>"

text \<open>
  What else a reset does is a parameter: \<open>subsystems\<close> resets the other parts (the argument says
  whether the hardware is reset), \<open>breaks\<close> installs the breaks again, and \<open>button\<close> tells the
  hardware of a button. Buttons have the numbers of \<open>SkinElementType\<close>.
\<close>

definition kElement_PowerButton :: nat where "kElement_PowerButton = 0"
definition kElement_UpButton :: nat where "kElement_UpButton = 1"
definition kElement_DownButton :: nat where "kElement_DownButton = 2"

record 's reset_ops =
  subsystems :: "bool \<Rightarrow> 's \<Rightarrow> 's"
  breaks :: "'s \<Rightarrow> 's"
  button :: "nat \<Rightarrow> bool \<Rightarrow> 's \<Rightarrow> 's"

definition Reset_flags :: "32 word \<Rightarrow> ('e, 'b, 'k, 'z) EmSession_scheme \<Rightarrow> ('e, 'b, 'k, 'z) EmSession_scheme" where
  "Reset_flags resetType s =
     (let s = (Reset_threads s)\<lparr>fReset := False, fResetBanks := False, fHordeAutoSaveState := False,
                fHordeSaveRootState := False, fHordeSaveSuspendState := False, fHordeLoadRootState := False,
                fHordeNextGremlinFromRootState := False, fHordeNextGremlinFromSuspendState := False,
                fMinimizeLoadState := False\<rparr>;
          s = (ClearDeferredErrors s)\<lparr>fResetType := kResetSys\<rparr>;
          s = (if resetType AND kResetTypeMask \<noteq> kResetSys
               then s\<lparr>fButtonQueue := Clear (fButtonQueue s), fKeyQueue := Clear (fKeyQueue s),
                       fPenQueue := Clear (fPenQueue s)\<rparr> else s)
      in s\<lparr>fLastPenEvent := ((- 1, - 1), False)\<rparr>)"

definition press_boot_key ::
    "('e, 'b, 'k, 'z) EmSession_scheme reset_ops \<Rightarrow> nat \<Rightarrow> ('e, 'b, 'k, 'z) EmSession_scheme \<Rightarrow> ('e, 'b, 'k, 'z) EmSession_scheme" where
  "press_boot_key ops b s =
     (let s = button ops b True s in s\<lparr>fBootKeys := fBootKeys s OR push_bit b 1\<rparr>)"

definition EmSession_Reset :: "('e, 'b, 'k, 'z) EmSession_scheme reset_ops \<Rightarrow> 32 word \<Rightarrow>
    ('e, 'b, 'k, 'z) EmSession_scheme \<Rightarrow> ('e, 'b, 'k, 'z) EmSession_scheme option" where
  "EmSession_Reset ops resetType s =
     (if fNestLevel s \<noteq> 0 then None
      else (let s = subsystems ops (resetType AND kResetTypeMask \<noteq> kResetSys) s;
                s = breaks ops (Reset_flags resetType s);
                s = s\<lparr>fBootKeys := 0\<rparr>;
                s = (if resetType AND kResetTypeMask = kResetHard then press_boot_key ops kElement_PowerButton s
                     else if resetType AND kResetTypeMask = kResetDebug then press_boot_key ops kElement_DownButton s
                     else s)
            in Some (if resetType AND kResetExtMask = kResetNoExt then press_boot_key ops kElement_UpButton s else s)))"

definition release_boot_key ::
    "('e, 'b, 'k, 'z) EmSession_scheme reset_ops \<Rightarrow> nat \<Rightarrow> ('e, 'b, 'k, 'z) EmSession_scheme \<Rightarrow> ('e, 'b, 'k, 'z) EmSession_scheme" where
  "release_boot_key ops b s = (if bit (fBootKeys s) b then button ops b False s else s)"

definition ReleaseBootKeys ::
    "('e, 'b, 'k, 'z) EmSession_scheme reset_ops \<Rightarrow> ('e, 'b, 'k, 'z) EmSession_scheme \<Rightarrow> ('e, 'b, 'k, 'z) EmSession_scheme" where
  "ReleaseBootKeys ops s =
     (let s = release_boot_key ops kElement_PowerButton s; s = release_boot_key ops kElement_DownButton s;
          s = release_boot_key ops kElement_UpButton s
      in s\<lparr>fBootKeys := 0\<rparr>)"

text \<open>
  What the end of a cycle calls: a deferred error's \<open>Do\<close> may throw (\<open>True\<close>), the loading of a
  state may fail (\<open>False\<close>), and what fails an assertion or throws is \<open>None\<close>.
\<close>

record ('e, 's) duty_ops =
  Do :: "'e \<Rightarrow> 's \<Rightarrow> bool \<times> 's"
  Reset :: "32 word \<Rightarrow> 's \<Rightarrow> 's option"
  ResetBankHandlers :: "'s \<Rightarrow> 's"
  Hordes_AutoSaveState :: "'s \<Rightarrow> 's option"
  Hordes_SaveRootState :: "'s \<Rightarrow> 's option"
  Hordes_SaveSuspendedState :: "'s \<Rightarrow> 's option"
  Hordes_LoadRootState :: "'s \<Rightarrow> (bool \<times> 's) option"
  Hordes_StartFromRoot :: "'s \<Rightarrow> 's option"
  Hordes_LoadSuspendedState :: "'s \<Rightarrow> (bool \<times> 's) option"
  Hordes_StartFromSuspended :: "'s \<Rightarrow> 's option"
  Hordes_TurnOff :: "'s \<Rightarrow> 's"
  RealLoadInitialState :: "'s \<Rightarrow> 's option"

fun do_errors :: "('e \<Rightarrow> 's \<Rightarrow> bool \<times> 's) \<Rightarrow> 'e list \<Rightarrow> 's \<Rightarrow> bool \<times> 's" where
  "do_errors f [] s = (False, s)"
| "do_errors f (e # es) s = (let (threw, s) = f e s in if threw then (True, s) else do_errors f es s)"

definition reset_duties :: "('e, ('e, 'b, 'k, 'z) EmSession_scheme) duty_ops \<Rightarrow>
    ('e, 'b, 'k, 'z) EmSession_scheme \<Rightarrow> ('e, 'b, 'k, 'z) EmSession_scheme option" where
  "reset_duties ops s =
     map_option (\<lambda>s. if fResetBanks s then ResetBankHandlers ops (s\<lparr>fResetBanks := False\<rparr>) else s)
       (if fReset s then Reset ops (fResetType s) (s\<lparr>fReset := False, fResetBanks := False\<rparr>) else Some s)"

definition deferred_duties :: "('e, ('e, 'b, 'k, 'z) EmSession_scheme) duty_ops \<Rightarrow>
    ('e, 'b, 'k, 'z) EmSession_scheme \<Rightarrow> bool \<times> ('e, 'b, 'k, 'z) EmSession_scheme" where
  "deferred_duties ops s =
     (if fDeferredErrs s = [] then (False, s)
      else let (threw, s) = do_errors (Do ops) (fDeferredErrs s) s in (threw, ClearDeferredErrors s))"

text \<open>The saving and loading of states for gremlins; \<open>None\<close> is a failed assertion or a call that threw.\<close>

definition save_duties :: "('e, ('e, 'b, 'k, 'z) EmSession_scheme) duty_ops \<Rightarrow>
    ('e, 'b, 'k, 'z) EmSession_scheme \<Rightarrow> ('e, 'b, 'k, 'z) EmSession_scheme option" where
  "save_duties ops s =
     (let busy = (\<lambda>s. fHordeLoadRootState s \<or> fHordeNextGremlinFromRootState s \<or> fHordeNextGremlinFromSuspendState s)
      in Option.bind
           (if fHordeAutoSaveState s then Hordes_AutoSaveState ops (s\<lparr>fHordeAutoSaveState := False\<rparr>) else Some s)
      (\<lambda>s. Option.bind
           (if fHordeSaveRootState s
            then (if fHordeSaveSuspendState s \<or> busy s then None
                  else Hordes_SaveRootState ops (s\<lparr>fHordeSaveRootState := False\<rparr>))
            else Some s)
      (\<lambda>s. if fHordeSaveSuspendState s
           then (if fHordeSaveRootState s \<or> busy s then None
                 else Hordes_SaveSuspendedState ops (s\<lparr>fHordeSaveSuspendState := False\<rparr>))
           else Some s)))"

definition load_duties :: "('e, ('e, 'b, 'k, 'z) EmSession_scheme) duty_ops \<Rightarrow>
    ('e, 'b, 'k, 'z) EmSession_scheme \<Rightarrow> ('e, 'b, 'k, 'z) EmSession_scheme option" where
  "load_duties ops s =
     (let saving = (\<lambda>s. fHordeSaveSuspendState s \<or> fHordeSaveRootState s)
      in Option.bind
           (if fHordeLoadRootState s
            then (if saving s \<or> fHordeNextGremlinFromRootState s \<or> fHordeNextGremlinFromSuspendState s then None
                  else map_option snd (Hordes_LoadRootState ops (s\<lparr>fHordeLoadRootState := False\<rparr>)))
            else Some s)
      (\<lambda>s. Option.bind
           (if fHordeNextGremlinFromRootState s
            then (if saving s \<or> fHordeLoadRootState s \<or> fHordeNextGremlinFromSuspendState s then None
                  else Option.bind (Hordes_LoadRootState ops (s\<lparr>fHordeNextGremlinFromRootState := False\<rparr>))
                         (\<lambda>(ok, s). if ok then Hordes_StartFromRoot ops s else Some (Hordes_TurnOff ops s)))
            else Some s)
      (\<lambda>s. if fHordeNextGremlinFromSuspendState s
           then (if saving s \<or> fHordeLoadRootState s \<or> fHordeNextGremlinFromRootState s then None
                 else Option.bind (Hordes_LoadSuspendedState ops (s\<lparr>fHordeNextGremlinFromSuspendState := False\<rparr>))
                        (\<lambda>(ok, s). if ok then Hordes_StartFromSuspended ops s else Some (Hordes_TurnOff ops s)))
           else Some s)))"

text \<open>The first result says that a deferred error threw; \<open>ExecuteSpecial\<close> returns false otherwise.\<close>

definition EmSession_ExecuteSpecial :: "('e, ('e, 'b, 'k, 'z) EmSession_scheme) duty_ops \<Rightarrow> bool \<Rightarrow>
    ('e, 'b, 'k, 'z) EmSession_scheme \<Rightarrow> (bool \<times> ('e, 'b, 'k, 'z) EmSession_scheme) option" where
  "EmSession_ExecuteSpecial ops checkForResetOnly s =
     Option.bind (reset_duties ops s) (\<lambda>s.
       let (threw, s) = deferred_duties ops s
       in if threw \<or> checkForResetOnly then Some (threw, s)
          else Option.bind (save_duties ops s) (\<lambda>s. Option.bind (load_duties ops s) (\<lambda>s.
            map_option (\<lambda>s. (False, s))
              (if fMinimizeLoadState s then RealLoadInitialState ops (s\<lparr>fMinimizeLoadState := False\<rparr>) else Some s))))"

section \<open>Events of the user\<close>

text \<open>
  Events are refused while gremlins, a recording or a minimisation runs; these are parameters, and so
  are the time and waking the processor. The queues have no bound. Times wrap around.
\<close>

definition PrvCanBotherCPU :: "bool \<Rightarrow> bool \<Rightarrow> bool \<Rightarrow> bool" where
  "PrvCanBotherCPU hordes replaying minimizing =
     (if hordes then False else if replaying then False else if minimizing then False else True)"

definition kButtonEventThreshold :: "32 word" where "kButtonEventThreshold = 100"

text \<open>\<open>gLastButtonEvent\<close> is the first component; \<open>now\<close> is \<open>GetMilliseconds\<close>.\<close>

definition PostButtonEvent :: "bool \<Rightarrow> 32 word \<Rightarrow> 'b \<times> bool \<Rightarrow> bool \<Rightarrow>
    32 word \<times> ('e, 'b, 'k, 'z) EmSession_scheme \<Rightarrow> (32 word \<times> ('e, 'b, 'k, 'z) EmSession_scheme) option" where
  "PostButtonEvent can now e postNow = (\<lambda>(last, s).
     if \<not> can then Some (last, s)
     else map_option (\<lambda>q. (if postNow then now - kButtonEventThreshold else last, s\<lparr>fButtonQueue := q\<rparr>))
            (Put e (fButtonQueue s)))"

definition HasButtonEvent :: "32 word \<Rightarrow> 32 word \<times> ('e, 'b, 'k, 'z) EmSession_scheme \<Rightarrow> bool" where
  "HasButtonEvent now = (\<lambda>(last, s).
     if now - last < kButtonEventThreshold then False else GetUsed (fButtonQueue s) > 0)"

definition PeekButtonEvent :: "('e, 'b, 'k, 'z) EmSession_scheme \<Rightarrow> ('b \<times> bool) option" where
  "PeekButtonEvent s = Peek (fButtonQueue s)"

definition GetButtonEvent :: "32 word \<Rightarrow> 32 word \<times> ('e, 'b, 'k, 'z) EmSession_scheme \<Rightarrow>
    (('b \<times> bool) \<times> 32 word \<times> ('e, 'b, 'k, 'z) EmSession_scheme) option" where
  "GetButtonEvent now = (\<lambda>(last, s).
     map_option (\<lambda>(e, q). (e, now, s\<lparr>fButtonQueue := q\<rparr>)) (Get (fButtonQueue s)))"

definition PostKeyEvent :: "bool \<Rightarrow>
    (('e, 'b, 'k, 'z) EmSession_scheme \<Rightarrow> ('e, 'b, 'k, 'z) EmSession_scheme) \<Rightarrow> 'k \<Rightarrow>
    ('e, 'b, 'k, 'z) EmSession_scheme \<Rightarrow> ('e, 'b, 'k, 'z) EmSession_scheme option" where
  "PostKeyEvent can wake e s =
     (if \<not> can then Some s else map_option (\<lambda>q. wake (s\<lparr>fKeyQueue := q\<rparr>)) (Put e (fKeyQueue s)))"

definition HasKeyEvent :: "('e, 'b, 'k, 'z) EmSession_scheme \<Rightarrow> bool" where
  "HasKeyEvent s \<longleftrightarrow> GetUsed (fKeyQueue s) > 0"

definition GetKeyEvent :: "('e, 'b, 'k, 'z) EmSession_scheme \<Rightarrow> ('k \<times> ('e, 'b, 'k, 'z) EmSession_scheme) option" where
  "GetKeyEvent s = map_option (\<lambda>(e, q). (e, s\<lparr>fKeyQueue := q\<rparr>)) (Get (fKeyQueue s))"

definition PostPenEvent :: "bool \<Rightarrow>
    (('e, 'b, 'k, 'z) EmSession_scheme \<Rightarrow> ('e, 'b, 'k, 'z) EmSession_scheme) \<Rightarrow> pen_event \<Rightarrow>
    ('e, 'b, 'k, 'z) EmSession_scheme \<Rightarrow> ('e, 'b, 'k, 'z) EmSession_scheme option" where
  "PostPenEvent can wake e s =
     (if \<not> can then Some s
      else if snd e \<and> e = fLastPenEvent s then Some s
      else map_option (\<lambda>q. wake (s\<lparr>fPenQueue := q, fLastPenEvent := e\<rparr>)) (Put e (fPenQueue s)))"

definition HasPenEvent :: "('e, 'b, 'k, 'z) EmSession_scheme \<Rightarrow> bool" where
  "HasPenEvent s \<longleftrightarrow> GetUsed (fPenQueue s) > 0"

definition GetPenEvent :: "('e, 'b, 'k, 'z) EmSession_scheme \<Rightarrow> (pen_event \<times> ('e, 'b, 'k, 'z) EmSession_scheme) option" where
  "GetPenEvent s = map_option (\<lambda>(e, q). (e, s\<lparr>fPenQueue := q\<rparr>)) (Get (fPenQueue s))"

end
