(* ===== verification/SessionThreads.thy ===== *)
theory SessionThreads
  imports Session
begin

text \<open>
  The thread of the emulated processor (\<open>EmSession::Run\<close>) and the thread of the user interface, which
  suspends and resumes it (\<open>EmSessionStopper\<close>), calls subroutines of the emulated system while it is
  suspended, and answers its dialogs. A step of a thread is one critical section: from acquiring
  \<open>fSharedLock\<close> to releasing it or waiting for \<open>fSharedCondition\<close>. A waiting thread goes on only
  when it was woken, by a broadcast or spuriously.

  The model has one thread of the user interface. The signed counters have four bits; the steps that
  count up require that they do not overflow.
\<close>

section \<open>The system\<close>

text \<open>
  The processor's thread: at the top of the loop of \<open>Run\<close>, in the wait of that loop, in a call of
  \<open>CallCPU\<close> (with its stack), waiting for the answer to a dialog, or finished.
\<close>

datatype cpu_pc = CLoop | CWait | CRun phase "activation list" | CDialog EmSessionState "activation list" | CDone

text \<open>
  The thread of the user interface: outside of the session, waiting in \<open>SuspendThread\<close> or
  \<open>DestroyThread\<close>, or calling a subroutine.
\<close>

datatype ui_pc = UIdle | UWait EmStopMethod | URun phase "activation list" | UDestroy

text \<open>
  \<open>holds\<close> are the stoppers on the stack of the user interface that were successful: how each asked,
  and whether the session was suspended then (it may have been blocked on a dialog instead).
\<close>

record system =
  sess :: session
  cpu :: cpu_pc
  ui :: ui_pc
  cpu_woken :: bool
  ui_woken :: bool
  dialog_result :: bool
  holds :: "(EmStopMethod \<times> bool) list"

abbreviation on_sess :: "(session \<Rightarrow> session) \<Rightarrow> system \<Rightarrow> system" where
  "on_sess f y \<equiv> y\<lparr>sess := f (sess y)\<rparr>"

definition broadcast :: "system \<Rightarrow> system" where
  "broadcast y = y\<lparr>cpu_woken := True, ui_woken := True\<rparr>"

section \<open>The thread of the processor\<close>

text \<open>\<open>Run\<close>, from acquiring the lock until it is released or waited for.\<close>

definition Run_done :: "system \<Rightarrow> system" where
  "Run_done y = (broadcast (on_sess (\<lambda>s. s\<lparr>fState := kStopped\<rparr>) y))\<lparr>cpu := CDone\<rparr>"

definition Run_call :: "system \<Rightarrow> system" where
  "Run_call y = y\<lparr>cpu := CRun Enter []\<rparr>"

definition Run_inner :: "system \<Rightarrow> system" where
  "Run_inner y =
     (if IsNested (sess y) \<or> (fAllCounters (fSuspendState (sess y)) \<and> \<not> fStop (sess y))
      then (broadcast (if \<not> IsNested (sess y) then on_sess (\<lambda>s. s\<lparr>fState := kSuspended\<rparr>) y else y))
             \<lparr>cpu := CWait, cpu_woken := False\<rparr>
      else if fStop (sess y) then Run_done y else Run_call y)"

definition Run_loop :: "system \<Rightarrow> system" where
  "Run_loop y =
     (if fStop (sess y) then Run_done y
      else if fAllCounters (fSuspendState (sess y)) then Run_inner y
      else Run_call y)"

definition Run_asserts :: "system \<Rightarrow> bool" where
  "Run_asserts y \<longleftrightarrow>
     \<not> fAllCounters (fSuspendState (sess y)) \<and> fNestLevel (sess y) = 0 \<and> fState (sess y) = kRunning"

text \<open>
  The processor may, within \<open>Execute\<close>: schedule something; return, because \<open>CheckForBreak\<close> says so
  or the emulator broke its loop; call a subroutine; show a dialog; reset the session. A subroutine's
  return is scheduled only within one, and ends the cycle; in a nested run there are no resets.
\<close>

datatype cpu_act = CpuGo | CpuSchedule sched | CpuReturn bool | CpuCall | CpuDialog | CpuReset

definition cpu_go :: "system \<Rightarrow> system option" where
  "cpu_go y =
     (case cpu y of
        CLoop \<Rightarrow> Some (Run_loop y)
      | CWait \<Rightarrow> if cpu_woken y then Some (Run_inner y) else None
      | CRun Enter st \<Rightarrow> (let (s, st) = CallCPU_enter (sess y) st in Some (y\<lparr>sess := s, cpu := CRun Exec st\<rparr>))
      | CRun Exec st \<Rightarrow> None
      | CRun Leave st \<Rightarrow>
          map_option (\<lambda>(s, st). y\<lparr>sess := s, cpu := (if st = [] then CLoop else CRun Back st)\<rparr>) (CallCPU_leave (sess y) st)
      | CRun Back st \<Rightarrow>
          map_option (\<lambda>(again, s, st). (broadcast y)\<lparr>sess := s, cpu := CRun (if again then Enter else Exec) st\<rparr>)
            (ExecuteSubroutine_back (sess y) st)
      | CDialog old st \<Rightarrow>
          if \<not> cpu_woken y then None
          else if dialog_result y \<or> fStop (sess y)
          then Some ((broadcast (on_sess (\<lambda>s. s\<lparr>fState := old\<rparr>) y))\<lparr>cpu := CRun Exec st\<rparr>)
          else Some (y\<lparr>cpu_woken := False\<rparr>)
      | CDone \<Rightarrow> None)"

definition cpu_step :: "cpu_act \<Rightarrow> system \<Rightarrow> system option" where
  "cpu_step a y =
     (case a of
        CpuGo \<Rightarrow> cpu_go y
      | _ \<Rightarrow>
         (case cpu y of
            CRun Exec st \<Rightarrow>
             (case a of
                CpuSchedule e \<Rightarrow>
                  if e = SuspendSubroutineReturn \<longrightarrow> IsNested (sess y) then Some (on_sess (Schedule e) y) else None
              | CpuReturn brk \<Rightarrow> if brk \<or> CheckForBreak (sess y) then Some (y\<lparr>cpu := CRun Leave st\<rparr>) else None
              | CpuCall \<Rightarrow>
                  if fSuspendBySubroutineReturn (fSuspendState (sess y)) then None
                  else (let (s, st) = ExecuteSubroutine_begin (sess y) st
                        in Some ((broadcast y)\<lparr>sess := s, cpu := CRun Enter st\<rparr>))
              | CpuDialog \<Rightarrow>
                  if fSuspendBySubroutineReturn (fSuspendState (sess y)) then None
                  else if fStop (sess y) then Some (broadcast y)
                  else Some ((broadcast (on_sess (\<lambda>s. s\<lparr>fState := kBlockedOnUI\<rparr>) y))
                               \<lparr>cpu := CDialog (fState (sess y)) st, cpu_woken := False, dialog_result := False\<rparr>)
              | CpuReset \<Rightarrow> if fNestLevel (sess y) = 0 then Some (on_sess Reset_threads y) else None
              | CpuGo \<Rightarrow> None)
          | _ \<Rightarrow> None))"

section \<open>The thread of the user interface\<close>

text \<open>How often the user interface has asked to suspend, in the counters and in those set aside.\<close>

fun set_aside :: "activation list \<Rightarrow> nat" where
  "set_aside [] = 0"
| "set_aside (Sub c n # st) = unat (fSuspendByUIThread c) + set_aside st"
| "set_aside (CallCPU old # st) = set_aside st"

fun cpu_stack :: "cpu_pc \<Rightarrow> activation list" where
  "cpu_stack (CRun p st) = st"
| "cpu_stack (CDialog old st) = st"
| "cpu_stack _ = []"

fun ui_stack :: "ui_pc \<Rightarrow> activation list" where
  "ui_stack (URun p st) = st"
| "ui_stack _ = []"

definition requests :: "system \<Rightarrow> nat" where
  "requests y = unat (fSuspendByUIThread (fSuspendState (sess y))) + set_aside (cpu_stack (cpu y)) +
     set_aside (ui_stack (ui y))"

text \<open>
  The user interface may: suspend the session; go on from a wait or a call; resume, that is, destroy
  its innermost stopper; call a subroutine, when its stopper allows it (\<open>CanCall\<close>); within a
  subroutine, schedule something or return; under a stopper, enter the debugger, let the debugger
  continue, or reset; with no stopper, answer a dialog or destroy the thread.
\<close>

datatype ui_act = UiSuspend EmStopMethod | UiGo | UiResume | UiCall | UiSchedule sched | UiReturn bool
  | UiDebugger | UiContinue | UiReset | UiAnswer | UiDestroy

text \<open>\<open>SuspendThread\<close>: in its loop the request for a system call is made again before each wait.\<close>

definition suspend_wait :: "EmStopMethod \<Rightarrow> system \<Rightarrow> system" where
  "suspend_wait how y =
     (broadcast (on_sess (\<lambda>s. s\<lparr>fBreakOnSysCall := (how = kStopOnSysCall)\<rparr>) y))\<lparr>ui := UWait how, ui_woken := False\<rparr>"

definition suspend_end :: "EmStopMethod \<Rightarrow> system \<Rightarrow> system" where
  "suspend_end how y =
     (let (result, s) = SuspendThread_end how (sess y)
      in y\<lparr>sess := s, ui := UIdle, holds := (if result then (how, fState s = kSuspended) # holds y else holds y)\<rparr>)"

definition suspend_loop :: "EmStopMethod \<Rightarrow> system \<Rightarrow> system" where
  "suspend_loop how y = (if fState (sess y) = kRunning then suspend_wait how y else suspend_end how y)"

definition ui_go :: "system \<Rightarrow> system option" where
  "ui_go y =
     (case ui y of
        UIdle \<Rightarrow> None
      | UWait how \<Rightarrow> if ui_woken y then Some (suspend_loop how y) else None
      | UDestroy \<Rightarrow>
          if \<not> ui_woken y then None
          else if fState (sess y) \<noteq> kStopped then Some (y\<lparr>ui_woken := False\<rparr>)
          else Some (on_sess (\<lambda>s. s\<lparr>fThread := False\<rparr>) (y\<lparr>ui := UIdle\<rparr>))
      | URun Enter st \<Rightarrow> (let (s, st) = CallCPU_enter (sess y) st in Some (y\<lparr>sess := s, ui := URun Exec st\<rparr>))
      | URun Exec st \<Rightarrow> None
      | URun Leave st \<Rightarrow> map_option (\<lambda>(s, st). y\<lparr>sess := s, ui := URun Back st\<rparr>) (CallCPU_leave (sess y) st)
      | URun Back st \<Rightarrow>
          map_option (\<lambda>(again, s, st). (broadcast y)\<lparr>sess := s,
              ui := (if again then URun Enter st else if st = [] then UIdle else URun Exec st)\<rparr>)
            (ExecuteSubroutine_back (sess y) st))"

definition ui_idle :: "ui_act \<Rightarrow> system \<Rightarrow> system option" where
  "ui_idle a y =
     (case a of
        UiSuspend how \<Rightarrow>
          if how = kStopNone then Some y
          else if fThread (sess y) \<and> requests y < 7
          then Some (suspend_loop how (on_sess (SuspendThread_request how) y)) else None
      | UiResume \<Rightarrow>
          (case holds y of
             [] \<Rightarrow> None
           | h # hs \<Rightarrow>
               Some (let s = ResumeThread (sess y)
                     in (if 0 < sint (fSuspendByUIThread (fSuspendState (sess y))) then broadcast y else y)
                          \<lparr>sess := s, holds := hs\<rparr>))
      | UiCall \<Rightarrow>
          if holds y \<noteq> [] \<and> hd (holds y) = (kStopOnSysCall, True)
          then (let (s, st) = ExecuteSubroutine_begin (sess y) [] in Some ((broadcast y)\<lparr>sess := s, ui := URun Enter st\<rparr>))
          else None
      | UiDebugger \<Rightarrow> if holds y \<noteq> [] then Some (on_sess (Schedule SuspendException) y) else None
      | UiContinue \<Rightarrow>
          if holds y \<noteq> [] \<and> outside_asserts (sess y) then Some (on_sess debugger_continues y) else None
      | UiReset \<Rightarrow>
          if holds y \<noteq> [] \<and> fNestLevel (sess y) = 0 then Some (on_sess Reset_threads y) else None
      | UiAnswer \<Rightarrow>
          (case cpu y of
             CDialog old st \<Rightarrow> if holds y = [] then Some ((broadcast y)\<lparr>dialog_result := True\<rparr>) else None
           | _ \<Rightarrow> None)
      | UiDestroy \<Rightarrow>
          if holds y = [] \<and> fThread (sess y) \<and> requests y < 7
          then (let y = broadcast (on_sess DestroyThread_request y)
                in if fState (sess y) \<noteq> kStopped then Some (y\<lparr>ui := UDestroy, ui_woken := False\<rparr>)
                   else Some (on_sess (\<lambda>s. s\<lparr>fThread := False\<rparr>) y))
          else None
      | _ \<Rightarrow> None)"

definition ui_step :: "ui_act \<Rightarrow> system \<Rightarrow> system option" where
  "ui_step a y =
     (if a = UiGo then ui_go y
      else case ui y of
        UIdle \<Rightarrow> ui_idle a y
      | URun Exec st \<Rightarrow>
          (case a of
             UiSchedule e \<Rightarrow> Some (on_sess (Schedule e) y)
           | UiReturn brk \<Rightarrow> if brk \<or> CheckForBreak (sess y) then Some (y\<lparr>ui := URun Leave st\<rparr>) else None
           | UiCall \<Rightarrow>
               if fSuspendBySubroutineReturn (fSuspendState (sess y)) then None
               else (let (s, st) = ExecuteSubroutine_begin (sess y) st
                     in Some ((broadcast y)\<lparr>sess := s, ui := URun Enter st\<rparr>))
           | _ \<Rightarrow> None)
      | _ \<Rightarrow> None)"

section \<open>Runs\<close>

definition start :: "bool \<Rightarrow> system" where
  "start suspended = \<lparr>sess = CreateThread suspended session_new, cpu = CLoop, ui = UIdle, cpu_woken = False, ui_woken = False,
     dialog_result = False, holds = (if suspended then [(kStopNow, True)] else [])\<rparr>"

inductive step :: "system \<Rightarrow> system \<Rightarrow> bool" where
  cpu: "cpu_step a y = Some y' \<Longrightarrow> step y y'"
| ui: "ui_step a y = Some y' \<Longrightarrow> step y y'"
| spurious_cpu: "step y (y\<lparr>cpu_woken := True\<rparr>)"
| spurious_ui: "step y (y\<lparr>ui_woken := True\<rparr>)"

inductive reach :: "system \<Rightarrow> bool" where
  start: "reach (start suspended)"
| step: "reach y \<Longrightarrow> step y y' \<Longrightarrow> reach y'"

end
