(* ===== verification/SessionInv.thy ===== *)
theory SessionInv
  imports SessionThreads
begin

text \<open>
  The invariant of the two threads of a session: the shape of their stacks, with the nesting level
  and \<open>fState\<close> that go with them; that the counters hold a request for every stopper; that the
  processor's thread waits while a stopper that found the session suspended exists; and that no
  wake-up is lost.
\<close>

section \<open>Counters of four bits\<close>

lemma unat_add_4: "unat a + unat b \<le> 7 \<Longrightarrow> unat (a + b) = unat a + unat (b :: 4 word)"
  by (simp add: unat_word_ariths)

lemma unat_inc_4: "unat a < 7 \<Longrightarrow> unat (a + 1) = unat a + (1 :: nat)" for a :: "4 word"
  using unat_add_4 [of a 1] by simp

lemma unat_dec_4: "0 < unat a \<Longrightarrow> unat (a - 1) = unat a - 1" for a :: "4 word"
  by (simp add: unat_minus_one unat_gt_0)

lemma sint_pos_4: "unat a \<le> 7 \<Longrightarrow> 0 < sint a \<longleftrightarrow> 0 < unat (a :: 4 word)"
proof -
  assume "unat a \<le> 7"
  then have *: "uint a < 8" unfolding uint_nat by linarith
  have "sint a = signed_take_bit 3 (uint a)" by (simp add: sint_uint)
  also have "\<dots> = uint a"
  proof (rule signed_take_bit_int_eq_self)
    have "- (8 :: int) \<le> uint a" using uint_ge_0 [of a] by linarith then show "- (2 ^ 3) \<le> uint a" by simp
    show "uint a < 2 ^ 3" using * by simp
  qed
  finally show ?thesis unfolding uint_nat by linarith
qed
section \<open>Shapes of stacks\<close>

fun subs :: "activation list \<Rightarrow> nat" where
  "subs [] = 0"
| "subs (Sub c n # st) = Suc (subs st)"
| "subs (CallCPU old # st) = subs st"

text \<open>
  A stack with \<open>CallCPU\<close> on top, and one with \<open>ExecuteSubroutine\<close> or nothing on top. The flag
  says that the stack belongs to the user interface, which finds the session suspended.
\<close>

fun top_ok :: "bool \<Rightarrow> activation list \<Rightarrow> bool" and sub_ok :: "bool \<Rightarrow> activation list \<Rightarrow> bool" where
  "top_ok u (CallCPU old # st) \<longleftrightarrow> old = (if u \<and> subs st = 1 then kSuspended else kRunning) \<and> sub_ok u st \<and> (u \<longrightarrow> st \<noteq> [])"
| "top_ok u [] \<longleftrightarrow> False"
| "top_ok u (Sub c n # st) \<longleftrightarrow> False"
| "sub_ok u (Sub c n # st) \<longleftrightarrow> n = int (subs st) \<and> (if u \<and> st = [] then True else top_ok u st)"
| "sub_ok u [] \<longleftrightarrow> True"
| "sub_ok u (CallCPU old # st) \<longleftrightarrow> False"

fun cpu_shape :: "cpu_pc \<Rightarrow> bool" where
  "cpu_shape (CRun p st) \<longleftrightarrow>
     (case p of Enter \<Rightarrow> sub_ok False st | Back \<Rightarrow> sub_ok False st \<and> st \<noteq> [] | _ \<Rightarrow> top_ok False st)"
| "cpu_shape (CDialog old st) \<longleftrightarrow> old = kRunning \<and> top_ok False st"
| "cpu_shape _ \<longleftrightarrow> True"

fun ui_shape :: "ui_pc \<Rightarrow> bool" where
  "ui_shape (URun p st) \<longleftrightarrow> (if p = Enter \<or> p = Back then sub_ok True st \<and> st \<noteq> [] else top_ok True st)"
| "ui_shape (UWait how) \<longleftrightarrow> how \<noteq> kStopNone"
| "ui_shape _ \<longleftrightarrow> True"

text \<open>What \<open>fState\<close> is, given the two threads. A suspended session may have been resumed already.\<close>

fun calling :: "ui_pc \<Rightarrow> bool" where
  "calling (URun p st) \<longleftrightarrow> True"
| "calling _ \<longleftrightarrow> False"

fun state_ok :: "cpu_pc \<Rightarrow> ui_pc \<Rightarrow> EmSessionState \<Rightarrow> bool" where
  "state_ok (CRun p st) u x \<longleftrightarrow> x = kRunning \<and> \<not> calling u"
| "state_ok (CDialog old st) u x \<longleftrightarrow> x = kBlockedOnUI \<and> \<not> calling u"
| "state_ok CDone u x \<longleftrightarrow> x = kStopped \<and> \<not> calling u"
| "state_ok CLoop u x \<longleftrightarrow> (x = kSuspended \<or> x = kRunning) \<and> \<not> calling u"
| "state_ok CWait u x \<longleftrightarrow>
     (case u of URun p st \<Rightarrow> x = (if p = Exec \<or> p = Leave \<or> subs st > 1 then kRunning else kSuspended)
      | _ \<Rightarrow> x = kSuspended \<or> x = kRunning)"

definition waiting :: "ui_pc \<Rightarrow> nat" where
  "waiting u = (if u = UWait kStopNow \<or> u = UWait kStopOnCycle \<or> u = UDestroy then 1 else 0)"

definition pending :: "ui_pc \<Rightarrow> nat" where
  "pending u = (if u = UWait kStopOnSysCall then 1 else 0)"

definition held :: "system \<Rightarrow> bool" where
  "held y \<longleftrightarrow> (\<exists>how. (how, True) \<in> set (holds y))"

section \<open>The invariant\<close>

definition inv_shape :: "system \<Rightarrow> bool" where
  "inv_shape y \<longleftrightarrow> cpu_shape (cpu y) \<and> ui_shape (ui y) \<and>
     fNestLevel (sess y) = int (subs (cpu_stack (cpu y)) + subs (ui_stack (ui y))) \<and>
     state_ok (cpu y) (ui y) (fState (sess y))"

definition inv_count :: "system \<Rightarrow> bool" where
  "inv_count y \<longleftrightarrow> requests y + pending (ui y) \<le> 7 \<and> length (holds y) + waiting (ui y) \<le> requests y"

definition inv_held :: "system \<Rightarrow> bool" where
  "inv_held y \<longleftrightarrow>
     (held y \<longrightarrow> (cpu y = CWait \<or> cpu y = CLoop) \<and> (\<not> calling (ui y) \<longrightarrow> fState (sess y) = kSuspended)) \<and>
     (calling (ui y) \<longrightarrow> held y) \<and>
     (cpu y = CLoop \<longrightarrow> (kStopOnSysCall, True) \<notin> set (holds y) \<and>
        (fState (sess y) = kSuspended \<longrightarrow> \<not> fSuspendBySysCall (fSuspendState (sess y)))) \<and>
     (fState (sess y) = kSuspended \<and> \<not> calling (ui y) \<longrightarrow> fAllCounters (fSuspendState (sess y)))"

definition inv_stop :: "system \<Rightarrow> bool" where
  "inv_stop y \<longleftrightarrow>
     (fStop (sess y) \<longrightarrow> holds y = [] \<and> (ui y = UDestroy \<or> cpu y = CDone \<and> ui y = UIdle \<and> \<not> fThread (sess y))) \<and>
     (ui y = UDestroy \<or> cpu y = CDone \<longrightarrow> fStop (sess y))"

definition inv_woken :: "system \<Rightarrow> bool" where
  "inv_woken y \<longleftrightarrow>
     (case ui y of
        UWait how \<Rightarrow> fState (sess y) \<noteq> kRunning \<longrightarrow> ui_woken y
      | UDestroy \<Rightarrow> fState (sess y) = kStopped \<longrightarrow> ui_woken y
      | _ \<Rightarrow> True) \<and>
     (case cpu y of
        CWait \<Rightarrow> \<not> IsNested (sess y) \<and> (\<not> fAllCounters (fSuspendState (sess y)) \<or> fStop (sess y) \<or> fState (sess y) = kRunning) \<longrightarrow> cpu_woken y
      | CDialog old st \<Rightarrow> dialog_result y \<or> fStop (sess y) \<longrightarrow> cpu_woken y
      | _ \<Rightarrow> True)"

definition inv :: "system \<Rightarrow> bool" where
  "inv y \<longleftrightarrow> inv_shape y \<and> inv_count y \<and> inv_held y \<and> inv_stop y \<and> inv_woken y"

lemmas inv_defs = inv_def inv_shape_def inv_count_def inv_held_def inv_stop_def inv_woken_def

lemma inv_start: "inv (start b)"
  by (simp add: inv_defs start_def session_new_def CreateThread_def requests_def waiting_def pending_def held_def IsNested_def
      fAllCounters_def no_counters_def)

lemmas step_defs = broadcast_def Run_done_def Run_call_def Run_inner_def Run_loop_def

lemma fresh_counters [simp]: "\<not> fAllCounters no_counters"
  by (simp add: fAllCounters_def)

lemma inv_Run_done: "inv y \<Longrightarrow> cpu y = CWait \<or> cpu y = CLoop \<Longrightarrow> fStop (sess y) \<Longrightarrow> inv (Run_done y)"
  by (auto simp: inv_defs step_defs requests_def held_def waiting_def pending_def split: ui_pc.splits)


lemma sub_ok_subs: "sub_ok u st \<Longrightarrow> st \<noteq> [] \<Longrightarrow> 0 < subs st"
  by (cases "(u, st)" rule: sub_ok.cases; simp)

lemma top_ok_subs: "top_ok True st \<Longrightarrow> 0 < subs st"
  by (cases "(True, st)" rule: top_ok.cases) (auto dest: sub_ok_subs)

lemma not_nested_ui:
  assumes "inv y" and "cpu y = CWait \<or> cpu y = CLoop" and "\<not> IsNested (sess y)"
  shows "\<not> calling (ui y)"
proof
  assume "calling (ui y)"
  then obtain p st where u: "ui y = URun p st" by (cases "ui y") auto
  have "fNestLevel (sess y) = int (subs st)" using assms(1,2) u by (auto simp: inv_def inv_shape_def)
  moreover have "0 < subs st"
    using assms(1) u by (auto simp: inv_def inv_shape_def dest: top_ok_subs sub_ok_subs split: if_splits)
  ultimately show False using assms(3) by (simp add: IsNested_def)
qed

lemma inv_suspend:
  assumes "inv y" and "cpu y = CWait \<or> cpu y = CLoop" and "\<not> IsNested (sess y)"
    and "fAllCounters (fSuspendState (sess y))" and "\<not> fStop (sess y)"
  shows "inv ((broadcast (on_sess (\<lambda>s. s\<lparr>fState := kSuspended\<rparr>) y))\<lparr>cpu := CWait, cpu_woken := False\<rparr>)"
    (is "inv ?z")
proof -
  note c = not_nested_ui [OF assms(1-3)]
  have cs: "cpu_stack (cpu y) = []" using assms(2) by auto
  have "inv_shape ?z" using assms(1,2) c cs by (auto simp: inv_def inv_shape_def broadcast_def split: ui_pc.splits)
  moreover have "inv_count ?z" using assms(1) cs by (simp add: inv_def inv_count_def broadcast_def requests_def)
  moreover have "inv_held ?z" using assms(1,4) c by (auto simp: inv_def inv_held_def held_def broadcast_def)
  moreover have "inv_stop ?z" using assms(1,5) assms(2) by (auto simp: inv_def inv_stop_def broadcast_def)
  moreover have "inv_woken ?z" using assms(4,5) by (auto simp: inv_woken_def broadcast_def split: ui_pc.splits)
  ultimately show ?thesis by (simp add: inv_def)
qed

lemma invI: "inv_shape y \<Longrightarrow> inv_count y \<Longrightarrow> inv_held y \<Longrightarrow> inv_stop y \<Longrightarrow> inv_woken y \<Longrightarrow> inv y"
  by (simp add: inv_def)

lemma inv_wait_again:
  assumes "inv y" and "cpu y = CWait" and "IsNested (sess y)"
  shows "inv ((broadcast y)\<lparr>cpu := CWait, cpu_woken := False\<rparr>)" (is "inv ?z")
proof (rule invI)
  have s: "sess ?z = sess y" "cpu ?z = cpu y" "ui ?z = ui y" "holds ?z = holds y" "ui_woken ?z"
    using assms(2) by (simp_all add: broadcast_def)
  show "inv_shape ?z" using assms(1) unfolding inv_def inv_shape_def s by simp
  show "inv_count ?z" using assms(1) unfolding inv_def inv_count_def requests_def s by simp
  show "inv_held ?z" using assms(1) unfolding inv_def inv_held_def held_def s by simp
  show "inv_stop ?z" using assms(1) unfolding inv_def inv_stop_def s by simp
  show "inv_woken ?z" using assms(2,3) s(5) unfolding inv_woken_def s by (auto split: ui_pc.splits)
qed

lemma suspended_or_running:
  assumes "inv y" and "cpu y = CWait \<or> cpu y = CLoop" and "\<not> IsNested (sess y)" and "\<not> fAllCounters (fSuspendState (sess y))"
  shows "fState (sess y) = kRunning" and "\<not> held y" and "fNestLevel (sess y) = 0"
proof -
  note c = not_nested_ui [OF assms(1-3)]
  show r: "fState (sess y) = kRunning"
    using assms(1,2,4) c by (cases "ui y") (auto simp: inv_def inv_shape_def inv_held_def)
  show "\<not> held y" using assms(1) c r by (auto simp: inv_def inv_held_def)
  show "fNestLevel (sess y) = 0" using assms(1,3) by (simp add: inv_def inv_shape_def IsNested_def)
qed

lemma inv_Run_call:
  assumes "inv y" and "cpu y = CWait \<or> cpu y = CLoop" and "\<not> IsNested (sess y)"
    and "\<not> fAllCounters (fSuspendState (sess y))" and "\<not> fStop (sess y)"
  shows "inv (Run_call y)" and "Run_asserts (Run_call y)"
proof -
  note c = not_nested_ui [OF assms(1-3)] and r = suspended_or_running [OF assms(1-4)]
  have cs: "cpu_stack (cpu y) = []" using assms(2) by auto
  show "inv (Run_call y)"
  proof (rule invI)
    show "inv_shape (Run_call y)" using assms(1) c cs r by (auto simp: inv_def inv_shape_def Run_call_def split: ui_pc.splits)
    show "inv_count (Run_call y)" using assms(1) cs by (simp add: inv_def inv_count_def Run_call_def requests_def)
    show "inv_held (Run_call y)" using r c by (simp add: inv_held_def Run_call_def held_def)
    show "inv_stop (Run_call y)" using assms(1,2,5) by (auto simp: inv_def inv_stop_def Run_call_def)
    show "inv_woken (Run_call y)" using assms(1) by (auto simp: inv_def inv_woken_def Run_call_def split: ui_pc.splits)
  qed
  show "Run_asserts (Run_call y)" using r assms(4) by (simp add: Run_asserts_def Run_call_def)
qed

lemma inv_Run_inner:
  assumes "inv y" and "cpu y = CWait \<or> (cpu y = CLoop \<and> \<not> fStop (sess y) \<and> fAllCounters (fSuspendState (sess y)))"
  shows "inv (Run_inner y)"
proof -
  have pc: "cpu y = CWait \<or> cpu y = CLoop" using assms(2) by blast
  show ?thesis
  proof (cases "IsNested (sess y)")
    case True
    then have "calling (ui y)" using assms
      by (cases "ui y") (auto simp: inv_def inv_shape_def IsNested_def)
    then have "cpu y = CWait" using assms(1) pc by (auto simp: inv_def inv_shape_def)
    then show ?thesis using inv_wait_again [OF assms(1) _ True] True by (simp add: Run_inner_def)
  next
    case False
    note n = False
    show ?thesis
    proof (cases "fAllCounters (fSuspendState (sess y)) \<and> \<not> fStop (sess y)")
      case True
      then show ?thesis using inv_suspend [OF assms(1) pc False] False by (simp add: Run_inner_def)
    next
      case False
      then show ?thesis using inv_Run_done [OF assms(1) pc] inv_Run_call [OF assms(1) pc n] n
        by (auto simp: Run_inner_def)
    qed
  qed
qed

lemma inv_Run_loop: "inv y \<Longrightarrow> cpu y = CLoop \<Longrightarrow> inv (Run_loop y)"
proof (cases "fStop (sess y) \<or> fAllCounters (fSuspendState (sess y))")
  case True
  assume "inv y" and "cpu y = CLoop"
  with True show ?thesis using inv_Run_inner [of y] inv_Run_done [of y] by (auto simp: Run_loop_def)
next
  case False
  assume i: "inv y" and l: "cpu y = CLoop"
  then have "\<not> IsNested (sess y)" by (cases "ui y") (auto simp: inv_def inv_shape_def IsNested_def)
  with False i l show ?thesis using inv_Run_call [of y] by (simp add: Run_loop_def)
qed

lemma nested_iff:
  assumes "inv y" and "cpu y = CWait \<or> cpu y = CLoop"
  shows "IsNested (sess y) \<longleftrightarrow> calling (ui y)"
  using assms not_nested_ui [OF assms] by (cases "ui y") (auto simp: inv_def inv_shape_def IsNested_def)

text \<open>Steps that change the counters but not the requests of the user interface.\<close>

lemma inv_set_counters:
  assumes "inv y" and "fSuspendByUIThread c = fSuspendByUIThread (fSuspendState (sess y))"
    and "calling (ui y) \<or> fAllCounters c \<or> (cpu y \<noteq> CWait \<and> cpu y \<noteq> CLoop)"
    and "cpu y = CLoop \<Longrightarrow> fSuspendBySysCall c = fSuspendBySysCall (fSuspendState (sess y))"
  shows "inv (on_sess (\<lambda>s. s\<lparr>fSuspendState := c\<rparr>) y)" (is "inv ?z")
proof (rule invI)
  have cw: "fState (sess y) = kSuspended \<Longrightarrow> cpu y = CWait \<or> cpu y = CLoop"
    using assms(1) by (cases "cpu y") (auto simp: inv_def inv_shape_def)
  show "inv_shape ?z" using assms(1) by (simp add: inv_def inv_shape_def)
  show "inv_count ?z" using assms(1,2) by (simp add: inv_def inv_count_def requests_def)
  show "inv_stop ?z" using assms(1) by (simp add: inv_def inv_stop_def)
  show "inv_held ?z" using assms(1,3,4) cw
    by (simp add: inv_def inv_held_def held_def) blast
  have "cpu y = CWait \<Longrightarrow> IsNested (sess y) = calling (ui y)" using nested_iff [OF assms(1)] by blast
  then have "cpu y = CWait \<Longrightarrow> \<not> calling (ui y) \<Longrightarrow> \<not> fAllCounters c \<or> fStop (sess y) \<Longrightarrow> cpu_woken y"
    using assms(1,3) by (auto simp: inv_def inv_woken_def)
  then show "inv_woken ?z" using assms(1) nested_iff [OF assms(1)]
    by (cases "cpu y") (auto simp: inv_def inv_woken_def IsNested_def split: ui_pc.splits)
qed

lemma inv_Schedule:
  assumes "inv y" and "cpu y = CRun Exec st \<or> calling (ui y)"
  shows "inv (on_sess (Schedule e) y)"
proof -
  have c: "cpu y \<noteq> CLoop" "calling (ui y) \<or> (cpu y \<noteq> CWait \<and> cpu y \<noteq> CLoop)"
    using assms by (auto simp: inv_def inv_shape_def)
  show ?thesis
    by (cases e; simp only: Schedule_def sched.case; intro inv_set_counters [OF assms(1)]; use c in auto)
qed

lemma inv_enter_cpu:
  assumes "inv y" and "cpu y = CRun Enter st"
  shows "inv (y\<lparr>sess := (sess y)\<lparr>fState := kRunning\<rparr>, cpu := CRun Exec (CallCPU (fState (sess y)) # st)\<rparr>)" (is "inv ?z")
proof (rule invI)
  show "inv_shape ?z" using assms by (auto simp: inv_def inv_shape_def)
  show "inv_count ?z" using assms by (simp add: inv_def inv_count_def requests_def)
  show "inv_held ?z" using assms by (auto simp: inv_def inv_held_def held_def)
  show "inv_stop ?z" using assms by (auto simp: inv_def inv_stop_def)
  show "inv_woken ?z" using assms by (auto simp: inv_def inv_woken_def inv_shape_def split: ui_pc.splits)
qed

lemma inv_leave_cpu:
  assumes "inv y" and "cpu y = CRun Leave st" and "CallCPU_leave (sess y) st = Some (s, st')"
  shows "inv (y\<lparr>sess := s, cpu := (if st' = [] then CLoop else CRun Back st')\<rparr>)" (is "inv ?z")
proof -
  obtain st0 where st: "st = CallCPU kRunning # st'" "sub_ok False st'" and s: "s = (sess y)\<lparr>fState := kRunning\<rparr>"
    using assms by (cases st rule: list.exhaust; cases "hd st") (auto simp: inv_def inv_shape_def CallCPU_leave_def)
  have r: "fState (sess y) = kRunning" "\<not> calling (ui y)" "\<not> held y" using assms(1,2) by (auto simp: inv_def inv_shape_def inv_held_def)
  have ss: "s = sess y" using s r by simp
  have h: "(kStopOnSysCall, True) \<notin> set (holds y)" using r by (auto simp: held_def)
  show ?thesis
  proof (rule invI)
    show "inv_shape ?z" using assms(1,2) st r ss by (auto simp: inv_def inv_shape_def)
    show "inv_count ?z" using assms(1,2) st ss by (auto simp: inv_def inv_count_def requests_def)
    show "inv_held ?z" using r h ss by (auto simp: inv_held_def held_def)
    show "inv_stop ?z" using assms(1,2) ss by (auto simp: inv_def inv_stop_def)
    show "inv_woken ?z" using assms(1,2) ss by (auto simp: inv_def inv_woken_def split: ui_pc.splits)
  qed
qed

lemma set_aside_merge:
  assumes "unat (fSuspendByUIThread old) + unat (fSuspendByUIThread c) \<le> 7"
  shows "unat (fSuspendByUIThread (merge_counters old c)) = unat (fSuspendByUIThread old) + unat (fSuspendByUIThread c)"
    and "fSuspendByUIThread (keep_counters c) = 0" and "fSuspendByUIThread (no_negative c') = fSuspendByUIThread c'"
  using assms by (simp_all add: merge_counters_def keep_counters_def no_negative_def unat_add_4)

lemma back_cases:
  assumes "ExecuteSubroutine_back s st = Some (again, s', st')"
  obtains old n rest where "st = Sub old n # rest" and "again" and "st' = Sub (merge_counters old (fSuspendState s)) n # rest"
      and "s' = s\<lparr>fSuspendState := keep_counters (fSuspendState s), fNestLevel := n + 1\<rparr>"
      and "\<not> fAllCounters (keep_counters (fSuspendState s))"
  | old n rest where "st = Sub old n # rest" and "\<not> again" and "st' = rest"
      and "s' = s\<lparr>fSuspendState := no_negative (merge_counters old (fSuspendState s)), fNestLevel := n\<rparr>"
  using assms by (cases st rule: list.exhaust; cases "hd st")
    (auto simp: ExecuteSubroutine_back_def Let_def split: if_splits)

lemma inv_back_cpu:
  assumes "inv y" and "cpu y = CRun Back st" and "ExecuteSubroutine_back (sess y) st = Some (again, s, st')"
  shows "inv ((broadcast y)\<lparr>sess := s, cpu := CRun (if again then Enter else Exec) st'\<rparr>)" (is "inv ?z")
proof -
  have r: "fState (sess y) = kRunning" "\<not> calling (ui y)" "\<not> held y" using assms(1,2) by (auto simp: inv_def inv_shape_def inv_held_def)
  have us: "ui_stack (ui y) = []" using r by (cases "ui y") auto
  have f: "fState s = fState (sess y)" "fStop s = fStop (sess y)" "fThread s = fThread (sess y)"
    using assms(3) by (auto elim!: back_cases)
  have count: "inv_count ?z \<and> inv_shape ?z"
    using assms(3)
  proof (cases rule: back_cases)
    case (1 old n rest)
    have le: "unat (fSuspendByUIThread old) + unat (fSuspendByUIThread (fSuspendState (sess y))) \<le> 7"
      using assms(1,2) 1 by (simp add: inv_def inv_count_def requests_def)
    show ?thesis using assms(1,2) 1 us r set_aside_merge [OF le]
      by (auto simp: inv_def inv_count_def inv_shape_def requests_def broadcast_def)
  next
    case (2 old n rest)
    have le: "unat (fSuspendByUIThread old) + unat (fSuspendByUIThread (fSuspendState (sess y))) \<le> 7"
      using assms(1,2) 2 by (simp add: inv_def inv_count_def requests_def)
    show ?thesis using assms(1,2) 2 us r set_aside_merge [OF le]
      by (auto simp: inv_def inv_count_def inv_shape_def requests_def broadcast_def no_negative_def)
  qed
  show ?thesis
  proof (rule invI)
    show "inv_shape ?z" "inv_count ?z" using count by blast+
    show "inv_held ?z" using r f by (simp add: inv_held_def held_def broadcast_def)
    show "inv_stop ?z" using assms(1,2) f by (auto simp: inv_def inv_stop_def broadcast_def)
    show "inv_woken ?z" by (auto simp: inv_woken_def broadcast_def split: ui_pc.splits)
  qed
qed

lemma running_cpu:
  assumes "inv y" and "cpu y = CRun p st"
  shows "fState (sess y) = kRunning" and "\<not> calling (ui y)" and "\<not> held y" and "ui_stack (ui y) = []"
    and "(kStopOnSysCall, True) \<notin> set (holds y)"
proof -
  show r: "fState (sess y) = kRunning" "\<not> calling (ui y)" "\<not> held y"
    using assms by (auto simp: inv_def inv_shape_def inv_held_def)
  show "ui_stack (ui y) = []" using r(2) by (cases "ui y") auto
  show "(kStopOnSysCall, True) \<notin> set (holds y)" using r(3) by (auto simp: held_def)
qed

lemma inv_dialog_go:
  assumes "inv y" and "cpu y = CDialog old st"
  shows "dialog_result y \<or> fStop (sess y) \<Longrightarrow> inv ((broadcast (on_sess (\<lambda>s. s\<lparr>fState := old\<rparr>) y))\<lparr>cpu := CRun Exec st\<rparr>)"
    and "\<not> (dialog_result y \<or> fStop (sess y)) \<Longrightarrow> inv (y\<lparr>cpu_woken := False\<rparr>)"
proof -
  assume *: "dialog_result y \<or> fStop (sess y)"
  show "inv ((broadcast (on_sess (\<lambda>s. s\<lparr>fState := old\<rparr>) y))\<lparr>cpu := CRun Exec st\<rparr>)" (is "inv ?z")
  proof (rule invI)
    show "inv_shape ?z" using assms by (auto simp: inv_def inv_shape_def broadcast_def)
    show "inv_count ?z" using assms by (auto simp: inv_def inv_count_def requests_def broadcast_def)
    show "inv_held ?z" using assms by (auto simp: inv_def inv_held_def held_def inv_shape_def broadcast_def)
    show "inv_stop ?z" using assms by (auto simp: inv_def inv_stop_def broadcast_def)
    show "inv_woken ?z" by (auto simp: inv_woken_def broadcast_def split: ui_pc.splits)
  qed
next
  assume *: "\<not> (dialog_result y \<or> fStop (sess y))"
  then show "inv (y\<lparr>cpu_woken := False\<rparr>)" (is "inv ?z")
    using assms by (auto simp: inv_defs requests_def held_def split: ui_pc.splits)
qed

lemma inv_begin_cpu:
  assumes "inv y" and "cpu y = CRun Exec st"
  shows "inv ((broadcast y)\<lparr>sess := (sess y)\<lparr>fSuspendState := no_counters, fNestLevel := fNestLevel (sess y) + 1\<rparr>,
      cpu := CRun Enter (Sub (fSuspendState (sess y)) (fNestLevel (sess y)) # st)\<rparr>)" (is "inv ?z")
proof (rule invI)
  note r = running_cpu [OF assms]
  show "inv_shape ?z" using assms r by (auto simp: inv_def inv_shape_def broadcast_def)
  show "inv_count ?z" using assms by (auto simp: inv_def inv_count_def requests_def broadcast_def no_counters_def)
  show "inv_held ?z" using r by (auto simp: inv_held_def held_def broadcast_def)
  show "inv_stop ?z" using assms by (auto simp: inv_def inv_stop_def broadcast_def)
  show "inv_woken ?z" by (auto simp: inv_woken_def broadcast_def split: ui_pc.splits)
qed

lemma inv_dialog:
  assumes "inv y" and "cpu y = CRun Exec st" and "\<not> fStop (sess y)"
  shows "inv ((broadcast (on_sess (\<lambda>s. s\<lparr>fState := kBlockedOnUI\<rparr>) y))
      \<lparr>cpu := CDialog (fState (sess y)) st, cpu_woken := False, dialog_result := False\<rparr>)" (is "inv ?z")
proof (rule invI)
  note r = running_cpu [OF assms(1,2)]
  show "inv_shape ?z" using assms r by (auto simp: inv_def inv_shape_def broadcast_def)
  show "inv_count ?z" using assms by (auto simp: inv_def inv_count_def requests_def broadcast_def no_counters_def)
  show "inv_held ?z" using r by (auto simp: inv_held_def held_def broadcast_def)
  show "inv_stop ?z" using assms by (auto simp: inv_def inv_stop_def broadcast_def)
  show "inv_woken ?z" using assms(3) by (auto simp: inv_woken_def broadcast_def split: ui_pc.splits)
qed

lemma inv_broadcast: "inv y \<Longrightarrow> inv (broadcast y)"
  by (auto simp: inv_defs requests_def held_def broadcast_def split: ui_pc.splits cpu_pc.splits)

text \<open>A reset keeps the requests of the user interface.\<close>

lemma inv_break: "inv y \<Longrightarrow> inv (on_sess (\<lambda>s. s\<lparr>fBreakOnSysCall := b\<rparr>) y)"
  by (auto simp: inv_defs requests_def held_def IsNested_def split: ui_pc.splits cpu_pc.splits)

lemma counted: "fSuspendByUIThread c \<noteq> 0 \<Longrightarrow> fAllCounters c"
  by (auto simp: fAllCounters_def no_counters_def)

lemma returned: "fSuspendBySubroutineReturn c \<Longrightarrow> fAllCounters c"
  by (auto simp: fAllCounters_def no_counters_def)

lemma inv_Reset:
  assumes "inv y" and "fNestLevel (sess y) = 0"
    and "cpu y = CWait \<or> cpu y = CLoop \<Longrightarrow> fSuspendByUIThread (fSuspendState (sess y)) \<noteq> 0"
  shows "inv (on_sess Reset_threads y)"
proof -
  define c where "c = (fSuspendState (sess y))\<lparr>fSuspendByDebugger := 0, fSuspendByExternal := 0,
      fSuspendBySysCall := False, fSuspendBySubroutineReturn := False\<rparr>"
  have "inv (on_sess (\<lambda>s. s\<lparr>fSuspendState := c\<rparr>) y)" (is "inv ?z")
  proof (rule invI)
    have cw: "fState (sess y) = kSuspended \<Longrightarrow> cpu y = CWait \<or> cpu y = CLoop"
      using assms(1) by (cases "cpu y") (auto simp: inv_def inv_shape_def)
    have all: "cpu y = CWait \<or> cpu y = CLoop \<Longrightarrow> fAllCounters c" using assms(3) by (auto intro!: counted simp: c_def)
    show "inv_shape ?z" using assms(1) by (simp add: inv_def inv_shape_def)
    show "inv_count ?z" using assms(1) by (simp add: inv_def inv_count_def requests_def c_def)
    show "inv_stop ?z" using assms(1) by (simp add: inv_def inv_stop_def)
    show "inv_held ?z" using assms(1) cw all
      by (simp add: inv_def inv_held_def held_def) (auto simp: c_def)
    show "inv_woken ?z" using assms(1) all by (auto simp: inv_def inv_woken_def IsNested_def split: ui_pc.splits cpu_pc.splits)
  qed
  from inv_break [OF this, of False] have "inv (on_sess (\<lambda>s. s\<lparr>fSuspendState := c, fBreakOnSysCall := False\<rparr>) y)"
    by simp
  moreover have "Reset_threads (sess y) = (sess y)\<lparr>fSuspendState := c, fBreakOnSysCall := False\<rparr>"
    using assms(2) by (cases "sess y") (simp add: Reset_threads_def c_def)
  ultimately show ?thesis by simp
qed

lemma inv_cpu_go: "inv y \<Longrightarrow> cpu_go y = Some y' \<Longrightarrow> inv y'"
proof (cases "cpu y")
  case (CRun p st)
  assume i: "inv y" and g: "cpu_go y = Some y'"
  show ?thesis
  proof (cases p)
    case Enter
    with i g CRun show ?thesis using inv_enter_cpu [OF i, of st] by (auto simp: cpu_go_def CallCPU_enter_def)
  next
    case Exec
    with g CRun show ?thesis by (simp add: cpu_go_def)
  next
    case Leave
    with i g CRun show ?thesis using inv_leave_cpu [OF i, of st] by (auto simp: cpu_go_def)
  next
    case Back
    with i g CRun show ?thesis using inv_back_cpu [OF i, of st] by (auto simp: cpu_go_def)
  qed
qed (auto simp: cpu_go_def inv_Run_loop inv_Run_inner inv_dialog_go split: if_splits)

lemma inv_cpu_step:
  assumes i: "inv y" and s: "cpu_step a y = Some y'"
  shows "inv y'"
proof (cases "a = CpuGo")
  case True
  then show ?thesis using inv_cpu_go [OF i] s by (simp add: cpu_step_def)
next
  case False
  then obtain st where st: "cpu y = CRun Exec st" using s
    by (cases "cpu y") (auto simp: cpu_step_def split: cpu_act.splits phase.splits)
  note r = running_cpu [OF i st]
  show ?thesis
  proof (cases a)
    case (CpuSchedule e)
    then show ?thesis using inv_Schedule [OF i, of st e] st s by (auto simp: cpu_step_def split: if_splits)
  next
    case (CpuReturn b)
    have "inv (y\<lparr>cpu := CRun Leave st\<rparr>)" using i st r
      by (auto simp: inv_defs requests_def held_def split: ui_pc.splits)
    then show ?thesis using CpuReturn st s by (auto simp: cpu_step_def split: if_splits)
  next
    case CpuCall
    then show ?thesis using inv_begin_cpu [OF i st] st s by (auto simp: cpu_step_def ExecuteSubroutine_begin_def split: if_splits)
  next
    case CpuDialog
    then show ?thesis using inv_dialog [OF i st] inv_broadcast [OF i] st s by (auto simp: cpu_step_def split: if_splits)
  next
    case CpuReset
    then show ?thesis using inv_Reset [OF i] st s by (auto simp: cpu_step_def split: if_splits)
  qed (use False in simp)
qed

section \<open>The user interface keeps the invariant\<close>

text \<open>A request to suspend: the counters of the user interface go up with the number of waiters.\<close>

lemma requests_inc:
  assumes "inv y" and "requests y < 7"
  shows "unat (fSuspendByUIThread (fSuspendState (sess y)) + 1) = unat (fSuspendByUIThread (fSuspendState (sess y))) + 1"
  using assms(2) by (intro unat_inc_4) (simp add: requests_def)

lemma suspended_cpu: "inv y \<Longrightarrow> fState (sess y) = kSuspended \<Longrightarrow> cpu y = CWait \<or> cpu y = CLoop"
  by (cases "cpu y") (auto simp: inv_def inv_shape_def)

lemma inv_request:
  assumes "inv y" and "ui y = UIdle" and "requests y < 7" and "\<not> fStop (sess y)" and "how = kStopNow \<or> how = kStopOnCycle"
  shows "inv ((on_sess (SuspendThread_request how) y)\<lparr>ui := UWait how, ui_woken := True\<rparr>)" (is "inv ?z")
proof (rule invI)
  define c where "c = (fSuspendState (sess y))\<lparr>fSuspendByUIThread := fSuspendByUIThread (fSuspendState (sess y)) + 1\<rparr>"
  have s: "SuspendThread_request how (sess y) = (sess y)\<lparr>fSuspendState := c\<rparr>"
    using assms(5) by (auto simp: SuspendThread_request_def c_def)
  note u = requests_inc [OF assms(1,3)]
  have all: "fAllCounters c" using u by (intro counted) (auto simp: c_def)
  show "inv_shape ?z" using assms(1,2,5) s by (cases "cpu y") (auto simp: inv_def inv_shape_def)
  show "inv_count ?z" using assms(1,2,3,5) s u by (auto simp: inv_def inv_count_def requests_def c_def waiting_def pending_def)
  show "inv_held ?z" using assms(1,2) s all by (auto simp: inv_def inv_held_def held_def c_def)
  show "inv_stop ?z" using assms(1,2,4) s by (auto simp: inv_def inv_stop_def)
  show "inv_woken ?z" using assms(1,4) s all
    by (auto simp: inv_def inv_woken_def IsNested_def split: cpu_pc.splits)
qed

lemma inv_request_syscall:
  assumes "inv y" and "ui y = UIdle" and "requests y < 7" and "\<not> fStop (sess y)"
  shows "inv (y\<lparr>ui := UWait kStopOnSysCall, ui_woken := True\<rparr>)"
  using assms by (cases "cpu y") (auto simp: inv_defs requests_def held_def waiting_def pending_def IsNested_def)

lemma inv_suspend_wait:
  assumes "inv y" and "ui y = UWait how" and "fState (sess y) = kRunning"
  shows "inv (suspend_wait how y)"
  using assms
  by (cases "cpu y") (auto simp: suspend_wait_def inv_defs requests_def held_def waiting_def pending_def IsNested_def broadcast_def)

lemma inv_suspend_end:
  assumes "inv y" and "ui y = UWait how" and "fState (sess y) \<noteq> kRunning"
  shows "inv (suspend_end how y)"
proof -
  define result where "result = SuspendThread_result how (sess y)"
  define c where "c = (if how = kStopOnSysCall \<and> result
    then (fSuspendState (sess y))\<lparr>fSuspendByUIThread := fSuspendByUIThread (fSuspendState (sess y)) + 1\<rparr>
    else fSuspendState (sess y))"
  define hs where "hs = (if result then (how, fState (sess y) = kSuspended) # holds y else holds y)"
  have z: "suspend_end how y =
    y\<lparr>sess := (sess y)\<lparr>fSuspendState := c, fBreakOnSysCall := False\<rparr>, ui := UIdle, holds := hs\<rparr>"
    by (cases "sess y") (auto simp: suspend_end_def SuspendThread_end_def Let_def result_def c_def hs_def)
  have stop: "\<not> fStop (sess y)" using assms(1,2) by (auto simp: inv_def inv_stop_def)
  have how: "how \<noteq> kStopNone" using assms(1,2) by (auto simp: inv_def inv_shape_def)
  have st: "fState (sess y) = kSuspended \<or> fState (sess y) = kBlockedOnUI"
    using assms stop by (cases "cpu y") (auto simp: inv_def inv_shape_def inv_stop_def)
  have lt: "how = kStopOnSysCall \<Longrightarrow> requests y < 7" using assms(1,2) by (auto simp: inv_def inv_count_def pending_def)
  have cu: "unat (fSuspendByUIThread c) = unat (fSuspendByUIThread (fSuspendState (sess y))) +
      (if how = kStopOnSysCall \<and> result then 1 else 0)"
    using requests_inc [OF assms(1) lt] by (auto simp: c_def)
  have all: "fAllCounters (fSuspendState (sess y)) \<Longrightarrow> fAllCounters c"
    using cu by (auto simp: c_def intro!: counted)
  have sc: "fSuspendBySysCall c = fSuspendBySysCall (fSuspendState (sess y))" by (simp add: c_def)
  have hold: "result \<Longrightarrow> how = kStopOnSysCall \<Longrightarrow> fState (sess y) = kSuspended \<and> fSuspendBySysCall (fSuspendState (sess y))"
    by (simp add: result_def SuspendThread_result_def)
  have now: "how = kStopNow \<Longrightarrow> result" by (simp add: result_def SuspendThread_result_def)
  show ?thesis unfolding z
  proof (rule invI)
    let ?z = "y\<lparr>sess := (sess y)\<lparr>fSuspendState := c, fBreakOnSysCall := False\<rparr>, ui := UIdle, holds := hs\<rparr>"
    show "inv_shape ?z" using assms(1,2) by (cases "cpu y") (auto simp: inv_def inv_shape_def)
    have "requests ?z = requests y + (if how = kStopOnSysCall \<and> result then 1 else 0)"
      using cu assms(2) by (simp add: requests_def)
    then show "inv_count ?z" using assms(1,2) lt now how
      by (cases how) (auto simp: inv_def inv_count_def waiting_def pending_def hs_def)
    show "inv_held ?z" using assms(1,2) suspended_cpu [OF assms(1)] all sc hold
      by (auto simp: inv_def inv_held_def held_def hs_def)
    show "inv_stop ?z" using assms(1,2) stop by (auto simp: inv_def inv_stop_def)
    show "inv_woken ?z" using assms(1,2) stop all
      by (cases "cpu y") (auto simp: inv_def inv_woken_def IsNested_def)
  qed
qed

lemma inv_idle_woken: "ui y = UIdle \<Longrightarrow> inv y \<Longrightarrow> inv (y\<lparr>ui_woken := b\<rparr>)"
  by (cases "cpu y") (auto simp: inv_defs requests_def held_def IsNested_def)

lemma inv_suspend_request:
  assumes "inv y" and "ui y = UIdle" and "requests y < 7" and "fThread (sess y)" and "how \<noteq> kStopNone"
  shows "inv (suspend_loop how (on_sess (SuspendThread_request how) y))"
proof -
  let ?y = "on_sess (SuspendThread_request how) y"
  let ?w = "?y\<lparr>ui := UWait how, ui_woken := True\<rparr>"
  have stop: "\<not> fStop (sess y)" using assms(1,2,4) by (auto simp: inv_def inv_stop_def)
  have w: "inv ?w"
  proof (cases "how = kStopOnSysCall")
    case True
    then have "?y = y" by (simp add: SuspendThread_request_def)
    then show ?thesis using inv_request_syscall [OF assms(1-3) stop] True by simp
  next
    case False
    with assms(5) have "how = kStopNow \<or> how = kStopOnCycle" by (cases how) auto
    then show ?thesis using inv_request [OF assms(1-3) stop] by blast
  qed
  show ?thesis
  proof (cases "fState (sess ?y) = kRunning")
    case True
    have "suspend_wait how ?w = suspend_wait how ?y" by (simp add: suspend_wait_def broadcast_def)
    with inv_suspend_wait [OF w, of how] True show ?thesis by (simp add: suspend_loop_def)
  next
    case False
    have "suspend_end how ?y = (suspend_end how ?w)\<lparr>ui_woken := ui_woken y\<rparr>"
      by (simp add: suspend_end_def split: prod.splits)
    moreover have "ui (suspend_end how ?w) = UIdle" by (simp add: suspend_end_def split: prod.splits)
    ultimately show ?thesis using inv_suspend_end [OF w, of how] inv_idle_woken False by (simp add: suspend_loop_def)
  qed
qed

lemma inv_enter_ui:
  assumes "inv y" and "ui y = URun Enter st"
  shows "inv (y\<lparr>sess := (sess y)\<lparr>fState := kRunning\<rparr>, ui := URun Exec (CallCPU (fState (sess y)) # st)\<rparr>)" (is "inv ?z")
proof -
  have c: "cpu y = CWait" "held y" using assms by (cases "cpu y"; auto simp: inv_def inv_shape_def inv_held_def)+
  have n: "IsNested (sess y)" using nested_iff [OF assms(1)] c assms(2) by simp
  have f: "fState (sess y) = (if subs st = 1 then kSuspended else kRunning)" "st \<noteq> []" "sub_ok True st"
    using assms c sub_ok_subs [of True st] by (auto simp: inv_def inv_shape_def)
  show ?thesis
  proof (rule invI)
    show "inv_shape ?z" using assms c f by (auto simp: inv_def inv_shape_def)
    show "inv_count ?z" using assms by (simp add: inv_def inv_count_def requests_def waiting_def pending_def)
    show "inv_held ?z" using assms c by (auto simp: inv_def inv_held_def held_def)
    show "inv_stop ?z" using assms by (auto simp: inv_def inv_stop_def)
    show "inv_woken ?z" using assms n by (auto simp: inv_def inv_woken_def IsNested_def split: cpu_pc.splits)
  qed
qed

lemma inv_leave_ui:
  assumes "inv y" and "ui y = URun Leave st" and "CallCPU_leave (sess y) st = Some (s, st')"
  shows "inv (y\<lparr>sess := s, ui := URun Back st'\<rparr>)" (is "inv ?z")
proof -
  have c: "cpu y = CWait" "held y" using assms by (cases "cpu y"; auto simp: inv_def inv_shape_def inv_held_def)+
  have n: "IsNested (sess y)" using nested_iff [OF assms(1)] c assms(2) by simp
  have f: "st = CallCPU (if subs st' = 1 then kSuspended else kRunning) # st'" "sub_ok True st'" "st' \<noteq> []"
    "s = (sess y)\<lparr>fState := (if subs st' = 1 then kSuspended else kRunning)\<rparr>"
    using assms by (cases st rule: list.exhaust; cases "hd st"; auto simp: inv_def inv_shape_def CallCPU_leave_def)+
  show ?thesis
  proof (rule invI)
    show "inv_shape ?z" using assms(1,2) c f sub_ok_subs [OF f(2,3)] by (auto simp: inv_def inv_shape_def)
    show "inv_count ?z" using assms(1,2) f(1,4) by (simp add: inv_def inv_count_def requests_def waiting_def pending_def)
    show "inv_held ?z" using assms(1,2) c f(4) by (auto simp: inv_def inv_held_def held_def)
    show "inv_stop ?z" using assms(1,2) f(4) by (auto simp: inv_def inv_stop_def)
    show "inv_woken ?z" using assms(1,2) f(4) n by (auto simp: inv_def inv_woken_def IsNested_def split: cpu_pc.splits)
  qed
qed

lemma inv_back_ui:
  assumes "inv y" and "ui y = URun Back st" and "ExecuteSubroutine_back (sess y) st = Some (again, s, st')"
  shows "inv ((broadcast y)\<lparr>sess := s, ui := (if again then URun Enter st' else if st' = [] then UIdle else URun Exec st')\<rparr>)"
    (is "inv ?z")
proof -
  have c: "cpu y = CWait" "held y" using assms by (cases "cpu y"; auto simp: inv_def inv_shape_def inv_held_def)+
  have n: "IsNested (sess y)" using nested_iff [OF assms(1)] c assms(2) by simp
  have f: "fState s = fState (sess y)" "fStop s = fStop (sess y)" "fThread s = fThread (sess y)"
    using assms(3) by (auto elim!: back_cases)
  have hold: "0 < length (holds y)" using c(2) by (auto simp: held_def)
  from assms(3) show ?thesis
  proof (cases rule: back_cases)
    case (1 old n rest)
    have le: "unat (fSuspendByUIThread old) + unat (fSuspendByUIThread (fSuspendState (sess y))) \<le> 7"
      using assms(1,2) 1 c by (simp add: inv_def inv_count_def requests_def)
    note m = set_aside_merge [OF le]
    show ?thesis
    proof (rule invI)
      show "inv_shape ?z" using assms(1,2) 1 c by (auto simp: inv_def inv_shape_def broadcast_def)
      show "inv_count ?z" using assms(1,2) 1 c m
        by (auto simp: inv_def inv_count_def requests_def broadcast_def waiting_def pending_def)
      show "inv_held ?z" using 1 c by (simp add: inv_held_def held_def broadcast_def)
      show "inv_stop ?z" using assms(1,2) c f 1 by (auto simp: inv_def inv_stop_def broadcast_def)
      show "inv_woken ?z" by (auto simp: inv_woken_def broadcast_def split: ui_pc.splits cpu_pc.splits)
    qed
  next
    case (2 old n rest)
    have le: "unat (fSuspendByUIThread old) + unat (fSuspendByUIThread (fSuspendState (sess y))) \<le> 7"
      using assms(1,2) 2 c by (simp add: inv_def inv_count_def requests_def)
    note m = set_aside_merge [OF le]
    have cnt: "inv_count ?z" using assms(1,2) 2 c m
      by (auto simp: inv_def inv_count_def requests_def broadcast_def waiting_def pending_def)
    have all: "rest = [] \<Longrightarrow> fAllCounters (fSuspendState s)"
      using cnt hold c 2 by (intro counted) (auto simp: inv_count_def requests_def broadcast_def waiting_def pending_def)
    show ?thesis
    proof (rule invI)
      show "inv_shape ?z" using assms(1,2) 2 c top_ok_subs [of rest] by (auto simp: inv_def inv_shape_def broadcast_def split: if_splits)
      show "inv_count ?z" by (fact cnt)
      show "inv_held ?z" using assms(1,2) 2 c all by (auto simp: inv_def inv_shape_def inv_held_def held_def broadcast_def)
      show "inv_stop ?z" using assms(1,2) c f 2 by (auto simp: inv_def inv_stop_def broadcast_def)
      show "inv_woken ?z" by (auto simp: inv_woken_def broadcast_def split: ui_pc.splits cpu_pc.splits)
    qed
  qed
qed

text \<open>Resuming: the counters go down with the number of stoppers, and the thread wakes up when it may run.\<close>

lemma inv_resume:
  assumes "inv y" and "ui y = UIdle" and "holds y = h # hs"
  shows "inv ((if 0 < sint (fSuspendByUIThread (fSuspendState (sess y))) then broadcast y else y)
      \<lparr>sess := ResumeThread (sess y), holds := hs\<rparr>)" (is "inv ?z")
proof -
  define ui_count where "ui_count = unat (fSuspendByUIThread (fSuspendState (sess y)))"
  have le: "ui_count \<le> 7" using assms(1) by (simp add: inv_def inv_count_def requests_def ui_count_def)
  have stop: "\<not> fStop (sess y)" using assms by (auto simp: inv_def inv_stop_def)
  have pos: "0 < sint (fSuspendByUIThread (fSuspendState (sess y))) \<longleftrightarrow> 0 < ui_count"
    using sint_pos_4 le by (simp add: ui_count_def)
  have hu: "held (y\<lparr>holds := hs\<rparr>) \<Longrightarrow> held y" using assms(3) by (auto simp: held_def)
  show ?thesis
  proof (cases "0 < ui_count")
    case False
    then have "ResumeThread (sess y) = sess y" using pos by (simp add: ResumeThread_def)
    then have z: "?z = y\<lparr>holds := hs\<rparr>" using False pos by simp
    show ?thesis unfolding z
    proof (rule invI)
      show "inv_shape (y\<lparr>holds := hs\<rparr>)" using assms(1) by (simp add: inv_def inv_shape_def)
      show "inv_count (y\<lparr>holds := hs\<rparr>)" using assms(1,3) by (simp add: inv_def inv_count_def requests_def)
      show "inv_held (y\<lparr>holds := hs\<rparr>)" using assms hu by (auto simp: inv_def inv_held_def held_def)
      show "inv_stop (y\<lparr>holds := hs\<rparr>)" using assms stop by (auto simp: inv_def inv_stop_def)
      show "inv_woken (y\<lparr>holds := hs\<rparr>)" using assms by (auto simp: inv_def inv_woken_def split: cpu_pc.splits)
    qed
  next
    case True
    define c where "c = (let c = (fSuspendState (sess y))\<lparr>fSuspendByUIThread := fSuspendByUIThread (fSuspendState (sess y)) - 1\<rparr>
      in if fSuspendByUIThread c = 0 \<and> fSuspendByExternal c = 0 then c\<lparr>fSuspendBySysCall := False\<rparr> else c)"
    define x where "x = (if \<not> fAllCounters c \<and> fState (sess y) = kSuspended then kRunning else fState (sess y))"
    have s: "ResumeThread (sess y) = (sess y)\<lparr>fSuspendState := c, fState := x\<rparr>"
      using True pos by (cases "sess y") (simp add: ResumeThread_def Let_def c_def x_def)
    have z: "?z = (broadcast y)\<lparr>sess := (sess y)\<lparr>fSuspendState := c, fState := x\<rparr>, holds := hs\<rparr>"
      using True pos s by simp
    have cu: "unat (fSuspendByUIThread c) = ui_count - 1"
      using unat_dec_4 [of "fSuspendByUIThread (fSuspendState (sess y))"] True by (simp add: c_def ui_count_def Let_def)
    have sc: "fSuspendBySysCall c \<Longrightarrow> fSuspendBySysCall (fSuspendState (sess y))" by (simp add: c_def Let_def split: if_splits)
    have cnt: "inv_count ?z" using assms cu True unfolding z
      by (auto simp: inv_def inv_count_def requests_def broadcast_def ui_count_def waiting_def pending_def)
    have still: "held (y\<lparr>holds := hs\<rparr>) \<Longrightarrow> fAllCounters c \<and> fState (sess y) = kSuspended"
    proof
      assume h: "held (y\<lparr>holds := hs\<rparr>)"
      then show "fState (sess y) = kSuspended" using assms hu by (auto simp: inv_def inv_held_def)
      have "cpu_stack (cpu y) = []" using assms(1) hu [OF h] by (auto simp: inv_def inv_held_def)
      moreover have "0 < length hs" using h by (auto simp: held_def)
      ultimately have "0 < unat (fSuspendByUIThread c)" using cnt assms(2) unfolding z
        by (simp add: inv_count_def requests_def broadcast_def del: length_greater_0_conv)
      then show "fAllCounters c" by (intro counted) auto
    qed
    show ?thesis
    proof (rule invI)
      show "inv_count ?z" by (fact cnt)
      show "inv_shape ?z" using assms unfolding z
        by (cases "cpu y") (auto simp: inv_def inv_shape_def broadcast_def x_def)
      show "inv_held ?z" using assms(1,2) hu still sc unfolding z
        by (auto simp: inv_def inv_held_def held_def broadcast_def x_def assms(3))
      show "inv_stop ?z" using assms stop unfolding z by (auto simp: inv_def inv_stop_def broadcast_def)
      show "inv_woken ?z" unfolding z by (auto simp: inv_woken_def broadcast_def split: ui_pc.splits cpu_pc.splits)
    qed
  qed
qed

lemma held_count:
  assumes "inv y" and "holds y \<noteq> []" and "cpu y = CWait \<or> cpu y = CLoop" and "\<not> calling (ui y)"
  shows "fSuspendByUIThread (fSuspendState (sess y)) \<noteq> 0"
proof -
  have "cpu_stack (cpu y) = []" using assms(3) by auto
  moreover have "ui_stack (ui y) = []" using assms(4) by (cases "ui y") auto
  moreover have "0 < length (holds y)" using assms(2) by simp
  ultimately have "0 < unat (fSuspendByUIThread (fSuspendState (sess y)))"
    using assms(1) by (simp add: inv_def inv_count_def requests_def del: length_greater_0_conv)
  then show ?thesis by auto
qed

lemma inv_begin_ui:
  assumes "inv y" and "(ui y = UIdle \<and> st = [] \<and> (kStopOnSysCall, True) \<in> set (holds y)) \<or> ui y = URun Exec st"
  shows "inv ((broadcast y)\<lparr>sess := (sess y)\<lparr>fSuspendState := no_counters, fNestLevel := fNestLevel (sess y) + 1\<rparr>,
      ui := URun Enter (Sub (fSuspendState (sess y)) (fNestLevel (sess y)) # st)\<rparr>)" (is "inv ?z")
proof -
  have h: "held y" using assms by (auto simp: inv_def inv_held_def held_def)
  have c: "cpu y = CWait" using assms h by (cases "cpu y") (auto simp: inv_def inv_shape_def inv_held_def)
  show ?thesis
  proof (rule invI)
    show "inv_shape ?z" using assms c h top_ok_subs [of st]
      by (auto simp: inv_def inv_shape_def inv_held_def broadcast_def)
    show "inv_count ?z" using assms c
      by (auto simp: inv_def inv_count_def requests_def broadcast_def no_counters_def waiting_def pending_def)
    show "inv_held ?z" using c h by (simp add: inv_held_def held_def broadcast_def)
    show "inv_stop ?z" using assms c by (auto simp: inv_def inv_stop_def broadcast_def)
    show "inv_woken ?z" by (auto simp: inv_woken_def broadcast_def split: ui_pc.splits cpu_pc.splits)
  qed
qed

lemma inv_idle_counters:
  assumes "inv y" and "ui y = UIdle" and "holds y \<noteq> []"
    and "fSuspendByUIThread c = fSuspendByUIThread (fSuspendState (sess y))" and "fSuspendBySysCall c = fSuspendBySysCall (fSuspendState (sess y))"
  shows "inv (on_sess (\<lambda>s. s\<lparr>fSuspendState := c\<rparr>) y)"
  using assms(2,4,5) held_count [OF assms(1,3)]
  by (intro inv_set_counters [OF assms(1)]) (auto intro!: counted)

lemma inv_answer:
  assumes "inv y" and "cpu y = CDialog old st"
  shows "inv ((broadcast y)\<lparr>dialog_result := True\<rparr>)"
  using inv_broadcast [OF assms(1)] assms(2)
  by (auto simp: inv_defs requests_def held_def broadcast_def split: ui_pc.splits)

lemma inv_destroy:
  assumes "inv y" and "ui y = UIdle" and "holds y = []" and "fThread (sess y)" and "requests y < 7"
    and "fState (sess y) \<noteq> kStopped"
  shows "inv ((broadcast (on_sess DestroyThread_request y))\<lparr>ui := UDestroy, ui_woken := False\<rparr>)" (is "inv ?z")
proof -
  have u: "unat (fSuspendByUIThread (fSuspendState (sess y)) + 1) = unat (fSuspendByUIThread (fSuspendState (sess y))) + 1"
    using requests_inc [OF assms(1,5)] .
  then have n: "fSuspendByUIThread (fSuspendState (sess y)) + 1 \<noteq> 0" by (metis add_is_0 one_neq_zero unat_0)
  show ?thesis
  proof (rule invI)
    show "inv_shape ?z" using assms(1,2) by (cases "cpu y") (auto simp: inv_def inv_shape_def broadcast_def DestroyThread_request_def)
    show "inv_count ?z" using assms(1-3,5) u
      by (auto simp: inv_def inv_count_def requests_def broadcast_def DestroyThread_request_def waiting_def pending_def)
    show "inv_held ?z" using assms(1-3) n
      by (auto simp: inv_def inv_held_def held_def broadcast_def DestroyThread_request_def intro!: counted)
    show "inv_stop ?z" using assms(3) by (auto simp: inv_stop_def broadcast_def DestroyThread_request_def)
    show "inv_woken ?z" using assms(6)
      by (auto simp: inv_woken_def broadcast_def DestroyThread_request_def split: cpu_pc.splits)
  qed
qed

lemma inv_ui_idle:
  assumes i: "inv y" and u: "ui y = UIdle" and s: "ui_idle a y = Some y'"
  shows "inv y'"
proof (cases a)
  case (UiSuspend how)
  then show ?thesis using inv_suspend_request [OF i u] i s by (auto simp: ui_idle_def split: if_splits)
next
  case UiResume
  then show ?thesis using inv_resume [OF i u] s by (auto simp: ui_idle_def Let_def split: list.splits)
next
  case UiCall
  then have h: "(kStopOnSysCall, True) \<in> set (holds y)" using s by (cases "holds y") (auto simp: ui_idle_def split: if_splits)
  show ?thesis using inv_begin_ui [OF i, of "[]"] u h s UiCall
    by (auto simp: ui_idle_def ExecuteSubroutine_begin_def split: if_splits)
next
  case UiDebugger
  then show ?thesis using inv_idle_counters [OF i u] s by (auto simp: ui_idle_def Schedule_def split: if_splits)
next
  case UiContinue
  then show ?thesis using inv_idle_counters [OF i u] s
    by (auto simp: ui_idle_def debugger_continues_def SetSuspendState_def split: if_splits)
next
  case UiReset
  then show ?thesis using inv_Reset [OF i] held_count [OF i] u s by (auto simp: ui_idle_def split: if_splits)
next
  case UiAnswer
  then show ?thesis using inv_answer [OF i] s by (auto simp: ui_idle_def split: if_splits cpu_pc.splits)
next
  case UiDestroy
  have "fThread (sess y) \<Longrightarrow> fState (sess y) \<noteq> kStopped"
    using i u by (cases "cpu y") (auto simp: inv_def inv_shape_def inv_stop_def)
  then show ?thesis using inv_destroy [OF i u] s UiDestroy
    by (auto simp: ui_idle_def broadcast_def DestroyThread_request_def Let_def split: if_splits)
qed (use s in \<open>simp_all add: ui_idle_def\<close>)

lemma inv_ui_go: 
  assumes i: "inv y" and s: "ui_go y = Some y'"
  shows "inv y'"
proof (cases "ui y")
  case UIdle
  then show ?thesis using s by (simp add: ui_go_def)
next
  case (UWait how)
  then show ?thesis using inv_suspend_wait [OF i UWait] inv_suspend_end [OF i UWait] s
    by (auto simp: ui_go_def suspend_loop_def split: if_splits)
next
  case UDestroy
  have "inv (y\<lparr>ui_woken := False\<rparr>)" if "fState (sess y) \<noteq> kStopped" using i UDestroy that
    by (cases "cpu y") (auto simp: inv_defs requests_def held_def)
  moreover have "inv (on_sess (\<lambda>s. s\<lparr>fThread := False\<rparr>) (y\<lparr>ui := UIdle\<rparr>))" if "fState (sess y) = kStopped"
    using i UDestroy that by (cases "cpu y") (auto simp: inv_defs requests_def held_def waiting_def pending_def IsNested_def)
  ultimately show ?thesis using s UDestroy by (auto simp: ui_go_def split: if_splits)
next
  case (URun p st)
  show ?thesis
  proof (cases p)
    case Enter
    with URun show ?thesis using inv_enter_ui [OF i] s by (auto simp: ui_go_def CallCPU_enter_def)
  next
    case Exec
    with URun show ?thesis using s by (simp add: ui_go_def)
  next
    case Leave
    with URun show ?thesis using inv_leave_ui [OF i] s by (auto simp: ui_go_def)
  next
    case Back
    with URun show ?thesis using inv_back_ui [OF i] s by (auto simp: ui_go_def)
  qed
qed

lemma inv_ui_step:
  assumes i: "inv y" and s: "ui_step a y = Some y'"
  shows "inv y'"
proof (cases "a = UiGo \<or> ui y = UIdle")
  case True
  then show ?thesis using inv_ui_go [OF i] inv_ui_idle [OF i] s by (auto simp: ui_step_def split: if_splits)
next
  case False
  then obtain st where st: "ui y = URun Exec st" using s
    by (cases "ui y") (auto simp: ui_step_def split: ui_act.splits phase.splits)
  have "inv (y\<lparr>ui := URun Leave st\<rparr>)" using i st
    by (cases "cpu y") (auto simp: inv_defs requests_def held_def waiting_def pending_def)
  then show ?thesis using False s st inv_Schedule [OF i] inv_begin_ui [OF i, of st]
    by (cases a) (auto simp: ui_step_def ExecuteSubroutine_begin_def split: if_splits)
qed

theorem reach_inv: "reach y \<Longrightarrow> inv y"
proof (induction rule: reach.induct)
  case (start b)
  show ?case by (rule inv_start)
next
  case (step y y')
  from step(2) show ?case
  proof cases
    case (cpu a)
    then show ?thesis using inv_cpu_step [OF step(3)] by blast
  next
    case (ui a)
    then show ?thesis using inv_ui_step [OF step(3)] by blast
  qed (use step(3) in \<open>auto simp: inv_defs requests_def held_def split: ui_pc.splits cpu_pc.splits\<close>)
qed

end
