(* ===== verification/SessionResults.thy ===== *)
theory SessionResults
  imports SessionInv
begin

section \<open>Runs that evaluate\<close>

fun run :: "(cpu_act + ui_act) list \<Rightarrow> system \<Rightarrow> system option" where
  "run [] y = Some y"
| "run (a # as) y = (case (case a of Inl a \<Rightarrow> cpu_step a y | Inr a \<Rightarrow> ui_step a y) of None \<Rightarrow> None | Some y \<Rightarrow> run as y)"

lemma run_reach: "reach y \<Longrightarrow> run as y = Some y' \<Longrightarrow> reach y'"
proof (induction as arbitrary: y)
  case (Cons a as)
  from Cons.prems(2) obtain z where z: "(case a of Inl a \<Rightarrow> cpu_step a y | Inr a \<Rightarrow> ui_step a y) = Some z" "run as z = Some y'"
    by (auto split: option.splits)
  then have "step y z" by (auto intro: step.cpu step.ui split: sum.splits)
  then show ?case using Cons.IH [of z] Cons.prems(1) z(2) by (blast intro: reach.step)
qed simp

definition cpu_executes :: "system \<Rightarrow> bool" where
  "cpu_executes y \<longleftrightarrow> (case cpu y of CRun Exec st \<Rightarrow> True | _ \<Rightarrow> False)"

definition ui_executes :: "system \<Rightarrow> bool" where
  "ui_executes y \<longleftrightarrow> (case ui y of URun Exec st \<Rightarrow> True | _ \<Rightarrow> False)"

lemma executes_cases:
  "cpu_executes y \<Longrightarrow> \<exists>st. cpu y = CRun Exec st" "ui_executes y \<Longrightarrow> \<exists>st. ui y = URun Exec st"
  by (auto simp: cpu_executes_def ui_executes_def split: cpu_pc.splits ui_pc.splits phase.splits)

lemma Run_enters_asserts:
  assumes "inv y" and "cpu y = CLoop \<or> cpu y = CWait" and "cpu_go y = Some y'" and "cpu y' = CRun Enter []"
  shows "Run_asserts y'"
proof -
  have *: "y' = Run_call y \<and> \<not> IsNested (sess y) \<and> \<not> fAllCounters (fSuspendState (sess y)) \<and> \<not> fStop (sess y)"
    using assms(2)
  proof
    assume l: "cpu y = CLoop"
    then have "\<not> IsNested (sess y)" using nested_iff [OF assms(1)] assms(1) by (auto simp: inv_def inv_shape_def)
    then show ?thesis using l assms(3,4)
      by (auto simp: cpu_go_def Run_loop_def Run_inner_def Run_done_def broadcast_def split: if_splits)
  next
    assume "cpu y = CWait"
    then show ?thesis using assms(3,4)
      by (auto simp: cpu_go_def Run_inner_def Run_done_def broadcast_def split: if_splits)
  qed
  then show ?thesis using inv_Run_call(2) [OF assms(1)] assms(2) by blast
qed

text \<open>
  C33: only one thread runs the emulated processor. While a stopper exists that found the session
  suspended, the processor's thread is not in the processor, whatever the two threads do; the user
  interface runs the processor only under such a stopper. When \<open>Run\<close> goes on to the processor, the
  assertions that it makes there hold.
\<close>

theorem one_thread_runs_the_processor:
  assumes "reach y"
  shows "\<not> (cpu_executes y \<and> ui_executes y) \<and> (held y \<longrightarrow> \<not> cpu_executes y) \<and> (ui_executes y \<longrightarrow> held y) \<and>
    (\<forall>y'. (cpu y = CLoop \<or> cpu y = CWait) \<and> cpu_go y = Some y' \<and> cpu y' = CRun Enter [] \<longrightarrow> Run_asserts y')"
proof -
  note i = reach_inv [OF assms]
  have c: "\<not> calling (ui y) \<and> \<not> held y" if "cpu_executes y"
    using running_cpu(2,3) [OF i] executes_cases(1) [OF that] by blast
  have u: "calling (ui y) \<and> held y" if "ui_executes y"
    using executes_cases(2) [OF that] i by (auto simp: inv_def inv_held_def)
  show ?thesis using c u Run_enters_asserts [OF i] by blast
qed

theorem one_thread_runs_the_processor_witness:
  "\<exists>y. run [Inl CpuGo, Inl CpuGo, Inr (UiSuspend kStopOnSysCall), Inl (CpuSchedule SuspendSysCall), Inl (CpuReturn False), Inl CpuGo,
      Inl CpuGo, Inr UiGo, Inr UiCall, Inr UiGo] (start False) = Some y \<and> ui_executes y \<and> held y \<and> \<not> cpu_executes y"
    (is "\<exists>y. ?r = Some y \<and> _ y")
proof -
  have "case ?r of None \<Rightarrow> False | Some y \<Rightarrow> ui_executes y" by code_simp
  then obtain y where y: "?r = Some y" "ui_executes y" by (auto split: option.splits)
  then show ?thesis using one_thread_runs_the_processor [OF run_reach [OF reach.start y(1)]] by blast
qed

section \<open>Requests are answered\<close>

text \<open>
  Steps that a thread takes on its own: going on, returning from the processor when
  \<open>CheckForBreak\<close> says so, and, in a subroutine, the return of the subroutine. No spurious wake-up.
\<close>

inductive progress :: "system \<Rightarrow> system \<Rightarrow> bool" where
  cpu: "cpu_step a y = Some y' \<Longrightarrow> a = CpuGo \<or> a = CpuReturn False \<or> a = CpuSchedule SuspendSubroutineReturn \<Longrightarrow> progress y y'"
| ui: "ui_step UiGo y = Some y' \<Longrightarrow> progress y y'"

lemma progress_inv: "progress y y' \<Longrightarrow> inv y \<Longrightarrow> inv y'"
  by (induction rule: progress.induct) (use inv_cpu_step inv_ui_step in blast)+

lemma progresses_inv: "progress\<^sup>*\<^sup>* y y' \<Longrightarrow> inv y \<Longrightarrow> inv y'"
  by (induction rule: rtranclp_induct) (auto dest: progress_inv)

lemma progress_go: "cpu_go y = Some y' \<Longrightarrow> progress y y'"
  by (rule progress.cpu [where a = CpuGo]) (auto simp: cpu_step_def)

text \<open>What the processor's thread leaves alone.\<close>

definition same_ui :: "system \<Rightarrow> system \<Rightarrow> bool" where
  "same_ui y y' \<longleftrightarrow> ui y' = ui y \<and> holds y' = holds y \<and> fStop (sess y') = fStop (sess y)"

lemma same_ui_trans: "same_ui y y' \<Longrightarrow> same_ui y' y'' \<Longrightarrow> same_ui y y''"
  by (simp add: same_ui_def)

lemma waits_requested:
  assumes "inv y" and "ui y = UWait kStopNow \<or> ui y = UDestroy" and "set_aside (cpu_stack (cpu y)) = 0"
  shows "fSuspendByUIThread (fSuspendState (sess y)) \<noteq> 0"
proof -
  have "waiting (ui y) = 1" "ui_stack (ui y) = []" using assms(2) by (auto simp: waiting_def)
  then have "0 < unat (fSuspendByUIThread (fSuspendState (sess y)))"
    using assms(1,3) by (simp add: inv_def inv_count_def requests_def)
  then show ?thesis by auto
qed

text \<open>From within the processor the thread returns to the loop of \<open>Run\<close>.\<close>

lemma sub_returns:
  assumes "inv y" and "cpu y = CRun Exec (CallCPU old # Sub c n # st)" and "calling (ui y) = False"
  shows "\<exists>y'. progress\<^sup>*\<^sup>* y y' \<and> cpu y' = CRun Exec st \<and> same_ui y y'"
proof -
  let ?c = "(fSuspendState (sess y))\<lparr>fSuspendBySubroutineReturn := True\<rparr>"
  have nest: "IsNested (sess y)" using assms by (auto simp: inv_def inv_shape_def IsNested_def)
  define y1 where "y1 = on_sess (Schedule SuspendSubroutineReturn) y"
  have p1: "progress y y1"
    by (rule progress.cpu [where a = "CpuSchedule SuspendSubroutineReturn"]) (use assms nest in \<open>simp_all add: cpu_step_def y1_def\<close>)
  define y2 where "y2 = y1\<lparr>cpu := CRun Leave (CallCPU old # Sub c n # st)\<rparr>"
  have chk: "CheckForBreak (sess y1)"
    by (simp add: CheckForBreak_def y1_def Schedule_def returned)
  have p2: "progress y1 y2"
    by (rule progress.cpu [where a = "CpuReturn False"]) (use assms chk in \<open>simp_all add: cpu_step_def y1_def y2_def\<close>)
  define y3 where "y3 = y2\<lparr>sess := (sess y2)\<lparr>fState := old\<rparr>, cpu := CRun Back (Sub c n # st)\<rparr>"
  have p3: "progress y2 y3"
    by (rule progress_go) (simp add: cpu_go_def y2_def y3_def CallCPU_leave_def)
  define y4 where "y4 = (broadcast y3)\<lparr>sess := (sess y3)\<lparr>fSuspendState := no_negative (merge_counters c ?c), fNestLevel := n\<rparr>,
    cpu := CRun Exec st\<rparr>"
  have k: "fAllCounters (keep_counters ?c)"
    by (rule returned) (simp add: keep_counters_def)
  have c3: "fSuspendState (sess y3) = ?c" by (simp add: y3_def y2_def y1_def Schedule_def)
  have p4: "progress y3 y4"
    by (rule progress_go) (use c3 k in \<open>simp add: cpu_go_def y3_def y4_def ExecuteSubroutine_back_def Let_def\<close>)
  have "progress\<^sup>*\<^sup>* y y4" 
    by (rule converse_rtranclp_into_rtranclp [OF p1 converse_rtranclp_into_rtranclp [OF p2
          converse_rtranclp_into_rtranclp [OF p3 r_into_rtranclp [of progress, OF p4]]]])
  moreover have "cpu y4 = CRun Exec st" "same_ui y y4"
    by (simp_all add: y4_def y3_def y2_def y1_def same_ui_def broadcast_def Schedule_def)
  ultimately show ?thesis by blast
qed


lemma subs_0: "top_ok False st \<Longrightarrow> subs st = 0 \<Longrightarrow> st = [CallCPU kRunning]"
  by (cases "(False, st)" rule: top_ok.cases) (auto dest: sub_ok_subs)

lemma subs_pos:
  assumes "top_ok False st" and "0 < subs st"
  obtains old c n st' where "st = CallCPU old # Sub c n # st'" "Suc (subs st') = subs st"
proof -
  obtain old st1 where 1: "st = CallCPU old # st1" "sub_ok False st1"
    using assms(1) by (cases "(False, st)" rule: top_ok.cases) auto
  then have "0 < subs st1" using assms(2) by simp
  then obtain c n st' where "st1 = Sub c n # st'" using 1(2) by (cases "(False, st1)" rule: sub_ok.cases) auto
  then show thesis using that 1 by simp
qed

lemma exec_unwinds:
  assumes "inv y" and "cpu y = CRun Exec st" and "\<not> calling (ui y)"
  shows "\<exists>y'. progress\<^sup>*\<^sup>* y y' \<and> cpu y' = CRun Exec [CallCPU kRunning] \<and> same_ui y y'"
  using assms
proof (induction "subs st" arbitrary: y st)
  case 0
  then have "st = [CallCPU kRunning]" by (intro subs_0) (auto simp: inv_def inv_shape_def)
  then show ?case using 0 by (auto simp: same_ui_def)
next
  case (Suc k)
  have "top_ok False st" using Suc.prems by (auto simp: inv_def inv_shape_def)
  moreover have "0 < subs st" using Suc(2) by simp
  ultimately obtain old c n st' where "st = CallCPU old # Sub c n # st'" "Suc (subs st') = subs st"
    by (rule subs_pos)
  then have st: "st = CallCPU old # Sub c n # st'" "k = subs st'" using Suc(2) by simp_all
  obtain z where z: "progress\<^sup>*\<^sup>* y z" "cpu z = CRun Exec st'" "same_ui y z"
    using sub_returns [OF Suc.prems(1) Suc.prems(2) [unfolded st(1)]] Suc.prems(3) by blast
  have "inv z" by (rule progresses_inv [OF z(1) Suc.prems(1)])
  then obtain y' where "progress\<^sup>*\<^sup>* z y'" "cpu y' = CRun Exec [CallCPU kRunning]" "same_ui z y'"
    using Suc.hyps(1) [OF st(2) _ z(2)] Suc.prems(3) z(3) by (auto simp: same_ui_def)
  then show ?case using z(1,3) by (meson rtranclp_trans same_ui_trans)
qed

lemma exec_leaves:
  assumes "inv y" and "cpu y = CRun Exec [CallCPU kRunning]" and "ui y = UWait kStopNow \<or> ui y = UDestroy"
  shows "\<exists>y'. progress\<^sup>*\<^sup>* y y' \<and> cpu y' = CLoop \<and> same_ui y y'"
proof -
  have n: "\<not> IsNested (sess y)" using assms by (auto simp: inv_def inv_shape_def IsNested_def)
  have "fAllCounters (fSuspendState (sess y))" using waits_requested [OF assms(1,3)] assms(2) by (intro counted) simp
  then have "CheckForBreak (sess y)" using n by (simp add: CheckForBreak_def)
  then have "progress y (y\<lparr>cpu := CRun Leave [CallCPU kRunning]\<rparr>)"
    using assms(2) by (intro progress.cpu [where a = "CpuReturn False"]) (simp_all add: cpu_step_def)
  moreover have "progress (y\<lparr>cpu := CRun Leave [CallCPU kRunning]\<rparr>) (y\<lparr>sess := (sess y)\<lparr>fState := kRunning\<rparr>, cpu := CLoop\<rparr>)"
    by (rule progress_go) (simp add: cpu_go_def CallCPU_leave_def)
  moreover have "same_ui y (y\<lparr>sess := (sess y)\<lparr>fState := kRunning\<rparr>, cpu := CLoop\<rparr>)" by (simp add: same_ui_def)
  ultimately show ?thesis by (intro exI conjI) (rule rtranclp.rtrancl_into_rtrancl [OF r_into_rtranclp]; assumption | simp)+
qed

text \<open>Any phase of the processor leads to \<open>Execute\<close>.\<close>

lemma run_reaches_exec:
  assumes "inv y" and "cpu y = CRun p st"
  shows "(\<exists>y' st'. progress\<^sup>*\<^sup>* y y' \<and> cpu y' = CRun Exec st' \<and> same_ui y y') \<or> (\<exists>y'. progress\<^sup>*\<^sup>* y y' \<and> cpu y' = CLoop \<and> same_ui y y')"
proof -
  have enter: "\<exists>z' st'. progress\<^sup>*\<^sup>* z z' \<and> cpu z' = CRun Exec st' \<and> same_ui z z'" if z: "cpu z = CRun Enter s" for z s
  proof -
    have "progress z (z\<lparr>sess := (sess z)\<lparr>fState := kRunning\<rparr>, cpu := CRun Exec (CallCPU (fState (sess z)) # s)\<rparr>)"
      by (rule progress_go) (simp add: cpu_go_def CallCPU_enter_def z)
    then show ?thesis by (intro exI conjI, rule r_into_rtranclp) (auto simp: same_ui_def)
  qed
  have bk: "\<exists>z' st'. progress\<^sup>*\<^sup>* z z' \<and> cpu z' = CRun Exec st' \<and> same_ui z z'"
    if z: "cpu z = CRun Back (Sub c n # s)" for z c n s
  proof -
    obtain again x st' where b: "ExecuteSubroutine_back (sess z) (Sub c n # s) = Some (again, x, st')"
      by (cases "fAllCounters (keep_counters (fSuspendState (sess z)))") (auto simp: ExecuteSubroutine_back_def Let_def)
    define w where "w = (broadcast z)\<lparr>sess := x, cpu := CRun (if again then Enter else Exec) st'\<rparr>"
    have p: "progress z w" by (rule progress_go) (simp add: cpu_go_def z b w_def)
    have "fStop x = fStop (sess z)" using b by (auto elim!: back_cases)
    then have w: "same_ui z w" by (simp add: same_ui_def w_def broadcast_def)
    show ?thesis
    proof (cases again)
      case True
      then have "cpu w = CRun Enter st'" by (simp add: w_def)
      then show ?thesis using enter [of w] p w by (meson converse_rtranclp_into_rtranclp same_ui_trans)
    next
      case False
      then have "cpu w = CRun Exec st'" by (simp add: w_def)
      then show ?thesis using p w by blast
    qed
  qed
  show ?thesis
  proof (cases p)
    case Enter
    then show ?thesis using enter assms(2) by blast
  next
    case Exec
    then show ?thesis using assms(2) by (auto simp: same_ui_def)
  next
    case Back
    then obtain c n s where "st = Sub c n # s" using assms
      by (cases "(False, st)" rule: sub_ok.cases) (auto simp: inv_def inv_shape_def)
    then show ?thesis using bk assms(2) Back by blast
  next
    case Leave
    then obtain old s where st: "st = CallCPU old # s" "sub_ok False s" using assms
      by (cases "(False, st)" rule: top_ok.cases) (auto simp: inv_def inv_shape_def)
    define w where "w = y\<lparr>sess := (sess y)\<lparr>fState := old\<rparr>, cpu := (if s = [] then CLoop else CRun Back s)\<rparr>"
    have p: "progress y w" by (rule progress_go) (simp add: cpu_go_def CallCPU_leave_def w_def assms(2) Leave st(1))
    have su: "same_ui y w" by (simp add: same_ui_def w_def)
    show ?thesis
    proof (cases "s = []")
      case True
      then have "cpu w = CLoop" by (simp add: w_def)
      then show ?thesis using p su by blast
    next
      case False
      then obtain c n s' where "s = Sub c n # s'" using st(2) by (cases "(False, s)" rule: sub_ok.cases) auto
      then have "cpu w = CRun Back (Sub c n # s')" by (simp add: w_def)
      then show ?thesis using bk [of w] p su by (meson converse_rtranclp_into_rtranclp same_ui_trans)
    qed
  qed
qed

text \<open>The user interface's wait can end.\<close>

definition asks :: "system \<Rightarrow> bool" where
  "asks y \<longleftrightarrow> ui y = UWait kStopNow \<or> ui y = UDestroy"

definition settled :: "system \<Rightarrow> bool" where
  "settled y \<longleftrightarrow> (if ui y = UDestroy then fState (sess y) = kStopped else fState (sess y) \<noteq> kRunning)"

definition settles :: "system \<Rightarrow> bool" where
  "settles y \<longleftrightarrow> (\<exists>y'. progress\<^sup>*\<^sup>* y y' \<and> same_ui y y' \<and> settled y')"

lemma settlesI: "progress\<^sup>*\<^sup>* y z \<Longrightarrow> same_ui y z \<Longrightarrow> settles z \<Longrightarrow> settles y"
  unfolding settles_def using rtranclp_trans same_ui_trans by metis

lemma settled_settles: "settled y \<Longrightarrow> settles y"
  by (auto simp: settles_def same_ui_def)

lemma settles_step: "cpu_go y = Some z \<Longrightarrow> same_ui y z \<Longrightarrow> settles z \<Longrightarrow> settles y"
  by (rule settlesI [OF r_into_rtranclp [of progress, OF progress_go]])

lemma asks_fStop: "inv y \<Longrightarrow> asks y \<Longrightarrow> fStop (sess y) \<longleftrightarrow> ui y = UDestroy"
  by (auto simp: inv_def inv_stop_def asks_def)

lemma settles_inner:
  assumes "inv y" and "asks y" and "cpu y = CLoop \<or> cpu y = CWait" and "cpu_go y = Some (Run_inner y)"
  shows "settles y"
proof -
  have st: "cpu_stack (cpu y) = []" "ui_stack (ui y) = []" using assms(2,3) by (auto simp: asks_def)
  then have n: "\<not> IsNested (sess y)" using assms(1) by (auto simp: inv_def inv_shape_def IsNested_def)
  have all: "fAllCounters (fSuspendState (sess y))"
    using waits_requested [OF assms(1)] assms(2) st by (intro counted) (auto simp: asks_def)
  have "same_ui y (Run_inner y) \<and> settled (Run_inner y)"
    using n all asks_fStop [OF assms(1,2)] by (auto simp: same_ui_def settled_def Run_inner_def Run_done_def broadcast_def)
  then show ?thesis using settles_step [OF assms(4)] settled_settles by blast
qed

lemma settles_loop:
  assumes "inv y" and "asks y" and "cpu y = CLoop"
  shows "settles y"
proof (cases "fStop (sess y)")
  case True
  have "cpu_go y = Some (Run_done y)" using True assms(3) by (simp add: cpu_go_def Run_loop_def)
  moreover have "same_ui y (Run_done y) \<and> settled (Run_done y)"
    using True asks_fStop [OF assms(1,2)] by (simp add: same_ui_def settled_def Run_done_def broadcast_def)
  ultimately show ?thesis using settles_step settled_settles by blast
next
  case False
  have "fAllCounters (fSuspendState (sess y))"
    using waits_requested [OF assms(1)] assms(2,3) by (intro counted) (auto simp: asks_def)
  then have "cpu_go y = Some (Run_inner y)" using False assms(3) by (simp add: cpu_go_def Run_loop_def)
  then show ?thesis using settles_inner assms by blast
qed

lemma asks_same: "same_ui y z \<Longrightarrow> asks y \<Longrightarrow> asks z"
  by (simp add: asks_def same_ui_def)

lemma settles_via_loop:
  assumes "inv y" and "asks y" and "progress\<^sup>*\<^sup>* y z" and "cpu z = CLoop" and "same_ui y z"
  shows "settles y"
  using settlesI [OF assms(3,5)] settles_loop [OF progresses_inv [OF assms(3,1)] asks_same [OF assms(5,2)] assms(4)] by blast

lemma settles_exec:
  assumes "inv y" and "asks y" and "cpu y = CRun Exec st"
  shows "settles y"
proof -
  have "\<not> calling (ui y)" using assms(2) by (auto simp: asks_def)
  then obtain z where z: "progress\<^sup>*\<^sup>* y z" "cpu z = CRun Exec [CallCPU kRunning]" "same_ui y z"
    using exec_unwinds [OF assms(1,3)] by blast
  have a: "asks z" by (rule asks_same [OF z(3) assms(2)])
  then obtain w where "progress\<^sup>*\<^sup>* z w" "cpu w = CLoop" "same_ui z w"
    using exec_leaves [OF progresses_inv [OF z(1) assms(1)] z(2)] by (auto simp: asks_def)
  then have "settles z" using settles_via_loop [OF progresses_inv [OF z(1) assms(1)] a] by blast
  then show ?thesis using settlesI [OF z(1,3)] by blast
qed

lemma settles_run:
  assumes "inv y" and "asks y" and "cpu y = CRun p st"
  shows "settles y"
  using run_reaches_exec [OF assms(1,3)]
proof
  assume "\<exists>z st'. progress\<^sup>*\<^sup>* y z \<and> cpu z = CRun Exec st' \<and> same_ui y z"
  then obtain z st' where z: "progress\<^sup>*\<^sup>* y z" "cpu z = CRun Exec st'" "same_ui y z" by blast
  have "settles z" by (rule settles_exec [OF progresses_inv [OF z(1) assms(1)] asks_same [OF z(3) assms(2)] z(2)])
  then show ?thesis using settlesI [OF z(1,3)] by blast
next
  assume "\<exists>z. progress\<^sup>*\<^sup>* y z \<and> cpu z = CLoop \<and> same_ui y z"
  then show ?thesis using settles_via_loop [OF assms(1,2)] by blast
qed

lemma settles_wait:
  assumes "inv y" and "asks y" and "cpu y = CWait"
  shows "settles y"
proof (cases "settled y")
  case False
  have st: "ui_stack (ui y) = []" using assms(2) by (auto simp: asks_def)
  then have n: "\<not> IsNested (sess y)" using assms(1,3) by (auto simp: inv_def inv_shape_def IsNested_def)
  have "fStop (sess y) \<or> fState (sess y) = kRunning"
    using False asks_fStop [OF assms(1,2)] assms(2) by (auto simp: settled_def asks_def)
  then have "cpu_woken y" using n assms(1,3) by (simp add: inv_def inv_woken_def)
  then show ?thesis using settles_inner [OF assms(1,2)] assms(3) by (simp add: cpu_go_def)
qed (rule settled_settles)

lemma settles_dialog:
  assumes "inv y" and "asks y" and "cpu y = CDialog old st"
  shows "settles y"
proof (cases "ui y = UDestroy")
  case True
  then have f: "fStop (sess y)" using asks_fStop [OF assms(1,2)] by blast
  then have "cpu_woken y" using assms(1,3) by (simp add: inv_def inv_woken_def)
  then have g: "cpu_go y = Some ((broadcast (on_sess (\<lambda>s. s\<lparr>fState := old\<rparr>) y))\<lparr>cpu := CRun Exec st\<rparr>)" (is "_ = Some ?z")
    using f assms(3) by (simp add: cpu_go_def)
  have s: "same_ui y ?z" by (simp add: same_ui_def broadcast_def)
  have "settles ?z"
    by (rule settles_exec [OF inv_cpu_go [OF assms(1) g] asks_same [OF s assms(2)]]) simp
  then show ?thesis using settles_step [OF g s] by blast
next
  case False
  then have "settled y" using assms(1,3) by (simp add: settled_def inv_def inv_shape_def)
  then show ?thesis by (rule settled_settles)
qed

lemma asks_settles:
  assumes "inv y" and "asks y"
  shows "settles y"
proof (cases "cpu y")
  case CDone
  then show ?thesis using assms(1) by (intro settled_settles) (simp add: settled_def inv_def inv_shape_def)
qed (use assms settles_loop settles_wait settles_run settles_dialog in blast)+

lemma settled_ends:
  assumes "inv y" and "asks y" and "settled y"
  shows "\<exists>y'. progress y y' \<and> ui y' = UIdle \<and> length (holds y') = length (holds y) + (if ui y = UWait kStopNow then 1 else 0)"
proof (cases "ui y = UDestroy")
  case True
  then have "fState (sess y) = kStopped" "ui_woken y" using assms by (simp_all add: settled_def inv_def inv_woken_def)
  then have "ui_step UiGo y = Some (on_sess (\<lambda>s. s\<lparr>fThread := False\<rparr>) (y\<lparr>ui := UIdle\<rparr>))"
    using True by (simp add: ui_step_def ui_go_def)
  from progress.ui [OF this] show ?thesis by (intro exI conjI) (assumption, simp_all add: True)
next
  case False
  then have u: "ui y = UWait kStopNow" using assms(2) by (simp add: asks_def)
  then have "fState (sess y) \<noteq> kRunning" "ui_woken y" using assms by (simp_all add: settled_def inv_def inv_woken_def)
  then have "ui_step UiGo y = Some (suspend_end kStopNow y)"
    using u by (simp add: ui_step_def ui_go_def suspend_loop_def)
  from progress.ui [OF this] show ?thesis
    by (intro exI conjI) (assumption, simp_all add: u suspend_end_def SuspendThread_end_def SuspendThread_result_def)
qed

text \<open>
  C34: requests are answered. Whatever happened before, a wait of the user interface for the session
  to be suspended at once, or to be destroyed, can end by steps that the threads take on their own:
  the processor's thread leaves the processor, however deep in calls of subroutines it is, suspends
  or stops, and wakes the user interface. After a request to suspend there is one stopper more.
\<close>

theorem requests_are_answered:
  assumes "reach y" and "ui y = UWait kStopNow \<or> ui y = UDestroy"
  shows "\<exists>y'. progress\<^sup>*\<^sup>* y y' \<and> ui y' = UIdle \<and>
    length (holds y') = length (holds y) + (if ui y = UWait kStopNow then 1 else 0)"
proof -
  have i: "inv y" and a: "asks y" using assms reach_inv by (auto simp: asks_def)
  obtain z where z: "progress\<^sup>*\<^sup>* y z" "same_ui y z" "settled z" using asks_settles [OF i a] by (auto simp: settles_def)
  obtain w where "progress z w" "ui w = UIdle" "length (holds w) = length (holds z) + (if ui z = UWait kStopNow then 1 else 0)"
    using settled_ends [OF progresses_inv [OF z(1) i] asks_same [OF z(2) a] z(3)] by blast
  then show ?thesis using z(1,2) by (intro exI [of _ w]) (auto simp: same_ui_def)
qed

theorem requests_are_answered_witness:
  "\<exists>y y'. run [Inl CpuGo, Inl CpuGo, Inl CpuCall, Inl CpuGo, Inr (UiSuspend kStopNow)] (start False) = Some y \<and>
     ui y = UWait kStopNow \<and> progress\<^sup>*\<^sup>* y y' \<and> ui y' = UIdle \<and> length (holds y') = 1"
    (is "\<exists>y y'. ?r = Some y \<and> _ y y'")
proof -
  have "case ?r of None \<Rightarrow> False | Some y \<Rightarrow> ui y = UWait kStopNow \<and> holds y = []" by code_simp
  then obtain y where y: "?r = Some y" "ui y = UWait kStopNow" "holds y = []" by (auto split: option.splits)
  show ?thesis using requests_are_answered [OF run_reach [OF reach.start y(1)]] y by auto
qed

section \<open>Requests that nobody takes back\<close>

text \<open>More is requested than stoppers and waits account for.\<close>

definition surplus :: "system \<Rightarrow> bool" where
  "surplus y \<longleftrightarrow> length (holds y) + waiting (ui y) < requests y"

definition parked :: "system \<Rightarrow> bool" where
  "parked y \<longleftrightarrow> inv y \<and> (cpu y = CDone \<or> cpu y = CWait \<and> surplus y)"

lemma ui_go_keeps_cpu: "ui_go y = Some y' \<Longrightarrow> cpu y' = cpu y"
  by (cases "ui y") (auto simp: ui_go_def suspend_loop_def suspend_wait_def suspend_end_def broadcast_def CallCPU_enter_def
      split: if_splits phase.splits prod.splits)

lemma ui_idle_keeps_cpu: "ui_idle a y = Some y' \<Longrightarrow> cpu y' = cpu y"
  by (cases a) (auto simp: ui_idle_def suspend_loop_def suspend_wait_def suspend_end_def broadcast_def Let_def
      ExecuteSubroutine_begin_def split: if_splits list.splits cpu_pc.splits prod.splits)

lemma ui_keeps_cpu: "ui_step a y = Some y' \<Longrightarrow> cpu y' = cpu y"
  by (cases "ui y") (auto simp: ui_step_def ExecuteSubroutine_begin_def broadcast_def
      dest: ui_go_keeps_cpu ui_idle_keeps_cpu split: if_splits phase.splits ui_act.splits)

lemma parked_cpu:
  assumes "parked y" and "cpu_step a y = Some y'"
  shows "parked y'"
proof -
  have i: "inv y'" using assms inv_cpu_step by (auto simp: parked_def)
  have a: "a = CpuGo" "cpu y = CWait" "surplus y" "cpu_woken y"
    using assms by (auto simp: parked_def cpu_step_def cpu_go_def split: cpu_act.splits if_splits)
  then have r: "y' = Run_inner y" using assms(2) by (simp add: cpu_step_def cpu_go_def)
  have all: "fAllCounters (fSuspendState (sess y))" if "\<not> IsNested (sess y)"
  proof (rule counted)
    have "\<not> calling (ui y)" using nested_iff that assms(1) a(2) by (auto simp: parked_def)
    then have "ui_stack (ui y) = []" by (cases "ui y") auto
    then have "0 < unat (fSuspendByUIThread (fSuspendState (sess y)))" using a(2,3) by (auto simp: surplus_def requests_def)
    then show "fSuspendByUIThread (fSuspendState (sess y)) \<noteq> 0" by auto
  qed
  have "cpu y' = CDone \<or> cpu y' = CWait \<and> surplus y'"
    using all a(3) a(2) unfolding r by (auto simp: Run_inner_def Run_done_def broadcast_def surplus_def requests_def)
  then show ?thesis using i by (simp add: parked_def)
qed

lemma surplus_suspend_end:
  assumes "inv y" and "ui y = UWait how" and "surplus y" 
  shows "surplus (suspend_end how y)"
proof -
  have lt: "how = kStopOnSysCall \<Longrightarrow> requests y < 7" using assms(1,2) by (auto simp: inv_def inv_count_def pending_def)
  note u = requests_inc [OF assms(1) lt]
  show ?thesis using assms(2,3) u
    by (cases how) (auto simp: suspend_end_def SuspendThread_end_def SuspendThread_result_def surplus_def requests_def waiting_def Let_def)
qed

lemma surplus_back:
  assumes "inv y" and "cpu y = CWait" and "ui y = URun Back st" and "ExecuteSubroutine_back (sess y) st = Some (again, s, st')"
    and "surplus y"
  shows "surplus ((broadcast y)\<lparr>sess := s, ui := (if again then URun Enter st' else if st' = [] then UIdle else URun Exec st')\<rparr>)"
  using assms(4)
proof (cases rule: back_cases)
  case (1 old n rest)
  then have "unat (fSuspendByUIThread old) + unat (fSuspendByUIThread (fSuspendState (sess y))) \<le> 7"
    using assms(1,3) by (auto simp: inv_def inv_count_def requests_def)
  from set_aside_merge [OF this] show ?thesis using 1 assms(2,3,5)
    by (simp add: surplus_def requests_def waiting_def broadcast_def)
next
  case (2 old n rest)
  then have "unat (fSuspendByUIThread old) + unat (fSuspendByUIThread (fSuspendState (sess y))) \<le> 7"
    using assms(1,3) by (auto simp: inv_def inv_count_def requests_def)
  from set_aside_merge [OF this] show ?thesis using 2 assms(2,3,5)
    by (auto simp: surplus_def requests_def waiting_def broadcast_def)
qed

lemma surplus_go:
  assumes "inv y" and "cpu y = CWait" and "ui_go y = Some y'" and "surplus y"
  shows "surplus y'"
proof (cases "ui y")
  case (UWait how)
  have "surplus (suspend_wait how y)" using assms(4) UWait by (simp add: surplus_def suspend_wait_def requests_def broadcast_def)
  then show ?thesis using surplus_suspend_end [OF assms(1) UWait assms(4)] assms(3) UWait
    by (auto simp: ui_go_def suspend_loop_def split: if_splits)
next
  case (URun p st)
  show ?thesis
  proof (cases "p = Back")
    case True
    then obtain again s st' where b: "ExecuteSubroutine_back (sess y) st = Some (again, s, st')"
        "y' = (broadcast y)\<lparr>sess := s, ui := (if again then URun Enter st' else if st' = [] then UIdle else URun Exec st')\<rparr>"
      using assms(3) URun by (auto simp: ui_go_def)
    then show ?thesis using surplus_back [OF assms(1,2) _ b(1) assms(4)] URun True by simp
  next
    case False
    then show ?thesis using assms(3,4) URun
      by (cases p) (auto simp: ui_go_def CallCPU_enter_def CallCPU_leave_def surplus_def requests_def waiting_def
          split: list.splits activation.splits)
  qed
next
  case UDestroy
  then show ?thesis using assms(1-4) by (auto simp: ui_go_def surplus_def requests_def waiting_def split: if_splits)
qed (use assms(3) in \<open>simp add: ui_go_def\<close>)

lemma surplus_suspend:
  assumes "inv y" and "ui y = UIdle" and "requests y < 7" and "fThread (sess y)" and "how \<noteq> kStopNone" and "surplus y"
  shows "surplus (suspend_loop how (on_sess (SuspendThread_request how) y))"
proof -
  note u = requests_inc [OF assms(1,3)]
  show ?thesis using assms(2,5,6) u
    by (cases how) (auto simp: suspend_loop_def suspend_wait_def suspend_end_def SuspendThread_request_def SuspendThread_end_def
      SuspendThread_result_def surplus_def requests_def waiting_def broadcast_def Let_def)
qed

lemma surplus_idle:
  assumes "inv y" and "cpu y = CWait" and "ui y = UIdle" and "ui_idle a y = Some y'" and "surplus y"
  shows "surplus y'"
proof (cases a)
  case (UiSuspend how)
  then show ?thesis using surplus_suspend [OF assms(1,3) _ _ _ assms(5)] assms(4,5) by (auto simp: ui_idle_def split: if_splits)
next
  case UiResume
  have "0 < unat (fSuspendByUIThread (fSuspendState (sess y)))" 
    using assms(2,3,5) by (simp add: surplus_def requests_def)
  then have "unat (fSuspendByUIThread (fSuspendState (sess y)) - 1) = unat (fSuspendByUIThread (fSuspendState (sess y))) - 1"
    by (rule unat_dec_4)
  then show ?thesis using assms(2-5) UiResume
    by (auto simp: ui_idle_def ResumeThread_def Let_def surplus_def requests_def broadcast_def split: list.splits)
next
  case UiCall
  then show ?thesis using assms(2-5)
    by (auto simp: ui_idle_def ExecuteSubroutine_begin_def surplus_def requests_def broadcast_def waiting_def no_counters_def split: if_splits)
next
  case UiReset
  then show ?thesis using assms(2-5) by (auto simp: ui_idle_def Reset_threads_def surplus_def requests_def split: if_splits)
next
  case UiDestroy
  have "requests y < 7" using assms(4) UiDestroy by (simp add: ui_idle_def split: if_splits)
  from requests_inc [OF assms(1) this] show ?thesis using assms(2-5) UiDestroy
    by (auto simp: ui_idle_def DestroyThread_request_def surplus_def requests_def broadcast_def waiting_def Let_def split: if_splits)
qed (use assms in \<open>auto simp: ui_idle_def Schedule_def debugger_continues_def SetSuspendState_def surplus_def requests_def broadcast_def
  split: if_splits cpu_pc.splits\<close>)

lemma parked_ui:
  assumes "parked y" and "ui_step a y = Some y'"
  shows "parked y'"
proof (cases "cpu y = CWait")
  case True
  then have i: "inv y" "surplus y" using assms(1) by (simp_all add: parked_def)
  have "surplus y'"
  proof (cases "a = UiGo \<or> ui y = UIdle")
    case True
    then show ?thesis using surplus_go [OF i(1) \<open>cpu y = CWait\<close>] surplus_idle [OF i(1) \<open>cpu y = CWait\<close>] i(2) assms(2)
      by (auto simp: ui_step_def split: if_splits)
  next
    case False
    then obtain st where st: "ui y = URun Exec st" using assms(2)
      by (cases "ui y") (auto simp: ui_step_def split: ui_act.splits phase.splits)
    show ?thesis using False assms(2) st i(2)
      by (cases a) (auto simp: ui_step_def ExecuteSubroutine_begin_def Schedule_def surplus_def requests_def broadcast_def
        waiting_def no_counters_def split: if_splits sched.splits)
  qed
  then show ?thesis using inv_ui_step [OF i(1) assms(2)] ui_keeps_cpu [OF assms(2)] True by (simp add: parked_def)
next
  case False
  then show ?thesis using assms inv_ui_step ui_keeps_cpu by (auto simp: parked_def)
qed

lemma parked_step: "step y y' \<Longrightarrow> parked y \<Longrightarrow> parked y'"
proof (induction rule: step.induct)
  case (spurious_cpu y)
  then show ?case by (auto simp: parked_def inv_defs surplus_def requests_def held_def split: cpu_pc.splits ui_pc.splits)
next
  case (spurious_ui y)
  then show ?case by (auto simp: parked_def inv_defs surplus_def requests_def held_def split: cpu_pc.splits ui_pc.splits)
qed (use parked_cpu parked_ui in blast)+

lemma parked_steps: "step\<^sup>*\<^sup>* y y' \<Longrightarrow> parked y \<Longrightarrow> parked y'"
  by (induction rule: rtranclp_induct) (auto dest: parked_step)


definition frozen_run :: "(cpu_act + ui_act) list" where
  "frozen_run =
     [Inl CpuGo, Inl CpuGo, Inr (UiSuspend kStopNow), Inl CpuCall, Inl CpuGo, Inl CpuDialog, Inr UiGo, Inr UiResume, Inr UiAnswer,
      Inl CpuGo, Inl (CpuSchedule SuspendSubroutineReturn), Inl (CpuReturn False), Inl CpuGo, Inl CpuGo, Inl (CpuReturn False),
      Inl CpuGo, Inl CpuGo]"

lemma frozen_run_parks: "case run frozen_run (start False) of None \<Rightarrow> False
  | Some y \<Rightarrow> cpu y = CWait \<and> ui y = UIdle \<and> holds y = [] \<and> \<not> fStop (sess y) \<and> surplus y"
  by code_simp

text \<open>
  C35: two flaws of stopping a session that is blocked on a dialog. (1) A stopper of \<open>kStopNow\<close>
  that found the dialog succeeds, and the answer to the dialog lets the processor run again under it.
  (2) A request made while a subroutine runs on the processor's thread is set aside in the counters of
  \<open>ExecuteSubroutine\<close> where \<open>ResumeThread\<close> does not see it: when the dialog was within the
  subroutine, the request stays counted though its stopper is gone, and the session is suspended for
  good; no step of either thread ever lets the processor run again.
\<close>

theorem stoppers_and_dialogs:
  "(\<exists>y. reach y \<and> holds y = [(kStopNow, False)] \<and> cpu_executes y) \<and>
   (\<exists>y. reach y \<and> holds y = [] \<and> ui y = UIdle \<and> \<not> fStop (sess y) \<and> cpu y = CWait \<and>
      \<not> (\<exists>y'. step\<^sup>*\<^sup>* y y' \<and> cpu_executes y'))"
proof
  let ?q = "run [Inl CpuGo, Inl CpuGo, Inl CpuCall, Inl CpuGo, Inl CpuDialog, Inr UiAnswer, Inr (UiSuspend kStopNow), Inl CpuGo] (start False)"
  have "case ?q of None \<Rightarrow> False | Some y \<Rightarrow> holds y = [(kStopNow, False)] \<and> cpu_executes y" by code_simp
  then obtain y where "?q = Some y" "holds y = [(kStopNow, False)]" "cpu_executes y" by (auto split: option.splits)
  then show "\<exists>y. reach y \<and> holds y = [(kStopNow, False)] \<and> cpu_executes y" using run_reach [OF reach.start] by blast
next
  obtain y where y: "run frozen_run (start False) = Some y" "cpu y = CWait" "ui y = UIdle" "holds y = []" "\<not> fStop (sess y)" "surplus y"
    using frozen_run_parks by (auto split: option.splits)
  have r: "reach y" by (rule run_reach [OF reach.start y(1)])
  then have "parked y" using reach_inv y by (simp add: parked_def)
  then have "\<not> (\<exists>y'. step\<^sup>*\<^sup>* y y' \<and> cpu_executes y')" using parked_steps by (fastforce simp: parked_def cpu_executes_def)
  then show "\<exists>y. reach y \<and> holds y = [] \<and> ui y = UIdle \<and> \<not> fStop (sess y) \<and> cpu y = CWait \<and> \<not> (\<exists>y'. step\<^sup>*\<^sup>* y y' \<and> cpu_executes y')"
    using r y(2-5) by blast
qed

end
