(* ===== verification/StreamValues.thy ===== *)
theory StreamValues
  imports ChunkFile "HOL-Library.Monad_Syntax"
begin

text \<open>
  Values on a stream (\<open>EmStream.cpp\<close>): the operators that write and read numbers and strings, on
  top of \<open>PutBytes\<close> and \<open>GetBytes\<close> of any stream. Numbers are stored with the high byte first.

  The operators ignore the error codes. A variable whose bytes were not all read has no specified
  value; the readers are \<open>None\<close> then, and also where the code accesses memory outside of a buffer.
\<close>

section \<open>Numbers\<close>

definition put_bytes :: "'s stream_ops \<Rightarrow> uint8 list \<Rightarrow> 's \<Rightarrow> 's option" where
  "put_bytes ops bs s = map_option snd (PutBytes ops bs s)"

definition get_bytes :: "'s stream_ops \<Rightarrow> int \<Rightarrow> 's \<Rightarrow> (uint8 list \<times> 's) option" where
  "get_bytes ops n s = do {
     (_, bs, s) \<leftarrow> GetBytes ops n s;
     if int (length bs) = n then Some (bs, s) else None }"

text \<open>The bytes of a number in the memory of the host, and \<open>Canonical\<close> for the narrower types.\<close>

definition host_short :: "uint16 \<Rightarrow> uint8 list" where
  "host_short v = [ucast v, ucast (drop_bit 8 v)]"

fun short_at :: "uint8 list \<Rightarrow> uint16 option" where
  "short_at (b0 # b1 # _) = Some (be16 b1 b0)"
| "short_at _ = None"

definition Canonical_16 :: "uint16 \<Rightarrow> uint16" where
  "Canonical_16 v = BYTE_SWAP_16 v"

definition Canonical_8 :: "uint8 \<Rightarrow> uint8" where
  "Canonical_8 v = v"

definition put_uint8 :: "'s stream_ops \<Rightarrow> uint8 \<Rightarrow> 's \<Rightarrow> 's option" where
  "put_uint8 ops v s = put_bytes ops [Canonical_8 v] s"

definition put_uint16 :: "'s stream_ops \<Rightarrow> uint16 \<Rightarrow> 's \<Rightarrow> 's option" where
  "put_uint16 ops v s = put_bytes ops (host_short (Canonical_16 v)) s"

definition put_uint32 :: "'s stream_ops \<Rightarrow> uint32 \<Rightarrow> 's \<Rightarrow> 's option" where
  "put_uint32 ops v s = put_bytes ops (host_long (Canonical v)) s"

definition get_uint8 :: "'s stream_ops \<Rightarrow> 's \<Rightarrow> (uint8 \<times> 's) option" where
  "get_uint8 ops s = do { (bs, s) \<leftarrow> get_bytes ops 1 s; Some (Canonical_8 (hd bs), s) }"

definition get_uint16 :: "'s stream_ops \<Rightarrow> 's \<Rightarrow> (uint16 \<times> 's) option" where
  "get_uint16 ops s = do { (bs, s) \<leftarrow> get_bytes ops 2 s; v \<leftarrow> short_at bs; Some (Canonical_16 v, s) }"

definition get_uint32 :: "'s stream_ops \<Rightarrow> 's \<Rightarrow> (uint32 \<times> 's) option" where
  "get_uint32 ops s = do { (bs, s) \<leftarrow> get_bytes ops 4 s; v \<leftarrow> long_at bs; Some (Canonical v, s) }"

text \<open>Truth values take a byte.\<close>

definition put_bool :: "'s stream_ops \<Rightarrow> bool \<Rightarrow> 's \<Rightarrow> 's option" where
  "put_bool ops v s = put_bytes ops [if v then 1 else 0] s"

definition get_bool :: "'s stream_ops \<Rightarrow> 's \<Rightarrow> (bool \<times> 's) option" where
  "get_bool ops s = do { (bs, s) \<leftarrow> get_bytes ops 1 s; Some (hd bs \<noteq> 0, s) }"

text \<open>\<open>PeekData\<close> reads without moving the marker; the bytes that were read are its result.\<close>

definition PeekData :: "'s stream_ops \<Rightarrow> int \<Rightarrow> 's \<Rightarrow> (uint8 list \<times> 's) option" where
  "PeekData ops n s =
     (let currentMarker = GetMarker ops s
      in do { (_, bs, s) \<leftarrow> GetBytes ops n s; Some (bs, SetMarker ops currentMarker kStreamFromStart s) })"

section \<open>Strings\<close>

text \<open>
  A string in memory is the list of its bytes; what a C function sees of it ends at the first zero.
  A length that is negative when it is read makes \<open>resize\<close> throw and the C reader write outside of
  its buffer (\<open>None\<close>). \<open>ReadCString\<close> takes the buffer, and the results are numbers of bytes.
\<close>

definition c_str :: "uint8 list \<Rightarrow> uint8 list" where
  "c_str s = takeWhile (\<lambda>b. b \<noteq> 0) s"

definition WriteCString :: "'s stream_ops \<Rightarrow> uint8 list \<Rightarrow> 's \<Rightarrow> (int \<times> 's) option" where
  "WriteCString ops inString s =
     (let strLen = int (length (c_str inString))
      in do { s \<leftarrow> put_uint32 ops (of_int strLen) s; s \<leftarrow> put_bytes ops (c_str inString) s; Some (strLen + 4, s) })"

definition ReadCString :: "'s stream_ops \<Rightarrow> uint8 list \<Rightarrow> 's \<Rightarrow> (int \<times> uint8 list \<times> 's) option" where
  "ReadCString ops outString s = do {
     (strLen, s) \<leftarrow> get_uint32 ops s;
     (_, bs, s) \<leftarrow> GetBytes ops (sint strLen) s;
     buf \<leftarrow> copy_in outString 0 bs;
     buf \<leftarrow> copy_in buf (sint strLen) [0];
     Some (sint strLen + 4, buf, s) }"

definition EmStream_WriteString :: "'s stream_ops \<Rightarrow> uint8 list \<Rightarrow> 's \<Rightarrow> (int \<times> 's) option" where
  "EmStream_WriteString ops inString s = WriteCString ops inString s"

text \<open>\<open>resize\<close> fills with zeros, which stay where the stream ends early.\<close>

definition EmStream_ReadString :: "'s stream_ops \<Rightarrow> 's \<Rightarrow> (int \<times> uint8 list \<times> 's) option" where
  "EmStream_ReadString ops s = do {
     (strLen, s) \<leftarrow> get_uint32 ops s;
     if sint strLen < 0 then None
     else if sint strLen = 0 then Some (4, [], s)
     else do {
       (_, bs, s) \<leftarrow> GetBytes ops (sint strLen) s;
       Some (sint strLen + 4, bs @ replicate (nat (sint strLen) - length bs) 0, s) } }"

section \<open>Values that can be flattened\<close>

text \<open>
  The contract of a pair of operators: writing a value at the end of a stream appends its bytes, and
  reading at such bytes yields the value.
\<close>

locale flattened = rw_stream ops ok content pos
  for ops :: "'s stream_ops" and ok content pos +
  fixes flat :: "'v \<Rightarrow> uint8 list"
    and good :: "'v \<Rightarrow> bool"
    and put :: "'v \<Rightarrow> 's \<Rightarrow> 's option"
    and get :: "'s \<Rightarrow> ('v \<times> 's) option"
  assumes flat_put: "ok s \<Longrightarrow> good v \<Longrightarrow> pos s = length (content s) \<Longrightarrow>
      \<exists>s'. put v s = Some s' \<and> ok s' \<and> content s' = content s @ flat v \<and> pos s' = length (content s')"
    and flat_get: "ok s \<Longrightarrow> good v \<Longrightarrow> drop (pos s) (content s) = flat v @ rest \<Longrightarrow>
      \<exists>s'. get s = Some (v, s') \<and> ok s' \<and> content s' = content s \<and> pos s' = pos s + length (flat v)"

context rw_stream
begin

lemma put_bytes_end: "ok s \<Longrightarrow> pos s = length (content s) \<Longrightarrow>
    \<exists>s'. put_bytes ops bs s = Some s' \<and> ok s' \<and> content s' = content s @ bs \<and> pos s' = length (content s')"
  using put_law [of s bs] by (auto simp: put_bytes_def)

lemma get_bytes_here:
  assumes "ok s" and "drop (pos s) (content s) = bs @ rest" and "n = int (length bs)"
  shows "\<exists>s'. get_bytes ops n s = Some (bs, s') \<and> ok s' \<and> content s' = content s \<and> pos s' = pos s + length bs"
proof -
  have "length (drop (pos s) (content s)) = length bs + length rest" using assms(2) by simp
  then have "pos s + length bs \<le> length (content s)" using pos_law [OF assms(1)] by simp
  from get_law [OF assms(1) this] show ?thesis using assms(2,3) by (auto simp: get_bytes_def)
qed

end

lemma short_at_host_short: "short_at (host_short v) = Some v"
  by (simp add: host_short_def be16_of_bytes)

lemma BYTE_SWAP_16_invol: "BYTE_SWAP_16 (BYTE_SWAP_16 v) = v"
proof (rule bit_word_eqI)
  fix n
  assume "n < LENGTH(16)"
  then consider "n < 8" | "8 \<le> n" "n < 16" by force
  then show "bit (BYTE_SWAP_16 (BYTE_SWAP_16 v)) n = bit v n"
    unfolding BYTE_SWAP_16_def by cases (auto simp: bit_simps dest: bit_imp_le_length)
qed

lemma Canonical_16_invol: "Canonical_16 (Canonical_16 v) = v"
  by (simp add: Canonical_16_def BYTE_SWAP_16_invol)

sublocale rw_stream \<subseteq> u8: flattened ops ok content pos "\<lambda>v. [v]" "\<lambda>_. True" "put_uint8 ops" "get_uint8 ops"
proof
  fix s and v :: uint8 and rest
  assume s: "ok s"
  show "\<exists>s'. put_uint8 ops v s = Some s' \<and> ok s' \<and> content s' = content s @ [v] \<and> pos s' = length (content s')"
    if "pos s = length (content s)"
    using put_bytes_end [OF s that, of "[v]"] by (simp add: put_uint8_def Canonical_8_def)
  show "\<exists>s'. get_uint8 ops s = Some (v, s') \<and> ok s' \<and> content s' = content s \<and> pos s' = pos s + length [v]"
    if "drop (pos s) (content s) = [v] @ rest"
    using get_bytes_here [OF s that, of 1] by (auto simp: get_uint8_def Canonical_8_def)
qed

sublocale rw_stream \<subseteq> u16: flattened ops ok content pos "\<lambda>v. host_short (Canonical_16 v)" "\<lambda>_. True" "put_uint16 ops" "get_uint16 ops"
proof
  fix s and v :: uint16 and rest
  assume s: "ok s"
  show "\<exists>s'. put_uint16 ops v s = Some s' \<and> ok s' \<and> content s' = content s @ host_short (Canonical_16 v) \<and> pos s' = length (content s')"
    if "pos s = length (content s)"
    using put_bytes_end [OF s that] by (simp add: put_uint16_def)
  show "\<exists>s'. get_uint16 ops s = Some (v, s') \<and> ok s' \<and> content s' = content s \<and> pos s' = pos s + length (host_short (Canonical_16 v))"
    if "drop (pos s) (content s) = host_short (Canonical_16 v) @ rest"
  proof -
    have l: "length (host_short (Canonical_16 v)) = 2" by (simp add: host_short_def)
    from get_bytes_here [OF s that, of 2] show ?thesis unfolding l
      by (auto simp: get_uint16_def Canonical_16_invol short_at_host_short)
  qed
qed

sublocale rw_stream \<subseteq> u32: flattened ops ok content pos "\<lambda>v. host_long (Canonical v)" "\<lambda>_. True" "put_uint32 ops" "get_uint32 ops"
proof
  fix s and v :: uint32 and rest
  assume s: "ok s"
  show "\<exists>s'. put_uint32 ops v s = Some s' \<and> ok s' \<and> content s' = content s @ host_long (Canonical v) \<and> pos s' = length (content s')"
    if "pos s = length (content s)"
    using put_bytes_end [OF s that] by (simp add: put_uint32_def)
  show "\<exists>s'. get_uint32 ops s = Some (v, s') \<and> ok s' \<and> content s' = content s \<and> pos s' = pos s + length (host_long (Canonical v))"
    if "drop (pos s) (content s) = host_long (Canonical v) @ rest"
    using get_bytes_here [OF s that, of 4] by (auto simp: get_uint32_def)
qed

text \<open>Strings without a zero, of a length that an \<open>int32\<close> can say.\<close>

definition string_flat :: "uint8 list \<Rightarrow> uint8 list" where
  "string_flat x = host_long (Canonical (of_nat (length x))) @ x"

definition string_good :: "uint8 list \<Rightarrow> bool" where
  "string_good x \<longleftrightarrow> 0 \<notin> set x \<and> length x < 2 ^ 31"

lemma c_str_good: "string_good x \<Longrightarrow> c_str x = x"
  by (auto simp: c_str_def string_good_def takeWhile_eq_all_conv)

sublocale rw_stream \<subseteq> str: flattened ops ok content pos string_flat string_good "\<lambda>x s. map_option snd (EmStream_WriteString ops x s)"
    "\<lambda>s. map_option snd (EmStream_ReadString ops s)"
proof
  fix s and v :: "uint8 list" and rest
  assume s: "ok s" and v: "string_good v"
  show "\<exists>s'. map_option snd (EmStream_WriteString ops v s) = Some s' \<and> ok s' \<and> content s' = content s @ string_flat v \<and> pos s' = length (content s')"
    if e: "pos s = length (content s)"
  proof -
    obtain t where t: "put_uint32 ops (of_nat (length v)) s = Some t" "ok t" "pos t = length (content t)"
      "content t = content s @ host_long (Canonical (of_nat (length v)))"
      using u32.flat_put [OF s TrueI e] by blast
    from put_bytes_end [OF t(2,3), of v] show ?thesis
      using t by (auto simp: EmStream_WriteString_def WriteCString_def c_str_good [OF v] string_flat_def)
  qed
  show "\<exists>s'. map_option snd (EmStream_ReadString ops s) = Some (v, s') \<and> ok s' \<and> content s' = content s \<and>
      pos s' = pos s + length (string_flat v)"
    if d: "drop (pos s) (content s) = string_flat v @ rest"
  proof -
    let ?n = "of_nat (length v) :: uint32"
    have n: "sint ?n = int (length v)" using v by (intro sint_length) (simp add: string_good_def)
    obtain t where t: "get_uint32 ops s = Some (?n, t)" "ok t" "content t = content s" "pos t = pos s + 4"
      using u32.flat_get [OF s TrueI, of ?n "v @ rest"] d by (auto simp: string_flat_def)
    have "drop (pos t) (content t) = drop 4 (drop (pos s) (content s))" using t by (simp add: add.commute)
    then have dt: "drop (pos t) (content t) = v @ rest" using d by (simp add: string_flat_def)
    have "length (drop (pos t) (content t)) = length v + length rest" using dt by simp
    then have "pos t + length v \<le> length (content t)" using pos_law [OF t(2)] by simp
    from get_law [OF t(2) this] obtain u where
      u: "GetBytes ops (int (length v)) t = Some (0, v, u)" "ok u" "content u = content t" "pos u = pos t + length v"
      using dt by auto
    show ?thesis
    proof (cases "v = []")
      case True
      then show ?thesis using t n by (simp add: EmStream_ReadString_def string_flat_def)
    next
      case False
      then show ?thesis using t u n by (simp add: EmStream_ReadString_def string_flat_def)
    qed
  qed
qed

end
