(* ===== verification/EventPlayback.thy ===== *)
theory EventPlayback
  imports StreamValues
begin

text \<open>
  The events that a gremlin posts to the emulated system, recorded so that they can be replayed
  (\<open>EmEventPlayback.cpp\<close>): their form on a stream, the recorded list with its mask, and replaying,
  which goes through the list and leaves out what the mask disables.

  The list of events is a chunk of bytes, as in the code. A failing assertion, a read behind the end of
  the mask or of the stream, and a loop that does not return are \<open>None\<close>.
\<close>

section \<open>Events\<close>

text \<open>The type and the union of \<open>EmRecordedEvent\<close>; coordinates are signed words of 16 bits.\<close>

datatype EmRecordedEvent =
    kRecordedUnknownEvent
  | kRecordedKeyEvent uint16 uint16 uint16
  | kRecordedPenEvent uint16 uint16
  | kRecordedAppSwitchEvent uint16 uint32 uint16 uint32
  | kRecordedNullEvent
  | kRecordedErrorEvent

definition kStoredKeyEvent :: uint8 where "kStoredKeyEvent = 0"
definition kStoredKeyEventCompressed :: uint8 where "kStoredKeyEventCompressed = 1"
definition kStoredPenEvent :: uint8 where "kStoredPenEvent = 2"
definition kStoredPenEventCompressedUp :: uint8 where "kStoredPenEventCompressedUp = 3"
definition kStoredPenEventCompressedX :: uint8 where "kStoredPenEventCompressedX = 4"
definition kStoredPenEventCompressedY :: uint8 where "kStoredPenEventCompressedY = 5"
definition kStoredPenEventCompressedXY :: uint8 where "kStoredPenEventCompressedXY = 6"
definition kStoredAppSwitchEvent :: uint8 where "kStoredAppSwitchEvent = 7"
definition kStoredNullEvent :: uint8 where "kStoredNullEvent = 9"
definition kStoredErrorEvent :: uint8 where "kStoredErrorEvent = 11"

lemmas stored_types = kStoredKeyEvent_def kStoredKeyEventCompressed_def kStoredPenEvent_def kStoredPenEventCompressedUp_def
  kStoredPenEventCompressedX_def kStoredPenEventCompressedY_def kStoredPenEventCompressedXY_def kStoredAppSwitchEvent_def
  kStoredNullEvent_def kStoredErrorEvent_def

fun PrvIsPenEvent :: "EmRecordedEvent \<Rightarrow> bool" where
  "PrvIsPenEvent (kRecordedPenEvent x y) \<longleftrightarrow> True"
| "PrvIsPenEvent _ \<longleftrightarrow> False"

fun PrvIsPenUp :: "EmRecordedEvent \<Rightarrow> bool" where
  "PrvIsPenUp (kRecordedPenEvent x y) \<longleftrightarrow> x = - 1 \<and> y = - 1"
| "PrvIsPenUp _ \<longleftrightarrow> False"

definition PrvIsPenDown :: "EmRecordedEvent \<Rightarrow> bool" where
  "PrvIsPenDown e \<longleftrightarrow> PrvIsPenEvent e \<and> \<not> PrvIsPenUp e"

section \<open>Events on a stream\<close>

text \<open>The fourth case of pen events, a large x and a small y, writes the type of the third.\<close>

fun put_event :: "'s stream_ops \<Rightarrow> EmRecordedEvent \<Rightarrow> 's \<Rightarrow> 's option" where
  "put_event ops (kRecordedKeyEvent ascii keycode modifiers) s =
     (if ascii < 256 \<and> keycode = 0 \<and> modifiers = 0
      then do { s \<leftarrow> put_uint8 ops kStoredKeyEventCompressed s; put_uint8 ops (ucast ascii) s }
      else do { s \<leftarrow> put_uint8 ops kStoredKeyEvent s; s \<leftarrow> put_uint16 ops ascii s; s \<leftarrow> put_uint16 ops keycode s;
                put_uint16 ops modifiers s })"
| "put_event ops (kRecordedPenEvent x y) s =
     (if sint x < 0 \<and> sint y < 0
      then put_uint8 ops kStoredPenEventCompressedUp s
      else if sint x < 256 \<and> sint y < 256
      then do { s \<leftarrow> put_uint8 ops kStoredPenEventCompressedXY s; s \<leftarrow> put_uint8 ops (ucast x) s; put_uint8 ops (ucast y) s }
      else if sint x < 256
      then do { s \<leftarrow> put_uint8 ops kStoredPenEventCompressedX s; s \<leftarrow> put_uint8 ops (ucast x) s; put_uint16 ops y s }
      else if sint y < 256
      then do { s \<leftarrow> put_uint8 ops kStoredPenEventCompressedX s; s \<leftarrow> put_uint16 ops x s; put_uint8 ops (ucast y) s }
      else do { s \<leftarrow> put_uint8 ops kStoredPenEvent s; s \<leftarrow> put_uint16 ops x s; put_uint16 ops y s })"
| "put_event ops (kRecordedAppSwitchEvent cardNo dbID oldCardNo oldDbID) s =
     do { s \<leftarrow> put_uint8 ops kStoredAppSwitchEvent s; s \<leftarrow> put_uint16 ops cardNo s; s \<leftarrow> put_uint32 ops dbID s;
          s \<leftarrow> put_uint16 ops oldCardNo s; put_uint32 ops oldDbID s }"
| "put_event ops kRecordedNullEvent s = put_uint8 ops kStoredNullEvent s"
| "put_event ops kRecordedErrorEvent s = put_uint8 ops kStoredErrorEvent s"
| "put_event ops kRecordedUnknownEvent s = None"

definition get_event :: "'s stream_ops \<Rightarrow> 's \<Rightarrow> (EmRecordedEvent \<times> 's) option" where
  "get_event ops s = do {
     (storedType, s) \<leftarrow> get_uint8 ops s;
     if storedType = kStoredKeyEvent
     then do { (a, s) \<leftarrow> get_uint16 ops s; (k, s) \<leftarrow> get_uint16 ops s; (m, s) \<leftarrow> get_uint16 ops s;
               Some (kRecordedKeyEvent a k m, s) }
     else if storedType = kStoredKeyEventCompressed
     then do { (a, s) \<leftarrow> get_uint8 ops s; Some (kRecordedKeyEvent (ucast a) 0 0, s) }
     else if storedType = kStoredPenEvent
     then do { (x, s) \<leftarrow> get_uint16 ops s; (y, s) \<leftarrow> get_uint16 ops s; Some (kRecordedPenEvent x y, s) }
     else if storedType = kStoredPenEventCompressedUp
     then Some (kRecordedPenEvent (- 1) (- 1), s)
     else if storedType = kStoredPenEventCompressedX
     then do { (x, s) \<leftarrow> get_uint8 ops s; (y, s) \<leftarrow> get_uint16 ops s; Some (kRecordedPenEvent (ucast x) y, s) }
     else if storedType = kStoredPenEventCompressedY
     then do { (x, s) \<leftarrow> get_uint16 ops s; (y, s) \<leftarrow> get_uint8 ops s; Some (kRecordedPenEvent x (ucast y), s) }
     else if storedType = kStoredPenEventCompressedXY
     then do { (x, s) \<leftarrow> get_uint8 ops s; (y, s) \<leftarrow> get_uint8 ops s; Some (kRecordedPenEvent (ucast x) (ucast y), s) }
     else if storedType = kStoredAppSwitchEvent
     then do { (c, s) \<leftarrow> get_uint16 ops s; (d, s) \<leftarrow> get_uint32 ops s; (oc, s) \<leftarrow> get_uint16 ops s; (od, s) \<leftarrow> get_uint32 ops s;
               Some (kRecordedAppSwitchEvent c d oc od, s) }
     else if storedType = kStoredNullEvent then Some (kRecordedNullEvent, s)
     else if storedType = kStoredErrorEvent then Some (kRecordedErrorEvent, s)
     else None }"

text \<open>A chunk on a stream is its length and its bytes.\<close>

definition put_chunk :: "'s stream_ops \<Rightarrow> Chunk \<Rightarrow> 's \<Rightarrow> 's option" where
  "put_chunk ops c s = do {
     s \<leftarrow> put_uint32 ops (of_int (fUsedSize c)) s; bs \<leftarrow> copy_out (fPtr c) 0 (fUsedSize c); put_bytes ops bs s }"

definition get_chunk :: "'s stream_ops \<Rightarrow> Chunk \<Rightarrow> 's \<Rightarrow> (Chunk \<times> 's) option" where
  "get_chunk ops c s = do {
     (len, s) \<leftarrow> get_uint32 ops s;
     (_, bs, s) \<leftarrow> GetBytes ops (sint len) s;
     let c = Chunk_SetLength (sint len) c;
     m \<leftarrow> copy_in (fPtr c) 0 bs;
     Some (c\<lparr>fPtr := m\<rparr>, s) }"

section \<open>The recorded events\<close>

record EmIterationState =
  fIndex :: int
  fOffset :: int
  fPenIsDown :: bool

definition EmIterationState_new :: EmIterationState where
  "EmIterationState_new = \<lparr>fIndex = 0, fOffset = 0, fPenIsDown = False\<rparr>"

record EmEventPlayback =
  fgEvents :: Chunk
  fgMask :: "bool list"
  fgRecording :: bool
  fgReplaying :: bool
  fgIterationState :: EmIterationState
  fgPrevIterationState :: EmIterationState

definition ResetPlayback :: "'z EmEventPlayback_scheme \<Rightarrow> 'z EmEventPlayback_scheme" where
  "ResetPlayback p = p\<lparr>fgIterationState := EmIterationState_new,
     fgPrevIterationState := (fgPrevIterationState p)\<lparr>fOffset := - 1\<rparr>\<rparr>"

definition Playback_Reset :: "'z EmEventPlayback_scheme \<Rightarrow> 'z EmEventPlayback_scheme" where
  "Playback_Reset p = ResetPlayback (p\<lparr>fgRecording := False, fgReplaying := False\<rparr>)"

definition Playback_Clear :: "'z EmEventPlayback_scheme \<Rightarrow> 'z EmEventPlayback_scheme" where
  "Playback_Clear p = ResetPlayback (p\<lparr>fgEvents := Chunk_SetLength 0 (fgEvents p), fgMask := [], fgRecording := False,
     fgReplaying := False\<rparr>)"

text \<open>Recording.\<close>

definition RecordEvents :: "bool \<Rightarrow> 'z EmEventPlayback_scheme \<Rightarrow> 'z EmEventPlayback_scheme" where
  "RecordEvents record_them p = p\<lparr>fgRecording := record_them\<rparr>"

definition RecordEvent :: "EmRecordedEvent \<Rightarrow> 'z EmEventPlayback_scheme \<Rightarrow> 'z EmEventPlayback_scheme option" where
  "RecordEvent e p =
     (if fgRecording p
      then do { s \<leftarrow> put_event chunk_stream e (EmStream_SetMarker 0 kStreamFromEnd (EmStreamChunk_new (fgEvents p)));
                Some (p\<lparr>fgEvents := fChunk s, fgMask := fgMask p @ [True]\<rparr>) }
      else Some p)"

definition RecordKeyEvent :: "uint16 \<Rightarrow> uint16 \<Rightarrow> uint16 \<Rightarrow> 'z EmEventPlayback_scheme \<Rightarrow> 'z EmEventPlayback_scheme option" where
  "RecordKeyEvent ascii keycode modifiers = RecordEvent (kRecordedKeyEvent ascii keycode modifiers)"

definition RecordPenEvent :: "uint16 \<times> uint16 \<Rightarrow> 'z EmEventPlayback_scheme \<Rightarrow> 'z EmEventPlayback_scheme option" where
  "RecordPenEvent = (\<lambda>(x, y) p.
     if (x = - 1 \<and> y = - 1) \<or> (0 \<le> sint x \<and> 0 \<le> sint y) then RecordEvent (kRecordedPenEvent x y) p else None)"

definition RecordSwitchEvent :: "uint16 \<Rightarrow> uint32 \<Rightarrow> uint16 \<Rightarrow> uint32 \<Rightarrow> 'z EmEventPlayback_scheme \<Rightarrow> 'z EmEventPlayback_scheme option" where
  "RecordSwitchEvent cardNo dbID oldCardNo oldDbID = RecordEvent (kRecordedAppSwitchEvent cardNo dbID oldCardNo oldDbID)"

definition RecordNullEvent :: "'z EmEventPlayback_scheme \<Rightarrow> 'z EmEventPlayback_scheme option" where
  "RecordNullEvent = RecordEvent kRecordedNullEvent"

definition RecordErrorEvent :: "'z EmEventPlayback_scheme \<Rightarrow> 'z EmEventPlayback_scheme option" where
  "RecordErrorEvent = RecordEvent kRecordedErrorEvent"

text \<open>Counting, finding and masking.\<close>

definition GetCurrentEvent :: "'z EmEventPlayback_scheme \<Rightarrow> int" where
  "GetCurrentEvent p = fIndex (fgIterationState p)"

definition GetNumEvents :: "'z EmEventPlayback_scheme \<Rightarrow> int" where
  "GetNumEvents p = int (length (fgMask p))"

partial_function (option) count_loop :: "EmStreamChunk \<Rightarrow> int \<Rightarrow> int option" where
  "count_loop s n =
     (if mMarker s < mLength s then do { (_, s) \<leftarrow> get_event chunk_stream s; count_loop s (n + 1) } else Some n)"

declare count_loop.simps [code]

definition CountNumEvents :: "'z EmEventPlayback_scheme \<Rightarrow> int option" where
  "CountNumEvents p = count_loop (EmStreamChunk_new (fgEvents p)) 0"

partial_function (option) error_loop :: "EmStreamChunk \<Rightarrow> int \<Rightarrow> int option" where
  "error_loop s n =
     (if mMarker s < mLength s
      then do { (e, s) \<leftarrow> get_event chunk_stream s; if e = kRecordedErrorEvent then Some n else error_loop s (n + 1) }
      else Some (- 1))"

declare error_loop.simps [code]

definition Playback_FindFirstError :: "'z EmEventPlayback_scheme \<Rightarrow> int option" where
  "Playback_FindFirstError p = error_loop (EmStreamChunk_new (fgEvents p)) 0"

text \<open>\<open>GetEvent\<close> reads one event more than its index says, or up to the end.\<close>

fun event_loop :: "nat \<Rightarrow> EmStreamChunk \<Rightarrow> EmRecordedEvent \<Rightarrow> EmRecordedEvent option" where
  "event_loop 0 s e = Some e"
| "event_loop (Suc n) s e =
     (if mMarker s < mLength s then do { (e, s) \<leftarrow> get_event chunk_stream s; event_loop n s e } else Some e)"

definition GetEvent :: "int \<Rightarrow> EmRecordedEvent \<Rightarrow> 'z EmEventPlayback_scheme \<Rightarrow> EmRecordedEvent option" where
  "GetEvent index e p = event_loop (nat (index + 1)) (EmStreamChunk_new (fgEvents p)) e"

definition mask_loop :: "bool \<Rightarrow> int \<Rightarrow> int \<Rightarrow> bool list \<Rightarrow> bool list" where
  "mask_loop v begin0 end0 m = fold (\<lambda>ii m. m[ii := v]) [nat begin0..<nat end0] m"

definition LONG_MAX :: int where
  "LONG_MAX = 2 ^ 31 - 1"

definition EnableEvents :: "int \<Rightarrow> int \<Rightarrow> 'z EmEventPlayback_scheme \<Rightarrow> 'z EmEventPlayback_scheme" where
  "EnableEvents begin0 end0 p =
     (let begin0 = (if begin0 < 0 then 0 else begin0);
          end0 = (if end0 > int (length (fgMask p)) then int (length (fgMask p)) else end0)
      in p\<lparr>fgMask := mask_loop True begin0 end0 (fgMask p)\<rparr>)"

definition DisableEvents :: "int \<Rightarrow> int \<Rightarrow> 'z EmEventPlayback_scheme \<Rightarrow> 'z EmEventPlayback_scheme" where
  "DisableEvents begin0 end0 p =
     (let begin0 = (if begin0 < 0 then 0 else begin0);
          end0 = (if end0 > int (length (fgMask p)) then int (length (fgMask p)) else end0)
      in p\<lparr>fgMask := mask_loop False begin0 end0 (fgMask p)\<rparr>)"

section \<open>Replaying\<close>

definition ReplayEvents :: "bool \<Rightarrow> 'z EmEventPlayback_scheme \<Rightarrow> 'z EmEventPlayback_scheme" where
  "ReplayEvents replay p = (let p = p\<lparr>fgReplaying := replay\<rparr> in if replay then ResetPlayback p else p)"

text \<open>The event that is returned, or none when the list is exhausted.\<close>

partial_function (option) replay_loop ::
    "EmStreamChunk \<Rightarrow> 'z EmEventPlayback_scheme \<Rightarrow> (EmRecordedEvent option \<times> 'z EmEventPlayback_scheme) option" where
  "replay_loop s p =
     (if mMarker s < mLength s
      then do {
        (e, s) \<leftarrow> get_event chunk_stream s;
        let i = fIndex (fgIterationState p);
        if 0 \<le> i \<and> i < int (length (fgMask p))
        then (let eventEnabled = fgMask p ! nat i;
                  p = p\<lparr>fgIterationState := (fgIterationState p)\<lparr>fIndex := i + 1, fOffset := mMarker s\<rparr>\<rparr>
              in if PrvIsPenUp e
                 then (if \<not> fPenIsDown (fgIterationState p) then replay_loop s p else Some (Some e, p))
                 else if eventEnabled then Some (Some e, p)
                 else replay_loop s p)
        else None }
      else Some (None, p))"

declare replay_loop.simps [code]

definition GetNextReplayEvent :: "'z EmEventPlayback_scheme \<Rightarrow> (EmRecordedEvent option \<times> 'z EmEventPlayback_scheme) option" where
  "GetNextReplayEvent p =
     replay_loop (EmStream_SetMarker (fOffset (fgIterationState p)) kStreamFromStart (EmStreamChunk_new (fgEvents p)))
       (p\<lparr>fgPrevIterationState := fgIterationState p\<rparr>)"

definition set_pen :: "bool \<Rightarrow> 'z EmEventPlayback_scheme \<Rightarrow> 'z EmEventPlayback_scheme" where
  "set_pen b p = p\<lparr>fgIterationState := (fgIterationState p)\<lparr>fPenIsDown := b\<rparr>\<rparr>"

text \<open>\<open>CullEvents\<close> keeps what would be replayed; \<open>CountEnabledEvents\<close> counts it.\<close>

partial_function (option) cull_loop ::
    "'z EmEventPlayback_scheme \<Rightarrow> EmStreamChunk \<Rightarrow> ('z EmEventPlayback_scheme \<times> EmStreamChunk) option" where
  "cull_loop p s = do {
     (e, p) \<leftarrow> GetNextReplayEvent p;
     case e of None \<Rightarrow> Some (p, s)
     | Some e \<Rightarrow> do { s \<leftarrow> put_event chunk_stream e s; cull_loop (set_pen (PrvIsPenDown e) p) s } }"

declare cull_loop.simps [code]

definition CullEvents :: "'z EmEventPlayback_scheme \<Rightarrow> 'z EmEventPlayback_scheme option" where
  "CullEvents p = do {
     (p, s) \<leftarrow> cull_loop (ResetPlayback p) (EmStreamChunk_new Chunk_new);
     c \<leftarrow> Chunk_assign (fgEvents p) (fChunk s);
     let p = p\<lparr>fgEvents := c\<rparr>;
     n \<leftarrow> CountNumEvents p;
     Some (p\<lparr>fgMask := replicate (nat n) True\<rparr>) }"

partial_function (option) enabled_loop :: "'z EmEventPlayback_scheme \<Rightarrow> int \<Rightarrow> (int \<times> 'z EmEventPlayback_scheme) option" where
  "enabled_loop p n = do {
     (e, p) \<leftarrow> GetNextReplayEvent p;
     case e of None \<Rightarrow> Some (n, p) | Some e \<Rightarrow> enabled_loop (set_pen (PrvIsPenDown e) p) (n + 1) }"

declare enabled_loop.simps [code]

definition CountEnabledEvents :: "'z EmEventPlayback_scheme \<Rightarrow> (int \<times> 'z EmEventPlayback_scheme) option" where
  "CountEnabledEvents p = do {
     (n, p') \<leftarrow> enabled_loop (p\<lparr>fgIterationState := EmIterationState_new\<rparr>) 0;
     Some (n, p'\<lparr>fgIterationState := fgIterationState p\<rparr>) }"

text \<open>
  What is replayed becomes calls of the emulated system. The result says whether an event was posted;
  \<open>ReplayGetEvent\<close> also yields the event, or none when it has turned replaying off, after which it
  tells the minimiser.
\<close>

datatype palm_call = EvtResetAutoOffTimer | StubAppEnqueueKey uint16 uint16 uint16 | StubAppEnqueuePt uint16 uint16
  | SysUIAppSwitch uint16 uint32

fun replay_event :: "EmRecordedEvent \<Rightarrow> (bool \<times> palm_call list) option" where
  "replay_event (kRecordedKeyEvent a k m) = Some (True, [EvtResetAutoOffTimer, StubAppEnqueueKey a k m])"
| "replay_event (kRecordedPenEvent x y) = Some (True, [StubAppEnqueuePt x y])"
| "replay_event (kRecordedAppSwitchEvent c d oc od) = Some (False, [SysUIAppSwitch c d])"
| "replay_event kRecordedNullEvent = Some (False, [])"
| "replay_event kRecordedErrorEvent = Some (False, [])"
| "replay_event kRecordedUnknownEvent = None"

definition ReplayGetEvent :: "'z EmEventPlayback_scheme \<Rightarrow>
    (bool \<times> palm_call list \<times> EmRecordedEvent option \<times> 'z EmEventPlayback_scheme) option" where
  "ReplayGetEvent p =
     (if \<not> fgReplaying p then None
      else do {
        (e, p) \<leftarrow> GetNextReplayEvent p;
        case e of
          Some e \<Rightarrow> do { (result, calls) \<leftarrow> replay_event e; Some (result, calls, Some e, set_pen (PrvIsPenDown e) p) }
        | None \<Rightarrow> Some (False, [], None, ReplayEvents False p) })"

text \<open>
  The emulated system also asks for the position of the pen. When the next event is not one of the
  pen, a pen-up event is made up, and the list goes back to before that event.
\<close>

definition ReplayGetPen :: "'z EmEventPlayback_scheme \<Rightarrow>
    (bool \<times> palm_call list \<times> EmRecordedEvent \<times> 'z EmEventPlayback_scheme) option" where
  "ReplayGetPen p =
     (if \<not> fgReplaying p then None
      else do {
        (e, p) \<leftarrow> GetNextReplayEvent p;
        (e, p) \<leftarrow> (case e of
            None \<Rightarrow> Some (kRecordedPenEvent (- 1) (- 1), set_pen False p)
          | Some e \<Rightarrow>
              if PrvIsPenEvent e then Some (e, p)
              else if fOffset (fgPrevIterationState p) = - 1 then None
              else Some (kRecordedPenEvent (- 1) (- 1),
                set_pen False (p\<lparr>fgIterationState := fgPrevIterationState p,
                  fgPrevIterationState := (fgPrevIterationState p)\<lparr>fOffset := - 1\<rparr>\<rparr>)));
        (result, calls) \<leftarrow> replay_event e;
        Some (result, calls, e, p) })"

section \<open>Saving and loading\<close>

text \<open>
  The chunk of history that \<open>SaveEvents\<close> gives to the session file, and loading from what the
  session file finds. The version is not looked at.
\<close>

definition kCurrentVersion :: uint32 where
  "kCurrentVersion = 1"

definition SaveEvents :: "'z EmEventPlayback_scheme \<Rightarrow> Chunk option" where
  "SaveEvents p = do {
     s \<leftarrow> put_uint32 chunk_stream kCurrentVersion (EmStreamChunk_new Chunk_new);
     s \<leftarrow> put_chunk chunk_stream (fgEvents p) s;
     Some (fChunk s) }"

definition LoadEvents :: "Chunk option \<Rightarrow> 'z EmEventPlayback_scheme \<Rightarrow> 'z EmEventPlayback_scheme option" where
  "LoadEvents history p =
     (let p = p\<lparr>fgEvents := Chunk_SetLength 0 (fgEvents p)\<rparr>
      in case history of
           None \<Rightarrow> Some p
         | Some c \<Rightarrow> do {
             (version, s) \<leftarrow> get_uint32 chunk_stream (EmStreamChunk_new c);
             (events, s) \<leftarrow> get_chunk chunk_stream (fgEvents p) s;
             let p = p\<lparr>fgEvents := events\<rparr>;
             n \<leftarrow> CountNumEvents p;
             Some (p\<lparr>fgMask := replicate (nat n) True\<rparr>) })"

end
