(* ===== verification/PlaybackProps.thy ===== *)
theory PlaybackProps
  imports EventPlayback
begin

text \<open>
  What the operations of \<open>EventPlayback\<close> do to the list of events that the bytes of \<open>fgEvents\<close>
  stand for.
\<close>

section \<open>The bytes of an event\<close>

fun event_bytes :: "EmRecordedEvent \<Rightarrow> uint8 list" where
  "event_bytes (kRecordedKeyEvent a k m) =
     (if a < 256 \<and> k = 0 \<and> m = 0 then [kStoredKeyEventCompressed, ucast a]
      else kStoredKeyEvent # host_short (Canonical_16 a) @ host_short (Canonical_16 k) @ host_short (Canonical_16 m))"
| "event_bytes (kRecordedPenEvent x y) =
     (if sint x < 0 \<and> sint y < 0 then [kStoredPenEventCompressedUp]
      else if sint x < 256 \<and> sint y < 256 then [kStoredPenEventCompressedXY, ucast x, ucast y]
      else if sint x < 256 then kStoredPenEventCompressedX # ucast x # host_short (Canonical_16 y)
      else if sint y < 256 then kStoredPenEventCompressedX # host_short (Canonical_16 x) @ [ucast y]
      else kStoredPenEvent # host_short (Canonical_16 x) @ host_short (Canonical_16 y))"
| "event_bytes (kRecordedAppSwitchEvent c d oc od) =
     kStoredAppSwitchEvent # host_short (Canonical_16 c) @ host_long (Canonical d) @ host_short (Canonical_16 oc) @
       host_long (Canonical od)"
| "event_bytes kRecordedNullEvent = [kStoredNullEvent]"
| "event_bytes kRecordedErrorEvent = [kStoredErrorEvent]"
| "event_bytes kRecordedUnknownEvent = []"

text \<open>
  The events that come back as they were: a position of the pen must be one that \<open>RecordPenEvent\<close>
  accepts, and not have an x of 256 or more together with a y below 256.
\<close>

fun storable :: "EmRecordedEvent \<Rightarrow> bool" where
  "storable (kRecordedPenEvent x y) \<longleftrightarrow>
     x = - 1 \<and> y = - 1 \<or> 0 \<le> sint x \<and> 0 \<le> sint y \<and> \<not> (256 \<le> sint x \<and> sint y < 256)"
| "storable kRecordedUnknownEvent \<longleftrightarrow> False"
| "storable _ \<longleftrightarrow> True"

lemma sint_small_16: "0 \<le> sint x \<Longrightarrow> sint x < 256 \<Longrightarrow> ucast (ucast x :: uint8) = (x :: uint16)"
proof -
  assume "0 \<le> sint x" "sint x < 256"
  then have "uint x < 256" by (simp add: uint_sint take_bit_int_eq_self)
  then show ?thesis by (simp add: word_uint_eq_iff unsigned_ucast_eq unsigned_take_bit_eq take_bit_int_eq_self)
qed

lemma less_256_16: "x < 256 \<Longrightarrow> ucast (ucast x :: uint8) = (x :: uint16)"
proof -
  assume "x < 256"
  then have "uint x < 256" by (simp add: word_less_def)
  then show ?thesis by (simp add: word_uint_eq_iff unsigned_ucast_eq unsigned_take_bit_eq take_bit_int_eq_self)
qed

section \<open>Writing and reading one event\<close>

text \<open>Sequences of operations on a stream that append bytes, and that read them.\<close>

definition appends :: "('s \<Rightarrow> bool) \<Rightarrow> ('s \<Rightarrow> uint8 list) \<Rightarrow> ('s \<Rightarrow> nat) \<Rightarrow> ('s \<Rightarrow> 's option) \<Rightarrow> uint8 list \<Rightarrow> bool" where
  "appends ok content pos f bs \<longleftrightarrow> (\<forall>s. ok s \<and> pos s = length (content s) \<longrightarrow>
     (\<exists>s'. f s = Some s' \<and> ok s' \<and> content s' = content s @ bs \<and> pos s' = length (content s')))"

definition yields :: "('s \<Rightarrow> bool) \<Rightarrow> ('s \<Rightarrow> uint8 list) \<Rightarrow> ('s \<Rightarrow> nat) \<Rightarrow> ('s \<Rightarrow> ('v \<times> 's) option) \<Rightarrow> uint8 list \<Rightarrow> 'v \<Rightarrow> bool" where
  "yields ok content pos g bs v \<longleftrightarrow> (\<forall>s rest. ok s \<and> drop (pos s) (content s) = bs @ rest \<longrightarrow>
     (\<exists>s'. g s = Some (v, s') \<and> ok s' \<and> content s' = content s \<and> pos s' = pos s + length bs))"

context rw_stream
begin

lemma appends_bind: "appends ok content pos f a \<Longrightarrow> appends ok content pos g b \<Longrightarrow> appends ok content pos (\<lambda>s. f s \<bind> g) (a @ b)"
  unfolding appends_def by (fastforce simp: Option.bind_eq_Some_conv)

lemma yields_bind: "yields ok content pos g a v \<Longrightarrow> yields ok content pos (h v) b w \<Longrightarrow> yields ok content pos (\<lambda>s. g s \<bind> (\<lambda>(v, s). h v s)) (a @ b) w"
  unfolding yields_def
proof (intro allI impI)
  fix s rest
  assume g: "\<forall>s rest. ok s \<and> drop (pos s) (content s) = a @ rest \<longrightarrow>
      (\<exists>s'. g s = Some (v, s') \<and> ok s' \<and> content s' = content s \<and> pos s' = pos s + length a)"
    and h: "\<forall>s rest. ok s \<and> drop (pos s) (content s) = b @ rest \<longrightarrow>
      (\<exists>s'. h v s = Some (w, s') \<and> ok s' \<and> content s' = content s \<and> pos s' = pos s + length b)"
    and s: "ok s \<and> drop (pos s) (content s) = (a @ b) @ rest"
  obtain t where t: "g s = Some (v, t)" "ok t" "content t = content s" "pos t = pos s + length a"
    using g s by fastforce
  have "drop (pos t) (content t) = drop (length a) (drop (pos s) (content s))" using t by (simp add: add.commute)
  then have "drop (pos t) (content t) = b @ rest" using s by simp
  then obtain u where "h v t = Some (w, u)" "ok u" "content u = content t" "pos u = pos t + length b" using h t(2) by blast
  then show "\<exists>s'. g s \<bind> (\<lambda>(v, s). h v s) = Some (w, s') \<and> ok s' \<and> content s' = content s \<and> pos s' = pos s + length (a @ b)"
    using t by auto
qed

lemma yields_return: "yields ok content pos (\<lambda>s. Some (v, s)) [] v"
  by (simp add: yields_def)

lemma appends_put:
  "appends ok content pos (put_uint8 ops a) [a]" "appends ok content pos (put_uint16 ops b) (host_short (Canonical_16 b))"
  "appends ok content pos (put_uint32 ops c) (host_long (Canonical c))"
  using u8.flat_put u16.flat_put u32.flat_put unfolding appends_def by blast+

lemma yields_get:
  "yields ok content pos (get_uint8 ops) [a] a" "yields ok content pos (get_uint16 ops) (host_short (Canonical_16 b)) b"
  "yields ok content pos (get_uint32 ops) (host_long (Canonical c)) c"
  using u8.flat_get u16.flat_get u32.flat_get unfolding yields_def by blast+

lemma appends_if: "(c \<Longrightarrow> appends ok content pos f a) \<Longrightarrow> (\<not> c \<Longrightarrow> appends ok content pos g b) \<Longrightarrow>
    appends ok content pos (\<lambda>s. if c then f s else g s) (if c then a else b)"
  by simp

lemma appends_then:
  "appends ok content pos g b \<Longrightarrow> appends ok content pos (\<lambda>s. put_uint8 ops v s \<bind> g) (v # b)"
  "appends ok content pos g b \<Longrightarrow> appends ok content pos (\<lambda>s. put_uint16 ops w s \<bind> g) (host_short (Canonical_16 w) @ b)"
  "appends ok content pos g b \<Longrightarrow> appends ok content pos (\<lambda>s. put_uint32 ops x s \<bind> g) (host_long (Canonical x) @ b)"
  using appends_bind [OF appends_put(1), of g b v] appends_bind [OF appends_put(2)] appends_bind [OF appends_put(3)] by simp_all

lemma yields_then:
  "yields ok content pos (h v) b r \<Longrightarrow> yields ok content pos (\<lambda>s. get_uint8 ops s \<bind> (\<lambda>(v, s). h v s)) (v # b) r"
  "yields ok content pos (h' w) b r \<Longrightarrow>
    yields ok content pos (\<lambda>s. get_uint16 ops s \<bind> (\<lambda>(v, s). h' v s)) (host_short (Canonical_16 w) @ b) r"
  "yields ok content pos (h'' x) b r \<Longrightarrow>
    yields ok content pos (\<lambda>s. get_uint32 ops s \<bind> (\<lambda>(v, s). h'' v s)) (host_long (Canonical x) @ b) r"
  using yields_bind [OF yields_get(1), of h v b r] yields_bind [OF yields_get(2)] yields_bind [OF yields_get(3)] by simp_all

lemma yields_last:
  "yields ok content pos (\<lambda>s. get_uint8 ops s \<bind> (\<lambda>(v, s). Some (f v, s))) [v] (f v)"
  "yields ok content pos (\<lambda>s. get_uint16 ops s \<bind> (\<lambda>(v, s). Some (f' v, s))) (host_short (Canonical_16 w)) (f' w)"
  "yields ok content pos (\<lambda>s. get_uint32 ops s \<bind> (\<lambda>(v, s). Some (f'' v, s))) (host_long (Canonical x)) (f'' x)"
  using yields_then(1) [OF yields_return, of "\<lambda>v. f v"] yields_then(2) [OF yields_return, of "\<lambda>v. f' v"]
    yields_then(3) [OF yields_return, of "\<lambda>v. f'' v"] by simp_all

lemma put_event_appends: "e \<noteq> kRecordedUnknownEvent \<Longrightarrow> appends ok content pos (\<lambda>s. put_event ops e s) (event_bytes e)"
  by (cases e; simp only: put_event.simps event_bytes.simps) (intro appends_if appends_then appends_put | simp)+

lemma get_event_yields:
  assumes "storable e"
  shows "yields ok content pos (\<lambda>s. get_event ops s) (event_bytes e) e"
proof (cases e)
  case (kRecordedPenEvent x y)
  have *: "sint x < 0 \<Longrightarrow> x = - 1 \<and> y = - 1" "sint y < 0 \<Longrightarrow> x = - 1 \<and> y = - 1" "sint x < 256 \<Longrightarrow> 0 \<le> sint x \<Longrightarrow> ucast (ucast x :: uint8) = x"
    "sint y < 256 \<Longrightarrow> 0 \<le> sint y \<Longrightarrow> ucast (ucast y :: uint8) = y"
    using assms by (auto simp: kRecordedPenEvent sint_small_16)
  consider "sint x < 0" "sint y < 0" | "0 \<le> sint x" "sint x < 256" "0 \<le> sint y" "sint y < 256"
    | "0 \<le> sint x" "sint x < 256" "256 \<le> sint y" | "256 \<le> sint x" "256 \<le> sint y"
    using assms by (fastforce simp: kRecordedPenEvent)
  then show ?thesis
  proof cases
    case 1
    then show ?thesis using *(1) unfolding kRecordedPenEvent get_event_def
      by (simp, intro yields_then(1)) (simp add: stored_types yields_return)
  next
    case 2
    then show ?thesis using *(3,4) yields_last(1) [of "\<lambda>v. kRecordedPenEvent x (ucast v)" "ucast y"]
      unfolding kRecordedPenEvent get_event_def
      by (simp, intro yields_then(1)) (simp add: stored_types, rule yields_then(1), simp)
  next
    case 3
    then show ?thesis using *(3) yields_last(2) [of "\<lambda>v. kRecordedPenEvent x v" y]
      unfolding kRecordedPenEvent get_event_def
      by (simp, intro yields_then(1)) (simp add: stored_types, rule yields_then(1), simp)
  next
    case 4
    then show ?thesis
      unfolding kRecordedPenEvent get_event_def
      by (simp, intro yields_then(1)) (simp add: stored_types, intro yields_then yields_last)
  qed
next
  case (kRecordedKeyEvent a k m)
  show ?thesis
  proof (cases "a < 256 \<and> k = 0 \<and> m = 0")
    case True
    then show ?thesis using yields_last(1) [of "\<lambda>a. kRecordedKeyEvent (ucast a) 0 0" "ucast a"] less_256_16 [of a]
      unfolding kRecordedKeyEvent get_event_def
      by (simp, intro yields_then(1)) (simp add: stored_types)
  next
    case False
    then have b: "event_bytes e = kStoredKeyEvent # host_short (Canonical_16 a) @ host_short (Canonical_16 k) @ host_short (Canonical_16 m)"
      by (simp only: kRecordedKeyEvent event_bytes.simps if_False)
    show ?thesis unfolding b unfolding kRecordedKeyEvent get_event_def
      by (rule yields_then(1)) (simp add: stored_types, intro yields_then yields_last)
  qed
next
  case (kRecordedAppSwitchEvent c d oc od)
  show ?thesis
   unfolding kRecordedAppSwitchEvent event_bytes.simps get_event_def
   by (rule yields_then(1)) (simp add: stored_types, intro yields_then yields_last)
next
  case kRecordedNullEvent
  then show ?thesis unfolding get_event_def by (simp, intro yields_then(1)) (simp add: stored_types yields_return)
next
  case kRecordedErrorEvent
  then show ?thesis unfolding get_event_def by (simp, intro yields_then(1)) (simp add: stored_types yields_return)
qed (use assms in \<open>simp_all\<close>)

end

sublocale rw_stream \<subseteq> event: flattened ops ok content pos event_bytes storable "put_event ops" "get_event ops"
proof
  fix s and v :: EmRecordedEvent and rest
  assume s: "ok s" and v: "storable v"
  then have "v \<noteq> kRecordedUnknownEvent" by auto
  from put_event_appends [OF this] s
  show "pos s = length (content s) \<Longrightarrow> \<exists>s'. put_event ops v s = Some s' \<and> ok s' \<and> content s' = content s @ event_bytes v \<and> pos s' = length (content s')"
    by (auto simp: appends_def)
  show "drop (pos s) (content s) = event_bytes v @ rest \<Longrightarrow>
      \<exists>s'. get_event ops s = Some (v, s') \<and> ok s' \<and> content s' = content s \<and> pos s' = pos s + length (event_bytes v)"
    using get_event_yields [OF v] s by (auto simp: yields_def)
qed

end
