(* ===== verification/Replay.thy ===== *)
theory Replay
  imports PlaybackProps
begin

text \<open>
  Replaying described on lists of events: \<open>skip\<close> finds the next event that is replayed, \<open>replayed\<close>
  is the sequence of them. The operations of \<open>EventPlayback\<close> on bytes compute just that.
\<close>

section \<open>Replaying a list\<close>

fun skip :: "bool \<Rightarrow> (EmRecordedEvent \<times> bool) list \<Rightarrow> EmRecordedEvent option \<times> (EmRecordedEvent \<times> bool) list" where
  "skip pen [] = (None, [])"
| "skip pen ((e, on) # xs) =
     (if PrvIsPenUp e then (if pen then (Some e, xs) else skip pen xs)
      else if on then (Some e, xs) else skip pen xs)"

fun replayed :: "bool \<Rightarrow> (EmRecordedEvent \<times> bool) list \<Rightarrow> EmRecordedEvent list" where
  "replayed pen [] = []"
| "replayed pen ((e, on) # xs) =
     (if PrvIsPenUp e then (if pen then e # replayed False xs else replayed pen xs)
      else if on then e # replayed (PrvIsPenDown e) xs else replayed pen xs)"

lemma PenUp_not_PenDown: "PrvIsPenUp e \<Longrightarrow> \<not> PrvIsPenDown e"
  by (simp add: PrvIsPenDown_def)

lemma replayed_skip: "replayed pen xs = (case skip pen xs of (None, _) \<Rightarrow> [] | (Some e, ys) \<Rightarrow> e # replayed (PrvIsPenDown e) ys)"
  by (induction pen xs rule: skip.induct) (auto simp: PenUp_not_PenDown)

lemma skip_length: "length (snd (skip pen xs)) \<le> length xs"
  by (induction xs) (auto intro: le_SucI)

lemma skip_shorter: "skip pen xs = (Some e, ys) \<Longrightarrow> length ys < length xs"
  by (induction pen xs rule: skip.induct) (auto split: if_splits)

lemma skip_drop: "snd (skip pen xs) = drop (length xs - length (snd (skip pen xs))) xs"
proof (induction pen xs rule: skip.induct)
  case (2 pen e on xs)
  have "length (snd (skip pen xs)) \<le> length xs" by (rule skip_length)
  then show ?case using 2 by (auto simp: Suc_diff_le)
qed simp

lemma skip_None: "skip pen xs = (None, ys) \<Longrightarrow> ys = []"
  by (induction pen xs rule: skip.induct) (auto split: if_splits)

lemma replayed_from: "e \<in> set (replayed pen xs) \<Longrightarrow> e \<in> fst ` set xs"
  by (induction pen xs rule: replayed.induct) (auto split: if_splits)

section \<open>Chunks that hold events\<close>

definition chunk_holds :: "Chunk \<Rightarrow> uint8 list \<Rightarrow> bool" where
  "chunk_holds c bs \<longleftrightarrow> 0 \<le> fUsedSize c \<and> fUsedSize c \<le> fAllocatedSize c \<and> fAllocatedSize c = int (length (fPtr c)) \<and>
     take (nat (fUsedSize c)) (fPtr c) = bs"

lemma chunk_holds_length: "chunk_holds c bs \<Longrightarrow> fUsedSize c = int (length bs)"
  by (auto simp: chunk_holds_def min_def)

lemma new_stream:
  assumes "chunk_holds c bs"
  shows "chunk_ok (EmStreamChunk_new c)" "chunk_content (EmStreamChunk_new c) = bs" "marker (EmStreamChunk_new c) = 0"
    "fChunk (EmStreamChunk_new c) = c"
  using assms
  by (auto simp: chunk_holds_def EmStreamChunk_new_def EmStream_SetLength_def EmStream_new_def EmStream.defs
      EmStream_SetMarker_def chunk_ok_def stream_ok_def chunk_content_def marker_def)

lemma chunk_holds_stream: "chunk_ok s \<Longrightarrow> chunk_holds (fChunk s) (chunk_content s)"
  by (auto simp: chunk_ok_def chunk_holds_def chunk_content_def stream_ok_def)

lemma chunk_new_holds: "chunk_holds Chunk_new []"
  by (simp add: chunk_holds_def Chunk_new_def)

lemma chunk_numbers: "chunk_ok s \<Longrightarrow> mMarker s = int (marker s)" "chunk_ok s \<Longrightarrow> mLength s = int (length (chunk_content s))"
  using chunk.marker_law chunk.length_law by (auto simp: chunk_stream_def)

lemma chunk_at_start:
  assumes "chunk_ok s" and "n \<le> length (chunk_content s)"
  shows "chunk_ok (EmStream_SetMarker (int n) kStreamFromStart s)" "marker (EmStream_SetMarker (int n) kStreamFromStart s) = n"
    "chunk_content (EmStream_SetMarker (int n) kStreamFromStart s) = chunk_content s"
  using chunk.start_law [OF assms] by (simp_all add: chunk_stream_def)

lemma chunk_at_end:
  assumes "chunk_ok s"
  shows "chunk_ok (EmStream_SetMarker 0 kStreamFromEnd s)"
    "marker (EmStream_SetMarker 0 kStreamFromEnd s) = length (chunk_content (EmStream_SetMarker 0 kStreamFromEnd s))"
    "chunk_content (EmStream_SetMarker 0 kStreamFromEnd s) = chunk_content s"
  using assms by (auto simp: EmStream_SetMarker_def chunk_ok_def stream_ok_def marker_def chunk_content_def)

lemma Chunk_assign_holds:
  assumes "chunk_holds c bs" and "chunk_holds d cs"
  shows "\<exists>e. Chunk_assign c d = Some e \<and> chunk_holds e cs"
proof -
  define n where "n = fUsedSize d"
  have d: "copy_out (fPtr d) 0 n = Some cs" "n = int (length cs)" "0 \<le> n"
    using assms(2) by (auto simp: chunk_holds_def copy_out_def n_def min_def)
  define e where "e = Chunk_SetLength n c"
  have e: "fUsedSize e = n" "fAllocatedSize e = int (length (fPtr e))" "n \<le> fAllocatedSize e"
    using assms(1) d(3) by (auto simp: e_def Chunk_SetLength_def Let_def ReallocMemory_def chunk_holds_def)
  then have "copy_in (fPtr e) 0 cs = Some (cs @ drop (length cs) (fPtr e))"
    using d(2) by (simp add: copy_in_def)
  then have "Chunk_assign c d = Some (e\<lparr>fPtr := cs @ drop (length cs) (fPtr e)\<rparr>)"
    using d(1) by (simp add: Chunk_assign_def flip: n_def e_def)
  then show ?thesis using d e by (simp add: chunk_holds_def)
qed

definition bytes_of :: "EmRecordedEvent list \<Rightarrow> uint8 list" where
  "bytes_of es = concat (map event_bytes es)"

lemma bytes_of_simps [simp]: "bytes_of [] = []" "bytes_of (e # es) = event_bytes e @ bytes_of es"
    "bytes_of (es @ fs) = bytes_of es @ bytes_of fs"
  by (simp_all add: bytes_of_def)

lemma event_bytes_nonempty: "storable e \<Longrightarrow> event_bytes e \<noteq> []"
  by (cases e) auto

definition offset :: "EmRecordedEvent list \<Rightarrow> nat \<Rightarrow> nat" where
  "offset es i = length (bytes_of (take i es))"

lemma offset_0 [simp]: "offset es 0 = 0"
  by (simp add: offset_def)

lemma offset_Suc: "i < length es \<Longrightarrow> offset es (Suc i) = offset es i + length (event_bytes (es ! i))"
  by (simp add: offset_def take_Suc_conv_app_nth)

lemma drop_offset: "drop (offset es i) (bytes_of es) = bytes_of (drop i es)"
proof -
  have "bytes_of es = bytes_of (take i es) @ bytes_of (drop i es)" by (metis append_take_drop_id bytes_of_simps(3))
  then show ?thesis by (simp add: offset_def)
qed

lemma offset_le: "offset es i \<le> length (bytes_of es)"
proof -
  have "bytes_of es = bytes_of (take i es) @ bytes_of (drop i es)" by (metis append_take_drop_id bytes_of_simps(3))
  then show ?thesis by (simp add: offset_def)
qed

lemma offset_less_iff:
  assumes "\<forall>e\<in>set es. storable e" and "i \<le> length es"
  shows "offset es i < length (bytes_of es) \<longleftrightarrow> i < length es"
proof
  assume "offset es i < length (bytes_of es)"
  then have "bytes_of (drop i es) \<noteq> []" using drop_offset [of es i] by auto
  then show "i < length es" using assms(2) by (cases "i = length es") auto
next
  assume i: "i < length es"
  then have "offset es (Suc i) \<le> length (bytes_of es)" by (intro offset_le)
  moreover have "0 < length (event_bytes (es ! i))" using event_bytes_nonempty assms(1) i by auto
  ultimately show "offset es i < length (bytes_of es)" using offset_Suc [OF i] by linarith
qed

text \<open>A stream over events that stands at the \<open>i\<close>th of them.\<close>

definition at_event :: "EmStreamChunk \<Rightarrow> EmRecordedEvent list \<Rightarrow> nat \<Rightarrow> bool" where
  "at_event s es i \<longleftrightarrow> chunk_ok s \<and> chunk_content s = bytes_of es \<and> marker s = offset es i \<and> i \<le> length es \<and>
     (\<forall>e\<in>set es. storable e)"

lemma at_event_more: "at_event s es i \<Longrightarrow> mMarker s < mLength s \<longleftrightarrow> i < length es"
  using chunk_numbers [of s] offset_less_iff by (auto simp: at_event_def)

lemma at_event_get:
  assumes "at_event s es i" and "i < length es"
  shows "\<exists>s'. get_event chunk_stream s = Some (es ! i, s') \<and> at_event s' es (Suc i) \<and> mMarker s' = int (offset es (Suc i))"
proof -
  have s: "chunk_ok s" "chunk_content s = bytes_of es" "marker s = offset es i" and st: "storable (es ! i)"
    using assms by (auto simp: at_event_def)
  have "drop (marker s) (chunk_content s) = event_bytes (es ! i) @ bytes_of (drop (Suc i) es)"
    using s drop_offset [of es i] assms(2) by (simp add: Cons_nth_drop_Suc [symmetric])
  from chunk.event.flat_get [OF s(1) st this] obtain t where t: "get_event chunk_stream s = Some (es ! i, t)" "chunk_ok t"
    "chunk_content t = chunk_content s" "marker t = marker s + length (event_bytes (es ! i))" by auto
  then show ?thesis using assms s offset_Suc [OF assms(2)] chunk_numbers(1) [OF t(2)] by (auto simp: at_event_def)
qed

lemma at_event_start:
  assumes "chunk_holds c (bytes_of es)" and "\<forall>e\<in>set es. storable e" and "i \<le> length es"
  shows "at_event (EmStream_SetMarker (int (offset es i)) kStreamFromStart (EmStreamChunk_new c)) es i"
  using new_stream [OF assms(1)] chunk_at_start [of "EmStreamChunk_new c" "offset es i"] offset_le assms(2,3)
  by (simp add: at_event_def)

lemma at_event_new: "chunk_holds c (bytes_of es) \<Longrightarrow> \<forall>e\<in>set es. storable e \<Longrightarrow> at_event (EmStreamChunk_new c) es 0"
  using new_stream [of c "bytes_of es"] by (simp add: at_event_def)

section \<open>The state of the playback\<close>

definition here :: "EmRecordedEvent list \<Rightarrow> nat \<Rightarrow> bool \<Rightarrow> EmIterationState" where
  "here es i pen = \<lparr>fIndex = int i, fOffset = int (offset es i), fPenIsDown = pen\<rparr>"

lemma here_simps [simp]: "fIndex (here es i pen) = int i" "fOffset (here es i pen) = int (offset es i)"
    "fPenIsDown (here es i pen) = pen" "(here es i pen)\<lparr>fPenIsDown := pen'\<rparr> = here es i pen'"
  by (simp_all add: here_def)

lemma here_start: "EmIterationState_new = here es 0 False"
  by (simp add: EmIterationState_new_def here_def)

definition stored :: "'z EmEventPlayback_scheme \<Rightarrow> EmRecordedEvent list \<Rightarrow> bool" where
  "stored p es \<longleftrightarrow> chunk_holds (fgEvents p) (bytes_of es) \<and> (\<forall>e\<in>set es. storable e) \<and> length (fgMask p) = length es"

text \<open>What is left of the events and their mask at an index.\<close>

definition masked :: "EmRecordedEvent list \<Rightarrow> bool list \<Rightarrow> (EmRecordedEvent \<times> bool) list" where
  "masked es m = zip es m"

lemma masked_step: "length m = length es \<Longrightarrow> i < length es \<Longrightarrow> drop i (masked es m) = (es ! i, m ! i) # drop (Suc i) (masked es m)"
  by (simp add: masked_def Cons_nth_drop_Suc [symmetric])

lemma replay_loop_skip:
  assumes "at_event s es i" and "length (fgMask p) = length es" and "fgIterationState p = here es i pen"
  shows "replay_loop s p =
    (let r = skip pen (drop i (masked es (fgMask p)))
     in Some (fst r, p\<lparr>fgIterationState := here es (length es - length (snd r)) pen\<rparr>))"
  using assms
proof (induction "length es - i" arbitrary: s p i)
  case 0
  then have "i = length es" by (simp add: at_event_def)
  moreover have "p\<lparr>fgIterationState := here es (length es) pen\<rparr> = p" using 0 \<open>i = length es\<close> by simp
  ultimately show ?case using 0 at_event_more [OF 0(2)] by (simp add: replay_loop.simps [of s p] masked_def)
next
  case (Suc n)
  then have i: "i < length es" by simp
  obtain s' where s': "get_event chunk_stream s = Some (es ! i, s')" "at_event s' es (Suc i)" "mMarker s' = int (offset es (Suc i))"
    using at_event_get [OF Suc(3) i] by blast
  define q where "q = p\<lparr>fgIterationState := here es (Suc i) pen\<rparr>"
  have q: "p\<lparr>fgIterationState := (fgIterationState p)\<lparr>fIndex := int i + 1, fOffset := int (offset es (Suc i))\<rparr>\<rparr> = q"
    using Suc(5) by (simp add: q_def here_def add.commute)
  have IH: "replay_loop s' q = (let r = skip pen (drop (Suc i) (masked es (fgMask p)))
     in Some (fst r, p\<lparr>fgIterationState := here es (length es - length (snd r)) pen\<rparr>))"
    using Suc(1) [of "Suc i" s' q] Suc(2,4) s'(2) by (simp add: q_def Let_def)
  have len: "length es - length (drop (Suc i) (masked es (fgMask p))) = Suc i" using i Suc(4) by (simp add: masked_def)
  have step: "replay_loop s p = (if PrvIsPenUp (es ! i) then (if \<not> pen then replay_loop s' q else Some (Some (es ! i), q))
      else if fgMask p ! i then Some (Some (es ! i), q) else replay_loop s' q)"
    using Suc(3-5) s' i q at_event_more [OF Suc(3)]
    by (simp add: replay_loop.simps [of s p] Let_def) (simp add: q_def here_def add.commute)
  show ?case unfolding step masked_step [OF Suc(4) i] using IH len by (cases pen) (simp_all add: Let_def q_def)
qed

lemma GetNextReplayEvent_skip:
  assumes "stored p es" and "fgIterationState p = here es i pen" and "i \<le> length es"
  shows "GetNextReplayEvent p =
    (let r = skip pen (drop i (masked es (fgMask p)))
     in Some (fst r, p\<lparr>fgIterationState := here es (length es - length (snd r)) pen, fgPrevIterationState := here es i pen\<rparr>))"
proof -
  have "at_event (EmStream_SetMarker (int (offset es i)) kStreamFromStart (EmStreamChunk_new (fgEvents p))) es i"
    using assms(1,3) by (intro at_event_start) (simp_all add: stored_def)
  from replay_loop_skip [OF this, of "p\<lparr>fgPrevIterationState := fgIterationState p\<rparr>"] show ?thesis
    using assms(1,2) by (simp add: GetNextReplayEvent_def stored_def Let_def)
qed

text \<open>The loops that take all events that are replayed.\<close>

definition left :: "EmRecordedEvent list \<Rightarrow> (EmRecordedEvent \<times> bool) list \<Rightarrow> nat" where
  "left es xs = length es - length xs"

lemma enabled_loop_counts:
  assumes "stored p es" and "fgIterationState p = here es i pen" and "i \<le> length es"
  shows "\<exists>q. enabled_loop p n = Some (n + int (length (replayed pen (drop i (masked es (fgMask p))))), q) \<and>
    (\<exists>it prev. q = p\<lparr>fgIterationState := it, fgPrevIterationState := prev\<rparr>)"
  using assms
proof (induction "length es - i" arbitrary: p i pen n rule: less_induct)
  case less
  define xs where "xs = drop i (masked es (fgMask p))"
  define ys where "ys = snd (skip pen xs)"
  define j where "j = length es - length ys"
  define q where "q = p\<lparr>fgIterationState := here es j pen, fgPrevIterationState := here es i pen\<rparr>"
  have g: "GetNextReplayEvent p = Some (fst (skip pen xs), q)"
    using GetNextReplayEvent_skip [OF less.prems] by (simp add: xs_def ys_def j_def q_def Let_def)
  have xl: "length xs = length es - i" using less.prems(1) by (simp add: xs_def masked_def stored_def)
  show ?case
  proof (cases "fst (skip pen xs)")
    case None
    then have "replayed pen xs = []" using replayed_skip [of pen xs] by (cases "skip pen xs") simp
    then show ?thesis using g None unfolding xs_def [symmetric] by (auto simp: enabled_loop.simps [of p] q_def)
  next
    case (Some e)
    then have sk: "skip pen xs = (Some e, ys)" by (simp add: ys_def prod_eq_iff)
    from skip_shorter [OF this] have lt: "length ys < length xs" .
    have ys: "ys = drop j (masked es (fgMask p))"
      using skip_drop [of pen xs] lt xl less.prems(1) unfolding ys_def [symmetric] by (simp add: xs_def j_def stored_def masked_def)
    define t where "t = set_pen (PrvIsPenDown e) q"
    have "stored t es" "fgIterationState t = here es j (PrvIsPenDown e)" "fgMask t = fgMask p"
      using less.prems(1) by (simp_all add: t_def q_def set_pen_def stored_def)
    moreover have "length es - j < length es - i" "j \<le> length es" using lt xl by (auto simp: j_def)
    ultimately obtain r where "enabled_loop t (n + 1) = Some (n + 1 + int (length (replayed (PrvIsPenDown e) ys)), r)"
      "\<exists>it prev. r = t\<lparr>fgIterationState := it, fgPrevIterationState := prev\<rparr>"
      using less.hyps [of j t "PrvIsPenDown e" "n + 1"] ys by auto
    moreover have "enabled_loop p n = enabled_loop t (n + 1)" using g Some by (simp add: enabled_loop.simps [of p] t_def)
    moreover have "replayed pen xs = e # replayed (PrvIsPenDown e) ys" using sk replayed_skip [of pen xs] by simp
    ultimately show ?thesis unfolding xs_def [symmetric] by (auto simp: t_def q_def set_pen_def)
  qed
qed

lemma CountEnabledEvents_eq:
  assumes "stored p es"
  shows "\<exists>prev. CountEnabledEvents p = Some (int (length (replayed False (masked es (fgMask p)))), p\<lparr>fgPrevIterationState := prev\<rparr>)"
  using enabled_loop_counts [of "p\<lparr>fgIterationState := EmIterationState_new\<rparr>" es 0 False 0] assms
  by (auto simp: CountEnabledEvents_def stored_def here_start [of es])

lemma cull_loop_takes:
  assumes "stored p es" and "fgIterationState p = here es i pen" and "i \<le> length es"
    and "chunk_ok s" and "marker s = length (chunk_content s)"
  shows "\<exists>q t. cull_loop p s = Some (q, t) \<and> (\<exists>it prev. q = p\<lparr>fgIterationState := it, fgPrevIterationState := prev\<rparr>) \<and>
    chunk_ok t \<and> chunk_content t = chunk_content s @ bytes_of (replayed pen (drop i (masked es (fgMask p))))"
  using assms
proof (induction "length es - i" arbitrary: p i pen s rule: less_induct)
  case less
  define xs where "xs = drop i (masked es (fgMask p))"
  define ys where "ys = snd (skip pen xs)"
  define j where "j = length es - length ys"
  define q where "q = p\<lparr>fgIterationState := here es j pen, fgPrevIterationState := here es i pen\<rparr>"
  have g: "GetNextReplayEvent p = Some (fst (skip pen xs), q)"
    using GetNextReplayEvent_skip [OF less.prems(1-3)] by (simp add: xs_def ys_def j_def q_def Let_def)
  have xl: "length xs = length es - i" using less.prems(1) by (simp add: xs_def masked_def stored_def)
  show ?case
  proof (cases "fst (skip pen xs)")
    case None
    then have "replayed pen xs = []" using replayed_skip [of pen xs] by (cases "skip pen xs") simp
    then show ?thesis using g None less.prems(4) unfolding xs_def [symmetric] by (auto simp: cull_loop.simps [of p] q_def)
  next
    case (Some e)
    then have sk: "skip pen xs = (Some e, ys)" by (simp add: ys_def prod_eq_iff)
    then have r: "replayed pen xs = e # replayed (PrvIsPenDown e) ys" using replayed_skip [of pen xs] by simp
    have "e \<in> fst ` set xs" using replayed_from [of e pen xs] r by simp
    then have "e \<in> set es" by (auto simp: xs_def masked_def dest!: in_set_dropD set_zip_leftD)
    then have st: "storable e" using less.prems(1) by (simp add: stored_def)
    obtain s' where s': "put_event chunk_stream e s = Some s'" "chunk_ok s'" "chunk_content s' = chunk_content s @ event_bytes e"
      "marker s' = length (chunk_content s')" using chunk.event.flat_put [OF less.prems(4) st less.prems(5)] by blast
    from skip_shorter [OF sk] have lt: "length ys < length xs" .
    have ys: "ys = drop j (masked es (fgMask p))"
      using skip_drop [of pen xs] lt xl less.prems(1) unfolding ys_def [symmetric] by (simp add: xs_def j_def stored_def masked_def)
    define t where "t = set_pen (PrvIsPenDown e) q"
    have "stored t es" "fgIterationState t = here es j (PrvIsPenDown e)" "fgMask t = fgMask p"
      using less.prems(1) by (simp_all add: t_def q_def set_pen_def stored_def)
    moreover have "length es - j < length es - i" "j \<le> length es" using lt xl by (auto simp: j_def)
    ultimately obtain u v where u: "cull_loop t s' = Some (u, v)" "\<exists>it prev. u = t\<lparr>fgIterationState := it, fgPrevIterationState := prev\<rparr>"
      "chunk_ok v" "chunk_content v = chunk_content s' @ bytes_of (replayed (PrvIsPenDown e) ys)"
      using less.hyps [of j t "PrvIsPenDown e" s'] s'(2,4) ys by metis
    have "cull_loop p s = cull_loop t s'" using g Some s'(1) by (simp add: cull_loop.simps [of p] t_def)
    then show ?thesis unfolding xs_def [symmetric] using u s'(3) r by (auto simp: t_def q_def set_pen_def)
  qed
qed

section \<open>Counting and finding\<close>

lemma count_loop_counts: "at_event s es i \<Longrightarrow> count_loop s n = Some (n + int (length es - i))"
proof (induction "length es - i" arbitrary: s i n)
  case 0
  then show ?case using at_event_more [OF 0(2)] by (simp add: count_loop.simps [of s] at_event_def)
next
  case (Suc k)
  then have i: "i < length es" by simp
  obtain s' where "get_event chunk_stream s = Some (es ! i, s')" "at_event s' es (Suc i)" using at_event_get [OF Suc(3) i] by blast
  then show ?case using Suc(1) [of "Suc i" s' "n + 1"] Suc(2) at_event_more [OF Suc(3)] i by (simp add: count_loop.simps [of s])
qed

lemma CountNumEvents_eq: "chunk_holds (fgEvents p) (bytes_of es) \<Longrightarrow> \<forall>e\<in>set es. storable e \<Longrightarrow> CountNumEvents p = Some (int (length es))"
  using count_loop_counts [OF at_event_new] by (simp add: CountNumEvents_def)

fun first_error :: "EmRecordedEvent list \<Rightarrow> int \<Rightarrow> int" where
  "first_error [] n = - 1"
| "first_error (e # es) n = (if e = kRecordedErrorEvent then n else first_error es (n + 1))"

lemma error_loop_finds: "at_event s es i \<Longrightarrow> error_loop s n = Some (first_error (drop i es) n)"
proof (induction "length es - i" arbitrary: s i n)
  case 0
  then show ?case using at_event_more [OF 0(2)] by (simp add: error_loop.simps [of s] at_event_def)
next
  case (Suc k)
  then have i: "i < length es" by simp
  obtain s' where "get_event chunk_stream s = Some (es ! i, s')" "at_event s' es (Suc i)" using at_event_get [OF Suc(3) i] by blast
  then show ?case using Suc(1) [of "Suc i" s' "n + 1"] Suc(2) at_event_more [OF Suc(3)] i
    by (simp add: error_loop.simps [of s] Cons_nth_drop_Suc [symmetric])
qed

lemma FindFirstError_eq: "stored p es \<Longrightarrow> Playback_FindFirstError p = Some (first_error es 0)"
  using error_loop_finds [OF at_event_new, of "fgEvents p" es] by (simp add: Playback_FindFirstError_def stored_def)

lemma event_loop_gets: "at_event s es i \<Longrightarrow> event_loop n s e = Some (if n = 0 \<or> i = length es then e else es ! (min (i + n) (length es) - 1))"
proof (induction n arbitrary: s i e)
  case (Suc n)
  show ?case
  proof (cases "i < length es")
    case True
    obtain s' where "get_event chunk_stream s = Some (es ! i, s')" "at_event s' es (Suc i)" using at_event_get [OF Suc(2) True] by blast
    moreover have "min (i + Suc n) (length es) - 1 = i" if "n = 0 \<or> Suc i = length es" using that True by auto
    ultimately show ?thesis using Suc.IH [of s' "Suc i"] True at_event_more [OF Suc(2)] by auto
  next
    case False
    then show ?thesis using Suc(2) at_event_more [OF Suc(2)] by (auto simp: at_event_def)
  qed
qed simp

lemma GetEvent_eq: "stored p es \<Longrightarrow> i < length es \<Longrightarrow> GetEvent (int i) e p = Some (es ! i)"
  using event_loop_gets [OF at_event_new, of "fgEvents p" es "Suc i" e]
  by (auto simp: GetEvent_def stored_def nat_add_distrib)

text \<open>Culling replaces the events by those that would be replayed.\<close>

lemma CullEvents_eq:
  assumes "stored p es"
  defines "ds \<equiv> replayed False (masked es (fgMask p))"
  shows "\<exists>c it prev. CullEvents p = Some (p\<lparr>fgEvents := c, fgMask := replicate (length ds) True, fgIterationState := it,
      fgPrevIterationState := prev\<rparr>) \<and> chunk_holds c (bytes_of ds) \<and> (\<forall>e\<in>set ds. storable e)"
proof -
  have st: "\<forall>e\<in>set ds. storable e"
    using assms(1) by (auto simp: ds_def stored_def masked_def dest!: replayed_from set_zip_leftD)
  have r: "stored (ResetPlayback p) es" "fgIterationState (ResetPlayback p) = here es 0 False" "fgMask (ResetPlayback p) = fgMask p"
    using assms(1) by (simp_all add: ResetPlayback_def stored_def here_start [of es])
  obtain q t where q: "cull_loop (ResetPlayback p) (EmStreamChunk_new Chunk_new) = Some (q, t)"
    "\<exists>it prev. q = (ResetPlayback p)\<lparr>fgIterationState := it, fgPrevIterationState := prev\<rparr>" "chunk_ok t" "chunk_content t = bytes_of ds"
    using cull_loop_takes [OF r(1,2), of "EmStreamChunk_new Chunk_new"] new_stream [OF chunk_new_holds] r(3) by (auto simp: ds_def)
  have "chunk_holds (fgEvents q) (bytes_of es)" using q(2) r(1) by (auto simp: stored_def)
  from Chunk_assign_holds [OF this chunk_holds_stream [OF q(3)]] obtain c where c: "Chunk_assign (fgEvents q) (fChunk t) = Some c"
    "chunk_holds c (bytes_of ds)" using q(4) by auto
  then have "CountNumEvents (q\<lparr>fgEvents := c\<rparr>) = Some (int (length ds))" using st by (intro CountNumEvents_eq) simp_all
  then have "CullEvents p = Some (q\<lparr>fgEvents := c, fgMask := replicate (length ds) True\<rparr>)" using q(1) c(1) by (simp add: CullEvents_def)
  moreover obtain it prev where "q = p\<lparr>fgIterationState := it, fgPrevIterationState := prev\<rparr>" using q(2) by (auto simp: ResetPlayback_def)
  then have "q\<lparr>fgEvents := c, fgMask := replicate (length ds) True\<rparr> =
      p\<lparr>fgEvents := c, fgMask := replicate (length ds) True, fgIterationState := it, fgPrevIterationState := prev\<rparr>" by (cases p) simp
  ultimately show ?thesis using c(2) st by (intro exI [of _ c] exI [of _ it] exI [of _ prev]) simp
qed

section \<open>Recording, saving and loading\<close>

lemma RecordEvent_stored:
  assumes "stored p es" and "storable e" and "fgRecording p"
  shows "\<exists>c. RecordEvent e p = Some (p\<lparr>fgEvents := c, fgMask := fgMask p @ [True]\<rparr>) \<and> chunk_holds c (bytes_of (es @ [e]))"
proof -
  let ?s = "EmStream_SetMarker 0 kStreamFromEnd (EmStreamChunk_new (fgEvents p))"
  have n: "chunk_ok (EmStreamChunk_new (fgEvents p))" "chunk_content (EmStreamChunk_new (fgEvents p)) = bytes_of es"
    using assms(1) new_stream by (auto simp: stored_def)
  obtain t where t: "put_event chunk_stream e ?s = Some t" "chunk_ok t" "chunk_content t = bytes_of es @ event_bytes e"
    using chunk.event.flat_put [OF chunk_at_end(1) [OF n(1)] assms(2) chunk_at_end(2) [OF n(1)]] chunk_at_end(3) [OF n(1)] n(2) by auto
  then have "RecordEvent e p = Some (p\<lparr>fgEvents := fChunk t, fgMask := fgMask p @ [True]\<rparr>)" using assms(3) by (simp add: RecordEvent_def)
  then show ?thesis using chunk_holds_stream [OF t(2)] t(3) by (metis bytes_of_simps append_Nil2)
qed

end
