(* ===== verification/PlaybackResults.thy ===== *)
theory PlaybackResults
  imports Replay "HOL-Library.Sublist"
begin

text \<open>
  Properties of recorded events: they survive the file, and culling the disabled ones does not change
  what is replayed.
\<close>

section \<open>Recording and files\<close>

definition playback_new :: EmEventPlayback where
  "playback_new = \<lparr>fgEvents = Chunk_new, fgMask = [], fgRecording = False, fgReplaying = False,
     fgIterationState = EmIterationState_new, fgPrevIterationState = EmIterationState_new\<rparr>"

fun record_all :: "EmRecordedEvent list \<Rightarrow> 'z EmEventPlayback_scheme \<Rightarrow> 'z EmEventPlayback_scheme option" where
  "record_all [] p = Some p"
| "record_all (e # es) p = do { p \<leftarrow> RecordEvent e p; record_all es p }"

lemma record_all_stored:
  assumes "stored p ds" and "fgRecording p" and "\<forall>e\<in>set es. storable e"
  shows "\<exists>c. record_all es p = Some (p\<lparr>fgEvents := c, fgMask := fgMask p @ replicate (length es) True\<rparr>) \<and>
    chunk_holds c (bytes_of (ds @ es))"
  using assms
proof (induction es arbitrary: p ds)
  case Nil
  then show ?case by (intro exI [of _ "fgEvents p"]) (simp add: stored_def)
next
  case (Cons e es)
  obtain c where c: "RecordEvent e p = Some (p\<lparr>fgEvents := c, fgMask := fgMask p @ [True]\<rparr>)" "chunk_holds c (bytes_of (ds @ [e]))"
    using RecordEvent_stored [OF Cons.prems(1) _ Cons.prems(2), of e] Cons.prems(3) by auto
  let ?p = "p\<lparr>fgEvents := c, fgMask := fgMask p @ [True]\<rparr>"
  have "stored ?p (ds @ [e])" using c(2) Cons.prems(1,3) by (simp add: stored_def)
  from Cons.IH [OF this] c(1) Cons.prems(2,3) show ?case by auto
qed

lemma playback_new_stored: "stored (RecordEvents True playback_new) []"
  by (simp add: stored_def RecordEvents_def playback_new_def chunk_new_holds)

lemma recorded:
  assumes "\<forall>e\<in>set es. storable e"
  shows "\<exists>c. record_all es (RecordEvents True playback_new) =
      Some ((RecordEvents True playback_new)\<lparr>fgEvents := c, fgMask := replicate (length es) True\<rparr>) \<and>
    chunk_holds c (bytes_of es)"
  using record_all_stored [OF playback_new_stored _ assms] by (simp add: RecordEvents_def playback_new_def)

lemma event_bytes_length: "length (event_bytes e) \<le> 13"
  by (cases e) (auto simp: host_short_def host_long_def)

lemma bytes_of_length: "length (bytes_of es) \<le> 13 * length es"
  by (induction es) (use event_bytes_length in \<open>auto intro: add_mono\<close>)

lemma SaveEvents_eq:
  assumes "chunk_holds (fgEvents p) bs" and "length bs < 2 ^ 31"
  shows "\<exists>c. SaveEvents p = Some c \<and>
    chunk_holds c (host_long (Canonical kCurrentVersion) @ host_long (Canonical (of_nat (length bs))) @ bs)"
proof -
  note n = new_stream [OF chunk_new_holds]
  obtain s where s: "put_uint32 chunk_stream kCurrentVersion (EmStreamChunk_new Chunk_new) = Some s" "chunk_ok s"
    "chunk_content s = host_long (Canonical kCurrentVersion)" "marker s = length (chunk_content s)"
    using chunk.u32.flat_put [OF n(1) TrueI, of kCurrentVersion] n by auto
  obtain t where t: "put_uint32 chunk_stream (of_nat (length bs)) s = Some t" "chunk_ok t"
    "chunk_content t = chunk_content s @ host_long (Canonical (of_nat (length bs)))" "marker t = length (chunk_content t)"
    using chunk.u32.flat_put [OF s(2) TrueI s(4)] by blast
  obtain u where u: "put_bytes chunk_stream bs t = Some u" "chunk_ok u" "chunk_content u = chunk_content t @ bs"
    using chunk.put_bytes_end [OF t(2,4)] by blast
  have "fUsedSize (fgEvents p) = int (length bs)" "copy_out (fPtr (fgEvents p)) 0 (fUsedSize (fgEvents p)) = Some bs"
    using assms(1) by (auto simp: chunk_holds_def copy_out_def min_def)
  then have "SaveEvents p = Some (fChunk u)" using s(1) t(1) u(1) by (simp add: SaveEvents_def put_chunk_def)
  then show ?thesis using chunk_holds_stream [OF u(2)] u(3) t(3) s(3) by simp
qed

lemma Chunk_SetLength_room:
  assumes "chunk_holds c bs" and "0 \<le> n"
  shows "fUsedSize (Chunk_SetLength n c) = n" "fAllocatedSize (Chunk_SetLength n c) = int (length (fPtr (Chunk_SetLength n c)))"
    "n \<le> fAllocatedSize (Chunk_SetLength n c)"
  using assms by (auto simp: Chunk_SetLength_def Let_def ReallocMemory_def chunk_holds_def)

lemma get_chunk_eq:
  assumes "chunk_ok s" and "drop (marker s) (chunk_content s) = host_long (Canonical (of_nat (length bs))) @ bs"
    and "length bs < 2 ^ 31" and "chunk_holds c ds"
  shows "\<exists>d t. get_chunk chunk_stream c s = Some (d, t) \<and> chunk_holds d bs"
proof -
  let ?n = "of_nat (length bs) :: uint32"
  have n: "sint ?n = int (length bs)" by (rule sint_length [OF assms(3)])
  obtain t where t: "get_uint32 chunk_stream s = Some (?n, t)" "chunk_ok t" "chunk_content t = chunk_content s" "marker t = marker s + 4"
    using chunk.u32.flat_get [OF assms(1) TrueI, of ?n bs] assms(2) by auto
  have "drop (marker t) (chunk_content t) = drop 4 (drop (marker s) (chunk_content s))" using t by (simp add: add.commute)
  then have dt: "drop (marker t) (chunk_content t) = bs" using assms(2) by simp
  then have "marker t + length bs \<le> length (chunk_content t)" using chunk.pos_law [OF t(2)] by (metis le_add_diff_inverse length_drop order_refl)
  from chunk.get_law [OF t(2) this] obtain u where u: "GetBytes chunk_stream (int (length bs)) t = Some (0, bs, u)" using dt by auto
  define e where "e = Chunk_SetLength (int (length bs)) c"
  have e: "fUsedSize e = int (length bs)" "fAllocatedSize e = int (length (fPtr e))" "int (length bs) \<le> fAllocatedSize e"
    using Chunk_SetLength_room [OF assms(4), of "int (length bs)"] by (simp_all add: e_def)
  then have "copy_in (fPtr e) 0 bs = Some (bs @ drop (length bs) (fPtr e))" by (simp add: copy_in_def)
  then have "get_chunk chunk_stream c s = Some (e\<lparr>fPtr := bs @ drop (length bs) (fPtr e)\<rparr>, u)"
    using t(1) u n by (simp add: get_chunk_def Let_def e_def)
  then show ?thesis using e by (simp add: chunk_holds_def)
qed

lemma LoadEvents_eq:
  assumes "chunk_holds c (host_long (Canonical kCurrentVersion) @ host_long (Canonical (of_nat (length (bytes_of es)))) @ bytes_of es)"
    and "length (bytes_of es) < 2 ^ 31" and "\<forall>e\<in>set es. storable e" and "chunk_holds (fgEvents p) ds"
  shows "\<exists>d. LoadEvents (Some c) p = Some (p\<lparr>fgEvents := d, fgMask := replicate (length es) True\<rparr>) \<and> chunk_holds d (bytes_of es)"
proof -
  note n = new_stream [OF assms(1)]
  obtain s where s: "get_uint32 chunk_stream (EmStreamChunk_new c) = Some (kCurrentVersion, s)" "chunk_ok s"
    "chunk_content s = chunk_content (EmStreamChunk_new c)" "marker s = 4"
    using chunk.u32.flat_get [OF n(1) TrueI, of kCurrentVersion] n by auto
  have dr: "drop (marker s) (chunk_content s) = host_long (Canonical (of_nat (length (bytes_of es)))) @ bytes_of es"
    using s n by simp
  have "chunk_holds (Chunk_SetLength 0 (fgEvents p)) []"
    using assms(4) by (auto simp: Chunk_SetLength_def chunk_holds_def)
  from get_chunk_eq [OF s(2) dr assms(2) this] obtain d t where
    d: "get_chunk chunk_stream (Chunk_SetLength 0 (fgEvents p)) s = Some (d, t)" "chunk_holds d (bytes_of es)" by blast
  have "CountNumEvents (p\<lparr>fgEvents := d\<rparr>) = Some (int (length es))" using d(2) assms(3) by (intro CountNumEvents_eq) simp_all
  then have "LoadEvents (Some c) p = Some (p\<lparr>fgEvents := d, fgMask := replicate (length es) True\<rparr>)"
    using s(1) d(1) by (simp add: LoadEvents_def)
  then show ?thesis using d(2) by blast
qed

text \<open>
  C36: recorded events survive the file. Any events that are recorded one after the other, saved and
  loaded, in whatever state the loading finds the playback, are the events that the index yields, all
  of them enabled, if the pen was never at an x of 256 or more and a y below 256.
\<close>

theorem recorded_events_round_trip:
  assumes "\<forall>e\<in>set es. storable e" and "13 * length es < 2 ^ 31" and "\<forall>e\<in>set ds. storable e"
  shows "\<exists>p c r q. record_all es (RecordEvents True playback_new) = Some p \<and> SaveEvents p = Some c \<and>
    record_all ds (RecordEvents True playback_new) = Some r \<and> LoadEvents (Some c) r = Some q \<and>
    GetNumEvents q = int (length es) \<and> CountNumEvents q = Some (int (length es)) \<and> \<not> False \<in> set (fgMask q) \<and>
    map (\<lambda>i. GetEvent (int i) kRecordedUnknownEvent q) [0..<length es] = map Some es"
proof -
  obtain b where p: "record_all es (RecordEvents True playback_new) =
      Some ((RecordEvents True playback_new)\<lparr>fgEvents := b, fgMask := replicate (length es) True\<rparr>)" "chunk_holds b (bytes_of es)"
    using recorded [OF assms(1)] by blast
  obtain d where r: "record_all ds (RecordEvents True playback_new) =
      Some ((RecordEvents True playback_new)\<lparr>fgEvents := d, fgMask := replicate (length ds) True\<rparr>)" "chunk_holds d (bytes_of ds)"
    using recorded [OF assms(3)] by blast
  have l: "length (bytes_of es) < 2 ^ 31" using bytes_of_length [of es] assms(2) by linarith
  obtain c where c: "SaveEvents ((RecordEvents True playback_new)\<lparr>fgEvents := b, fgMask := replicate (length es) True\<rparr>) = Some c"
    "chunk_holds c (host_long (Canonical kCurrentVersion) @ host_long (Canonical (of_nat (length (bytes_of es)))) @ bytes_of es)"
    using SaveEvents_eq [OF _ l, of "(RecordEvents True playback_new)\<lparr>fgEvents := b, fgMask := replicate (length es) True\<rparr>"] p(2) by auto
  obtain q where q: "LoadEvents (Some c) ((RecordEvents True playback_new)\<lparr>fgEvents := d, fgMask := replicate (length ds) True\<rparr>) = Some q"
    "chunk_holds (fgEvents q) (bytes_of es)" "fgMask q = replicate (length es) True"
    using LoadEvents_eq [OF c(2) l assms(1), of "(RecordEvents True playback_new)\<lparr>fgEvents := d, fgMask := replicate (length ds) True\<rparr>"] r(2)
    by fastforce
  then have "stored q es" using assms(1) by (simp add: stored_def)
  then have "map (\<lambda>i. GetEvent (int i) kRecordedUnknownEvent q) [0..<length es] = map Some es"
    by (intro nth_equalityI) (simp_all add: GetEvent_eq)
  then show ?thesis using p(1) r(1) c(1) q CountNumEvents_eq [OF q(2) assms(1)] by (simp add: GetNumEvents_def)
qed

definition some_events :: "EmRecordedEvent list" where
  "some_events = [kRecordedNullEvent, kRecordedPenEvent 20 30, kRecordedPenEvent (- 1) (- 1), kRecordedKeyEvent 65 0 0,
     kRecordedKeyEvent 300 1 2, kRecordedPenEvent 400 300, kRecordedAppSwitchEvent 0 70000 1 5, kRecordedErrorEvent]"

theorem recorded_events_round_trip_witness:
  "\<exists>p c r q. record_all some_events (RecordEvents True playback_new) = Some p \<and> SaveEvents p = Some c \<and>
    record_all [] (RecordEvents True playback_new) = Some r \<and> LoadEvents (Some c) r = Some q \<and>
    GetNumEvents q = int (length some_events) \<and> CountNumEvents q = Some (int (length some_events)) \<and> \<not> False \<in> set (fgMask q) \<and>
    map (\<lambda>i. GetEvent (int i) kRecordedUnknownEvent q) [0..<length some_events] = map Some some_events"
  by (rule recorded_events_round_trip) (simp_all add: some_events_def)

text \<open>The exception: the position (300, 10) comes back as (1, 11274).\<close>

lemma wide_pen_event_misread:
  "(case Option.bind (record_all [kRecordedPenEvent 300 10] (RecordEvents True playback_new)) (GetEvent 0 kRecordedUnknownEvent) of
      Some e \<Rightarrow> e = kRecordedPenEvent 1 11274 | None \<Rightarrow> False)"
  by code_simp


section \<open>Replaying and culling\<close>

text \<open>Everything that is replayed to a system that asks for events, and not for the pen.\<close>

partial_function (option) ReplayAll :: "'z EmEventPlayback_scheme \<Rightarrow> EmRecordedEvent list option" where
  "ReplayAll p = do {
     (_, _, e, p) \<leftarrow> ReplayGetEvent p;
     case e of None \<Rightarrow> Some [] | Some e \<Rightarrow> do { es \<leftarrow> ReplayAll p; Some (e # es) } }"

declare ReplayAll.simps [code]

lemma replay_event_storable: "storable e \<Longrightarrow> \<exists>r calls. replay_event e = Some (r, calls)"
  by (cases e) auto

lemma ReplayGetEvent_skip:
  assumes "stored p es" and "fgIterationState p = here es i pen" and "i \<le> length es" and "fgReplaying p"
  shows "case skip pen (drop i (masked es (fgMask p))) of
      (None, _) \<Rightarrow> \<exists>q. ReplayGetEvent p = Some (False, [], None, q) \<and>
        q = ReplayEvents False (p\<lparr>fgIterationState := here es (length es) pen, fgPrevIterationState := here es i pen\<rparr>)
    | (Some e, ys) \<Rightarrow> \<exists>r calls. ReplayGetEvent p = Some (r, calls, Some e,
        p\<lparr>fgIterationState := here es (length es - length ys) (PrvIsPenDown e), fgPrevIterationState := here es i pen\<rparr>)"
proof -
  obtain r ys where sk: "skip pen (drop i (masked es (fgMask p))) = (r, ys)" by fastforce
  note g = GetNextReplayEvent_skip [OF assms(1-3), unfolded sk Let_def, simplified]
  show ?thesis
  proof (cases r)
    case None
    then have "ys = []" using skip_None sk by blast
    then show ?thesis using g None assms(4) by (simp add: sk ReplayGetEvent_def)
  next
    case (Some e)
    have "e \<in> fst ` set (drop i (masked es (fgMask p)))"
      using sk Some replayed_skip [of pen "drop i (masked es (fgMask p))"] by (intro replayed_from [where pen = pen]) simp
    then have "e \<in> set es" by (auto simp: masked_def dest!: in_set_dropD set_zip_leftD)
    then obtain b calls where "replay_event e = Some (b, calls)" using replay_event_storable [of e] assms(1) by (auto simp: stored_def)
    then show ?thesis using g Some assms(4) by (simp add: sk ReplayGetEvent_def set_pen_def)
  qed
qed

lemma ReplayAll_replayed:
  assumes "stored p es" and "fgIterationState p = here es i pen" and "i \<le> length es" and "fgReplaying p"
  shows "ReplayAll p = Some (replayed pen (drop i (masked es (fgMask p))))"
  using assms
proof (induction "length es - i" arbitrary: p i pen rule: less_induct)
  case less
  define xs where "xs = drop i (masked es (fgMask p))"
  have xl: "length xs = length es - i" using less.prems(1) by (simp add: xs_def masked_def stored_def)
  obtain r ys where sk: "skip pen xs = (r, ys)" by fastforce
  show ?case
  proof (cases r)
    case None
    then show ?thesis using ReplayGetEvent_skip [OF less.prems] sk replayed_skip [of pen xs]
      by (simp add: xs_def ReplayAll.simps [of p])
  next
    case (Some e)
    define j where "j = length es - length ys"
    define q where "q = p\<lparr>fgIterationState := here es j (PrvIsPenDown e), fgPrevIterationState := here es i pen\<rparr>"
    have lt: "length ys < length xs" using skip_shorter sk Some by blast
    have ys: "ys = drop j (masked es (fgMask p))"
      using skip_drop [of pen xs] lt xl less.prems(1) sk by (simp add: xs_def j_def stored_def masked_def)
    have "stored q es" "fgIterationState q = here es j (PrvIsPenDown e)" "fgMask q = fgMask p" "fgReplaying q"
      using less.prems(1,4) by (simp_all add: q_def stored_def)
    moreover have "length es - j < length es - i" "j \<le> length es" using lt xl by (auto simp: j_def)
    ultimately have "ReplayAll q = Some (replayed (PrvIsPenDown e) ys)" using less.hyps [of j q "PrvIsPenDown e"] ys by simp
    moreover obtain b calls where "ReplayGetEvent p = Some (b, calls, Some e, q)"
      using ReplayGetEvent_skip [OF less.prems] sk Some by (auto simp: xs_def q_def j_def)
    ultimately show ?thesis using sk Some replayed_skip [of pen xs] by (simp add: xs_def ReplayAll.simps [of p])
  qed
qed

text \<open>Sequences in which every pen-up directly follows a pen-down.\<close>

fun pens_ok :: "bool \<Rightarrow> EmRecordedEvent list \<Rightarrow> bool" where
  "pens_ok pen [] \<longleftrightarrow> True"
| "pens_ok pen (e # es) \<longleftrightarrow> (PrvIsPenUp e \<longrightarrow> pen) \<and> pens_ok (PrvIsPenDown e) es"

lemma replayed_pens_ok: "pens_ok pen (replayed pen xs)"
  by (induction pen xs rule: replayed.induct) (auto simp: PenUp_not_PenDown)

lemma replayed_all: "pens_ok pen ds \<Longrightarrow> replayed pen (masked ds (replicate (length ds) True)) = ds"
  by (induction pen ds rule: pens_ok.induct) (auto simp: masked_def PenUp_not_PenDown)

lemma replayed_subseq: "subseq (replayed pen xs) (map fst xs)"
proof (induction xs arbitrary: pen)
  case (Cons x xs)
  show ?case using Cons.IH by (cases x) (auto intro: list_emb_Cons)
qed simp

lemma replayed_enabled:
  "[e \<leftarrow> replayed pen xs. \<not> PrvIsPenUp e] = map fst [x \<leftarrow> xs. snd x \<and> \<not> PrvIsPenUp (fst x)]"
  by (induction pen xs rule: replayed.induct) auto

text \<open>
  C37: culling keeps what is replayed. For any mask over recorded events, replaying them, and replaying
  all that \<open>CullEvents\<close> leaves of them, yields the same sequence. It is a subsequence of the events,
  has all enabled events but pen-ups in their order, a pen-up only directly after a pen-down, and its
  length is what \<open>CountEnabledEvents\<close> says.
\<close>

theorem culling_keeps_replay:
  assumes "\<forall>e\<in>set es. storable e" and "length m = length es"
  shows "\<exists>p q c ds. record_all es (RecordEvents True playback_new) = Some p \<and> CullEvents (p\<lparr>fgMask := m\<rparr>) = Some q \<and>
    ReplayAll (ReplayEvents True (p\<lparr>fgMask := m\<rparr>)) = Some ds \<and> ReplayAll (ReplayEvents True q) = Some ds \<and>
    GetNumEvents q = int (length ds) \<and> CountEnabledEvents (p\<lparr>fgMask := m\<rparr>) = Some (int (length ds), c) \<and>
    subseq ds es \<and> pens_ok False ds \<and>
    [e \<leftarrow> ds. \<not> PrvIsPenUp e] = map fst [x \<leftarrow> zip es m. snd x \<and> \<not> PrvIsPenUp (fst x)]"
proof -
  obtain b where p: "record_all es (RecordEvents True playback_new) =
      Some ((RecordEvents True playback_new)\<lparr>fgEvents := b, fgMask := replicate (length es) True\<rparr>)" "chunk_holds b (bytes_of es)"
    using recorded [OF assms(1)] by blast
  define p where "p = (RecordEvents True playback_new)\<lparr>fgEvents := b, fgMask := m\<rparr>"
  define ds where "ds = replayed False (masked es m)"
  have st: "stored p es" using p(2) assms by (simp add: p_def stored_def)
  obtain c it prev where c: "CullEvents p = Some (p\<lparr>fgEvents := c, fgMask := replicate (length ds) True, fgIterationState := it,
      fgPrevIterationState := prev\<rparr>)" "chunk_holds c (bytes_of ds)" "\<forall>e\<in>set ds. storable e"
    using CullEvents_eq [OF st] by (auto simp: ds_def p_def)
  have replay: "ReplayAll (ReplayEvents True r) = Some (replayed False (masked fs (fgMask r)))" if "stored r fs" for r :: EmEventPlayback and fs
  proof -
    have "stored (ReplayEvents True r) fs" "fgMask (ReplayEvents True r) = fgMask r"
      using that by (simp_all add: ReplayEvents_def ResetPlayback_def stored_def)
    moreover have "fgIterationState (ReplayEvents True r) = here fs 0 False" "fgReplaying (ReplayEvents True r)"
      by (simp_all add: ReplayEvents_def ResetPlayback_def here_start [of fs])
    ultimately show ?thesis using ReplayAll_replayed [of "ReplayEvents True r" fs 0 False] by simp
  qed
  let ?q = "p\<lparr>fgEvents := c, fgMask := replicate (length ds) True, fgIterationState := it, fgPrevIterationState := prev\<rparr>"
  have "pens_ok False ds" by (simp add: ds_def replayed_pens_ok)
  then have q: "ReplayAll (ReplayEvents True ?q) = Some ds" using replay [of ?q ds] c(2,3) by (simp add: stored_def replayed_all)
  obtain k where k: "CountEnabledEvents p = Some (int (length ds), k)" using CountEnabledEvents_eq [OF st] by (auto simp: ds_def p_def)
  have "subseq ds es" using replayed_subseq [of False "masked es m"] assms(2) by (simp add: ds_def masked_def)
  moreover have "[e \<leftarrow> ds. \<not> PrvIsPenUp e] = map fst [x \<leftarrow> zip es m. snd x \<and> \<not> PrvIsPenUp (fst x)]"
    using replayed_enabled [of False "masked es m"] by (simp add: ds_def masked_def)
  moreover have "ReplayAll (ReplayEvents True p) = Some ds" using replay [OF st] by (simp add: ds_def p_def)
  moreover have "p = (RecordEvents True playback_new)\<lparr>fgEvents := b, fgMask := replicate (length es) True\<rparr>\<lparr>fgMask := m\<rparr>" by (simp add: p_def)
  ultimately show ?thesis using p(1) c(1) q k \<open>pens_ok False ds\<close>
    by (intro exI [of _ "(RecordEvents True playback_new)\<lparr>fgEvents := b, fgMask := replicate (length es) True\<rparr>"] exI [of _ ?q] exI [of _ k] exI [of _ ds])
       (simp add: GetNumEvents_def)
qed

theorem culling_keeps_replay_witness:
  "\<exists>p q c ds. record_all some_events (RecordEvents True playback_new) = Some p \<and>
    CullEvents (p\<lparr>fgMask := [False, True, False, False, True, False, True, False]\<rparr>) = Some q \<and>
    ReplayAll (ReplayEvents True (p\<lparr>fgMask := [False, True, False, False, True, False, True, False]\<rparr>)) = Some ds \<and>
    ReplayAll (ReplayEvents True q) = Some ds \<and> GetNumEvents q = int (length ds) \<and>
    CountEnabledEvents (p\<lparr>fgMask := [False, True, False, False, True, False, True, False]\<rparr>) = Some (int (length ds), c) \<and>
    subseq ds some_events \<and> pens_ok False ds \<and>
    [e \<leftarrow> ds. \<not> PrvIsPenUp e] =
      map fst [x \<leftarrow> zip some_events [False, True, False, False, True, False, True, False]. snd x \<and> \<not> PrvIsPenUp (fst x)]"
  by (rule culling_keeps_replay) (simp_all add: some_events_def)

end
