(* ===== verification/Minimize.thy ===== *)
theory Minimize
  imports EventPlayback PackedChunks
begin

text \<open>
  The minimiser of recorded events (\<open>EmMinimize.cpp\<close>): it replays the events again and again, with
  a range of them disabled, and keeps disabled what is not needed for the error to occur. Its state is
  that of the playback, extended by the stack of ranges and the numbers it keeps.

  The functions that decide what to do next call one another in tail position; none of them waits for
  a replay, so that they have to return. A failing assertion is \<open>None\<close>.
\<close>

section \<open>The state\<close>

record EmMinimizeLevel =
  fBegin :: int
  fEnd :: int
  fChecked :: bool

text \<open>
  The back of the vector \<open>fLevels\<close> is the head of the list. \<open>load_scheduled\<close> is what
  \<open>LoadInitialState\<close> asks the session for, \<open>gathering\<close> says that \<open>EmEventOutput\<close> collects
  context, and \<open>saved_history\<close> is what \<open>SaveMinimalEvents\<close> has written.
\<close>

record EmMinimize = EmEventPlayback +
  fLevels :: "EmMinimizeLevel list"
  fgIsOn :: bool
  fgStartTime :: uint32
  fgInitialNumberOfEvents :: int
  fgDiscardedNumberOfEvents :: int
  fgPassNumber :: int
  fgPassEndedInError :: bool
  load_scheduled :: bool
  gathering :: bool
  saved_history :: "Chunk option"

definition kMaxRange :: int where "kMaxRange = 1024"
definition kLastPass :: int where "kLastPass = 0"

definition TurnOn :: "bool \<Rightarrow> 'z EmMinimize_scheme \<Rightarrow> 'z EmMinimize_scheme" where
  "TurnOn newState m = m\<lparr>fgIsOn := newState\<rparr>"

definition Minimize_Reset :: "'z EmMinimize_scheme \<Rightarrow> 'z EmMinimize_scheme" where
  "Minimize_Reset m = (TurnOn False m)\<lparr>fLevels := []\<rparr>"

definition Stop :: "'z EmMinimize_scheme \<Rightarrow> 'z EmMinimize_scheme" where
  "Stop m = (ReplayEvents False (TurnOn False m))\<lparr>gathering := False\<rparr>"

definition MakeAnotherPass :: "int \<Rightarrow> int \<Rightarrow> bool" where
  "MakeAnotherPass oldNumEvents newNumEvents \<longleftrightarrow> newNumEvents < oldNumEvents"

definition CurrentRange :: "'z EmMinimize_scheme \<Rightarrow> int \<times> int" where
  "CurrentRange m = (case fLevels m of [] \<Rightarrow> (0, 0) | l # ls \<Rightarrow> (fBegin l, fEnd l))"

definition InitialLevel :: "'z EmMinimize_scheme \<Rightarrow> 'z EmMinimize_scheme option" where
  "InitialLevel m =
     (if fLevels m \<noteq> [] then None
      else Some (m\<lparr>fLevels := [\<lparr>fBegin = 0, fEnd = GetNumEvents m, fChecked = False\<rparr>]\<rparr>))"

section \<open>Splitting\<close>

text \<open>\<open>SplitCurrentLevel\<close>; the result says whether there are new ranges. Ranges are not negative.\<close>

function split_loop :: "EmMinimizeLevel list \<Rightarrow> (bool \<times> EmMinimizeLevel list) option" where
  "split_loop [] = None"
| "split_loop (prev # rest) =
     (if fEnd prev - fBegin prev \<le> 1 then Some (False, prev # rest)
      else let midpoint = (fBegin prev + fEnd prev) div 2
           in if \<not> (fBegin prev < midpoint \<and> midpoint < fEnd prev) then None
              else let right = \<lparr>fBegin = midpoint, fEnd = fEnd prev, fChecked = (fChecked prev \<and> fEnd prev - midpoint > 1)\<rparr>;
                       left = \<lparr>fBegin = fBegin prev, fEnd = midpoint, fChecked = (fChecked prev \<and> midpoint - fBegin prev > 1)\<rparr>
                   in if midpoint - fBegin prev \<le> kMaxRange then Some (True, left # right # rest)
                      else split_loop (left # right # rest))"
  by pat_completeness auto
termination
  by (relation "measure (\<lambda>ls. case ls of [] \<Rightarrow> 0 | l # _ \<Rightarrow> nat (fEnd l - fBegin l))") auto

definition SplitCurrentLevel :: "'z EmMinimize_scheme \<Rightarrow> (bool \<times> 'z EmMinimize_scheme) option" where
  "SplitCurrentLevel m = map_option (\<lambda>(split, ls). (split, m\<lparr>fLevels := ls\<rparr>)) (split_loop (fLevels m))"

definition LoadInitialState :: "'z EmMinimize_scheme \<Rightarrow> 'z EmMinimize_scheme" where
  "LoadInitialState m = m\<lparr>load_scheduled := True\<rparr>"

definition StartAgain :: "'z EmMinimize_scheme \<Rightarrow> 'z EmMinimize_scheme" where
  "StartAgain m = LoadInitialState (ReplayEvents True m)"

section \<open>Being done\<close>

text \<open>\<open>SaveMinimalEvents\<close> adds the error event that was taken off when the minimisation started.\<close>

definition SaveMinimalEvents :: "'z EmMinimize_scheme \<Rightarrow> 'z EmMinimize_scheme option" where
  "SaveMinimalEvents m = do {
     m \<leftarrow> RecordErrorEvent (RecordEvents True m);
     let m = RecordEvents False m;
     c \<leftarrow> SaveEvents m;
     Some (m\<lparr>saved_history := Some c\<rparr>) }"

definition MinimizationComplete :: "'z EmMinimize_scheme \<Rightarrow> 'z EmMinimize_scheme option" where
  "MinimizationComplete m = map_option LoadInitialState (SaveMinimalEvents (Stop m))"

section \<open>What to do next\<close>

definition uncheck_all :: "'z EmMinimize_scheme \<Rightarrow> 'z EmMinimize_scheme" where
  "uncheck_all m = m\<lparr>fLevels := map (\<lambda>l. l\<lparr>fChecked := False\<rparr>) (fLevels m)\<rparr>"

text \<open>A range of one event, which is to have the pen up, is not disabled.\<close>

definition is_pen_up_range :: "'z EmMinimize_scheme \<Rightarrow> bool option" where
  "is_pen_up_range m =
     (let (begin0, end0) = CurrentRange m
      in if end0 - begin0 = 1 then map_option PrvIsPenUp (GetEvent begin0 kRecordedUnknownEvent m) else Some False)"

definition disable_range :: "'z EmMinimize_scheme \<Rightarrow> 'z EmMinimize_scheme" where
  "disable_range m = (let (begin0, end0) = CurrentRange m in DisableEvents begin0 end0 m)"

definition weight :: "EmMinimizeLevel list \<Rightarrow> nat" where
  "weight ls = sum_list (map (\<lambda>l. max 1 (2 * nat (fEnd l - fBegin l) - 1)) ls)"

lemma weight_simps: "weight [] = 0" "weight (l # ls) = max 1 (2 * nat (fEnd l - fBegin l) - 1) + weight ls"
  by (simp_all add: weight_def)

lemma weight_halves:
  assumes "b < mid" and "mid < e"
  shows "max 1 (2 * nat (mid - b) - 1) + max 1 (2 * nat (e - mid) - 1) < max 1 (2 * nat (e - b) - (1 :: nat))"
proof -
  obtain x y where "mid = b + int x" "e = mid + int y" "0 < x" "0 < y"
    using assms by (metis diff_add_cancel add.commute diff_gt_0_iff_gt zero_less_imp_eq_int)
  then show ?thesis by auto
qed

text \<open>What one turn of the loop does to the top of the stack.\<close>

definition halves :: "EmMinimizeLevel \<Rightarrow> EmMinimizeLevel list" where
  "halves l = (let mid = (fBegin l + fEnd l) div 2
     in [\<lparr>fBegin = fBegin l, fEnd = mid, fChecked = (fChecked l \<and> mid - fBegin l > 1)\<rparr>,
         \<lparr>fBegin = mid, fEnd = fEnd l, fChecked = (fChecked l \<and> fEnd l - mid > 1)\<rparr>])"

lemma split_loop_turn:
  "split_loop (l # ls) =
     (if fEnd l - fBegin l \<le> 1 then Some (False, l # ls)
      else if (fBegin l + fEnd l) div 2 - fBegin l \<le> kMaxRange then Some (True, halves l @ ls)
      else split_loop (halves l @ ls))"
proof -
  have "fBegin l < (fBegin l + fEnd l) div 2 \<and> (fBegin l + fEnd l) div 2 < fEnd l" if "\<not> fEnd l - fBegin l \<le> 1" using that by auto
  then show ?thesis by (simp add: halves_def Let_def)
qed

lemma weight_split: "\<not> fEnd l - fBegin l \<le> 1 \<Longrightarrow> weight (halves l @ ls) < weight (l # ls)"
proof -
  assume "\<not> fEnd l - fBegin l \<le> 1"
  then have "fBegin l < (fBegin l + fEnd l) div 2" "(fBegin l + fEnd l) div 2 < fEnd l" by auto
  from weight_halves [OF this] show ?thesis
    unfolding halves_def Let_def append_Cons append_Nil weight_simps EmMinimizeLevel.select_convs by linarith
qed

lemma split_loop_weight: "split_loop ls = Some (split, ls') \<Longrightarrow> weight ls' \<le> weight ls \<and> (split \<longrightarrow> weight ls' < weight ls)"
proof (induction "weight ls" arbitrary: ls rule: less_induct)
  case less
  show ?case
  proof (cases ls)
    case Nil
    then show ?thesis using less.prems by simp
  next
    case (Cons l rest)
    show ?thesis
    proof (cases "fEnd l - fBegin l \<le> 1 \<or> (fBegin l + fEnd l) div 2 - fBegin l \<le> kMaxRange")
      case True
      then show ?thesis using less.prems weight_split [of l rest] unfolding Cons split_loop_turn by (auto split: if_splits)
    next
      case False
      then have "split_loop (halves l @ rest) = Some (split, ls')" using less.prems unfolding Cons split_loop_turn by simp
      moreover have "weight (halves l @ rest) < weight ls" using weight_split False Cons by simp
      ultimately show ?thesis using less.hyps [of "halves l @ rest"] by auto
    qed
  qed
qed

lemma weight_uncheck [simp]: "weight (map (\<lambda>l. l\<lparr>fChecked := False\<rparr>) ls) = weight ls"
  by (simp add: weight_def comp_def)

lemma weight_pop: "weight ls < weight (l # ls)"
  by (simp add: weight_simps)

function (sequential) SplitAndStartAgain :: "'z EmMinimize_scheme \<Rightarrow> 'z EmMinimize_scheme option"
  and DisableAndStartAgain :: "'z EmMinimize_scheme \<Rightarrow> 'z EmMinimize_scheme option"
  and NextSubRange :: "'z EmMinimize_scheme \<Rightarrow> 'z EmMinimize_scheme option"
  and MinimizationPassComplete :: "'z EmMinimize_scheme \<Rightarrow> 'z EmMinimize_scheme option"
where
  "SplitAndStartAgain m =
     (case SplitCurrentLevel m of
        None \<Rightarrow> None
      | Some (True, m) \<Rightarrow> DisableAndStartAgain m
      | Some (False, m) \<Rightarrow> NextSubRange (uncheck_all m))"
| "DisableAndStartAgain m =
     (case is_pen_up_range m of
        None \<Rightarrow> None
      | Some up \<Rightarrow> if up then NextSubRange m else Some (StartAgain (disable_range m)))"
| "NextSubRange m =
     (case fLevels m of
        [] \<Rightarrow> None
      | _ # ls \<Rightarrow>
         (case ls of
            [] \<Rightarrow> MinimizationPassComplete (m\<lparr>fLevels := []\<rparr>)
          | l # _ \<Rightarrow>
             (if fChecked l \<or> fEnd l - fBegin l > kMaxRange
              then SplitAndStartAgain (m\<lparr>fLevels := ls\<rparr>)
              else DisableAndStartAgain (m\<lparr>fLevels := ls\<rparr>))))"
| "MinimizationPassComplete m =
     (case CullEvents m of
        None \<Rightarrow> None
      | Some m' \<Rightarrow>
         if MakeAnotherPass (GetNumEvents m) (GetNumEvents m')
         then (case InitialLevel (m'\<lparr>fgPassNumber := fgPassNumber m' + 1\<rparr>) of
                 None \<Rightarrow> None
               | Some m'' \<Rightarrow> SplitAndStartAgain m'')
         else if fgPassNumber m' \<noteq> kLastPass
         then map_option StartAgain (InitialLevel (m'\<lparr>fgPassNumber := kLastPass, gathering := True\<rparr>))
         else MinimizationComplete m')"
  by pat_completeness auto
termination
  by (relation "measures [case_sum (case_sum (\<lambda>m. length (fgMask m)) (\<lambda>m. length (fgMask m))) (case_sum (\<lambda>m. length (fgMask m)) (\<lambda>m. length (fgMask m))),
        case_sum (case_sum (\<lambda>m. weight (fLevels m)) (\<lambda>m. weight (fLevels m))) (case_sum (\<lambda>m. weight (fLevels m)) (\<lambda>m. weight (fLevels m))),
        case_sum (case_sum (\<lambda>m. 1) (\<lambda>m. 1)) (case_sum (\<lambda>m. 0) (\<lambda>m. 0))]")
    (auto simp: SplitCurrentLevel_def uncheck_all_def InitialLevel_def MakeAnotherPass_def GetNumEvents_def weight_pop
      dest!: split_loop_weight split: if_splits)

declare SplitAndStartAgain.simps [simp del] DisableAndStartAgain.simps [simp del] NextSubRange.simps [simp del]
  MinimizationPassComplete.simps [simp del] split_loop.simps(2) [simp del]

section \<open>Starting, and what a replay ends with\<close>

text \<open>The dialog that says that there is no error event leaves the minimiser off. \<open>now\<close> is the time.\<close>

definition Start :: "Chunk option \<Rightarrow> uint32 \<Rightarrow> 'z EmMinimize_scheme \<Rightarrow> 'z EmMinimize_scheme option" where
  "Start history now m = do {
     m \<leftarrow> LoadEvents history m;
     let m = EnableEvents 0 LONG_MAX m;
     n \<leftarrow> Playback_FindFirstError m;
     let m = m\<lparr>fgInitialNumberOfEvents := n\<rparr>;
     if n < 0 then Some m
     else do {
       m \<leftarrow> CullEvents (DisableEvents n LONG_MAX m);
       n \<leftarrow> CountNumEvents m;
       let m = m\<lparr>fgInitialNumberOfEvents := n, fLevels := [], fgStartTime := now, fgDiscardedNumberOfEvents := 0, fgPassNumber := 1\<rparr>;
       m \<leftarrow> InitialLevel (TurnOn True m);
       SplitAndStartAgain m } }"

definition NoErrorOccurred :: "'z EmMinimize_scheme \<Rightarrow> 'z EmMinimize_scheme option" where
  "NoErrorOccurred m =
     (let m = m\<lparr>fgPassEndedInError := False\<rparr>;
          (begin0, end0) = CurrentRange m;
          m = EnableEvents begin0 end0 m
      in if fgPassNumber m = kLastPass
         then MinimizationPassComplete (m\<lparr>fLevels := []\<rparr>)
         else (case fLevels m of
                 [] \<Rightarrow> None
               | l # ls \<Rightarrow> SplitAndStartAgain (m\<lparr>fLevels := l\<lparr>fChecked := True\<rparr> # ls\<rparr>)))"

definition ErrorOccurred :: "'z EmMinimize_scheme \<Rightarrow> 'z EmMinimize_scheme option" where
  "ErrorOccurred m = do {
     let m = m\<lparr>fgPassEndedInError := True\<rparr>;
     (enabled, m) \<leftarrow> CountEnabledEvents m;
     let m = m\<lparr>fgDiscardedNumberOfEvents := fgInitialNumberOfEvents m - enabled\<rparr>;
     if GetCurrentEvent m < GetNumEvents m
     then MinimizationPassComplete ((DisableEvents (GetCurrentEvent m) LONG_MAX m)\<lparr>fLevels := []\<rparr>)
     else NextSubRange m }"

text \<open>\<open>ReplayGetEvent\<close> with the call that tells the minimiser that the events are exhausted.\<close>

definition Minimize_ReplayGetEvent :: "'z EmMinimize_scheme \<Rightarrow> (EmRecordedEvent option \<times> 'z EmMinimize_scheme) option" where
  "Minimize_ReplayGetEvent m = do {
     (_, _, e, m) \<leftarrow> ReplayGetEvent m;
     case e of
       Some e \<Rightarrow> Some (Some e, m)
     | None \<Rightarrow> map_option (\<lambda>m. (None, m)) (if fgIsOn m then NoErrorOccurred m else Some m) }"

definition GetElapsedTime :: "uint32 \<Rightarrow> 'z EmMinimize_scheme \<Rightarrow> uint32" where
  "GetElapsedTime now m = now - fgStartTime m"

section \<open>The file of the minimal events\<close>

text \<open>
  A copy of the file that was minimised, with every chunk but the history, and the minimal history
  behind them. \<open>deflate\<close> is the packing of gzip.
\<close>

definition kGremlinHistory :: uint32 where
  "kGremlinHistory = 0x68697374"

partial_function (option) copy_chunks ::
    "'s stream_ops \<Rightarrow> 't stream_ops \<Rightarrow> int \<Rightarrow> Chunk \<Rightarrow> 's \<Rightarrow> 't \<Rightarrow> (io_error + 't) option" where
  "copy_chunks old new index c s t =
     (case ReadChunkAt old index c s of
        None \<Rightarrow> None
      | Some (Inl e) \<Rightarrow> Some (Inl e)
      | Some (Inr (None, s)) \<Rightarrow> Some (Inr t)
      | Some (Inr (Some (tag, c), s)) \<Rightarrow>
          (if tag = kGremlinHistory then copy_chunks old new (index + 1) c s t
           else case copy_out (fPtr c) 0 (fUsedSize c) of
                  None \<Rightarrow> None
                | Some bs \<Rightarrow> (case WriteChunk new tag bs t of
                    Inl e \<Rightarrow> Some (Inl e)
                  | Inr t \<Rightarrow> copy_chunks old new (index + 1) c s t)))"

declare copy_chunks.simps [code]

definition write_minimal_file :: "(uint8 list \<Rightarrow> uint8 list) \<Rightarrow> 's stream_ops \<Rightarrow> 't stream_ops \<Rightarrow> 's \<Rightarrow> 't \<Rightarrow> Chunk \<Rightarrow>
    (io_error + 't) option" where
  "write_minimal_file deflate old new s t history =
     (case copy_chunks old new 0 Chunk_new s t of
        None \<Rightarrow> None
      | Some (Inl e) \<Rightarrow> Some (Inl e)
      | Some (Inr t) \<Rightarrow> map_option (\<lambda>bs. SessionFile_WriteChunk deflate new kGremlinHistory bs kGzipCompression t)
          (copy_out (fPtr history) 0 (fUsedSize history)))"

end
