(* ===== verification/MinimizeRuns.thy ===== *)
theory MinimizeRuns
  imports Minimize PlaybackResults
begin

text \<open>
  The minimiser together with what it drives: the emulated system, which takes the replayed events
  until an error occurs, and the session, which loads its initial state before each replay. The
  emulated system is a parameter.
\<close>

section \<open>Runs\<close>

definition minimize_new :: EmMinimize where
  "minimize_new = EmEventPlayback.extend playback_new \<lparr>fLevels = [], fgIsOn = False, fgStartTime = 0, fgInitialNumberOfEvents = 0,
     fgDiscardedNumberOfEvents = 0, fgPassNumber = 0, fgPassEndedInError = False, load_scheduled = False, gathering = False,
     saved_history = None\<rparr>"

text \<open>\<open>EmMinimize::RealLoadInitialState\<close>, as far as the minimiser is concerned.\<close>

definition reload :: "'z EmMinimize_scheme \<Rightarrow> 'z EmMinimize_scheme" where
  "reload m = m\<lparr>load_scheduled := False\<rparr>"

text \<open>
  How a replay may end: the events are exhausted, or an error occurs when the playback stands
  anywhere.
\<close>

datatype outcome = NoError | ErrorAt EmIterationState

fun run_outcome :: "outcome \<Rightarrow> 'z EmMinimize_scheme \<Rightarrow> 'z EmMinimize_scheme option" where
  "run_outcome NoError m = NoErrorOccurred (ReplayEvents False (reload m))"
| "run_outcome (ErrorAt it) m = ErrorOccurred ((reload m)\<lparr>fgIterationState := it\<rparr>)"

fun runs :: "outcome list \<Rightarrow> 'z EmMinimize_scheme \<Rightarrow> 'z EmMinimize_scheme option" where
  "runs [] m = Some m"
| "runs (r # rs) m = (if fgIsOn m then do { m \<leftarrow> run_outcome r m; runs rs m } else Some m)"

text \<open>
  A system whose behaviour is given by the events that it got: \<open>crash\<close> says whether the error
  has occurred after these. It asks for events, and not for the pen.
\<close>

partial_function (option) play :: "(EmRecordedEvent list \<Rightarrow> bool) \<Rightarrow> EmRecordedEvent list \<Rightarrow> 'z EmMinimize_scheme \<Rightarrow>
    'z EmMinimize_scheme option" where
  "play crash posted m =
     (if crash posted then ErrorOccurred m
      else do {
        (e, m) \<leftarrow> Minimize_ReplayGetEvent m;
        case e of None \<Rightarrow> Some m | Some e \<Rightarrow> play crash (posted @ [e]) m })"

declare play.simps [code]

partial_function (option) minimize_all :: "(EmRecordedEvent list \<Rightarrow> bool) \<Rightarrow> 'z EmMinimize_scheme \<Rightarrow> 'z EmMinimize_scheme option" where
  "minimize_all crash m = (if fgIsOn m then do { m \<leftarrow> play crash [] (reload m); minimize_all crash m } else Some m)"

declare minimize_all.simps [code]

definition minimize :: "(EmRecordedEvent list \<Rightarrow> bool) \<Rightarrow> EmRecordedEvent list \<Rightarrow> EmMinimize option" where
  "minimize crash es = do {
     p \<leftarrow> record_all (es @ [kRecordedErrorEvent]) (RecordEvents True playback_new);
     c \<leftarrow> SaveEvents p;
     m \<leftarrow> Start (Some c) 0 minimize_new;
     minimize_all crash m }"

end
