(* ===== verification/MinimizeInv.thy ===== *)
theory MinimizeInv
  imports MinimizeRuns
begin

text \<open>
  The invariant of the minimiser. Ranges on the stack cover the events from some point to the end; what
  lies before is decided. The invariant serves two purposes: with any outcomes of the replays it shows
  that the minimiser gets done, and with those of a system that fails on the replayed sequences
  satisfying \<open>F\<close> (then \<open>det\<close> is true) also what it has found.
\<close>

section \<open>Masks\<close>

abbreviation replay :: "EmRecordedEvent list \<Rightarrow> bool list \<Rightarrow> EmRecordedEvent list" where
  "replay es m \<equiv> replayed False (masked es m)"

lemma fold_mask: "length (fold (\<lambda>ii m. m[ii := v]) is m) = length m"
    "i < length m \<Longrightarrow> fold (\<lambda>ii m. m[ii := v]) is m ! i = (if i \<in> set is then v else m ! i)"
  by (induction "is" arbitrary: m) auto

lemma mask_length [simp]: "length (fgMask (EnableEvents b e m)) = length (fgMask m)" "length (fgMask (DisableEvents b e m)) = length (fgMask m)"
  by (simp_all add: EnableEvents_def DisableEvents_def mask_loop_def fold_mask Let_def)

lemma mask_nth:
  assumes "i < length (fgMask m)"
  shows "fgMask (EnableEvents b e m) ! i \<longleftrightarrow> b \<le> int i \<and> int i < e \<or> fgMask m ! i"
    and "fgMask (DisableEvents b e m) ! i \<longleftrightarrow> \<not> (b \<le> int i \<and> int i < e) \<and> fgMask m ! i"
  using assms by (auto simp: EnableEvents_def DisableEvents_def mask_loop_def fold_mask Let_def)

lemma masks_only:
  "EnableEvents b e m = m\<lparr>fgMask := fgMask (EnableEvents b e m)\<rparr>" "DisableEvents b e m = m\<lparr>fgMask := fgMask (DisableEvents b e m)\<rparr>"
  by (simp_all add: EnableEvents_def DisableEvents_def Let_def)

lemma replay_all: "pens_ok False es \<Longrightarrow> length m = length es \<Longrightarrow> \<forall>i<length es. m ! i \<Longrightarrow> replay es m = es"
proof -
  assume "pens_ok False es" "length m = length es" "\<forall>i<length es. m ! i"
  then have "m = replicate (length es) True" by (intro nth_equalityI) auto
  then show ?thesis using \<open>pens_ok False es\<close> by (simp add: replayed_all)
qed

lemma replay_subseq: "length m = length es \<Longrightarrow> subseq (replay es m) es"
  using replayed_subseq [of False "masked es m"] by (simp add: masked_def)

text \<open>A disabled event that is not a pen-up is missing.\<close>

lemma replay_misses:
  assumes "length m = length es" and "i < length es" and "\<not> m ! i" and "\<not> PrvIsPenUp (es ! i)"
  shows "length (replay es m) < length es"
proof -
  have "length [e \<leftarrow> replay es m. \<not> PrvIsPenUp e] = length [x \<leftarrow> masked es m. snd x \<and> \<not> PrvIsPenUp (fst x)]"
    using replayed_enabled [of False "masked es m"] by simp
  also have "\<dots> < length [x \<leftarrow> masked es m. \<not> PrvIsPenUp (fst x)]"
  proof -
    have "[x \<leftarrow> masked es m. snd x \<and> \<not> PrvIsPenUp (fst x)] = [x \<leftarrow> [x \<leftarrow> masked es m. \<not> PrvIsPenUp (fst x)]. snd x]"
      by (simp add: conj_commute)
    moreover have "(es ! i, m ! i) \<in> set [x \<leftarrow> masked es m. \<not> PrvIsPenUp (fst x)]"
      using assms by (auto simp: masked_def set_zip)
    ultimately show ?thesis using assms(3) by (metis length_filter_less snd_conv)
  qed
  also have "\<dots> = length [e \<leftarrow> es. \<not> PrvIsPenUp e]"
  proof -
    have "map fst [x \<leftarrow> masked es m. \<not> PrvIsPenUp (fst x)] = [e \<leftarrow> es. \<not> PrvIsPenUp e]"
      using assms(1) filter_map [of "\<lambda>e. \<not> PrvIsPenUp e" fst "masked es m"] by (simp add: masked_def comp_def)
    then show ?thesis by (metis length_map)
  qed
  finally have "length [e \<leftarrow> replay es m. \<not> PrvIsPenUp e] < length [e \<leftarrow> es. \<not> PrvIsPenUp e]" .
  then have "replay es m \<noteq> es" by auto
  moreover have "length (replay es m) \<le> length es" using replay_subseq [OF assms(1)] by (rule list_emb_length)
  ultimately show ?thesis using subseq_same_length [OF replay_subseq [OF assms(1)]] by linarith
qed

text \<open>Of two events that follow one another one is not a pen-up.\<close>

lemma pens_ok_nth: "pens_ok pen es \<Longrightarrow> Suc i < length es \<Longrightarrow> PrvIsPenUp (es ! Suc i) \<Longrightarrow> PrvIsPenDown (es ! i)"
proof (induction es arbitrary: pen i)
  case (Cons e es)
  then show ?case by (cases i; cases es) auto
qed simp

lemma some_other_event:
  assumes "pens_ok False es" and "b < e" and "e \<le> length es" and "\<not> (e - b = 1 \<and> PrvIsPenUp (es ! b))"
  shows "\<exists>i. b \<le> i \<and> i < e \<and> \<not> PrvIsPenUp (es ! i)"
proof (cases "e - b = 1")
  case False
  then have "Suc b < e" using assms(2) by linarith
  then show ?thesis using pens_ok_nth [OF assms(1), of b] PenUp_not_PenDown [of "es ! b"] assms(3)
    by (metis less_le_not_le le_SucI less_Suc_eq_le less_le_trans order_refl Suc_lessD)
qed (use assms in auto)

section \<open>The stack of ranges\<close>

fun chain :: "int \<Rightarrow> EmMinimizeLevel list \<Rightarrow> int \<Rightarrow> bool" where
  "chain b [] n \<longleftrightarrow> b = n"
| "chain b (l # ls) n \<longleftrightarrow> fBegin l = b \<and> (b < fEnd l \<or> n = 0 \<and> b = 0 \<and> fEnd l = 0 \<and> ls = []) \<and> chain (fEnd l) ls n"

definition checks :: "EmMinimizeLevel list \<Rightarrow> bool" where
  "checks ls \<longleftrightarrow> (\<forall>l\<in>set ls. fChecked l \<longrightarrow> fEnd l - fBegin l > 1)"

lemma chain_le: "chain b ls n \<Longrightarrow> b \<le> n"
  by (induction b ls n rule: chain.induct) auto

lemma chain_uncheck [simp]: "chain b (map (\<lambda>l. l\<lparr>fChecked := False\<rparr>) ls) n = chain b ls n"
  by (induction ls arbitrary: b) auto

lemma checks_uncheck [simp]: "checks (map (\<lambda>l. l\<lparr>fChecked := False\<rparr>) ls)"
  by (auto simp: checks_def)

lemma halves_ok:
  assumes "chain b (l # ls) n" and "checks ls" and "\<not> fEnd l - fBegin l \<le> 1"
  shows "chain b (halves l @ ls) n" "checks (halves l @ ls)"
  using assms by (auto simp: halves_def Let_def checks_def)

lemma split_ok:
  assumes "chain b (l # ls) n" and "checks ls" and "\<not> fEnd l - fBegin l \<le> 1"
  shows "\<exists>l' ls'. split_loop (l # ls) = Some (True, l' # ls') \<and> chain b (l' # ls') n \<and> checks (l' # ls') \<and>
    weight (l' # ls') < weight (l # ls)"
  using assms
proof (induction "weight (l # ls)" arbitrary: l ls rule: less_induct)
  case less
  note h = halves_ok [OF less.prems]
  obtain l' ls' where l': "halves l @ ls = l' # ls'" by (simp add: halves_def Let_def)
  show ?case
  proof (cases "(fBegin l + fEnd l) div 2 - fBegin l \<le> kMaxRange")
    case True
    then have "split_loop (l # ls) = Some (True, halves l @ ls)" using less.prems(3) by (simp add: split_loop_turn)
    then show ?thesis using h weight_split [OF less.prems(3), of ls] l' by auto
  next
    case False
    then have s: "split_loop (l # ls) = split_loop (l' # ls')" using less.prems(3) l' by (simp add: split_loop_turn)
    have w: "weight (l' # ls') < weight (l # ls)" using weight_split [OF less.prems(3), of ls] l' by simp
    have "fEnd l' - fBegin l' = (fBegin l + fEnd l) div 2 - fBegin l" using l' by (auto simp: halves_def Let_def)
    then have "\<not> fEnd l' - fBegin l' \<le> 1" using False by (simp add: kMaxRange_def)
    moreover have "checks ls'" using h(2) l' by (simp add: checks_def)
    ultimately obtain l'' ls'' where "split_loop (l' # ls') = Some (True, l'' # ls'')" "chain b (l'' # ls'') n" "checks (l'' # ls'')"
      "weight (l'' # ls'') < weight (l' # ls')" using less.hyps [OF w] h(1) l' by fastforce
    then show ?thesis using s w by auto
  qed
qed

section \<open>The invariant\<close>

text \<open>
  An event that cannot be taken out: a pen-up, or one without which the replay does not fail.
\<close>

definition needed :: "(EmRecordedEvent list \<Rightarrow> bool) \<Rightarrow> EmRecordedEvent list \<Rightarrow> nat \<Rightarrow> bool" where
  "needed F es i \<longleftrightarrow> PrvIsPenUp (es ! i) \<or> \<not> F (replay es ((replicate (length es) True)[i := False]))"

text \<open>
  Before \<open>b\<close>, either an event has been discarded, so that there will be another pass, or every
  event is enabled and was tried on its own.
\<close>

definition decided :: "(EmRecordedEvent list \<Rightarrow> bool) \<Rightarrow> EmRecordedEvent list \<Rightarrow> bool list \<Rightarrow> int \<Rightarrow> bool" where
  "decided F es m b \<longleftrightarrow>
     (\<forall>i<length es. int i < b \<longrightarrow> PrvIsPenUp (es ! i) \<or> m ! i) \<longrightarrow>
     (\<forall>i<length es. int i < b \<longrightarrow> m ! i \<and> (2 \<le> length es \<longrightarrow> needed F es i))"

definition all_needed :: "(EmRecordedEvent list \<Rightarrow> bool) \<Rightarrow> EmRecordedEvent list \<Rightarrow> bool" where
  "all_needed F es \<longleftrightarrow> (2 \<le> length es \<longrightarrow> (\<forall>i<length es. needed F es i))"

text \<open>The events of the playback, which come from \<open>es0\<close>.\<close>

definition events_ok :: "EmRecordedEvent list \<Rightarrow> 'z EmMinimize_scheme \<Rightarrow> EmRecordedEvent list \<Rightarrow> bool" where
  "events_ok es0 m es \<longleftrightarrow> stored m es \<and> pens_ok False es \<and> subseq es es0 \<and> 13 * (length es0 + 1) < 2 ^ 31"

text \<open>Between two replays, in a pass that tries to discard events: all from \<open>b\<close> on are enabled.\<close>

definition deciding :: "bool \<Rightarrow> (EmRecordedEvent list \<Rightarrow> bool) \<Rightarrow> EmRecordedEvent list \<Rightarrow> 'z EmMinimize_scheme \<Rightarrow> EmRecordedEvent list \<Rightarrow> int \<Rightarrow> bool" where
  "deciding det F es0 m es b \<longleftrightarrow> events_ok es0 m es \<and> fgIsOn m \<and> 0 < fgPassNumber m \<and> 0 \<le> b \<and>
     (\<forall>i<length es. b \<le> int i \<longrightarrow> fgMask m ! i) \<and> (det \<longrightarrow> F (replay es (fgMask m)) \<and> decided F es (fgMask m) b)"

text \<open>Waiting for the end of a replay with the range at the top of the stack disabled.\<close>

definition enable_top :: "EmMinimizeLevel \<Rightarrow> 'z EmMinimize_scheme \<Rightarrow> 'z EmMinimize_scheme" where
  "enable_top l m = EnableEvents (fBegin l) (fEnd l) m"

definition trying :: "bool \<Rightarrow> (EmRecordedEvent list \<Rightarrow> bool) \<Rightarrow> EmRecordedEvent list \<Rightarrow> 'z EmMinimize_scheme \<Rightarrow> EmRecordedEvent list \<Rightarrow> bool" where
  "trying det F es0 m es \<longleftrightarrow>
     (\<exists>l ls. fLevels m = l # ls \<and> chain (fBegin l) (l # ls) (int (length es)) \<and> checks ls \<and> 0 \<le> fBegin l \<and> fBegin l < fEnd l \<and>
       (\<forall>i<length es. fBegin l \<le> int i \<longrightarrow> fgMask m ! i = (fEnd l \<le> int i)) \<and>
       \<not> (fEnd l - fBegin l = 1 \<and> PrvIsPenUp (es ! nat (fBegin l))) \<and>
       deciding det F es0 (enable_top l m) es (fBegin l))"

text \<open>Waiting for the end of the last pass.\<close>

definition reporting :: "bool \<Rightarrow> (EmRecordedEvent list \<Rightarrow> bool) \<Rightarrow> EmRecordedEvent list \<Rightarrow> 'z EmMinimize_scheme \<Rightarrow> EmRecordedEvent list \<Rightarrow> bool" where
  "reporting det F es0 m es \<longleftrightarrow> events_ok es0 m es \<and> fgIsOn m \<and> fgPassNumber m = 0 \<and>
     (\<exists>l. fLevels m = [l] \<and> fBegin l = 0 \<and> fEnd l = int (length es)) \<and>
     (\<forall>i<length es. fgMask m ! i) \<and> (det \<longrightarrow> F es \<and> all_needed F es)"

text \<open>
  Done, with the minimal events and the error event in the file. \<open>E\<close> is what the last replay has
  shown of the events.
\<close>

definition finished :: "bool \<Rightarrow> (EmRecordedEvent list \<Rightarrow> bool) \<Rightarrow> (EmRecordedEvent list \<Rightarrow> bool) \<Rightarrow> EmRecordedEvent list \<Rightarrow> 'z EmMinimize_scheme \<Rightarrow> EmRecordedEvent list \<Rightarrow> bool" where
  "finished det F E es0 m es \<longleftrightarrow> \<not> fgIsOn m \<and> subseq es es0 \<and> pens_ok False es \<and> (det \<longrightarrow> F es \<and> all_needed F es \<and> E es) \<and>
     (\<exists>p c. saved_history m = Some c \<and> SaveEvents p = Some c \<and> stored (p :: 'z EmMinimize_scheme) (es @ [kRecordedErrorEvent]))"

text \<open>How many replays there may still be.\<close>

definition passes_below :: "nat \<Rightarrow> nat" where
  "passes_below n = (if n = 0 then 0 else (n - 1) * (n - 1) + 1)"

definition waiting :: "bool \<Rightarrow> (EmRecordedEvent list \<Rightarrow> bool) \<Rightarrow> EmRecordedEvent list \<Rightarrow> nat \<Rightarrow> 'z EmMinimize_scheme \<Rightarrow> EmRecordedEvent list \<Rightarrow> bool" where
  "waiting det F es0 k m es \<longleftrightarrow>
     trying det F es0 m es \<and> weight (fLevels m) + 1 + passes_below (length es) \<le> k \<or>
     reporting det F es0 m es \<and> 1 + passes_below (length es) \<le> k"

definition reached :: "bool \<Rightarrow> (EmRecordedEvent list \<Rightarrow> bool) \<Rightarrow> (EmRecordedEvent list \<Rightarrow> bool) \<Rightarrow> EmRecordedEvent list \<Rightarrow> nat \<Rightarrow> 'z EmMinimize_scheme option \<Rightarrow> bool" where
  "reached det F E es0 k r \<longleftrightarrow> (\<exists>m es. r = Some m \<and>
     (waiting det F es0 k m es \<and> fgReplaying m \<and> fgIterationState m = here es 0 False \<or> finished det F E es0 m es))"

lemma reached_mono: "reached det F E es0 k r \<Longrightarrow> k \<le> k' \<Longrightarrow> reached det F E es0 k' r"
  unfolding reached_def waiting_def using order_trans by blast

section \<open>Steps that do not depend on one another\<close>

lemma events_ok_update:
  "events_ok es0 m es \<Longrightarrow> fgEvents m' = fgEvents m \<Longrightarrow> length (fgMask m') = length (fgMask m) \<Longrightarrow> events_ok es0 m' es"
  by (simp add: events_ok_def stored_def)

lemma stored_mask: "stored m es \<Longrightarrow> length (fgMask m) = length es"
  by (simp add: stored_def)

lemma events_ok_mask: "events_ok es0 m es \<Longrightarrow> length (fgMask m) = length es"
  by (simp add: events_ok_def stored_def)

lemma enable_top_fields [simp]:
  "fgEvents (enable_top l m) = fgEvents m" "fgIsOn (enable_top l m) = fgIsOn m" "fgPassNumber (enable_top l m) = fgPassNumber m"
  "fLevels (enable_top l m) = fLevels m" "length (fgMask (enable_top l m)) = length (fgMask m)"
  "fgReplaying (enable_top l m) = fgReplaying m" "fgIterationState (enable_top l m) = fgIterationState m"
  by (simp_all add: enable_top_def EnableEvents_def mask_loop_def fold_mask Let_def)

text \<open>Being done: the error event is added and the events are saved.\<close>

lemma MinimizationComplete_ok:
  assumes "events_ok es0 m es" and "det \<Longrightarrow> F es \<and> all_needed F es \<and> E es"
  shows "\<exists>m'. MinimizationComplete m = Some m' \<and> finished det F E es0 m' es"
proof -
  have st: "stored (RecordEvents True (Stop m)) es" "fgRecording (RecordEvents True (Stop m))"
    using assms(1) by (simp_all add: events_ok_def stored_def RecordEvents_def Stop_def ReplayEvents_def TurnOn_def)
  then obtain c where c: "RecordErrorEvent (RecordEvents True (Stop m)) =
      Some ((RecordEvents True (Stop m))\<lparr>fgEvents := c, fgMask := fgMask (RecordEvents True (Stop m)) @ [True]\<rparr>)"
    "chunk_holds c (bytes_of (es @ [kRecordedErrorEvent]))"
    using RecordEvent_stored [OF st(1), of kRecordedErrorEvent] by (auto simp: RecordErrorEvent_def)
  define p where "p = RecordEvents False ((RecordEvents True (Stop m))\<lparr>fgEvents := c, fgMask := fgMask (RecordEvents True (Stop m)) @ [True]\<rparr>)"
  have p: "stored p (es @ [kRecordedErrorEvent])" using st(1) c(2) by (simp add: p_def stored_def RecordEvents_def)
  have "length es \<le> length es0" using assms(1) by (auto simp: events_ok_def list_emb_length)
  then have l: "length (bytes_of (es @ [kRecordedErrorEvent])) < 2 ^ 31"
    using bytes_of_length [of "es @ [kRecordedErrorEvent]"] assms(1) unfolding events_ok_def by fastforce
  obtain d where d: "SaveEvents p = Some d" using SaveEvents_eq [OF _ l, of p] p by (auto simp: stored_def)
  have "MinimizationComplete m = Some (LoadInitialState (p\<lparr>saved_history := Some d\<rparr>))"
    using c(1) d by (simp add: MinimizationComplete_def SaveMinimalEvents_def p_def [symmetric])
  moreover have "fgIsOn p = False" by (simp add: p_def RecordEvents_def Stop_def ReplayEvents_def TurnOn_def)
  ultimately show ?thesis using assms p d by (auto simp: finished_def LoadInitialState_def events_ok_def)
qed

text \<open>The last pass begins.\<close>

lemma last_pass_ok:
  assumes "events_ok es0 m es" and "fgIsOn m" and "fLevels m = []" and "\<forall>i<length es. fgMask m ! i"
    and "det \<Longrightarrow> F es \<and> all_needed F es"
  shows "\<exists>m'. map_option StartAgain (InitialLevel (m\<lparr>fgPassNumber := kLastPass, gathering := True\<rparr>)) = Some m' \<and>
    reporting det F es0 m' es \<and> fgReplaying m' \<and> fgIterationState m' = here es 0 False"
  using assms by (auto simp: InitialLevel_def StartAgain_def ReplayEvents_def ResetPlayback_def LoadInitialState_def reporting_def
      events_ok_def stored_def kLastPass_def GetNumEvents_def here_start [of es])

text \<open>A range is disabled and the replay begins.\<close>

lemma start_trying:
  assumes "deciding det F es0 m es (fBegin l)" and "fLevels m = l # ls" and "chain (fBegin l) (l # ls) (int (length es))" and "checks ls"
    and "fBegin l < fEnd l" and "\<not> (fEnd l - fBegin l = 1 \<and> PrvIsPenUp (es ! nat (fBegin l)))"
  shows "trying det F es0 (StartAgain (disable_range m)) es" and "fgReplaying (StartAgain (disable_range m))"
    and "fgIterationState (StartAgain (disable_range m)) = here es 0 False" and "fLevels (StartAgain (disable_range m)) = l # ls"
proof -
  have e: "events_ok es0 m es" and m: "length (fgMask m) = length es" using assms(1) by (auto simp: deciding_def events_ok_def stored_def)
  have d: "disable_range m = DisableEvents (fBegin l) (fEnd l) m" by (simp add: disable_range_def CurrentRange_def assms(2))
  define t where "t = StartAgain (disable_range m)"
  have t: "fgMask t = fgMask (DisableEvents (fBegin l) (fEnd l) m)" "fgEvents t = fgEvents m" "fLevels t = fLevels m" "fgIsOn t = fgIsOn m"
    "fgPassNumber t = fgPassNumber m" "fgReplaying t" "fgIterationState t = here es 0 False"
    unfolding t_def d by (simp_all add: StartAgain_def LoadInitialState_def ReplayEvents_def ResetPlayback_def here_start [of es]
        DisableEvents_def Let_def)
  have mask: "fgMask (enable_top l t) = fgMask m"
  proof (rule nth_equalityI)
    show "length (fgMask (enable_top l t)) = length (fgMask m)" by (simp add: t(1))
    fix i
    assume "i < length (fgMask (enable_top l t))"
    then have i: "i < length (fgMask t)" "i < length (fgMask m)" by (simp_all add: t(1))
    have "fgMask m ! i" if "fBegin l \<le> int i" using that assms(1) i m by (simp add: deciding_def)
    then show "fgMask (enable_top l t) ! i = fgMask m ! i"
      using mask_nth(1) [OF i(1), of "fBegin l" "fEnd l"] mask_nth(2) [OF i(2), of "fBegin l" "fEnd l"]
      by (auto simp: enable_top_def t(1))
  qed
  have "deciding det F es0 (enable_top l t) es (fBegin l)"
    using assms(1) mask t by (simp add: deciding_def events_ok_def stored_def)
  moreover have "fgMask t ! i = (fEnd l \<le> int i)" if "i < length es" "fBegin l \<le> int i" for i
    using mask_nth(2) [of i m "fBegin l" "fEnd l"] that m assms(1) by (auto simp: t(1) deciding_def)
  ultimately have "trying det F es0 t es" using assms t by (auto simp: trying_def deciding_def)
  then show "trying det F es0 (StartAgain (disable_range m)) es" "fgReplaying (StartAgain (disable_range m))"
    "fgIterationState (StartAgain (disable_range m)) = here es 0 False" "fLevels (StartAgain (disable_range m)) = l # ls"
    using t assms(2) by (simp_all add: t_def)
qed

end
