(* ===== verification/MinimizeSteps.thy ===== *)
theory MinimizeSteps
  imports MinimizeInv
begin

text \<open>
  The decisions of the minimiser keep the invariant of \<open>MinimizeInv\<close>: each of the functions that
  call one another, and then what a replay ends with.
\<close>

section \<open>What each function starts from\<close>

definition split_good :: "bool \<Rightarrow> (EmRecordedEvent list \<Rightarrow> bool) \<Rightarrow> (EmRecordedEvent list \<Rightarrow> bool) \<Rightarrow> EmRecordedEvent list \<Rightarrow> 'z EmMinimize_scheme \<Rightarrow> bool" where
  "split_good det F E es0 m \<longleftrightarrow> (\<forall>es l ls. fLevels m = l # ls \<longrightarrow> chain (fBegin l) (l # ls) (int (length es)) \<longrightarrow> checks ls \<longrightarrow>
     deciding det F es0 m es (fBegin l) \<longrightarrow> (fEnd l - fBegin l \<le> 1 \<longrightarrow> det \<longrightarrow> decided F es (fgMask m) (fEnd l)) \<longrightarrow>
     reached det F E es0 (weight (l # ls) + passes_below (length es)) (SplitAndStartAgain m))"

definition disable_good :: "bool \<Rightarrow> (EmRecordedEvent list \<Rightarrow> bool) \<Rightarrow> (EmRecordedEvent list \<Rightarrow> bool) \<Rightarrow> EmRecordedEvent list \<Rightarrow> 'z EmMinimize_scheme \<Rightarrow> bool" where
  "disable_good det F E es0 m \<longleftrightarrow> (\<forall>es l ls. fLevels m = l # ls \<longrightarrow> chain (fBegin l) (l # ls) (int (length es)) \<longrightarrow> checks ls \<longrightarrow>
     deciding det F es0 m es (fBegin l) \<longrightarrow> fBegin l < fEnd l \<longrightarrow>
     reached det F E es0 (weight (l # ls) + 1 + passes_below (length es)) (DisableAndStartAgain m))"

definition next_good :: "bool \<Rightarrow> (EmRecordedEvent list \<Rightarrow> bool) \<Rightarrow> (EmRecordedEvent list \<Rightarrow> bool) \<Rightarrow> EmRecordedEvent list \<Rightarrow> 'z EmMinimize_scheme \<Rightarrow> bool" where
  "next_good det F E es0 m \<longleftrightarrow> (\<forall>es l ls. fLevels m = l # ls \<longrightarrow> chain (fBegin l) (l # ls) (int (length es)) \<longrightarrow> checks ls \<longrightarrow>
     0 \<le> fBegin l \<longrightarrow> deciding det F es0 m es (fEnd l) \<longrightarrow>
     reached det F E es0 (weight ls + 1 + passes_below (length es)) (NextSubRange m))"

definition pass_good :: "bool \<Rightarrow> (EmRecordedEvent list \<Rightarrow> bool) \<Rightarrow> (EmRecordedEvent list \<Rightarrow> bool) \<Rightarrow> EmRecordedEvent list \<Rightarrow> 'z EmMinimize_scheme \<Rightarrow> bool" where
  "pass_good det F E es0 m \<longleftrightarrow> (\<forall>es. fLevels m = [] \<longrightarrow> events_ok es0 m es \<longrightarrow> fgIsOn m \<longrightarrow> 0 \<le> fgPassNumber m \<longrightarrow>
     (det \<longrightarrow> F (replay es (fgMask m)) \<and> (replay es (fgMask m) = es \<longrightarrow> all_needed F es \<and> (fgPassNumber m = 0 \<longrightarrow> E es))) \<longrightarrow>
     reached det F E es0 ((if fgPassNumber m = 0 then 0 else 1) + passes_below (length es)) (MinimizationPassComplete m))"

lemma weight_pos: "1 \<le> weight (l # ls)"
  by (simp add: weight_simps)

lemma deciding_levels [simp]: "deciding det F es0 (m\<lparr>fLevels := ls\<rparr>) es b = deciding det F es0 m es b"
  by (simp add: deciding_def events_ok_def stored_def)

lemma deciding_uncheck [simp]: "deciding det F es0 (uncheck_all m) es b = deciding det F es0 m es b"
  by (simp add: uncheck_all_def)

lemma deciding_later:
  assumes "deciding det F es0 m es b" and "b \<le> c" and "det \<Longrightarrow> decided F es (fgMask m) c"
  shows "deciding det F es0 m es c"
  using assms by (auto simp: deciding_def)

lemma decided_next:
  assumes "decided F es m (int i)"
    and "\<forall>k<i. k < length es \<longrightarrow> m ! k \<Longrightarrow> PrvIsPenUp (es ! i) \<or> m ! i \<Longrightarrow> m ! i \<and> (2 \<le> length es \<longrightarrow> needed F es i)"
  shows "decided F es m (int i + 1)"
  unfolding decided_def
proof (intro impI)
  assume h: "\<forall>k<length es. int k < int i + 1 \<longrightarrow> PrvIsPenUp (es ! k) \<or> m ! k"
  then have "\<forall>k<length es. int k < int i \<longrightarrow> m ! k \<and> (2 \<le> length es \<longrightarrow> needed F es k)"
    using assms(1) unfolding decided_def by simp
  moreover have "m ! i \<and> (2 \<le> length es \<longrightarrow> needed F es i)" if "i < length es"
    using assms(2) h that calculation by simp
  ultimately show "\<forall>k<length es. int k < int i + 1 \<longrightarrow> m ! k \<and> (2 \<le> length es \<longrightarrow> needed F es k)"
    by (metis less_Suc_eq of_nat_Suc of_nat_less_iff add.commute)
qed

section \<open>The functions\<close>

lemma split_step:
  assumes "\<And>ls. split_loop (fLevels m) = Some (True, ls) \<Longrightarrow> disable_good det F E es0 (m\<lparr>fLevels := ls\<rparr>)"
    and "split_loop (fLevels m) = Some (False, fLevels m) \<Longrightarrow> next_good det F E es0 (uncheck_all m)"
  shows "split_good det F E es0 m"
  unfolding split_good_def
proof (intro allI impI)
  fix es l ls
  assume lev: "fLevels m = l # ls" and ch: "chain (fBegin l) (l # ls) (int (length es))" and ck: "checks ls"
    and d: "deciding det F es0 m es (fBegin l)" and leaf: "fEnd l - fBegin l \<le> 1 \<longrightarrow> det \<longrightarrow> decided F es (fgMask m) (fEnd l)"
  have b: "0 \<le> fBegin l" using d by (simp add: deciding_def)
  show "reached det F E es0 (weight (l # ls) + passes_below (length es)) (SplitAndStartAgain m)"
  proof (cases "fEnd l - fBegin l \<le> 1")
    case True
    then have s: "split_loop (fLevels m) = Some (False, fLevels m)" by (simp add: lev split_loop_turn)
    have "deciding det F es0 (uncheck_all m) es (fEnd l)"
      using deciding_later [OF d, of "fEnd l"] leaf True ch b by auto
    then have "reached det F E es0 (weight ls + 1 + passes_below (length es)) (NextSubRange (uncheck_all m))"
      using assms(2) [OF s] lev ch b unfolding next_good_def
      by (auto simp: uncheck_all_def elim!: allE [of _ es] allE [of _ "l\<lparr>fChecked := False\<rparr>"])
    moreover have "SplitAndStartAgain m = NextSubRange (uncheck_all m)"
      using s by (simp add: SplitAndStartAgain.simps [of m] SplitCurrentLevel_def)
    ultimately show ?thesis using weight_pos [of l "[]"] by (auto simp: weight_simps elim!: reached_mono)
  next
    case False
    obtain l' ls' where s: "split_loop (fLevels m) = Some (True, l' # ls')" "chain (fBegin l) (l' # ls') (int (length es))"
      "checks (l' # ls')" "weight (l' # ls') < weight (l # ls)" using split_ok [OF ch ck False] lev by auto
    have "fEnd l \<le> int (length es)" using ch by (intro chain_le [of _ ls]) simp
    then have "int (length es) \<noteq> 0" using b False by linarith
    then have l': "fBegin l' = fBegin l" "fBegin l' < fEnd l'" using s(2) by auto
    have "reached det F E es0 (weight (l' # ls') + 1 + passes_below (length es)) (DisableAndStartAgain (m\<lparr>fLevels := l' # ls'\<rparr>))"
      using assms(1) [OF s(1)] s(2,3) l' d unfolding disable_good_def by (simp add: checks_def)
    moreover have "SplitAndStartAgain m = DisableAndStartAgain (m\<lparr>fLevels := l' # ls'\<rparr>)"
      using s(1) by (simp add: SplitAndStartAgain.simps [of m] SplitCurrentLevel_def)
    ultimately show ?thesis using s(4) by (auto elim!: reached_mono)
  qed
qed

lemma disable_step:
  assumes "is_pen_up_range m = Some True \<Longrightarrow> next_good det F E es0 m"
  shows "disable_good det F E es0 m"
  unfolding disable_good_def
proof (intro allI impI)
  fix es l ls
  assume lev: "fLevels m = l # ls" and ch: "chain (fBegin l) (l # ls) (int (length es))" and ck: "checks ls"
    and d: "deciding det F es0 m es (fBegin l)" and lt: "fBegin l < fEnd l"
  have b: "0 \<le> fBegin l" and st: "stored m es" using d by (simp_all add: deciding_def events_ok_def)
  have le: "fEnd l \<le> int (length es)" using ch by (intro chain_le [of _ ls]) simp
  define i where "i = nat (fBegin l)"
  have i: "fBegin l = int i" "i < length es" using b lt le by (simp_all add: i_def)
  have up: "is_pen_up_range m = Some (fEnd l - fBegin l = 1 \<and> PrvIsPenUp (es ! i))"
    using GetEvent_eq [OF st i(2), of kRecordedUnknownEvent] by (simp add: is_pen_up_range_def CurrentRange_def lev i(1))
  show "reached det F E es0 (weight (l # ls) + 1 + passes_below (length es)) (DisableAndStartAgain m)"
  proof (cases "fEnd l - fBegin l = 1 \<and> PrvIsPenUp (es ! i)")
    case True
    have e: "fEnd l = int i + 1" using True i(1) by simp
    have "decided F es (fgMask m) (fEnd l)" if "det"
      unfolding e using d that True i by (intro decided_next) (simp_all add: deciding_def needed_def)
    then have "deciding det F es0 m es (fEnd l)" using deciding_later [OF d] lt by simp
    moreover have "next_good det F E es0 m" using up True by (intro assms) simp
    ultimately have "reached det F E es0 (weight ls + 1 + passes_below (length es)) (NextSubRange m)"
      using lev ch ck b unfolding next_good_def by blast
    then show ?thesis using up True by (auto simp: DisableAndStartAgain.simps [of m] weight_simps elim!: reached_mono)
  next
    case False
    have "\<not> (fEnd l - fBegin l = 1 \<and> PrvIsPenUp (es ! nat (fBegin l)))" using False by (simp add: i_def)
    note t = start_trying [OF d lev ch ck lt this]
    have r: "DisableAndStartAgain m = Some (StartAgain (disable_range m))" using up False by (simp add: DisableAndStartAgain.simps [of m])
    show ?thesis unfolding r reached_def waiting_def using t by auto
  qed
qed

lemma next_step:
  assumes "\<And>l. fLevels m = [l] \<Longrightarrow> pass_good det F E es0 (m\<lparr>fLevels := []\<rparr>)"
    and "\<And>l l' ls. fLevels m = l # l' # ls \<Longrightarrow> fChecked l' \<or> fEnd l' - fBegin l' > kMaxRange \<Longrightarrow> split_good det F E es0 (m\<lparr>fLevels := l' # ls\<rparr>)"
    and "\<And>l l' ls. fLevels m = l # l' # ls \<Longrightarrow> \<not> (fChecked l' \<or> fEnd l' - fBegin l' > kMaxRange) \<Longrightarrow>
      disable_good det F E es0 (m\<lparr>fLevels := l' # ls\<rparr>)"
  shows "next_good det F E es0 m"
  unfolding next_good_def
proof (intro allI impI)
  fix es l ls
  assume lev: "fLevels m = l # ls" and ch: "chain (fBegin l) (l # ls) (int (length es))" and ck: "checks ls"
    and b: "0 \<le> fBegin l" and d: "deciding det F es0 m es (fEnd l)"
  have mask: "length (fgMask m) = length es" and ok: "events_ok es0 m es" "fgIsOn m" "0 < fgPassNumber m"
    using d by (auto simp: deciding_def events_ok_def stored_def)
  show "reached det F E es0 (weight ls + 1 + passes_below (length es)) (NextSubRange m)"
  proof (cases ls)
    case Nil
    have "all_needed F es" if "det" "replay es (fgMask m) = es"
    proof -
      have "\<forall>i<length es. PrvIsPenUp (es ! i) \<or> fgMask m ! i"
        using replay_misses [OF mask] that(2) by (metis less_irrefl)
      then show ?thesis using d that(1) ch Nil by (simp add: deciding_def decided_def all_needed_def)
    qed
    then have "reached det F E es0 (1 + passes_below (length es)) (MinimizationPassComplete (m\<lparr>fLevels := []\<rparr>))"
      using assms(1) [of l] lev Nil ok d unfolding pass_good_def by (auto simp: deciding_def events_ok_def stored_def)
    moreover have "NextSubRange m = MinimizationPassComplete (m\<lparr>fLevels := []\<rparr>)" using lev Nil by (simp add: NextSubRange.simps [of m])
    ultimately show ?thesis by (auto elim!: reached_mono)
  next
    case (Cons l' ls')
    have l': "fBegin l' = fEnd l" "fBegin l' < fEnd l'" "chain (fBegin l') (l' # ls') (int (length es))" "checks ls'"
      using ch ck b Cons by (auto simp: checks_def)
    have d': "deciding det F es0 (m\<lparr>fLevels := l' # ls'\<rparr>) es (fBegin l')" using d l'(1) by simp
    show ?thesis
    proof (cases "fChecked l' \<or> fEnd l' - fBegin l' > kMaxRange")
      case True
      then have big: "\<not> fEnd l' - fBegin l' \<le> 1" using ck Cons by (auto simp: checks_def kMaxRange_def)
      have "split_good det F E es0 (m\<lparr>fLevels := l' # ls'\<rparr>)" using assms(2) lev Cons True by blast
      then have "reached det F E es0 (weight ls + passes_below (length es)) (SplitAndStartAgain (m\<lparr>fLevels := l' # ls'\<rparr>))"
        using l' d' big Cons unfolding split_good_def by simp
      moreover have "NextSubRange m = SplitAndStartAgain (m\<lparr>fLevels := l' # ls'\<rparr>)"
        using lev Cons True by (auto simp: NextSubRange.simps [of m])
      ultimately show ?thesis by (auto elim!: reached_mono)
    next
      case False
      have "disable_good det F E es0 (m\<lparr>fLevels := l' # ls'\<rparr>)" using assms(3) lev Cons False by blast
      then have "reached det F E es0 (weight ls + 1 + passes_below (length es)) (DisableAndStartAgain (m\<lparr>fLevels := l' # ls'\<rparr>))"
        using l' d' Cons unfolding disable_good_def by simp
      moreover have "NextSubRange m = DisableAndStartAgain (m\<lparr>fLevels := l' # ls'\<rparr>)"
        using lev Cons False by (auto simp: NextSubRange.simps [of m])
      ultimately show ?thesis by simp
    qed
  qed
qed

text \<open>A new pass over \<open>n\<close> events takes at most \<open>n * n + 1\<close> replays, with all that follow.\<close>

lemma pass_bound:
  assumes "n < k"
  shows "weight [\<lparr>fBegin = 0, fEnd = int n, fChecked = c\<rparr>] + passes_below n \<le> passes_below k"
proof -
  have "weight [\<lparr>fBegin = 0, fEnd = int n, fChecked = c\<rparr>] + passes_below n = n * n + 1"
    by (cases n) (simp_all add: weight_def passes_below_def)
  moreover have "n * n \<le> (k - 1) * (k - 1)" using assms by (intro mult_mono) auto
  ultimately show ?thesis using assms by (simp add: passes_below_def)
qed

lemma fresh_pass:
  assumes "stored m es" and "pens_ok False es" and "subseq es es0" and "13 * (length es0 + 1) < 2 ^ 31"
    and "fgMask m = replicate (length es) True" and "fgIsOn m" and "0 < fgPassNumber m" and "det \<Longrightarrow> F es"
    and "fLevels m = [\<lparr>fBegin = 0, fEnd = int (length es), fChecked = False\<rparr>]" and "split_good det F E es0 m"
  shows "reached det F E es0 (weight (fLevels m) + passes_below (length es)) (SplitAndStartAgain m)"
proof -
  have "deciding det F es0 m es 0" using assms replayed_all [OF assms(2)]
    by (auto simp: deciding_def events_ok_def decided_def)
  moreover have "decided F es (fgMask m) (int (length es))" if "length es \<le> 1" using assms(5) that by (auto simp: decided_def)
  ultimately show ?thesis using assms(9,10) unfolding split_good_def by (auto simp: checks_def)
qed

lemma pass_step:
  assumes "\<And>m' m''. CullEvents m = Some m' \<Longrightarrow> MakeAnotherPass (GetNumEvents m) (GetNumEvents m') \<Longrightarrow>
      InitialLevel (m'\<lparr>fgPassNumber := fgPassNumber m' + 1\<rparr>) = Some m'' \<Longrightarrow> split_good det F E es0 m''"
  shows "pass_good det F E es0 m"
  unfolding pass_good_def
proof (intro allI impI)
  fix es
  assume lev: "fLevels m = []" and ok: "events_ok es0 m es" and on: "fgIsOn m" and pn: "0 \<le> fgPassNumber m"
    and det: "det \<longrightarrow> F (replay es (fgMask m)) \<and> (replay es (fgMask m) = es \<longrightarrow> all_needed F es \<and> (fgPassNumber m = 0 \<longrightarrow> E es))"
  define ds where "ds = replay es (fgMask m)"
  have st: "stored m es" using ok by (simp add: events_ok_def)
  obtain c it prev where "CullEvents m = Some (m\<lparr>fgEvents := c, fgMask := replicate (length ds) True, fgIterationState := it,
      fgPrevIterationState := prev\<rparr>)" "chunk_holds c (bytes_of ds)" "\<forall>e\<in>set ds. storable e"
    using CullEvents_eq [OF st] unfolding ds_def by blast
  then obtain m' where m': "CullEvents m = Some m'" "stored m' ds" "fgMask m' = replicate (length ds) True" "fLevels m' = []"
    "fgIsOn m'" "fgPassNumber m' = fgPassNumber m" using lev on by (auto simp: stored_def)
  have sub: "subseq ds es" using replay_subseq [OF stored_mask [OF st]] by (simp add: ds_def)
  have pens: "pens_ok False ds" by (simp add: ds_def replayed_pens_ok)
  have es0: "subseq ds es0" "13 * (length es0 + 1) < 2 ^ 31" using ok sub subseq_order.order_trans by (auto simp: events_ok_def)
  have ok': "events_ok es0 m' ds" using m'(2) pens es0 by (simp add: events_ok_def)
  have n: "GetNumEvents m = int (length es)" "GetNumEvents m' = int (length ds)"
    using stored_mask [OF st] stored_mask [OF m'(2)] by (simp_all add: GetNumEvents_def)
  show "reached det F E es0 ((if fgPassNumber m = 0 then 0 else 1) + passes_below (length es)) (MinimizationPassComplete m)"
  proof (cases "length ds < length es")
    case True
    define m'' where "m'' = m'\<lparr>fgPassNumber := fgPassNumber m' + 1, fLevels := [\<lparr>fBegin = 0, fEnd = int (length ds), fChecked = False\<rparr>]\<rparr>"
    have i: "InitialLevel (m'\<lparr>fgPassNumber := fgPassNumber m' + 1\<rparr>) = Some m''"
      using m'(4) n(2) by (simp add: InitialLevel_def m''_def GetNumEvents_def)
    have another: "MakeAnotherPass (GetNumEvents m) (GetNumEvents m')" using n True by (simp add: MakeAnotherPass_def)
    have "split_good det F E es0 m''" using assms m'(1) another i by blast
    then have "reached det F E es0 (weight (fLevels m'') + passes_below (length ds)) (SplitAndStartAgain m'')"
      using m' pens es0 pn det ds_def by (intro fresh_pass) (auto simp: m''_def stored_def)
    moreover have "MinimizationPassComplete m = SplitAndStartAgain m''"
      using m'(1) another i by (simp add: MinimizationPassComplete.simps [of m])
    ultimately show ?thesis using pass_bound [OF True, of False] by (auto simp: m''_def elim!: reached_mono)
  next
    case False
    then have eq: "ds = es" using subseq_same_length [OF sub] list_emb_length [OF sub] by simp
    have no: "\<not> MakeAnotherPass (GetNumEvents m) (GetNumEvents m')" using n eq by (simp add: MakeAnotherPass_def)
    have good: "det \<Longrightarrow> F es \<and> all_needed F es" using det eq ds_def by simp
    show ?thesis
    proof (cases "fgPassNumber m = kLastPass")
      case True
      then have "MinimizationPassComplete m = MinimizationComplete m'" using m'(1,6) no by (simp add: MinimizationPassComplete.simps [of m])
      then show ?thesis using MinimizationComplete_ok [of es0 m' es det F E] ok' eq good det ds_def True
        by (auto simp: reached_def kLastPass_def)
    next
      case False
      then have r: "MinimizationPassComplete m = map_option StartAgain (InitialLevel (m'\<lparr>fgPassNumber := kLastPass, gathering := True\<rparr>))"
        using m'(1,6) no by (simp add: MinimizationPassComplete.simps [of m])
      have "\<forall>i<length es. fgMask m' ! i" using m'(3) eq by simp
      then show ?thesis using last_pass_ok [of es0 m' es det F] ok' eq good m'(4,5) False unfolding r
        by (auto simp: reached_def waiting_def kLastPass_def)
    qed
  qed
qed

lemma all_good:
  fixes m :: "'z EmMinimize_scheme"
  shows "split_good det F E es0 m" and "disable_good det F E es0 m" and "next_good det F E es0 m" and "pass_good det F E es0 m"
proof (induction m and m and m and m rule: SplitAndStartAgain_DisableAndStartAgain_NextSubRange_MinimizationPassComplete.induct)
  case (1 m)
  show ?case
  proof (rule split_step)
    fix ls
    assume "split_loop (fLevels m) = Some (True, ls)"
    then show "disable_good det F E es0 (m\<lparr>fLevels := ls\<rparr>)"
      by (intro 1(1) [of "(True, m\<lparr>fLevels := ls\<rparr>)" True]) (simp_all add: SplitCurrentLevel_def)
  next
    assume "split_loop (fLevels m) = Some (False, fLevels m)"
    then show "next_good det F E es0 (uncheck_all m)"
      by (intro 1(2) [of "(False, m)" False]) (simp_all add: SplitCurrentLevel_def)
  qed
next
  case (2 m)
  show ?case by (rule disable_step) (rule 2 [of True], simp_all)
next
  case (3 m)
  show ?case by (rule next_step) (blast intro: 3)+
next
  case (4 m)
  show ?case by (rule pass_step) (rule 4)
qed

end
