(* ===== verification/MinimizeEnds.thy ===== *)
theory MinimizeEnds
  imports MinimizeSteps
begin

text \<open>
  What the minimiser does at the end of a replay, and what it does with many.
\<close>

section \<open>The end of a replay\<close>

definition same :: "'z EmMinimize_scheme \<Rightarrow> 'z EmMinimize_scheme \<Rightarrow> bool" where
  "same m m' \<longleftrightarrow> fgEvents m' = fgEvents m \<and> fgMask m' = fgMask m \<and> fLevels m' = fLevels m \<and> fgIsOn m' = fgIsOn m \<and>
     fgPassNumber m' = fgPassNumber m"

lemma events_ok_same: "same m m' \<Longrightarrow> events_ok es0 m' es = events_ok es0 m es"
  by (simp add: same_def events_ok_def stored_def)

lemma same_mask: "same m m' \<Longrightarrow> fgMask (EnableEvents b e m') = fgMask (EnableEvents b e m)"
    "same m m' \<Longrightarrow> fgMask (DisableEvents b e m') = fgMask (DisableEvents b e m)"
  by (simp_all add: same_def EnableEvents_def DisableEvents_def Let_def)

lemma deciding_same: "same m m' \<Longrightarrow> deciding det F es0 m' es b = deciding det F es0 m es b"
  by (simp add: deciding_def events_ok_same) (simp add: same_def)

lemma enable_top_same: "same m m' \<Longrightarrow> same (enable_top l m) (enable_top l m')"
  using same_mask(1) [of m m'] by (simp add: same_def) (simp add: enable_top_def)

lemma waiting_same: "same m m' \<Longrightarrow> waiting det F es0 k m' es = waiting det F es0 k m es"
  using deciding_same [OF enable_top_same [of m m']]
  by (simp add: waiting_def trying_def reporting_def events_ok_same) (simp add: same_def)

lemma waiting_events: "waiting det F es0 k m es \<Longrightarrow> events_ok es0 m es \<and> fgIsOn m \<and> 0 < k"
  by (auto simp: waiting_def trying_def reporting_def deciding_def events_ok_def stored_def)

lemma enable_all_nth: "i < length (fgMask m) \<Longrightarrow> b \<le> 0 \<Longrightarrow> int (length (fgMask m)) \<le> e \<Longrightarrow> fgMask (EnableEvents b e m) ! i"
  by (simp add: mask_nth)

text \<open>The range that was tried is on its own when it cannot be split.\<close>

lemma tried_alone:
  assumes "trying det F es0 m es" and "fLevels m = l # ls" and "fEnd l - fBegin l \<le> 1" and "det" and "\<not> F (replay es (fgMask m))"
  shows "decided F es (fgMask (enable_top l m)) (fEnd l)"
proof -
  have t: "0 \<le> fBegin l" "fBegin l < fEnd l" "chain (fEnd l) ls (int (length es))"
    "\<forall>i<length es. fBegin l \<le> int i \<longrightarrow> fgMask m ! i = (fEnd l \<le> int i)"
    "deciding det F es0 (enable_top l m) es (fBegin l)" "length (fgMask m) = length es"
    using assms(1,2) by (auto simp: trying_def deciding_def events_ok_def stored_def)
  define i where "i = nat (fBegin l)"
  have i: "fBegin l = int i" "fEnd l = int i + 1" "i < length es"
    using t(1-3) assms(3) chain_le [OF t(3)] by (simp_all add: i_def)
  have on: "fgMask (enable_top l m) ! i" using t(5) i by (simp add: deciding_def)
  have "needed F es i" if before: "\<forall>k<i. k < length es \<longrightarrow> fgMask (enable_top l m) ! k"
  proof -
    have "fgMask m = (replicate (length es) True)[i := False]"
    proof (rule nth_equalityI)
      fix k
      assume "k < length (fgMask m)"
      then have k: "k < length es" using t(6) by simp
      show "fgMask m ! k = (replicate (length es) True)[i := False] ! k"
      proof (cases "k < i")
        case True
        then show ?thesis using before k mask_nth(1) [of k m "fBegin l" "fEnd l"] t(6) i by (auto simp: enable_top_def)
      next
        case False
        then show ?thesis using t(4) k i by (auto simp: nth_list_update)
      qed
    qed (use t(6) in simp)
    then show ?thesis using assms(5) by (simp add: needed_def)
  qed
  then show ?thesis unfolding i(2) using t(5) assms(4) i(1) on by (intro decided_next) (simp_all add: deciding_def)
qed

lemma NoErrorOccurred_ok:
  assumes "waiting det F es0 k m es" and "det \<Longrightarrow> \<not> F (replay es (fgMask m))"
  shows "reached det F E es0 (k - 1) (NoErrorOccurred m)"
proof -
  have len: "length (fgMask m) = length es" and ok: "events_ok es0 m es" and on: "fgIsOn m"
    using waiting_events [OF assms(1)] events_ok_mask by auto
  from assms(1) consider
      (t) "trying det F es0 m es" "weight (fLevels m) + 1 + passes_below (length es) \<le> k"
    | (r) "reporting det F es0 m es" "1 + passes_below (length es) \<le> k" by (auto simp: waiting_def)
  then show ?thesis
  proof cases
    case t
    then obtain l ls where l: "fLevels m = l # ls" "chain (fBegin l) (l # ls) (int (length es))" "checks ls" "fBegin l < fEnd l"
      "deciding det F es0 (enable_top l m) es (fBegin l)" by (auto simp: trying_def)
    define m' where "m' = (EnableEvents (fBegin l) (fEnd l) (m\<lparr>fgPassEndedInError := False\<rparr>))\<lparr>fLevels := l\<lparr>fChecked := True\<rparr> # ls\<rparr>"
    have mask: "fgMask m' = fgMask (enable_top l m)" by (simp add: m'_def enable_top_def EnableEvents_def Let_def)
    have d: "deciding det F es0 m' es (fBegin l)"
      using l(5) mask by (simp add: deciding_def events_ok_def stored_def) (simp add: m'_def EnableEvents_def Let_def)
    have "det \<longrightarrow> decided F es (fgMask m') (fEnd l)" if "fEnd l - fBegin l \<le> 1"
      using tried_alone [OF t(1) l(1) that] assms(2) by (simp add: mask)
    then have "reached det F E es0 (weight (l # ls) + passes_below (length es)) (SplitAndStartAgain m')"
      using all_good(1) [of det F E es0 m', unfolded split_good_def, rule_format, of "l\<lparr>fChecked := True\<rparr>" ls es] l(2,3) d
      by (simp add: m'_def weight_simps)
    moreover have "NoErrorOccurred m = SplitAndStartAgain m'"
      using l(1,5) by (simp add: NoErrorOccurred_def CurrentRange_def m'_def deciding_def kLastPass_def EnableEvents_def Let_def)
    ultimately show ?thesis using t(2) l(1) by (auto elim!: reached_mono)
  next
    case r
    then obtain l where l: "fLevels m = [l]" "fBegin l = 0" "fEnd l = int (length es)" "fgPassNumber m = 0"
      by (auto simp: reporting_def)
    define m' where "m' = (EnableEvents 0 (int (length es)) (m\<lparr>fgPassEndedInError := False\<rparr>))\<lparr>fLevels := []\<rparr>"
    have "fgMask m' = replicate (length es) True"
      using len by (intro nth_equalityI) (simp_all add: m'_def mask_nth)
    moreover have "fgMask m = replicate (length es) True" using r(1) len by (intro nth_equalityI) (simp_all add: reporting_def)
    ultimately have mask: "fgMask m' = fgMask m" by simp
    have fs: "fLevels m' = []" "fgIsOn m' = fgIsOn m" "fgPassNumber m' = 0" "fgEvents m' = fgEvents m"
      using l(4) by (simp_all add: m'_def EnableEvents_def Let_def)
    have ok': "events_ok es0 m' es" using ok mask fs(4) by (simp add: events_ok_def stored_def)
    have "replay es (fgMask m) = es" using r(1) ok len by (intro replay_all) (simp_all add: events_ok_def reporting_def)
    then have "\<not> det" using assms(2) r(1) by (auto simp: reporting_def)
    then have "reached det F E es0 (passes_below (length es)) (MinimizationPassComplete m')"
      using all_good(4) [of det F E es0 m', unfolded pass_good_def, rule_format, of es] fs on ok' by simp
    moreover have "NoErrorOccurred m = MinimizationPassComplete m'"
      using l by (simp add: NoErrorOccurred_def CurrentRange_def m'_def kLastPass_def EnableEvents_def Let_def)
    ultimately show ?thesis using r(2) by (auto elim!: reached_mono)
  qed
qed

text \<open>What is disabled from a point on, as far as it matters.\<close>

lemma disabled_more:
  assumes "length (fgMask m) = length es" and "i < length es" and "\<not> fgMask m ! i"
  shows "\<not> fgMask (DisableEvents b e m) ! i"
  using assms by (simp add: mask_nth)

lemma trying_misses:
  assumes "trying det F es0 m es"
  shows "\<exists>i<length es. \<not> fgMask m ! i \<and> \<not> PrvIsPenUp (es ! i)"
proof -
  obtain l ls where "chain (fBegin l) (l # ls) (int (length es))" and l: "0 \<le> fBegin l" "fBegin l < fEnd l"
    "\<forall>i<length es. fBegin l \<le> int i \<longrightarrow> fgMask m ! i = (fEnd l \<le> int i)"
    "\<not> (fEnd l - fBegin l = 1 \<and> PrvIsPenUp (es ! nat (fBegin l)))" "deciding det F es0 (enable_top l m) es (fBegin l)"
    using assms unfolding trying_def by blast
  then have ch: "fEnd l \<le> int (length es)" and pens: "pens_ok False es"
    by (auto simp: deciding_def events_ok_def intro: chain_le)
  obtain b e where be: "fBegin l = int b" "fEnd l = int e" using l(1,2) by (metis int_nat_eq order.trans less_imp_le)
  have "e \<le> length es" using ch be by simp
  then obtain i where "b \<le> i" "i < e" "\<not> PrvIsPenUp (es ! i)"
    using some_other_event [OF pens, of b e] l(2,4) be by auto
  then show ?thesis using l(3) be \<open>e \<le> length es\<close> by (intro exI [of _ i]) auto
qed

lemma disable_beyond:
  assumes "int (length (fgMask m)) \<le> j" and "0 \<le> j"
  shows "fgMask (DisableEvents j e m) = fgMask m"
  using assms by (intro nth_equalityI) (simp_all add: mask_nth)

lemma ErrorOccurred_ok:
  assumes "waiting det F es0 k m es" and "det \<Longrightarrow> F (replay es (fgMask (DisableEvents (GetCurrentEvent m) LONG_MAX m)))"
    and "det \<Longrightarrow> replay es (fgMask (DisableEvents (GetCurrentEvent m) LONG_MAX m)) = es \<Longrightarrow> E es"
  shows "reached det F E es0 (k - 1) (ErrorOccurred m)"
proof -
  have len: "length (fgMask m) = length es" and ok: "events_ok es0 m es" and on: "fgIsOn m" and k: "0 < k"
    using waiting_events [OF assms(1)] events_ok_mask by auto
  define j where "j = GetCurrentEvent m"
  have "stored (m\<lparr>fgPassEndedInError := True\<rparr>) es" using ok by (simp add: events_ok_def stored_def)
  from CountEnabledEvents_eq [OF this] obtain n prev where
    "CountEnabledEvents (m\<lparr>fgPassEndedInError := True\<rparr>) = Some (n, m\<lparr>fgPassEndedInError := True, fgPrevIterationState := prev\<rparr>)"
    by fastforce
  note n = this
  define q where "q = m\<lparr>fgPassEndedInError := True, fgPrevIterationState := prev, fgDiscardedNumberOfEvents := fgInitialNumberOfEvents m - n\<rparr>"
  have q: "same m q" "GetCurrentEvent q = j" by (simp_all add: same_def GetCurrentEvent_def j_def q_def)
  have q3: "ErrorOccurred m =
      (if j < int (length es) then MinimizationPassComplete ((DisableEvents j LONG_MAX q)\<lparr>fLevels := []\<rparr>) else NextSubRange q)"
    using n len by (simp add: ErrorOccurred_def Let_def GetCurrentEvent_def GetNumEvents_def j_def q_def)
  have F: "F (replay es (fgMask (DisableEvents j LONG_MAX q)))" if det
    using assms(2) [OF that] same_mask(2) [OF q(1)] by (simp add: j_def)
  have E: "E es" if det "replay es (fgMask (DisableEvents j LONG_MAX q)) = es"
    using assms(3) that same_mask(2) [OF q(1)] by (simp add: j_def)
  have w: "waiting det F es0 k q es" using assms(1) waiting_same [OF q(1)] by blast
  have qf: "fgIsOn q" "length (fgMask q) = length es" "events_ok es0 q es" using q(1) on len ok events_ok_same [OF q(1)] by (simp_all add: same_def)
  show ?thesis
  proof (cases "j < int (length es)")
    case True
    define m' where "m' = (DisableEvents j LONG_MAX q)\<lparr>fLevels := []\<rparr>"
    have mask: "fgMask m' = fgMask (DisableEvents j LONG_MAX q)" by (simp add: m'_def)
    have fs: "fLevels m' = []" "fgIsOn m'" "fgPassNumber m' = fgPassNumber q" "fgEvents m' = fgEvents q"
      using qf(1) by (simp_all add: m'_def DisableEvents_def Let_def)
    have ok': "events_ok es0 m' es" using qf(3) mask fs(4) by (simp add: events_ok_def stored_def)
    have pass: "0 \<le> fgPassNumber q" using w by (auto simp: waiting_def trying_def reporting_def deciding_def)
    have "all_needed F es" if "det" "replay es (fgMask m') = es"
    proof -
      have "\<not> trying det F es0 q es"
      proof
        assume "trying det F es0 q es"
        then obtain i where "i < length es" "\<not> fgMask q ! i" "\<not> PrvIsPenUp (es ! i)" using trying_misses by blast
        then show False using replay_misses [of "fgMask m'" es i] disabled_more [OF qf(2)] that(2) qf(2) by (simp add: mask)
      qed
      then show ?thesis using w that(1) by (auto simp: waiting_def reporting_def)
    qed
    then have "reached det F E es0 ((if fgPassNumber q = 0 then 0 else 1) + passes_below (length es)) (MinimizationPassComplete m')"
      using all_good(4) [of det F E es0 m', unfolded pass_good_def, rule_format, of es] fs ok' F E pass mask by simp
    moreover have "(if fgPassNumber q = 0 then 0 else 1) + passes_below (length es) \<le> k - 1"
    proof -
      have "1 \<le> weight (fLevels q)" if "trying det F es0 q es" using that weight_pos by (auto simp: trying_def)
      moreover have "fgPassNumber q = 0" if "reporting det F es0 q es" using that by (simp add: reporting_def)
      ultimately show ?thesis using w by (auto simp: waiting_def)
    qed
    ultimately show ?thesis using q3 True by (auto simp: m'_def elim!: reached_mono)
  next
    case False
    then have F': "F (replay es (fgMask q))" if det using F [OF that] disable_beyond [of q j LONG_MAX] qf(2) by simp
    have E': "E es" if det "replay es (fgMask q) = es" using E [OF that(1)] that(2) disable_beyond [of q j LONG_MAX] qf(2) False by simp
    from w consider
        (t) "trying det F es0 q es" "weight (fLevels q) + 1 + passes_below (length es) \<le> k"
      | (r) "reporting det F es0 q es" "1 + passes_below (length es) \<le> k" by (auto simp: waiting_def)
    then have "reached det F E es0 (k - 1) (NextSubRange q)"
    proof cases
      case t
      then obtain l ls where l: "fLevels q = l # ls" "chain (fBegin l) (l # ls) (int (length es))" "checks ls" "0 \<le> fBegin l" "fBegin l < fEnd l"
        "\<forall>i<length es. fBegin l \<le> int i \<longrightarrow> fgMask q ! i = (fEnd l \<le> int i)" "deciding det F es0 (enable_top l q) es (fBegin l)"
        by (auto simp: trying_def)
      obtain i where i: "i < length es" "\<not> fgMask q ! i" "\<not> PrvIsPenUp (es ! i)" using trying_misses [OF t(1)] by blast
      have "int i < fEnd l"
        using mask_nth(1) [of i q "fBegin l" "fEnd l"] l(5-7) i qf(2) by (cases "fBegin l \<le> int i") auto
      then have "decided F es (fgMask q) (fEnd l)" using i by (auto simp: decided_def)
      moreover have "\<forall>i<length es. fEnd l \<le> int i \<longrightarrow> fgMask q ! i" using l(5,6) by auto
      ultimately have "deciding det F es0 q es (fEnd l)" using l(4,5,7) qf F' by (auto simp: deciding_def)
      then have "reached det F E es0 (weight ls + 1 + passes_below (length es)) (NextSubRange q)"
        using all_good(3) [of det F E es0 q, unfolded next_good_def, rule_format, of l ls es] l by simp
      then show ?thesis using t(2) l(1) weight_pos [of l "[]"] by (auto simp: weight_simps elim!: reached_mono)
    next
      case r
      then obtain l where l: "fLevels q = [l]" "fgPassNumber q = 0" by (auto simp: reporting_def)
      have "events_ok es0 (q\<lparr>fLevels := []\<rparr>) es" using qf(3) by (simp add: events_ok_def stored_def)
      then have "reached det F E es0 (passes_below (length es)) (MinimizationPassComplete (q\<lparr>fLevels := []\<rparr>))"
        using all_good(4) [of det F E es0 "q\<lparr>fLevels := []\<rparr>", unfolded pass_good_def, rule_format, of es] qf(1) l(2) F' E' r(1)
        by (auto simp: reporting_def)
      moreover have "NextSubRange q = MinimizationPassComplete (q\<lparr>fLevels := []\<rparr>)" using l(1) by (simp add: NextSubRange.simps [of q])
      ultimately show ?thesis using r(2) by (auto elim!: reached_mono)
    qed
    then show ?thesis using q3 False by simp
  qed
qed

end
