(* ===== verification/MinimizeResults.thy ===== *)
theory MinimizeResults
  imports MinimizeEnds
begin

text \<open>
  The minimiser gets done, whatever the replays end with, and what it finds for a system that acts on
  the events alone: C38 to C40.
\<close>

section \<open>Starting\<close>

lemma loads_history:
  assumes "SaveEvents q = Some c" and "stored (q :: 'z EmMinimize_scheme) es" and "length (bytes_of es) < 2 ^ 31" and "chunk_holds (fgEvents p) bs"
  shows "\<exists>d. LoadEvents (Some c) p = Some (p\<lparr>fgEvents := d, fgMask := replicate (length es) True\<rparr>) \<and> chunk_holds d (bytes_of es)"
proof -
  have "chunk_holds (fgEvents q) (bytes_of es)" "\<forall>e\<in>set es. storable e" using assms(2) by (simp_all add: stored_def)
  with SaveEvents_eq [OF this(1) assms(3)] assms(1,3,4) show ?thesis using LoadEvents_eq [of c es p bs] by auto
qed

lemma minimize_new_holds: "chunk_holds (fgEvents minimize_new) []"
  using chunk_new_holds by (simp add: minimize_new_def EmEventPlayback.extend_def playback_new_def)

lemma history:
  assumes "\<forall>e\<in>set es. storable e" and "13 * (length es + 1) < 2 ^ 31"
  shows "\<exists>p c d. record_all es (RecordEvents True playback_new) = Some p \<and> SaveEvents p = Some c \<and>
    LoadEvents (Some c) minimize_new = Some (minimize_new\<lparr>fgEvents := d, fgMask := replicate (length es) True\<rparr>) \<and>
    chunk_holds d (bytes_of es)"
proof -
  obtain b where p: "record_all es (RecordEvents True playback_new) =
      Some ((RecordEvents True playback_new)\<lparr>fgEvents := b, fgMask := replicate (length es) True\<rparr>)" "chunk_holds b (bytes_of es)"
    using recorded [OF assms(1)] by blast
  have l: "length (bytes_of es) < 2 ^ 31" using bytes_of_length [of es] assms(2) by simp
  obtain c where c: "SaveEvents ((RecordEvents True playback_new)\<lparr>fgEvents := b, fgMask := replicate (length es) True\<rparr>) = Some c"
    "chunk_holds c (host_long (Canonical kCurrentVersion) @ host_long (Canonical (of_nat (length (bytes_of es)))) @ bytes_of es)"
    using SaveEvents_eq [OF _ l, of "(RecordEvents True playback_new)\<lparr>fgEvents := b, fgMask := replicate (length es) True\<rparr>"] p(2) by auto
  from LoadEvents_eq [OF c(2) l assms(1) minimize_new_holds] obtain d where
    d: "LoadEvents (Some c) minimize_new = Some (minimize_new\<lparr>fgEvents := d, fgMask := replicate (length es) True\<rparr>)"
    "chunk_holds d (bytes_of es)" by blast
  then show ?thesis using p(1) c(1) by blast
qed

lemma pass_size: "weight [\<lparr>fBegin = 0, fEnd = int n, fChecked = c\<rparr>] + passes_below n = n * n + 1"
  by (cases n) (simp_all add: weight_def passes_below_def)

text \<open>The events up to the error.\<close>

definition initial_mask :: "EmRecordedEvent list \<Rightarrow> bool list" where
  "initial_mask es = map (\<lambda>i. int i < first_error es 0) [0..<length es]"

lemma Start_ok:
  fixes m :: "'z EmMinimize_scheme"
  assumes load: "LoadEvents (Some c) m = Some (m\<lparr>fgEvents := d, fgMask := replicate (length es) True\<rparr>)" "chunk_holds d (bytes_of es)"
    and es: "\<forall>e\<in>set es. storable e" "13 * (length es + 1) < 2 ^ 31"
    and found: "0 \<le> first_error es 0" and det: "det \<Longrightarrow> F (replay es (initial_mask es))"
    and es0: "subseq (replay es (initial_mask es)) es0" "13 * (length es0 + 1) < 2 ^ 31"
  shows "reached det F E es0 (length (replay es (initial_mask es)) * length (replay es (initial_mask es)) + 1) (Start (Some c) now m)"
proof -
  define n where "n = first_error es 0"
  define ds where "ds = replay es (initial_mask es)"
  define m1 where "m1 = m\<lparr>fgEvents := d, fgMask := replicate (length es) True\<rparr>"
  have st1: "stored m1 es" using load(2) es(1) by (simp add: m1_def stored_def)
  have en: "EnableEvents 0 LONG_MAX m1 = m1"
  proof -
    have "fgMask (EnableEvents 0 LONG_MAX m1) = fgMask m1"
      by (intro nth_equalityI) (simp_all add: mask_nth, simp add: m1_def)
    then show ?thesis using masks_only(1) [of 0 LONG_MAX m1] by simp
  qed
  define m2 where "m2 = DisableEvents n LONG_MAX (m1\<lparr>fgInitialNumberOfEvents := n\<rparr>)"
  have "int (length es) \<le> LONG_MAX" using es(2) by (simp add: LONG_MAX_def)
  then have mask2: "fgMask m2 = initial_mask es"
    using found by (intro nth_equalityI) (auto simp: m2_def initial_mask_def mask_nth m1_def n_def)
  have ev2: "fgEvents m2 = fgEvents m1" by (simp add: m2_def DisableEvents_def Let_def)
  have st2: "stored m2 es" using st1 mask2 ev2 by (simp add: stored_def initial_mask_def)
  obtain k it prev where cull: "CullEvents m2 = Some (m2\<lparr>fgEvents := k, fgMask := replicate (length ds) True, fgIterationState := it,
      fgPrevIterationState := prev\<rparr>)" "chunk_holds k (bytes_of ds)" "\<forall>e\<in>set ds. storable e"
    using CullEvents_eq [OF st2] unfolding mask2 ds_def by blast
  define m3 where "m3 = m2\<lparr>fgEvents := k, fgMask := replicate (length ds) True, fgIterationState := it, fgPrevIterationState := prev\<rparr>"
  define m4 where "m4 = m3\<lparr>fgInitialNumberOfEvents := int (length ds), fLevels := [\<lparr>fBegin = 0, fEnd = int (length ds), fChecked = False\<rparr>],
      fgStartTime := now, fgDiscardedNumberOfEvents := 0, fgPassNumber := 1, fgIsOn := True\<rparr>"
  have "Playback_FindFirstError m1 = Some n" using FindFirstError_eq [of m1 es] st1 by (simp add: stored_def n_def)
  moreover have "CountNumEvents m3 = Some (int (length ds))" using CountNumEvents_eq [of m3 ds] cull(2,3) by (simp add: m3_def)
  moreover have "InitialLevel (TurnOn True (m3\<lparr>fgInitialNumberOfEvents := int (length ds), fLevels := [], fgStartTime := now,
      fgDiscardedNumberOfEvents := 0, fgPassNumber := 1\<rparr>)) = Some m4"
    by (simp add: InitialLevel_def TurnOn_def GetNumEvents_def m4_def m3_def)
  ultimately have "Start (Some c) now m = SplitAndStartAgain m4"
    using load(1) en cull(1) found unfolding Start_def by (simp add: m1_def [symmetric] m2_def [symmetric] m3_def [symmetric] n_def [symmetric])
  moreover have "reached det F E es0 (weight (fLevels m4) + passes_below (length ds)) (SplitAndStartAgain m4)"
  proof (rule fresh_pass)
    show "stored m4 ds" using cull by (simp add: m4_def m3_def stored_def)
    show "pens_ok False ds" by (simp add: ds_def replayed_pens_ok)
    show "subseq ds es0" using es0(1) by (simp add: ds_def)
    show "split_good det F E es0 m4" by (rule all_good)
  qed (use det es0(2) in \<open>simp_all add: m4_def m3_def ds_def\<close>)
  ultimately show ?thesis using pass_size by (simp add: m4_def ds_def)
qed

lemma Start_none:
  fixes m :: "'z EmMinimize_scheme"
  assumes "LoadEvents (Some c) m = Some (m\<lparr>fgEvents := d, fgMask := replicate (length es) True\<rparr>)" "chunk_holds d (bytes_of es)"
    and "\<forall>e\<in>set es. storable e" and "first_error es 0 < 0" and "\<not> fgIsOn m"
  shows "\<exists>m'. Start (Some c) now m = Some m' \<and> \<not> fgIsOn m'"
proof -
  define m1 where "m1 = EnableEvents 0 LONG_MAX (m\<lparr>fgEvents := d, fgMask := replicate (length es) True\<rparr>)"
  have "stored m1 es" "\<not> fgIsOn m1"
    using assms(2,3,5) by (simp_all add: m1_def stored_def) (simp_all add: EnableEvents_def Let_def)
  then show ?thesis using assms(1,4) FindFirstError_eq [of m1 es]
    by (simp add: Start_def Let_def m1_def [symmetric])
qed

section \<open>Any replays\<close>

lemma reload_same: "same m (reload m)" "fgReplaying (reload m) = fgReplaying m" "fgIterationState (reload m) = fgIterationState m"
  by (simp_all add: same_def reload_def)

lemma run_outcome_ok:
  assumes "waiting False F es0 k m es"
  shows "reached False F E es0 (k - 1) (run_outcome r m)"
proof (cases r)
  case NoError
  have "same m (ReplayEvents False (reload m))" by (simp add: same_def reload_def ReplayEvents_def)
  from NoErrorOccurred_ok [OF assms [folded waiting_same [OF this]]] NoError show ?thesis by simp
next
  case (ErrorAt it)
  have "same m ((reload m)\<lparr>fgIterationState := it\<rparr>)" by (simp add: same_def reload_def)
  from ErrorOccurred_ok [OF assms [folded waiting_same [OF this]]] ErrorAt show ?thesis by simp
qed

lemma reached_on:
  assumes "reached det F E es0 k (Some m)" and "fgIsOn m"
  shows "\<exists>es. waiting det F es0 k m es \<and> fgReplaying m \<and> fgIterationState m = here es 0 False" and "0 < k"
proof -
  show e: "\<exists>es. waiting det F es0 k m es \<and> fgReplaying m \<and> fgIterationState m = here es 0 False"
    using assms by (auto simp: reached_def finished_def)
  then show "0 < k" using waiting_events by blast
qed

lemma reached_Some: "reached det F E es0 k r \<Longrightarrow> \<exists>m. r = Some m"
  by (auto simp: reached_def)

lemma runs_off: "\<not> fgIsOn m \<Longrightarrow> runs rs m = Some m"
  by (cases rs) simp_all

lemma runs_end:
  assumes "reached False F E es0 k (Some m)"
  shows "\<exists>m'. runs rs m = Some m' \<and> (k \<le> length rs \<longrightarrow> \<not> fgIsOn m')"
  using assms
proof (induction rs arbitrary: m k)
  case Nil
  then show ?case using reached_on(2) [OF Nil] by auto
next
  case (Cons r rs)
  show ?case
  proof (cases "fgIsOn m")
    case True
    then obtain es where w: "waiting False F es0 k m es" using reached_on(1) [OF Cons.prems] by blast
    have r: "reached False F E es0 (k - 1) (run_outcome r m)" by (rule run_outcome_ok [OF w])
    then obtain m1 where m1: "run_outcome r m = Some m1" "reached False F E es0 (k - 1) (Some m1)"
      using reached_Some [OF r] by auto
    then show ?thesis using Cons.IH [OF m1(2)] True by auto
  qed (simp add: runs_off)
qed



section \<open>Replays of a system that acts on the events alone\<close>

text \<open>The error occurs while the events are replayed, or it occurs, and not before the last but for a pen-up.\<close>

definition fails :: "(EmRecordedEvent list \<Rightarrow> bool) \<Rightarrow> EmRecordedEvent list \<Rightarrow> bool" where
  "fails crash es \<longleftrightarrow> list_ex (\<lambda>k. crash (take k es)) [0..<length es + 1]"

definition fails_at_end :: "(EmRecordedEvent list \<Rightarrow> bool) \<Rightarrow> EmRecordedEvent list \<Rightarrow> bool" where
  "fails_at_end crash es \<longleftrightarrow> list_all (\<lambda>k. crash (take k es) \<longrightarrow> k + 1 = length es \<and> PrvIsPenUp (last es)) [0..<length es]"

lemma fails_iff: "fails crash es \<longleftrightarrow> (\<exists>k\<le>length es. crash (take k es))"
  by (simp add: fails_def list_ex_iff Bex_def less_Suc_eq_le del: upt_Suc)

lemma fails_at_end_iff:
  "fails_at_end crash es \<longleftrightarrow> (\<forall>k<length es. crash (take k es) \<longrightarrow> k + 1 = length es \<and> PrvIsPenUp (last es))"
  by (auto simp: fails_at_end_def list_all_iff)

lemma skip_replayed:
  "skip pen xs = (Some e, ys) \<Longrightarrow> \<exists>us. xs = us @ ys \<and> (\<forall>zs. replayed pen (us @ zs) = e # replayed (PrvIsPenDown e) zs)"
proof (induction pen xs rule: skip.induct)
  case (2 pen e' on xs)
  show ?case
  proof (cases "skip pen xs = (Some e, ys) \<and> \<not> (PrvIsPenUp e' \<and> pen) \<and> \<not> (on \<and> \<not> PrvIsPenUp e')")
    case True
    then obtain us where us: "xs = us @ ys" "\<forall>zs. replayed pen (us @ zs) = e # replayed (PrvIsPenDown e) zs" using 2 by blast
    show ?thesis using us True by (intro exI [of _ "(e', on) # us"], cases pen) auto
  next
    case False
    then have "e' = e \<and> ys = xs \<and> (PrvIsPenUp e' \<and> pen \<or> on \<and> \<not> PrvIsPenUp e')" using 2(3) by (auto split: if_splits)
    then show ?thesis by (intro exI [of _ "[(e', on)]"]) (auto simp: PenUp_not_PenDown)
  qed
qed simp

lemma replayed_off: "\<forall>x\<in>set xs. \<not> snd x \<Longrightarrow> replayed pen xs = [] \<or> (\<exists>e. replayed pen xs = [e] \<and> PrvIsPenUp e \<and> pen)"
proof (induction xs arbitrary: pen)
  case (Cons x xs)
  then have "replayed False xs = []" by fastforce
  then show ?case using Cons by (cases x) auto
qed simp

text \<open>The events that were replayed so far, whatever the rest of the mask is.\<close>

definition replayed_so_far :: "EmRecordedEvent list \<Rightarrow> bool list \<Rightarrow> nat \<Rightarrow> bool \<Rightarrow> EmRecordedEvent list \<Rightarrow> bool" where
  "replayed_so_far es m j pen posted \<longleftrightarrow> (\<forall>zs. replayed False (take j (masked es m) @ zs) = posted @ replayed pen zs)"

lemma so_far_next:
  assumes "replayed_so_far es m j pen posted" and "j \<le> length es" and "length m = length es" and "skip pen (drop j (masked es m)) = (Some e, ys)"
  shows "replayed_so_far es m (length es - length ys) (PrvIsPenDown e) (posted @ [e])"
proof -
  obtain us where us: "drop j (masked es m) = us @ ys" "\<forall>zs. replayed pen (us @ zs) = e # replayed (PrvIsPenDown e) zs"
    using skip_replayed [OF assms(4)] by blast
  have len: "length (masked es m) = length es" using assms(3) by (simp add: masked_def)
  have "masked es m = (take j (masked es m) @ us) @ ys" using us(1) by (metis append_assoc append_take_drop_id)
  then have "take (length es - length ys) (masked es m) = take j (masked es m) @ us"
    using len by (metis append_eq_conv_conj diff_add_inverse2 length_append)
  then show ?thesis using assms(1) us(2) by (simp add: replayed_so_far_def)
qed

lemma so_far_disabled:
  assumes "replayed_so_far es (fgMask m) j pen posted" and "j \<le> length es" and "stored m es" and "int (length es) \<le> LONG_MAX"
  shows "\<exists>zs. replay es (fgMask (DisableEvents (int j) LONG_MAX m)) = posted @ zs \<and> (zs = [] \<or> (\<exists>e. zs = [e] \<and> PrvIsPenUp e))"
proof -
  define m' where "m' = fgMask (DisableEvents (int j) LONG_MAX m)"
  have len: "length (fgMask m) = length es" "length m' = length es" using assms(3) by (simp_all add: stored_def m'_def)
  have "take j (masked es m') = take j (masked es (fgMask m))"
    using len assms(2) by (intro nth_equalityI) (simp_all add: masked_def m'_def mask_nth)
  then have "replay es m' = posted @ replayed pen (drop j (masked es m'))"
    using assms(1) unfolding replayed_so_far_def by (metis append_take_drop_id)
  moreover have "\<forall>x\<in>set (drop j (masked es m')). \<not> snd x"
  proof -
    have "\<not> m' ! (j + i)" if "i < length es - j" for i
    proof -
      have "int (j + i) < LONG_MAX" "j + i < length (fgMask m)" using that assms(4) len(1) by linarith+
      then show ?thesis using mask_nth(2) [of "j + i" m "int j" LONG_MAX] by (simp add: m'_def)
    qed
    then show ?thesis using len by (auto simp: masked_def in_set_conv_nth)
  qed
  ultimately show ?thesis using replayed_off [of "drop j (masked es m')" pen] m'_def by auto
qed

lemma play_ok:
  assumes "waiting True (fails crash) es0 k m es" and "fgIterationState m = here es j pen" and "j \<le> length es" and "fgReplaying m"
    and "replayed_so_far es (fgMask m) j pen posted" and "\<forall>i<length posted. \<not> crash (take i posted)"
  shows "reached True (fails crash) (fails_at_end crash) es0 (k - 1) (play crash posted m)"
  using assms
proof (induction "length es - j" arbitrary: m j pen posted rule: less_induct)
  case less
  have st: "stored m es" and on: "fgIsOn m" and ok: "events_ok es0 m es"
    using waiting_events [OF less.prems(1)] by (simp_all add: events_ok_def)
  have len: "length (fgMask m) = length es" using st by (simp add: stored_def)
  show ?case
  proof (cases "crash posted")
    case True
    have "length es \<le> length es0" using ok by (auto simp: events_ok_def list_emb_length)
    then have "int (length es) \<le> LONG_MAX" using ok by (simp add: events_ok_def LONG_MAX_def)
    from so_far_disabled [OF less.prems(5,3) st this] obtain zs where
      zs: "replay es (fgMask (DisableEvents (GetCurrentEvent m) LONG_MAX m)) = posted @ zs" "zs = [] \<or> (\<exists>e. zs = [e] \<and> PrvIsPenUp e)"
      using less.prems(2) by (auto simp: GetCurrentEvent_def)
    have "fails crash (posted @ zs)" unfolding fails_iff using True by (intro exI [of _ "length posted"]) simp
    moreover have "fails_at_end crash (posted @ zs)"
      unfolding fails_at_end_iff using zs(2) less.prems(6) True by (auto simp: less_Suc_eq)
    ultimately have "reached True (fails crash) (fails_at_end crash) es0 (k - 1) (ErrorOccurred m)"
      using zs(1) by (intro ErrorOccurred_ok [OF less.prems(1)]) simp_all
    then show ?thesis using True by (simp add: play.simps [of crash posted m])
  next
    case False
    then have quiet: "\<forall>i<length posted + 1. \<not> crash (take i posted)" using less.prems(6) by (auto simp: less_Suc_eq)
    obtain r ys where sk: "skip pen (drop j (masked es (fgMask m))) = (r, ys)" by fastforce
    note step = ReplayGetEvent_skip [OF st less.prems(2-4), unfolded sk]
    show ?thesis
    proof (cases r)
      case None
      define q where "q = ReplayEvents False (m\<lparr>fgIterationState := here es (length es) pen, fgPrevIterationState := here es j pen\<rparr>)"
      have q: "ReplayGetEvent m = Some (False, [], None, q)" using step None by (simp add: q_def)
      have same: "same m q" by (simp add: same_def q_def ReplayEvents_def)
      then have mask: "fgMask q = fgMask m" "fgIsOn q" using on by (simp_all add: same_def)
      have "replay es (fgMask m) = posted @ replayed pen (drop j (masked es (fgMask m)))"
        using less.prems(5) unfolding replayed_so_far_def by (metis append_take_drop_id)
      also have "\<dots> = posted" using replayed_skip [of pen "drop j (masked es (fgMask m))"] sk None by simp
      finally have "\<not> fails crash (replay es (fgMask q))" using quiet mask by (simp add: fails_iff)
      then have r: "reached True (fails crash) (fails_at_end crash) es0 (k - 1) (NoErrorOccurred q)"
        by (intro NoErrorOccurred_ok [OF less.prems(1) [folded waiting_same [OF same]]]) simp
      obtain m' where "NoErrorOccurred q = Some m'" using reached_Some [OF r] by blast
      then show ?thesis using r q mask(2) False
        by (simp add: play.simps [of crash posted m] Minimize_ReplayGetEvent_def)
    next
      case (Some e)
      define j' where "j' = length es - length ys"
      define q where "q = m\<lparr>fgIterationState := here es j' (PrvIsPenDown e), fgPrevIterationState := here es j pen\<rparr>"
      obtain b calls where q: "ReplayGetEvent m = Some (b, calls, Some e, q)" using step Some by (auto simp: q_def j'_def)
      have same: "same m q" by (simp add: same_def q_def)
      have "length ys < length es - j" using skip_shorter [of pen "drop j (masked es (fgMask m))"] sk Some len by (simp add: masked_def)
      then have j': "length es - j' < length es - j" "j' \<le> length es" by (simp_all add: j'_def)
      have so_far: "replayed_so_far es (fgMask q) j' (PrvIsPenDown e) (posted @ [e])"
        using so_far_next [OF less.prems(5,3) len] sk Some by (simp add: q_def j'_def)
      have quiet': "\<forall>i<length (posted @ [e]). \<not> crash (take i (posted @ [e]))" using quiet by (auto simp: less_Suc_eq_le)
      have "reached True (fails crash) (fails_at_end crash) es0 (k - 1) (play crash (posted @ [e]) q)"
        by (rule less.hyps [OF j'(1) less.prems(1) [folded waiting_same [OF same]] _ j'(2) _ so_far quiet'])
          (use less.prems(4) in \<open>simp_all add: q_def\<close>)
      then show ?thesis using q False by (simp add: play.simps [of crash posted m] Minimize_ReplayGetEvent_def)
    qed
  qed
qed

lemma minimize_all_ok:
  assumes "reached True (fails crash) (fails_at_end crash) es0 k (Some m)"
  shows "\<exists>m' es. minimize_all crash m = Some m' \<and> finished True (fails crash) (fails_at_end crash) es0 m' es"
  using assms
proof (induction k arbitrary: m rule: less_induct)
  case (less k)
  show ?case
  proof (cases "fgIsOn m")
    case True
    obtain es where w: "waiting True (fails crash) es0 k m es" "fgReplaying m" "fgIterationState m = here es 0 False"
      using reached_on(1) [OF less.prems True] by blast
    have r: "reached True (fails crash) (fails_at_end crash) es0 (k - 1) (play crash [] (reload m))"
      by (rule play_ok [OF iffD2 [OF waiting_same [OF reload_same(1)] w(1)], of 0 False])
        (simp_all add: w(2,3) reload_same(2,3) replayed_so_far_def)
    obtain m1 where m1: "play crash [] (reload m) = Some m1" using reached_Some [OF r] by blast
    have "k - 1 < k" using reached_on(2) [OF less.prems True] by simp
    from less.IH [OF this r [unfolded m1]] show ?thesis using True m1 by (simp add: minimize_all.simps [of crash m])
  next
    case False
    then have "\<exists>es. finished True (fails crash) (fails_at_end crash) es0 m es"
      using less.prems by (auto simp: reached_def dest: waiting_events)
    then show ?thesis using False by (auto simp: minimize_all.simps [of crash m])
  qed
qed

section \<open>What the minimiser finds\<close>

text \<open>What the index yields after a history was loaded.\<close>

definition loads_as :: "Chunk \<Rightarrow> EmRecordedEvent list \<Rightarrow> bool" where
  "loads_as c es \<longleftrightarrow> (case LoadEvents (Some c) playback_new of
     None \<Rightarrow> False
   | Some q \<Rightarrow> GetNumEvents q = int (length es) \<and>
       map (\<lambda>i. GetEvent (int i) kRecordedUnknownEvent q) [0..<length es] = map Some es)"

lemma loads_stored:
  assumes "SaveEvents q = Some c" and "stored (q :: 'z EmMinimize_scheme) es" and "length (bytes_of es) < 2 ^ 31"
  shows "loads_as c es"
proof -
  obtain d where d: "LoadEvents (Some c) playback_new = Some (playback_new\<lparr>fgEvents := d, fgMask := replicate (length es) True\<rparr>)"
    "chunk_holds d (bytes_of es)"
    using loads_history [OF assms, of playback_new "[]"] chunk_new_holds by (auto simp: playback_new_def)
  define p where "p = playback_new\<lparr>fgEvents := d, fgMask := replicate (length es) True\<rparr>"
  have p: "stored p es" using d(2) assms(2) by (simp add: p_def stored_def)
  have "map (\<lambda>i. GetEvent (int i) kRecordedUnknownEvent p) [0..<length es] = map Some es"
    by (intro nth_equalityI) (simp_all add: GetEvent_eq [OF p])
  moreover have "GetNumEvents p = int (length es)" using stored_mask p by (simp add: GetNumEvents_def stored_def)
  ultimately show ?thesis using d(1) by (simp add: loads_as_def p_def)
qed

lemma first_error_last: "kRecordedErrorEvent \<notin> set es \<Longrightarrow> first_error (es @ [kRecordedErrorEvent]) n = n + int (length es)"
  by (induction es arbitrary: n) auto

lemma replay_up_to_error:
  assumes "kRecordedErrorEvent \<notin> set es"
  shows "replay (es @ [kRecordedErrorEvent]) (initial_mask (es @ [kRecordedErrorEvent])) = replayed False (map (\<lambda>e. (e, True)) es)"
proof -
  have "initial_mask (es @ [kRecordedErrorEvent]) = replicate (length es) True @ [False]"
    by (intro nth_equalityI) (simp_all add: initial_mask_def first_error_last [OF assms] nth_append)
  moreover have "replayed pen (zip es (replicate (length es) True) @ [(kRecordedErrorEvent, False)]) = replayed pen (map (\<lambda>e. (e, True)) es)" for pen
    by (induction es arbitrary: pen) auto
  ultimately show ?thesis by (simp add: masked_def)
qed

lemma minimize_ok:
  assumes "\<forall>e\<in>set es. storable e" and "kRecordedErrorEvent \<notin> set es" and "13 * (length es + 2) < 2 ^ 31"
    and "fails crash (replayed False (map (\<lambda>e. (e, True)) es))"
  shows "\<exists>m ds. minimize crash es = Some m \<and> finished True (fails crash) (fails_at_end crash) es m ds"
proof -
  let ?es = "es @ [kRecordedErrorEvent]"
  have st: "\<forall>e\<in>set ?es. storable e" and size: "13 * (length ?es + 1) < 2 ^ 31" using assms(1,3) by auto
  have sub: "subseq (replay ?es (initial_mask ?es)) es"
    unfolding replay_up_to_error [OF assms(2)] using replayed_subseq [of False "map (\<lambda>e. (e, True)) es"] by (simp add: comp_def)
  obtain p c d where p: "record_all ?es (RecordEvents True playback_new) = Some p" "SaveEvents p = Some c"
    and d: "LoadEvents (Some c) minimize_new = Some (minimize_new\<lparr>fgEvents := d, fgMask := replicate (length ?es) True\<rparr>)"
      "chunk_holds d (bytes_of ?es)"
    using history [OF st size] by blast
  have r: "reached True (fails crash) (fails_at_end crash) es (length (replay ?es (initial_mask ?es)) * length (replay ?es (initial_mask ?es)) + 1)
      (Start (Some c) 0 minimize_new)"
    using assms(3,4) by (intro Start_ok [OF d st size _ _ sub]) (simp_all add: first_error_last [OF assms(2)] replay_up_to_error [OF assms(2)])
  obtain m where m: "Start (Some c) 0 minimize_new = Some m" using reached_Some [OF r] by blast
  show ?thesis using minimize_all_ok [OF r [unfolded m]] p m by (simp add: minimize_def)
qed

lemma finished_history:
  assumes "finished True F E es m ds" and "13 * (length es + 1) < 2 ^ 31"
  shows "\<exists>c. saved_history m = Some c \<and> loads_as c (ds @ [kRecordedErrorEvent])"
proof -
  have "length ds \<le> length es" using assms(1) by (auto simp: finished_def list_emb_length)
  then have "length (bytes_of (ds @ [kRecordedErrorEvent])) < 2 ^ 31"
    using bytes_of_length [of "ds @ [kRecordedErrorEvent]"] assms(2) by simp
  then show ?thesis using assms(1) loads_stored by (fastforce simp: finished_def)
qed


definition a_to_e :: "EmRecordedEvent list" where
  "a_to_e = [kRecordedKeyEvent 97 0 0, kRecordedPenEvent 20 30, kRecordedKeyEvent 98 0 0, kRecordedKeyEvent 99 0 0,
     kRecordedPenEvent 10 15, kRecordedPenEvent (- 1) (- 1), kRecordedKeyEvent 100 0 0, kRecordedKeyEvent 101 0 0]"

definition b_and_d :: "EmRecordedEvent list \<Rightarrow> bool" where
  "b_and_d es \<longleftrightarrow> subseq [kRecordedKeyEvent 98 0 0, kRecordedKeyEvent 100 0 0] es"




end
