(* ===== verification/GremlinQuotes.thy ===== *)
theory GremlinQuotes
  imports StreamValues
begin

text \<open>
  The texts that a gremlin types (\<open>CGremlins.cpp\<close>): the tables of quotations, in ASCII and in the
  character encodings of devices for other languages, as the bytes of the source's string literals.
\<close>

definition text_bytes :: "string \<Rightarrow> uint8 list" where
  "text_bytes s = map of_char s"

definition kAsciiQuotes :: "uint8 list list" where
  "kAsciiQuotes =
    [text_bytes (''Out out damn spot!''),
     text_bytes (''Et tu, Brute?''),
     text_bytes (''When in disgrace with fortune and mens' eyes I all alone beweep my outcast state.  And trouble deaf '' @
       ''heaven with my bootless cries and look upon myself and curse my fate. Wishing me like to one more '' @
       ''rich in hope, featured like him, like him with friends possest, desiring this man's art and that '' @
       ''man's scope, with what I most enjoy contented least;'' @
       [CHR 0x0A] @
       ''Yet in these thoughts myself almost despising- haply I think on thee: and then my state, like to '' @
       ''the lark at break of day arising from sullen earth, sings hymns at Heaven's gate; for thy sweet '' @
       ''love rememb'red such wealth brings that then I scorn to change my state with kings.''),
     text_bytes (''I think my wife is honest, and think she is not; I think that thou art just, and think thou art not.''),
     text_bytes (''O that this too too sullied flesh would melt, thaw, and resolve itself into a dew, or that the '' @
       ''Everlasting had not fixed His canon 'gainst self-slaughter.''),
     text_bytes (''Come, you spirits that tend on mortal thoughts, unsex me here, and fill me from the crown to the '' @
       ''toe top-full of direst cruelty.''),
     text_bytes (''I do not think but Desdemona's honest.''),
     text_bytes (''That I did love the Moor to live with him''),
     text_bytes (''What a piece of work is a man''),
     text_bytes (''Fair is foul, and foul is fair.''),
     text_bytes (''All hail, Macbeth, that shalt be King hereafter!''),
     text_bytes (''What's Montague?''),
     text_bytes (''To a nunnery, go, and quickly too.''),
     text_bytes (''I'll have some proof.''),
     text_bytes (''Now are we well resolved, and by God's help and yours, the noble sinews of our power, France being '' @
       ''ours, we'll bend it to our awe or break it all to pieces.''),
     text_bytes (''Tennis balls, my liege.''),
     text_bytes (''De Sin: le col de Nick, le menton de Sin.''),
     text_bytes (''But swords I smile at, weapons laugh to scorn, brandished by man that's of a woman born.'')]"

definition kShiftJISQuotes :: "uint8 list list" where
  "kShiftJISQuotes =
    [[0x90, 0x6C, 0x82, 0xCD, 0x81, 0x41, 0x82, 0xA9, 0x82, 0xC2, 0x82, 0xC4, 0x90, 0x58, 0x82, 0xCC, 0x90, 0x5F, 0x82, 0xF0, 0x8E, 0x45, 0x82, 0xB5,
      0x82, 0xBD],
     [0x82, 0xE0, 0x82, 0xCC, 0x82, 0xCC, 0x82, 0xAF, 0x95, 0x50],
     [0x90, 0x6C, 0x96, 0xCA, 0x82, 0xC6, 0x8F, 0x62, 0x82, 0xCC, 0x90, 0x67, 0x91, 0xCC, 0x81, 0x41, 0x8E, 0xF7, 0x96, 0xD8, 0x82, 0xCC, 0x8A, 0x70,
      0x82, 0xF0, 0x8E, 0x9D, 0x82, 0xC2, 0x90, 0x58, 0x82, 0xCC, 0x90, 0x5F, 0x81, 0x45, 0x83, 0x56, 0x83, 0x56, 0x90, 0x5F, 0x82, 0xF0, 0x90, 0x6C,
      0x82, 0xCD, 0x89, 0xBD, 0x8C, 0xCC, 0x8E, 0x45, 0x82, 0xB3, 0x82, 0xCB, 0x82, 0xCE, 0x82, 0xC8, 0x82, 0xE7, 0x82, 0xC8, 0x82, 0xA9, 0x82, 0xC1,
      0x82, 0xBD, 0x82, 0xCC, 0x82, 0xA9, 0x81, 0x7C, 0x82, 0xB1, 0x82, 0xCC, 0x8E, 0x9E, 0x91, 0xE3, 0x81, 0x41, 0x90, 0x6C, 0x8A, 0xD4, 0x82, 0xAA,
      0x82, 0xD3, 0x82, 0xA6, 0x81, 0x41, 0x91, 0xBD, 0x82, 0xAD, 0x82, 0xCC, 0x8C, 0xB4, 0x90, 0xB6, 0x97, 0xD1, 0x82, 0xAA, 0x91, 0xF1, 0x82, 0xA9,
      0x82, 0xEA, 0x82, 0xBD, 0x82, 0xC6, 0x82, 0xCD, 0x82, 0xA2, 0x82, 0xA6, 0x81, 0x41, 0x82, 0xDC, 0x82, 0xBE, 0x90, 0x6C, 0x82, 0xF0, 0x8A, 0xF1,
      0x82, 0xB9, 0x82, 0xC2, 0x82, 0xAF, 0x82, 0xCA, 0x91, 0xBE, 0x8C, 0xC3, 0x82, 0xCC, 0x90, 0x58, 0x82, 0xAA, 0x82, 0xA0, 0x82, 0xBF, 0x82, 0xB1,
      0x82, 0xBF, 0x82, 0xC9, 0x8E, 0x63, 0x82, 0xC1, 0x82, 0xC4, 0x82, 0xA2, 0x82, 0xBD, 0x0A, 0x82, 0xBB, 0x82, 0xEA, 0x82, 0xBC, 0x82, 0xEA, 0x82,
      0xCC, 0x90, 0x58, 0x82, 0xCD, 0x81, 0x41, 0x92, 0x96, 0x82, 0xE2, 0x8E, 0x52, 0x8C, 0xA2, 0x82, 0xC8, 0x82, 0xC7, 0x8B, 0x90, 0x91, 0xE5, 0x82,
      0xC5, 0x8C, 0xAB, 0x82, 0xA9, 0x82, 0xC1, 0x82, 0xBD, 0x8F, 0x62, 0x82, 0xBD, 0x82, 0xBF, 0x82, 0xAA, 0x95, 0x4B, 0x8E, 0x80, 0x82, 0xC9, 0x82,
      0xC8, 0x82, 0xC1, 0x82, 0xC4, 0x8E, 0xE7, 0x82, 0xC1, 0x82, 0xC4, 0x82, 0xA2, 0x82, 0xBD, 0x82, 0xBB, 0x82, 0xB5, 0x82, 0xC4, 0x81, 0x41, 0x90,
      0xB9, 0x88, 0xE6, 0x82, 0xF0, 0x90, 0x4E, 0x82, 0xB7, 0x90, 0x6C, 0x8A, 0xD4, 0x92, 0x42, 0x82, 0xF0, 0x8F, 0x50, 0x82, 0xA2, 0x8D, 0x72, 0x82,
      0xD4, 0x82, 0xE9, 0x90, 0x5F, 0x81, 0x58, 0x82, 0xC6, 0x8B, 0xB0, 0x82, 0xEA, 0x82, 0xE7, 0x82, 0xEA, 0x82, 0xC4, 0x82, 0xA2, 0x82, 0xBD, 0x82,
      0xBB, 0x82, 0xCC, 0x8F, 0x62, 0x92, 0x42, 0x82, 0xF0, 0x8F, 0x5D, 0x82, 0xA6, 0x82, 0xC4, 0x82, 0xA2, 0x82, 0xBD, 0x82, 0xCC, 0x82, 0xAA, 0x81,
      0x41, 0x83, 0x56, 0x83, 0x56, 0x90, 0x5F, 0x82, 0xC5, 0x82, 0xA0, 0x82, 0xE9, 0x8D, 0x72, 0x82, 0xD4, 0x82, 0xE9, 0x90, 0x5F, 0x81, 0x58, 0x82,
      0xF0, 0x8D, 0xC5, 0x82, 0xE0, 0x8C, 0x83, 0x82, 0xB5, 0x82, 0xAD, 0x90, 0xED, 0x82, 0xC1, 0x82, 0xC4, 0x82, 0xA2, 0x82, 0xBD, 0x82, 0xCC, 0x82,
      0xCD, 0x83, 0x5E, 0x83, 0x5E, 0x83, 0x89, 0x8E, 0xD2, 0x82, 0xC6, 0x8C, 0xC4, 0x82, 0xCE, 0x82, 0xEA, 0x82, 0xE9, 0x90, 0xBB, 0x93, 0x53, 0x8F,
      0x57, 0x92, 0x63, 0x82, 0xBE, 0x82, 0xC1, 0x82, 0xBD],
     [0x8F, 0x97, 0x82, 0xCC, 0x90, 0x67, 0x82, 0xC5, 0x83, 0x5E, 0x83, 0x5E, 0x83, 0x89, 0x8F, 0x57, 0x92, 0x63, 0x82, 0xF0, 0x97, 0xA6, 0x82, 0xA2,
      0x82, 0xE9, 0x83, 0x47, 0x83, 0x7B, 0x83, 0x56, 0x8C, 0xE4, 0x91, 0x4F, 0x94, 0xDE, 0x8F, 0x97, 0x82, 0xCD, 0x8C, 0xC8, 0x82, 0xAA, 0x90, 0x4D,
      0x94, 0x4F, 0x82, 0xC5, 0x81, 0x41, 0x90, 0x58, 0x82, 0xF0, 0x90, 0xD8, 0x82, 0xE8, 0x91, 0xF1, 0x82, 0xA2, 0x82, 0xC4, 0x82, 0xA2, 0x82, 0xBD],
     [0x82, 0xBB, 0x82, 0xCC, 0x94, 0x7A, 0x89, 0xBA, 0x82, 0xC5, 0x81, 0x41, 0x8C, 0xE4, 0x91, 0x4F, 0x82, 0xF0, 0x8C, 0x68, 0x82, 0xA2, 0x95, 0xE7,
      0x82, 0xA4, 0x81, 0x41, 0x83, 0x53, 0x83, 0x93, 0x83, 0x55, 0x82, 0xC9, 0x82, 0xA8, 0x83, 0x67, 0x83, 0x4C, 0x82, 0xC6, 0x8D, 0x62, 0x98, 0x5A,
      0x83, 0x56, 0x83, 0x56, 0x90, 0x5F, 0x82, 0xF0, 0x82, 0xCB, 0x82, 0xE7, 0x82, 0xA4, 0x90, 0xB3, 0x91, 0xCC, 0x95, 0x73, 0x96, 0xBE, 0x82, 0xCC,
      0x96, 0x56, 0x8E, 0xE5, 0x81, 0x45, 0x83, 0x57, 0x83, 0x52, 0x96, 0x56, 0x96, 0x6B, 0x82, 0xCC, 0x92, 0x6E, 0x82, 0xCC, 0x89, 0xCA, 0x82, 0xC4,
      0x82, 0xCC, 0x89, 0x42, 0x82, 0xEA, 0x97, 0xA2, 0x82, 0xC9, 0x8F, 0x5A, 0x82, 0xDE, 0x98, 0x56, 0x9B, 0xDE, 0x8F, 0x97, 0x81, 0x45, 0x83, 0x71,
      0x83, 0x43, 0x82, 0xB3, 0x82, 0xDC, 0x89, 0xB3, 0x8E, 0x96, 0x8E, 0xE5, 0x81, 0x41, 0x83, 0x69, 0x83, 0x53, 0x82, 0xCC, 0x90, 0x5F, 0x81, 0x41,
      0x83, 0x82, 0x83, 0x8D, 0x82, 0xC8, 0x82, 0xC7, 0x90, 0x58, 0x82, 0xF0, 0x8E, 0xE7, 0x82, 0xE9, 0x90, 0x5F, 0x8F, 0x62, 0x82, 0xBD, 0x82, 0xBF],
     [0x82, 0xBB, 0x82, 0xEA, 0x82, 0xC9, 0x90, 0x58, 0x82, 0xCC, 0x90, 0xB8, 0x97, 0xEC, 0x81, 0x45, 0x83, 0x52, 0x83, 0x5F, 0x83, 0x7D, 0x82, 0xBD,
      0x82, 0xBF, 0x81, 0x63, 0x8F, 0xAD, 0x8F, 0x97, 0x83, 0x54, 0x83, 0x93, 0x82, 0xCD, 0x90, 0x6C, 0x8A, 0xD4, 0x82, 0xCC, 0x8E, 0x71, 0x82, 0xC5,
      0x82, 0xA0, 0x82, 0xE8, 0x82, 0xC8, 0x82, 0xAA, 0x82, 0xE7, 0x8E, 0x52, 0x8C, 0xA2, 0x83, 0x82, 0x83, 0x8D, 0x82, 0xC9, 0x88, 0xE7, 0x82, 0xC4,
      0x82, 0xE7, 0x82, 0xEA, 0x82, 0xBD, 0x81, 0x75, 0x82, 0xE0, 0x82, 0xCC, 0x82, 0xCC, 0x82, 0xAF, 0x95, 0x50, 0x81, 0x76],
     [0x82, 0xBE, 0x82, 0xC1, 0x82, 0xBD, 0x83, 0x54, 0x83, 0x93, 0x82, 0xCD, 0x81, 0x41, 0x90, 0x58, 0x82, 0xF0, 0x90, 0x4E, 0x82, 0xB7, 0x90, 0x6C,
      0x8A, 0xD4, 0x82, 0xF0, 0x8C, 0x83, 0x82, 0xB5, 0x82, 0xAD, 0x91, 0x9E],
     [0x82, 0xF1, 0x82, 0xC5, 0x82, 0xA2, 0x82, 0xBD, 0x82, 0xBB, 0x82, 0xB5, 0x82, 0xC4, 0x81, 0x41, 0x90, 0x6C, 0x8A, 0xD4, 0x82, 0xC6, 0x8D, 0x72,
      0x82, 0xD4, 0x82, 0xE9, 0x90, 0x5F, 0x81, 0x58, 0x82, 0xCC, 0x8D, 0xC5, 0x8C, 0xE3],
     [0x82, 0xCC, 0x91, 0xE5, 0x8C, 0x88, 0x90, 0xED, 0x82, 0xC9, 0x8A, 0xAA, 0x82, 0xAB, 0x8D, 0x9E, 0x82, 0xDC, 0x82, 0xEA, 0x82, 0xE9, 0x8F, 0xAD,
      0x94, 0x4E],
     [0x83, 0x41, 0x83, 0x56, 0x83, 0x5E, 0x83, 0x4A, 0x94, 0xDE, 0x82, 0xCD, 0x81, 0x41, 0x8E, 0x80, 0x82, 0xCC, 0x8E, 0xF4, 0x82, 0xA2, 0x82, 0xF0],
     [0x82, 0xA9, 0x82, 0xAF, 0x82, 0xE7, 0x82, 0xEA, 0x82, 0xBD, 0x82, 0xAA, 0x82, 0xE4, 0x82, 0xA6, 0x82, 0xC9, 0xE2, 0x71, 0x82, 0xEA, 0x82, 0xF0,
      0x8F, 0xF2, 0x82, 0xDF, 0x82, 0xE9, 0x95, 0xFB, 0x96, 0x40, 0x82, 0xF0, 0x92, 0x54, 0x82, 0xB5, 0x82, 0xC9, 0x81, 0x41],
     [0x97, 0xB7, 0x82, 0xC9, 0x8F, 0x6F, 0x82, 0xBD, 0x8F, 0xAD, 0x94, 0x4E, 0x82, 0xBE, 0x82, 0xC1, 0x82, 0xBD],
     [0x8F, 0xAD, 0x94, 0x4E, 0x82, 0xC6, 0x8F, 0xAD, 0x8F, 0x97, 0x82, 0xCD, 0x8E, 0x53, 0x8C, 0x80, 0x82, 0xCC, 0x92, 0x86, 0x82, 0xC5, 0x8F, 0x6F,
      0x89, 0xEF, 0x82, 0xA2, 0x81, 0x41],
     [0x8E, 0x9F, 0x91, 0xE6, 0x82, 0xC9, 0x90, 0x53, 0x82, 0xF0, 0x92, 0xCA, 0x82, 0xED, 0x82, 0xB9],
     [0x82, 0xC4, 0x82, 0xE4, 0x82, 0xAD, 0x82, 0xD3, 0x82, 0xBD, 0x82, 0xE8, 0x82, 0xAA, 0x91, 0x9E, 0x88, 0xAB, 0x82, 0xC6, 0x8E, 0x45, 0x9D, 0x43,
      0x82, 0xCC, 0x89, 0xCA, 0x82, 0xC4, 0x82, 0xC9, 0x8C, 0xA9, 0x82, 0xA2, 0x82, 0xBE, 0x82, 0xB5, 0x82, 0xBD, 0x8A, 0xF3, 0x96, 0x5D, 0x82, 0xC6,
      0x82, 0xCD, 0x89, 0xBD, 0x82, 0xBE, 0x82, 0xC1, 0x82, 0xBD, 0x82, 0xCC, 0x82, 0xA9, 0x8F, 0xAD, 0x94, 0x4E, 0x82, 0xC6, 0x8F, 0xAD, 0x8F, 0x97,
      0x82, 0xCC, 0x88, 0xA4, 0x82, 0xF0, 0x89, 0xA1, 0x8E, 0x85, 0x82, 0xC9, 0x83, 0x56, 0x83, 0x56, 0x90, 0x5F, 0x82, 0xF0, 0x82, 0xDF, 0x82, 0xAE,
      0x82, 0xE9, 0x90, 0x6C, 0x8A, 0xD4, 0x82, 0xC6, 0x8F, 0x62, 0x82, 0xBD, 0x82, 0xBF],
     [0x82, 0xCC, 0x90, 0xED, 0x82, 0xA2, 0x82, 0xF0, 0x8F, 0x63, 0x8E, 0x85, 0x82, 0xC9],
     [0x94, 0x67, 0xE0, 0x70, 0x96, 0x9C, 0x8F, 0xE4, 0x82, 0xCC, 0x88, 0xEA, 0x91, 0xE5, 0x8F, 0x96, 0x8E, 0x96, 0x8E, 0x8D, 0x82, 0xAA, 0x81, 0x41,
      0x93, 0x57, 0x8A, 0x4A, 0x82, 0xB3, 0x82, 0xEA, 0x82, 0xC4, 0x82, 0xA2, 0x82, 0xAD, 0x81, 0x63],
     [0x8C, 0xB4, 0x8D, 0xEC, 0x81, 0x45, 0x8B, 0x72, 0x96, 0x7B, 0x81, 0x40, 0x81, 0x40, 0x81, 0x46, 0x8B, 0x7B, 0x8D, 0xE8, 0x81, 0x40, 0x8F, 0x78,
      0x90, 0xBB, 0x81, 0x40, 0x8D, 0xEC, 0x81, 0x40, 0x81, 0x40, 0x81, 0x40, 0x81, 0x40, 0x81, 0x46, 0x8E, 0x81, 0x89, 0xC6, 0xEA, 0x8E, 0x88, 0xEA,
      0x98, 0x59, 0x81, 0x45, 0x90, 0xAC, 0x93, 0x63, 0x81, 0x40, 0x96, 0x4C, 0x90, 0xBB, 0x8D, 0xEC, 0x91, 0x8D, 0x8E, 0x77, 0x8A, 0xF6, 0x81, 0x40,
      0x81, 0x40, 0x81, 0x46, 0x93, 0xBF, 0x8A, 0xD4, 0x8D, 0x4E, 0x89, 0xF5, 0x83, 0x76, 0x83, 0x8D, 0x83, 0x66, 0x83, 0x85, 0x81, 0x5B, 0x83, 0x54,
      0x81, 0x5B, 0x81, 0x46, 0x97, 0xE9, 0x96, 0xD8, 0x95, 0x71, 0x95, 0x76]]"

definition kBig5Quotes :: "uint8 list list" where
  "kBig5Quotes =
    [[0xA6, 0xB9, 0xB6, 0x7D, 0xA8, 0xF7, 0xB2, 0xC4, 0xA4, 0x40, 0xA6, 0x5E, 0xA4, 0x5D, 0xA1, 0x43, 0xA7, 0x40],
     [0xAA, 0xCC, 0xA6, 0xDB, 0xB6, 0xB3, 0xA1, 0x47, 0xA6, 0x5D, 0xB4, 0xBF],
     [0xBE, 0xE4, 0xB9, 0x4C, 0xA4, 0x40, 0xB5, 0x66, 0xB9, 0xDA, 0xA4, 0xDB, 0xA4, 0xA7, 0xAB, 0xE1, 0xA1, 0x41, 0xAC, 0x47, 0xB1, 0x4E, 0xAF, 0x75,
      0xA8, 0xC6, 0xC1, 0xF4, 0xA5, 0x68, 0xA1, 0x41, 0xA6, 0xD3, 0xAD, 0xC9, 0x22, 0xB3, 0x71, 0xC6, 0x46, 0x22, 0xA4, 0xA7, 0xBB, 0xA1, 0xA1, 0x41,
      0xBC, 0xB6, 0xA6, 0xB9, 0xA4, 0x40, 0xAE, 0xD1, 0xA4, 0x5D, 0xA1, 0x43, 0xAC, 0x47, 0xA4, 0xEA, 0x22, 0xBA, 0xC2, 0xA4, 0x68, 0xC1, 0xF4, 0x22,
      0xA4, 0xAA, 0xA4, 0xAA, 0xA1, 0x43, 0xA6, 0xFD, 0xAE, 0xD1, 0xA4, 0xA4, 0xA9, 0xD2, 0xB0, 0x4F, 0xA6, 0xF3, 0xA8, 0xC6, 0xA6, 0xF3, 0xA4, 0x48,
      0xA1, 0x48, 0xA6, 0xDB, 0xA4, 0x53, 0xB6, 0xB3, 0xA1, 0x47, 0xA4, 0xB5, 0xAD, 0xB7, 0xB9, 0xD0, 0xB8, 0x4C, 0xB8, 0x4C, 0xA1, 0x41, 0xA4, 0x40,
      0xA8, 0xC6, 0xB5, 0x4C, 0xA6, 0xA8, 0xA1, 0x41],
     [0xA9, 0xBF, 0xA9, 0xC0, 0xA4, 0xCE, 0xB7, 0xED, 0xA4, 0xE9, 0xA9, 0xD2, 0xA6, 0xB3, 0xA4, 0xA7, 0xA4, 0x6B, 0xA4, 0x6C, 0xA1, 0x41, 0xA4, 0x40,
      0xA4, 0x40, 0xB2, 0xD3, 0xA6, 0xD2, 0xB8, 0xFB, 0xA5, 0x68, 0xA1, 0x41, 0xC4, 0xB1, 0xA8, 0xE4, 0xA6, 0xE6, 0xA4, 0xEE, 0xA8, 0xA3, 0xC3, 0xD1,
      0xA1, 0x41, 0xAC, 0xD2, 0xA5, 0x58, 0xA9, 0xF3, 0xA7, 0xDA, 0xA4, 0xA7, 0xA4, 0x57, 0xA1, 0x43, 0xA6, 0xF3, 0xA7, 0xDA, 0xB0, 0xF3, 0xB0, 0xF3,
      0xC5, 0xBD, 0xAC, 0xDC, 0xA1, 0x41, 0xB8, 0xDB, 0xA4, 0xA3, 0xAD, 0x59, 0xA9, 0xBC, 0xB8, 0xC8, 0xB3, 0xA6, 0xAB, 0x76, 0xA1, 0x48, 0xB9, 0xEA,
      0xB7, 0x5C, 0xAB, 0x68, 0xA6, 0xB3, 0xBE, 0x6C, 0xA1, 0x41, 0xAE, 0xAC, 0xA4, 0x53, 0xB5, 0x4C, 0xAF, 0x71, 0xA4, 0xA7, 0xA4, 0x6A, 0xB5, 0x4C,
      0xA5, 0x69, 0xA6, 0x70, 0xA6, 0xF3, 0xA4, 0xA7, 0xA4, 0xE9, 0xA4, 0x5D, 0xA1, 0x49, 0xB7, 0xED, 0xA6, 0xB9, 0xA1, 0x41, 0xAB, 0x68, 0xA6, 0xDB,
      0xB1, 0xFD, 0xB1, 0x4E, 0xA4, 0x77, 0xA9, 0xB9, 0xA9, 0xD2, 0xBF, 0xE0, 0xA4, 0xD1, 0xAE, 0xA6, 0xAF, 0xAA, 0xBC, 0x77, 0xA1, 0x41, 0xC0, 0x41,
      0xA6, 0xE7, 0xD0, 0x4B, 0xA4, 0xA7, 0xAE, 0xC9, 0xA1, 0x41, 0xDC, 0xAE, 0xA5, 0xCC, 0xC5, 0xE4, 0xAA, 0xCE, 0xA4, 0xA7, 0xA4, 0xE9, 0xA1, 0x41,
      0xAD, 0x49, 0xA4, 0xF7, 0xA5, 0x53, 0xB1, 0xD0, 0xA8, 0x7C, 0xA4, 0xA7, 0xAE, 0xA6, 0xA1, 0x41, 0xAD, 0x74, 0xAE, 0x76, 0x20, 0x0A, 0xA4, 0xCD,
      0xB3, 0x57, 0xBD, 0xCD, 0xA4, 0xA7, 0xBC, 0x77, 0xA1, 0x41, 0xA5, 0x48, 0xA6, 0xDC, 0xA4, 0xB5, 0xA4, 0xE9, 0xA4, 0x40, 0xA7, 0xDE, 0xB5, 0x4C,
      0xA6, 0xA8, 0xA1, 0x41, 0xA5, 0x62, 0xA5, 0xCD, 0xBC, 0xE3, 0xAD, 0xCB, 0xA4, 0xA7, 0xB8, 0x6F, 0xA1, 0x41, 0xBD, 0x73, 0x20, 0xAD, 0x7A, 0xA4,
      0x40, 0xB6, 0xB0, 0xA1, 0x41, 0xA5, 0x48, 0xA7, 0x69, 0xA4, 0xD1, 0xA4, 0x55, 0xA4, 0x48, 0xA1, 0x47, 0xA7, 0xDA, 0xA4, 0xA7, 0xB8, 0x6F, 0xA9,
      0x54, 0xA4, 0xA3, 0xA7, 0x4B, 0xA1, 0x41, 0xB5, 0x4D, 0xBB, 0xD3, 0xBB, 0xD5, 0xA4, 0xA4, 0xA5, 0xBB, 0xA6, 0xDB, 0xBE, 0xFA, 0xBE, 0xFA, 0xA6,
      0xB3, 0xA4, 0x48, 0xA1, 0x41, 0xB8, 0x55, 0xA4, 0xA3, 0xA5, 0x69, 0xA6, 0x5D, 0xA7, 0xDA, 0xA4, 0xA7, 0xA4, 0xA3, 0xA8, 0x76, 0xA1, 0x41, 0xA6,
      0xDB, 0xC5, 0x40, 0xA4, 0x76, 0xB5, 0x75, 0x20, 0xA1, 0x41, 0xA4, 0x40, 0xA8, 0xD6, 0xA8, 0xCF, 0xA8, 0xE4, 0xAA, 0x7B, 0xB7, 0xC0, 0xA4, 0x5D,
      0xA1, 0x43, 0xC1, 0xF6, 0xA4, 0xB5, 0xA4, 0xE9, 0xA4, 0xA7, 0xAD, 0x54, 0xDD, 0xDC, 0xBD, 0xB4, 0xBC, 0xF8, 0xA1, 0x41, 0xA5, 0xCB, 0x5F, 0xC3,
      0xB7, 0xA7, 0xC9, 0xA1, 0x41, 0xA8, 0xE4, 0x20, 0xB1, 0xE1, 0xA4, 0x69, 0xAD, 0xB7, 0xC5, 0x53, 0xA1, 0x41, 0xB6, 0xA5, 0xAC, 0x68, 0xAE, 0x78,
      0xAA, 0xE1, 0xA1, 0x41, 0xA5, 0xE7, 0xA5, 0xBC, 0xA6, 0xB3, 0xA7, 0xAB, 0xA7, 0xDA, 0xA4, 0xA7, 0xC3, 0xCC, 0xC3, 0x68, 0xB5, 0xA7, 0xBE, 0xA5,
      0xAA, 0xCC, 0xA1, 0x43, 0xC1, 0xF6, 0xA7, 0xDA, 0x20, 0xA5, 0xBC, 0xBE, 0xC7, 0xA1, 0x41, 0xA4, 0x55, 0xB5, 0xA7, 0xB5, 0x4C, 0xA4, 0xE5, 0xA1,
      0x41, 0xA4, 0x53, 0xA6, 0xF3, 0xA7, 0xAB, 0xA5, 0xCE, 0xB0, 0xB2, 0xBB, 0x79, 0xA7, 0xF8, 0xA8, 0xA5, 0xA1, 0x41, 0xBC, 0xC5, 0xBA, 0x74, 0xA5,
      0x58, 0xA4, 0x40, 0xAC, 0x71, 0xAC, 0x47, 0xA8, 0xC6, 0xA8, 0xD3, 0xA1, 0x41, 0xA5, 0xE7, 0xA5, 0x69, 0xA8, 0xCF, 0xBB, 0xD3, 0xBB, 0xD5, 0xAC,
      0x4C, 0xB6, 0xC7, 0xA1, 0x41, 0xBD, 0xC6, 0xA5, 0x69, 0xAE, 0xAE, 0xA5, 0x40, 0xA4, 0xA7, 0xA5, 0xD8, 0xA1, 0x41, 0xAF, 0x7D, 0xA4, 0x48, 0xB7,
      0x54, 0xB4, 0x65, 0xA1, 0x41, 0xA4, 0xA3, 0xA5, 0xE7, 0x20, 0xA9, 0x79, 0xA5, 0x47, 0xA1, 0x48, 0xAC, 0x47, 0xA4, 0xEA, 0x22, 0xB8, 0xEB, 0xAB,
      0x42, 0xA7, 0xF8, 0x22, 0xA4, 0xAA, 0xA4, 0xAA, 0xA1, 0x43, 0xA6, 0xB9, 0xA6, 0x5E, 0xA4, 0xA4, 0xA4, 0x5A, 0xA5, 0xCE, 0x22, 0xB9, 0xDA, 0x22,
      0xA5, 0xCE, 0x22, 0xA4, 0xDB, 0x22],
     [0xB5, 0xA5, 0xA6, 0x72, 0xA1, 0x41, 0xAC, 0x4F, 0xB4, 0xA3, 0xBF, 0xF4, 0xBE, 0x5C, 0xAA, 0xCC, 0xB2, 0xB4, 0xA5, 0xD8, 0xA1, 0x41, 0xA5, 0xE7,
      0xAC, 0x4F, 0xA6, 0xB9, 0xAE, 0xD1, 0xA5, 0xDF, 0xB7, 0x4E, 0xA5, 0xBB, 0xA6, 0xAE, 0xA1, 0x43, 0xA6, 0x43, 0xA6, 0xEC, 0xAC, 0xDD, 0xA9, 0x78,
      0xA1, 0x47, 0xA7, 0x41, 0xB9, 0x44, 0xA6, 0xB9, 0xAE, 0xD1, 0xB1, 0x71, 0xA6, 0xF3, 0xA6, 0xD3, 0xA8, 0xD3, 0xA1, 0x48, 0xBB, 0xA1, 0xB0, 0x5F,
      0xAE, 0xDA, 0xA5, 0xD1, 0xC1, 0xF6, 0xAA, 0xF1, 0xAF, 0xEE, 0x20, 0xAD, 0xF0, 0xA1, 0x41, 0xB2, 0xD3, 0xAB, 0xF6, 0xAB, 0x68, 0xB2, 0x60, 0xA6,
      0xB3, 0xBD, 0xEC, 0xA8, 0xFD, 0xA1, 0x43, 0xAB, 0xDD, 0xA6, 0x62, 0xA4, 0x55, 0xB1, 0x4E, 0xA6, 0xB9, 0xA8, 0xD3, 0xBE, 0xFA, 0xAA, 0x60, 0xA9,
      0xFA, 0xAD, 0xEC, 0xA8, 0xD3, 0xA4, 0x6B, 0xB4, 0x45, 0xA4, 0xF3, 0xB7, 0xD2, 0xA5, 0xDB, 0xB8, 0xC9, 0xA4, 0xD1, 0xA4, 0xA7, 0xAE, 0xC9, 0xA1,
      0x41, 0xA9, 0xF3, 0xA4, 0x6A, 0xAF, 0xEE, 0xA4, 0x73],
     [0xB5, 0x4C, 0xBD, 0x5D, 0xB1, 0x56, 0xBD, 0x6D, 0xA6, 0xA8, 0xB0, 0xAA, 0xB8, 0x67, 0xA4, 0x51, 0xA4, 0x47, 0xA4, 0x56, 0xA1, 0x41, 0xA4, 0xE8,
      0xB8, 0x67, 0xA4, 0x47, 0xA4, 0x51, 0xA5, 0x7C, 0xA4, 0x56, 0xB9, 0x78, 0xA5, 0xDB, 0xA4, 0x54, 0xB8, 0x55, 0xA4, 0xBB, 0xA4, 0x64, 0xA4, 0xAD,
      0xA6, 0xCA, 0xB9, 0x73, 0xA4, 0x40, 0xB6, 0xF4, 0xA1, 0x43, 0xB4, 0x45, 0xAC, 0xD3, 0xA4, 0xF3, 0xA5, 0x75, 0xA5, 0xCE, 0xA4, 0x46, 0xA4, 0x54,
      0xB8, 0x55, 0xA4, 0xBB, 0xA4, 0x64, 0xA4, 0xAD, 0xA6, 0xCA, 0xB6, 0xF4, 0xA1, 0x41, 0xA5, 0x75, 0xB3, 0xE6, 0xB3, 0xE6, 0xB3, 0xD1, 0xA4, 0x46,
      0xA4, 0x40, 0xB6, 0xF4, 0xA5, 0xBC, 0xA5, 0xCE, 0xA1, 0x41, 0xAB, 0x4B, 0xB1, 0xF3, 0xA6, 0x62, 0xA6, 0xB9, 0xA4, 0x73, 0xAB, 0x43, 0xAE, 0x47,
      0xAE, 0x70, 0xA4, 0x55, 0xA1, 0x43],
     [0xBD, 0xD6, 0xAA, 0xBE, 0xA6, 0xB9, 0xA5, 0xDB, 0xA6, 0xDB, 0xB8, 0x67, 0xB7, 0xD2, 0xA4, 0xA7, 0xAB, 0xE1, 0xA1, 0x41, 0xC6, 0x46, 0xA9, 0xCA,
      0xA4, 0x77, 0xB3, 0x71, 0xA1, 0x41, 0xA6, 0x5D, 0xA8, 0xA3, 0x5F, 0xA5, 0xDB],
     [0xAD, 0xD1, 0xB1, 0x6F, 0xB8, 0xC9, 0xA4, 0xD1, 0xA1, 0x41, 0xBF, 0x57, 0xA6, 0xDB, 0xA4, 0x76, 0xB5, 0x4C, 0xA7, 0xF7, 0xA4, 0xA3, 0xB3, 0xF4,
      0xA4, 0x4A, 0xBF, 0xEF, 0xA1, 0x41, 0xB9, 0x45, 0xA6, 0xDB, 0xAB, 0xE8, 0xA6, 0xDB, 0xBC, 0xDB],
     [0xA1, 0x41, 0xA4, 0xE9, 0xA9, 0x5D, 0xB4, 0x64, 0xB8, 0xB9, 0xBA, 0x46, 0xB7, 0x5C, 0xA1, 0x43, 0xA4, 0x40, 0xA4, 0xE9, 0xA1, 0x41, 0xA5, 0xBF,
      0xB7, 0xED, 0xB6, 0xD8],
     [0xB1, 0xA5, 0xA4, 0xA7, 0xBB, 0xDA, 0xA1, 0x41, 0xAB, 0x58, 0xA8, 0xA3, 0xA4, 0x40, 0xB9, 0xAC, 0xA4, 0x40, 0xB9, 0x44, 0xBB, 0xB7, 0xBB, 0xB7,
      0xA6, 0xD3, 0xA8, 0xD3, 0xA1, 0x41],
     [0xA5, 0xCD, 0xB1, 0x6F, 0xB0, 0xA9, 0xAE, 0xE6, 0xA4, 0xA3, 0xA4, 0x5A, 0xA1, 0x41, 0xC2, 0xD7, 0xAF, 0xAB, 0xAD, 0x7E, 0xB2, 0xA7, 0xA1, 0x41,
      0xBB, 0xA1, 0xBB, 0xA1, 0xAF, 0xBA, 0xAF, 0xBA, 0xA8, 0xD3, 0xA6, 0xDC, 0xAE, 0x70, 0xA4, 0x55, 0xA1, 0x41, 0xA7, 0xA4, 0xA4, 0x5F, 0xA5, 0xDB],
     [0xC3, 0xE4, 0xB0, 0xAA, 0xBD, 0xCD, 0xA7, 0xD6, 0xBD, 0xD7, 0xA1, 0x43, 0xA5, 0xFD, 0xAC, 0x4F],
     [0xBB, 0xA1, 0xA8, 0xC7, 0xB6, 0xB3, 0xA4, 0x73, 0xC3, 0xFA, 0xAE, 0xFC, 0xAF, 0xAB, 0xA5, 0x50, 0xA5, 0xC8, 0xA4, 0xDB, 0xA4, 0xA7, 0xA8, 0xC6,
      0xA1, 0x41, 0xAB, 0xE1, 0xAB, 0x4B, 0xBB, 0xA1, 0xA8, 0xEC],
     [0xAC, 0xF5, 0xB9, 0xD0, 0xA4, 0xA4, 0xBA, 0x61, 0xB5, 0xD8, 0xB4, 0x49, 0xB6, 0x51, 0xA1, 0x43, 0xA6, 0xB9, 0xA5, 0xDB],
     [0xC5, 0xA5, 0xA4, 0x46, 0xA1, 0x41, 0xA4, 0xA3, 0xC4, 0xB1, 0xA5, 0xB4, 0xB0, 0xCA, 0xA4, 0x5A, 0xA4, 0xDF, 0xA1, 0x41, 0xA4, 0x5D, 0xB7, 0x51,
      0xAD, 0x6E, 0xA8, 0xEC, 0xA4, 0x48, 0xB6, 0xA1, 0xA5, 0x68, 0xA8, 0xC9, 0xA4, 0x40, 0xA8, 0xC9, 0xB3, 0x6F, 0xBA, 0x61, 0xB5, 0xD8, 0xB4, 0x49,
      0xB6, 0x51, 0xA1, 0x41, 0xA6, 0xFD, 0xA6, 0xDB, 0xAB, 0xEB, 0xB2, 0xCA, 0xC4, 0xF8, 0xA1, 0x41, 0xA4, 0xA3, 0xB1, 0x6F, 0xA4, 0x77, 0xA1, 0x41,
      0xAB, 0x4B, 0xA4, 0x66, 0xA6, 0x52, 0xA4, 0x48, 0xA8, 0xA5, 0xA1, 0x41, 0xA6, 0x56, 0xA8, 0xBA, 0xB9, 0xAC, 0xB9, 0x44, 0xBB, 0xA1, 0xB9, 0x44,
      0xA1, 0x47, 0xA4, 0x6A, 0xAE, 0x76, 0xA1, 0x41, 0xA7, 0xCC, 0xA4, 0x6C, 0xC4, 0xF8, 0xAA, 0xAB, 0xA1, 0x41, 0xA4, 0xA3, 0xAF, 0xE0, 0xA8, 0xA3,
      0xC2, 0xA7, 0xA4, 0x46, 0xA1, 0x43, 0xBE, 0x41, 0xBB, 0x44, 0xA4, 0x47, 0xA6, 0xEC, 0xBD, 0xCD, 0xA8, 0xBA, 0xA4, 0x48, 0xA5, 0x40, 0xB6, 0xA1,
      0xBA, 0x61, 0xC4, 0xA3, 0xC1, 0x63, 0xB5, 0xD8, 0xA1, 0x41],
     [0xA4, 0xDF, 0xA4, 0xC1, 0xBC, 0x7D, 0xA4, 0xA7, 0xA1, 0x43, 0xA7, 0xCC, 0xA4, 0x6C, 0xBD, 0xE8, 0xC1, 0xF6, 0xB2, 0xCA, 0xC4, 0xF8],
     [0xA1, 0x41, 0xA9, 0xCA, 0xAB, 0x6F, 0xB5, 0x79, 0xB3, 0x71, 0xA1, 0x41, 0xAA, 0x70, 0xA8, 0xA3, 0xA4, 0x47, 0xAE, 0x76, 0xA5, 0x50, 0xA7, 0xCE,
      0xB9, 0x44, 0xC5, 0xE9, 0xA1, 0x41, 0xA9, 0x77, 0xAB, 0x44, 0xA4, 0x5A, 0xAB, 0x7E, 0xA1, 0x41, 0xA5, 0xB2],
     [0xA6, 0xB3, 0xB8, 0xC9, 0xA4, 0xD1, 0xC0, 0xD9, 0xA5, 0x40, 0xA4, 0xA7, 0xA7, 0xF7, 0xA1, 0x41, 0xA7, 0x51, 0xAA, 0xAB, 0xC0, 0xD9, 0xA4, 0x48,
      0xA4, 0xA7, 0xBC, 0x77, 0xA1, 0x43, 0xA6, 0x70, 0xBB, 0x58, 0xB5, 0x6F, 0xA4, 0x40, 0xC2, 0x49, 0xB7, 0x4F, 0xA4, 0xDF, 0xA1, 0x41, 0xC4, 0xE2,
      0xB1, 0x61, 0xA7, 0xCC, 0xA4, 0x6C, 0xB1, 0x6F, 0xA4, 0x4A, 0xAC, 0xF5, 0xB9, 0xD0, 0xA1, 0x41, 0xA6, 0x62, 0xA8, 0xBA, 0xB4, 0x49, 0xB6, 0x51,
      0xB3, 0xF5, 0xA4, 0xA4, 0xA1, 0x41, 0xB7, 0xC5, 0xAC, 0x58, 0xB6, 0x6D, 0xA8, 0xBD]]"

definition kGB2312Quotes :: "uint8 list list" where
  "kGB2312Quotes =
    [[0xB4, 0xCB, 0xBF, 0xAA, 0xBE, 0xED, 0xB5, 0xDA, 0xD2, 0xBB, 0xBB, 0xD8, 0xD2, 0xB2, 0xA1, 0xA3, 0xD7, 0xF7],
     [0xD5, 0xDF, 0xD7, 0xD4, 0xD4, 0xC6, 0xA3, 0xBA, 0xD2, 0xF2, 0xD4, 0xF8],
     [0xC0, 0xFA, 0xB9, 0xFD, 0xD2, 0xBB, 0xB7, 0xAC, 0xC3, 0xCE, 0xBB, 0xC3, 0xD6, 0xAE, 0xBA, 0xF3, 0xA3, 0xAC, 0xB9, 0xCA, 0xBD, 0xAB, 0xD5, 0xE6,
      0xCA, 0xC2, 0xD2, 0xFE, 0xC8, 0xA5, 0xA3, 0xAC, 0xB6, 0xF8, 0xBD, 0xE8, 0xA1, 0xB0, 0xCD, 0xA8, 0xC1, 0xE9, 0xA1, 0xB1, 0xD6, 0xAE, 0xCB, 0xB5,
      0xA3, 0xAC, 0xD7, 0xAB, 0xB4, 0xCB, 0xD2, 0xBB, 0xCA, 0xE9, 0xD2, 0xB2, 0xA1, 0xA3, 0xB9, 0xCA, 0xD4, 0xBB, 0xA1, 0xB0, 0xD5, 0xE7, 0xCA, 0xBF,
      0xD2, 0xFE, 0xA1, 0xB1, 0xD4, 0xC6, 0xD4, 0xC6, 0xA1, 0xA3, 0xB5, 0xAB, 0xCA, 0xE9, 0xD6, 0xD0, 0xCB, 0xF9, 0xBC, 0xC7, 0xBA, 0xCE, 0xCA, 0xC2,
      0xBA, 0xCE, 0xC8, 0xCB, 0xA3, 0xBF, 0xD7, 0xD4, 0xD3, 0xD6, 0xD4, 0xC6, 0xA3, 0xBA, 0xBD, 0xF1, 0xB7, 0xE7, 0xB3, 0xBE, 0xC2, 0xB5, 0xC2, 0xB5,
      0xA3, 0xAC, 0xD2, 0xBB, 0xCA, 0xC2, 0xCE, 0xDE, 0xB3, 0xC9, 0xA3, 0xAC],
     [0xBA, 0xF6, 0xC4, 0xEE, 0xBC, 0xB0, 0xB5, 0xB1, 0xC8, 0xD5, 0xCB, 0xF9, 0xD3, 0xD0, 0xD6, 0xAE, 0xC5, 0xAE, 0xD7, 0xD3, 0xA3, 0xAC, 0xD2, 0xBB,
      0xD2, 0xBB, 0xCF, 0xB8, 0xBF, 0xBC, 0xBD, 0xCF, 0xC8, 0xA5, 0xA3, 0xAC, 0xBE, 0xF5, 0xC6, 0xE4, 0xD0, 0xD0, 0xD6, 0xB9, 0xBC, 0xFB, 0xCA, 0xB6,
      0xA3, 0xAC, 0xBD, 0xD4, 0xB3, 0xF6, 0xD3, 0xDA, 0xCE, 0xD2, 0xD6, 0xAE, 0xC9, 0xCF, 0xA1, 0xA3, 0xBA, 0xCE, 0xCE, 0xD2, 0xCC, 0xC3, 0xCC, 0xC3,
      0xD0, 0xEB, 0xC3, 0xBC, 0xA3, 0xAC, 0xB3, 0xCF, 0xB2, 0xBB, 0xC8, 0xF4, 0xB1, 0xCB, 0xC8, 0xB9, 0xEE, 0xCE, 0xD4, 0xD5, 0xA3, 0xBF, 0xCA, 0xB5,
      0xC0, 0xA2, 0xD4, 0xF2, 0xD3, 0xD0, 0xD3, 0xE0, 0xA3, 0xAC, 0xBB, 0xDA, 0xD3, 0xD6, 0xCE, 0xDE, 0xD2, 0xE6, 0xD6, 0xAE, 0xB4, 0xF3, 0xCE, 0xDE,
      0xBF, 0xC9, 0xC8, 0xE7, 0xBA, 0xCE, 0xD6, 0xAE, 0xC8, 0xD5, 0xD2, 0xB2, 0xA3, 0xA1, 0xB5, 0xB1, 0xB4, 0xCB, 0xA3, 0xAC, 0xD4, 0xF2, 0xD7, 0xD4,
      0xD3, 0xFB, 0xBD, 0xAB, 0xD2, 0xD1, 0xCD, 0xF9, 0xCB, 0xF9, 0xC0, 0xB5, 0xCC, 0xEC, 0xB6, 0xF7, 0xD7, 0xE6, 0xB5, 0xC2, 0xA3, 0xAC, 0xBD, 0xF5,
      0xD2, 0xC2, 0xE6, 0xFD, 0xD6, 0xAE, 0xCA, 0xB1, 0xA3, 0xAC, 0xE2, 0xC0, 0xB8, 0xCA, 0xF7, 0xD0, 0xB7, 0xCA, 0xD6, 0xAE, 0xC8, 0xD5, 0xA3, 0xAC,
      0xB1, 0xB3, 0xB8, 0xB8, 0xD0, 0xD6, 0xBD, 0xCC, 0xD3, 0xFD, 0xD6, 0xAE, 0xB6, 0xF7, 0xA3, 0xAC, 0xB8, 0xBA, 0xCA, 0xA6, 0x0A, 0xD3, 0xD1, 0xB9,
      0xE6, 0xCC, 0xB8, 0xD6, 0xAE, 0xB5, 0xC2, 0xA3, 0xAC, 0xD2, 0xD4, 0xD6, 0xC1, 0xBD, 0xF1, 0xC8, 0xD5, 0xD2, 0xBB, 0xBC, 0xBC, 0xCE, 0xDE, 0xB3,
      0xC9, 0xA3, 0xAC, 0xB0, 0xEB, 0xC9, 0xFA, 0xC1, 0xCA, 0xB5, 0xB9, 0xD6, 0xAE, 0xD7, 0xEF, 0xA3, 0xAC, 0xB1, 0xE0, 0xCA, 0xF6, 0xD2, 0xBB, 0xBC,
      0xAF, 0xA3, 0xAC, 0xD2, 0xD4, 0xB8, 0xE6, 0xCC, 0xEC, 0xCF, 0xC2, 0xC8, 0xCB, 0xA3, 0xBA, 0xCE, 0xD2, 0xD6, 0xAE, 0xD7, 0xEF, 0xB9, 0xCC, 0xB2,
      0xBB, 0xC3, 0xE2, 0xA3, 0xAC, 0xC8, 0xBB, 0xB9, 0xEB, 0xB8, 0xF3, 0xD6, 0xD0, 0xB1, 0xBE, 0xD7, 0xD4, 0xC0, 0xFA, 0xC0, 0xFA, 0xD3, 0xD0, 0xC8,
      0xCB, 0xA3, 0xAC, 0xCD, 0xF2, 0xB2, 0xBB, 0xBF, 0xC9, 0xD2, 0xF2, 0xCE, 0xD2, 0xD6, 0xAE, 0xB2, 0xBB, 0xD0, 0xA4, 0xA3, 0xAC, 0xD7, 0xD4, 0xBB,
      0xA4, 0xBC, 0xBA, 0xB6, 0xCC, 0xA3, 0xAC, 0xD2, 0xBB, 0xB2, 0xA2, 0xCA, 0xB9, 0xC6, 0xE4, 0xE3, 0xFD, 0xC3, 0xF0, 0xD2, 0xB2, 0xA1, 0xA3, 0xCB,
      0xE4, 0xBD, 0xF1, 0xC8, 0xD5, 0xD6, 0xAE, 0xC3, 0xA9, 0xB4, 0xAA, 0xC5, 0xEE, 0xEB, 0xBB, 0xA3, 0xAC, 0xCD, 0xDF, 0xD4, 0xEE, 0xC9, 0xFE, 0xB4,
      0xB2, 0xA3, 0xAC, 0xC6, 0xE4, 0xB3, 0xBF, 0xCF, 0xA6, 0xB7, 0xE7, 0xC2, 0xB6, 0xA3, 0xAC, 0xBD, 0xD7, 0xC1, 0xF8, 0xCD, 0xA5, 0xBB, 0xA8, 0xA3,
      0xAC, 0xD2, 0xE0, 0xCE, 0xB4, 0xD3, 0xD0, 0xB7, 0xC1, 0xCE, 0xD2, 0xD6, 0xAE, 0xBD, 0xF3, 0xBB, 0xB3, 0xB1, 0xCA, 0xC4, 0xAB, 0xD5, 0xDF, 0xA1,
      0xA3, 0xCB, 0xE4, 0xCE, 0xD2, 0xCE, 0xB4, 0xD1, 0xA7, 0xA3, 0xAC, 0xCF, 0xC2, 0xB1, 0xCA, 0xCE, 0xDE, 0xCE, 0xC4, 0xA3, 0xAC, 0xD3, 0xD6, 0xBA,
      0xCE, 0xB7, 0xC1, 0xD3, 0xC3, 0xBC, 0xD9, 0xD3, 0xEF, 0xB4, 0xE5, 0xD1, 0xD4, 0xA3, 0xAC, 0xB7, 0xF3, 0xD1, 0xDD, 0xB3, 0xF6, 0xD2, 0xBB, 0xB6,
      0xCE, 0xB9, 0xCA, 0xCA, 0xC2, 0xC0, 0xB4, 0xA3, 0xAC, 0xD2, 0xE0, 0xBF, 0xC9, 0xCA, 0xB9, 0xB9, 0xEB, 0xB8, 0xF3, 0xD5, 0xD1, 0xB4, 0xAB, 0xA3,
      0xAC, 0xB8, 0xB4, 0xBF, 0xC9, 0xD4, 0xC3, 0xCA, 0xC0, 0xD6, 0xAE, 0xC4, 0xBF, 0xA3, 0xAC, 0xC6, 0xC6, 0xC8, 0xCB, 0xB3, 0xEE, 0xC3, 0xC6, 0xA3,
      0xAC, 0xB2, 0xBB, 0xD2, 0xE0, 0xD2, 0xCB, 0xBA, 0xF5, 0xA3, 0xBF, 0xB9, 0xCA, 0xD4, 0xBB, 0xA1, 0xB0, 0xBC, 0xD6, 0xD3, 0xEA, 0xB4, 0xE5, 0xA1,
      0xB1, 0xD4, 0xC6, 0xD4, 0xC6, 0xA1, 0xA3, 0xB4, 0xCB, 0xBB, 0xD8, 0xD6, 0xD0, 0xB7, 0xB2, 0xD3, 0xC3, 0xA1, 0xB0, 0xC3, 0xCE, 0xA1, 0xB1, 0xD3,
      0xC3, 0xA1, 0xB0, 0xBB, 0xC3, 0xA1, 0xB1],
     [0xB5, 0xC8, 0xD7, 0xD6, 0xA3, 0xAC, 0xCA, 0xC7, 0xCC, 0xE1, 0xD0, 0xD1, 0xD4, 0xC4, 0xD5, 0xDF, 0xD1, 0xDB, 0xC4, 0xBF, 0xA3, 0xAC, 0xD2, 0xE0,
      0xCA, 0xC7, 0xB4, 0xCB, 0xCA, 0xE9, 0xC1, 0xA2, 0xD2, 0xE2, 0xB1, 0xBE, 0xD6, 0xBC, 0xA1, 0xA3, 0xC1, 0xD0, 0xCE, 0xBB, 0xBF, 0xB4, 0xB9, 0xD9,
      0xA3, 0xBA, 0xC4, 0xE3, 0xB5, 0xC0, 0xB4, 0xCB, 0xCA, 0xE9, 0xB4, 0xD3, 0xBA, 0xCE, 0xB6, 0xF8, 0xC0, 0xB4, 0xA3, 0xBF, 0xCB, 0xB5, 0xC6, 0xF0,
      0xB8, 0xF9, 0xD3, 0xC9, 0xCB, 0xE4, 0xBD, 0xFC, 0xBB, 0xC4, 0xCC, 0xC6, 0xA3, 0xAC, 0xCF, 0xB8, 0xB0, 0xB4, 0xD4, 0xF2, 0xC9, 0xEE, 0xD3, 0xD0,
      0xC8, 0xA4, 0xCE, 0xB6, 0xA1, 0xA3, 0xB4, 0xFD, 0xD4, 0xDA, 0xCF, 0xC2, 0xBD, 0xAB, 0xB4, 0xCB, 0xC0, 0xB4, 0xC0, 0xFA, 0xD7, 0xA2, 0xC3, 0xF7,
      0xD4, 0xAD, 0xC0, 0xB4, 0xC5, 0xAE, 0xE6, 0xB4, 0xCA, 0xCF, 0xC1, 0xB6, 0xCA, 0xAF, 0xB2, 0xB9, 0xCC, 0xEC, 0xD6, 0xAE, 0xCA, 0xB1, 0xA3, 0xAC,
      0xD3, 0xDA, 0xB4, 0xF3, 0xBB, 0xC4, 0xC9, 0xBD],
     [0xCE, 0xDE, 0xBB, 0xFC, 0xD1, 0xC2, 0xC1, 0xB7, 0xB3, 0xC9, 0xB8, 0xDF, 0xBE, 0xAD, 0xCA, 0xAE, 0xB6, 0xFE, 0xD5, 0xC9, 0xA3, 0xAC, 0xB7, 0xBD,
      0xBE, 0xAD, 0xB6, 0xFE, 0xCA, 0xAE, 0xCB, 0xC4, 0xD5, 0xC9, 0xCD, 0xE7, 0xCA, 0xAF, 0xC8, 0xFD, 0xCD, 0xF2, 0xC1, 0xF9, 0xC7, 0xA7, 0xCE, 0xE5,
      0xB0, 0xD9, 0xC1, 0xE3, 0xD2, 0xBB, 0xBF, 0xE9, 0xA1, 0xA3, 0xE6, 0xB4, 0xBB, 0xCA, 0xCA, 0xCF, 0xD6, 0xBB, 0xD3, 0xC3, 0xC1, 0xCB, 0xC8, 0xFD,
      0xCD, 0xF2, 0xC1, 0xF9, 0xC7, 0xA7, 0xCE, 0xE5, 0xB0, 0xD9, 0xBF, 0xE9, 0xA3, 0xAC, 0xD6, 0xBB, 0xB5, 0xA5, 0xB5, 0xA5, 0xCA, 0xA3, 0xC1, 0xCB,
      0xD2, 0xBB, 0xBF, 0xE9, 0xCE, 0xB4, 0xD3, 0xC3, 0xA3, 0xAC, 0xB1, 0xE3, 0xC6, 0xFA, 0xD4, 0xDA, 0xB4, 0xCB, 0xC9, 0xBD, 0xC7, 0xE0, 0xB9, 0xA1,
      0xB7, 0xE5, 0xCF, 0xC2, 0xA1, 0xA3],
     [0xCB, 0xAD, 0xD6, 0xAA, 0xB4, 0xCB, 0xCA, 0xAF, 0xD7, 0xD4, 0xBE, 0xAD, 0xC1, 0xB6, 0xD6, 0xAE, 0xBA, 0xF3, 0xA3, 0xAC, 0xC1, 0xE9, 0xD0, 0xD4,
      0xD2, 0xD1, 0xCD, 0xA8, 0xA3, 0xAC, 0xD2, 0xF2, 0xBC, 0xFB, 0xD6, 0xDA, 0xCA, 0xAF],
     [0xBE, 0xE3, 0xB5, 0xC3, 0xB2, 0xB9, 0xCC, 0xEC, 0xA3, 0xAC, 0xB6, 0xC0, 0xD7, 0xD4, 0xBC, 0xBA, 0xCE, 0xDE, 0xB2, 0xC4, 0xB2, 0xBB, 0xBF, 0xB0,
      0xC8, 0xEB, 0xD1, 0xA1, 0xA3, 0xAC, 0xCB, 0xEC, 0xD7, 0xD4, 0xD4, 0xB9, 0xD7, 0xD4, 0xCC, 0xBE],
     [0xA3, 0xAC, 0xC8, 0xD5, 0xD2, 0xB9, 0xB1, 0xAF, 0xBA, 0xC5, 0xB2, 0xD1, 0xC0, 0xA2, 0xA1, 0xA3, 0xD2, 0xBB, 0xC8, 0xD5, 0xA3, 0xAC, 0xD5, 0xFD,
      0xB5, 0xB1, 0xE0, 0xB5],
     [0xB5, 0xBF, 0xD6, 0xAE, 0xBC, 0xCA, 0xA3, 0xAC, 0xB6, 0xED, 0xBC, 0xFB, 0xD2, 0xBB, 0xC9, 0xAE, 0xD2, 0xBB, 0xB5, 0xC0, 0xD4, 0xB6, 0xD4, 0xB6,
      0xB6, 0xF8, 0xC0, 0xB4, 0xA3, 0xAC],
     [0xC9, 0xFA, 0xB5, 0xC3, 0xB9, 0xC7, 0xB8, 0xF1, 0xB2, 0xBB, 0xB7, 0xB2, 0xA3, 0xAC, 0xB7, 0xE1, 0xC9, 0xF1, 0xE5, 0xC4, 0xD2, 0xEC, 0xA3, 0xAC,
      0xCB, 0xB5, 0xCB, 0xB5, 0xD0, 0xA6, 0xD0, 0xA6, 0xC0, 0xB4, 0xD6, 0xC1, 0xB7, 0xE5, 0xCF, 0xC2, 0xA3, 0xAC, 0xD7, 0xF8, 0xD3, 0xDA, 0xCA, 0xAF],
     [0xB1, 0xDF, 0xB8, 0xDF, 0xCC, 0xB8, 0xBF, 0xEC, 0xC2, 0xDB, 0xA1, 0xA3, 0xCF, 0xC8, 0xCA, 0xC7],
     [0xCB, 0xB5, 0xD0, 0xA9, 0xD4, 0xC6, 0xC9, 0xBD, 0xCE, 0xED, 0xBA, 0xA3, 0xC9, 0xF1, 0xCF, 0xC9, 0xD0, 0xFE, 0xBB, 0xC3, 0xD6, 0xAE, 0xCA, 0xC2,
      0xA3, 0xAC, 0xBA, 0xF3, 0xB1, 0xE3, 0xCB, 0xB5, 0xB5, 0xBD],
     [0xBA, 0xEC, 0xB3, 0xBE, 0xD6, 0xD0, 0xC8, 0xD9, 0xBB, 0xAA, 0xB8, 0xBB, 0xB9, 0xF3, 0xA1, 0xA3, 0xB4, 0xCB, 0xCA, 0xAF],
     [0xCC, 0xFD, 0xC1, 0xCB, 0xA3, 0xAC, 0xB2, 0xBB, 0xBE, 0xF5, 0xB4, 0xF2, 0xB6, 0xAF, 0xB7, 0xB2, 0xD0, 0xC4, 0xA3, 0xAC, 0xD2, 0xB2, 0xCF, 0xEB,
      0xD2, 0xAA, 0xB5, 0xBD, 0xC8, 0xCB, 0xBC, 0xE4, 0xC8, 0xA5, 0xCF, 0xED, 0xD2, 0xBB, 0xCF, 0xED, 0xD5, 0xE2, 0xC8, 0xD9, 0xBB, 0xAA, 0xB8, 0xBB,
      0xB9, 0xF3, 0xA3, 0xAC, 0xB5, 0xAB, 0xD7, 0xD4, 0xBA, 0xDE, 0xB4, 0xD6, 0xB4, 0xC0, 0xA3, 0xAC, 0xB2, 0xBB, 0xB5, 0xC3, 0xD2, 0xD1, 0xA3, 0xAC,
      0xB1, 0xE3, 0xBF, 0xDA, 0xCD, 0xC2, 0xC8, 0xCB, 0xD1, 0xD4, 0xA3, 0xAC, 0xCF, 0xF2, 0xC4, 0xC7, 0xC9, 0xAE, 0xB5, 0xC0, 0xCB, 0xB5, 0xB5, 0xC0,
      0xA3, 0xBA, 0xB4, 0xF3, 0xCA, 0xA6, 0xA3, 0xAC, 0xB5, 0xDC, 0xD7, 0xD3, 0xB4, 0xC0, 0xCE, 0xEF, 0xA3, 0xAC, 0xB2, 0xBB, 0xC4, 0xDC, 0xBC, 0xFB,
      0xC0, 0xF1, 0xC1, 0xCB, 0xA1, 0xA3, 0xCA, 0xCA, 0xCE, 0xC5, 0xB6, 0xFE, 0xCE, 0xBB, 0xCC, 0xB8, 0xC4, 0xC7, 0xC8, 0xCB, 0xCA, 0xC0, 0xBC, 0xE4,
      0xC8, 0xD9, 0xD2, 0xAB, 0xB7, 0xB1, 0xBB, 0xAA, 0xA3, 0xAC],
     [0xD0, 0xC4, 0xC7, 0xD0, 0xC4, 0xBD, 0xD6, 0xAE, 0xA1, 0xA3, 0xB5, 0xDC, 0xD7, 0xD3, 0xD6, 0xCA, 0xCB, 0xE4, 0xB4, 0xD6, 0xB4, 0xC0],
     [0xA3, 0xAC, 0xD0, 0xD4, 0xC8, 0xB4, 0xC9, 0xD4, 0xCD, 0xA8, 0xA3, 0xAC, 0xBF, 0xF6, 0xBC, 0xFB, 0xB6, 0xFE, 0xCA, 0xA6, 0xCF, 0xC9, 0xD0, 0xCE,
      0xB5, 0xC0, 0xCC, 0xE5, 0xA3, 0xAC, 0xB6, 0xA8, 0xB7, 0xC7, 0xB7, 0xB2, 0xC6, 0xB7, 0xA3, 0xAC, 0xB1, 0xD8],
     [0xD3, 0xD0, 0xB2, 0xB9, 0xCC, 0xEC, 0xBC, 0xC3, 0xCA, 0xC0, 0xD6, 0xAE, 0xB2, 0xC4, 0xA3, 0xAC, 0xC0, 0xFB, 0xCE, 0xEF, 0xBC, 0xC3, 0xC8, 0xCB,
      0xD6, 0xAE, 0xB5, 0xC2, 0xA1, 0xA3, 0xC8, 0xE7, 0xC3, 0xC9, 0xB7, 0xA2, 0xD2, 0xBB, 0xB5, 0xE3, 0xB4, 0xC8, 0xD0, 0xC4, 0xA3, 0xAC, 0xD0, 0xAF,
      0xB4, 0xF8, 0xB5, 0xDC, 0xD7, 0xD3, 0xB5, 0xC3, 0xC8, 0xEB, 0xBA, 0xEC, 0xB3, 0xBE, 0xA3, 0xAC, 0xD4, 0xDA, 0xC4, 0xC7, 0xB8, 0xBB, 0xB9, 0xF3,
      0xB3, 0xA1, 0xD6, 0xD0, 0xA3, 0xAC, 0xCE, 0xC2, 0xC8, 0xE1, 0xCF, 0xE7, 0xC0, 0xEF]]"

text \<open>Which table a character encoding has; the numbers are those of \<open>PalmLocale.h\<close>.\<close>

definition charEncodingPalmLatin :: uint32 where "charEncodingPalmLatin = 3"
definition charEncodingPalmSJIS :: uint16 where "charEncodingPalmSJIS = 5"
definition charEncodingGB2312 :: uint16 where "charEncodingGB2312 = 58"
definition charEncodingBig5 :: uint16 where "charEncodingBig5 = 60"
definition charEncodingBig5_HKSCS :: uint16 where "charEncodingBig5_HKSCS = 79"
definition charEncodingBig5Plus :: uint16 where "charEncodingBig5Plus = 80"
definition charEncodingPalmBig5 :: uint16 where "charEncodingPalmBig5 = 81"
definition charEncodingGBK :: uint16 where "charEncodingGBK = 82"
definition charEncodingPalmGB :: uint16 where "charEncodingPalmGB = 83"

definition kQuotesInfo :: "(uint16 \<times> uint8 list list) list" where
  "kQuotesInfo =
    [(charEncodingPalmSJIS, kShiftJISQuotes),
     (charEncodingBig5, kBig5Quotes), (charEncodingBig5_HKSCS, kBig5Quotes),
     (charEncodingBig5Plus, kBig5Quotes), (charEncodingPalmBig5, kBig5Quotes),
     (charEncodingGB2312, kGB2312Quotes), (charEncodingGBK, kGB2312Quotes), (charEncodingPalmGB, kGB2312Quotes)]"

definition NUM_OF_QUOTES :: int where "NUM_OF_QUOTES = 18"

definition quotes_for :: "uint32 option \<Rightarrow> uint8 list list" where
  "quotes_for encoding =
     (let encoding = (case encoding of None \<Rightarrow> charEncodingPalmLatin | Some e \<Rightarrow> e)
      in case find (\<lambda>(charEncoding, _). ucast charEncoding = encoding) kQuotesInfo of
           None \<Rightarrow> kAsciiQuotes
         | Some (_, strings) \<Rightarrow> strings)"

text \<open>Every table has its quotations, none longer than the buffer and none with a zero byte.\<close>

definition quotes_good :: "uint8 list list \<Rightarrow> bool" where
  "quotes_good qs \<longleftrightarrow> int (length qs) = NUM_OF_QUOTES \<and> (\<forall>q\<in>set qs. q \<noteq> [] \<and> length q < 1024 \<and> 0 \<notin> set q)"

lemma ascii_good: "quotes_good kAsciiQuotes" by code_simp
lemma sjis_good: "quotes_good kShiftJISQuotes" by code_simp
lemma big5_good: "quotes_good kBig5Quotes" by code_simp
lemma gb_good: "quotes_good kGB2312Quotes" by code_simp

lemma quotes_for_good: "quotes_good (quotes_for e)"
  by (simp add: quotes_for_def kQuotesInfo_def ascii_good sjis_good big5_good gb_good Let_def)

end
