(* ===== verification/Gremlins.thy ===== *)
theory Gremlins
  imports EventPlayback GremlinQuotes
begin

unbundle bit_operations_syntax

text \<open>
  A gremlin (\<open>CGremlins.cpp\<close>): a source of random events, which it posts to the emulated system and
  records. Its random numbers come from a generator of its own, so that a gremlin is its number.

  What the emulated system answers while an event is made up is a record of parameters. The result of
  making an event up is whether a key or a point was posted, the events that were recorded, in order,
  the calls of the emulated system, and the gremlin. A call that throws and a failing assertion are
  \<open>None\<close>, and so is an access outside of a buffer.
\<close>

section \<open>Random numbers\<close>

definition Gremlin_rand :: "uint32 \<Rightarrow> int \<times> uint32" where
  "Gremlin_rand gGremlinNext =
     (let gGremlinNext = gGremlinNext * 214013 + 2531011
      in (uint (drop_bit 16 gGremlinNext AND 0x7FFF), gGremlinNext))"

definition RAND_MAX :: int where "RAND_MAX = 0x7FFF"

definition randN :: "int \<Rightarrow> uint32 \<Rightarrow> int \<times> uint32" where
  "randN n seed = (let (r, seed) = Gremlin_rand seed in ((r * n) sdiv (RAND_MAX + 1), seed))"

definition randPercent :: "uint32 \<Rightarrow> int \<times> uint32" where
  "randPercent = randN 100"

definition PEN_MOVE_CHANCE :: int where "PEN_MOVE_CHANCE = 50"
definition PEN_BIG_MOVE_CHANCE :: int where "PEN_BIG_MOVE_CHANCE = 5"
definition KEY_DOWN_EVENT_WITHOUT_FOCUS_CHANCE :: int where "KEY_DOWN_EVENT_WITHOUT_FOCUS_CHANCE = 10"
definition KEY_DOWN_EVENT_WITH_FOCUS_CHANCE :: int where "KEY_DOWN_EVENT_WITH_FOCUS_CHANCE = 40"
definition PEN_DOWN_EVENT_CHANCE :: int where "PEN_DOWN_EVENT_CHANCE = 70 + KEY_DOWN_EVENT_WITHOUT_FOCUS_CHANCE"
definition MENU_EVENT_CHANCE :: int where "MENU_EVENT_CHANCE = PEN_DOWN_EVENT_CHANCE + 4"
definition FIND_EVENT_CHANCE :: int where "FIND_EVENT_CHANCE = MENU_EVENT_CHANCE + 2"
definition KEYBOARD_EVENT_CHANCE :: int where "KEYBOARD_EVENT_CHANCE = FIND_EVENT_CHANCE + 1"
definition LOW_BATTERY_EVENT_CHANCE :: int where "LOW_BATTERY_EVENT_CHANCE = KEYBOARD_EVENT_CHANCE + 2"
definition APP_SWITCH_EVENT_CHANCE :: int where "APP_SWITCH_EVENT_CHANCE = LOW_BATTERY_EVENT_CHANCE + 4"
definition TYPE_QUOTE_CHANCE :: int where "TYPE_QUOTE_CHANCE = 10"

lemmas chances = KEY_DOWN_EVENT_WITHOUT_FOCUS_CHANCE_def KEY_DOWN_EVENT_WITH_FOCUS_CHANCE_def PEN_DOWN_EVENT_CHANCE_def
  MENU_EVENT_CHANCE_def FIND_EVENT_CHANCE_def KEYBOARD_EVENT_CHANCE_def LOW_BATTERY_EVENT_CHANCE_def APP_SWITCH_EVENT_CHANCE_def

definition commandKeyMask :: uint16 where "commandKeyMask = 0x0008"
definition vchrLowBattery :: uint16 where "vchrLowBattery = 0x0101"
definition vchrMenu :: uint16 where "vchrMenu = 0x0105"
definition vchrKeyboard :: uint16 where "vchrKeyboard = 0x0109"
definition vchrFind :: uint16 where "vchrFind = 0x010A"
definition chrPageUp :: nat where "chrPageUp = 0x000B"
definition chrPageDown :: nat where "chrPageDown = 0x000C"

text \<open>How likely each key is, from the letters' probability of 60.\<close>

definition chanceForKey :: "int list" where
  "chanceForKey =
     replicate 8 0 @
     [180, 120, 600, 30, 30, 0, 0, 0] @
     replicate 8 0 @
     [0, 0, 0, 0, 30, 30, 30, 30] @
     [300] @ replicate 31 6 @
     replicate 64 60 @
     replicate 128 12 @
     [0, 0, 0, 6, 0, 6, 30, 0] @
     [30, 1, 30, 0, 6, 0, 0, 0]"

definition NUM_OF_KEYS :: nat where "NUM_OF_KEYS = 0x110"

section \<open>The emulated system\<close>

text \<open>Rectangles of the emulated system have a corner and an extent; coordinates are of 16 bits.\<close>

record PalmRect =
  rect_x :: int
  rect_y :: int
  rect_width :: int
  rect_height :: int

definition to_Int16 :: "int \<Rightarrow> int" where
  "to_Int16 v = signed_take_bit 15 v"

text \<open>
  \<open>focus\<close> is the field that \<open>GetFocusObject\<close> finds: whether it is editable, how many characters it
  may have and has. \<open>form\<close> is the active form: whether its window is the active one, and the
  rectangles of the objects that \<open>CollectOKObjects\<close> finds. \<open>apps\<close> is what \<open>Hordes::GetAppList\<close>
  yields, with whether an application is executable; \<open>encoding\<close> is the feature that \<open>FtrGet\<close> finds.
\<close>

record palm =
  focus :: "(bool \<times> int \<times> int) option"
  intl :: bool
  single_byte :: "nat \<Rightarrow> bool"
  next_char :: "uint8 list \<Rightarrow> nat \<Rightarrow> uint16 \<times> nat"
  char_start :: "uint8 list \<Rightarrow> int \<Rightarrow> int"
  encoding :: "uint32 option"
  extent :: "int \<times> int"
  line_height :: int
  active_window :: "PalmRect option"
  form :: "(bool \<times> PalmRect list) option"
  buttons :: "PalmRect list"
  to_display :: "int \<times> int \<Rightarrow> int \<times> int"
  apps :: "(bool \<times> uint16 \<times> uint32) list"
  current_app :: "uint16 \<times> uint32"
  switch_fails :: bool

definition IsFocus :: "palm \<Rightarrow> bool" where
  "IsFocus p = (case focus p of None \<Rightarrow> False | Some (editable, _) \<Rightarrow> editable)"

definition SpaceLeftInFocus :: "palm \<Rightarrow> int" where
  "SpaceLeftInFocus p = (case focus p of None \<Rightarrow> 0 | Some (editable, max_chars, chars) \<Rightarrow> if editable then max_chars - chars else 0)"

definition TxtGetNextChar :: "palm \<Rightarrow> uint8 list \<Rightarrow> nat \<Rightarrow> (uint16 \<times> nat) option" where
  "TxtGetNextChar p text0 i =
     (if intl p then Some (next_char p text0 i)
      else if i < length text0 then Some (ucast (text0 ! i), 1) else if i = length text0 then Some (0, 1) else None)"

definition TxtCharStart :: "palm \<Rightarrow> uint8 list \<Rightarrow> int \<Rightarrow> int" where
  "TxtCharStart p text0 i = (if intl p then char_start p text0 i else i)"

definition TxtByteAttrSingle :: "palm \<Rightarrow> nat \<Rightarrow> bool" where
  "TxtByteAttrSingle p i \<longleftrightarrow> (if intl p then single_byte p i else True)"

section \<open>Points\<close>

definition FakeLocalMovement :: "palm \<Rightarrow> int \<Rightarrow> int \<Rightarrow> uint32 \<Rightarrow> (int \<times> int) \<times> uint32" where
  "FakeLocalMovement p lastX lastY seed =
     (let (rx, seed) = randN (line_height p * 2) seed;
          currentX = to_Int16 (lastX + (rx - line_height p));
          (ry, seed) = randN (line_height p * 2) seed;
          currentY = to_Int16 (lastY + (ry - line_height p));
          (winWidth, winHeight) = extent p;
          currentX = (if currentX < 0 then 0 else currentX);
          currentX = (if currentX \<ge> winWidth then to_Int16 (winWidth - 1) else currentX);
          currentY = (if currentY < 0 then 0 else currentY);
          currentY = (if currentY \<ge> winHeight then 1 else currentY)
      in ((currentX, currentY), seed))"

definition RandomScreenXY :: "palm \<Rightarrow> uint32 \<Rightarrow> (int \<times> int) \<times> uint32" where
  "RandomScreenXY p seed =
     (let (x, seed) = randN (fst (extent p)) seed; (y, seed) = randN (snd (extent p)) seed
      in ((to_Int16 x, to_Int16 y), seed))"

definition RandomWindowXY :: "palm \<Rightarrow> uint32 \<Rightarrow> (int \<times> int) \<times> uint32" where
  "RandomWindowXY p seed =
     (let (r, seed) = randN 10 seed
      in case active_window p of
           None \<Rightarrow> RandomScreenXY p seed
         | Some bounds \<Rightarrow>
             if r = 1 then RandomScreenXY p seed
             else (let (x, seed) = randN (rect_width bounds) seed; (y, seed) = randN (rect_height bounds) seed
                   in ((to_Int16 (rect_x bounds + x), to_Int16 (rect_y bounds + y)), seed)))"

text \<open>A point in an object of the form, whose rectangle is cut to the screen.\<close>

definition object_point :: "palm \<Rightarrow> PalmRect \<Rightarrow> uint32 \<Rightarrow> (int \<times> int) \<times> uint32" where
  "object_point p bounds seed =
     (let (winWidth, winHeight) = extent p;
          x0 = (if rect_x bounds < 0 then 0 else rect_x bounds);
          y0 = (if rect_y bounds < 0 then 0 else rect_y bounds);
          w = (if rect_width bounds > winWidth - x0 - 1 then to_Int16 (winWidth - x0 - 1) else rect_width bounds);
          h = (if rect_height bounds > winHeight - y0 - 1 then to_Int16 (winHeight - y0 - 1) else rect_height bounds);
          (x, seed) = randN w seed;
          (y, seed) = randN h seed
      in (to_display p (to_Int16 (x0 + x), to_Int16 (y0 + y)), seed))"

text \<open>A list of no buttons is read outside (\<open>None\<close>).\<close>

definition FakeEventXY :: "palm \<Rightarrow> uint32 \<Rightarrow> ((int \<times> int) \<times> uint32) option" where
  "FakeEventXY p seed =
     (let (r, seed) = randN 100 seed
      in if r < 2 then Some (RandomScreenXY p seed)
         else (let (r, seed) = randN 20 seed
               in if r = 1
                  then (let (i, seed) = randN (int (length (buttons p))) seed
                        in if nat i < length (buttons p)
                           then (let b = buttons p ! nat i
                                 in Some ((to_Int16 (rect_x b + rect_width b sdiv 2), to_Int16 (rect_y b + rect_height b sdiv 2)), seed))
                           else None)
                  else (case form p of
                      None \<Rightarrow> Some (RandomWindowXY p seed)
                    | Some (active, objects) \<Rightarrow>
                        if \<not> active \<or> objects = [] then Some (RandomWindowXY p seed)
                        else (let (i, seed) = randN (int (length objects)) seed
                              in Some (object_point p (objects ! nat i) seed)))))"

section \<open>The gremlin\<close>

text \<open>
  The members of \<open>class Gremlins\<close>, and \<open>gGremlinNext\<close>. \<open>charsToType\<close> is the string in the
  buffer of that name.
\<close>

record Gremlins =
  keyProbabilitiesSum :: uint16
  lastPointX :: uint16
  lastPointY :: uint16
  lastPenDown :: bool
  number :: uint16
  counter :: uint32
  until :: uint32
  finalUntil :: uint32
  saveUntil :: uint32
  inited :: bool
  catchUp :: bool
  needPenUp :: bool
  charsToType :: "uint8 list"
  gremlinStartTime :: uint32
  gremlinStopTime :: uint32
  gGremlinNext :: uint32

definition MAX_SEED_VALUE :: uint32 where "MAX_SEED_VALUE = 1000"

definition Gremlins_Initialize :: "uint16 \<Rightarrow> uint32 \<Rightarrow> uint32 \<Rightarrow> Gremlins \<Rightarrow> Gremlins" where
  "Gremlins_Initialize newNumber untilStep finalVal g =
     g\<lparr>counter := 0, until := untilStep, finalUntil := finalVal, saveUntil := untilStep, catchUp := False, needPenUp := False,
       charsToType := [], inited := True, number := newNumber, gGremlinNext := ucast newNumber\<rparr>"

definition Gremlins_Reset :: "Gremlins \<Rightarrow> Gremlins" where
  "Gremlins_Reset g = g\<lparr>inited := False\<rparr>"

definition SStatus :: "Gremlins \<Rightarrow> uint16 \<times> uint32 \<times> uint32" where
  "SStatus g = (number g, counter g, until g)"

definition SetSeed :: "uint32 \<Rightarrow> Gremlins \<Rightarrow> bool \<times> Gremlins" where
  "SetSeed newSeed g =
     (if newSeed > MAX_SEED_VALUE then (False, g) else (True, g\<lparr>number := ucast newSeed, gGremlinNext := ucast (ucast newSeed :: uint16)\<rparr>))"

definition SetUntil :: "uint32 \<Rightarrow> Gremlins \<Rightarrow> Gremlins" where
  "SetUntil newUntil g = g\<lparr>until := newUntil, saveUntil := newUntil\<rparr>"

definition RestoreFinalUntil :: "Gremlins \<Rightarrow> Gremlins" where
  "RestoreFinalUntil g = g\<lparr>until := finalUntil g\<rparr>"

definition Gremlins_Step :: "Gremlins \<Rightarrow> Gremlins" where
  "Gremlins_Step g = g\<lparr>saveUntil := until g, until := counter g + 1\<rparr>"

definition Gremlins_Resume :: "uint32 \<Rightarrow> Gremlins \<Rightarrow> Gremlins" where
  "Gremlins_Resume now g = g\<lparr>gremlinStartTime := now - (gremlinStopTime g - gremlinStartTime g)\<rparr>"

definition Gremlins_BumpCounter :: "Gremlins \<Rightarrow> Gremlins" where
  "Gremlins_BumpCounter g = g\<lparr>counter := counter g + 1\<rparr>"

section \<open>Making up events\<close>

type_synonym made_up = "(bool \<times> EmRecordedEvent list \<times> palm_call list \<times> Gremlins) option"

definition coord :: "int \<Rightarrow> uint16" where
  "coord v = word_of_int v"

text \<open>Recording and posting of a key and of a point; \<open>RecordPenEvent\<close> asserts what points it gets.\<close>

definition post_key :: "uint16 \<Rightarrow> uint16 \<Rightarrow> uint16 \<Rightarrow> Gremlins \<Rightarrow> made_up" where
  "post_key ascii keycode modifiers g =
     Some (True, [kRecordedKeyEvent ascii keycode modifiers], [StubAppEnqueueKey ascii keycode modifiers], g)"

definition post_point :: "int \<times> int \<Rightarrow> Gremlins \<Rightarrow> made_up" where
  "post_point pt g =
     (let (x, y) = (coord (fst pt), coord (snd pt))
      in if (x = - 1 \<and> y = - 1) \<or> (0 \<le> sint x \<and> 0 \<le> sint y)
         then Some (True, [kRecordedPenEvent x y], [StubAppEnqueuePt x y], g\<lparr>lastPointX := x, lastPointY := y\<rparr>) else None)"

text \<open>\<open>strcpy\<close> from behind the end of the string reads outside of it.\<close>

definition Gremlins_SendCharsToType :: "palm \<Rightarrow> Gremlins \<Rightarrow> made_up" where
  "Gremlins_SendCharsToType p g =
     (if charsToType g \<noteq> []
      then do {
        (theChar, charSize) \<leftarrow> TxtGetNextChar p (charsToType g) 0;
        if charSize > length (charsToType g) then None
        else post_key theChar 0 0 (g\<lparr>charsToType := drop charSize (charsToType g)\<rparr>) }
      else Some (False, [], [], g))"

text \<open>The quotation to type, and where it is cut when the field has no room for it.\<close>

definition choose_quote :: "palm \<Rightarrow> uint32 \<Rightarrow> (uint8 list \<times> uint32) option" where
  "choose_quote p seed =
     (let (r, seed) = randN 10 seed;
          quoteArray = (if r < 8 then quotes_for (encoding p) else kAsciiQuotes);
          (i, seed) = randN NUM_OF_QUOTES seed
      in if nat i < length quoteArray then Some (quoteArray ! nat i, seed) else None)"

partial_function (option) cut_loop :: "palm \<Rightarrow> uint8 list \<Rightarrow> nat \<Rightarrow> uint32 \<Rightarrow> (uint8 list \<times> uint32) option" where
  "cut_loop p chars i seed =
     (if i < length chars
      then (let (r, seed) = randPercent seed
            in if r < 33 then Some (take i chars, seed)
               else do { (_, size) \<leftarrow> TxtGetNextChar p chars i; cut_loop p chars (i + size) seed })
      else if i = length chars then Some (chars, seed)
      else None)"

declare cut_loop.simps [code]

definition kMaxChars :: nat where "kMaxChars = 2048"

definition type_quote :: "palm \<Rightarrow> Gremlins \<Rightarrow> made_up" where
  "type_quote p g = do {
     (quote0, seed) \<leftarrow> choose_quote p (gGremlinNext g);
     let chars = charsToType g @ quote0;
     if length chars \<ge> kMaxChars then None
     else do {
       let spaceLeft = SpaceLeftInFocus p;
       (chars, seed) \<leftarrow>
         (if 0 \<le> spaceLeft \<and> int (length chars) > spaceLeft
          then cut_loop p chars (nat (TxtCharStart p chars spaceLeft)) seed else Some (chars, seed));
       (result, events, calls, g) \<leftarrow> Gremlins_SendCharsToType p (g\<lparr>charsToType := chars, gGremlinNext := seed\<rparr>);
       Some (result, if result then events else events @ [kRecordedNullEvent], calls, g) } }"

text \<open>A key, by the probabilities of those that may be a character on their own.\<close>

definition key_possible :: "palm \<Rightarrow> nat \<Rightarrow> bool" where
  "key_possible p i \<longleftrightarrow> i > 0x00FF \<or> TxtByteAttrSingle p i"

definition key_sum :: "palm \<Rightarrow> uint16" where
  "key_sum p = word_of_int (sum_list (map (\<lambda>i. chanceForKey ! i) [i \<leftarrow> [0..<NUM_OF_KEYS]. key_possible p i]))"

function pick_key :: "palm \<Rightarrow> nat \<Rightarrow> int \<Rightarrow> nat" where
  "pick_key p i chance =
     (if i \<ge> NUM_OF_KEYS then i
      else if i < 0x0100 \<and> \<not> TxtByteAttrSingle p i then pick_key p (i + 1) chance
      else if chance < chanceForKey ! i then i
      else pick_key p (i + 1) (chance - chanceForKey ! i))"
  by pat_completeness auto
termination
  by (relation "measure (\<lambda>(p, i, chance). NUM_OF_KEYS - i)") auto

declare pick_key.simps [simp del]

definition type_key :: "palm \<Rightarrow> Gremlins \<Rightarrow> made_up" where
  "type_key p g =
     (let g = (if keyProbabilitiesSum g = 0 then g\<lparr>keyProbabilitiesSum := key_sum p\<rparr> else g);
          (chance, seed) = randN (uint (keyProbabilitiesSum g)) (gGremlinNext g);
          g = g\<lparr>gGremlinNext := seed\<rparr>;
          i = pick_key p 0 chance
      in if i \<ge> NUM_OF_KEYS then Some (False, [], [], g)
         else if i > 255 \<or> i = chrPageUp \<or> i = chrPageDown then post_key (of_nat i) 0 commandKeyMask g
         else post_key (of_nat i) 0 0 g)"

text \<open>A random application of the list, if it is executable.\<close>

definition switch_app :: "palm \<Rightarrow> Gremlins \<Rightarrow> made_up" where
  "switch_app p g =
     (let (r, seed) = randPercent (gGremlinNext g)
      in if r < 5 \<and> apps p \<noteq> []
         then (let (i, seed) = randN (int (length (apps p))) seed; (executable, cardNo, dbID) = apps p ! nat i; g = g\<lparr>gGremlinNext := seed\<rparr>
               in if executable
                  then (if switch_fails p then None
                        else Some (True, [kRecordedAppSwitchEvent cardNo dbID (fst (current_app p)) (snd (current_app p))], [SysUIAppSwitch cardNo dbID], g))
                  else Some (False, [kRecordedNullEvent], [], g))
         else Some (False, [kRecordedNullEvent], [], g\<lparr>gGremlinNext := seed\<rparr>))"

definition choose_event :: "palm \<Rightarrow> Gremlins \<Rightarrow> made_up" where
  "choose_event p g =
     (let (chance, seed) = randPercent (gGremlinNext g); g = g\<lparr>gGremlinNext := seed\<rparr>
      in if chance < KEY_DOWN_EVENT_WITHOUT_FOCUS_CHANCE \<or> chance < KEY_DOWN_EVENT_WITH_FOCUS_CHANCE \<and> IsFocus p
         then (let (r, seed) = randPercent (gGremlinNext g); g = g\<lparr>gGremlinNext := seed\<rparr>
               in if r < TYPE_QUOTE_CHANCE \<and> IsFocus p then type_quote p g else type_key p g)
         else if chance < PEN_DOWN_EVENT_CHANCE
         then do {
           (pen, seed) \<leftarrow> FakeEventXY p (gGremlinNext g);
           post_point pen (g\<lparr>needPenUp := True, lastPenDown := True, gGremlinNext := seed\<rparr>) }
         else if chance < MENU_EVENT_CHANCE then post_key vchrMenu vchrMenu commandKeyMask g
         else if chance < FIND_EVENT_CHANCE then post_key vchrFind vchrFind commandKeyMask g
         else if chance < KEYBOARD_EVENT_CHANCE then post_key vchrKeyboard vchrKeyboard commandKeyMask g
         else if chance < LOW_BATTERY_EVENT_CHANCE then post_key vchrLowBattery vchrLowBattery commandKeyMask g
         else if chance < APP_SWITCH_EVENT_CHANCE then switch_app p g
         else Some (False, [kRecordedNullEvent], [], g))"

definition GetFakeEvent :: "palm \<Rightarrow> Gremlins \<Rightarrow> made_up" where
  "GetFakeEvent p g =
     (if \<not> inited g then Some (False, [], [], g)
      else if counter g > until g then Some (False, [], [], g)
      else do {
        (result, events, calls, g) \<leftarrow>
          (if catchUp g then Some (False, [kRecordedNullEvent], [], g\<lparr>catchUp := False\<rparr>)
           else if needPenUp g then post_point (- 1, - 1) (g\<lparr>lastPenDown := False, needPenUp := False\<rparr>)
           else if charsToType g \<noteq> [] then Gremlins_SendCharsToType p g
           else choose_event p g);
        Some (result, events, EvtResetAutoOffTimer # calls, g) })"

definition GetPenMovement :: "palm \<Rightarrow> Gremlins \<Rightarrow> made_up" where
  "GetPenMovement p g =
     (let g = g\<lparr>needPenUp := False\<rparr>; (r, seed) = randPercent (gGremlinNext g)
      in if r < PEN_MOVE_CHANCE
         then (if lastPenDown g
               then (let (r, seed) = randPercent seed;
                         (pen, seed) = (if r < PEN_BIG_MOVE_CHANCE then RandomScreenXY p seed
                                        else FakeLocalMovement p (sint (lastPointX g)) (sint (lastPointY g)) seed)
                     in post_point pen (g\<lparr>gGremlinNext := seed\<rparr>))
               else (let (pen, seed) = RandomScreenXY p seed in post_point pen (g\<lparr>gGremlinNext := seed\<rparr>)))
         else post_point (- 1, - 1) (g\<lparr>gGremlinNext := seed, lastPenDown := False, catchUp := True\<rparr>))"

end
