(* ===== verification/GremlinProps.thy ===== *)
theory GremlinProps
  imports Gremlins PlaybackResults
begin

text \<open>
  What a gremlin makes up: the events are ones that can be recorded, the points are on the screen, and
  replaying the recorded events makes the calls that the gremlin has made.
\<close>

section \<open>Random numbers\<close>

lemma Gremlin_rand_range: "0 \<le> fst (Gremlin_rand s)" "fst (Gremlin_rand s) < 32768"
proof -
  have "uint (x AND 0x7FFF) = uint x mod 32768" for x :: uint32
    by (simp add: uint_and flip: take_bit_eq_mask take_bit_eq_mod [of 15, simplified]) (simp add: take_bit_eq_mask mask_eq_exp_minus_1)
  then show "0 \<le> fst (Gremlin_rand s)" "fst (Gremlin_rand s) < 32768" by (simp_all add: Gremlin_rand_def Let_def)
qed

lemma randN_eq: "fst (randN n s) = sgn n * (fst (Gremlin_rand s) * \<bar>n\<bar> div 32768)"
proof -
  obtain r s' where r: "Gremlin_rand s = (r, s')" by fastforce
  have b: "0 \<le> r" using Gremlin_rand_range [of s] r by simp
  show ?thesis using b by (cases "r = 0") (simp_all add: randN_def r RAND_MAX_def signed_divide_int_def sgn_mult abs_mult)
qed

lemma rand_part: "0 \<le> n \<Longrightarrow> 0 \<le> fst (Gremlin_rand s) * n div 32768" "0 < n \<Longrightarrow> fst (Gremlin_rand s) * n div 32768 < n"
proof -
  note b = Gremlin_rand_range [of s]
  show "0 \<le> n \<Longrightarrow> 0 \<le> fst (Gremlin_rand s) * n div 32768" using b by (simp add: pos_imp_zdiv_nonneg_iff)
  assume n: "0 < n"
  have "fst (Gremlin_rand s) * n < n * 32768" using b n by (simp add: mult.commute)
  then show "fst (Gremlin_rand s) * n div 32768 < n" by (simp add: div_less_iff_less_mult)
qed

lemma randN_range: "0 < n \<Longrightarrow> 0 \<le> fst (randN n s)" "0 < n \<Longrightarrow> fst (randN n s) < n"
  using rand_part [of n s] by (simp_all add: randN_eq)

lemma randN_nonpos: "n \<le> 0 \<Longrightarrow> n \<le> fst (randN n s)" "n \<le> 0 \<Longrightarrow> fst (randN n s) \<le> 0"
  using rand_part [of "- n" s] by (cases "n = 0"; simp add: randN_eq)+

lemma randN_nonneg: "0 \<le> n \<Longrightarrow> 0 \<le> fst (randN n s)"
  using randN_range(1) [of n s] randN_nonpos(1) [of n s] by (cases "n = 0") auto

section \<open>Points on the screen\<close>

definition on_screen :: "palm \<Rightarrow> int \<times> int \<Rightarrow> bool" where
  "on_screen p pt \<longleftrightarrow> 0 \<le> fst pt \<and> fst pt < fst (extent p) \<and> 0 \<le> snd pt \<and> snd pt < snd (extent p)"

definition screen_ok :: "palm \<Rightarrow> bool" where
  "screen_ok p \<longleftrightarrow> 2 \<le> fst (extent p) \<and> fst (extent p) \<le> 32000 \<and> 2 \<le> snd (extent p) \<and> snd (extent p) \<le> 32000 \<and>
     0 < line_height p \<and> line_height p < 256"

lemma to_Int16_id: "- 32768 \<le> v \<Longrightarrow> v < 32768 \<Longrightarrow> to_Int16 v = v"
  by (simp add: to_Int16_def signed_take_bit_int_eq_self)

lemma RandomScreenXY_on_screen:
  assumes "screen_ok p"
  shows "on_screen p (fst (RandomScreenXY p s))"
proof -
  obtain x s1 where x: "randN (fst (extent p)) s = (x, s1)" by fastforce
  obtain y s2 where y: "randN (snd (extent p)) s1 = (y, s2)" by fastforce
  have "0 \<le> x" "x < fst (extent p)" "0 \<le> y" "y < snd (extent p)"
    using randN_range [of "fst (extent p)" s] randN_range [of "snd (extent p)" s1] x y assms by (simp_all add: screen_ok_def)
  then show ?thesis using assms by (simp add: RandomScreenXY_def x y on_screen_def screen_ok_def to_Int16_id)
qed

text \<open>Coordinates of devices fit a byte, and so the recorded positions are of those that can be stored.\<close>

definition point_ok :: "int \<times> int \<Rightarrow> bool" where
  "point_ok pt \<longleftrightarrow> 0 \<le> fst pt \<and> fst pt < 256 \<and> 0 \<le> snd pt \<and> snd pt < 256"

text \<open>A small movement, from the random numbers that it draws. A movement below the screen goes to its second line.\<close>

lemma FakeLocalMovement_eq:
  assumes "screen_ok p" and "point_ok (lastX, lastY)"
  shows "fst (FakeLocalMovement p lastX lastY s) =
    (let (rx, s) = randN (line_height p * 2) s; (ry, s) = randN (line_height p * 2) s;
         x = lastX + (rx - line_height p); y = lastY + (ry - line_height p)
     in (max 0 (min x (fst (extent p) - 1)), if y \<ge> snd (extent p) then 1 else max 0 y))"
proof -
  obtain rx s1 where x: "randN (line_height p * 2) s = (rx, s1)" by fastforce
  obtain ry s2 where y: "randN (line_height p * 2) s1 = (ry, s2)" by fastforce
  obtain w h where e: "extent p = (w, h)" by fastforce
  have "0 \<le> rx" "rx < line_height p * 2" "0 \<le> ry" "ry < line_height p * 2"
    using randN_range [of "line_height p * 2" s] randN_range [of "line_height p * 2" s1] x y assms(1) by (simp_all add: screen_ok_def)
  then have "\<bar>rx - line_height p\<bar> \<le> 256" "\<bar>ry - line_height p\<bar> \<le> 256" using assms(1) by (auto simp: screen_ok_def)
  then have "to_Int16 (lastX + (rx - line_height p)) = lastX + (rx - line_height p)"
    "to_Int16 (lastY + (ry - line_height p)) = lastY + (ry - line_height p)" "to_Int16 (w - 1) = w - 1"
    using assms by (auto intro!: to_Int16_id simp: e point_ok_def screen_ok_def)
  then show ?thesis using assms by (auto simp: FakeLocalMovement_def x y e point_ok_def screen_ok_def Let_def)
qed

lemma FakeLocalMovement_on_screen:
  assumes "screen_ok p" and "point_ok (lastX, lastY)"
  shows "on_screen p (fst (FakeLocalMovement p lastX lastY s))"
  using assms(1) unfolding FakeLocalMovement_eq [OF assms]
  by (auto simp: on_screen_def screen_ok_def Let_def split: prod.splits)

section \<open>Points on the device\<close>

text \<open>
  What is expected of the emulated system: its screen, its windows, buttons and objects are where a
  coordinate fits a byte, the text functions stay in the text, and the switch to an application that
  is there succeeds.
\<close>

definition rect_ok :: "PalmRect \<Rightarrow> bool" where
  "rect_ok r \<longleftrightarrow> 0 \<le> rect_x r \<and> 0 \<le> rect_width r \<and> rect_x r + rect_width r < 256 \<and>
     0 \<le> rect_y r \<and> 0 \<le> rect_height r \<and> rect_y r + rect_height r < 256"

definition object_ok :: "palm \<Rightarrow> PalmRect \<Rightarrow> bool" where
  "object_ok p r \<longleftrightarrow> - 32768 \<le> rect_x r \<and> rect_x r < fst (extent p) \<and> 0 \<le> rect_width r \<and> rect_width r < 32768 \<and>
     - 32768 \<le> rect_y r \<and> rect_y r < snd (extent p) \<and> 0 \<le> rect_height r \<and> rect_height r < 32768"

definition text_ok :: "palm \<Rightarrow> bool" where
  "text_ok p \<longleftrightarrow>
     (\<forall>t i. i < length t \<longrightarrow> 0 < snd (next_char p t i) \<and> i + snd (next_char p t i) \<le> length t) \<and>
     (\<forall>t i. 0 \<le> i \<and> i < int (length t) \<longrightarrow> char_start p t i \<le> i)"

definition palm_ok :: "palm \<Rightarrow> bool" where
  "palm_ok p \<longleftrightarrow> screen_ok p \<and> fst (extent p) \<le> 256 \<and> snd (extent p) \<le> 256 \<and> (intl p \<longrightarrow> text_ok p) \<and>
     buttons p \<noteq> [] \<and> (\<forall>b\<in>set (buttons p). rect_ok b) \<and>
     (case active_window p of None \<Rightarrow> True | Some r \<Rightarrow> rect_ok r) \<and>
     (case form p of None \<Rightarrow> True | Some (_, objects) \<Rightarrow> \<forall>r\<in>set objects. object_ok p r) \<and>
     (\<forall>pt. on_screen p pt \<longrightarrow> point_ok (to_display p pt)) \<and> \<not> switch_fails p"

lemma on_screen_point: "palm_ok p \<Longrightarrow> on_screen p pt \<Longrightarrow> point_ok pt"
  by (auto simp: palm_ok_def on_screen_def point_ok_def)

lemma RandomScreenXY_ok: "palm_ok p \<Longrightarrow> point_ok (fst (RandomScreenXY p s))"
  by (rule on_screen_point) (auto simp: palm_ok_def intro: RandomScreenXY_on_screen)

lemma randN_within: "0 \<le> n \<Longrightarrow> 0 \<le> fst (randN n s) \<and> fst (randN n s) \<le> n"
  using randN_range [of n s] randN_nonpos [of n s] by (cases "n = 0") auto

lemma RandomWindowXY_ok:
  assumes "palm_ok p"
  shows "point_ok (fst (RandomWindowXY p s))"
proof (cases "active_window p")
  case None
  then show ?thesis using RandomScreenXY_ok [OF assms] by (auto simp: RandomWindowXY_def split: prod.splits)
next
  case (Some r)
  obtain i s1 where i: "randN 10 s = (i, s1)" by fastforce
  obtain x s2 where x: "randN (rect_width r) s1 = (x, s2)" by fastforce
  obtain y s3 where y: "randN (rect_height r) s2 = (y, s3)" by fastforce
  have r: "rect_ok r" using assms Some by (simp add: palm_ok_def)
  then have "0 \<le> x" "x \<le> rect_width r" "0 \<le> y" "y \<le> rect_height r"
    using randN_within [of "rect_width r" s1] randN_within [of "rect_height r" s2] x y by (simp_all add: rect_ok_def)
  then show ?thesis using r RandomScreenXY_ok [OF assms]
    by (auto simp: RandomWindowXY_def Some i x y point_ok_def rect_ok_def to_Int16_id)
qed

lemma object_point_ok:
  assumes "palm_ok p" and "object_ok p r"
  shows "point_ok (fst (object_point p r s))"
proof -
  obtain w h where e: "extent p = (w, h)" by fastforce
  define x0 where "x0 = (if rect_x r < 0 then 0 else rect_x r)"
  define y0 where "y0 = (if rect_y r < 0 then 0 else rect_y r)"
  define rw where "rw = (if rect_width r > w - x0 - 1 then to_Int16 (w - x0 - 1) else rect_width r)"
  define rh where "rh = (if rect_height r > h - y0 - 1 then to_Int16 (h - y0 - 1) else rect_height r)"
  obtain x s1 where x: "randN rw s = (x, s1)" by fastforce
  obtain y s2 where y: "randN rh s1 = (y, s2)" by fastforce
  have b: "w \<le> 256" "h \<le> 256" "0 \<le> x0" "x0 < w" "0 \<le> y0" "y0 < h" "0 \<le> rect_width r" "0 \<le> rect_height r"
    using assms by (auto simp: palm_ok_def object_ok_def screen_ok_def e x0_def y0_def)
  then have r: "0 \<le> rw" "rw \<le> w - x0 - 1" "0 \<le> rh" "rh \<le> h - y0 - 1" by (auto simp: rw_def rh_def to_Int16_id)
  then have "0 \<le> x" "x \<le> rw" "0 \<le> y" "y \<le> rh" using randN_within [of rw s] randN_within [of rh s1] x y by simp_all
  then have "on_screen p (to_Int16 (x0 + x), to_Int16 (y0 + y))"
    using b r by (simp add: on_screen_def e to_Int16_id)
  moreover have "fst (object_point p r s) = to_display p (to_Int16 (x0 + x), to_Int16 (y0 + y))"
    unfolding object_point_def Let_def e prod.case
    unfolding x0_def [symmetric] y0_def [symmetric]
    unfolding rw_def [symmetric] rh_def [symmetric] x prod.case y fst_conv by (rule refl)
  ultimately show ?thesis using assms(1) by (simp add: palm_ok_def)
qed

lemma randN_index: "0 < n \<Longrightarrow> randN (int n) s = (i, s') \<Longrightarrow> nat i < n"
  using randN_range [of "int n" s] by auto

lemma half: "0 \<le> v \<Longrightarrow> v sdiv 2 = v div (2 :: int)"
  by (cases "v = 0") (simp_all add: signed_divide_int_def)

lemma FakeEventXY_ok:
  assumes "palm_ok p"
  shows "\<exists>pt s'. FakeEventXY p s = Some (pt, s') \<and> point_ok pt"
proof -
  obtain i s1 where i: "randN 100 s = (i, s1)" by fastforce
  obtain j s2 where j: "randN 20 s1 = (j, s2)" by fastforce
  obtain k s3 where k: "randN (int (length (buttons p))) s2 = (k, s3)" by fastforce
  note w = RandomWindowXY_ok [OF assms, of s2] RandomScreenXY_ok [OF assms, of s1]
  consider "i < 2" | "\<not> i < 2" "j = 1" | "\<not> i < 2" "j \<noteq> 1" by linarith
  then show ?thesis
  proof cases
    case 1
    then show ?thesis using w by (cases "RandomScreenXY p s1") (auto simp: FakeEventXY_def i)
  next
    case 2
    define b where "b = buttons p ! nat k"
    have k': "nat k < length (buttons p)" using randN_index [OF _ k] assms by (auto simp: palm_ok_def)
    then have "rect_ok b" using assms by (auto simp: palm_ok_def b_def)
    then have "point_ok (to_Int16 (rect_x b + rect_width b sdiv 2), to_Int16 (rect_y b + rect_height b sdiv 2))"
      by (auto simp: point_ok_def rect_ok_def to_Int16_id half)
    then show ?thesis using 2 k' by (simp add: FakeEventXY_def i j k b_def Let_def)
  next
    case 3
    show ?thesis
    proof (cases "form p")
      case None
      then show ?thesis using w 3 by (cases "RandomWindowXY p s2") (auto simp: FakeEventXY_def i j)
    next
      case (Some f)
      obtain active objects where f: "form p = Some (active, objects)" using Some by (cases f) auto
      obtain l s4 where l: "randN (int (length objects)) s2 = (l, s4)" by fastforce
      have "object_ok p (objects ! nat l)" if "objects \<noteq> []"
        using randN_index [OF _ l] that assms f by (auto simp: palm_ok_def)
      then show ?thesis using w 3 object_point_ok [OF assms, of "objects ! nat l" s4]
        by (cases "RandomWindowXY p s2"; cases "object_point p (objects ! nat l) s4") (auto simp: FakeEventXY_def i j f l)
    qed
  qed
qed

end
