(* ===== verification/GremlinEvents.thy ===== *)
theory GremlinEvents
  imports GremlinProps
begin

text \<open>
  What the making of an event yields: a gremlin in good order and at most one event, of those that can
  be stored, whose replay makes the calls that the gremlin has made.
\<close>

section \<open>Recorded events and posted ones\<close>

definition own_calls :: "palm_call list \<Rightarrow> palm_call list" where
  "own_calls calls = filter (\<lambda>c. c \<noteq> EvtResetAutoOffTimer) calls"

fun switches_app :: "EmRecordedEvent \<Rightarrow> bool" where
  "switches_app (kRecordedAppSwitchEvent c d oc od) \<longleftrightarrow> True"
| "switches_app _ \<longleftrightarrow> False"

definition replays_alike :: "bool \<times> EmRecordedEvent list \<times> palm_call list \<times> Gremlins \<Rightarrow> bool" where
  "replays_alike = (\<lambda>(posted, es, calls, g). case es of
       [] \<Rightarrow> \<not> posted \<and> own_calls calls = []
     | [e] \<Rightarrow> (case replay_event e of None \<Rightarrow> False
         | Some (result, cs) \<Rightarrow> own_calls cs = own_calls calls \<and> (result = posted \<or> switches_app e \<and> posted))
     | _ \<Rightarrow> False)"

definition alike :: "made_up \<Rightarrow> bool" where
  "alike m \<longleftrightarrow> (case m of None \<Rightarrow> True | Some r \<Rightarrow> replays_alike r)"

lemmas alike_simps = alike_def replays_alike_def own_calls_def

lemma alike_bind: "(\<And>x. m = Some x \<Longrightarrow> alike (f x)) \<Longrightarrow> alike (Option.bind m f)"
  by (cases m) (simp_all add: alike_def)

lemma alike_None [simp]: "alike None"
  by (simp add: alike_def)

lemma alike_nothing [simp]: "alike (Some (False, [], [], g))" "alike (Some (False, [kRecordedNullEvent], [], g))"
  by (simp_all add: alike_simps)

lemma alike_post_key [simp]: "alike (post_key a k m g)"
  by (simp add: post_key_def alike_simps)

lemma alike_post_point [simp]: "alike (post_point pt g)"
  by (simp add: post_point_def alike_simps Let_def)

lemma alike_SendCharsToType [simp]: "alike (Gremlins_SendCharsToType p g)"
  by (auto simp: Gremlins_SendCharsToType_def intro!: alike_bind)

lemma SendCharsToType_result:
  assumes "Gremlins_SendCharsToType p g = Some (r, es, calls, g')"
  shows "\<not> r \<and> es = [] \<and> calls = [] \<or> (\<exists>c. r \<and> es = [kRecordedKeyEvent c 0 0] \<and> calls = [StubAppEnqueueKey c 0 0])"
  using assms by (auto simp: Gremlins_SendCharsToType_def post_key_def bind_eq_Some_conv split: if_splits)

lemma alike_type_quote [simp]: "alike (type_quote p g)"
proof -
  have "alike (Some (r, if r then es else es @ [kRecordedNullEvent], calls, g'))"
    if "Gremlins_SendCharsToType p g = Some (r, es, calls, g')" for r es calls g g'
    using SendCharsToType_result [OF that] by (auto simp: alike_simps)
  then show ?thesis unfolding type_quote_def Let_def by (auto intro!: alike_bind)
qed

lemma alike_type_key [simp]: "alike (type_key p g)"
  by (simp add: type_key_def Let_def split: prod.split)

lemma alike_switch_app [simp]: "alike (switch_app p g)"
  by (simp add: switch_app_def Let_def alike_simps split: prod.split)

lemma alike_choose_event [simp]: "alike (choose_event p g)"
  by (auto simp: choose_event_def Let_def split: prod.split intro!: alike_bind)

lemma alike_reset_timer:
  assumes "alike m"
  shows "alike (Option.bind m (\<lambda>(r, es, calls, g). Some (r, es, EvtResetAutoOffTimer # calls, g)))"
proof -
  have own: "own_calls (EvtResetAutoOffTimer # calls) = own_calls calls" for calls by (simp add: own_calls_def)
  have "replays_alike (r, es, EvtResetAutoOffTimer # calls, g) = replays_alike (r, es, calls, g)" for r es calls g
    unfolding replays_alike_def prod.case own by (rule refl)
  then show ?thesis using assms by (cases m) (auto simp: alike_def)
qed

lemma events_alike: "alike (GetFakeEvent p g)" "alike (GetPenMovement p g)"
proof -
  show "alike (GetFakeEvent p g)" unfolding GetFakeEvent_def
    by (cases "inited g"; cases "counter g > until g") (simp_all only: if_True if_False simp_thms alike_nothing, intro alike_reset_timer, simp)
  show "alike (GetPenMovement p g)" by (simp add: GetPenMovement_def Let_def split: prod.split)
qed

text \<open>
  C26: replaying what a gremlin has recorded does what the gremlin has done. Making an event and a
  movement of the pen record at most one event, and nothing only if nothing was posted; the calls of
  the emulated system that the replay makes for the event are those of the gremlin, but for the timer
  that turns the device off, and the replay reports what the gremlin does, but for the switch to an
  application, which only the gremlin reports as an event.
\<close>

theorem gremlins_record_what_they_post:
  "alike (GetFakeEvent p g) \<and> alike (GetPenMovement p g)"
  by (simp add: events_alike)

section \<open>Events are made on every device\<close>

text \<open>
  A gremlin in good order: what it has to type is a string that fits its buffer, and the last position of a pen that is
  down is one of the device.
\<close>

definition gremlin_ok :: "Gremlins \<Rightarrow> bool" where
  "gremlin_ok g \<longleftrightarrow> length (charsToType g) < kMaxChars \<and> 0 \<notin> set (charsToType g) \<and>
     (lastPenDown g \<longrightarrow> point_ok (sint (lastPointX g), sint (lastPointY g)))"

definition well_made :: "made_up \<Rightarrow> bool" where
  "well_made m \<longleftrightarrow> (\<exists>posted es calls g. m = Some (posted, es, calls, g) \<and> gremlin_ok g \<and> (\<forall>e\<in>set es. storable e))"

lemma well_made_None [simp]: "\<not> well_made None"
  by (simp add: well_made_def)

lemma well_made_Some [simp]: "well_made (Some (posted, es, calls, g)) \<longleftrightarrow> gremlin_ok g \<and> (\<forall>e\<in>set es. storable e)"
  by (auto simp: well_made_def)

lemma gremlin_ok_other [simp]:
  "gremlin_ok (g\<lparr>gGremlinNext := s\<rparr>) = gremlin_ok g" "gremlin_ok (g\<lparr>needPenUp := b\<rparr>) = gremlin_ok g"
  "gremlin_ok (g\<lparr>catchUp := b\<rparr>) = gremlin_ok g" "gremlin_ok (g\<lparr>keyProbabilitiesSum := n\<rparr>) = gremlin_ok g"
  by (simp_all add: gremlin_ok_def)

lemma well_made_key [simp]: "well_made (post_key a k m g) = gremlin_ok g"
  by (simp add: post_key_def)

lemma sint_coord: "- 32768 \<le> v \<Longrightarrow> v < 32768 \<Longrightarrow> sint (coord v) = v"
  by (simp add: coord_def int_word_sint)

lemma well_made_point:
  assumes "point_ok pt" and "length (charsToType g) < kMaxChars" and "0 \<notin> set (charsToType g)"
  shows "well_made (post_point pt g)"
  using assms by (auto simp: post_point_def Let_def point_ok_def sint_coord gremlin_ok_def)

lemma well_made_pen_up: "length (charsToType g) < kMaxChars \<Longrightarrow> 0 \<notin> set (charsToType g) \<Longrightarrow> \<not> lastPenDown g \<Longrightarrow> well_made (post_point (- 1, - 1) g)"
  by (simp add: post_point_def coord_def gremlin_ok_def)

lemma TxtGetNextChar_ok:
  assumes "palm_ok p" and "i < length t"
  shows "\<exists>c n. TxtGetNextChar p t i = Some (c, n) \<and> 0 < n \<and> i + n \<le> length t"
  using assms by (cases "next_char p t i") (force simp: TxtGetNextChar_def palm_ok_def text_ok_def)

lemma well_made_SendCharsToType:
  assumes "palm_ok p" and "gremlin_ok g"
  shows "well_made (Gremlins_SendCharsToType p g)"
  using TxtGetNextChar_ok [OF assms(1), of 0 "charsToType g"] assms(2)
  by (cases "charsToType g = []") (auto simp: Gremlins_SendCharsToType_def gremlin_ok_def dest: in_set_dropD)

lemma cut_loop_ok:
  assumes "palm_ok p" and "i \<le> length t"
  shows "\<exists>u s'. cut_loop p t i s = Some (u, s') \<and> length u \<le> length t \<and> set u \<subseteq> set t"
  using assms(2)
proof (induction "length t - i" arbitrary: i s rule: less_induct)
  case less
  show ?case
  proof (cases "i < length t")
    case True
    obtain c n where n: "TxtGetNextChar p t i = Some (c, n)" "0 < n" "i + n \<le> length t" using TxtGetNextChar_ok [OF assms(1) True] by blast
    obtain r s1 where r: "randPercent s = (r, s1)" by fastforce
    show ?thesis using less.hyps [of "i + n" s1] n True by (subst cut_loop.simps) (simp add: r set_take_subset)
  qed (use less.prems cut_loop.simps [of p t "length t" s] in simp)
qed

lemma choose_quote_ok: "\<exists>t s'. choose_quote p s = Some (t, s') \<and> length t < 1024 \<and> 0 \<notin> set t"
proof -
  obtain r s1 where r: "randN 10 s = (r, s1)" by fastforce
  define qs where "qs = (if r < 8 then quotes_for (encoding p) else kAsciiQuotes)"
  obtain i s2 where i: "randN NUM_OF_QUOTES s1 = (i, s2)" by fastforce
  have q: "quotes_good qs" by (simp add: qs_def quotes_for_good ascii_good)
  then have "nat i < length qs" using randN_index [of "length qs" s1 i s2] i by (simp add: quotes_good_def NUM_OF_QUOTES_def)
  then show ?thesis using q by (simp add: choose_quote_def r i flip: qs_def) (simp add: quotes_good_def)
qed

lemma well_made_type_quote:
  assumes "palm_ok p" and "gremlin_ok g" and "charsToType g = []"
  shows "well_made (type_quote p g)"
proof -
  obtain t s1 where t: "choose_quote p (gGremlinNext g) = Some (t, s1)" "length t < 1024" "0 \<notin> set t" using choose_quote_ok by blast
  let ?cut = "if 0 \<le> SpaceLeftInFocus p \<and> int (length t) > SpaceLeftInFocus p
    then cut_loop p t (nat (TxtCharStart p t (SpaceLeftInFocus p))) s1 else Some (t, s1)"
  have "TxtCharStart p t i \<le> i" if "0 \<le> i" "i < int (length t)" for i
    using assms(1) that by (auto simp: TxtCharStart_def palm_ok_def text_ok_def)
  then have "nat (TxtCharStart p t (SpaceLeftInFocus p)) \<le> length t"
    if "0 \<le> SpaceLeftInFocus p" "int (length t) > SpaceLeftInFocus p" using that by fastforce
  then obtain u s2 where u: "?cut = Some (u, s2)" "length u < kMaxChars" "0 \<notin> set u"
    using cut_loop_ok [OF assms(1)] t(2,3) by (fastforce simp: kMaxChars_def split: if_splits)
  let ?g = "g\<lparr>charsToType := u, gGremlinNext := s2\<rparr>"
  have "well_made (Gremlins_SendCharsToType p ?g)"
    using assms(2) u(2,3) by (intro well_made_SendCharsToType assms(1)) (simp add: gremlin_ok_def)
  then obtain r es calls g' where g': "Gremlins_SendCharsToType p ?g = Some (r, es, calls, g')" "gremlin_ok g'" "\<forall>e\<in>set es. storable e"
    by (auto simp: well_made_def)
  have "type_quote p g = Some (r, if r then es else es @ [kRecordedNullEvent], calls, g')"
    using t(2) by (simp add: type_quote_def t(1) assms(3) Let_def u(1) g'(1) kMaxChars_def)
  then show ?thesis using g' by simp
qed

lemma well_made_type_key: "gremlin_ok g \<Longrightarrow> well_made (type_key p g)"
  by (simp add: type_key_def Let_def split: prod.split)

lemma well_made_switch_app: "palm_ok p \<Longrightarrow> gremlin_ok g \<Longrightarrow> well_made (switch_app p g)"
  by (simp add: switch_app_def Let_def palm_ok_def split: prod.split)

lemma well_made_choose_event:
  assumes "palm_ok p" and "gremlin_ok g" and "charsToType g = []"
  shows "well_made (choose_event p g)"
proof -
  obtain chance s1 where c: "randPercent (gGremlinNext g) = (chance, s1)" by fastforce
  obtain r s2 where r: "randPercent s1 = (r, s2)" by fastforce
  obtain pt s3 where pt: "FakeEventXY p s1 = Some (pt, s3)" "point_ok pt" using FakeEventXY_ok [OF assms(1)] by blast
  have "well_made (post_point pt (g\<lparr>needPenUp := True, lastPenDown := True, gGremlinNext := s3\<rparr>))"
    using pt(2) assms(2) by (intro well_made_point) (simp_all add: gremlin_ok_def)
  then show ?thesis using assms
    by (auto simp: choose_event_def Let_def c r pt intro!: well_made_type_quote well_made_type_key well_made_switch_app)
qed

lemma events_well_made:
  assumes "palm_ok p" and "gremlin_ok g"
  shows "well_made (GetFakeEvent p g) \<and> well_made (GetPenMovement p g)"
proof
  let ?m = "if catchUp g then Some (False, [kRecordedNullEvent], [], g\<lparr>catchUp := False\<rparr>)
     else if needPenUp g then post_point (- 1, - 1) (g\<lparr>lastPenDown := False, needPenUp := False\<rparr>)
     else if charsToType g \<noteq> [] then Gremlins_SendCharsToType p g else choose_event p g"
  have "well_made ?m"
    using assms well_made_choose_event [OF assms] well_made_SendCharsToType [OF assms]
    by (auto intro!: well_made_pen_up simp: gremlin_ok_def)
  then show "well_made (GetFakeEvent p g)" using assms(2) by (auto simp: GetFakeEvent_def well_made_def)
  note ok = assms(2) [unfolded gremlin_ok_def]
  obtain r s1 where r: "randPercent (gGremlinNext g) = (r, s1)" by fastforce
  obtain b s2 where b: "randPercent s1 = (b, s2)" by fastforce
  have l: "point_ok (fst (FakeLocalMovement p (sint (lastPointX g)) (sint (lastPointY g)) s2))" if "lastPenDown g"
    using ok that assms(1) by (intro on_screen_point [OF assms(1) FakeLocalMovement_on_screen]) (auto simp: palm_ok_def)
  show "well_made (GetPenMovement p g)"
    using ok l RandomScreenXY_ok [OF assms(1), of s1] RandomScreenXY_ok [OF assms(1), of s2]
    by (auto simp: GetPenMovement_def Let_def r b split: prod.splits intro!: well_made_point well_made_pen_up)
qed

text \<open>
  C24: a gremlin can always go on. On a device whose text functions, windows and buttons are in order,
  the making of an event, and of a movement of the pen, returns, fails no assertion and stays inside
  the buffer of what is to be typed, and leaves the gremlin as it has to be for the next one; what it
  records are events that can be stored and read back.
\<close>

theorem gremlins_can_go_on:
  assumes "palm_ok p" and "gremlin_ok g"
  shows "well_made (GetFakeEvent p g) \<and> well_made (GetPenMovement p g)"
  by (rule events_well_made [OF assms])

definition a_palm :: palm where
  "a_palm = \<lparr>focus = Some (True, 20, 3), intl = False, single_byte = (\<lambda>_. True), next_char = (\<lambda>t i. (0, 1)), char_start = (\<lambda>t i. i),
     encoding = Some 5, extent = (160, 160), line_height = 11, active_window = None,
     form = Some (True, [\<lparr>rect_x = 10, rect_y = 20, rect_width = 30, rect_height = 12\<rparr>]),
     buttons = [\<lparr>rect_x = 0, rect_y = 160, rect_width = 30, rect_height = 30\<rparr>], to_display = (\<lambda>pt. pt), apps = [(True, 0, 77)],
     current_app = (0, 12), switch_fails = False\<rparr>"

definition a_gremlin :: Gremlins where
  "a_gremlin = Gremlins_Initialize 7 100 100 \<lparr>keyProbabilitiesSum = 0, lastPointX = 0, lastPointY = 0, lastPenDown = False, number = 0,
     counter = 0, until = 0, finalUntil = 0, saveUntil = 0, inited = False, catchUp = False, needPenUp = False, charsToType = [],
     gremlinStartTime = 0, gremlinStopTime = 0, gGremlinNext = 1\<rparr>"

lemma an_example_ok: "palm_ok a_palm" "gremlin_ok a_gremlin"
  by (auto simp: palm_ok_def a_palm_def screen_ok_def rect_ok_def object_ok_def on_screen_def point_ok_def)
    (simp add: gremlin_ok_def a_gremlin_def Gremlins_Initialize_def kMaxChars_def)

theorem gremlins_can_go_on_witness:
  "well_made (GetFakeEvent a_palm a_gremlin) \<and> well_made (GetPenMovement a_palm a_gremlin)"
  by (rule gremlins_can_go_on [OF an_example_ok])

end
