(* ===== verification/GremlinFiles.thy ===== *)
theory GremlinFiles
  imports Gremlins PlaybackResults
begin

text \<open>
  A gremlin in a session file (\<open>CGremlins.cpp\<close>, \<open>EmStructs.h\<close>): the chunk that \<open>Save\<close> writes and
  \<open>Load\<close> reads. The lists of databases go through the operators for vectors of \<open>EmStream.h\<close>.
\<close>

section \<open>Databases and the settings of a gremlin\<close>

record DatabaseInfo =
  creator :: uint32
  db_type :: uint32
  version :: uint16
  dbID :: uint32
  cardNo :: uint16
  modDate :: uint32
  dbAttrs :: uint16
  db_name :: "uint8 list"

definition dmDBNameLength :: nat where "dmDBNameLength = 32"

definition put_cstring :: "'s stream_ops \<Rightarrow> uint8 list \<Rightarrow> 's \<Rightarrow> 's option" where
  "put_cstring ops x s = map_option snd (WriteCString ops x s)"

text \<open>What is read into a buffer of \<open>n\<close> bytes, as a string.\<close>

definition get_cstring :: "'s stream_ops \<Rightarrow> nat \<Rightarrow> 's \<Rightarrow> (uint8 list \<times> 's) option" where
  "get_cstring ops n s = do { (_, buf, s) \<leftarrow> ReadCString ops (replicate n 0) s; Some (c_str buf, s) }"

definition put_DatabaseInfo :: "'s stream_ops \<Rightarrow> DatabaseInfo \<Rightarrow> 's \<Rightarrow> 's option" where
  "put_DatabaseInfo ops i s = do {
     s \<leftarrow> put_uint32 ops (creator i) s;
     s \<leftarrow> put_uint32 ops (db_type i) s;
     s \<leftarrow> put_uint16 ops (version i) s;
     s \<leftarrow> put_uint32 ops 0 s;
     s \<leftarrow> put_uint16 ops 0 s;
     s \<leftarrow> put_uint32 ops 0 s;
     s \<leftarrow> put_uint16 ops 0 s;
     put_cstring ops [] s }"

definition get_DatabaseInfo :: "'s stream_ops \<Rightarrow> 's \<Rightarrow> (DatabaseInfo \<times> 's) option" where
  "get_DatabaseInfo ops s = do {
     (c, s) \<leftarrow> get_uint32 ops s;
     (t, s) \<leftarrow> get_uint32 ops s;
     (v, s) \<leftarrow> get_uint16 ops s;
     (d, s) \<leftarrow> get_uint32 ops s;
     (n, s) \<leftarrow> get_uint16 ops s;
     (m, s) \<leftarrow> get_uint32 ops s;
     (a, s) \<leftarrow> get_uint16 ops s;
     (name, s) \<leftarrow> get_cstring ops dmDBNameLength s;
     Some (\<lparr>creator = c, db_type = t, version = v, dbID = d, cardNo = n, modDate = m, dbAttrs = a, db_name = name\<rparr>, s) }"

text \<open>Vectors: the number of the elements, which \<open>resize\<close> refuses when it is negative, and the elements.\<close>

fun put_elements :: "('v \<Rightarrow> 's \<Rightarrow> 's option) \<Rightarrow> 'v list \<Rightarrow> 's \<Rightarrow> 's option" where
  "put_elements wr [] s = Some s"
| "put_elements wr (x # xs) s = do { s \<leftarrow> wr x s; put_elements wr xs s }"

definition put_vector :: "'s stream_ops \<Rightarrow> ('v \<Rightarrow> 's \<Rightarrow> 's option) \<Rightarrow> 'v list \<Rightarrow> 's \<Rightarrow> 's option" where
  "put_vector ops wr xs s = do { s \<leftarrow> put_uint32 ops (of_nat (length xs)) s; put_elements wr xs s }"

fun get_elements :: "('s \<Rightarrow> ('v \<times> 's) option) \<Rightarrow> nat \<Rightarrow> 's \<Rightarrow> ('v list \<times> 's) option" where
  "get_elements rd 0 s = Some ([], s)"
| "get_elements rd (Suc n) s = do { (x, s) \<leftarrow> rd s; (xs, s) \<leftarrow> get_elements rd n s; Some (x # xs, s) }"

definition get_vector :: "'s stream_ops \<Rightarrow> ('s \<Rightarrow> ('v \<times> 's) option) \<Rightarrow> 's \<Rightarrow> ('v list \<times> 's) option" where
  "get_vector ops rd s = do {
     (numElements, s) \<leftarrow> get_uint32 ops s;
     if sint numElements < 0 then None else get_elements rd (nat (sint numElements)) s }"

text \<open>The settings; those that are not in the file have the values of the constructor when it is read.\<close>

record GremlinInfo =
  fNumber :: uint32
  fSteps :: uint32
  fFinal :: uint32
  fSaveFrequency :: uint32
  fAppList :: "DatabaseInfo list"

definition GremlinInfo_new :: GremlinInfo where
  "GremlinInfo_new = \<lparr>fNumber = 0, fSteps = - 1, fFinal = - 1, fSaveFrequency = 10000, fAppList = []\<rparr>"

definition put_GremlinInfo :: "'s stream_ops \<Rightarrow> GremlinInfo \<Rightarrow> 's \<Rightarrow> 's option" where
  "put_GremlinInfo ops i s = do {
     s \<leftarrow> put_uint32 ops (fNumber i) s;
     s \<leftarrow> put_uint32 ops (fSteps i) s;
     s \<leftarrow> put_vector ops (put_DatabaseInfo ops) (fAppList i) s;
     s \<leftarrow> put_bool ops False s;
     s \<leftarrow> put_bool ops False s;
     put_bool ops False s }"

definition get_GremlinInfo :: "'s stream_ops \<Rightarrow> GremlinInfo \<Rightarrow> 's \<Rightarrow> (GremlinInfo \<times> 's) option" where
  "get_GremlinInfo ops i s = do {
     (n, s) \<leftarrow> get_uint32 ops s;
     (k, s) \<leftarrow> get_uint32 ops s;
     (l, s) \<leftarrow> get_vector ops (get_DatabaseInfo ops) s;
     (_, s) \<leftarrow> get_bool ops s;
     (_, s) \<leftarrow> get_bool ops s;
     (_, s) \<leftarrow> get_bool ops s;
     Some (i\<lparr>fNumber := n, fSteps := k, fAppList := l\<rparr>, s) }"

section \<open>The gremlin\<close>

text \<open>A \<open>Boolean\<close> of the Palm headers is an unsigned character.\<close>

definition Boolean :: "bool \<Rightarrow> uint8" where
  "Boolean b = (if b then 1 else 0)"

text \<open>
  \<open>now\<close> is \<open>GetMilliseconds\<close>; whether the horde is on and the list of applications are globals of
  the hordes. The order of the two coordinates is that of the source.
\<close>

definition put_Gremlins :: "'s stream_ops \<Rightarrow> bool \<Rightarrow> Gremlins \<Rightarrow> 's \<Rightarrow> 's option" where
  "put_Gremlins ops hordesIsOn g s = do {
     s \<leftarrow> put_uint16 ops (keyProbabilitiesSum g) s;
     s \<leftarrow> put_uint16 ops (lastPointY g) s;
     s \<leftarrow> put_uint16 ops (lastPointX g) s;
     s \<leftarrow> put_uint8 ops (Boolean (lastPenDown g)) s;
     s \<leftarrow> put_uint16 ops (number g) s;
     s \<leftarrow> put_uint32 ops (counter g) s;
     s \<leftarrow> put_uint32 ops (finalUntil g) s;
     s \<leftarrow> put_uint32 ops (saveUntil g) s;
     s \<leftarrow> put_uint8 ops (Boolean (inited g)) s;
     s \<leftarrow> put_uint8 ops (Boolean (catchUp g)) s;
     s \<leftarrow> put_uint8 ops (Boolean (needPenUp g)) s;
     s \<leftarrow> put_cstring ops (charsToType g) s;
     s \<leftarrow> put_bool ops hordesIsOn s;
     s \<leftarrow> put_uint32 ops (gremlinStartTime g) s;
     s \<leftarrow> put_uint32 ops (gremlinStopTime g) s;
     put_uint32 ops (gGremlinNext g) s }"

definition Gremlins_Save :: "uint32 \<Rightarrow> bool \<Rightarrow> uint32 \<Rightarrow> DatabaseInfo list \<Rightarrow> Gremlins \<Rightarrow> (Chunk \<times> Gremlins) option" where
  "Gremlins_Save now hordesIsOn frequency appList g = do {
     let g = g\<lparr>gremlinStopTime := now\<rparr>;
     s \<leftarrow> put_uint32 chunk_stream 2 (EmStreamChunk_new Chunk_new);
     s \<leftarrow> put_Gremlins chunk_stream hordesIsOn g s;
     let info = \<lparr>fNumber = ucast (number g), fSteps = until g, fFinal = finalUntil g, fSaveFrequency = frequency, fAppList = appList\<rparr>;
     s \<leftarrow> put_GremlinInfo chunk_stream info s;
     Some (fChunk s, g) }"

definition get_Gremlins :: "'s stream_ops \<Rightarrow> Gremlins \<Rightarrow> 's \<Rightarrow> ((bool \<times> Gremlins) \<times> 's) option" where
  "get_Gremlins ops g s = do {
     (sum, s) \<leftarrow> get_uint16 ops s;
     (y, s) \<leftarrow> get_uint16 ops s;
     (x, s) \<leftarrow> get_uint16 ops s;
     (down, s) \<leftarrow> get_uint8 ops s;
     (n, s) \<leftarrow> get_uint16 ops s;
     (c, s) \<leftarrow> get_uint32 ops s;
     (final, s) \<leftarrow> get_uint32 ops s;
     (save, s) \<leftarrow> get_uint32 ops s;
     (ini, s) \<leftarrow> get_uint8 ops s;
     (catch, s) \<leftarrow> get_uint8 ops s;
     (pen, s) \<leftarrow> get_uint8 ops s;
     (chars, s) \<leftarrow> get_cstring ops kMaxChars s;
     (hordesOn, s) \<leftarrow> get_bool ops s;
     (start, s) \<leftarrow> get_uint32 ops s;
     (stop, s) \<leftarrow> get_uint32 ops s;
     (seed, s) \<leftarrow> get_uint32 ops s;
     Some ((hordesOn, g\<lparr>keyProbabilitiesSum := sum, lastPointX := x, lastPointY := y, lastPenDown := down \<noteq> 0, number := n,
       counter := c, finalUntil := final, saveUntil := save, inited := ini \<noteq> 0, catchUp := catch \<noteq> 0, needPenUp := pen \<noteq> 0,
       charsToType := chars, gremlinStartTime := start, gremlinStopTime := stop, gGremlinNext := seed\<rparr>), s) }"

text \<open>
  The result: whether the horde was on, which is indeterminate (\<open>None\<close>) when the file does not say
  it, and the settings, when the file has them, which become a preference.
\<close>

definition Gremlins_Load :: "uint32 \<Rightarrow> Chunk option \<Rightarrow> Gremlins \<Rightarrow> (bool option \<times> GremlinInfo option \<times> Gremlins) option" where
  "Gremlins_Load now chunk g = (case chunk of
       None \<Rightarrow> Some (None, None, g)
     | Some c \<Rightarrow> do {
         (v, s) \<leftarrow> get_uint32 chunk_stream (EmStreamChunk_new c);
         (hordesOn, g, s) \<leftarrow>
           (if sint v \<ge> 1
            then do {
              ((hordesOn, g), s) \<leftarrow> get_Gremlins chunk_stream g s;
              let delta = gremlinStopTime g - gremlinStartTime g;
              Some (Some hordesOn, g\<lparr>until := finalUntil g, gremlinStopTime := now, gremlinStartTime := now - delta,
                keyProbabilitiesSum := 0\<rparr>, s) }
            else Some (None, g, s));
         if sint v \<ge> 2 then do { (info, s) \<leftarrow> get_GremlinInfo chunk_stream GremlinInfo_new s; Some (hordesOn, Some info, g) }
         else Some (hordesOn, None, g) })"

end
