(* ===== verification/GremlinFileProps.thy ===== *)
theory GremlinFileProps
  imports GremlinFiles
begin

text \<open>What a gremlin writes to a session file is read back, but for what the files do not keep.\<close>

section \<open>Bytes\<close>

definition info_bytes :: "DatabaseInfo \<Rightarrow> uint8 list" where
  "info_bytes i = host_long (Canonical (creator i)) @ host_long (Canonical (db_type i)) @ host_short (Canonical_16 (version i)) @
     host_long (Canonical 0) @ host_short (Canonical_16 0) @ host_long (Canonical 0) @ host_short (Canonical_16 0) @ string_flat []"

definition bare :: "DatabaseInfo \<Rightarrow> DatabaseInfo" where
  "bare i = \<lparr>creator = creator i, db_type = db_type i, version = version i, dbID = 0, cardNo = 0, modDate = 0, dbAttrs = 0, db_name = []\<rparr>"

context rw_stream
begin

lemma appends_cstring: "string_good x \<Longrightarrow> appends ok content pos (put_cstring ops x) (string_flat x)"
  using str.flat_put unfolding appends_def put_cstring_def EmStream_WriteString_def by blast

lemma yields_cstring:
  assumes "string_good x" and "length x < n"
  shows "yields ok content pos (get_cstring ops n) (string_flat x) x"
  unfolding yields_def
proof (intro allI impI)
  fix s rest
  assume s: "ok s \<and> drop (pos s) (content s) = string_flat x @ rest"
  let ?n = "of_nat (length x) :: uint32"
  have l: "sint ?n = int (length x)" using assms(1) by (intro sint_length) (simp add: string_good_def)
  obtain t where t: "get_uint32 ops s = Some (?n, t)" "ok t" "content t = content s" "pos t = pos s + 4"
    using u32.flat_get [of s ?n "x @ rest"] s by (auto simp: string_flat_def)
  have "drop (pos t) (content t) = drop 4 (drop (pos s) (content s))" using t by (simp add: add.commute)
  then have dt: "drop (pos t) (content t) = x @ rest" using s by (simp add: string_flat_def)
  then have "length (drop (pos t) (content t)) = length x + length rest" by simp
  then have "pos t + length x \<le> length (content t)" using pos_law [OF t(2)] by simp
  from get_law [OF t(2) this] obtain u where
    u: "GetBytes ops (int (length x)) t = Some (0, x, u)" "ok u" "content u = content t" "pos u = pos t + length x"
    using dt by auto
  have "copy_in (replicate n 0) 0 x = Some (x @ replicate (n - length x) 0)" using assms(2) by (simp add: copy_in_def)
  moreover obtain k where k: "n - length x = Suc k" using assms(2) by (metis Suc_diff_Suc)
  moreover have "copy_in (x @ replicate (Suc k) 0) (int (length x)) [0] = Some (x @ replicate (Suc k) 0)" by (simp add: copy_in_def)
  moreover have "c_str (x @ replicate (Suc k) 0) = x" using c_str_good [OF assms(1)] assms(1)
    by (simp add: c_str_def takeWhile_append string_good_def)
  ultimately have "get_cstring ops n s = Some (x, u)" using t(1) u(1) l by (simp add: get_cstring_def ReadCString_def)
  then show "\<exists>s'. get_cstring ops n s = Some (x, s') \<and> ok s' \<and> content s' = content s \<and> pos s' = pos s + length (string_flat x)"
    using t u by (simp add: string_flat_def)
qed

lemma appends_bool: "appends ok content pos (put_bool ops b) [Boolean b]"
  using put_bytes_end unfolding appends_def put_bool_def Boolean_def by blast

lemma yields_bool: "yields ok content pos (get_bool ops) [Boolean b] b"
  unfolding yields_def get_bool_def using get_bytes_here [of _ "[Boolean b]" _ 1] by (fastforce simp: Boolean_def)

lemma appends_info: "appends ok content pos (put_DatabaseInfo ops i) (info_bytes i)"
proof -
  have "string_good []" by (simp add: string_good_def)
  then show ?thesis unfolding put_DatabaseInfo_def info_bytes_def by (intro appends_then appends_cstring)
qed

lemma yields_info: "yields ok content pos (get_DatabaseInfo ops) (info_bytes i) (bare i)"
proof -
  have "yields ok content pos (get_cstring ops dmDBNameLength) (string_flat []) []"
    by (rule yields_cstring) (simp_all add: string_good_def dmDBNameLength_def)
  from yields_bind [OF this yields_return] show ?thesis unfolding get_DatabaseInfo_def info_bytes_def bare_def
    by (intro yields_then) simp
qed

lemma appends_elements:
  assumes "\<And>x. appends ok content pos (wr x) (bytes x)"
  shows "appends ok content pos (put_elements wr xs) (concat (map bytes xs))"
proof (induction xs)
  case Nil
  show ?case by (simp add: appends_def)
next
  case (Cons x xs)
  show ?case using appends_bind [OF assms Cons.IH] by simp
qed

lemma yields_elements:
  assumes "\<And>x. yields ok content pos rd (bytes x) (f x)"
  shows "yields ok content pos (get_elements rd (length xs)) (concat (map bytes xs)) (map f xs)"
proof (induction xs)
  case Nil
  show ?case by (simp add: yields_def)
next
  case (Cons x xs)
  show ?case using yields_bind [OF assms yields_bind [OF Cons.IH yields_return]] by simp
qed

lemma appends_vector:
  assumes "\<And>x. appends ok content pos (wr x) (bytes x)"
  shows "appends ok content pos (put_vector ops wr xs) (host_long (Canonical (of_nat (length xs))) @ concat (map bytes xs))"
  unfolding put_vector_def by (intro appends_then appends_elements assms)

lemma yields_vector:
  assumes "\<And>x. yields ok content pos rd (bytes x) (f x)" and "length xs < 2 ^ 31"
  shows "yields ok content pos (get_vector ops rd) (host_long (Canonical (of_nat (length xs))) @ concat (map bytes xs)) (map f xs)"
proof -
  have l: "sint (of_nat (length xs) :: uint32) = int (length xs)" by (rule sint_length [OF assms(2)])
  show ?thesis unfolding get_vector_def by (rule yields_then) (simp add: l yields_elements [OF assms(1)])
qed

lemma yields_bool_last: "yields ok content pos (\<lambda>s. get_bool ops s \<bind> (\<lambda>(v, s). Some (w, s))) [Boolean b] w"
  using yields_bind [OF yields_bool yields_return] by simp

end

definition settings_bytes :: "GremlinInfo \<Rightarrow> uint8 list" where
  "settings_bytes i = host_long (Canonical (fNumber i)) @ host_long (Canonical (fSteps i)) @
     (host_long (Canonical (of_nat (length (fAppList i)))) @ concat (map info_bytes (fAppList i))) @ [Boolean False] @ [Boolean False] @ [Boolean False]"

definition gremlin_bytes :: "bool \<Rightarrow> Gremlins \<Rightarrow> uint8 list" where
  "gremlin_bytes on g = host_short (Canonical_16 (keyProbabilitiesSum g)) @ host_short (Canonical_16 (lastPointY g)) @
     host_short (Canonical_16 (lastPointX g)) @ Boolean (lastPenDown g) # host_short (Canonical_16 (number g)) @
     host_long (Canonical (counter g)) @ host_long (Canonical (finalUntil g)) @ host_long (Canonical (saveUntil g)) @
     Boolean (inited g) # Boolean (catchUp g) # Boolean (needPenUp g) # string_flat (charsToType g) @ [Boolean on] @
     host_long (Canonical (gremlinStartTime g)) @ host_long (Canonical (gremlinStopTime g)) @ host_long (Canonical (gGremlinNext g))"

definition types_ok :: "Gremlins \<Rightarrow> bool" where
  "types_ok g \<longleftrightarrow> length (charsToType g) < kMaxChars \<and> 0 \<notin> set (charsToType g)"

lemma types_string: "types_ok g \<Longrightarrow> string_good (charsToType g)"
  by (simp add: types_ok_def string_good_def kMaxChars_def)

context rw_stream
begin

lemma appends_settings: "appends ok content pos (put_GremlinInfo ops i) (settings_bytes i)"
  unfolding put_GremlinInfo_def settings_bytes_def
  by (intro appends_then appends_bind [OF appends_vector] appends_bind [OF appends_bool] appends_info appends_bool)

lemma yields_settings:
  assumes "length (fAppList i) < 2 ^ 31"
  shows "yields ok content pos (get_GremlinInfo ops j) (settings_bytes i)
    (j\<lparr>fNumber := fNumber i, fSteps := fSteps i, fAppList := map bare (fAppList i)\<rparr>)"
  unfolding get_GremlinInfo_def settings_bytes_def
  by (intro yields_then yields_bind [OF yields_vector [OF yields_info assms]] yields_bind [OF yields_bool] yields_bool_last)

lemma appends_gremlin: "types_ok g \<Longrightarrow> appends ok content pos (put_Gremlins ops on g) (gremlin_bytes on g)"
  unfolding put_Gremlins_def gremlin_bytes_def
  by (intro appends_then appends_bind [OF appends_cstring [OF types_string]] appends_bind [OF appends_bool] appends_put)

lemma Boolean_not_0 [simp]: "Boolean b \<noteq> 0 \<longleftrightarrow> b"
  by (simp add: Boolean_def)

lemma yields_gremlin:
  assumes "types_ok g"
  shows "yields ok content pos (get_Gremlins ops h) (gremlin_bytes on g) (on, g\<lparr>until := until h\<rparr>)"
proof -
  have c: "yields ok content pos (get_cstring ops kMaxChars) (string_flat (charsToType g)) (charsToType g)"
    using assms by (intro yields_cstring types_string) (simp_all add: types_ok_def)
  have e: "g\<lparr>until := until h\<rparr> = h\<lparr>keyProbabilitiesSum := keyProbabilitiesSum g, lastPointX := lastPointX g,
      lastPointY := lastPointY g, lastPenDown := Boolean (lastPenDown g) \<noteq> 0, number := number g, counter := counter g,
      finalUntil := finalUntil g, saveUntil := saveUntil g, inited := Boolean (inited g) \<noteq> 0, catchUp := Boolean (catchUp g) \<noteq> 0,
      needPenUp := Boolean (needPenUp g) \<noteq> 0, charsToType := charsToType g, gremlinStartTime := gremlinStartTime g,
      gremlinStopTime := gremlinStopTime g, gGremlinNext := gGremlinNext g\<rparr>" by simp
  show ?thesis unfolding e unfolding get_Gremlins_def gremlin_bytes_def
    by (intro yields_then yields_bind [OF c] yields_bind [OF yields_bool] yields_last)
qed

end

section \<open>The round trip\<close>

lemma Gremlins_Save_eq:
  assumes "types_ok g"
  shows "\<exists>c. Gremlins_Save now on frequency appList g = Some (c, g\<lparr>gremlinStopTime := now\<rparr>) \<and>
    chunk_holds c (host_long (Canonical 2) @ gremlin_bytes on (g\<lparr>gremlinStopTime := now\<rparr>) @
      settings_bytes \<lparr>fNumber = ucast (number g), fSteps = until g, fFinal = finalUntil g, fSaveFrequency = frequency, fAppList = appList\<rparr>)"
proof -
  let ?g = "g\<lparr>gremlinStopTime := now\<rparr>"
  let ?i = "\<lparr>fNumber = ucast (number g), fSteps = until g, fFinal = finalUntil g, fSaveFrequency = frequency, fAppList = appList\<rparr>"
  have t: "types_ok ?g" using assms by (simp add: types_ok_def)
  have "appends chunk_ok chunk_content marker (\<lambda>s. put_uint32 chunk_stream 2 s \<bind> (\<lambda>s. put_Gremlins chunk_stream on ?g s \<bind>
      put_GremlinInfo chunk_stream ?i)) (host_long (Canonical 2) @ gremlin_bytes on ?g @ settings_bytes ?i)"
    by (intro chunk.appends_then chunk.appends_bind [OF chunk.appends_gremlin [OF t]] chunk.appends_settings)
  from this [unfolded appends_def, rule_format, of "EmStreamChunk_new Chunk_new"] new_stream [OF chunk_new_holds] obtain s where
    s: "put_uint32 chunk_stream 2 (EmStreamChunk_new Chunk_new) \<bind> (\<lambda>s. put_Gremlins chunk_stream on ?g s \<bind> put_GremlinInfo chunk_stream ?i) = Some s"
      "chunk_ok s" "chunk_content s = host_long (Canonical 2) @ gremlin_bytes on ?g @ settings_bytes ?i" by auto
  have "Gremlins_Save now on frequency appList g = Some (fChunk s, ?g)"
    using s(1) by (auto simp: Gremlins_Save_def Let_def bind_eq_Some_conv)
  then show ?thesis using chunk_holds_stream [OF s(2)] s(3) by auto
qed

lemma Gremlins_Load_eq:
  assumes "types_ok g" and "length (fAppList i) < 2 ^ 31"
    and "chunk_holds c (host_long (Canonical 2) @ gremlin_bytes on g @ settings_bytes i)"
  shows "Gremlins_Load now (Some c) h = Some (Some on,
    Some (GremlinInfo_new\<lparr>fNumber := fNumber i, fSteps := fSteps i, fAppList := map bare (fAppList i)\<rparr>),
    g\<lparr>until := finalUntil g, gremlinStopTime := now, gremlinStartTime := now - (gremlinStopTime g - gremlinStartTime g), keyProbabilitiesSum := 0\<rparr>)"
proof -
  let ?s = "EmStreamChunk_new c"
  note n = new_stream [OF assms(3)]
  note y = chunk.yields_get(3) chunk.yields_gremlin [OF assms(1)] chunk.yields_settings [OF assms(2)]
  obtain s where s: "get_uint32 chunk_stream ?s = Some (2, s)" "chunk_ok s" "chunk_content s = chunk_content ?s" "marker s = marker ?s + 4"
    using y(1) [of 2] n unfolding yields_def by fastforce
  have ds: "drop (marker s) (chunk_content s) = gremlin_bytes on g @ settings_bytes i" using s(3,4) n by simp
  obtain t where t: "get_Gremlins chunk_stream h s = Some ((on, g\<lparr>until := until h\<rparr>), t)" "chunk_ok t"
      "chunk_content t = chunk_content s" "marker t = marker s + length (gremlin_bytes on g)"
    using y(2) [of h on] s(2) ds unfolding yields_def by blast
  have "drop (marker t) (chunk_content t) = settings_bytes i @ []"
    using ds t(3,4) by (metis append_Nil2 append_eq_conv_conj drop_drop add.commute)
  then obtain u where u: "get_GremlinInfo chunk_stream GremlinInfo_new t =
      Some (GremlinInfo_new\<lparr>fNumber := fNumber i, fSteps := fSteps i, fAppList := map bare (fAppList i)\<rparr>, u)"
    using y(3) [of GremlinInfo_new] t(2) unfolding yields_def by blast
  show ?thesis by (simp add: Gremlins_Load_def s(1) t(1) u Let_def)
qed

text \<open>
  C12: a gremlin survives the session file. What \<open>Save\<close> has written at any time is read at any later
  time, into whatever gremlin there is, as the gremlin that was saved, with its random numbers, its
  event, the pen and the text it was typing, and whether the horde was on; it goes on to its last event,
  and the time it has run for is kept. Of the applications only creator, type and version come back.
\<close>

theorem gremlin_round_trip:
  assumes "types_ok g" and "length appList < 2 ^ 31"
  shows "\<exists>c. Gremlins_Save now on frequency appList g = Some (c, g\<lparr>gremlinStopTime := now\<rparr>) \<and>
    (\<forall>later h. Gremlins_Load later (Some c) h = Some (Some on,
      Some (GremlinInfo_new\<lparr>fNumber := ucast (number g), fSteps := until g, fAppList := map bare appList\<rparr>),
      g\<lparr>until := finalUntil g, gremlinStopTime := later, gremlinStartTime := later - (now - gremlinStartTime g), keyProbabilitiesSum := 0\<rparr>))"
proof -
  obtain c where c: "Gremlins_Save now on frequency appList g = Some (c, g\<lparr>gremlinStopTime := now\<rparr>)"
    "chunk_holds c (host_long (Canonical 2) @ gremlin_bytes on (g\<lparr>gremlinStopTime := now\<rparr>) @
      settings_bytes \<lparr>fNumber = ucast (number g), fSteps = until g, fFinal = finalUntil g, fSaveFrequency = frequency, fAppList = appList\<rparr>)"
    using Gremlins_Save_eq [OF assms(1)] by blast
  have "types_ok (g\<lparr>gremlinStopTime := now\<rparr>)" using assms(1) by (simp add: types_ok_def)
  from Gremlins_Load_eq [OF this _ c(2)] c(1) assms(2) show ?thesis by simp
qed

definition a_saved_gremlin :: Gremlins where
  "a_saved_gremlin = \<lparr>keyProbabilitiesSum = 900, lastPointX = 12, lastPointY = 40, lastPenDown = True, number = 7, counter = 58, until = 100,
     finalUntil = 2000, saveUntil = 100, inited = True, catchUp = False, needPenUp = True, charsToType = [0x45, 0x74],
     gremlinStartTime = 5000, gremlinStopTime = 0, gGremlinNext = 0x12345678\<rparr>"

theorem gremlin_round_trip_witness:
  "\<exists>c. Gremlins_Save 9000 True 0 [] a_saved_gremlin = Some (c, a_saved_gremlin\<lparr>gremlinStopTime := 9000\<rparr>) \<and>
    (\<forall>later h. Gremlins_Load later (Some c) h = Some (Some True,
      Some (GremlinInfo_new\<lparr>fNumber := ucast (number a_saved_gremlin), fSteps := until a_saved_gremlin, fAppList := map bare []\<rparr>),
      a_saved_gremlin\<lparr>until := finalUntil a_saved_gremlin, gremlinStopTime := later,
        gremlinStartTime := later - (9000 - gremlinStartTime a_saved_gremlin), keyProbabilitiesSum := 0\<rparr>))"
  by (rule gremlin_round_trip) (simp_all add: types_ok_def a_saved_gremlin_def kMaxChars_def)

end
