(* ===== verification/Hordes.thy ===== *)
theory Hordes
  imports Session GremlinFiles
begin

text \<open>
  Hordes of gremlins (\<open>Hordes.cpp\<close>): every gremlin of a range of numbers is run up to a number of
  events, then the next one, and so on, until each has come to an error or to the last event. A gremlin
  that is interrupted is saved with the session and loaded again when it goes on. The functions here
  change the session, too: saving and loading is scheduled for the end of the cycle (\<open>Session\<close>).

  The state has the globals of the file, with the gremlin, the recorded events and the files. What else
  there is in the emulator, the memory and the processor above all, is a value of type \<open>'m\<close>, which
  is saved and loaded with the session. A call that throws, a failing assertion and an access outside
  of an array are \<open>None\<close>. What is written to the log is left out, but for the report on errors.
\<close>

section \<open>Data\<close>

record HordeInfo =
  fStartNumber :: int
  fStopNumber :: int
  fDepthSwitch :: int
  fDepthSave :: int
  fDepthStop :: int
  fCanSwitch :: bool
  fCanSave :: bool
  fCanStop :: bool
  fHordeAppList :: "DatabaseInfo list"
  fHordeSaveFrequency :: int
  fSwitchDepth :: int
  fMaxDepth :: int
  fFirstLaunchedAppName :: string

definition NewToOld :: "HordeInfo \<Rightarrow> HordeInfo" where
  "NewToOld i = i\<lparr>fSwitchDepth := if fCanSwitch i then fDepthSwitch i else - 1, fHordeSaveFrequency := if fCanSave i then fDepthSave i else 0,
     fMaxDepth := if fCanStop i then fDepthStop i else - 1\<rparr>"

definition OldToNew :: "HordeInfo \<Rightarrow> HordeInfo" where
  "OldToNew i =
     (let i = i\<lparr>fCanSwitch := fSwitchDepth i > 0\<rparr>;
          i = i\<lparr>fDepthSwitch := if fCanSwitch i then fSwitchDepth i else 30000\<rparr>;
          i = i\<lparr>fCanSave := fHordeSaveFrequency i > 0\<rparr>;
          i = i\<lparr>fDepthSave := if fCanSave i then fHordeSaveFrequency i else 10000\<rparr>;
          i = i\<lparr>fCanStop := fMaxDepth i > 0\<rparr>
      in i\<lparr>fDepthStop := if fCanStop i then fMaxDepth i else 1000000\<rparr>)"

definition HordeInfo_new :: HordeInfo where
  "HordeInfo_new = NewToOld \<lparr>fStartNumber = 0, fStopNumber = 0, fDepthSwitch = 30000, fDepthSave = 10000, fDepthStop = 1000000,
     fCanSwitch = False, fCanSave = False, fCanStop = False, fHordeAppList = [], fHordeSaveFrequency = 0, fSwitchDepth = 0, fMaxDepth = 0,
     fFirstLaunchedAppName = []\<rparr>"

record EmGremlinThreadInfo =
  fHalted :: bool
  fErrorEvent :: int
  fMessageID :: int

record EmGremlinErrorFrequencyInfo =
  fCount :: int
  fErrorFrequency :: int
  fFirstErrantGremlinIndex :: int

definition MAXGREMLINS :: int where "MAXGREMLINS = 999"

text \<open>Files of the horde's directory, by the parts of their names that vary.\<close>

datatype HordeFileType = kHordeProgressFile | kHordeRootFile | kHordeSuspendFile | kHordeEventFile | kHordeMinimalEventFile
  | kHordeAutoCurrentFile

datatype horde_file = Gremlin_Search_Progress | Gremlin_Root_State | Gremlin_Suspended int | Gremlin_Event int int
  | Gremlin_Events int | Gremlin_Interim_Event_File int uint32

text \<open>A session file: the state of the device, and the chunk of the gremlin.\<close>

record 'm state_file =
  device_state :: 'm
  gremlin_chunk :: Chunk

text \<open>The values that the file of the search's progress has under their names.\<close>

record SearchProgress =
  progress_numbers :: "(string \<times> int) list"
  progress_halted :: string

record ('e, 'b, 'k, 'm) Hordes = "('e, 'b, 'k) EmSession" +
  gTheGremlin :: Gremlins
  gGremlinStartNumber :: int
  gGremlinStopNumber :: int
  gSwitchDepth :: int
  gMaxDepth :: int
  gGremlinSaveFrequency :: int
  gGremlinAppList :: "DatabaseInfo list"
  gCurrentGremlin :: int
  gCurrentDepth :: int
  gIsOn :: bool
  gStartTime :: uint32
  gStopTime :: uint32
  gGremlinHaltedInError :: "EmGremlinThreadInfo list"
  gWarningHappened :: bool
  gErrorHappened :: bool
  gPlayback :: EmEventPlayback
  gMinimizing :: bool
  kPrefKeyGremlinInfo :: GremlinInfo
  gHordeQuitWhenDone :: bool
  gQuitScheduled :: bool
  state_files :: "horde_file \<rightharpoonup> 'm state_file"
  event_files :: "horde_file \<rightharpoonup> 'm state_file \<times> Chunk"
  progress_file :: "SearchProgress option"
  report :: "(int \<times> int \<times> int \<times> int) list"
  emulated :: 'm
  clock :: uint32

text \<open>
  What is called of the emulated system: the globals and clocks that a new gremlin resets, the launch
  of an application and the waking of the device, which may throw, and the posting of an event.
\<close>

record 'm device =
  start_up :: "'m \<Rightarrow> 'm"
  launch :: "DatabaseInfo \<Rightarrow> 'm \<Rightarrow> 'm option"
  wake :: "'m \<Rightarrow> 'm option"
  post :: "palm_call list \<Rightarrow> 'm \<Rightarrow> 'm"

section \<open>Status\<close>

definition InSingleGremlinMode :: "('e, 'b, 'k, 'm) Hordes \<Rightarrow> bool" where
  "InSingleGremlinMode w \<longleftrightarrow> gGremlinStartNumber w = gGremlinStopNumber w"

definition CanStep :: "('e, 'b, 'k, 'm) Hordes \<Rightarrow> bool" where
  "CanStep w \<longleftrightarrow> inited (gTheGremlin w) \<and> \<not> gIsOn w \<and> \<not> gMinimizing w"

definition CanResume :: "('e, 'b, 'k, 'm) Hordes \<Rightarrow> bool" where
  "CanResume w \<longleftrightarrow> inited (gTheGremlin w) \<and> \<not> gIsOn w \<and> \<not> gMinimizing w"

definition CanStop :: "('e, 'b, 'k, 'm) Hordes \<Rightarrow> bool" where
  "CanStop w \<longleftrightarrow> gIsOn w \<and> \<not> gMinimizing w"

definition GremlinNumber :: "('e, 'b, 'k, 'm) Hordes \<Rightarrow> int" where
  "GremlinNumber w = gCurrentGremlin w"

definition EventCounter :: "('e, 'b, 'k, 'm) Hordes \<Rightarrow> int" where
  "EventCounter w = (let (number, step, until) = SStatus (gTheGremlin w) in sint step)"

definition EventLimit :: "('e, 'b, 'k, 'm) Hordes \<Rightarrow> int" where
  "EventLimit w = (let (number, step, until) = SStatus (gTheGremlin w) in sint until)"

definition ElapsedMilliseconds :: "('e, 'b, 'k, 'm) Hordes \<Rightarrow> uint32" where
  "ElapsedMilliseconds w = (if gIsOn w then clock w - gStartTime w else gStopTime w - gStartTime w)"

definition SuggestFileName :: "HordeFileType \<Rightarrow> uint32 \<Rightarrow> ('e, 'b, 'k, 'm) Hordes \<Rightarrow> horde_file" where
  "SuggestFileName category num w = (case category of
       kHordeProgressFile \<Rightarrow> Gremlin_Search_Progress
     | kHordeRootFile \<Rightarrow> Gremlin_Root_State
     | kHordeSuspendFile \<Rightarrow> Gremlin_Suspended (GremlinNumber w)
     | kHordeAutoCurrentFile \<Rightarrow>
         if gGremlinSaveFrequency w = 0 then Gremlin_Event (GremlinNumber w) (EventCounter w)
         else Gremlin_Event (GremlinNumber w) ((EventCounter w sdiv gGremlinSaveFrequency w) * gGremlinSaveFrequency w)
     | kHordeEventFile \<Rightarrow> Gremlin_Events (GremlinNumber w)
     | kHordeMinimalEventFile \<Rightarrow> Gremlin_Interim_Event_File (sint num) (clock w))"

definition GetAppList :: "DatabaseInfo list \<Rightarrow> ('e, 'b, 'k, 'm) Hordes \<Rightarrow> DatabaseInfo list \<times> ('e, 'b, 'k, 'm) Hordes" where
  "GetAppList installed w =
     (let same = (\<lambda>a i. creator a = creator i \<and> db_type a = db_type i \<and> version a = version i);
          w = (case gGremlinAppList w of
                 [] \<Rightarrow> w
               | front # _ \<Rightarrow>
                   if dbID front = 0
                   then w\<lparr>gGremlinAppList := map (\<lambda>a. case find (same a) installed of None \<Rightarrow> a | Some i \<Rightarrow> i) (gGremlinAppList w)\<rparr>
                   else w)
      in (gGremlinAppList w, w))"

definition CanSwitchToApp :: "DatabaseInfo list \<Rightarrow> uint16 \<Rightarrow> uint32 \<Rightarrow> ('e, 'b, 'k, 'm) Hordes \<Rightarrow> bool \<times> ('e, 'b, 'k, 'm) Hordes" where
  "CanSwitchToApp installed cardNumber db w =
     (if gGremlinAppList w = [] then (True, w)
      else (let (l, w) = GetAppList installed w in (list_ex (\<lambda>i. cardNo i = cardNumber \<and> dbID i = db) l, w)))"

section \<open>Turning on and off, saving and loading\<close>

definition Hordes_TurnOn :: "bool \<Rightarrow> ('e, 'b, 'k, 'm) Hordes \<Rightarrow> ('e, 'b, 'k, 'm) Hordes" where
  "Hordes_TurnOn hordesOn w = w\<lparr>gIsOn := hordesOn, gPlayback := RecordEvents hordesOn (gPlayback w)\<rparr>"

definition Gremlins_Stop :: "('e, 'b, 'k, 'm) Hordes \<Rightarrow> ('e, 'b, 'k, 'm) Hordes" where
  "Gremlins_Stop w =
     (if gIsOn w
      then (let w = Hordes_TurnOn False w in w\<lparr>gTheGremlin := (gTheGremlin w)\<lparr>gremlinStopTime := clock w\<rparr>\<rparr>)
      else w)"

definition Hordes_Stop :: "('e, 'b, 'k, 'm) Hordes \<Rightarrow> ('e, 'b, 'k, 'm) Hordes" where
  "Hordes_Stop w = Gremlins_Stop (w\<lparr>gStopTime := clock w\<rparr>)"

definition Hordes_Initialize :: "('e, 'b, 'k, 'm) Hordes \<Rightarrow> ('e, 'b, 'k, 'm) Hordes" where
  "Hordes_Initialize w = w\<lparr>gTheGremlin := Gremlins_Reset (gTheGremlin w)\<rparr>"

definition Hordes_Reset :: "('e, 'b, 'k, 'm) Hordes \<Rightarrow> ('e, 'b, 'k, 'm) Hordes" where
  "Hordes_Reset w = (let w = Hordes_Stop w in w\<lparr>gTheGremlin := Gremlins_Reset (gTheGremlin w)\<rparr>)"

text \<open>
  \<open>EmSession::Save\<close> and \<open>Load\<close> with the name of a file, as far as the gremlin goes
  (\<open>Hordes::Save\<close>, \<open>Hordes::Load\<close>). A file that is not there cannot be opened (\<open>False\<close>). A
  horde that is turned on or off by an indeterminate value is \<open>None\<close>.
\<close>

definition EmSession_Save :: "horde_file \<Rightarrow> ('e, 'b, 'k, 'm) Hordes \<Rightarrow> ('e, 'b, 'k, 'm) Hordes option" where
  "EmSession_Save ref w = do {
     (c, g) \<leftarrow> Gremlins_Save (clock w) (gIsOn w) (word_of_int (gGremlinSaveFrequency w)) (gGremlinAppList w) (gTheGremlin w);
     Some (w\<lparr>gTheGremlin := g, state_files := (state_files w)(ref \<mapsto> \<lparr>device_state = emulated w, gremlin_chunk = c\<rparr>)\<rparr>) }"

definition EmSession_Load :: "horde_file \<Rightarrow> ('e, 'b, 'k, 'm) Hordes \<Rightarrow> (bool \<times> ('e, 'b, 'k, 'm) Hordes) option" where
  "EmSession_Load ref w = (case state_files w ref of
       None \<Rightarrow> Some (False, w)
     | Some f \<Rightarrow> do {
         (on, info, g) \<leftarrow> Gremlins_Load (clock w) (Some (gremlin_chunk f)) (gTheGremlin w);
         on \<leftarrow> on;
         Some (True, Hordes_TurnOn on (w\<lparr>emulated := device_state f, gTheGremlin := g,
           kPrefKeyGremlinInfo := (case info of None \<Rightarrow> kPrefKeyGremlinInfo w | Some i \<Rightarrow> i)\<rparr>)) })"

definition AutoSaveState :: "('e, 'b, 'k, 'm) Hordes \<Rightarrow> ('e, 'b, 'k, 'm) Hordes option" where
  "AutoSaveState w = EmSession_Save (SuggestFileName kHordeAutoCurrentFile 0 w) w"

definition SaveRootState :: "('e, 'b, 'k, 'm) Hordes \<Rightarrow> ('e, 'b, 'k, 'm) Hordes option" where
  "SaveRootState w = (let hordesWasOn = gIsOn w; w = (if hordesWasOn then Hordes_TurnOn False w else w)
     in map_option (Hordes_TurnOn hordesWasOn) (EmSession_Save (SuggestFileName kHordeRootFile 0 w) w))"

definition LoadState :: "horde_file \<Rightarrow> ('e, 'b, 'k, 'm) Hordes \<Rightarrow> (bool \<times> ('e, 'b, 'k, 'm) Hordes) option" where
  "LoadState ref w = do { (ok, w) \<leftarrow> EmSession_Load ref w; Some (if ok then (True, w) else (False, Hordes_TurnOn False w)) }"

definition LoadRootState :: "('e, 'b, 'k, 'm) Hordes \<Rightarrow> (bool \<times> ('e, 'b, 'k, 'm) Hordes) option" where
  "LoadRootState w = do {
     (ok, w) \<leftarrow> LoadState (SuggestFileName kHordeRootFile 0 w) w;
     Some (if ok then (True, w\<lparr>gPlayback := Playback_Clear (gPlayback w)\<rparr>) else (False, w)) }"

text \<open>The file of events begins with a copy of the file of the root state.\<close>

definition Hordes_SaveEvents :: "('e, 'b, 'k, 'm) Hordes \<Rightarrow> ('e, 'b, 'k, 'm) Hordes option" where
  "Hordes_SaveEvents w = do {
     root \<leftarrow> state_files w (SuggestFileName kHordeRootFile 0 w);
     history \<leftarrow> SaveEvents (gPlayback w);
     Some (w\<lparr>event_files := (event_files w)(SuggestFileName kHordeEventFile 0 w \<mapsto> (root, history))\<rparr>) }"

definition Hordes_LoadEvents :: "('e, 'b, 'k, 'm) Hordes \<Rightarrow> ('e, 'b, 'k, 'm) Hordes option" where
  "Hordes_LoadEvents w = do {
     (root, history) \<leftarrow> event_files w (SuggestFileName kHordeEventFile 0 w);
     p \<leftarrow> LoadEvents (Some history) (gPlayback w);
     Some (w\<lparr>gPlayback := p\<rparr>) }"

definition SaveSuspendedState :: "('e, 'b, 'k, 'm) Hordes \<Rightarrow> ('e, 'b, 'k, 'm) Hordes option" where
  "SaveSuspendedState w = do { w \<leftarrow> EmSession_Save (SuggestFileName kHordeSuspendFile 0 w) w; Hordes_SaveEvents w }"

definition LoadSuspendedState :: "('e, 'b, 'k, 'm) Hordes \<Rightarrow> (bool \<times> ('e, 'b, 'k, 'm) Hordes) option" where
  "LoadSuspendedState w = do {
     (ok, w) \<leftarrow> LoadState (SuggestFileName kHordeSuspendFile 0 w) w;
     if ok then do { w \<leftarrow> Hordes_LoadEvents w; Some (True, w) } else Some (False, w) }"

text \<open>The flags of the halted gremlins as a string; \<open>c_str\<close> ends with a zero, behind which nothing may be read.\<close>

definition GremlinsFlagsToString :: "EmGremlinThreadInfo list \<Rightarrow> string option" where
  "GremlinsFlagsToString hs =
     (if nat MAXGREMLINS \<le> length hs
      then Some (map (\<lambda>i. if fHalted i then CHR ''1'' else CHR ''0'') (take (nat MAXGREMLINS) hs)) else None)"

definition GremlinsFlagsFromString :: "string \<Rightarrow> EmGremlinThreadInfo list \<Rightarrow> EmGremlinThreadInfo list option" where
  "GremlinsFlagsFromString inFlags hs =
     (if nat MAXGREMLINS \<le> length inFlags + 1 \<and> nat MAXGREMLINS \<le> length hs
      then Some (map (\<lambda>ii. if ii < nat MAXGREMLINS
             then (hs ! ii)\<lparr>fHalted := ii < length inFlags \<and> inFlags ! ii = CHR ''1''\<rparr> else hs ! ii) [0..<length hs])
      else None)"

definition SaveSearchProgress :: "('e, 'b, 'k, 'm) Hordes \<Rightarrow> ('e, 'b, 'k, 'm) Hordes option" where
  "SaveSearchProgress w = do {
     flags \<leftarrow> GremlinsFlagsToString (gGremlinHaltedInError w);
     Some (w\<lparr>progress_file := Some \<lparr>progress_numbers =
       [(''gGremlinStartNumber'', gGremlinStartNumber w), (''gGremlinStopNumber'', gGremlinStopNumber w),
        (''gSwitchDepth'', gSwitchDepth w), (''gMaxDepth'', gMaxDepth w), (''gGremlinSaveFrequency'', gGremlinSaveFrequency w),
        (''gCurrentGremlin'', gCurrentGremlin w), (''gCurrentDepth'', gCurrentDepth w), (''gStartTime'', uint (gStartTime w)),
        (''gStopTime'', uint (gStopTime w))], progress_halted = flags\<rparr>\<rparr>) }"

definition ResumeSearchProgress :: "SearchProgress \<Rightarrow> ('e, 'b, 'k, 'm) Hordes \<Rightarrow> ('e, 'b, 'k, 'm) Hordes option" where
  "ResumeSearchProgress f w = do {
     let num = (\<lambda>key old. case map_of (progress_numbers f) key of None \<Rightarrow> old | Some v \<Rightarrow> v);
     hs \<leftarrow> GremlinsFlagsFromString (progress_halted f) (gGremlinHaltedInError w);
     let start = word_of_int (num ''gStartTime'' (uint (gStartTime w)));
     let stop = word_of_int (num ''gStopTime'' (uint (gStopTime w)));
     let delta = stop - start;
     Some (w\<lparr>gGremlinStartNumber := num ''gGremlinStartNumber'' (gGremlinStartNumber w),
       gGremlinStopNumber := num ''gGremlinStopNumber'' (gGremlinStopNumber w),
       gSwitchDepth := num ''gSwitchDepth'' (gSwitchDepth w), gMaxDepth := num ''gMaxDepth'' (gMaxDepth w),
       gGremlinSaveFrequency := num ''gGremlinSaveFrequency'' (gGremlinSaveFrequency w),
       gCurrentGremlin := num ''gCurrentGremlin'' (gCurrentGremlin w), gCurrentDepth := num ''gCurrentDepth'' (gCurrentDepth w),
       gGremlinHaltedInError := hs, gStopTime := clock w, gStartTime := clock w - delta\<rparr>) }"

section \<open>Statistics\<close>

text \<open>
  The statistics have the least and the greatest event of an error, their average, the standard
  deviation and the gremlin with the least. Sums are of 32 bits and wrap around. The root of
  \<open>math.h\<close> is cut to an integer; that of a negative number has no value (\<open>None\<close>).
\<close>

function root_from :: "nat \<Rightarrow> nat \<Rightarrow> nat" where
  "root_from k n = (if (k + 1) * (k + 1) \<le> n then root_from (k + 1) n else k)"
  by pat_completeness auto
termination
proof (relation "measure (\<lambda>(k, n). n - k)")
  fix k n :: nat
  assume "(k + 1) * (k + 1) \<le> n"
  moreover have "k < (k + 1) * (k + 1)" by simp
  ultimately have "k < n" by (rule less_le_trans [rotated])
  then show "((k + 1, n), (k, n)) \<in> measure (\<lambda>(k, n). n - k)" by simp
qed simp

declare root_from.simps [simp del]

definition no_error :: int where "no_error = 0x7FFFFFFF"

fun statistics_loop :: "EmGremlinThreadInfo list \<Rightarrow> int list \<Rightarrow> int \<times> int \<times> int \<times> int \<times> int \<Rightarrow> (int \<times> int \<times> int \<times> int \<times> int) option" where
  "statistics_loop hs [] acc = Some acc"
| "statistics_loop hs (c # cs) (sum0, mn, mx, errorCounter, smallest) = do {
     info \<leftarrow> peek hs c;
     let n = fErrorEvent info;
     let mx = (if n > mx then n else mx);
     let mn = (if n < mn \<and> n > 0 then n else mn);
     (errorCounter, smallest) \<leftarrow>
       (if n \<noteq> 0
        then (if smallest = no_error then Some (errorCounter + 1, c)
              else do { s \<leftarrow> peek hs smallest; Some (errorCounter + 1, if n < fErrorEvent s then c else smallest) })
        else Some (errorCounter, smallest));
     statistics_loop hs cs (c_int (sum0 + n), mn, mx, errorCounter, smallest) }"

fun deviation_loop :: "EmGremlinThreadInfo list \<Rightarrow> int \<Rightarrow> int list \<Rightarrow> int \<Rightarrow> int option" where
  "deviation_loop hs avg [] acc = Some acc"
| "deviation_loop hs avg (c # cs) acc = do {
     info \<leftarrow> peek hs c;
     let d = c_int (fErrorEvent info - avg);
     deviation_loop hs avg cs (c_int (acc + c_int (d * d))) }"

definition ComputeStatistics :: "('e, 'b, 'k, 'm) Hordes \<Rightarrow> (int \<times> int \<times> int \<times> int option \<times> int) option" where
  "ComputeStatistics w =
     (if \<not> gGremlinStartNumber w \<le> gGremlinStopNumber w then None
      else do {
        let cs = [gGremlinStartNumber w..gGremlinStopNumber w];
        (sum0, mn, mx, errorCounter, smallest) \<leftarrow> statistics_loop (gGremlinHaltedInError w) cs (0, no_error, 0, 0, no_error);
        if sum0 > 0 \<and> errorCounter > 0
        then do {
          let avg = sum0 sdiv errorCounter;
          diff \<leftarrow> deviation_loop (gGremlinHaltedInError w) avg cs 0;
          let diff = diff sdiv MAXGREMLINS;
          Some (mn, mx, avg, if diff < 0 then None else Some (int (root_from 0 (nat diff))), smallest) }
        else Some (mn, mx, 0, Some 0, smallest) })"

text \<open>
  The report: for every kind of error, the most frequent ones first, how many gremlins it has halted,
  and which one of them after how many events. An error outside of the table is an access outside of
  it (\<open>None\<close>).
\<close>

definition errorBase :: int where "errorBase = 1000"
definition errorLast :: int where "errorLast = 1199"

definition no_errors :: "EmGremlinErrorFrequencyInfo list" where
  "no_errors = replicate (nat (errorLast - errorBase + 1)) \<lparr>fCount = 0, fErrorFrequency = 0, fFirstErrantGremlinIndex = - 1\<rparr>"

fun report_loop :: "EmGremlinThreadInfo list \<Rightarrow> int list \<Rightarrow> EmGremlinErrorFrequencyInfo list \<times> int \<times> int \<Rightarrow>
    (EmGremlinErrorFrequencyInfo list \<times> int \<times> int) option" where
  "report_loop hs [] acc = Some acc"
| "report_loop hs (c # cs) (arr, numGremlinsWithError, highestFrequency) = do {
     info \<leftarrow> peek hs c;
     acc \<leftarrow>
       (if fHalted info
        then do {
          let errorTypeNumber = fMessageID info - errorBase;
          e \<leftarrow> peek arr errorTypeNumber;
          let e = e\<lparr>fErrorFrequency := fErrorFrequency e + 1\<rparr>;
          let lastSmallIndex = fFirstErrantGremlinIndex e;
          if lastSmallIndex = - 1
          then Some (arr[nat errorTypeNumber := e\<lparr>fCount := fErrorEvent info, fFirstErrantGremlinIndex := c\<rparr>],
                     numGremlinsWithError + 1, highestFrequency)
          else do {
            l \<leftarrow> peek hs lastSmallIndex;
            Some (arr[nat errorTypeNumber := if fErrorEvent info < fErrorEvent l
                        then e\<lparr>fCount := fErrorEvent info, fFirstErrantGremlinIndex := c\<rparr> else e],
                  numGremlinsWithError + 1, highestFrequency + 1) } }
        else Some (arr, numGremlinsWithError, highestFrequency));
     report_loop hs cs acc }"

definition report_lines :: "EmGremlinErrorFrequencyInfo list \<Rightarrow> int \<Rightarrow> (int \<times> int \<times> int \<times> int) list" where
  "report_lines arr highestFrequency =
     concat (map (\<lambda>frequency. concat (map (\<lambda>errorNumber.
         let e = arr ! nat (errorNumber - errorBase)
         in if fErrorFrequency e = frequency then [(frequency, errorNumber, fFirstErrantGremlinIndex e, fCount e)] else [])
       [errorBase..errorLast])) (rev [1..highestFrequency]))"

definition GremlinReport :: "('e, 'b, 'k, 'm) Hordes \<Rightarrow> (int \<times> int \<times> int \<times> int) list option" where
  "GremlinReport w =
     (if \<not> gGremlinStartNumber w \<le> gGremlinStopNumber w then None
      else do {
        (arr, numGremlinsWithError, highestFrequency) \<leftarrow>
          report_loop (gGremlinHaltedInError w) [gGremlinStartNumber w..gGremlinStopNumber w] (no_errors, 0, 1);
        Some (if numGremlinsWithError = 0 then [] else report_lines arr highestFrequency) })"

section \<open>The order of the gremlins\<close>

definition EndHordes :: "('e, 'b, 'k, 'm) Hordes \<Rightarrow> ('e, 'b, 'k, 'm) Hordes option" where
  "EndHordes w = do {
     let w = Hordes_TurnOn True w;
     _ \<leftarrow> ComputeStatistics w;
     r \<leftarrow> GremlinReport w;
     let w = Hordes_TurnOn False (w\<lparr>report := r\<rparr>);
     let w = w\<lparr>gPlayback := Playback_Clear (gPlayback w)\<rparr>;
     let w = (if \<not> InSingleGremlinMode w then ScheduleDuty duty.LoadRootState w else w);
     Some (if gHordeQuitWhenDone w then w\<lparr>gQuitScheduled := True\<rparr> else w\<lparr>gWarningHappened := False, gErrorHappened := False\<rparr>) }"

definition ProposeNextGremlin :: "('e, 'b, 'k, 'm) Hordes \<Rightarrow> int \<Rightarrow> int \<Rightarrow> int \<times> int" where
  "ProposeNextGremlin w inFromGremlin inFromDepth =
     (if inFromGremlin + 1 = gGremlinStopNumber w + 1
      then (gGremlinStartNumber w, if inFromDepth \<ge> 0 then inFromDepth + 1 else inFromDepth)
      else (inFromGremlin + 1, inFromDepth))"

text \<open>The next gremlin that has not halted, or \<open>Some None\<close> when they all have.\<close>

partial_function (option) next_gremlin_loop :: "('e, 'b, 'k, 'm) Hordes \<Rightarrow> int \<Rightarrow> int \<Rightarrow> (int \<times> int) option option" where
  "next_gremlin_loop w nextGremlin nextDepth = do {
     info \<leftarrow> peek (gGremlinHaltedInError w) nextGremlin;
     if fHalted info
     then (if nextGremlin = gCurrentGremlin w \<and> nextDepth \<ge> gCurrentDepth w + 1 then Some None
           else (let (g, d) = ProposeNextGremlin w nextGremlin nextDepth in next_gremlin_loop w g d))
     else Some (Some (nextGremlin, nextDepth)) }"

declare next_gremlin_loop.simps [code]

definition NextGremlin :: "('e, 'b, 'k, 'm) Hordes \<Rightarrow> ('e, 'b, 'k, 'm) Hordes option" where
  "NextGremlin w = do {
     w \<leftarrow> SaveSearchProgress (Hordes_Stop w);
     let (g, d) = ProposeNextGremlin w (gCurrentGremlin w) (gCurrentDepth w);
     next \<leftarrow> next_gremlin_loop w g d;
     case next of
       None \<Rightarrow> EndHordes w
     | Some (nextGremlin, nextDepth) \<Rightarrow> do {
         let w = w\<lparr>gCurrentGremlin := nextGremlin, gCurrentDepth := nextDepth\<rparr>;
         if gMaxDepth w \<noteq> - 1 \<and> gSwitchDepth w = 0 then None
         else if gMaxDepth w \<noteq> - 1 \<and>
           (nextDepth > gMaxDepth w sdiv gSwitchDepth w \<or>
            nextDepth = gMaxDepth w sdiv gSwitchDepth w \<and> gMaxDepth w smod gSwitchDepth w = 0)
         then EndHordes w
         else Some (ScheduleDuty (if nextDepth = 0 then NextGremlinFromRootState else NextGremlinFromSuspendedState) w) } }"

section \<open>Starting, stopping and stepping\<close>

definition Gremlins_New :: "'m device \<Rightarrow> GremlinInfo \<Rightarrow> ('e, 'b, 'k, 'm) Hordes \<Rightarrow> ('e, 'b, 'k, 'm) Hordes option" where
  "Gremlins_New dev info w = do {
     m \<leftarrow> (case fAppList info of [] \<Rightarrow> Some (emulated w) | a # _ \<Rightarrow> launch dev a (emulated w));
     let g = Gremlins_Initialize (ucast (fNumber info)) (fSteps info) (fFinal info) (gTheGremlin w);
     m \<leftarrow> wake dev (start_up dev m);
     let w = Hordes_TurnOn True (w\<lparr>emulated := m, gTheGremlin := g\<lparr>gremlinStartTime := clock w\<rparr>\<rparr>);
     Some (if fSaveFrequency info \<noteq> 0 then ScheduleDuty duty.AutoSaveState w else w) }"

definition current_info :: "('e, 'b, 'k, 'm) Hordes \<Rightarrow> GremlinInfo" where
  "current_info w = \<lparr>fNumber = word_of_int (gCurrentGremlin w),
     fSteps = word_of_int (if gMaxDepth w = - 1 then gSwitchDepth w else min (gSwitchDepth w) (gMaxDepth w)),
     fFinal = word_of_int (gMaxDepth w), fSaveFrequency = word_of_int (gGremlinSaveFrequency w), fAppList = gGremlinAppList w\<rparr>"

text \<open>The files of a new horde go to a directory of their own.\<close>

definition UseNewAutoSaveDirectory :: "('e, 'b, 'k, 'm) Hordes \<Rightarrow> ('e, 'b, 'k, 'm) Hordes" where
  "UseNewAutoSaveDirectory w = w\<lparr>state_files := Map.empty, event_files := Map.empty, progress_file := None\<rparr>"

definition no_halts :: "EmGremlinThreadInfo list" where
  "no_halts = replicate (nat (MAXGREMLINS + 1)) \<lparr>fHalted = False, fErrorEvent = 0, fMessageID = - 1\<rparr>"

definition Hordes_New :: "'m device \<Rightarrow> HordeInfo \<Rightarrow> ('e, 'b, 'k, 'm) Hordes \<Rightarrow> ('e, 'b, 'k, 'm) Hordes option" where
  "Hordes_New dev info w = do {
     let w = w\<lparr>gGremlinStartNumber := min (fStartNumber info) (fStopNumber info),
               gGremlinStopNumber := max (fStartNumber info) (fStopNumber info)\<rparr>;
     let w = w\<lparr>gSwitchDepth := (if fSwitchDepth info = - 1 \<or> gGremlinStartNumber w = gGremlinStopNumber w
                 then fMaxDepth info else fSwitchDepth info),
               gMaxDepth := fMaxDepth info, gGremlinSaveFrequency := fHordeSaveFrequency info, gGremlinAppList := fHordeAppList info,
               gCurrentDepth := 0, gCurrentGremlin := gGremlinStartNumber w\<rparr>;
     let w = (if gSwitchDepth w = 0 then w\<lparr>gSwitchDepth := - 1\<rparr> else w);
     let w = (if gMaxDepth w = 0 then w\<lparr>gMaxDepth := - 1\<rparr> else w);
     let w = w\<lparr>gGremlinHaltedInError := no_halts, gStartTime := clock w\<rparr>;
     w \<leftarrow> Gremlins_New dev (current_info w) w;
     let w = UseNewAutoSaveDirectory w;
     let w = w\<lparr>gPlayback := Playback_Clear (gPlayback w)\<rparr>;
     w \<leftarrow> SaveRootState (Hordes_TurnOn False w);
     let w = Hordes_TurnOn True w;
     Some (w\<lparr>gWarningHappened := False, gErrorHappened := False\<rparr>) }"

definition NewGremlin :: "'m device \<Rightarrow> GremlinInfo \<Rightarrow> ('e, 'b, 'k, 'm) Hordes \<Rightarrow> ('e, 'b, 'k, 'm) Hordes option" where
  "NewGremlin dev info = Hordes_New dev (HordeInfo_new\<lparr>fStartNumber := sint (fNumber info), fStopNumber := sint (fNumber info),
     fSwitchDepth := sint (fSteps info), fMaxDepth := sint (fSteps info), fHordeSaveFrequency := sint (fSaveFrequency info),
     fHordeAppList := fAppList info\<rparr>)"

definition StartGremlinFromLoadedRootState :: "'m device \<Rightarrow> ('e, 'b, 'k, 'm) Hordes \<Rightarrow> ('e, 'b, 'k, 'm) Hordes option" where
  "StartGremlinFromLoadedRootState dev w = Gremlins_New dev (current_info w) w"

definition StartGremlinFromLoadedSuspendedState :: "('e, 'b, 'k, 'm) Hordes \<Rightarrow> ('e, 'b, 'k, 'm) Hordes" where
  "StartGremlinFromLoadedSuspendedState w =
     (let newUntil = c_int (gSwitchDepth w * (gCurrentDepth w + 1));
          newUntil = (if gMaxDepth w \<noteq> - 1 then min newUntil (gMaxDepth w) else newUntil)
      in Hordes_TurnOn True (w\<lparr>gTheGremlin := SetUntil (word_of_int newUntil) (gTheGremlin w)\<rparr>))"

text \<open>The current gremlin's error, and the end of its turn.\<close>

definition ErrorEncountered :: "('e, 'b, 'k, 'm) Hordes \<Rightarrow> ('e, 'b, 'k, 'm) Hordes option" where
  "ErrorEncountered w = do {
     let errorGremlin = GremlinNumber w;
     w \<leftarrow> AutoSaveState w;
     info \<leftarrow> peek (gGremlinHaltedInError w) errorGremlin;
     let w = w\<lparr>gGremlinHaltedInError := (gGremlinHaltedInError w)[nat errorGremlin := info\<lparr>fHalted := True\<rparr>]\<rparr>;
     w \<leftarrow> Hordes_SaveEvents w;
     NextGremlin w }"

definition RecordErrorStats :: "int \<Rightarrow> ('e, 'b, 'k, 'm) Hordes \<Rightarrow> ('e, 'b, 'k, 'm) Hordes option" where
  "RecordErrorStats messageID w =
     (if gIsOn w
      then do {
        let errorGremlin = GremlinNumber w;
        let errorEvent = EventCounter w - 1;
        info \<leftarrow> peek (gGremlinHaltedInError w) errorGremlin;
        let w = (if fMessageID info = - 1
                 then w\<lparr>gGremlinHaltedInError := (gGremlinHaltedInError w)[nat errorGremlin := info\<lparr>fErrorEvent := errorEvent,
                         fMessageID := (if messageID \<noteq> - 1 then messageID else fMessageID info)\<rparr>]\<rparr> else w);
        if gMinimizing w then None else Some w }
      else Some w)"

definition StopEventReached :: "('e, 'b, 'k, 'm) Hordes \<Rightarrow> ('e, 'b, 'k, 'm) Hordes option" where
  "StopEventReached w = do { w \<leftarrow> Hordes_SaveEvents w; NextGremlin w }"

text \<open>Commands of the user, and a session file that the user opens.\<close>

definition Hordes_Step :: "'m device \<Rightarrow> ('e, 'b, 'k, 'm) Hordes \<Rightarrow> ('e, 'b, 'k, 'm) Hordes option" where
  "Hordes_Step dev w =
     (if \<not> gIsOn w
      then do {
        let w = Hordes_TurnOn True w;
        let w = w\<lparr>gCurrentDepth := gMaxDepth w, gGremlinStartNumber := gCurrentGremlin w, gGremlinStopNumber := gCurrentGremlin w,
                  gTheGremlin := Gremlins_Step (gTheGremlin w)\<rparr>;
        m \<leftarrow> wake dev (emulated w);
        Some (w\<lparr>emulated := m\<rparr>) }
      else Some w)"

text \<open>\<open>calibrate\<close> is \<open>ResetCalibrationInfo\<close>.\<close>

definition Hordes_Resume :: "'m device \<Rightarrow> ('m \<Rightarrow> 'm) \<Rightarrow> ('e, 'b, 'k, 'm) Hordes \<Rightarrow> ('e, 'b, 'k, 'm) Hordes option" where
  "Hordes_Resume dev calibrate w =
     (if \<not> gIsOn w
      then do {
        let w = Hordes_TurnOn True w;
        let w = w\<lparr>gStartTime := clock w - (gStopTime w - gStartTime w),
                  gTheGremlin := Gremlins_Resume (clock w) (RestoreFinalUntil (gTheGremlin w))\<rparr>;
        m \<leftarrow> wake dev (calibrate (emulated w));
        Some (w\<lparr>emulated := m\<rparr>) }
      else Some w)"

definition PostLoad :: "('e, 'b, 'k, 'm) Hordes \<Rightarrow> ('e, 'b, 'k, 'm) Hordes" where
  "PostLoad w =
     (let info = kPrefKeyGremlinInfo w;
          w = w\<lparr>gGremlinStartNumber := sint (fNumber info), gGremlinStopNumber := sint (fNumber info),
                gCurrentGremlin := sint (fNumber info), gSwitchDepth := sint (fSteps info), gMaxDepth := sint (fSteps info),
                gGremlinSaveFrequency := sint (fSaveFrequency info), gGremlinAppList := fAppList info, gCurrentDepth := 0,
                gStartTime := gremlinStartTime (gTheGremlin w), gStopTime := gremlinStopTime (gTheGremlin w)\<rparr>
      in if gIsOn w then ScheduleDuty duty.SaveRootState (UseNewAutoSaveDirectory w) else w)"

section \<open>Posting events\<close>

definition Hordes_BumpCounter :: "('e, 'b, 'k, 'm) Hordes \<Rightarrow> ('e, 'b, 'k, 'm) Hordes" where
  "Hordes_BumpCounter w =
     (let w = w\<lparr>gTheGremlin := Gremlins_BumpCounter (gTheGremlin w)\<rparr>;
          w = (if gGremlinSaveFrequency w \<noteq> 0 \<and> EventCounter w smod gGremlinSaveFrequency w = 0
               then ScheduleDuty duty.AutoSaveState w else w)
      in if EventLimit w > 0 \<and> EventLimit w = EventCounter w then ScheduleDuty duty.SaveSuspendedState w else w)"

text \<open>What a gremlin has made up is recorded, posted to the device, and the gremlin is as it is afterwards.\<close>

definition made_event :: "'m device \<Rightarrow> made_up \<Rightarrow> ('e, 'b, 'k, 'm) Hordes \<Rightarrow> (bool \<times> ('e, 'b, 'k, 'm) Hordes) option" where
  "made_event dev made w = do {
     (result, events, calls, g) \<leftarrow> made;
     pb \<leftarrow> record_all events (gPlayback w);
     Some (result, w\<lparr>gTheGremlin := g, gPlayback := pb, emulated := post dev calls (emulated w)\<rparr>) }"

definition PostFakeEvent :: "'m device \<Rightarrow> palm \<Rightarrow> ('e, 'b, 'k, 'm) Hordes \<Rightarrow> (bool \<times> ('e, 'b, 'k, 'm) Hordes) option" where
  "PostFakeEvent dev p w =
     (if EventLimit w > 0 \<and> EventCounter w > EventLimit w
      then do { w \<leftarrow> StopEventReached w; Some (False, w) }
      else do { (result, w) \<leftarrow> made_event dev (GetFakeEvent p (gTheGremlin w)) w; Some (result, Hordes_BumpCounter w) })"

definition PostFakePenEvent :: "'m device \<Rightarrow> palm \<Rightarrow> ('e, 'b, 'k, 'm) Hordes \<Rightarrow> ('e, 'b, 'k, 'm) Hordes option" where
  "PostFakePenEvent dev p w = do {
     let w = Hordes_BumpCounter w;
     (_, w) \<leftarrow> made_event dev (GetPenMovement p (gTheGremlin w)) w;
     Some w }"

definition Hordes_SendCharsToType :: "'m device \<Rightarrow> palm \<Rightarrow> ('e, 'b, 'k, 'm) Hordes \<Rightarrow> (bool \<times> ('e, 'b, 'k, 'm) Hordes) option" where
  "Hordes_SendCharsToType dev p w = made_event dev (Gremlins_SendCharsToType p (gTheGremlin w)) w"

section \<open>The processor's part\<close>

text \<open>
  The end of a cycle does what the hordes have scheduled (\<open>EmSession::ExecuteSpecial\<close>); what else it
  may do is a parameter. A turn is what the emulated software brings about: it asks for an event or for
  the pen (\<open>EmPatchMgr::PuppetString\<close>), comes to an error that ends the gremlin
  (\<open>Errors::DoDialog\<close>, \<open>EmExceptionNextGremlin\<close>), or goes on by itself for a while. Scheduling
  marks the end of the cycle, which follows at once.
\<close>

definition horde_duties :: "'m device \<Rightarrow> ('e, ('e, 'b, 'k, 'm) Hordes) duty_ops \<Rightarrow> ('e, ('e, 'b, 'k, 'm) Hordes) duty_ops" where
  "horde_duties dev others = others\<lparr>Hordes_AutoSaveState := AutoSaveState, Hordes_SaveRootState := SaveRootState,
     Hordes_SaveSuspendedState := SaveSuspendedState, Hordes_LoadRootState := LoadRootState,
     Hordes_StartFromRoot := StartGremlinFromLoadedRootState dev, Hordes_LoadSuspendedState := LoadSuspendedState,
     Hordes_StartFromSuspended := (\<lambda>w. Some (StartGremlinFromLoadedSuspendedState w)), Hordes_TurnOff := Hordes_TurnOn False\<rparr>"

definition end_of_cycle :: "'m device \<Rightarrow> ('e, ('e, 'b, 'k, 'm) Hordes) duty_ops \<Rightarrow> ('e, 'b, 'k, 'm) Hordes \<Rightarrow> ('e, 'b, 'k, 'm) Hordes option" where
  "end_of_cycle dev others w = map_option snd (EmSession_ExecuteSpecial (horde_duties dev others) False w)"

datatype 'm turn = AskEvent palm | AskPen palm | Error int | Go 'm uint32

definition take_turn :: "'m device \<Rightarrow> ('e, ('e, 'b, 'k, 'm) Hordes) duty_ops \<Rightarrow> 'm turn \<Rightarrow> ('e, 'b, 'k, 'm) Hordes \<Rightarrow>
    ('e, 'b, 'k, 'm) Hordes option" where
  "take_turn dev others t w = (case t of
       AskEvent p \<Rightarrow> if gIsOn w then do { (_, w) \<leftarrow> PostFakeEvent dev p w; end_of_cycle dev others w } else Some w
     | AskPen p \<Rightarrow> if gIsOn w then do { w \<leftarrow> PostFakePenEvent dev p w; end_of_cycle dev others w } else Some w
     | Error messageID \<Rightarrow>
         if gIsOn w then do { w \<leftarrow> RecordErrorStats messageID w; w \<leftarrow> ErrorEncountered w; end_of_cycle dev others w } else Some w
     | Go m now \<Rightarrow> Some (w\<lparr>emulated := m, clock := now\<rparr>))"

fun take_turns :: "'m device \<Rightarrow> ('e, ('e, 'b, 'k, 'm) Hordes) duty_ops \<Rightarrow> 'm turn list \<Rightarrow> ('e, 'b, 'k, 'm) Hordes \<Rightarrow>
    ('e, 'b, 'k, 'm) Hordes option" where
  "take_turns dev others [] w = Some w"
| "take_turns dev others (t # ts) w = do { w \<leftarrow> take_turn dev others t w; take_turns dev others ts w }"

end
