(* ===== verification/HordeFiles.thy ===== *)
theory HordeFiles
  imports Hordes GremlinEvents GremlinFileProps
begin

text \<open>
  What the operations of a horde rest on: making an event keeps the numbers of the gremlin, what is
  saved to a file comes back from it, and the search for the next gremlin.
\<close>

section \<open>Gremlins\<close>

text \<open>The part of a gremlin that says how far it has come.\<close>

definition limits :: "Gremlins \<Rightarrow> uint32 \<times> uint32 \<times> uint32 \<times> bool \<times> uint16" where
  "limits g = (counter g, until g, finalUntil g, inited g, number g)"

definition keeps_limits :: "Gremlins \<Rightarrow> made_up \<Rightarrow> bool" where
  "keeps_limits g m \<longleftrightarrow> (case m of None \<Rightarrow> True | Some (posted, es, calls, g') \<Rightarrow> limits g' = limits g)"

lemma keeps_limits_simps [simp]:
  "keeps_limits g None" "keeps_limits g (Some (posted, es, calls, g')) = (limits g' = limits g)"
  by (simp_all add: keeps_limits_def)

lemma limits_other [simp]:
  "limits (g\<lparr>gGremlinNext := s\<rparr>) = limits g" "limits (g\<lparr>needPenUp := b\<rparr>) = limits g" "limits (g\<lparr>catchUp := b\<rparr>) = limits g"
  "limits (g\<lparr>keyProbabilitiesSum := n\<rparr>) = limits g" "limits (g\<lparr>lastPenDown := b\<rparr>) = limits g" "limits (g\<lparr>charsToType := t\<rparr>) = limits g"
  "limits (g\<lparr>lastPointX := x\<rparr>) = limits g" "limits (g\<lparr>lastPointY := x\<rparr>) = limits g" "limits (g\<lparr>gremlinStopTime := u\<rparr>) = limits g"
  "limits (g\<lparr>gremlinStartTime := v\<rparr>) = limits g"
  by (simp_all add: limits_def)

lemma keeps_limits_bind: "(\<And>x. m = Some x \<Longrightarrow> keeps_limits g (f x)) \<Longrightarrow> keeps_limits g (Option.bind m f)"
  by (cases m) simp_all

lemma keeps_post_key [simp]: "keeps_limits g (post_key a k m h) = (limits h = limits g)"
  by (simp add: post_key_def)

lemma keeps_post_point [intro]: "limits h = limits g \<Longrightarrow> keeps_limits g (post_point pt h)"
  by (simp add: post_point_def Let_def)

lemma keeps_SendCharsToType [intro]: "limits h = limits g \<Longrightarrow> keeps_limits g (Gremlins_SendCharsToType p h)"
  by (auto simp: Gremlins_SendCharsToType_def intro!: keeps_limits_bind)

lemma keeps_type_quote: "keeps_limits g (type_quote p g)"
proof -
  have "limits g' = limits g" if "Gremlins_SendCharsToType p h = Some (r, es, cs, g')" "limits h = limits g" for r es cs g' h
    using keeps_SendCharsToType [OF that(2), of p] that(1) by simp
  then show ?thesis unfolding type_quote_def Let_def by (auto intro!: keeps_limits_bind)
qed

lemma keeps_choose_event: "keeps_limits g (choose_event p g)"
proof -
  have k: "limits h = limits g \<Longrightarrow> keeps_limits g (type_quote p h)" for h
    using keeps_type_quote [of h p] by (simp add: keeps_limits_def split: option.splits prod.splits)
  have "limits h = limits g \<Longrightarrow> keeps_limits g (type_key p h)" "limits h = limits g \<Longrightarrow> keeps_limits g (switch_app p h)" for h
    by (auto simp: type_key_def switch_app_def Let_def split: prod.split)
  then show ?thesis using k by (auto simp: choose_event_def Let_def split: prod.split intro!: keeps_limits_bind keeps_post_point)
qed

lemma keeps_GetFakeEvent: "keeps_limits g (GetFakeEvent p g)"
proof -
  let ?m = "if catchUp g then Some (False, [kRecordedNullEvent], [], g\<lparr>catchUp := False\<rparr>)
     else if needPenUp g then post_point (- 1, - 1) (g\<lparr>lastPenDown := False, needPenUp := False\<rparr>)
     else if charsToType g \<noteq> [] then Gremlins_SendCharsToType p g else choose_event p g"
  have "keeps_limits g ?m" using keeps_choose_event by (auto intro!: keeps_SendCharsToType keeps_post_point)
  then show ?thesis by (cases ?m) (auto simp: GetFakeEvent_def)
qed

lemma keeps_GetPenMovement: "keeps_limits g (GetPenMovement p g)"
  by (auto simp: GetPenMovement_def Let_def split: prod.split intro!: keeps_post_point)

text \<open>Making an event as the horde needs it: at most one event is recorded.\<close>

lemma made_up_ok:
  assumes "well_made m" and "alike m" and "keeps_limits g m"
  shows "\<exists>r es calls g'. m = Some (r, es, calls, g') \<and> gremlin_ok g' \<and> limits g' = limits g \<and> length es \<le> 1 \<and> (\<forall>e\<in>set es. storable e)"
proof -
  obtain r es calls g' where m: "m = Some (r, es, calls, g')" "gremlin_ok g'" "\<forall>e\<in>set es. storable e" using assms(1) by (auto simp: well_made_def)
  moreover have "length es \<le> 1" using assms(2) m(1) by (auto simp: alike_def replays_alike_def split: list.splits)
  ultimately show ?thesis using assms(3) by simp
qed

lemma gremlin_types: "gremlin_ok g \<Longrightarrow> types_ok g"
  by (simp add: gremlin_ok_def types_ok_def)

lemma gremlin_ok_times [simp]:
  "gremlin_ok (g\<lparr>gremlinStopTime := t\<rparr>) = gremlin_ok g" "gremlin_ok (g\<lparr>gremlinStartTime := t\<rparr>) = gremlin_ok g"
  "gremlin_ok (g\<lparr>counter := c\<rparr>) = gremlin_ok g" "gremlin_ok (g\<lparr>until := c\<rparr>) = gremlin_ok g" "gremlin_ok (g\<lparr>saveUntil := c\<rparr>) = gremlin_ok g"
  by (simp_all add: gremlin_ok_def)

section \<open>Files\<close>

definition holds_gremlin :: "Chunk \<Rightarrow> bool \<Rightarrow> Gremlins \<Rightarrow> bool" where
  "holds_gremlin c on g \<longleftrightarrow> (\<exists>i. length (fAppList i) < 2 ^ 31 \<and>
     chunk_holds c (host_long (Canonical 2) @ gremlin_bytes on g @ settings_bytes i))"

definition reloaded :: "uint32 \<Rightarrow> Gremlins \<Rightarrow> Gremlins" where
  "reloaded now g = g\<lparr>until := finalUntil g, gremlinStopTime := now,
     gremlinStartTime := now - (gremlinStopTime g - gremlinStartTime g), keyProbabilitiesSum := 0\<rparr>"

lemma EmSession_Save_ok:
  assumes "gremlin_ok (gTheGremlin w)" and "length (gGremlinAppList w) < 2 ^ 31"
  shows "\<exists>c. EmSession_Save ref w = Some (w\<lparr>gTheGremlin := (gTheGremlin w)\<lparr>gremlinStopTime := clock w\<rparr>,
      state_files := (state_files w)(ref \<mapsto> \<lparr>device_state = emulated w, gremlin_chunk = c\<rparr>)\<rparr>) \<and>
    holds_gremlin c (gIsOn w) ((gTheGremlin w)\<lparr>gremlinStopTime := clock w\<rparr>)"
proof -
  obtain c where "Gremlins_Save (clock w) (gIsOn w) (word_of_int (gGremlinSaveFrequency w)) (gGremlinAppList w) (gTheGremlin w) =
      Some (c, (gTheGremlin w)\<lparr>gremlinStopTime := clock w\<rparr>)"
    "holds_gremlin c (gIsOn w) ((gTheGremlin w)\<lparr>gremlinStopTime := clock w\<rparr>)"
    using Gremlins_Save_eq [OF gremlin_types [OF assms(1)]] assms(2) unfolding holds_gremlin_def by fastforce
  then show ?thesis by (intro exI [of _ c]) (simp add: EmSession_Save_def)
qed

lemma EmSession_Load_ok:
  assumes "state_files w ref = Some f" and "holds_gremlin (gremlin_chunk f) on g" and "gremlin_ok g"
  shows "\<exists>i. EmSession_Load ref w = Some (True, Hordes_TurnOn on (w\<lparr>emulated := device_state f, gTheGremlin := reloaded (clock w) g,
    kPrefKeyGremlinInfo := i\<rparr>))"
  using assms(2) Gremlins_Load_eq [OF gremlin_types [OF assms(3)], of _ "gremlin_chunk f" on "clock w" "gTheGremlin w"]
  by (auto simp: holds_gremlin_def EmSession_Load_def assms(1) reloaded_def)

lemma reloaded_limits [simp]: "limits (reloaded now g) = (counter g, finalUntil g, finalUntil g, inited g, number g)"
  by (simp add: reloaded_def limits_def)

lemma reloaded_ok [simp]: "gremlin_ok (reloaded now g) = gremlin_ok g"
  by (simp add: reloaded_def)

text \<open>The events that are in the recorder, and in a file: as many as the events that were asked for.\<close>

definition recorded_up_to :: "nat \<Rightarrow> EmEventPlayback \<Rightarrow> bool" where
  "recorded_up_to k p \<longleftrightarrow> (\<exists>es. stored p es \<and> length es \<le> k)"

definition history_of :: "EmRecordedEvent list \<Rightarrow> Chunk \<Rightarrow> bool" where
  "history_of es c \<longleftrightarrow> length (bytes_of es) < 2 ^ 31 \<and> (\<forall>e\<in>set es. storable e) \<and>
     chunk_holds c (host_long (Canonical kCurrentVersion) @ host_long (Canonical (of_nat (length (bytes_of es)))) @ bytes_of es)"

lemma recorded_mono: "recorded_up_to k p \<Longrightarrow> k \<le> l \<Longrightarrow> recorded_up_to l p"
  by (auto simp: recorded_up_to_def)

lemma stored_recorded: "stored p es \<Longrightarrow> length es \<le> k \<Longrightarrow> recorded_up_to k p"
  by (auto simp: recorded_up_to_def)

lemma stored_RecordEvents [simp]: "stored (RecordEvents b p) es = stored p es"
  by (simp add: RecordEvents_def stored_def)

lemma stored_Clear: "recorded_up_to k p \<Longrightarrow> stored (Playback_Clear p) []"
  by (auto simp: recorded_up_to_def Playback_Clear_def ResetPlayback_def stored_def chunk_holds_def Chunk_SetLength_def)

lemma recorded_RecordEvents [simp]: "recorded_up_to k (RecordEvents b p) = recorded_up_to k p"
  by (simp add: recorded_up_to_def RecordEvents_def stored_def)

lemma recorded_Clear: "recorded_up_to k p \<Longrightarrow> recorded_up_to l (Playback_Clear p)"
  using stored_Clear by (fastforce simp: recorded_up_to_def)

lemma record_all_ok:
  assumes "stored p ds" and "fgRecording p" and "\<forall>e\<in>set es. storable e"
  shows "\<exists>q. record_all es p = Some q \<and> stored q (ds @ es) \<and> fgRecording q"
proof -
  obtain c where c: "record_all es p = Some (p\<lparr>fgEvents := c, fgMask := fgMask p @ replicate (length es) True\<rparr>)" "chunk_holds c (bytes_of (ds @ es))"
    using record_all_stored [OF assms] by blast
  have "stored (p\<lparr>fgEvents := c, fgMask := fgMask p @ replicate (length es) True\<rparr>) (ds @ es)"
    using c(2) assms(1,3) by (auto simp: stored_def)
  then show ?thesis using c(1) assms(2) by fastforce
qed

lemma SaveEvents_ok:
  assumes "recorded_up_to k p" and "13 * k < 2 ^ 31"
  shows "\<exists>c. SaveEvents p = Some c \<and> (\<forall>es. stored p es \<longrightarrow> history_of es c)"
proof -
  obtain ds where ds: "stored p ds" "length ds \<le> k" using assms(1) by (auto simp: recorded_up_to_def)
  have saved: "\<exists>c. SaveEvents p = Some c \<and> history_of es c" if "stored p es" for es
  proof -
    have "length es \<le> k" using that ds by (simp add: stored_def)
    then have b: "length (bytes_of es) < 2 ^ 31" using bytes_of_length [of es] assms(2) by linarith
    have "chunk_holds (fgEvents p) (bytes_of es)" "\<forall>e\<in>set es. storable e" using that by (simp_all add: stored_def)
    then show ?thesis using SaveEvents_eq [OF _ b, of p] b unfolding history_of_def by blast
  qed
  from saved [OF ds(1)] obtain c where "SaveEvents p = Some c" by blast
  then show ?thesis using saved by fastforce
qed

lemma LoadEvents_ok:
  assumes "history_of es c" and "recorded_up_to l p"
  shows "\<exists>q. LoadEvents (Some c) p = Some q \<and> stored q es \<and> fgRecording q = fgRecording p"
proof -
  obtain ds where ds: "chunk_holds (fgEvents p) ds" using assms(2) by (auto simp: recorded_up_to_def stored_def)
  have es: "length (bytes_of es) < 2 ^ 31" "\<forall>e\<in>set es. storable e"
    "chunk_holds c (host_long (Canonical kCurrentVersion) @ host_long (Canonical (of_nat (length (bytes_of es)))) @ bytes_of es)"
    using assms(1) by (auto simp: history_of_def)
  obtain d where d: "LoadEvents (Some c) p = Some (p\<lparr>fgEvents := d, fgMask := replicate (length es) True\<rparr>)" "chunk_holds d (bytes_of es)"
    using LoadEvents_eq [OF es(3,1,2) ds] by blast
  then have "stored (p\<lparr>fgEvents := d, fgMask := replicate (length es) True\<rparr>) es" using es(2) by (simp add: stored_def)
  then show ?thesis using d(1) by auto
qed

section \<open>The next gremlin\<close>

abbreviation halted :: "('e, 'b, 'k, 'm) Hordes \<Rightarrow> int \<Rightarrow> bool" where
  "halted w n \<equiv> fHalted (gGremlinHaltedInError w ! nat n)"

text \<open>
  The next gremlin that has not halted is one with a greater number, or else, one level deeper, one
  that has not, and all between have halted.
\<close>

definition next_gremlin :: "('e, 'b, 'k, 'm) Hordes \<Rightarrow> (int \<times> int) option \<Rightarrow> bool" where
  "next_gremlin w r = (let a = gGremlinStartNumber w; b = gGremlinStopNumber w; cur = gCurrentGremlin w; d = gCurrentDepth w
     in case r of
          None \<Rightarrow> \<forall>n\<in>{a..b}. halted w n
        | Some (g, e) \<Rightarrow> \<not> halted w g \<and>
            (e = d \<and> cur < g \<and> g \<le> b \<and> (\<forall>n\<in>{cur<..<g}. halted w n) \<or>
             e = d + 1 \<and> a \<le> g \<and> g \<le> cur \<and> (\<forall>n\<in>{cur<..b}. halted w n) \<and> (\<forall>n\<in>{a..<g}. halted w n)))"

definition in_range :: "('e, 'b, 'k, 'm) Hordes \<Rightarrow> bool" where
  "in_range w \<longleftrightarrow> 0 \<le> gGremlinStartNumber w \<and> gGremlinStartNumber w \<le> gCurrentGremlin w \<and>
     gCurrentGremlin w \<le> gGremlinStopNumber w \<and> gGremlinStopNumber w \<le> MAXGREMLINS \<and>
     length (gGremlinHaltedInError w) = nat (MAXGREMLINS + 1) \<and> 0 \<le> gCurrentDepth w"

lemma peek_halt:
  assumes "length hs = nat (MAXGREMLINS + 1)" and "0 \<le> n" and "n \<le> MAXGREMLINS"
  shows "peek hs n = Some (hs ! nat n)"
  using assms by (simp add: peek_def MAXGREMLINS_def)

lemma deeper_gremlin:
  assumes "in_range w" and "gGremlinStartNumber w \<le> g" and "g \<le> gCurrentGremlin w"
    and "\<forall>n\<in>{gCurrentGremlin w<..gGremlinStopNumber w}. halted w n" and "\<forall>n\<in>{gGremlinStartNumber w..<g}. halted w n"
  shows "\<exists>r. next_gremlin_loop w g (gCurrentDepth w + 1) = Some r \<and> next_gremlin w r"
  using assms(2,3,5)
proof (induction "nat (gCurrentGremlin w - g)" arbitrary: g)
  case 0
  then have g: "g = gCurrentGremlin w" by simp
  have p: "peek (gGremlinHaltedInError w) g = Some (gGremlinHaltedInError w ! nat g)"
    using assms(1) g by (intro peek_halt) (auto simp: in_range_def)
  have "halted w n" if "halted w g" "n \<in> {gGremlinStartNumber w..gGremlinStopNumber w}" for n
    using 0 assms(4) g that by (cases n g rule: linorder_cases) auto
  then show ?case using 0 assms(4) p g by (subst next_gremlin_loop.simps) (simp add: next_gremlin_def Let_def)
next
  case (Suc k)
  have p: "peek (gGremlinHaltedInError w) g = Some (gGremlinHaltedInError w ! nat g)"
    using assms(1) Suc.prems by (intro peek_halt) (auto simp: in_range_def)
  show ?case
  proof (cases "halted w g")
    case True
    then have "\<forall>n\<in>{gGremlinStartNumber w..<g + 1}. halted w n" using Suc.prems(3)
      by (metis atLeastLessThan_iff linorder_neqE_linordered_idom zless_add1_eq)
    then have "\<exists>r. next_gremlin_loop w (g + 1) (gCurrentDepth w + 1) = Some r \<and> next_gremlin w r"
      using Suc.hyps Suc.prems by (intro Suc.hyps(1)) auto
    moreover have "ProposeNextGremlin w g (gCurrentDepth w + 1) = (g + 1, gCurrentDepth w + 1)" "g \<noteq> gCurrentGremlin w"
      using Suc.hyps(2) assms(1) by (auto simp: ProposeNextGremlin_def in_range_def)
    ultimately show ?thesis using True p by (subst next_gremlin_loop.simps) simp
  next
    case False
    then show ?thesis using Suc.prems assms(4) p by (subst next_gremlin_loop.simps) (simp add: next_gremlin_def Let_def)
  qed
qed

lemma later_gremlin:
  assumes "in_range w" and "gCurrentGremlin w < g" and "g \<le> gGremlinStopNumber w" and "\<forall>n\<in>{gCurrentGremlin w<..<g}. halted w n"
  shows "\<exists>r. next_gremlin_loop w g (gCurrentDepth w) = Some r \<and> next_gremlin w r"
  using assms(2-)
proof (induction "nat (gGremlinStopNumber w - g)" arbitrary: g rule: less_induct)
  case less
  have p: "peek (gGremlinHaltedInError w) g = Some (gGremlinHaltedInError w ! nat g)"
    using assms(1) less.prems by (intro peek_halt) (auto simp: in_range_def)
  show ?case
  proof (cases "halted w g")
    case True
    then have h: "\<forall>n\<in>{gCurrentGremlin w<..<g + 1}. halted w n" using less.prems(3)
      by (metis greaterThanLessThan_iff linorder_neqE_linordered_idom zless_add1_eq)
    have "\<exists>r. next_gremlin_loop w (fst (ProposeNextGremlin w g (gCurrentDepth w))) (snd (ProposeNextGremlin w g (gCurrentDepth w))) = Some r \<and> next_gremlin w r"
    proof (cases "g = gGremlinStopNumber w")
      case True
      then have "\<forall>n\<in>{gCurrentGremlin w<..gGremlinStopNumber w}. halted w n" using h by auto
      then show ?thesis using True assms(1) by (simp add: ProposeNextGremlin_def in_range_def [of w] deeper_gremlin)
    next
      case False
      then have "\<exists>r. next_gremlin_loop w (g + 1) (gCurrentDepth w) = Some r \<and> next_gremlin w r"
        using less.prems h by (intro less.hyps) auto
      then show ?thesis using False by (simp add: ProposeNextGremlin_def)
    qed
    then show ?thesis using True p less.prems(1) by (subst next_gremlin_loop.simps) (auto split: prod.splits)
  next
    case False
    then show ?thesis using less.prems p by (subst next_gremlin_loop.simps) (simp add: next_gremlin_def Let_def)
  qed
qed

lemma the_next_gremlin:
  assumes "in_range w" and "ProposeNextGremlin w (gCurrentGremlin w) (gCurrentDepth w) = (g, d)"
  shows "\<exists>r. next_gremlin_loop w g d = Some r \<and> next_gremlin w r"
proof (cases "gCurrentGremlin w = gGremlinStopNumber w")
  case True
  then show ?thesis using assms by (auto simp: ProposeNextGremlin_def in_range_def intro!: deeper_gremlin)
next
  case False
  then show ?thesis using assms by (auto simp: ProposeNextGremlin_def in_range_def intro!: later_gremlin)
qed

end
