(* ===== verification/HordeInv.thy ===== *)
theory HordeInv
  imports HordeFiles
begin

text \<open>
  What holds of a horde from one turn of the processor to the next: the gremlin that runs, how far it
  has come, and that every other gremlin of the range has halted, or is saved as far as it is to be.
\<close>

section \<open>Horde and files\<close>

definition quiet :: "('e, 'b, 'k, 'm) Hordes \<Rightarrow> bool" where
  "quiet w \<longleftrightarrow> \<not> fReset w \<and> \<not> fResetBanks w \<and> fDeferredErrs w = [] \<and> \<not> fHordeSaveRootState w \<and> \<not> fHordeSaveSuspendState w \<and>
     \<not> fHordeLoadRootState w \<and> \<not> fHordeNextGremlinFromRootState w \<and> \<not> fHordeNextGremlinFromSuspendState w \<and> \<not> fMinimizeLoadState w"

definition halt_ok :: "EmGremlinThreadInfo \<Rightarrow> bool" where
  "halt_ok i \<longleftrightarrow> (if fMessageID i = - 1 then \<not> fHalted i else errorBase \<le> fMessageID i \<and> fMessageID i \<le> errorLast)"

text \<open>
  A horde for the gremlins \<open>a\<close> to \<open>b\<close> that switches after \<open>s\<close> events and ends after \<open>m\<close>; \<open>k\<close>
  bounds the events that are recorded.
\<close>

definition horde_ok :: "int \<Rightarrow> int \<Rightarrow> int \<Rightarrow> int \<Rightarrow> nat \<Rightarrow> ('e, 'b, 'k, 'm) Hordes \<Rightarrow> bool" where
  "horde_ok a b s m k w \<longleftrightarrow> gGremlinStartNumber w = a \<and> gGremlinStopNumber w = b \<and> gSwitchDepth w = s \<and> gMaxDepth w = m \<and>
     0 \<le> a \<and> a \<le> b \<and> b \<le> MAXGREMLINS \<and> 0 < s \<and> 0 < m \<and>
     length (gGremlinHaltedInError w) = nat (MAXGREMLINS + 1) \<and> (\<forall>i\<in>set (gGremlinHaltedInError w). halt_ok i) \<and>
     \<not> gMinimizing w \<and> length (gGremlinAppList w) < 2 ^ 31 \<and> gremlin_ok (gTheGremlin w) \<and> recorded_up_to k (gPlayback w) \<and>
     (\<exists>f g. state_files w Gremlin_Root_State = Some f \<and> holds_gremlin (gremlin_chunk f) False g \<and> gremlin_ok g)"

text \<open>
  The files of a gremlin that has come to an event. \<open>H\<close> is the history of every gremlin: the events
  that it has made in all its turns.
\<close>

definition suspended_file :: "int \<Rightarrow> 'm state_file \<Rightarrow> int \<Rightarrow> int \<Rightarrow> bool" where
  "suspended_file m f n c \<longleftrightarrow> (\<exists>on g u. holds_gremlin (gremlin_chunk f) on g \<and> gremlin_ok g \<and>
     limits g = (word_of_int c, u, word_of_int m, True, word_of_int n))"

definition suspended :: "int \<Rightarrow> (int \<Rightarrow> EmRecordedEvent list) \<Rightarrow> ('e, 'b, 'k, 'm) Hordes \<Rightarrow> int \<Rightarrow> int \<Rightarrow> bool" where
  "suspended m H w n c \<longleftrightarrow> (\<exists>f root h. state_files w (Gremlin_Suspended n) = Some f \<and> suspended_file m f n c \<and>
     event_files w (Gremlin_Events n) = Some (root, h) \<and> history_of (H n) h)"

definition deep :: "int \<Rightarrow> int \<Rightarrow> int \<Rightarrow> int" where
  "deep s m d = min (s * d) m"

text \<open>The gremlins before the current one have been as deep as it goes, those after it as deep as it started.\<close>

definition others_done :: "int \<Rightarrow> int \<Rightarrow> (int \<Rightarrow> EmRecordedEvent list) \<Rightarrow> ('e, 'b, 'k, 'm) Hordes \<Rightarrow> bool" where
  "others_done s m H w \<longleftrightarrow>
     (\<forall>n\<in>{gGremlinStartNumber w..<gCurrentGremlin w}. halted w n \<or> suspended m H w n (deep s m (gCurrentDepth w + 1))) \<and>
     (\<forall>n\<in>{gCurrentGremlin w<..gGremlinStopNumber w}. halted w n \<or> gCurrentDepth w = 0 \<and> H n = [] \<or> gCurrentDepth w \<noteq> 0 \<and> suspended m H w n (s * gCurrentDepth w))"

definition running :: "int \<Rightarrow> int \<Rightarrow> int \<Rightarrow> int \<Rightarrow> (int \<Rightarrow> EmRecordedEvent list) \<Rightarrow> nat \<Rightarrow> int \<Rightarrow> ('e, 'b, 'k, 'm) Hordes \<Rightarrow> bool" where
  "running a b s m H k c w \<longleftrightarrow> horde_ok a b s m k w \<and> gIsOn w \<and> fgRecording (gPlayback w) \<and>
     stored (gPlayback w) (H (gCurrentGremlin w)) \<and> (\<forall>n. length (H n) \<le> k) \<and>
     a \<le> gCurrentGremlin w \<and> gCurrentGremlin w \<le> b \<and> 0 \<le> gCurrentDepth w \<and> s * gCurrentDepth w < m \<and> \<not> halted w (gCurrentGremlin w) \<and>
     s * gCurrentDepth w \<le> c \<and> c \<le> s * gCurrentDepth w + int k \<and>
     limits (gTheGremlin w) =
       (word_of_int c, word_of_int (deep s m (gCurrentDepth w + 1)), word_of_int m, True, word_of_int (gCurrentGremlin w)) \<and>
     (deep s m (gCurrentDepth w + 1) \<le> c \<longrightarrow> (\<exists>G. suspended m G w (gCurrentGremlin w) (deep s m (gCurrentDepth w + 1)))) \<and>
     others_done s m H w"

definition over :: "int \<Rightarrow> int \<Rightarrow> int \<Rightarrow> (int \<Rightarrow> EmRecordedEvent list) \<Rightarrow> ('e, 'b, 'k, 'm) Hordes \<Rightarrow> bool" where
  "over a b m H w \<longleftrightarrow> \<not> gIsOn w \<and> (\<forall>n\<in>{a..b}. halted w n \<or> suspended m H w n m)"

definition position :: "('e, 'b, 'k, 'm) Hordes \<Rightarrow> int" where
  "position w = gCurrentDepth w * (gGremlinStopNumber w - gGremlinStartNumber w + 1) + (gCurrentGremlin w - gGremlinStartNumber w)"

text \<open>What the rest of the emulator may change, and an automatic saving of the state.\<close>

definition agree :: "('e, 'b, 'k, 'm) Hordes \<Rightarrow> ('e, 'b, 'k, 'm) Hordes \<Rightarrow> bool" where
  "agree v w \<longleftrightarrow> gGremlinStartNumber w = gGremlinStartNumber v \<and> gGremlinStopNumber w = gGremlinStopNumber v \<and>
     gSwitchDepth w = gSwitchDepth v \<and> gMaxDepth w = gMaxDepth v \<and> gCurrentGremlin w = gCurrentGremlin v \<and>
     gCurrentDepth w = gCurrentDepth v \<and> gIsOn w = gIsOn v \<and> gGremlinHaltedInError w = gGremlinHaltedInError v \<and>
     gMinimizing w = gMinimizing v \<and> gGremlinAppList w = gGremlinAppList v \<and> gPlayback w = gPlayback v \<and>
     limits (gTheGremlin w) = limits (gTheGremlin v) \<and> gremlin_ok (gTheGremlin w) = gremlin_ok (gTheGremlin v) \<and>
     state_files w Gremlin_Root_State = state_files v Gremlin_Root_State \<and>
     (\<forall>n. state_files w (Gremlin_Suspended n) = state_files v (Gremlin_Suspended n)) \<and> event_files w = event_files v \<and>
     fReset w = fReset v \<and> fResetBanks w = fResetBanks v \<and> fDeferredErrs w = fDeferredErrs v \<and>
     fHordeSaveRootState w = fHordeSaveRootState v \<and> fHordeSaveSuspendState w = fHordeSaveSuspendState v \<and>
     fHordeLoadRootState w = fHordeLoadRootState v \<and> fHordeNextGremlinFromRootState w = fHordeNextGremlinFromRootState v \<and>
     fHordeNextGremlinFromSuspendState w = fHordeNextGremlinFromSuspendState v \<and> fMinimizeLoadState w = fMinimizeLoadState v"

text \<open>What does not matter to a horde.\<close>

lemma horde_ok_other [simp]:
  "horde_ok a b s m k (w\<lparr>fHordeAutoSaveState := x0\<rparr>) = horde_ok a b s m k w" "horde_ok a b s m k (w\<lparr>fHordeSaveSuspendState := x1\<rparr>) = horde_ok a b s m k w"
  "horde_ok a b s m k (w\<lparr>fHordeLoadRootState := x2\<rparr>) = horde_ok a b s m k w" "horde_ok a b s m k (w\<lparr>fHordeNextGremlinFromRootState := x3\<rparr>) = horde_ok a b s m k w"
  "horde_ok a b s m k (w\<lparr>fHordeNextGremlinFromSuspendState := x4\<rparr>) = horde_ok a b s m k w" "horde_ok a b s m k (w\<lparr>gIsOn := x5\<rparr>) = horde_ok a b s m k w"
  "horde_ok a b s m k (w\<lparr>gStopTime := x6\<rparr>) = horde_ok a b s m k w" "horde_ok a b s m k (w\<lparr>gStartTime := x7\<rparr>) = horde_ok a b s m k w"
  "horde_ok a b s m k (w\<lparr>progress_file := x8\<rparr>) = horde_ok a b s m k w" "horde_ok a b s m k (w\<lparr>report := x9\<rparr>) = horde_ok a b s m k w"
  "horde_ok a b s m k (w\<lparr>gCurrentGremlin := x10\<rparr>) = horde_ok a b s m k w" "horde_ok a b s m k (w\<lparr>gCurrentDepth := x11\<rparr>) = horde_ok a b s m k w"
  "horde_ok a b s m k (w\<lparr>emulated := x12\<rparr>) = horde_ok a b s m k w" "horde_ok a b s m k (w\<lparr>gWarningHappened := x13\<rparr>) = horde_ok a b s m k w"
  "horde_ok a b s m k (w\<lparr>gErrorHappened := x14\<rparr>) = horde_ok a b s m k w" "horde_ok a b s m k (w\<lparr>gQuitScheduled := x15\<rparr>) = horde_ok a b s m k w"
  "horde_ok a b s m k (w\<lparr>kPrefKeyGremlinInfo := x16\<rparr>) = horde_ok a b s m k w" "horde_ok a b s m k (w\<lparr>event_files := x17\<rparr>) = horde_ok a b s m k w"
  by (simp_all add: horde_ok_def)

lemma suspended_other [simp]:
  "suspended m H (w\<lparr>fHordeAutoSaveState := x0\<rparr>) n c = suspended m H w n c" "suspended m H (w\<lparr>fHordeSaveSuspendState := x1\<rparr>) n c = suspended m H w n c"
  "suspended m H (w\<lparr>fHordeLoadRootState := x2\<rparr>) n c = suspended m H w n c" "suspended m H (w\<lparr>fHordeNextGremlinFromRootState := x3\<rparr>) n c = suspended m H w n c"
  "suspended m H (w\<lparr>fHordeNextGremlinFromSuspendState := x4\<rparr>) n c = suspended m H w n c" "suspended m H (w\<lparr>gIsOn := x5\<rparr>) n c = suspended m H w n c"
  "suspended m H (w\<lparr>gStopTime := x6\<rparr>) n c = suspended m H w n c" "suspended m H (w\<lparr>gStartTime := x7\<rparr>) n c = suspended m H w n c"
  "suspended m H (w\<lparr>progress_file := x8\<rparr>) n c = suspended m H w n c" "suspended m H (w\<lparr>report := x9\<rparr>) n c = suspended m H w n c"
  "suspended m H (w\<lparr>gCurrentGremlin := x10\<rparr>) n c = suspended m H w n c" "suspended m H (w\<lparr>gCurrentDepth := x11\<rparr>) n c = suspended m H w n c"
  "suspended m H (w\<lparr>emulated := x12\<rparr>) n c = suspended m H w n c" "suspended m H (w\<lparr>gWarningHappened := x13\<rparr>) n c = suspended m H w n c"
  "suspended m H (w\<lparr>gErrorHappened := x14\<rparr>) n c = suspended m H w n c" "suspended m H (w\<lparr>gQuitScheduled := x15\<rparr>) n c = suspended m H w n c"
  "suspended m H (w\<lparr>kPrefKeyGremlinInfo := x16\<rparr>) n c = suspended m H w n c" "suspended m H (w\<lparr>gTheGremlin := x17\<rparr>) n c = suspended m H w n c"
  "suspended m H (w\<lparr>gPlayback := x18\<rparr>) n c = suspended m H w n c" "suspended m H (w\<lparr>gGremlinHaltedInError := x19\<rparr>) n c = suspended m H w n c"
  by (simp_all add: suspended_def)

lemma horde_ok_TurnOn [simp]: "horde_ok a b s m k (Hordes_TurnOn x w) = horde_ok a b s m k w"
  by (simp add: horde_ok_def Hordes_TurnOn_def)

lemma suspended_TurnOn [simp]: "suspended m H (Hordes_TurnOn x w) n c = suspended m H w n c"
  by (simp add: Hordes_TurnOn_def)

lemma agree_refl [simp]: "agree w w"
  by (simp add: agree_def)

lemma agree_trans: "agree u v \<Longrightarrow> agree v w \<Longrightarrow> agree u w"
  by (simp add: agree_def)

lemma agree_suspended: "agree v w \<Longrightarrow> suspended m H w n c = suspended m H v n c"
  by (simp add: agree_def suspended_def)

lemma agree_others: "agree v w \<Longrightarrow> others_done s m H w = others_done s m H v"
  using agree_suspended [of v w m H] by (simp add: agree_def others_done_def)

lemma agree_ok: "agree v w \<Longrightarrow> horde_ok a b s m k w = horde_ok a b s m k v"
  by (simp add: agree_def horde_ok_def)

lemma agree_quiet: "agree v w \<Longrightarrow> quiet w = quiet v"
  by (simp add: agree_def quiet_def)

lemma agree_running:
  assumes "agree v w"
  shows "running a b s m H k c w = running a b s m H k c v"
  using agree_ok [OF assms] agree_suspended [OF assms] agree_others [OF assms] assms
  unfolding running_def by (simp add: agree_def)

lemma agree_over: "agree v w \<Longrightarrow> over a b m H w = over a b m H v"
  using agree_suspended [of v w m H] by (simp add: agree_def over_def)

lemma agree_position: "agree v w \<Longrightarrow> position w = position v"
  by (simp add: agree_def position_def)

lemma horde_ok_mono: "horde_ok a b s m k w \<Longrightarrow> k \<le> l \<Longrightarrow> horde_ok a b s m l w"
  unfolding horde_ok_def using recorded_mono by blast

lemma running_mono: "running a b s m H k c w \<Longrightarrow> k \<le> l \<Longrightarrow> running a b s m H l c w"
  unfolding running_def using horde_ok_mono by (smt (verit) of_nat_le_iff le_trans)

text \<open>The history of a gremlin matters to its own files only.\<close>

lemma suspended_history: "H n = G n \<Longrightarrow> suspended m H w n c = suspended m G w n c"
  by (simp add: suspended_def)

lemma others_history: "others_done s m (H(gCurrentGremlin w := es)) w = others_done s m H w"
  unfolding others_done_def by (intro conj_cong ball_cong refl) (auto simp: suspended_def)

section \<open>Saving\<close>

lemma horde_ok_saves: "horde_ok a b s m k w \<Longrightarrow> gremlin_ok (gTheGremlin w) \<and> length (gGremlinAppList w) < 2 ^ 31"
  by (simp add: horde_ok_def)

lemma AutoSaveState_ok:
  assumes "horde_ok a b s m k w"
  shows "\<exists>w'. AutoSaveState w = Some w' \<and> agree w w'"
proof -
  obtain n e where r: "SuggestFileName kHordeAutoCurrentFile 0 w = Gremlin_Event n e" by (cases "gGremlinSaveFrequency w = 0") (simp_all add: SuggestFileName_def)
  show ?thesis using EmSession_Save_ok [of w "Gremlin_Event n e"] horde_ok_saves [OF assms]
    by (auto simp: AutoSaveState_def r agree_def)
qed

lemma SaveEvents_horde:
  assumes "horde_ok a b s m k w" and "13 * k < 2 ^ 31"
  shows "\<exists>root h. Hordes_SaveEvents w = Some (w\<lparr>event_files := (event_files w)(Gremlin_Events (gCurrentGremlin w) \<mapsto> (root, h))\<rparr>) \<and>
    (\<forall>es. stored (gPlayback w) es \<longrightarrow> history_of es h)"
proof -
  obtain h where "SaveEvents (gPlayback w) = Some h" "\<forall>es. stored (gPlayback w) es \<longrightarrow> history_of es h"
    using SaveEvents_ok [of k "gPlayback w"] assms by (auto simp: horde_ok_def)
  moreover obtain f where "state_files w Gremlin_Root_State = Some f" using assms(1) by (auto simp: horde_ok_def)
  ultimately show ?thesis
    by (intro exI [of _ f] exI [of _ h]) (simp add: Hordes_SaveEvents_def SuggestFileName_def GremlinNumber_def)
qed

lemma SaveSuspendedState_ok:
  assumes "horde_ok a b s m k w" and "13 * k < 2 ^ 31"
    and "limits (gTheGremlin w) = (word_of_int c, u, word_of_int m, True, word_of_int (gCurrentGremlin w))"
  shows "\<exists>f root h. SaveSuspendedState w = Some (w\<lparr>gTheGremlin := (gTheGremlin w)\<lparr>gremlinStopTime := clock w\<rparr>,
      state_files := (state_files w)(Gremlin_Suspended (gCurrentGremlin w) \<mapsto> f),
      event_files := (event_files w)(Gremlin_Events (gCurrentGremlin w) \<mapsto> (root, h))\<rparr>) \<and>
    suspended_file m f (gCurrentGremlin w) c \<and> (\<forall>es. stored (gPlayback w) es \<longrightarrow> history_of es h)"
proof -
  let ?g = "(gTheGremlin w)\<lparr>gremlinStopTime := clock w\<rparr>" and ?r = "Gremlin_Suspended (gCurrentGremlin w)"
  obtain f where f: "EmSession_Save ?r w = Some (w\<lparr>gTheGremlin := ?g, state_files := (state_files w)(?r \<mapsto> f)\<rparr>)"
      "holds_gremlin (gremlin_chunk f) (gIsOn w) ?g"
    using EmSession_Save_ok [of w ?r] horde_ok_saves [OF assms(1)] by fastforce
  let ?w = "w\<lparr>gTheGremlin := ?g, state_files := (state_files w)(?r \<mapsto> f)\<rparr>"
  have "horde_ok a b s m k ?w" using assms(1) by (simp add: horde_ok_def)
  from SaveEvents_horde [OF this assms(2)] obtain root h where
    h: "Hordes_SaveEvents ?w = Some (?w\<lparr>event_files := (event_files w)(Gremlin_Events (gCurrentGremlin w) \<mapsto> (root, h))\<rparr>)"
    "\<forall>es. stored (gPlayback w) es \<longrightarrow> history_of es h" by auto
  have "SaveSuspendedState w = Hordes_SaveEvents ?w" by (simp add: SaveSuspendedState_def SuggestFileName_def GremlinNumber_def f(1))
  moreover have "suspended_file m f (gCurrentGremlin w) c"
    unfolding suspended_file_def using f(2) assms(3) horde_ok_saves [OF assms(1)]
    by (intro exI [of _ "gIsOn w"] exI [of _ ?g] exI [of _ u]) simp
  ultimately show ?thesis using h by (intro exI [of _ f] exI [of _ root] exI [of _ h]) simp
qed

end
