(* ===== verification/HordeSteps.thy ===== *)
theory HordeSteps
  imports HordeInv
begin

text \<open>The end of a cycle, and the way from one gremlin to the next.\<close>

section \<open>The end of a cycle\<close>

definition calm :: "('e, 'b, 'k, 'm) Hordes \<Rightarrow> bool" where
  "calm w \<longleftrightarrow> \<not> fReset w \<and> \<not> fResetBanks w \<and> fDeferredErrs w = [] \<and> \<not> fHordeSaveRootState w \<and> \<not> fMinimizeLoadState w"

lemma duties_are:
  "Hordes_AutoSaveState (horde_duties dev others) = AutoSaveState" "Hordes_SaveSuspendedState (horde_duties dev others) = SaveSuspendedState"
  "Hordes_LoadRootState (horde_duties dev others) = LoadRootState" "Hordes_LoadSuspendedState (horde_duties dev others) = LoadSuspendedState"
  "Hordes_StartFromRoot (horde_duties dev others) = StartGremlinFromLoadedRootState dev"
  "Hordes_StartFromSuspended (horde_duties dev others) = (\<lambda>w. Some (StartGremlinFromLoadedSuspendedState w))"
  "Hordes_TurnOff (horde_duties dev others) = Hordes_TurnOn False" "RealLoadInitialState (horde_duties dev others) = RealLoadInitialState others"
  by (simp_all add: horde_duties_def)

lemma end_of_cycle_eq:
  assumes "calm w" and "horde_ok a b s m k w"
  shows "\<exists>v. agree w v \<and> end_of_cycle dev others w = do {
      x \<leftarrow> (if fHordeSaveSuspendState v
         then (if fHordeLoadRootState v \<or> fHordeNextGremlinFromRootState v \<or> fHordeNextGremlinFromSuspendState v then None
               else SaveSuspendedState (v\<lparr>fHordeSaveSuspendState := False\<rparr>))
         else Some v);
      x \<leftarrow> load_duties (horde_duties dev others) x;
      if fMinimizeLoadState x then RealLoadInitialState others (x\<lparr>fMinimizeLoadState := False\<rparr>) else Some x }"
proof -
  obtain v where v: "agree w v" "(if fHordeAutoSaveState w then AutoSaveState (w\<lparr>fHordeAutoSaveState := False\<rparr>) else Some w) = Some v"
  proof (cases "fHordeAutoSaveState w")
    case True
    have g: "agree w (w\<lparr>fHordeAutoSaveState := False\<rparr>)" by (simp add: agree_def)
    have "horde_ok a b s m k (w\<lparr>fHordeAutoSaveState := False\<rparr>)" using assms(2) by simp
    from AutoSaveState_ok [OF this] obtain v where "AutoSaveState (w\<lparr>fHordeAutoSaveState := False\<rparr>) = Some v"
      "agree (w\<lparr>fHordeAutoSaveState := False\<rparr>) v" by blast
    then show ?thesis using that [of v] True agree_trans [OF g] by simp
  qed (use that in simp)
  then have c: "calm v" using assms(1) by (simp add: agree_def calm_def)
  have "save_duties (horde_duties dev others) w = (if fHordeSaveSuspendState v
         then (if fHordeLoadRootState v \<or> fHordeNextGremlinFromRootState v \<or> fHordeNextGremlinFromSuspendState v then None
               else SaveSuspendedState (v\<lparr>fHordeSaveSuspendState := False\<rparr>))
         else Some v)"
    unfolding save_duties_def Let_def duties_are v(2) bind.bind_lunit using c by (simp add: calm_def)
  moreover have "end_of_cycle dev others w = do {
      x \<leftarrow> save_duties (horde_duties dev others) w;
      x \<leftarrow> load_duties (horde_duties dev others) x;
      if fMinimizeLoadState x then RealLoadInitialState others (x\<lparr>fMinimizeLoadState := False\<rparr>) else Some x }"
    using assms(1) by (simp add: end_of_cycle_def EmSession_ExecuteSpecial_def reset_duties_def deferred_duties_def calm_def duties_are
        map_option_bind option.map_comp comp_def option.map_ident cong: if_cong)
  ultimately show ?thesis using v(1) by (intro exI [of _ v]) simp
qed

text \<open>The duties that loading may have, one at a time.\<close>

definition no_load :: "('e, 'b, 'k, 'm) Hordes \<Rightarrow> bool" where
  "no_load w \<longleftrightarrow> \<not> fHordeLoadRootState w \<and> \<not> fHordeNextGremlinFromRootState w \<and> \<not> fHordeNextGremlinFromSuspendState w"

lemma quiet_parts: "quiet w \<longleftrightarrow> calm w \<and> no_load w \<and> \<not> fHordeSaveSuspendState w"
  by (auto simp: quiet_def calm_def no_load_def)

lemma load_nothing: "no_load w \<Longrightarrow> load_duties ops w = Some w"
  by (simp add: load_duties_def no_load_def)

lemma end_quiet:
  assumes "quiet w" and "horde_ok a b s m k w"
  shows "\<exists>v. end_of_cycle dev others w = Some v \<and> agree w v"
proof -
  obtain v where v: "agree w v" "end_of_cycle dev others w = do {
      x \<leftarrow> (if fHordeSaveSuspendState v
         then (if fHordeLoadRootState v \<or> fHordeNextGremlinFromRootState v \<or> fHordeNextGremlinFromSuspendState v then None
               else SaveSuspendedState (v\<lparr>fHordeSaveSuspendState := False\<rparr>))
         else Some v);
      x \<leftarrow> load_duties (horde_duties dev others) x;
      if fMinimizeLoadState x then RealLoadInitialState others (x\<lparr>fMinimizeLoadState := False\<rparr>) else Some x }"
    using end_of_cycle_eq [OF _ assms(2)] assms(1) unfolding quiet_parts by blast
  have "quiet v" using agree_quiet [OF v(1)] assms(1) by simp
  then have "\<not> fHordeSaveSuspendState v" "no_load v" "\<not> fMinimizeLoadState v" by (simp_all add: quiet_parts calm_def)
  then show ?thesis using v by (simp add: load_nothing)
qed

lemma end_saving:
  assumes "calm w" and "no_load w" and "fHordeSaveSuspendState w" and "horde_ok a b s m k w" and "13 * k < 2 ^ 31"
    and "limits (gTheGremlin w) = (word_of_int c, u, word_of_int m, True, word_of_int (gCurrentGremlin w))"
  shows "\<exists>v f root h. agree w v \<and> end_of_cycle dev others w = Some (v\<lparr>fHordeSaveSuspendState := False,
      gTheGremlin := (gTheGremlin v)\<lparr>gremlinStopTime := clock v\<rparr>,
      state_files := (state_files v)(Gremlin_Suspended (gCurrentGremlin w) \<mapsto> f),
      event_files := (event_files v)(Gremlin_Events (gCurrentGremlin w) \<mapsto> (root, h))\<rparr>) \<and>
    suspended_file m f (gCurrentGremlin w) c \<and> (\<forall>es. stored (gPlayback w) es \<longrightarrow> history_of es h)"
proof -
  obtain v where v: "agree w v" "end_of_cycle dev others w = do {
      x \<leftarrow> (if fHordeSaveSuspendState v
         then (if fHordeLoadRootState v \<or> fHordeNextGremlinFromRootState v \<or> fHordeNextGremlinFromSuspendState v then None
               else SaveSuspendedState (v\<lparr>fHordeSaveSuspendState := False\<rparr>))
         else Some v);
      x \<leftarrow> load_duties (horde_duties dev others) x;
      if fMinimizeLoadState x then RealLoadInitialState others (x\<lparr>fMinimizeLoadState := False\<rparr>) else Some x }"
    using end_of_cycle_eq [OF assms(1,4)] by blast
  have f: "fHordeSaveSuspendState v" "no_load v" "\<not> fMinimizeLoadState v"
    using v(1) assms(1-3) by (simp_all add: agree_def no_load_def calm_def)
  have ok: "horde_ok a b s m k (v\<lparr>fHordeSaveSuspendState := False\<rparr>)" using agree_ok [OF v(1)] assms(4) by simp
  have l: "limits (gTheGremlin v) = (word_of_int c, u, word_of_int m, True, word_of_int (gCurrentGremlin v))" "gCurrentGremlin v = gCurrentGremlin w"
    using v(1) assms(6) by (simp_all add: agree_def)
  obtain f root h where s: "SaveSuspendedState (v\<lparr>fHordeSaveSuspendState := False\<rparr>) =
      Some (v\<lparr>fHordeSaveSuspendState := False, gTheGremlin := (gTheGremlin v)\<lparr>gremlinStopTime := clock v\<rparr>,
      state_files := (state_files v)(Gremlin_Suspended (gCurrentGremlin w) \<mapsto> f),
      event_files := (event_files v)(Gremlin_Events (gCurrentGremlin w) \<mapsto> (root, h))\<rparr>)"
    "suspended_file m f (gCurrentGremlin w) c" "\<forall>es. stored (gPlayback v) es \<longrightarrow> history_of es h"
    using SaveSuspendedState_ok [OF ok assms(5), of c u] l by auto
  let ?x = "v\<lparr>fHordeSaveSuspendState := False, gTheGremlin := (gTheGremlin v)\<lparr>gremlinStopTime := clock v\<rparr>,
      state_files := (state_files v)(Gremlin_Suspended (gCurrentGremlin w) \<mapsto> f),
      event_files := (event_files v)(Gremlin_Events (gCurrentGremlin w) \<mapsto> (root, h))\<rparr>"
  have "load_duties (horde_duties dev others) ?x = Some ?x" using f(2) by (intro load_nothing) (simp add: no_load_def)
  then have "end_of_cycle dev others w = Some ?x" using f v(2) s(1) by (simp add: no_load_def)
  moreover have "gPlayback v = gPlayback w" using v(1) by (simp add: agree_def)
  ultimately show ?thesis using v(1) s(2,3) by metis
qed

section \<open>Loading\<close>

definition dev_ok :: "'m device \<Rightarrow> bool" where
  "dev_ok dev \<longleftrightarrow> (\<forall>a m. launch dev a m \<noteq> None) \<and> (\<forall>m. wake dev m \<noteq> None)"

lemma LoadRootState_ok:
  assumes "horde_ok a b s m k w"
  shows "\<exists>d g i. LoadRootState w = Some (True, w\<lparr>emulated := d, gTheGremlin := reloaded (clock w) g, kPrefKeyGremlinInfo := i, gIsOn := False,
    gPlayback := Playback_Clear (gPlayback w)\<rparr>) \<and> gremlin_ok g"
proof -
  obtain f g where f: "state_files w Gremlin_Root_State = Some f" "holds_gremlin (gremlin_chunk f) False g" "gremlin_ok g"
    using assms by (auto simp: horde_ok_def)
  from EmSession_Load_ok [OF f] obtain i where "EmSession_Load Gremlin_Root_State w = Some (True,
    Hordes_TurnOn False (w\<lparr>emulated := device_state f, gTheGremlin := reloaded (clock w) g, kPrefKeyGremlinInfo := i\<rparr>))" by blast
  then have "LoadRootState w = Some (True, w\<lparr>emulated := device_state f, gTheGremlin := reloaded (clock w) g, kPrefKeyGremlinInfo := i,
      gIsOn := False, gPlayback := Playback_Clear (gPlayback w)\<rparr>)"
    by (simp add: LoadRootState_def LoadState_def SuggestFileName_def Hordes_TurnOn_def RecordEvents_def Playback_Clear_def ResetPlayback_def)
  then show ?thesis using f(3) by blast
qed

lemma LoadSuspendedState_ok:
  assumes "suspended m H w (gCurrentGremlin w) c" and "recorded_up_to l (gPlayback w)"
  shows "\<exists>d g i on p u. LoadSuspendedState w = Some (True, w\<lparr>emulated := d, gTheGremlin := reloaded (clock w) g, kPrefKeyGremlinInfo := i,
      gIsOn := on, gPlayback := p\<rparr>) \<and>
    gremlin_ok g \<and> limits g = (word_of_int c, u, word_of_int m, True, word_of_int (gCurrentGremlin w)) \<and> stored p (H (gCurrentGremlin w))"
proof -
  obtain f root h where s: "state_files w (Gremlin_Suspended (gCurrentGremlin w)) = Some f" "suspended_file m f (gCurrentGremlin w) c"
      "event_files w (Gremlin_Events (gCurrentGremlin w)) = Some (root, h)" "history_of (H (gCurrentGremlin w)) h"
    using assms(1) by (auto simp: suspended_def)
  obtain on g u where g: "holds_gremlin (gremlin_chunk f) on g" "gremlin_ok g"
      "limits g = (word_of_int c, u, word_of_int m, True, word_of_int (gCurrentGremlin w))"
    using s(2) by (auto simp: suspended_file_def)
  from EmSession_Load_ok [OF s(1) g(1,2)] obtain i where l: "EmSession_Load (Gremlin_Suspended (gCurrentGremlin w)) w = Some (True,
    Hordes_TurnOn on (w\<lparr>emulated := device_state f, gTheGremlin := reloaded (clock w) g, kPrefKeyGremlinInfo := i\<rparr>))" by blast
  obtain p where "LoadEvents (Some h) (RecordEvents on (gPlayback w)) = Some p" "stored p (H (gCurrentGremlin w))"
    using LoadEvents_ok [OF s(4), of l "RecordEvents on (gPlayback w)"] assms(2) by auto
  then show ?thesis using l s(3) g
    by (intro exI [of _ "device_state f"] exI [of _ g] exI [of _ i] exI [of _ on] exI [of _ p] exI [of _ u])
      (simp add: LoadSuspendedState_def LoadState_def SuggestFileName_def GremlinNumber_def Hordes_LoadEvents_def Hordes_TurnOn_def)
qed

lemma Gremlins_New_ok:
  assumes "dev_ok dev" and "gremlin_ok (gTheGremlin w)"
  shows "\<exists>v g. Gremlins_New dev info w = Some v \<and> gremlin_ok g \<and> limits g = (0, fSteps info, fFinal info, True, ucast (fNumber info)) \<and>
    agree (w\<lparr>gTheGremlin := g, gIsOn := True, gPlayback := RecordEvents True (gPlayback w)\<rparr>) v"
proof -
  obtain d1 where d1: "(case fAppList info of [] \<Rightarrow> Some (emulated w) | a # _ \<Rightarrow> launch dev a (emulated w)) = Some d1"
    using assms(1) by (cases "fAppList info") (fastforce simp: dev_ok_def)+
  obtain d2 where d2: "wake dev (start_up dev d1) = Some d2" using assms(1) by (fastforce simp: dev_ok_def)
  define g where "g = (Gremlins_Initialize (ucast (fNumber info)) (fSteps info) (fFinal info) (gTheGremlin w))\<lparr>gremlinStartTime := clock w\<rparr>"
  define x where "x = Hordes_TurnOn True (w\<lparr>emulated := d2, gTheGremlin := g\<rparr>)"
  define v where "v = (if fSaveFrequency info \<noteq> 0 then ScheduleDuty duty.AutoSaveState x else x)"
  have "gremlin_ok g" using assms(2) by (simp add: g_def Gremlins_Initialize_def gremlin_ok_def kMaxChars_def)
  moreover have "limits g = (0, fSteps info, fFinal info, True, ucast (fNumber info))" by (simp add: g_def Gremlins_Initialize_def limits_def)
  moreover have "agree (w\<lparr>gTheGremlin := g, gIsOn := True, gPlayback := RecordEvents True (gPlayback w)\<rparr>) v"
    by (simp add: agree_def v_def x_def Hordes_TurnOn_def ScheduleDuty_def)
  moreover have "Gremlins_New dev info w = Some v" by (simp add: Gremlins_New_def d1 d2 v_def x_def g_def)
  ultimately show ?thesis by blast
qed

lemma ucast_number: "ucast (word_of_int n :: uint32) = (word_of_int n :: uint16)"
  by (rule bit_word_eqI) (auto simp: bit_simps)

text \<open>A duty of loading at the end of a cycle.\<close>

lemma end_loading:
  assumes "calm w" and "\<not> fHordeSaveSuspendState w" and "horde_ok a b s m k w"
  shows "\<exists>v. agree w v \<and> end_of_cycle dev others w = do {
      x \<leftarrow> load_duties (horde_duties dev others) v;
      if fMinimizeLoadState x then RealLoadInitialState others (x\<lparr>fMinimizeLoadState := False\<rparr>) else Some x }"
proof -
  obtain v where v: "agree w v" "end_of_cycle dev others w = do {
      x \<leftarrow> (if fHordeSaveSuspendState v
         then (if fHordeLoadRootState v \<or> fHordeNextGremlinFromRootState v \<or> fHordeNextGremlinFromSuspendState v then None
               else SaveSuspendedState (v\<lparr>fHordeSaveSuspendState := False\<rparr>))
         else Some v);
      x \<leftarrow> load_duties (horde_duties dev others) x;
      if fMinimizeLoadState x then RealLoadInitialState others (x\<lparr>fMinimizeLoadState := False\<rparr>) else Some x }"
    using end_of_cycle_eq [OF assms(1,3)] by blast
  moreover have "\<not> fHordeSaveSuspendState v" using v(1) assms(2) by (simp add: agree_def)
  ultimately show ?thesis by (intro exI [of _ v]) simp
qed

lemma end_load_root:
  assumes "calm w" and "\<not> fHordeSaveSuspendState w" and "horde_ok a b s m k w"
    and "\<not> fHordeNextGremlinFromRootState w" and "\<not> fHordeNextGremlinFromSuspendState w" and "\<not> gIsOn w"
    and "\<forall>n\<in>{a..b}. halted w n \<or> suspended m H w n m"
  shows "\<exists>x. end_of_cycle dev others w = Some x \<and> over a b m H x"
proof -
  obtain v where v: "agree w v" "end_of_cycle dev others w = do {
      x \<leftarrow> load_duties (horde_duties dev others) v;
      if fMinimizeLoadState x then RealLoadInitialState others (x\<lparr>fMinimizeLoadState := False\<rparr>) else Some x }"
    using end_loading [OF assms(1-3)] by blast
  have f: "\<not> fHordeNextGremlinFromRootState v" "\<not> fHordeNextGremlinFromSuspendState v" "\<not> fMinimizeLoadState v" "calm v"
      "\<not> fHordeSaveSuspendState v"
    using v(1) assms(1,2,4,5) by (simp_all add: agree_def calm_def)
  have o: "over a b m H v" using agree_over [OF v(1)] assms(6,7) by (simp add: over_def)
  show ?thesis
  proof (cases "fHordeLoadRootState v")
    case True
    have "horde_ok a b s m k (v\<lparr>fHordeLoadRootState := False\<rparr>)" using agree_ok [OF v(1)] assms(3) by simp
    from LoadRootState_ok [OF this] obtain d g i where "LoadRootState (v\<lparr>fHordeLoadRootState := False\<rparr>) = Some (True,
        v\<lparr>fHordeLoadRootState := False, emulated := d, gTheGremlin := reloaded (clock v) g, kPrefKeyGremlinInfo := i, gIsOn := False,
          gPlayback := Playback_Clear (gPlayback v)\<rparr>)" by auto
    then have "end_of_cycle dev others w = Some (v\<lparr>fHordeLoadRootState := False, emulated := d, gTheGremlin := reloaded (clock v) g,
        kPrefKeyGremlinInfo := i, gIsOn := False, gPlayback := Playback_Clear (gPlayback v)\<rparr>)"
      using f True by (simp add: v(2) load_duties_def duties_are calm_def)
    then show ?thesis using o by (simp add: over_def)
  next
    case False
    then have "end_of_cycle dev others w = Some v" using f by (simp add: v(2) load_nothing no_load_def)
    then show ?thesis using o by simp
  qed
qed

lemma end_from_root:
  assumes "calm w" and "\<not> fHordeSaveSuspendState w" and "horde_ok a b s m k w" and "dev_ok dev"
    and "fHordeNextGremlinFromRootState w" and "\<not> fHordeNextGremlinFromSuspendState w" and "\<not> fHordeLoadRootState w"
  shows "\<exists>x g. end_of_cycle dev others w = Some x \<and> gremlin_ok g \<and>
    limits g = (0, word_of_int (deep s m 1), word_of_int m, True, word_of_int (gCurrentGremlin w)) \<and>
    agree (w\<lparr>fHordeNextGremlinFromRootState := False, gTheGremlin := g, gIsOn := True,
      gPlayback := RecordEvents True (Playback_Clear (gPlayback w))\<rparr>) x"
proof -
  obtain v where v: "agree w v" "end_of_cycle dev others w = do {
      x \<leftarrow> load_duties (horde_duties dev others) v;
      if fMinimizeLoadState x then RealLoadInitialState others (x\<lparr>fMinimizeLoadState := False\<rparr>) else Some x }"
    using end_loading [OF assms(1-3)] by blast
  have f: "fHordeNextGremlinFromRootState v" "\<not> fHordeNextGremlinFromSuspendState v" "\<not> fHordeLoadRootState v" "calm v"
      "\<not> fHordeSaveSuspendState v"
    using v(1) assms(1,2,5-7) by (simp_all add: agree_def calm_def)
  have "horde_ok a b s m k (v\<lparr>fHordeNextGremlinFromRootState := False\<rparr>)" using agree_ok [OF v(1)] assms(3) by simp
  from LoadRootState_ok [OF this] obtain d g i where l: "LoadRootState (v\<lparr>fHordeNextGremlinFromRootState := False\<rparr>) = Some (True,
      v\<lparr>fHordeNextGremlinFromRootState := False, emulated := d, gTheGremlin := reloaded (clock v) g, kPrefKeyGremlinInfo := i, gIsOn := False,
        gPlayback := Playback_Clear (gPlayback v)\<rparr>)" "gremlin_ok g" by auto
  define y where "y = v\<lparr>fHordeNextGremlinFromRootState := False, emulated := d, gTheGremlin := reloaded (clock v) g,
    kPrefKeyGremlinInfo := i, gIsOn := False, gPlayback := Playback_Clear (gPlayback v)\<rparr>"
  have p: "gMaxDepth v = m" "gSwitchDepth v = s" "0 < m" "gCurrentGremlin v = gCurrentGremlin w"
    using v(1) assms(3) by (simp_all add: agree_def horde_ok_def)
  have "gremlin_ok (gTheGremlin y)" using l(2) by (simp add: y_def)
  from Gremlins_New_ok [OF assms(4) this] obtain x g' where x: "Gremlins_New dev (current_info y) y = Some x" "gremlin_ok g'"
      "limits g' = (0, fSteps (current_info y), fFinal (current_info y), True, ucast (fNumber (current_info y)))"
      "agree (y\<lparr>gTheGremlin := g', gIsOn := True, gPlayback := RecordEvents True (gPlayback y)\<rparr>) x" by blast
  have info: "limits g' = (0, word_of_int (deep s m 1), word_of_int m, True, word_of_int (gCurrentGremlin w))"
    using p by (simp add: x(3) y_def current_info_def deep_def ucast_number)
  have "agree (w\<lparr>fHordeNextGremlinFromRootState := False, gTheGremlin := g', gIsOn := True,
      gPlayback := RecordEvents True (Playback_Clear (gPlayback w))\<rparr>) x"
    using x(4) v(1) by (simp add: agree_def y_def)
  moreover have q: "\<not> fMinimizeLoadState x" "\<not> fHordeNextGremlinFromSuspendState x" using x(4) f by (simp_all add: agree_def y_def calm_def)
  have "LoadRootState (v\<lparr>fHordeNextGremlinFromRootState := False\<rparr>) = Some (True, y)" using l(1) by (simp add: y_def)
  then have "end_of_cycle dev others w = Some x"
    using f q x(1) by (simp add: v(2) load_duties_def duties_are calm_def StartGremlinFromLoadedRootState_def)
  ultimately show ?thesis using x(2) info by blast
qed

lemma end_from_suspended:
  assumes "calm w" and "\<not> fHordeSaveSuspendState w" and "horde_ok a b s m k w"
    and "fHordeNextGremlinFromSuspendState w" and "\<not> fHordeNextGremlinFromRootState w" and "\<not> fHordeLoadRootState w"
    and "suspended m H w (gCurrentGremlin w) c" and "- (2 ^ 31) \<le> s * (gCurrentDepth w + 1)" and "s * (gCurrentDepth w + 1) < 2 ^ 31"
  shows "\<exists>x g p. end_of_cycle dev others w = Some x \<and> gremlin_ok g \<and>
    limits g = (word_of_int c, word_of_int (deep s m (gCurrentDepth w + 1)), word_of_int m, True, word_of_int (gCurrentGremlin w)) \<and>
    stored p (H (gCurrentGremlin w)) \<and> fgRecording p \<and>
    agree (w\<lparr>fHordeNextGremlinFromSuspendState := False, gTheGremlin := g, gIsOn := True, gPlayback := p\<rparr>) x"
proof -
  obtain v where v: "agree w v" "end_of_cycle dev others w = do {
      x \<leftarrow> load_duties (horde_duties dev others) v;
      if fMinimizeLoadState x then RealLoadInitialState others (x\<lparr>fMinimizeLoadState := False\<rparr>) else Some x }"
    using end_loading [OF assms(1-3)] by blast
  have f: "fHordeNextGremlinFromSuspendState v" "\<not> fHordeNextGremlinFromRootState v" "\<not> fHordeLoadRootState v" "calm v"
      "\<not> fHordeSaveSuspendState v"
    using v(1) assms(1,2,4-6) by (simp_all add: agree_def calm_def)
  have p: "gMaxDepth v = m" "gSwitchDepth v = s" "0 < m" "gCurrentGremlin v = gCurrentGremlin w" "gCurrentDepth v = gCurrentDepth w"
    "recorded_up_to k (gPlayback v)" using v(1) assms(3) by (simp_all add: agree_def horde_ok_def)
  have "suspended m H (v\<lparr>fHordeNextGremlinFromSuspendState := False\<rparr>) (gCurrentGremlin (v\<lparr>fHordeNextGremlinFromSuspendState := False\<rparr>)) c"
    using agree_suspended [OF v(1)] assms(7) p(4) by simp
  from LoadSuspendedState_ok [OF this, of k] obtain d g i on q u where l:
    "LoadSuspendedState (v\<lparr>fHordeNextGremlinFromSuspendState := False\<rparr>) = Some (True, v\<lparr>fHordeNextGremlinFromSuspendState := False,
      emulated := d, gTheGremlin := reloaded (clock v) g, kPrefKeyGremlinInfo := i, gIsOn := on, gPlayback := q\<rparr>)"
    "gremlin_ok g" "limits g = (word_of_int c, u, word_of_int m, True, word_of_int (gCurrentGremlin w))" "stored q (H (gCurrentGremlin w))"
    using p by auto
  define y where "y = v\<lparr>fHordeNextGremlinFromSuspendState := False, emulated := d, gTheGremlin := reloaded (clock v) g,
    kPrefKeyGremlinInfo := i, gIsOn := on, gPlayback := q\<rparr>"
  define g' where "g' = SetUntil (word_of_int (deep s m (gCurrentDepth w + 1))) (reloaded (clock v) g)"
  define x where "x = y\<lparr>gTheGremlin := g', gIsOn := True, gPlayback := RecordEvents True q\<rparr>"
  have x: "StartGremlinFromLoadedSuspendedState y = x"
    using p assms(8,9) by (simp add: StartGremlinFromLoadedSuspendedState_def x_def g'_def y_def Hordes_TurnOn_def deep_def c_int_id)
  have q: "\<not> fMinimizeLoadState x" using f(4) by (simp add: x_def y_def calm_def)
  have "LoadSuspendedState (v\<lparr>fHordeNextGremlinFromSuspendState := False\<rparr>) = Some (True, y)" using l(1) by (simp add: y_def)
  then have "end_of_cycle dev others w = Some x"
    using f q x by (simp add: v(2) load_duties_def duties_are calm_def)
  moreover have "gremlin_ok g'" using l(2) by (simp add: g'_def SetUntil_def)
  moreover have "limits g' = (word_of_int c, word_of_int (deep s m (gCurrentDepth w + 1)), word_of_int m, True, word_of_int (gCurrentGremlin w))"
    using l(3) by (simp add: g'_def SetUntil_def limits_def reloaded_def)
  moreover have "agree (w\<lparr>fHordeNextGremlinFromSuspendState := False, gTheGremlin := g', gIsOn := True, gPlayback := RecordEvents True q\<rparr>) x"
    using v(1) by (simp add: agree_def x_def y_def)
  moreover have "stored (RecordEvents True q) (H (gCurrentGremlin w))" "fgRecording (RecordEvents True q)"
    using l(4) by simp (simp add: RecordEvents_def)
  ultimately show ?thesis by blast
qed

end
