(* ===== verification/HordeTurns.thy ===== *)
theory HordeTurns
  imports HordeSteps
begin

text \<open>The end of a gremlin's turn, and the turns of the processor.\<close>

section \<open>The end of the horde\<close>

lemma statistics_ok:
  assumes "length hs = nat (MAXGREMLINS + 1)" and "\<forall>c\<in>set cs. 0 \<le> c \<and> c \<le> MAXGREMLINS"
    and "smallest = no_error \<or> 0 \<le> smallest \<and> smallest \<le> MAXGREMLINS"
  shows "\<exists>r. statistics_loop hs cs (sum0, mn, mx, e, smallest) = Some r"
  using assms(2,3)
proof (induction cs arbitrary: sum0 mn mx e smallest)
  case (Cons c cs)
  have p: "peek hs n = Some (hs ! nat n)" if "0 \<le> n" "n \<le> MAXGREMLINS" for n by (rule peek_halt [OF assms(1) that])
  show ?case using Cons by (cases "smallest = no_error") (auto simp: Let_def p)
qed simp

lemma deviation_ok:
  assumes "length hs = nat (MAXGREMLINS + 1)" and "\<forall>c\<in>set cs. 0 \<le> c \<and> c \<le> MAXGREMLINS"
  shows "\<exists>r. deviation_loop hs avg cs acc = Some r"
  using assms(2)
proof (induction cs arbitrary: acc)
  case (Cons c cs)
  then show ?case by (simp add: Let_def peek_halt [OF assms(1)])
qed simp

lemma ComputeStatistics_ok:
  assumes "horde_ok a b s m k w"
  shows "\<exists>r. ComputeStatistics w = Some r"
proof -
  have h: "length (gGremlinHaltedInError w) = nat (MAXGREMLINS + 1)" "gGremlinStartNumber w = a" "gGremlinStopNumber w = b" "a \<le> b"
    and cs: "\<forall>c\<in>set [a..b]. 0 \<le> c \<and> c \<le> MAXGREMLINS" using assms by (auto simp: horde_ok_def)
  obtain sum0 mn mx e sm where "statistics_loop (gGremlinHaltedInError w) [a..b] (0, no_error, 0, 0, no_error) = Some (sum0, mn, mx, e, sm)"
    using statistics_ok [OF h(1) cs, of no_error 0 no_error 0 0] by auto
  moreover obtain diff where "deviation_loop (gGremlinHaltedInError w) (sum0 sdiv e) [a..b] 0 = Some diff"
    using deviation_ok [OF h(1) cs] by blast
  ultimately show ?thesis using h(2-4) by (simp add: ComputeStatistics_def Let_def)
qed

lemma report_ok:
  assumes "length hs = nat (MAXGREMLINS + 1)" and "\<forall>i\<in>set hs. halt_ok i" and "\<forall>c\<in>set cs. 0 \<le> c \<and> c \<le> MAXGREMLINS"
    and "length arr = nat (errorLast - errorBase + 1)"
    and "\<forall>e\<in>set arr. fFirstErrantGremlinIndex e = - 1 \<or> 0 \<le> fFirstErrantGremlinIndex e \<and> fFirstErrantGremlinIndex e \<le> MAXGREMLINS"
  shows "\<exists>r. report_loop hs cs (arr, n, f) = Some r"
  using assms(3-5)
proof (induction cs arbitrary: arr n f)
  case (Cons c cs)
  define i where "i = hs ! nat c"
  have p: "peek hs j = Some (hs ! nat j)" if "0 \<le> j" "j \<le> MAXGREMLINS" for j by (rule peek_halt [OF assms(1) that])
  have c: "0 \<le> c" "c \<le> MAXGREMLINS" using Cons.prems(1) by auto
  show ?case
  proof (cases "fHalted i")
    case False
    then show ?thesis using Cons p [OF c] by (simp add: i_def)
  next
    case True
    let ?t = "fMessageID i - errorBase"
    have "i \<in> set hs" unfolding i_def using c assms(1) by (intro nth_mem) simp
    then have t: "0 \<le> ?t" "nat ?t < length arr" using assms(2) True Cons.prems(2) by (auto simp: halt_ok_def errorBase_def errorLast_def split: if_splits)
    define e where "e = arr ! nat ?t"
    have pe: "peek arr ?t = Some e" using t by (simp add: peek_def e_def)
    have "e \<in> set arr" using t by (simp add: e_def)
    then have e: "fFirstErrantGremlinIndex e = - 1 \<or> 0 \<le> fFirstErrantGremlinIndex e \<and> fFirstErrantGremlinIndex e \<le> MAXGREMLINS"
      using Cons.prems(3) by blast
    let ?e1 = "e\<lparr>fErrorFrequency := fErrorFrequency e + 1\<rparr>"
    let ?e2 = "?e1\<lparr>fCount := fErrorEvent i, fFirstErrantGremlinIndex := c\<rparr>"
    have "\<exists>r. report_loop hs cs (arr[nat ?t := x], n', f') = Some r" if "x \<in> {?e1, ?e2}" for x n' f'
    proof (rule Cons.IH)
      show "\<forall>e\<in>set (arr[nat ?t := x]). fFirstErrantGremlinIndex e = - 1 \<or> 0 \<le> fFirstErrantGremlinIndex e \<and> fFirstErrantGremlinIndex e \<le> MAXGREMLINS"
        using that e c Cons.prems(3) by (auto dest!: set_update_subset_insert [THEN subsetD])
    qed (use Cons.prems in auto)
    moreover have "peek hs (fFirstErrantGremlinIndex e) = Some (hs ! nat (fFirstErrantGremlinIndex e))" if "fFirstErrantGremlinIndex e \<noteq> - 1"
      using e that p by blast
    ultimately show ?thesis using True p [OF c] pe
      by (cases "fFirstErrantGremlinIndex e = - 1") (auto simp: Let_def simp flip: i_def)
  qed
qed simp

lemma GremlinReport_ok:
  assumes "horde_ok a b s m k w"
  shows "\<exists>r. GremlinReport w = Some r"
proof -
  have h: "length (gGremlinHaltedInError w) = nat (MAXGREMLINS + 1)" "gGremlinStartNumber w = a" "gGremlinStopNumber w = b" "a \<le> b"
    and hs: "\<forall>i\<in>set (gGremlinHaltedInError w). halt_ok i"
    and cs: "\<forall>c\<in>set [a..b]. 0 \<le> c \<and> c \<le> MAXGREMLINS" using assms by (auto simp: horde_ok_def)
  obtain arr n f where "report_loop (gGremlinHaltedInError w) [a..b] (no_errors, 0, 1) = Some (arr, n, f)"
    using report_ok [OF h(1) hs cs, of no_errors 0 1] by (auto simp: no_errors_def)
  then show ?thesis using h by (simp add: GremlinReport_def)
qed

lemma EndHordes_ok:
  assumes "horde_ok a b s m k w"
  shows "\<exists>v. EndHordes w = Some v \<and> agree (w\<lparr>gIsOn := False, gPlayback := Playback_Clear (gPlayback w),
    fHordeLoadRootState := (fHordeLoadRootState w \<or> a \<noteq> b)\<rparr>) v"
proof -
  have o: "horde_ok a b s m k (Hordes_TurnOn True w)" using assms by simp
  obtain st where st: "ComputeStatistics (Hordes_TurnOn True w) = Some st" using ComputeStatistics_ok [OF o] by blast
  obtain r where r: "GremlinReport (Hordes_TurnOn True w) = Some r" using GremlinReport_ok [OF o] by blast
  have ab: "gGremlinStartNumber w = a" "gGremlinStopNumber w = b" using assms by (simp_all add: horde_ok_def)
  show ?thesis unfolding EndHordes_def Let_def st r bind.bind_lunit
    by (simp add: Hordes_TurnOn_def InSingleGremlinMode_def ab ScheduleDuty_def agree_def
      RecordEvents_def Playback_Clear_def ResetPlayback_def)
qed

section \<open>From one gremlin to the next\<close>

lemma deep_more: "0 < s \<Longrightarrow> s * d < m \<Longrightarrow> s * d < deep s m (d + 1)"
  by (simp add: deep_def distrib_left)

lemma deep_less: "s * d < m \<Longrightarrow> deep s m d = s * d"
  by (simp add: deep_def)

lemma deep_all: "m \<le> s * d \<Longrightarrow> deep s m d = m"
  by (simp add: deep_def)

text \<open>What is known about all the gremlins when the next one is chosen.\<close>

definition between_turns :: "int \<Rightarrow> int \<Rightarrow> (int \<Rightarrow> EmRecordedEvent list) \<Rightarrow> ('e, 'b, 'k, 'm) Hordes \<Rightarrow> bool" where
  "between_turns s m H w \<longleftrightarrow> in_range w \<and> 0 < s \<and> s * gCurrentDepth w < m \<and> others_done s m H w \<and>
     (halted w (gCurrentGremlin w) \<or> suspended m H w (gCurrentGremlin w) (deep s m (gCurrentDepth w + 1)))"

lemma agree_between: "agree v w \<Longrightarrow> between_turns s m H w = between_turns s m H v"
  using agree_others [of v w s m H] agree_suspended [of v w m H] by (simp add: agree_def between_turns_def in_range_def)

lemma next_goes_on:
  assumes "between_turns s m H w" and "next_gremlin w (Some (g, e))" and "s * e < m"
  shows "others_done s m H (w\<lparr>gCurrentGremlin := g, gCurrentDepth := e\<rparr>) \<and> (e = 0 \<and> H g = [] \<or> e \<noteq> 0 \<and> suspended m H w g (s * e))"
proof -
  let ?d = "gCurrentDepth w" and ?cur = "gCurrentGremlin w" and ?a = "gGremlinStartNumber w" and ?b = "gGremlinStopNumber w"
  have below: "halted w n \<or> suspended m H w n (deep s m (?d + 1))" if "?a \<le> n" "n \<le> ?cur" for n
    using assms(1) that by (cases "n = ?cur") (auto simp: between_turns_def others_done_def)
  have above: "halted w n \<or> ?d = 0 \<and> H n = [] \<or> ?d \<noteq> 0 \<and> suspended m H w n (s * ?d)" if "?cur < n" "n \<le> ?b" for n
    using assms(1) that by (auto simp: between_turns_def others_done_def)
  have g: "\<not> halted w g" using assms(2) by (simp add: next_gremlin_def Let_def)
  have "e = ?d \<and> ?cur < g \<and> g \<le> ?b \<and> (\<forall>n\<in>{?cur<..<g}. halted w n) \<or>
      e = ?d + 1 \<and> ?a \<le> g \<and> g \<le> ?cur \<and> (\<forall>n\<in>{?cur<..?b}. halted w n) \<and> (\<forall>n\<in>{?a..<g}. halted w n)"
    using assms(2) by (simp add: next_gremlin_def Let_def)
  then show ?thesis
  proof
    assume c: "e = ?d \<and> ?cur < g \<and> g \<le> ?b \<and> (\<forall>n\<in>{?cur<..<g}. halted w n)"
    have "halted w n \<or> suspended m H w n (deep s m (?d + 1))" if "?a \<le> n" "n < g" for n
      using c that below [of n] by (cases "n \<le> ?cur") auto
    moreover have "halted w n \<or> ?d = 0 \<and> H n = [] \<or> ?d \<noteq> 0 \<and> suspended m H w n (s * ?d)" if "g < n" "n \<le> ?b" for n
      using c that above [of n] by auto
    ultimately show ?thesis using c above [of g] g by (simp add: others_done_def)
  next
    assume c: "e = ?d + 1 \<and> ?a \<le> g \<and> g \<le> ?cur \<and> (\<forall>n\<in>{?cur<..?b}. halted w n) \<and> (\<forall>n\<in>{?a..<g}. halted w n)"
    have e: "deep s m (?d + 1) = s * e" using assms(3) c by (simp add: deep_less)
    have o: "halted w n \<or> suspended m H w n (s * e)" if "g \<le> n" "n \<le> ?b" for n
      using c that below [of n] e by (cases "n \<le> ?cur") auto
    have "g \<le> ?b" using c assms(1) by (simp add: between_turns_def in_range_def)
    then have "suspended m H w g (s * e)" using o [of g] g by simp
    moreover have "\<forall>n\<in>{g<..?b}. halted w n \<or> suspended m H w n (s * e)" using o by simp
    moreover have "e \<noteq> 0" using c assms(1) by (simp add: between_turns_def in_range_def)
    ultimately show ?thesis using c by (auto simp: others_done_def)
  qed
qed

lemma next_is_over:
  assumes "between_turns s m H w" and "next_gremlin w (Some (g, e))" and "m \<le> s * e"
  shows "\<forall>n\<in>{gGremlinStartNumber w..gGremlinStopNumber w}. halted w n \<or> suspended m H w n m"
proof
  fix n
  let ?d = "gCurrentDepth w" and ?cur = "gCurrentGremlin w" and ?a = "gGremlinStartNumber w" and ?b = "gGremlinStopNumber w"
  assume n: "n \<in> {?a..?b}"
  have d: "e = ?d + 1" "\<forall>n\<in>{?cur<..?b}. halted w n"
    using assms by (auto simp: next_gremlin_def Let_def between_turns_def)
  have "halted w n \<or> suspended m H w n (deep s m (?d + 1))" if "n \<le> ?cur"
    using assms(1) that n by (cases "n = ?cur") (auto simp: between_turns_def others_done_def)
  then show "halted w n \<or> suspended m H w n m" using d n assms(3) by (cases "n \<le> ?cur") (auto simp: deep_all)
qed

lemma next_is_further:
  assumes "between_turns s m H w" and "next_gremlin w (Some (g, e))"
  shows "gGremlinStartNumber w \<le> g \<and> g \<le> gGremlinStopNumber w \<and> 0 \<le> e \<and> \<not> halted w g \<and>
    position w < position (w\<lparr>gCurrentGremlin := g, gCurrentDepth := e\<rparr>)"
proof -
  have "in_range w" using assms(1) by (simp add: between_turns_def)
  then show ?thesis using assms(2) by (auto simp: next_gremlin_def Let_def in_range_def position_def distrib_right)
qed

lemma depth_reached:
  assumes "0 < s" and "0 \<le> (e :: int)" and "0 < m"
  shows "(e > m sdiv s \<or> e = m sdiv s \<and> m smod s = 0) \<longleftrightarrow> m \<le> s * e"
proof -
  have q: "m sdiv s = m div s" "m smod s = m mod s" using assms by (simp_all add: signed_divide_int_def signed_modulo_int_def)
  have m: "m = s * (m div s) + m mod s" "0 \<le> m mod s" "m mod s < s" using assms(1) by simp_all
  show ?thesis
  proof (cases e "m div s" rule: linorder_cases)
    case less
    then have "s * (e + 1) \<le> s * (m div s)" using assms(1) by (intro mult_left_mono) auto
    then have "s * e + s \<le> s * (m div s)" by (simp add: distrib_left)
    then have "s * e < m" using m assms(1) by linarith
    then show ?thesis using less unfolding q by simp
  next
    case equal
    moreover have "m \<le> s * (m div s) \<longleftrightarrow> m mod s = 0" using m by linarith
    ultimately show ?thesis unfolding q by simp
  next
    case greater
    then have "s * (m div s + 1) \<le> s * e" using assms(1) by (intro mult_left_mono) auto
    then have "s * (m div s) + s \<le> s * e" by (simp add: distrib_left)
    then have "m \<le> s * e" using m by linarith
    then show ?thesis using greater unfolding q by simp
  qed
qed

text \<open>Stopping, and saving the progress, leave the horde as it is, turned off.\<close>

lemma stopped_ok:
  assumes "horde_ok a b s m k w" and "gIsOn w"
  shows "\<exists>v. SaveSearchProgress (Hordes_Stop w) = Some v \<and> agree (w\<lparr>gIsOn := False, gPlayback := RecordEvents False (gPlayback w)\<rparr>) v"
proof -
  let ?w = "Hordes_Stop w"
  have "length (gGremlinHaltedInError ?w) = nat (MAXGREMLINS + 1)"
    using assms by (simp add: Hordes_Stop_def Gremlins_Stop_def Hordes_TurnOn_def Let_def horde_ok_def)
  then obtain f where f: "GremlinsFlagsToString (gGremlinHaltedInError ?w) = Some f" by (simp add: GremlinsFlagsToString_def MAXGREMLINS_def)
  have "agree (w\<lparr>gIsOn := False, gPlayback := RecordEvents False (gPlayback w)\<rparr>) (?w\<lparr>progress_file := x\<rparr>)" for x
    using assms(2) by (simp add: Hordes_Stop_def Gremlins_Stop_def Hordes_TurnOn_def Let_def agree_def)
  then show ?thesis by (simp add: SaveSearchProgress_def f)
qed

lemma agree_with:
  "agree v w \<Longrightarrow> agree (v\<lparr>gCurrentGremlin := g, gCurrentDepth := e\<rparr>) (w\<lparr>gCurrentGremlin := g, gCurrentDepth := e\<rparr>)"
  "agree v w \<Longrightarrow> agree (v\<lparr>fHordeNextGremlinFromRootState := x\<rparr>) (w\<lparr>fHordeNextGremlinFromRootState := x\<rparr>)"
  "agree v w \<Longrightarrow> agree (v\<lparr>fHordeNextGremlinFromSuspendState := x\<rparr>) (w\<lparr>fHordeNextGremlinFromSuspendState := x\<rparr>)"
  by (simp_all add: agree_def)

text \<open>The end of the horde, at the end of the cycle.\<close>

lemma ending:
  assumes "horde_ok a b s m k w" and "quiet w" and "\<forall>n\<in>{a..b}. halted w n \<or> suspended m H w n m"
  shows "\<exists>v x. EndHordes w = Some v \<and> end_of_cycle dev others v = Some x \<and> over a b m H x"
proof -
  obtain v where v: "EndHordes w = Some v" "agree (w\<lparr>gIsOn := False, gPlayback := Playback_Clear (gPlayback w),
    fHordeLoadRootState := (fHordeLoadRootState w \<or> a \<noteq> b)\<rparr>) v" using EndHordes_ok [OF assms(1)] by blast
  let ?u = "w\<lparr>gIsOn := False, gPlayback := Playback_Clear (gPlayback w), fHordeLoadRootState := (fHordeLoadRootState w \<or> a \<noteq> b)\<rparr>"
  have "recorded_up_to k (Playback_Clear (gPlayback w))" using assms(1) by (intro recorded_Clear [of k]) (simp add: horde_ok_def)
  then have "horde_ok a b s m k ?u" using assms(1) by (simp add: horde_ok_def)
  then have "horde_ok a b s m k v" using agree_ok [OF v(2)] by simp
  moreover have "calm v" "\<not> fHordeSaveSuspendState v" "\<not> fHordeNextGremlinFromRootState v" "\<not> fHordeNextGremlinFromSuspendState v" "\<not> gIsOn v"
    using v(2) assms(2) by (simp_all add: agree_def quiet_def calm_def)
  moreover have "halted v n = halted w n" for n using v(2) by (simp add: agree_def)
  then have "\<forall>n\<in>{a..b}. halted v n \<or> suspended m H v n m" using assms(3) agree_suspended [OF v(2)] by simp
  ultimately show ?thesis using end_load_root v(1) by blast
qed

text \<open>The next gremlin starts with the root state, or goes on from its files.\<close>

lemma starting:
  assumes "horde_ok a b s m k w" and "quiet w" and "dev_ok dev" and "s + m < 2 ^ 31"
    and "a \<le> gCurrentGremlin w" and "gCurrentGremlin w \<le> b" and "0 \<le> gCurrentDepth w" and "s * gCurrentDepth w < m"
    and "\<not> halted w (gCurrentGremlin w)" and "others_done s m H w"
    and "gCurrentDepth w = 0 \<and> H (gCurrentGremlin w) = [] \<or> gCurrentDepth w \<noteq> 0 \<and> suspended m H w (gCurrentGremlin w) (s * gCurrentDepth w)"
    and "\<forall>n. length (H n) \<le> k"
  shows "\<exists>x. end_of_cycle dev others
      (ScheduleDuty (if gCurrentDepth w = 0 then NextGremlinFromRootState else NextGremlinFromSuspendedState) w) = Some x \<and>
    quiet x \<and> running a b s m H k (s * gCurrentDepth w) x \<and> position x = position w \<and> gCurrentDepth x = gCurrentDepth w"
proof -
  let ?d = "gCurrentDepth w" and ?cur = "gCurrentGremlin w"
  have s: "0 < s" "0 < m" using assms(1) by (simp_all add: horde_ok_def)
  have "0 \<le> s * (?d + 1)" using s assms(7) by simp
  moreover have "s * (?d + 1) < 2 ^ 31" using assms(4,8) by (simp add: distrib_left)
  ultimately have bnd: "- (2 ^ 31) \<le> s * (?d + 1)" "s * (?d + 1) < 2 ^ 31" by simp_all
  obtain x g p where x: "end_of_cycle dev others
      (ScheduleDuty (if ?d = 0 then NextGremlinFromRootState else NextGremlinFromSuspendedState) w) = Some x"
    and g: "gremlin_ok g" "limits g = (word_of_int (s * ?d), word_of_int (deep s m (?d + 1)), word_of_int m, True, word_of_int ?cur)"
    and p: "stored p (H ?cur)" "fgRecording p"
    and agr: "agree (w\<lparr>gTheGremlin := g, gIsOn := True, gPlayback := p\<rparr>) x"
  proof (cases "?d = 0")
    case True
    let ?w = "w\<lparr>fHordeNextGremlinFromRootState := True\<rparr>"
    have "calm ?w" "\<not> fHordeSaveSuspendState ?w" "\<not> fHordeNextGremlinFromSuspendState ?w" "\<not> fHordeLoadRootState ?w"
      using assms(2) by (simp_all add: quiet_def calm_def)
    then obtain x g where x: "end_of_cycle dev others ?w = Some x" "gremlin_ok g"
        "limits g = (0, word_of_int (deep s m 1), word_of_int m, True, word_of_int ?cur)"
        "agree (w\<lparr>fHordeNextGremlinFromRootState := False, gTheGremlin := g, gIsOn := True,
          gPlayback := RecordEvents True (Playback_Clear (gPlayback w))\<rparr>) x"
      using end_from_root [of ?w a b s m k dev others] assms(1,3) by auto
    have "stored (RecordEvents True (Playback_Clear (gPlayback w))) (H ?cur)"
      using assms(1,11) True by (simp add: horde_ok_def stored_Clear [of k])
    moreover have "agree (w\<lparr>gTheGremlin := g, gIsOn := True, gPlayback := RecordEvents True (Playback_Clear (gPlayback w))\<rparr>) x"
      using x(4) assms(2) by (simp add: agree_def quiet_def)
    ultimately show ?thesis using that [of x g "RecordEvents True (Playback_Clear (gPlayback w))"] True x(1-3)
      by (simp add: ScheduleDuty_def RecordEvents_def)
  next
    case False
    let ?w = "w\<lparr>fHordeNextGremlinFromSuspendState := True\<rparr>"
    have f: "calm ?w" "\<not> fHordeSaveSuspendState ?w" "\<not> fHordeNextGremlinFromRootState ?w" "\<not> fHordeLoadRootState ?w"
      using assms(2) by (simp_all add: quiet_def calm_def)
    have o: "horde_ok a b s m k ?w" "suspended m H ?w (gCurrentGremlin ?w) (s * ?d)" using assms(1,11) False by simp_all
    have b: "- (2 ^ 31) \<le> s * (gCurrentDepth ?w + 1)" "s * (gCurrentDepth ?w + 1) < 2 ^ 31" using bnd by simp_all
    obtain x g p where x: "end_of_cycle dev others ?w = Some x" "gremlin_ok g"
        "limits g = (word_of_int (s * ?d), word_of_int (deep s m (?d + 1)), word_of_int m, True, word_of_int ?cur)"
        "stored p (H ?cur)" "fgRecording p"
        "agree (w\<lparr>fHordeNextGremlinFromSuspendState := False, gTheGremlin := g, gIsOn := True, gPlayback := p\<rparr>) x"
      using end_from_suspended [OF f(1,2) o(1) _ f(3,4) o(2) b, of dev others] by auto
    have "agree (w\<lparr>gTheGremlin := g, gIsOn := True, gPlayback := p\<rparr>) x"
      using x(6) assms(2) by (simp add: agree_def quiet_def)
    then show ?thesis using that [of x g p] False x(1-5) by (simp add: ScheduleDuty_def)
  qed
  let ?u = "w\<lparr>gTheGremlin := g, gIsOn := True, gPlayback := p\<rparr>"
  have "horde_ok a b s m k ?u" using assms(1,12) g(1) stored_recorded [OF p(1)] by (simp add: horde_ok_def)
  moreover have "others_done s m H ?u" using assms(10) by (simp add: others_done_def)
  ultimately have "running a b s m H k (s * ?d) ?u"
    using assms(5-9,12) g p s deep_more [OF s(1) assms(8)] by (simp add: running_def)
  moreover have "quiet ?u" "position ?u = position w" using assms(2) by (simp_all add: quiet_def position_def)
  moreover have "gCurrentDepth x = ?d" using agr by (simp add: agree_def)
  ultimately show ?thesis using x agree_running [OF agr] agree_quiet [OF agr] agree_position [OF agr] by auto
qed

lemma next_turn:
  assumes "horde_ok a b s m k w" and "quiet w" and "gIsOn w" and "dev_ok dev" and "s + m < 2 ^ 31" and "between_turns s m H w"
    and "\<forall>n. length (H n) \<le> k"
  shows "\<exists>v x. NextGremlin w = Some v \<and> end_of_cycle dev others v = Some x \<and>
    (over a b m H x \<or> quiet x \<and> running a b s m H k (s * gCurrentDepth x) x \<and> position w < position x)"
proof -
  let ?u = "w\<lparr>gIsOn := False, gPlayback := RecordEvents False (gPlayback w)\<rparr>"
  obtain v where v: "SaveSearchProgress (Hordes_Stop w) = Some v" "agree ?u v" using stopped_ok [OF assms(1,3)] by blast
  have "horde_ok a b s m k ?u" using assms(1) by (simp add: horde_ok_def)
  then have ok: "horde_ok a b s m k v" using agree_ok [OF v(2)] by simp
  have q: "quiet v" using agree_quiet [OF v(2)] assms(2) by (simp add: quiet_def)
  have "between_turns s m H ?u" using assms(6) by (simp add: between_turns_def in_range_def others_done_def)
  then have bt: "between_turns s m H v" using agree_between [OF v(2)] by simp
  have pos: "position v = position w" using v(2) by (simp add: agree_def position_def)
  have r: "gGremlinStartNumber v = a" "gGremlinStopNumber v = b" "gSwitchDepth v = s" "gMaxDepth v = m" "0 < s" "0 < m"
    using ok by (simp_all add: horde_ok_def)
  obtain g d where g: "ProposeNextGremlin v (gCurrentGremlin v) (gCurrentDepth v) = (g, d)" by fastforce
  have "in_range v" using bt by (simp add: between_turns_def)
  from the_next_gremlin [OF this g] obtain n where n: "next_gremlin_loop v g d = Some n" "next_gremlin v n" by blast
  show ?thesis
  proof (cases n)
    case None
    then have "\<forall>n\<in>{a..b}. halted v n" using n(2) r by (simp add: next_gremlin_def)
    then obtain y x where x: "EndHordes v = Some y" "end_of_cycle dev others y = Some x" "over a b m H x" using ending [OF ok q] by blast
    then have "NextGremlin w = Some y" using n(1) None by (simp add: NextGremlin_def v(1) g)
    then show ?thesis using x by blast
  next
    case (Some ge)
    obtain h e where he: "ge = (h, e)" by fastforce
    let ?z = "v\<lparr>gCurrentGremlin := h, gCurrentDepth := e\<rparr>"
    have n': "next_gremlin v (Some (h, e))" using n(2) Some he by simp
    note far = next_is_further [OF bt n'] and reached = depth_reached [OF r(5) _ r(6), of e]
    have okz: "horde_ok a b s m k ?z" "quiet ?z" using ok q by (simp_all add: quiet_def)
    have N: "NextGremlin w = (if m \<noteq> - 1 \<and> s = 0 then None else if m \<noteq> - 1 \<and> (e > m sdiv s \<or> e = m sdiv s \<and> m smod s = 0)
        then EndHordes ?z else Some (ScheduleDuty (if e = 0 then NextGremlinFromRootState else NextGremlinFromSuspendedState) ?z))"
      by (simp add: NextGremlin_def v(1) g n(1) Some he r(3,4) Let_def)
    show ?thesis
    proof (cases "m \<le> s * e")
      case True
      have "\<forall>n\<in>{a..b}. halted ?z n \<or> suspended m H ?z n m" using next_is_over [OF bt n' True] r by simp
      then obtain y x where x: "EndHordes ?z = Some y" "end_of_cycle dev others y = Some x" "over a b m H x" using ending [OF okz] by blast
      then have "NextGremlin w = Some y" using N r reached True far by simp
      then show ?thesis using x by blast
    next
      case False
      then have less: "s * e < m" by simp
      have o: "others_done s m H ?z" "e = 0 \<and> H h = [] \<or> e \<noteq> 0 \<and> suspended m H ?z h (s * e)" using next_goes_on [OF bt n' less] by simp_all
      obtain x where x: "end_of_cycle dev others (ScheduleDuty (if e = 0 then NextGremlinFromRootState else NextGremlinFromSuspendedState) ?z) = Some x"
        "quiet x" "running a b s m H k (s * e) x" "position x = position ?z" "gCurrentDepth x = e"
        using starting [OF okz assms(4,5), of H others] far o less r assms(7) by auto
      have "NextGremlin w = Some (ScheduleDuty (if e = 0 then NextGremlinFromRootState else NextGremlinFromSuspendedState) ?z)"
        using N r reached False far by simp
      then show ?thesis using x far pos by auto
    qed
  qed
qed

end
