(* ===== verification/HordeRuns.thy ===== *)
theory HordeRuns
  imports HordeTurns
begin

text \<open>The turns of the processor, and how many of them a horde takes.\<close>

section \<open>A turn\<close>

lemma sint_number: "0 \<le> n \<Longrightarrow> n < 2 ^ 31 \<Longrightarrow> sint (word_of_int n :: uint32) = n"
  by (simp add: int_word_sint)

lemma gremlin_ok_limits:
  assumes "running a b s m H k c w" and "s + m + int k < 2 ^ 31"
  shows "EventCounter w = c" "EventLimit w = deep s m (gCurrentDepth w + 1)" "0 < deep s m (gCurrentDepth w + 1)"
    "deep s m (gCurrentDepth w + 1) \<le> m" "0 \<le> c" "c < m + int k"
proof -
  let ?d = "gCurrentDepth w"
  have r: "0 < s" "0 < m" "0 \<le> ?d" "s * ?d < m" "s * ?d \<le> c" "c \<le> s * ?d + int k"
    "limits (gTheGremlin w) = (word_of_int c, word_of_int (deep s m (?d + 1)), word_of_int m, True, word_of_int (gCurrentGremlin w))"
    using assms(1) by (simp_all add: running_def horde_ok_def)
  define q where "q = s * ?d"
  have q: "0 \<le> q" "q < m" "q \<le> c" "c \<le> q + int k" "deep s m (?d + 1) = min (q + s) m"
    using r(1,3-6) by (simp_all add: q_def deep_def distrib_left)
  then show b: "0 < deep s m (?d + 1)" "deep s m (?d + 1) \<le> m" "0 \<le> c" "c < m + int k" using r(1,2) by simp_all
  show "EventCounter w = c" "EventLimit w = deep s m (?d + 1)"
    using r(1,7) b assms(2) by (simp_all add: EventCounter_def EventLimit_def SStatus_def limits_def sint_number)
qed

lemma suspended_events:
  assumes "suspended m G w n c" and "if n = j then history_of (H j) h else G n = H n"
  shows "suspended m H (w\<lparr>event_files := (event_files w)(Gremlin_Events j \<mapsto> (root, h))\<rparr>) n c"
  using assms by (auto simp: suspended_def split: if_splits)

lemma suspended_files:
  assumes "suspended m H w n c" and "n \<noteq> j"
  shows "suspended m H (w\<lparr>fHordeSaveSuspendState := x, gTheGremlin := g, state_files := (state_files w)(Gremlin_Suspended j \<mapsto> f),
    event_files := (event_files w)(Gremlin_Events j \<mapsto> e)\<rparr>) n c"
  using assms by (auto simp: suspended_def)

text \<open>The events that a turn adds to the history of the gremlin that runs.\<close>

definition made_of :: "made_up \<Rightarrow> EmRecordedEvent list" where
  "made_of made = (case made of None \<Rightarrow> [] | Some (result, events, calls, g) \<Rightarrow> events)"

definition new_events :: "'m turn \<Rightarrow> ('e, 'b, 'k, 'm) Hordes \<Rightarrow> EmRecordedEvent list" where
  "new_events t w = (case t of
       AskEvent p \<Rightarrow> if gIsOn w \<and> \<not> (EventLimit w > 0 \<and> EventCounter w > EventLimit w)
         then made_of (GetFakeEvent p (gTheGremlin w)) else []
     | AskPen p \<Rightarrow> if gIsOn w then made_of (GetPenMovement p (gTheGremlin (Hordes_BumpCounter w))) else []
     | Error e \<Rightarrow> []
     | Go m now \<Rightarrow> [])"

abbreviation longer :: "(int \<Rightarrow> EmRecordedEvent list) \<Rightarrow> EmRecordedEvent list \<Rightarrow> ('e, 'b, 'k, 'm) Hordes \<Rightarrow> int \<Rightarrow> EmRecordedEvent list" where
  "longer H es w \<equiv> H(gCurrentGremlin w := H (gCurrentGremlin w) @ es)"

text \<open>A gremlin that has made an event: it is saved when it has come to the end of its turn.\<close>

lemma bumped:
  assumes "running a b s m H k c w" and "quiet w" and "13 * (k + 1) < 2 ^ 31"
    and "gremlin_ok g" and "stored p (H (gCurrentGremlin w) @ es)" and "length es \<le> 1" and "fgRecording p"
    and "limits g = (word_of_int (c + 1), word_of_int (deep s m (gCurrentDepth w + 1)), word_of_int m, True, word_of_int (gCurrentGremlin w))"
    and "agree (w\<lparr>gTheGremlin := g, gPlayback := p, fHordeSaveSuspendState := (c + 1 = deep s m (gCurrentDepth w + 1))\<rparr>) v"
  shows "\<exists>x. end_of_cycle dev others v = Some x \<and> quiet x \<and> running a b s m (longer H es w) (k + 1) (c + 1) x \<and> position x = position w \<and> gCurrentDepth x = gCurrentDepth w"
proof -
  let ?L = "deep s m (gCurrentDepth w + 1)" and ?cur = "gCurrentGremlin w"
  define G where "G = longer H es w"
  have G: "stored p (G ?cur)" "length (G n) \<le> k + 1" for n
  proof -
    have len: "length (H n) \<le> k" for n using assms(1) by (simp add: running_def)
    show "length (G n) \<le> k + 1" for n using len [of n] assms(6) by (cases "n = ?cur") (simp_all add: G_def)
    show "stored p (G ?cur)" using assms(5) by (simp add: G_def)
  qed
  let ?u = "w\<lparr>gTheGremlin := g, gPlayback := p, fHordeSaveSuspendState := (c + 1 = ?L)\<rparr>"
  have r: "running a b s m H (k + 1) c w" by (rule running_mono [OF assms(1)]) simp
  then have "horde_ok a b s m (k + 1) w" by (simp add: running_def)
  then have "horde_ok a b s m (k + 1) ?u" using assms(4) stored_recorded [OF G] by (simp add: horde_ok_def)
  then have ok: "horde_ok a b s m (k + 1) v" using agree_ok [OF assms(9)] by simp
  have "others_done s m G w" using r others_history [of s m H w] by (simp add: running_def G_def)
  then have o: "others_done s m G v" using agree_others [OF assms(9)] by (simp add: others_done_def)
  have same: "gCurrentGremlin v = ?cur" "gCurrentDepth v = gCurrentDepth w" "gIsOn v = gIsOn w" "gPlayback v = p" "limits (gTheGremlin v) = limits g"
      "halted v n = halted w n" "position v = position w" for n
    using assms(9) by (simp_all add: agree_def position_def)
  have susp: "?L \<le> c \<longrightarrow> (\<exists>G. suspended m G v ?cur ?L)" using r agree_suspended [OF assms(9)] by (simp add: running_def)
  show ?thesis
  proof (cases "c + 1 = ?L")
    case False
    then have "quiet v" using agree_quiet [OF assms(9)] assms(2) by (simp add: quiet_def)
    then obtain x where x: "end_of_cycle dev others v = Some x" "agree v x" using end_quiet [OF _ ok] by blast
    have "running a b s m G (k + 1) (c + 1) v" using r assms(1) ok o same assms(7,8) susp False G by (simp add: running_def)
    then show ?thesis unfolding G_def [symmetric] using x \<open>quiet v\<close> agree_quiet [OF x(2)] agree_running [OF x(2)] agree_position [OF x(2)] same x(2) by (simp add: agree_def)
  next
    case True
    have f: "calm v" "no_load v" "fHordeSaveSuspendState v"
      using assms(2,9) True by (simp_all add: quiet_def agree_def calm_def no_load_def)
    have "limits (gTheGremlin v) = (word_of_int (c + 1), word_of_int ?L, word_of_int m, True, word_of_int (gCurrentGremlin v))"
      using same assms(8) by simp
    from end_saving [OF f ok assms(3) this, of dev others] obtain y sf root h where y: "agree v y"
      "end_of_cycle dev others v = Some (y\<lparr>fHordeSaveSuspendState := False, gTheGremlin := (gTheGremlin y)\<lparr>gremlinStopTime := clock y\<rparr>,
        state_files := (state_files y)(Gremlin_Suspended ?cur \<mapsto> sf), event_files := (event_files y)(Gremlin_Events ?cur \<mapsto> (root, h))\<rparr>)"
      "suspended_file m sf ?cur (c + 1)" "history_of (G ?cur) h" using same(1,4) G(1) by auto
    define x where "x = y\<lparr>fHordeSaveSuspendState := False, gTheGremlin := (gTheGremlin y)\<lparr>gremlinStopTime := clock y\<rparr>,
        state_files := (state_files y)(Gremlin_Suspended ?cur \<mapsto> sf), event_files := (event_files y)(Gremlin_Events ?cur \<mapsto> (root, h))\<rparr>"
    have oky: "horde_ok a b s m (k + 1) y" "others_done s m G y" using ok o agree_ok [OF y(1)] agree_others [OF y(1)] by simp_all
    have "horde_ok a b s m (k + 1) x" using oky(1) by (simp add: horde_ok_def x_def)
    moreover have samey: "gCurrentGremlin y = ?cur" "gCurrentDepth y = gCurrentDepth w" "gIsOn y = gIsOn w" "gPlayback y = p"
        "limits (gTheGremlin y) = limits g" "halted y n = halted w n" "position y = position w" for n
      using y(1) same by (simp_all add: agree_def position_def)
    moreover have "suspended m G x ?cur ?L" using y(3,4) True by (auto simp: suspended_def x_def)
    moreover have "others_done s m G x"
      using oky(2) samey(1) suspended_files [of m G y _ _ ?cur] unfolding others_done_def x_def by fastforce
    ultimately have "running a b s m G (k + 1) (c + 1) x"
      using r assms(1,7,8) G by (auto simp: running_def x_def)
    moreover have "quiet x" using y(1) f by (simp add: x_def quiet_def agree_def calm_def no_load_def)
    moreover have "position x = position w" "gCurrentDepth x = gCurrentDepth w" using samey(2,7) by (simp_all add: x_def position_def)
    ultimately show ?thesis unfolding G_def [symmetric] using y(2) by (simp add: x_def)
  qed
qed

text \<open>An event, and a movement of the pen.\<close>

lemma made_event_ok:
  assumes "stored (gPlayback w) ds" and "fgRecording (gPlayback w)" and "well_made made" and "alike made" and "keeps_limits g made"
  shows "\<exists>r g' p d. made_event dev made w = Some (r, w\<lparr>gTheGremlin := g', gPlayback := p, emulated := d\<rparr>) \<and>
    gremlin_ok g' \<and> limits g' = limits g \<and> stored p (ds @ made_of made) \<and> length (made_of made) \<le> 1 \<and> fgRecording p"
proof -
  obtain r es calls g' where m: "made = Some (r, es, calls, g')" "gremlin_ok g'" "limits g' = limits g" "length es \<le> 1" "\<forall>e\<in>set es. storable e"
    using made_up_ok [OF assms(3-5)] by blast
  from record_all_ok [OF assms(1,2) m(5)] obtain p where "record_all es (gPlayback w) = Some p" "stored p (ds @ es)" "fgRecording p" by blast
  then show ?thesis using m by (simp add: made_event_def made_of_def) blast
qed

lemma BumpCounter_agree:
  assumes "EventCounter w = c" and "EventLimit w = l" and "0 < l" and "0 \<le> c" and "c + 1 < 2 ^ 31" and "\<not> fHordeSaveSuspendState w"
  shows "agree (w\<lparr>gTheGremlin := Gremlins_BumpCounter (gTheGremlin w), fHordeSaveSuspendState := (c + 1 = l)\<rparr>) (Hordes_BumpCounter w)"
proof -
  define v where "v = w\<lparr>gTheGremlin := Gremlins_BumpCounter (gTheGremlin w)\<rparr>"
  have "sint (counter (gTheGremlin w)) = c" using assms(1) by (simp add: EventCounter_def SStatus_def)
  then have "counter (gTheGremlin w) = word_of_int c" by auto
  then have "EventCounter v = sint (word_of_int (c + 1) :: uint32)" by (simp add: v_def EventCounter_def SStatus_def Gremlins_BumpCounter_def)
  then have c: "EventCounter v = c + 1" using assms(4,5) sint_number [of "c + 1"] by simp
  have l: "EventLimit v = l" using assms(2) by (simp add: v_def EventLimit_def SStatus_def Gremlins_BumpCounter_def)
  define y where "y = (if gGremlinSaveFrequency v \<noteq> 0 \<and> EventCounter v smod gGremlinSaveFrequency v = 0 then ScheduleDuty duty.AutoSaveState v else v)"
  have y: "agree v y" "EventCounter y = c + 1" "EventLimit y = l"
    using c l by (simp_all add: y_def agree_def ScheduleDuty_def EventCounter_def EventLimit_def)
  have "Hordes_BumpCounter w = (if EventLimit y > 0 \<and> EventLimit y = EventCounter y then ScheduleDuty duty.SaveSuspendedState y else y)"
    by (simp add: Hordes_BumpCounter_def y_def v_def Let_def)
  also have "\<dots> = (if c + 1 = l then ScheduleDuty duty.SaveSuspendedState y else y)" using y(2,3) assms(3) by auto
  finally show ?thesis using y(1) assms(6) by (simp add: agree_def v_def ScheduleDuty_def)
qed

lemma bump_limits: "limits g = (word_of_int c, u, f, i, n) \<Longrightarrow> limits (Gremlins_BumpCounter g) = (word_of_int (c + 1), u, f, i, n)"
  by (simp add: limits_def Gremlins_BumpCounter_def)

lemma bump_ok [simp]: "gremlin_ok (Gremlins_BumpCounter g) = gremlin_ok g"
  by (simp add: Gremlins_BumpCounter_def)

lemma pen_turn:
  assumes "running a b s m H k c w" and "quiet w" and "palm_ok p" and "13 * (k + 1) < 2 ^ 31" and "s + m + int k + 1 < 2 ^ 31"
  shows "\<exists>x. take_turn dev others (AskPen p) w = Some x \<and> quiet x \<and>
    running a b s m (longer H (new_events (AskPen p) w) w) (k + 1) (c + 1) x \<and> position x = position w \<and> gCurrentDepth x = gCurrentDepth w"
proof -
  let ?L = "deep s m (gCurrentDepth w + 1)" and ?w = "Hordes_BumpCounter w"
  have on: "gIsOn w" "0 < s" using assms(1) by (simp_all add: running_def horde_ok_def)
  have "s + m + int k < 2 ^ 31" using assms(5) by simp
  note e = gremlin_ok_limits [OF assms(1) this]
  have c: "c + 1 < 2 ^ 31" using e(6) assms(5) on(2) by simp
  have "\<not> fHordeSaveSuspendState w" using assms(2) by (simp add: quiet_def)
  note ag = BumpCounter_agree [OF e(1-3,5) c this]
  have lim: "limits (gTheGremlin w) = (word_of_int c, word_of_int ?L, word_of_int m, True, word_of_int (gCurrentGremlin w))"
    and ok: "gremlin_ok (gTheGremlin w)" using assms(1) by (simp_all add: running_def horde_ok_def)
  have g: "gremlin_ok (gTheGremlin ?w)" "limits (gTheGremlin ?w) = limits (Gremlins_BumpCounter (gTheGremlin w))" "gPlayback ?w = gPlayback w"
    using ag ok by (simp_all add: agree_def)
  have rec: "stored (gPlayback ?w) (H (gCurrentGremlin w))" "fgRecording (gPlayback ?w)" using assms(1) g(3) by (simp_all add: running_def horde_ok_def)
  have wm: "well_made (GetPenMovement p (gTheGremlin ?w))" using events_well_made [OF assms(3) g(1)] by simp
  from made_event_ok [OF rec wm events_alike(2) keeps_GetPenMovement, of dev] obtain r g' q d where
    m: "made_event dev (GetPenMovement p (gTheGremlin ?w)) ?w = Some (r, ?w\<lparr>gTheGremlin := g', gPlayback := q, emulated := d\<rparr>)"
      "gremlin_ok g'" "limits g' = limits (gTheGremlin ?w)" "stored q (H (gCurrentGremlin w) @ new_events (AskPen p) w)"
      "length (new_events (AskPen p) w) \<le> 1" "fgRecording q" using on by (auto simp: new_events_def)
  define v where "v = ?w\<lparr>gTheGremlin := g', gPlayback := q, emulated := d\<rparr>"
  have "PostFakePenEvent dev p w = Some v" using m(1) by (simp add: PostFakePenEvent_def v_def Let_def)
  moreover have "agree (w\<lparr>gTheGremlin := g', gPlayback := q, fHordeSaveSuspendState := (c + 1 = ?L)\<rparr>) v"
    using ag by (simp add: v_def agree_def)
  then obtain x where "end_of_cycle dev others v = Some x" "quiet x" "running a b s m (longer H (new_events (AskPen p) w) w) (k + 1) (c + 1) x"
      "position x = position w" "gCurrentDepth x = gCurrentDepth w"
    using bumped [OF assms(1,2,4) m(2,4-6)] m(3) g(2) bump_limits [OF lim] by metis
  ultimately show ?thesis using on by (simp add: take_turn_def)
qed

text \<open>An event that is asked for is made, or the turn is over.\<close>

lemma others_events:
  assumes "others_done s m H w"
  shows "others_done s m H (w\<lparr>event_files := (event_files w)(Gremlin_Events (gCurrentGremlin w) \<mapsto> (root, h))\<rparr>)"
  using assms suspended_events [of m H w _ _ "gCurrentGremlin w" H h root] by (fastforce simp: others_done_def)

lemma between_events:
  assumes "between_turns s m H w" and "halted w (gCurrentGremlin w)"
  shows "between_turns s m H (w\<lparr>event_files := (event_files w)(Gremlin_Events (gCurrentGremlin w) \<mapsto> (root, h))\<rparr>)"
  using assms others_events [of s m H w root h] by (simp add: between_turns_def in_range_def)

lemma ask_turn:
  assumes "running a b s m H k c w" and "quiet w" and "palm_ok p" and "dev_ok dev" and "13 * (k + 1) < 2 ^ 31" and "s + m + int k + 1 < 2 ^ 31"
  shows "let G = longer H (new_events (AskEvent p) w) w in
    \<exists>x. take_turn dev others (AskEvent p) w = Some x \<and> (over a b m G x \<or> quiet x \<and>
    (c \<le> deep s m (gCurrentDepth w + 1) \<and> running a b s m G (k + 1) (c + 1) x \<and> position x = position w \<and> gCurrentDepth x = gCurrentDepth w \<or>
     running a b s m G (k + 1) (s * gCurrentDepth x) x \<and> position w < position x))"
proof -
  let ?L = "deep s m (gCurrentDepth w + 1)"
  have on: "gIsOn w" "0 < s" and ok: "horde_ok a b s m k w" using assms(1) by (simp_all add: running_def horde_ok_def)
  have "s + m + int k < 2 ^ 31" using assms(6) by simp
  note e = gremlin_ok_limits [OF assms(1) this]
  have lim: "limits (gTheGremlin w) = (word_of_int c, word_of_int ?L, word_of_int m, True, word_of_int (gCurrentGremlin w))"
    using assms(1) by (simp add: running_def)
  show ?thesis
  proof (cases "c \<le> ?L")
    case True
    have rec: "stored (gPlayback w) (H (gCurrentGremlin w))" "fgRecording (gPlayback w)" "gremlin_ok (gTheGremlin w)"
      using assms(1) by (simp_all add: running_def horde_ok_def)
    have wm: "well_made (GetFakeEvent p (gTheGremlin w))" using events_well_made [OF assms(3) rec(3)] by simp
    from made_event_ok [OF rec(1,2) wm events_alike(1) keeps_GetFakeEvent, of dev] obtain r g' q d where
      m: "made_event dev (GetFakeEvent p (gTheGremlin w)) w = Some (r, w\<lparr>gTheGremlin := g', gPlayback := q, emulated := d\<rparr>)"
        "gremlin_ok g'" "limits g' = limits (gTheGremlin w)" "stored q (H (gCurrentGremlin w) @ new_events (AskEvent p) w)"
        "length (new_events (AskEvent p) w) \<le> 1" "fgRecording q" using on True e by (auto simp: new_events_def)
    let ?u = "w\<lparr>gTheGremlin := g', gPlayback := q, emulated := d\<rparr>"
    define v where "v = Hordes_BumpCounter ?u"
    have "PostFakeEvent dev p w = Some (r, v)" using m(1) e True by (simp add: PostFakeEvent_def v_def)
    moreover have "EventCounter ?u = c" "EventLimit ?u = ?L"
      using e m(3) by (simp_all add: EventCounter_def EventLimit_def SStatus_def limits_def)
    then have "agree (?u\<lparr>gTheGremlin := Gremlins_BumpCounter (gTheGremlin ?u), fHordeSaveSuspendState := (c + 1 = ?L)\<rparr>) v"
      unfolding v_def using e assms(2,6) on by (intro BumpCounter_agree) (simp_all add: quiet_def)
    then have ag: "agree (w\<lparr>gTheGremlin := Gremlins_BumpCounter g', gPlayback := q, fHordeSaveSuspendState := (c + 1 = ?L)\<rparr>) v"
      by (simp add: agree_def)
    have "gremlin_ok (Gremlins_BumpCounter g')" "limits (Gremlins_BumpCounter g') =
        (word_of_int (c + 1), word_of_int ?L, word_of_int m, True, word_of_int (gCurrentGremlin w))"
      using m(2,3) bump_limits lim by simp_all
    from bumped [OF assms(1,2,5) this(1) m(4-6) this(2) ag] obtain x where
      "end_of_cycle dev others v = Some x" "quiet x" "running a b s m (longer H (new_events (AskEvent p) w) w) (k + 1) (c + 1) x" "position x = position w" "gCurrentDepth x = gCurrentDepth w" by blast
    ultimately show ?thesis using on True by (auto simp: take_turn_def Let_def)
  next
    case False
    have k: "13 * k < 2 ^ 31" using assms(5) by simp
    obtain root h where h: "Hordes_SaveEvents w = Some (w\<lparr>event_files := (event_files w)(Gremlin_Events (gCurrentGremlin w) \<mapsto> (root, h))\<rparr>)"
      "\<forall>es. stored (gPlayback w) es \<longrightarrow> history_of es h" using SaveEvents_horde [OF ok k] by blast
    have none: "longer H (new_events (AskEvent p) w) w = H" using False e by (simp add: new_events_def)
    let ?u = "w\<lparr>event_files := (event_files w)(Gremlin_Events (gCurrentGremlin w) \<mapsto> (root, h))\<rparr>"
    obtain G where "suspended m G w (gCurrentGremlin w) ?L" using assms(1) False by (auto simp: running_def)
    moreover have "history_of (H (gCurrentGremlin w)) h" using assms(1) h(2) by (simp add: running_def)
    ultimately have "suspended m H ?u (gCurrentGremlin w) ?L" by (intro suspended_events) auto
    moreover have "others_done s m H ?u" using assms(1) by (intro others_events) (simp add: running_def)
    ultimately have bt: "between_turns s m H ?u"
      using assms(1) by (simp add: between_turns_def in_range_def running_def horde_ok_def)
    have len: "\<forall>n. length (H n) \<le> k" using assms(1) by (simp add: running_def)
    have u: "horde_ok a b s m k ?u" "quiet ?u" "gIsOn ?u" using ok assms(2) on by (simp_all add: quiet_def)
    have sm: "s + m < 2 ^ 31" using assms(6) by simp
    obtain v x where x: "NextGremlin ?u = Some v" "end_of_cycle dev others v = Some x"
      "over a b m H x \<or> quiet x \<and> running a b s m H k (s * gCurrentDepth x) x \<and> position ?u < position x"
      using next_turn [OF u assms(4) sm bt len] by blast
    have "PostFakeEvent dev p w = Some (False, v)" using e False x(1) by (simp add: PostFakeEvent_def StopEventReached_def h(1))
    then have "take_turn dev others (AskEvent p) w = Some x" using on x(2) by (simp add: take_turn_def)
    moreover have "position ?u = position w" by (simp add: position_def)
    ultimately show ?thesis unfolding none Let_def using x(3) running_mono [of a b s m H k _ x "k + 1"] by auto
  qed
qed

text \<open>An error halts the gremlin.\<close>

lemma halting:
  assumes "running a b s m H k c w" and "halt_ok i" and "fHalted i"
  shows "between_turns s m H (w\<lparr>gGremlinHaltedInError := (gGremlinHaltedInError w)[nat (gCurrentGremlin w) := i]\<rparr>)"
    "horde_ok a b s m k (w\<lparr>gGremlinHaltedInError := (gGremlinHaltedInError w)[nat (gCurrentGremlin w) := i]\<rparr>)"
proof -
  let ?cur = "gCurrentGremlin w" and ?hs = "gGremlinHaltedInError w"
  have r: "0 \<le> a" "a \<le> ?cur" "?cur \<le> b" "b \<le> MAXGREMLINS" "length ?hs = nat (MAXGREMLINS + 1)" "others_done s m H w"
    "gGremlinStartNumber w = a" "gGremlinStopNumber w = b" "horde_ok a b s m k w"
    using assms(1) by (simp_all add: running_def horde_ok_def)
  then have len: "nat ?cur < length ?hs" by (simp add: MAXGREMLINS_def)
  have "fHalted (?hs[nat ?cur := i] ! nat n) = (n = ?cur \<or> halted w n)" if "0 \<le> n" for n
    using that assms(3) r(1,2) len by (simp add: nth_list_update eq_nat_nat_iff)
  then have "others_done s m H (w\<lparr>gGremlinHaltedInError := ?hs[nat ?cur := i]\<rparr>)"
    using r by (auto simp: others_done_def)
  then show "between_turns s m H (w\<lparr>gGremlinHaltedInError := ?hs[nat ?cur := i]\<rparr>)"
    using assms(1,3) len by (simp add: between_turns_def in_range_def running_def horde_ok_def)
  have "\<forall>x\<in>set (?hs[nat ?cur := i]). halt_ok x" using r(9) assms(2) set_update_subset_insert [of ?hs "nat ?cur" i] by (auto simp: horde_ok_def)
  then show "horde_ok a b s m k (w\<lparr>gGremlinHaltedInError := ?hs[nat ?cur := i]\<rparr>)" using r(9) by (simp add: horde_ok_def)
qed

lemma error_turn:
  assumes "running a b s m H k c w" and "quiet w" and "errorBase \<le> e" and "e \<le> errorLast" and "dev_ok dev"
    and "13 * k < 2 ^ 31" and "s + m < 2 ^ 31"
  shows "\<exists>x. take_turn dev others (Error e) w = Some x \<and>
    (over a b m H x \<or> quiet x \<and> running a b s m H k (s * gCurrentDepth x) x \<and> position w < position x)"
proof -
  let ?cur = "gCurrentGremlin w" and ?hs = "gGremlinHaltedInError w"
  have on: "gIsOn w" "\<not> gMinimizing w" and ok: "horde_ok a b s m k w" and cur: "0 \<le> ?cur" "?cur \<le> MAXGREMLINS"
    and len: "length ?hs = nat (MAXGREMLINS + 1)" using assms(1) by (simp_all add: running_def horde_ok_def)
  define i where "i = ?hs ! nat ?cur"
  have p: "peek ?hs ?cur = Some i" using peek_halt [OF len cur] by (simp add: i_def)
  have l: "nat ?cur < length ?hs" using len cur by simp
  then have "i \<in> set ?hs" by (simp add: i_def)
  then have i: "halt_ok i" using ok by (simp add: horde_ok_def)
  define j where "j = (if fMessageID i = - 1 then i\<lparr>fErrorEvent := EventCounter w - 1, fMessageID := e\<rparr> else i)"
  have e: "e \<noteq> - 1" using assms(3) by (simp add: errorBase_def)
  define w1 where "w1 = w\<lparr>gGremlinHaltedInError := ?hs[nat ?cur := j]\<rparr>"
  have w1: "RecordErrorStats e w = Some w1"
    using on p e by (simp add: RecordErrorStats_def GremlinNumber_def j_def w1_def i_def Let_def)
  have j: "halt_ok (j\<lparr>fHalted := True\<rparr>)" "halt_ok j" using i assms(3,4) e by (auto simp: halt_ok_def j_def)
  have "\<forall>x\<in>set (?hs[nat ?cur := j]). halt_ok x" using ok j(2) set_update_subset_insert [of ?hs "nat ?cur" j] by (auto simp: horde_ok_def)
  then have "horde_ok a b s m k w1" using ok by (simp add: w1_def horde_ok_def)
  from AutoSaveState_ok [OF this] obtain w2 where w2: "AutoSaveState w1 = Some w2" "agree w1 w2" by blast
  define w3 where "w3 = w2\<lparr>gGremlinHaltedInError := (gGremlinHaltedInError w2)[nat ?cur := j\<lparr>fHalted := True\<rparr>]\<rparr>"
  have hs2: "gGremlinHaltedInError w2 = ?hs[nat ?cur := j]" "gCurrentGremlin w2 = ?cur" using w2(2) by (simp_all add: agree_def w1_def)
  have ag: "agree (w\<lparr>gGremlinHaltedInError := ?hs[nat ?cur := j\<lparr>fHalted := True\<rparr>]\<rparr>) w3"
    using w2(2) by (simp add: agree_def w1_def w3_def)
  note h = halting [OF assms(1) j(1), simplified]
  have w3: "horde_ok a b s m k w3" "between_turns s m H w3" "quiet w3" "gIsOn w3" "position w3 = position w" "gCurrentGremlin w3 = ?cur"
    using agree_ok [OF ag] agree_between [OF ag] agree_quiet [OF ag] agree_position [OF ag] h assms(2) on ag
    by (simp_all add: quiet_def position_def) (simp_all add: agree_def)
  obtain root hist where s: "Hordes_SaveEvents w3 = Some (w3\<lparr>event_files := (event_files w3)(Gremlin_Events ?cur \<mapsto> (root, hist))\<rparr>)"
    using SaveEvents_horde [OF w3(1) assms(6)] w3(6) by auto
  have halted: "halted w3 (gCurrentGremlin w3)" using ag l cur by (simp add: agree_def)
  have len': "\<forall>n. length (H n) \<le> k" using assms(1) by (simp add: running_def)
  let ?u = "w3\<lparr>event_files := (event_files w3)(Gremlin_Events ?cur \<mapsto> (root, hist))\<rparr>"
  have u: "horde_ok a b s m k ?u" "quiet ?u" "gIsOn ?u" using w3 by (simp_all add: quiet_def)
  obtain v x where x: "NextGremlin ?u = Some v" "end_of_cycle dev others v = Some x"
    "over a b m H x \<or> quiet x \<and> running a b s m H k (s * gCurrentDepth x) x \<and> position ?u < position x"
    using next_turn [OF u assms(5,7) between_events [OF w3(2) halted, unfolded w3(6)] len'] by blast
  have "peek (gGremlinHaltedInError w2) ?cur = Some j" using cur l by (simp add: hs2 peek_def)
  moreover have "GremlinNumber w1 = ?cur" by (simp add: GremlinNumber_def w1_def)
  ultimately have "ErrorEncountered w1 = Some v" using s(1) x(1) by (simp add: ErrorEncountered_def w2(1) w3_def Let_def)
  then have "take_turn dev others (Error e) w = Some x" using on x(2) by (simp add: take_turn_def w1)
  moreover have "position ?u = position w" using w3(5) by (simp add: position_def)
  ultimately show ?thesis using x(3) by simp
qed

end
