(* ===== verification/HordeResults.thy ===== *)
theory HordeResults
  imports HordeRuns
begin

text \<open>A horde from its start: it never fails, ends, and when it has ended every gremlin has been run.\<close>

section \<open>Turns\<close>

definition turn_ok :: "'m turn \<Rightarrow> bool" where
  "turn_ok t \<longleftrightarrow> (case t of AskEvent p \<Rightarrow> palm_ok p | AskPen p \<Rightarrow> palm_ok p | Error e \<Rightarrow> errorBase \<le> e \<and> e \<le> errorLast | Go m now \<Rightarrow> True)"

text \<open>Asking for an event, and errors, bring a horde nearer to its end.\<close>

definition asks :: "'m turn \<Rightarrow> bool" where
  "asks t \<longleftrightarrow> (case t of AskEvent p \<Rightarrow> True | AskPen p \<Rightarrow> False | Error e \<Rightarrow> True | Go m now \<Rightarrow> False)"

definition asked :: "'m turn list \<Rightarrow> nat" where
  "asked ts = length (filter asks ts)"

definition good :: "int \<Rightarrow> int \<Rightarrow> int \<Rightarrow> int \<Rightarrow> nat \<Rightarrow> (int \<Rightarrow> EmRecordedEvent list) \<Rightarrow> nat \<Rightarrow> ('e, 'b, 'k, 'm) Hordes \<Rightarrow> bool" where
  "good a b s m j H k w \<longleftrightarrow> over a b m H w \<or>
     quiet w \<and> (\<exists>c. running a b s m H k c w \<and> int j \<le> position w * (s + 2) + min (s + 1) (c - s * gCurrentDepth w))"

lemma over_turn:
  assumes "over a b m H w"
  shows "\<exists>x. take_turn dev others t w = Some x \<and> over a b m H x \<and> new_events t w = []"
proof -
  have "agree w (w\<lparr>emulated := d, clock := now\<rparr>)" for d now by (simp add: agree_def)
  then have "over a b m H (w\<lparr>emulated := d, clock := now\<rparr>)" for d now using agree_over assms by fastforce
  moreover have "\<not> gIsOn w" using assms by (simp add: over_def)
  ultimately show ?thesis using assms by (cases t) (simp_all add: take_turn_def new_events_def)
qed

lemma over_good: "over a b m H w \<Longrightarrow> good a b s m j H k w"
  by (simp add: good_def)

lemma good_next:
  assumes "int j \<le> position w * (s + 2) + min (s + 1) (c - s * gCurrentDepth w)"
    and "position w < position x" and "0 < s" and "quiet x" and "running a b s m H k (s * gCurrentDepth x) x"
  shows "good a b s m (j + 1) H k x"
proof -
  have "(position w + 1) * (s + 2) \<le> position x * (s + 2)" using assms(2,3) by (intro mult_right_mono) auto
  then have "int (j + 1) \<le> position x * (s + 2)" using assms(1) by (simp add: distrib_right)
  then show ?thesis using assms(3-5) unfolding good_def by (intro disjI2 conjI exI [of _ "s * gCurrentDepth x"]) simp_all
qed

lemma good_mono: "good a b s m j H k w \<Longrightarrow> i \<le> j \<Longrightarrow> k \<le> l \<Longrightarrow> good a b s m i H l w"
  unfolding good_def using running_mono by (smt (verit) of_nat_le_iff)

lemma good_turn:
  assumes "good a b s m j H k w" and "turn_ok t" and "dev_ok dev" and "13 * (k + 1) < 2 ^ 31" and "s + m + int k + 1 < 2 ^ 31"
  shows "\<exists>x. take_turn dev others t w = Some x \<and> good a b s m (if asks t then j + 1 else j) (longer H (new_events t w) w) (k + 1) x"
proof (cases "over a b m H w")
  case True
  then show ?thesis using over_turn [OF True, of dev others t] unfolding good_def by fastforce
next
  case False
  then obtain c where r: "quiet w" "running a b s m H k c w" "int j \<le> position w * (s + 2) + min (s + 1) (c - s * gCurrentDepth w)"
    using assms(1) by (auto simp: good_def)
  have s: "0 < s" using r(2) by (simp add: running_def horde_ok_def)
  define G where "G = longer H (new_events t w) w"
  have more: "good a b s m i G (k + 1) x" if "quiet x" "running a b s m G (k + 1) (c + 1) x" "position x = position w"
      "int i \<le> position w * (s + 2) + min (s + 1) (c + 1 - s * gCurrentDepth w)" "gCurrentDepth x = gCurrentDepth w" for i x
    unfolding good_def using that by auto
  have "\<exists>x. take_turn dev others t w = Some x \<and> good a b s m (if asks t then j + 1 else j) G (k + 1) x"
  proof (cases t)
    case (AskEvent p)
    have "palm_ok p" using assms(2) AskEvent by (simp add: turn_ok_def)
    from ask_turn [OF r(2,1) this assms(3-5), of others] obtain x where x: "take_turn dev others t w = Some x"
      "over a b m G x \<or> quiet x \<and>
        (c \<le> deep s m (gCurrentDepth w + 1) \<and> running a b s m G (k + 1) (c + 1) x \<and> position x = position w \<and> gCurrentDepth x = gCurrentDepth w \<or>
         running a b s m G (k + 1) (s * gCurrentDepth x) x \<and> position w < position x)"
      unfolding AskEvent G_def Let_def by blast
    have "int (j + 1) \<le> position w * (s + 2) + min (s + 1) (c + 1 - s * gCurrentDepth w)" if "c \<le> deep s m (gCurrentDepth w + 1)"
      using r(3) that by (simp add: deep_def distrib_left)
    then have "good a b s m (j + 1) G (k + 1) x" using x(2) over_good more [of x "j + 1"] good_next [OF r(3) _ s] by blast
    then show "\<exists>x. take_turn dev others t w = Some x \<and> good a b s m (if asks t then j + 1 else j) G (k + 1) x"
      using x(1) AskEvent by (simp add: asks_def)
  next
    case (AskPen p)
    have "palm_ok p" using assms(2) AskPen by (simp add: turn_ok_def)
    from pen_turn [OF r(2,1) this assms(4,5), of dev others] obtain x where x: "take_turn dev others t w = Some x" "quiet x"
      "running a b s m G (k + 1) (c + 1) x" "position x = position w" "gCurrentDepth x = gCurrentDepth w"
      unfolding AskPen G_def by blast
    moreover have "int j \<le> position w * (s + 2) + min (s + 1) (c + 1 - s * gCurrentDepth w)" using r(3) by simp
    ultimately show "\<exists>x. take_turn dev others t w = Some x \<and> good a b s m (if asks t then j + 1 else j) G (k + 1) x"
      using more AskPen by (simp add: asks_def)
  next
    case (Error e)
    have G: "G = H" using Error by (simp add: G_def new_events_def)
    have e: "errorBase \<le> e" "e \<le> errorLast" "13 * k < 2 ^ 31" "s + m < 2 ^ 31" using assms(2,4,5) Error by (simp_all add: turn_ok_def)
    from error_turn [OF r(2,1) e(1,2) assms(3) e(3,4), of others] obtain x where x: "take_turn dev others t w = Some x"
      "over a b m H x \<or> quiet x \<and> running a b s m H k (s * gCurrentDepth x) x \<and> position w < position x"
      unfolding Error by blast
    then have "good a b s m (j + 1) H k x" using over_good good_next [OF r(3) _ s] by blast
    then show "\<exists>x. take_turn dev others t w = Some x \<and> good a b s m (if asks t then j + 1 else j) G (k + 1) x"
      using x(1) Error G good_mono [of a b s m "j + 1" H k x "j + 1" "k + 1"] by (simp add: asks_def)
  next
    case (Go d now)
    have G: "G = H" using Go by (simp add: G_def new_events_def)
    have ag: "agree w (w\<lparr>emulated := d, clock := now\<rparr>)" by (simp add: agree_def)
    have "good a b s m j H (k + 1) (w\<lparr>emulated := d, clock := now\<rparr>)"
      using good_mono [OF assms(1), of j "k + 1"] agree_over [OF ag] agree_running [OF ag] agree_quiet [OF ag] agree_position [OF ag]
      by (simp add: good_def)
    then show "\<exists>x. take_turn dev others t w = Some x \<and> good a b s m (if asks t then j + 1 else j) G (k + 1) x"
      using Go G by (simp add: asks_def take_turn_def)
  qed
  then show ?thesis by (simp only: G_def)
qed

text \<open>The history of every gremlin: the events of all the turns in which it was the one that ran.\<close>

fun histories :: "'m device \<Rightarrow> ('e, ('e, 'b, 'k, 'm) Hordes) duty_ops \<Rightarrow> 'm turn list \<Rightarrow> ('e, 'b, 'k, 'm) Hordes \<Rightarrow>
    int \<Rightarrow> EmRecordedEvent list" where
  "histories dev others [] w n = []"
| "histories dev others (t # ts) w n =
     (if n = gCurrentGremlin w then new_events t w else []) @
     (case take_turn dev others t w of None \<Rightarrow> [] | Some x \<Rightarrow> histories dev others ts x n)"

lemma good_turns:
  assumes "good a b s m j H k w" and "\<forall>t\<in>set ts. turn_ok t" and "dev_ok dev"
    and "13 * (k + length ts) < 2 ^ 31" and "s + m + int (k + length ts) < 2 ^ 31"
  shows "\<exists>x. take_turns dev others ts w = Some x \<and> good a b s m (j + asked ts) (\<lambda>n. H n @ histories dev others ts w n) (k + length ts) x"
  using assms(1,2,4,5)
proof (induction ts arbitrary: j H k w)
  case (Cons t ts)
  have t: "turn_ok t" "13 * (k + 1) < 2 ^ 31" "s + m + int k + 1 < 2 ^ 31" using Cons.prems(2-4) by simp_all
  from good_turn [OF Cons.prems(1) t(1) assms(3) t(2,3), of others] obtain y where
    y: "take_turn dev others t w = Some y" "good a b s m (if asks t then j + 1 else j) (longer H (new_events t w) w) (k + 1) y" by blast
  from Cons.IH [OF y(2)] Cons.prems(2-4) obtain x where x: "take_turns dev others ts y = Some x"
    "good a b s m ((if asks t then j + 1 else j) + asked ts) (\<lambda>n. longer H (new_events t w) w n @ histories dev others ts y n) (k + 1 + length ts) x" by auto
  moreover have "(\<lambda>n. longer H (new_events t w) w n @ histories dev others ts y n) = (\<lambda>n. H n @ histories dev others (t # ts) w n)"
    using y(1) by auto
  ultimately show ?case using y(1) by (auto simp: asked_def split: if_splits)
qed (simp add: asked_def)

section \<open>The start\<close>

definition first_gremlin :: "HordeInfo \<Rightarrow> int" where "first_gremlin info = min (fStartNumber info) (fStopNumber info)"
definition last_gremlin :: "HordeInfo \<Rightarrow> int" where "last_gremlin info = max (fStartNumber info) (fStopNumber info)"

definition switch_depth :: "HordeInfo \<Rightarrow> int" where
  "switch_depth info = (if fSwitchDepth info = - 1 \<or> fStartNumber info = fStopNumber info then fMaxDepth info else fSwitchDepth info)"

text \<open>A horde of numbers in the table, with a last event, and a session that has nothing else to do.\<close>

definition horde_valid :: "HordeInfo \<Rightarrow> bool" where
  "horde_valid info \<longleftrightarrow> 0 \<le> first_gremlin info \<and> last_gremlin info \<le> MAXGREMLINS \<and> 0 < fMaxDepth info \<and> 0 < switch_depth info \<and>
     length (fHordeAppList info) < 2 ^ 31"

definition can_start :: "('e, 'b, 'k, 'm) Hordes \<Rightarrow> bool" where
  "can_start w \<longleftrightarrow> quiet w \<and> \<not> gMinimizing w \<and> gremlin_ok (gTheGremlin w) \<and> (\<exists>k. recorded_up_to k (gPlayback w))"

lemma no_halts_ok:
  "length no_halts = nat (MAXGREMLINS + 1)" "i \<in> set no_halts \<Longrightarrow> halt_ok i" "n \<le> MAXGREMLINS \<Longrightarrow> \<not> fHalted (no_halts ! nat n)"
proof -
  show "length no_halts = nat (MAXGREMLINS + 1)" "i \<in> set no_halts \<Longrightarrow> halt_ok i" by (auto simp: no_halts_def halt_ok_def)
  assume "n \<le> MAXGREMLINS"
  then have "nat n < nat (MAXGREMLINS + 1)" by (simp add: MAXGREMLINS_def)
  then show "\<not> fHalted (no_halts ! nat n)" by (simp add: no_halts_def)
qed

lemma Hordes_New_ok:
  assumes "horde_valid info" and "can_start w" and "dev_ok dev"
  shows "\<exists>x. Hordes_New dev info w = Some x \<and> quiet x \<and> position x = 0 \<and>
    running (first_gremlin info) (last_gremlin info) (switch_depth info) (fMaxDepth info) (\<lambda>n. []) 0 0 x"
proof -
  let ?a = "first_gremlin info" and ?b = "last_gremlin info" and ?s = "switch_depth info" and ?m = "fMaxDepth info"
  have val: "0 \<le> ?a" "?b \<le> MAXGREMLINS" "0 < ?m" "0 < ?s" "length (fHordeAppList info) < 2 ^ 31" "?a \<le> ?b"
    using assms(1) by (simp_all add: horde_valid_def first_gremlin_def last_gremlin_def)
  define w1 where "w1 = w\<lparr>gGremlinStartNumber := ?a, gGremlinStopNumber := ?b, gSwitchDepth := ?s, gMaxDepth := ?m,
    gGremlinSaveFrequency := fHordeSaveFrequency info, gGremlinAppList := fHordeAppList info, gCurrentDepth := 0, gCurrentGremlin := ?a,
    gGremlinHaltedInError := no_halts, gStartTime := clock w\<rparr>"
  have "gremlin_ok (gTheGremlin w1)" using assms(2) by (simp add: w1_def can_start_def)
  from Gremlins_New_ok [OF assms(3) this] obtain v g where v: "Gremlins_New dev (current_info w1) w1 = Some v" "gremlin_ok g"
    "limits g = (0, fSteps (current_info w1), fFinal (current_info w1), True, ucast (fNumber (current_info w1)))"
    "agree (w1\<lparr>gTheGremlin := g, gIsOn := True, gPlayback := RecordEvents True (gPlayback w1)\<rparr>) v" by blast
  have lim: "limits g = (0, word_of_int (deep ?s ?m 1), word_of_int ?m, True, word_of_int ?a)"
    using val by (simp add: v(3) w1_def current_info_def deep_def ucast_number)
  define y where "y = UseNewAutoSaveDirectory v"
  define u where "u = Hordes_TurnOn False (y\<lparr>gPlayback := Playback_Clear (gPlayback y)\<rparr>)"
  have u: "gremlin_ok (gTheGremlin u)" "length (gGremlinAppList u) < 2 ^ 31" "\<not> gIsOn u" "limits (gTheGremlin u) = limits g"
    using v(2,4) val by (simp_all add: u_def y_def UseNewAutoSaveDirectory_def Hordes_TurnOn_def agree_def w1_def)
  obtain f where f: "EmSession_Save Gremlin_Root_State u = Some (u\<lparr>gTheGremlin := (gTheGremlin u)\<lparr>gremlinStopTime := clock u\<rparr>,
      state_files := (state_files u)(Gremlin_Root_State \<mapsto> f)\<rparr>)"
    "holds_gremlin (gremlin_chunk f) False ((gTheGremlin u)\<lparr>gremlinStopTime := clock u\<rparr>)"
    using EmSession_Save_ok [OF u(1,2), of Gremlin_Root_State] u(3) by fastforce
  define x where "x = (Hordes_TurnOn True (Hordes_TurnOn False (u\<lparr>gTheGremlin := (gTheGremlin u)\<lparr>gremlinStopTime := clock u\<rparr>,
      state_files := (state_files u)(Gremlin_Root_State \<mapsto> f)\<rparr>)))\<lparr>gWarningHappened := False, gErrorHappened := False\<rparr>"
  have "SaveRootState u = Some (Hordes_TurnOn False (u\<lparr>gTheGremlin := (gTheGremlin u)\<lparr>gremlinStopTime := clock u\<rparr>,
      state_files := (state_files u)(Gremlin_Root_State \<mapsto> f)\<rparr>))"
    using u(3) f(1) by (simp add: SaveRootState_def SuggestFileName_def)
  moreover have w1_eq: "(let w = w\<lparr>gGremlinStartNumber := min (fStartNumber info) (fStopNumber info),
               gGremlinStopNumber := max (fStartNumber info) (fStopNumber info)\<rparr>;
      w = w\<lparr>gSwitchDepth := (if fSwitchDepth info = - 1 \<or> gGremlinStartNumber w = gGremlinStopNumber w
                 then fMaxDepth info else fSwitchDepth info),
               gMaxDepth := fMaxDepth info, gGremlinSaveFrequency := fHordeSaveFrequency info, gGremlinAppList := fHordeAppList info,
               gCurrentDepth := 0, gCurrentGremlin := gGremlinStartNumber w\<rparr>;
      w = (if gSwitchDepth w = 0 then w\<lparr>gSwitchDepth := - 1\<rparr> else w);
      w = (if gMaxDepth w = 0 then w\<lparr>gMaxDepth := - 1\<rparr> else w)
    in w\<lparr>gGremlinHaltedInError := no_halts, gStartTime := clock w\<rparr>) = w1"
  proof -
    have "min (fStartNumber info) (fStopNumber info) = max (fStartNumber info) (fStopNumber info) \<longleftrightarrow> fStartNumber info = fStopNumber info"
      by (simp add: min_def max_def)
    then have "(if fSwitchDepth info = - 1 \<or> min (fStartNumber info) (fStopNumber info) = max (fStartNumber info) (fStopNumber info)
        then fMaxDepth info else fSwitchDepth info) = ?s" by (simp add: switch_depth_def)
    then show ?thesis using val by (simp add: w1_def first_gremlin_def last_gremlin_def Let_def)
  qed
  have "Hordes_New dev info w = Some x"
    unfolding Hordes_New_def Let_def w1_eq [unfolded Let_def] v(1) bind.bind_lunit
    unfolding y_def [symmetric] u_def [symmetric] using calculation by (simp add: x_def)
  moreover have "running ?a ?b ?s ?m (\<lambda>n. []) 0 0 x \<and> quiet x \<and> position x = 0"
  proof -
    have yx: "gPlayback y = gPlayback v" "gTheGremlin u = gTheGremlin v" "state_files u = Map.empty" "event_files u = Map.empty"
      by (simp_all add: y_def u_def UseNewAutoSaveDirectory_def Hordes_TurnOn_def)
    have px: "gPlayback x = RecordEvents True (Playback_Clear (gPlayback v))" and gx: "gTheGremlin x = (gTheGremlin v)\<lparr>gremlinStopTime := clock u\<rparr>"
      by (simp_all add: x_def Hordes_TurnOn_def RecordEvents_def u_def yx(1)) (simp add: y_def UseNewAutoSaveDirectory_def)
    have pv: "gPlayback v = RecordEvents True (gPlayback w)" "limits (gTheGremlin v) = limits g" using v(4) by (simp_all add: agree_def w1_def)
    define z where "z = w1\<lparr>gTheGremlin := gTheGremlin x, gIsOn := True, gPlayback := gPlayback x, state_files := [Gremlin_Root_State \<mapsto> f],
      event_files := Map.empty\<rparr>"
    have ag: "agree z x"
      using v(4) by (simp add: z_def agree_def x_def u_def y_def Hordes_TurnOn_def UseNewAutoSaveDirectory_def)
    obtain k where "recorded_up_to k (gPlayback w)" using assms(2) by (auto simp: can_start_def)
    then have st: "stored (gPlayback x) []" by (simp add: px pv(1) stored_Clear [of k])
    then have "recorded_up_to 0 (gPlayback x)" by (rule stored_recorded) simp
    moreover have "fgRecording (gPlayback x)" by (simp add: px RecordEvents_def)
    moreover have "gremlin_ok (gTheGremlin x)" "limits (gTheGremlin x) = limits g" using u(1) pv(2) by (simp_all add: gx yx)
    moreover have ex: "\<exists>g. holds_gremlin (gremlin_chunk f) False g \<and> gremlin_ok g"
      using f(2) u(1) by (intro exI [of _ "(gTheGremlin u)\<lparr>gremlinStopTime := clock u\<rparr>"]) simp
    ultimately have "horde_ok ?a ?b ?s ?m 0 z"
      using val assms(2) no_halts_ok(1,2) ex by (simp add: horde_ok_def z_def w1_def can_start_def)
    moreover have "\<not> halted z ?a" using no_halts_ok(3) val by (simp add: z_def w1_def)
    moreover have "0 < deep ?s ?m 1" using val by (simp add: deep_def)
    moreover have "others_done ?s ?m (\<lambda>n. []) z" by (simp add: others_done_def z_def w1_def)
    ultimately have "running ?a ?b ?s ?m (\<lambda>n. []) 0 0 z"
      using val lim \<open>fgRecording (gPlayback x)\<close> \<open>limits (gTheGremlin x) = limits g\<close> st by (simp add: running_def z_def w1_def)
    moreover have "quiet z" "position z = 0" using assms(2) by (simp_all add: z_def w1_def quiet_def can_start_def position_def)
    ultimately show ?thesis using agree_running [OF ag] agree_quiet [OF ag] agree_position [OF ag] by simp
  qed
  ultimately show ?thesis by blast
qed

section \<open>Results\<close>

text \<open>Numbers that stay below the integers of 32 bits, and files below 2 gigabytes.\<close>

definition turns_fit :: "HordeInfo \<Rightarrow> 'm turn list \<Rightarrow> bool" where
  "turns_fit info ts \<longleftrightarrow> 13 * length ts < 2 ^ 31 \<and> switch_depth info + fMaxDepth info + int (length ts) < 2 ^ 31"

lemma horde_runs:
  assumes "horde_valid info" and "can_start w" and "dev_ok dev" and "\<forall>t\<in>set ts. turn_ok t" and "turns_fit info ts"
  shows "\<exists>w0 x. Hordes_New dev info w = Some w0 \<and> take_turns dev others ts w0 = Some x \<and>
    good (first_gremlin info) (last_gremlin info) (switch_depth info) (fMaxDepth info) (asked ts) (histories dev others ts w0) (length ts) x"
proof -
  obtain w0 where w0: "Hordes_New dev info w = Some w0" "quiet w0" "position w0 = 0"
    "running (first_gremlin info) (last_gremlin info) (switch_depth info) (fMaxDepth info) (\<lambda>n. []) 0 0 w0"
    using Hordes_New_ok [OF assms(1-3)] by blast
  have "0 < switch_depth info" "0 \<le> gCurrentDepth w0" "switch_depth info * gCurrentDepth w0 \<le> 0"
    using w0(4) by (simp_all add: running_def horde_ok_def)
  then have "good (first_gremlin info) (last_gremlin info) (switch_depth info) (fMaxDepth info) 0 (\<lambda>n. []) 0 w0"
    using w0(2-4) unfolding good_def by (intro disjI2 conjI exI [of _ 0]) simp_all
  from good_turns [OF this assms(4,3), of others] show ?thesis using assms(5) w0(1) by (auto simp: turns_fit_def)
qed

text \<open>What the files of a gremlin give when they are loaded: its number, the event it has come to, and its history.\<close>

definition saved_at :: "('e, 'b, 'k, 'm) Hordes \<Rightarrow> int \<Rightarrow> int \<Rightarrow> bool" where
  "saved_at x n c \<longleftrightarrow> (\<exists>f root h. state_files x (Gremlin_Suspended n) = Some f \<and> event_files x (Gremlin_Events n) = Some (root, h) \<and>
     (\<forall>now g. \<exists>on i g'. Gremlins_Load now (Some (gremlin_chunk f)) g = Some (on, i, g') \<and> number g' = word_of_int n \<and> sint (counter g') = c) \<and>
     LoadEvents (Some h) playback_new \<noteq> None)"

lemma suspended_saved:
  assumes "suspended m H x n c" and "0 \<le> c" and "c < 2 ^ 31"
  shows "saved_at x n c"
proof -
  obtain f root h on g u where s: "state_files x (Gremlin_Suspended n) = Some f" "event_files x (Gremlin_Events n) = Some (root, h)"
    "history_of (H n) h" "holds_gremlin (gremlin_chunk f) on g" "gremlin_ok g"
    "limits g = (word_of_int c, u, word_of_int m, True, word_of_int n)"
    using assms(1) by (auto simp: suspended_def suspended_file_def)
  have "recorded_up_to 0 playback_new"
    using chunk_new_holds by (simp add: recorded_up_to_def stored_def playback_new_def)
  then have "LoadEvents (Some h) playback_new \<noteq> None" using LoadEvents_ok [OF s(3)] by blast
  moreover have "\<exists>on i g'. Gremlins_Load now (Some (gremlin_chunk f)) h' = Some (on, i, g') \<and> number g' = word_of_int n \<and> sint (counter g') = c" for now h'
    using s(4) Gremlins_Load_eq [OF gremlin_types [OF s(5)], of _ "gremlin_chunk f" on now h'] s(6) sint_number [OF assms(2,3)]
    by (auto simp: holds_gremlin_def limits_def)
  ultimately show ?thesis using s(1,2) unfolding saved_at_def by blast
qed

text \<open>The events that are read back from the event file of a gremlin.\<close>

definition saved_history :: "('e, 'b, 'k, 'm) Hordes \<Rightarrow> int \<Rightarrow> EmRecordedEvent list \<Rightarrow> bool" where
  "saved_history x n es \<longleftrightarrow> (\<exists>root h p. event_files x (Gremlin_Events n) = Some (root, h) \<and> LoadEvents (Some h) playback_new = Some p \<and>
     GetNumEvents p = int (length es) \<and> (\<forall>i<length es. \<forall>e. GetEvent (int i) e p = Some (es ! i)))"

lemma suspended_history_saved:
  assumes "suspended m H x n c"
  shows "saved_history x n (H n)"
proof -
  obtain root h where h: "event_files x (Gremlin_Events n) = Some (root, h)" "history_of (H n) h"
    using assms by (auto simp: suspended_def)
  have "recorded_up_to 0 playback_new"
    using chunk_new_holds by (simp add: recorded_up_to_def stored_def playback_new_def)
  from LoadEvents_ok [OF h(2) this] obtain p where p: "LoadEvents (Some h) playback_new = Some p" "stored p (H n)" by blast
  then show ?thesis using h(1) GetEvent_eq [OF p(2)] unfolding saved_history_def
    by (intro exI [of _ root] exI [of _ h] exI [of _ p]) (simp add: GetNumEvents_def stored_def)
qed

definition balanced :: "HordeInfo \<Rightarrow> ('e, 'b, 'k, 'm) Hordes \<Rightarrow> bool" where
  "balanced info x \<longleftrightarrow> (let a = first_gremlin info; b = last_gremlin info; s = switch_depth info; m = fMaxDepth info;
       n = gCurrentGremlin x; d = gCurrentDepth x
     in a \<le> n \<and> n \<le> b \<and> \<not> halted x n \<and> 0 \<le> d \<and> s * d < m \<and> s * d \<le> EventCounter x \<and> EventLimit x = min (s * (d + 1)) m \<and>
        (\<forall>i\<in>{a..<n}. halted x i \<or> saved_at x i (min (s * (d + 1)) m)) \<and>
        (\<forall>i\<in>{n<..b}. halted x i \<or> d = 0 \<or> saved_at x i (s * d)))"

lemma running_balanced:
  assumes "running (first_gremlin info) (last_gremlin info) (switch_depth info) (fMaxDepth info) H k c x"
    and "switch_depth info + fMaxDepth info + int k < 2 ^ 31"
  shows "balanced info x"
proof -
  let ?a = "first_gremlin info" and ?b = "last_gremlin info" and ?s = "switch_depth info" and ?m = "fMaxDepth info"
  let ?n = "gCurrentGremlin x" and ?d = "gCurrentDepth x"
  note e = gremlin_ok_limits [OF assms]
  have r: "?a \<le> ?n" "?n \<le> ?b" "\<not> halted x ?n" "0 \<le> ?d" "?s * ?d < ?m" "?s * ?d \<le> c" "0 < ?s"
    "others_done ?s ?m H x" "gGremlinStartNumber x = ?a" "gGremlinStopNumber x = ?b"
    using assms(1) by (simp_all add: running_def horde_ok_def)
  have "0 \<le> ?s * ?d" "?m < 2 ^ 31" using r(4,7) assms(2) by simp_all
  then have "halted x i \<or> saved_at x i (deep ?s ?m (?d + 1))" if "i \<in> {?a..<?n}" for i
    using r(8,9) that e(3,4) suspended_saved [of ?m H x i "deep ?s ?m (?d + 1)"] by (auto simp: others_done_def)
  moreover have "halted x i \<or> ?d = 0 \<or> saved_at x i (?s * ?d)" if "i \<in> {?n<..?b}" for i
    using r(5,8,10) that \<open>0 \<le> ?s * ?d\<close> \<open>?m < 2 ^ 31\<close> suspended_saved [of ?m H x i "?s * ?d"] by (auto simp: others_done_def)
  ultimately show ?thesis using r(1-6) e(1,2) by (simp add: balanced_def Let_def deep_def)
qed

text \<open>A horde that has been asked for enough events is off; when it is off, every gremlin has been run.\<close>

lemma horde_off:
  assumes "good a b s m (asked ts) H k x"
    and "(b - a + 1) * ((m + s - 1) div s) * (s + 2) \<le> int (asked ts)"
  shows "\<not> gIsOn x"
proof -
  have False if "running a b s m H k c x" "int (asked ts) \<le> position x * (s + 2) + min (s + 1) (c - s * gCurrentDepth x)" for c
  proof -
    define d D N where "d = gCurrentDepth x" and "D = (m + s - 1) div s" and "N = b - a + 1"
    have r: "0 < s" "s * d < m" "0 < N" "gCurrentGremlin x \<le> b" "gGremlinStartNumber x = a" "gGremlinStopNumber x = b"
      using that(1) by (simp_all add: running_def horde_ok_def d_def N_def)
    have "s * (d + 1) \<le> m + s - 1" using r(2) by (simp add: distrib_left)
    from zdiv_mono1 [OF this r(1)] have "d + 1 \<le> D" using r(1) by (simp add: D_def)
    then have "(d + 1) * N \<le> D * N" using r(3) by (intro mult_right_mono) auto
    moreover have "position x \<le> d * N + (N - 1)" using r(4-6) by (simp add: position_def d_def N_def)
    moreover have "(d + 1) * N = d * N + N" "N * D = D * N" by (simp_all add: distrib_right)
    ultimately have "position x \<le> N * D - 1" by linarith
    then have "position x * (s + 2) \<le> (N * D - 1) * (s + 2)" using r(1) by (intro mult_right_mono) auto
    then have "int (asked ts) < N * D * (s + 2)" using that(2) by (simp add: left_diff_distrib)
    then show False using assms(2) by (simp add: N_def D_def)
  qed
  then show ?thesis using assms(1) by (auto simp: good_def over_def)
qed

section \<open>An example\<close>

text \<open>Gremlins 3 to 5, up to event 50, in turns of 20 events, and a session of a device that counts what is posted.\<close>

definition a_horde :: HordeInfo where
  "a_horde = HordeInfo_new\<lparr>fStartNumber := 5, fStopNumber := 3, fSwitchDepth := 20, fMaxDepth := 50\<rparr>"

definition a_device :: "nat device" where
  "a_device = \<lparr>start_up = (\<lambda>m. 0), launch = (\<lambda>a m. Some m), wake = Some, post = (\<lambda>calls m. m + length calls)\<rparr>"

definition a_session :: "(unit, unit, unit, nat) Hordes" where
  "a_session = \<lparr>fThread = True, fStop = False, fSuspendState = no_counters, fState = kRunning, fBreakOnSysCall = False, fNestLevel = 0,
     fReset = False, fResetBanks = False, fHordeAutoSaveState = False, fHordeSaveRootState = False, fHordeSaveSuspendState = False,
     fHordeLoadRootState = False, fHordeNextGremlinFromRootState = False, fHordeNextGremlinFromSuspendState = False,
     fMinimizeLoadState = False, fDeferredErrs = [], fResetType = kResetSys, fButtonQueue = queue_new 0, fKeyQueue = queue_new 0,
     fPenQueue = queue_new 0, fLastPenEvent = ((- 1, - 1), False), fBootKeys = 0, gTheGremlin = a_gremlin, gGremlinStartNumber = 0,
     gGremlinStopNumber = 0, gSwitchDepth = 0, gMaxDepth = 0, gGremlinSaveFrequency = 0, gGremlinAppList = [], gCurrentGremlin = 0,
     gCurrentDepth = 0, gIsOn = False, gStartTime = 0, gStopTime = 0, gGremlinHaltedInError = [], gWarningHappened = False,
     gErrorHappened = False, gPlayback = playback_new, gMinimizing = False, kPrefKeyGremlinInfo = GremlinInfo_new,
     gHordeQuitWhenDone = False, gQuitScheduled = False, state_files = Map.empty, event_files = Map.empty, progress_file = None,
     report = [], emulated = 0, clock = 1000\<rparr>"

definition other_duties :: "(unit, (unit, unit, unit, nat) Hordes) duty_ops" where
  "other_duties = \<lparr>Do = (\<lambda>e w. (False, w)), Reset = (\<lambda>t w. Some w), ResetBankHandlers = (\<lambda>w. w), Hordes_AutoSaveState = Some,
     Hordes_SaveRootState = Some, Hordes_SaveSuspendedState = Some, Hordes_LoadRootState = (\<lambda>w. Some (True, w)), Hordes_StartFromRoot = Some,
     Hordes_LoadSuspendedState = (\<lambda>w. Some (True, w)), Hordes_StartFromSuspended = Some, Hordes_TurnOff = (\<lambda>w. w),
     RealLoadInitialState = Some\<rparr>"

definition some_turns :: "nat turn list" where
  "some_turns = [AskEvent a_palm, AskPen a_palm, Go 7 2000, AskEvent a_palm, Error 1001, AskEvent a_palm]"

lemma an_example_runs:
  "horde_valid a_horde" "can_start a_session" "dev_ok a_device" "\<forall>t\<in>set some_turns. turn_ok t" "turns_fit a_horde some_turns"
proof -
  have "recorded_up_to 0 playback_new"
    using chunk_new_holds by (simp add: recorded_up_to_def stored_def playback_new_def)
  then show "can_start a_session" by (auto simp: can_start_def a_session_def quiet_def an_example_ok)
  show "horde_valid a_horde" "turns_fit a_horde some_turns"
    by (simp_all add: horde_valid_def turns_fit_def first_gremlin_def last_gremlin_def switch_depth_def a_horde_def HordeInfo_new_def
        NewToOld_def MAXGREMLINS_def some_turns_def)
  show "dev_ok a_device" by (simp add: dev_ok_def a_device_def)
  show "\<forall>t\<in>set some_turns. turn_ok t" by (simp add: some_turns_def turn_ok_def an_example_ok errorBase_def errorLast_def)
qed

section \<open>Properties\<close>

text \<open>
  C6: a horde keeps its gremlins together. Whatever the turns are, events and pens that are asked for
  on devices in order, errors of the table's range and other changes of the system, the horde starts,
  and no turn fails. While it is on, the gremlin that runs is one of the range that has not halted and
  is about to stop at the next multiple of the switching depth; those before it have halted or can be
  loaded where that depth ends, and those after it have halted or can be loaded where it begins.
\<close>

theorem hordes_keep_together:
  assumes "horde_valid info" and "can_start w" and "dev_ok dev" and "\<forall>t\<in>set ts. turn_ok t" and "turns_fit info ts"
  shows "\<exists>w0 x. Hordes_New dev info w = Some w0 \<and> take_turns dev others ts w0 = Some x \<and> (gIsOn x \<longrightarrow> balanced info x)"
proof -
  obtain w0 x where x: "Hordes_New dev info w = Some w0" "take_turns dev others ts w0 = Some x"
    "good (first_gremlin info) (last_gremlin info) (switch_depth info) (fMaxDepth info) (asked ts) (histories dev others ts w0) (length ts) x"
    using horde_runs [OF assms] by blast
  then have "gIsOn x \<longrightarrow> balanced info x" using running_balanced assms(5) by (auto simp: good_def over_def turns_fit_def)
  then show ?thesis using x by blast
qed

theorem hordes_keep_together_witness:
  "\<exists>w0 x. Hordes_New a_device a_horde a_session = Some w0 \<and> take_turns a_device other_duties some_turns w0 = Some x \<and>
    (gIsOn x \<longrightarrow> balanced a_horde x)"
  by (rule hordes_keep_together [OF an_example_runs])

text \<open>Three gremlins, three depths of 20 events: 198 turns are enough.\<close>

abbreviation many_turns :: "nat turn list" where
  "many_turns \<equiv> replicate 198 (AskEvent a_palm)"

lemma many_turns_ok: "\<forall>t\<in>set many_turns. turn_ok t" "turns_fit a_horde many_turns"
    "(last_gremlin a_horde - first_gremlin a_horde + 1) *
      ((fMaxDepth a_horde + switch_depth a_horde - 1) div switch_depth a_horde) * (switch_depth a_horde + 2) \<le> int (asked many_turns)"
proof -
  show "\<forall>t\<in>set many_turns. turn_ok t" by (simp add: turn_ok_def an_example_ok)
  show "turns_fit a_horde many_turns"
    by (simp add: turns_fit_def switch_depth_def a_horde_def HordeInfo_new_def NewToOld_def)
  have a: "int (asked many_turns) = 198" by (simp add: asked_def asks_def)
  show "(last_gremlin a_horde - first_gremlin a_horde + 1) *
      ((fMaxDepth a_horde + switch_depth a_horde - 1) div switch_depth a_horde) * (switch_depth a_horde + 2) \<le> int (asked many_turns)"
    unfolding a by (simp add: first_gremlin_def last_gremlin_def switch_depth_def a_horde_def HordeInfo_new_def NewToOld_def)
qed

lemma many_turns_end:
  "Hordes_New a_device a_horde a_session = Some w0 \<Longrightarrow> take_turns a_device other_duties many_turns w0 = Some x \<Longrightarrow> \<not> gIsOn x"
  using horde_runs [OF an_example_runs(1-3) many_turns_ok(1,2), of other_duties] horde_off [OF _ many_turns_ok(3)] by auto

text \<open>
  C22: when a horde is over, every gremlin has been run: it has halted in an error, or its files can be
  loaded, say that it has come to the last event, and give back its history, which is the list of the
  events that it made in all the turns in which it was the gremlin that ran, in their order.
\<close>

theorem hordes_run_every_gremlin:
  assumes "horde_valid info" and "can_start w" and "dev_ok dev" and "\<forall>t\<in>set ts. turn_ok t" and "turns_fit info ts"
  shows "\<exists>w0 x. Hordes_New dev info w = Some w0 \<and> take_turns dev others ts w0 = Some x \<and>
    (\<not> gIsOn x \<longrightarrow> (\<forall>n\<in>{first_gremlin info..last_gremlin info}.
       halted x n \<or> saved_at x n (fMaxDepth info) \<and> saved_history x n (histories dev others ts w0 n)))"
proof -
  obtain w0 x where x: "Hordes_New dev info w = Some w0" "take_turns dev others ts w0 = Some x"
    "good (first_gremlin info) (last_gremlin info) (switch_depth info) (fMaxDepth info) (asked ts) (histories dev others ts w0) (length ts) x"
    using horde_runs [OF assms] by blast
  have m: "0 \<le> fMaxDepth info" "fMaxDepth info < 2 ^ 31" using assms(1,5) by (auto simp: horde_valid_def turns_fit_def)
  have "over (first_gremlin info) (last_gremlin info) (fMaxDepth info) (histories dev others ts w0) x" if "\<not> gIsOn x"
    using x(3) that by (auto simp: good_def running_def)
  then show ?thesis using x(1,2) suspended_saved [OF _ m] suspended_history_saved unfolding over_def by blast
qed

text \<open>The example has ended after 198 turns, so the gremlins 3 to 5 have all been run.\<close>

theorem hordes_run_every_gremlin_witness:
  "\<exists>w0 x. Hordes_New a_device a_horde a_session = Some w0 \<and> take_turns a_device other_duties many_turns w0 = Some x \<and>
    \<not> gIsOn x \<and> (\<forall>n\<in>{3..5}. halted x n \<or> saved_at x n 50 \<and> saved_history x n (histories a_device other_duties many_turns w0 n))"
proof -
  have "first_gremlin a_horde = 3" "last_gremlin a_horde = 5" "fMaxDepth a_horde = 50"
    by (simp_all add: first_gremlin_def last_gremlin_def a_horde_def)
  then show ?thesis
    using hordes_run_every_gremlin [OF an_example_runs(1-3) many_turns_ok(1,2), of other_duties] many_turns_end by fastforce
qed

text \<open>
  C23: a horde ends. Every depth takes a gremlin no more events that are asked for, or errors, than
  the switching depth and two; when there have been as many for every gremlin and every depth up to
  the last event, the horde is off.
\<close>

theorem hordes_end:
  assumes "horde_valid info" and "can_start w" and "dev_ok dev" and "\<forall>t\<in>set ts. turn_ok t" and "turns_fit info ts"
    and "(last_gremlin info - first_gremlin info + 1) * ((fMaxDepth info + switch_depth info - 1) div switch_depth info) *
      (switch_depth info + 2) \<le> int (asked ts)"
  shows "\<exists>w0 x. Hordes_New dev info w = Some w0 \<and> take_turns dev others ts w0 = Some x \<and> \<not> gIsOn x"
  using horde_runs [OF assms(1-5), of others] horde_off [OF _ assms(6)] by blast

theorem hordes_end_witness:
  "\<exists>w0 x. Hordes_New a_device a_horde a_session = Some w0 \<and> take_turns a_device other_duties many_turns w0 = Some x \<and> \<not> gIsOn x"
  by (rule hordes_end [OF an_example_runs(1-3) many_turns_ok])

end
