(* ===== verification/HordeErrors.thy ===== *)
theory HordeErrors
  imports HordeFiles
begin

text \<open>Where hordes fail: the flags of the last gremlin, the report, the statistics, and a loop without an end.\<close>

section \<open>The flags\<close>

text \<open>The flags come back from their string, but for that of the last gremlin.\<close>

lemma flags_round_trip:
  assumes "length hs = nat (MAXGREMLINS + 1)" and "length gs = nat (MAXGREMLINS + 1)"
  shows "\<exists>s r. GremlinsFlagsToString hs = Some s \<and> GremlinsFlagsFromString s gs = Some r \<and>
    (\<forall>n < nat MAXGREMLINS. fHalted (r ! n) = fHalted (hs ! n)) \<and> r ! nat MAXGREMLINS = gs ! nat MAXGREMLINS"
proof -
  let ?s = "map (\<lambda>i. if fHalted i then CHR ''1'' else CHR ''0'') (take (nat MAXGREMLINS) hs)"
  let ?r = "map (\<lambda>ii. if ii < nat MAXGREMLINS then (gs ! ii)\<lparr>fHalted := ii < length ?s \<and> ?s ! ii = CHR ''1''\<rparr> else gs ! ii) [0..<length gs]"
  have l: "nat MAXGREMLINS < length hs" "nat MAXGREMLINS < length gs" using assms by (simp_all add: MAXGREMLINS_def)
  then have "GremlinsFlagsToString hs = Some ?s" "GremlinsFlagsFromString ?s gs = Some ?r"
    by (simp_all only: GremlinsFlagsToString_def GremlinsFlagsFromString_def) simp_all
  moreover have "fHalted (?r ! n) = fHalted (hs ! n)" if "n < nat MAXGREMLINS" for n using that l by simp
  moreover have "?r ! nat MAXGREMLINS = gs ! nat MAXGREMLINS" using l by simp
  ultimately show ?thesis by blast
qed

section \<open>The report and the statistics\<close>

text \<open>A gremlin that has halted without the number of a message is counted outside of the table.\<close>

lemma report_outside:
  assumes "peek hs c = Some i" and "fHalted i" and "fMessageID i = - 1"
  shows "report_loop hs (c # cs) (arr, n, f) = None"
  using assms by (simp add: peek_def errorBase_def Let_def)

lemma GremlinReport_outside:
  assumes "gGremlinStartNumber w \<le> gGremlinStopNumber w" and "0 \<le> gGremlinStartNumber w" and "gGremlinStartNumber w \<le> MAXGREMLINS"
    and "length (gGremlinHaltedInError w) = nat (MAXGREMLINS + 1)"
    and "halted w (gGremlinStartNumber w)" and "fMessageID (gGremlinHaltedInError w ! nat (gGremlinStartNumber w)) = - 1"
  shows "GremlinReport w = None"
proof -
  have "[gGremlinStartNumber w..gGremlinStopNumber w] = gGremlinStartNumber w # [gGremlinStartNumber w + 1..gGremlinStopNumber w]"
    using assms(1) by (subst upto.simps) simp
  then show ?thesis using assms report_outside [OF peek_halt [OF assms(4,2,3)] assms(5,6)] by (simp add: GremlinReport_def)
qed

text \<open>Two gremlins, with errors at their first and at their eighty-thousandth event: the sum of the squares overflows.\<close>

lemma deviation_overflows:
  "deviation_loop [\<lparr>fHalted = True, fErrorEvent = 1, fMessageID = 1000\<rparr>, \<lparr>fHalted = True, fErrorEvent = 80001, fMessageID = 1000\<rparr>] 40001 [0, 1] 0 =
    Some (- 1094967296)"
  by (simp add: peek_def c_int_def Let_def signed_take_bit_int_eq_self_iff)

section \<open>A loop without an end\<close>

text \<open>
  A gremlin that was stepped when there is no last event has the depth -1, which does not grow; when it
  has halted, the search for the next one does not return.
\<close>

lemma no_next_gremlin:
  assumes "next_gremlin_loop w g d = Some r"
  shows "gGremlinStartNumber w = gCurrentGremlin w \<and> gGremlinStopNumber w = gCurrentGremlin w \<and> gCurrentDepth w = - 1 \<and>
    halted w (gCurrentGremlin w) \<longrightarrow> \<not> (g = gCurrentGremlin w \<and> d = - 1)"
  using assms
proof (induction w g d r rule: next_gremlin_loop.raw_induct [rotated, consumes 1, case_names step])
  case (step loop w g d r)
  then show ?case by (auto simp: peek_def ProposeNextGremlin_def split: if_splits)
qed

lemma NextGremlin_hangs:
  assumes "gGremlinStartNumber w = gCurrentGremlin w" and "gGremlinStopNumber w = gCurrentGremlin w"
    and "gCurrentDepth w = - 1" and "halted w (gCurrentGremlin w)"
  shows "next_gremlin_loop w (gCurrentGremlin w) (- 1) = None"
  using no_next_gremlin [of w "gCurrentGremlin w" "- 1"] assms by (cases "next_gremlin_loop w (gCurrentGremlin w) (- 1)") auto

end
