(* ===== verification/Spec2Isabelle.thy ===== *)
theory Spec2Isabelle
  imports RegionResults MappedProps Crc RamResults Misc PackedChunks UART SessionResults PlaybackResults MinimizeResults
  GremlinEvents GremlinFileProps HordeResults HordeErrors
begin

text \<open>
  A verification of core parts of the Palm OS Emulator (\<open>src/SrcShared\<close>), a program that runs the
  ROM of a Palm device on an emulated 68K processor. The processor's instructions (generated from UAE)
  run against banks of memory, which check what the emulated software does; hardware registers drive
  devices such as the UART; the drawing code works on regions; and the state of a session is kept in
  a file of packed chunks. The theories follow this structure.

  \<^bold>\<open>Geometry and regions.\<close> \<open>Prelude\<close> holds what all share (checked integers, reading of
  buffers). \<open>Geometry\<close> models points and rectangles (\<open>EmPoint\<close>, \<open>EmRect\<close>), \<open>Region\<close> the
  regions (\<open>EmRegion.cpp\<close>): a region is the buffer of scanlines of the code, every access to a
  buffer goes through \<open>peek\<close>, and reading outside is \<open>None\<close>, as is a sum of \<open>Inset\<close> that does
  not fit 32 bits (the length of \<open>RegionOp\<close>'s buffer, a product of two lengths, is unbounded). Loops take fuel, and the
  fuel is a number of steps that the length of the input gives. \<open>RegionLines\<close> describes the
  contents of a buffer, \<open>RegionMerge\<close> the merge of two scanlines, \<open>RegionRefine\<close> shows that
  the loops of \<open>RegionOp\<close> compute that merge and stay within buffer and fuel, \<open>RegionSpec\<close> and
  \<open>RegionProps\<close> say what the operations mean for the points of regions. \<open>RefCounted\<close> models
  \<open>EmRefCounted.h\<close> over an explicit store of counted objects, \<open>RegionHandles\<close> the class
  \<open>EmRegion\<close> as a handle to a shared implementation, and refines programs over such handles to
  programs over sets of points. \<open>RegionResults\<close> states the properties C1 to C11.

  \<^bold>\<open>Memory.\<close> \<open>HostMem\<close> models the host's buffers, which hold the emulated memory in words
  swapped for a little-endian host (\<open>EmMemory.h\<close>); \<open>Machine\<close> the state of the memory system;
  \<open>MetaMem\<close> the bits that say who may access a byte (\<open>MetaMemory.cpp\<close>); \<open>BankRAM\<close>,
  \<open>BankROM\<close> and \<open>BankMapped\<close> the banks (\<open>EmBankSRAM.cpp\<close>, \<open>EmBankDRAM.cpp\<close>,
  \<open>EmBankDummy.cpp\<close>, \<open>EmBankROM.cpp\<close>, \<open>EmBankMapped.cpp\<close>), with the checks each access
  makes; \<open>Crc\<close> the checksum of ROM images; \<open>Dispatch\<close> the table of banks, the flash chip's
  commands and the life cycle (\<open>EmMemory.cpp\<close>); \<open>MemString\<close> the functions on blocks and
  strings of emulated memory. An access yields a value or an exception with the new state, in which
  deferred errors are recorded as events. \<open>MappedProps\<close> proves C14 to C16 about mapped ranges,
  \<open>Crc\<close> C13. \<open>ByteSpace\<close> holds the locale of a space of bytes: reading and writing bytes,
  words and longs, and the block functions over any memory with these laws; \<open>SramProps\<close>
  interprets it on RAM banks as dispatched, and \<open>RamResults\<close> states C17 to C21.

  \<^bold>\<open>Packing, streams and files.\<close> \<open>RunLength\<close> models the run-length packing of
  \<open>Miscellaneous.cpp\<close> (C25), \<open>Misc\<close> further functions of that file (C27). \<open>Streams\<close>
  models \<open>EmStream.cpp\<close> and the chunks of \<open>ChunkFile.cpp\<close>, with the locales of a stream
  that can be read and of one that can be written, \<open>ChunkFile\<close> the files of tagged chunks over any
  such stream (C28, C29), \<open>PackedChunks\<close> the packed chunks of \<open>SessionFile.cpp\<close> (C30), for images that are
  not packed or packed by run lengths; of gzip, the third kind, nothing is claimed.

  \<^bold>\<open>Devices.\<close> \<open>UART\<close> models \<open>EmUARTDragonball.cpp\<close> and its queues
  (\<open>EmThreadSafeQueue.cpp\<close>), with any transport of the host (C31, C32).

  \<^bold>\<open>Sessions.\<close> \<open>Session\<close> models \<open>EmSession.cpp\<close>: the counters that say who has suspended
  the session, the requests that change them, calls of subroutines of the emulated system, resets, the
  actions at the end of a cycle and the queues of events (over the queues of \<open>Queues\<close>).
  \<open>SessionThreads\<close> lets the thread of the processor (\<open>Run\<close>) and that of the user interface
  (\<open>EmSessionStopper\<close>) take turns: a step is a critical section under \<open>fSharedLock\<close>, and a
  thread that waits for \<open>fSharedCondition\<close> goes on when it was woken. \<open>SessionInv\<close> proves an
  invariant of all interleavings, \<open>SessionResults\<close> states C33 to C35.

  \<^bold>\<open>Recorded events.\<close> \<open>StreamValues\<close> models the operators of \<open>EmStream.cpp\<close> that put
  numbers and strings on a stream, \<open>EventPlayback\<close> the events that gremlins post, as
  \<open>EmEventPlayback.cpp\<close> records, masks, culls, replays, saves and loads them: the list of events is
  the chunk of bytes of the code. \<open>PlaybackProps\<close> says which bytes an event is, \<open>Replay\<close>
  describes replaying on lists of events, \<open>PlaybackResults\<close> states C36 and C37. \<open>Minimize\<close>
  models \<open>EmMinimize.cpp\<close>, which looks for few events that still lead to an error, and
  \<open>MinimizeRuns\<close> the replays that it waits for, with the emulated system as a parameter.
  \<open>MinimizeInv\<close> states an invariant of its ranges and masks, \<open>MinimizeSteps\<close> and
  \<open>MinimizeEnds\<close> show that its decisions keep it and use up a bound of the replays that are left,
  and \<open>MinimizeResults\<close> concludes that it ends, that what it finds still leads to the error, and
  that each of these events is needed (C38 to C40).

  \<^bold>\<open>Gremlins.\<close> \<open>Gremlins\<close> models \<open>CGremlins.cpp\<close>, the source of the random events that
  are recorded: its random numbers, the choice of keys, points, quotations (\<open>GremlinQuotes\<close>) and
  applications, and what is recorded and posted for each. The answers of the emulated system (its
  fields, windows, buttons and text functions) are a record of parameters. \<open>GremlinProps\<close> shows that
  points stay on the device, \<open>GremlinEvents\<close> that a gremlin can always go on and that replaying what
  it has recorded does what it has done (C24, C26). \<open>GremlinFiles\<close> models the chunk of a gremlin in a
  session file, \<open>GremlinFileProps\<close> its round trip (C12).

  \<^bold>\<open>Hordes.\<close> \<open>Hordes\<close> models \<open>Hordes.cpp\<close>, which runs a range of gremlins in turns of some
  events: the globals of the file extend the state of a session, the emulated device is a value that
  is saved and loaded with it, and a turn of the processor (an event or the pen asked for, an error,
  or any other change of the device) is followed by the end of the cycle of \<open>Session\<close>, which saves
  and loads states. \<open>HordeFiles\<close> has what gremlins and files keep and the search for the next gremlin,
  \<open>HordeInv\<close> the invariant, \<open>HordeSteps\<close> and \<open>HordeTurns\<close> the duties at the end of a cycle and the
  way to the next gremlin, \<open>HordeRuns\<close> the turns. \<open>HordeResults\<close> shows that no turn fails and the
  gremlins stay together, that each is run to its last event or to an error, its event file holding
  all the events that it made, and that a horde ends (C6, C22, C23); \<open>HordeErrors\<close> where the code goes wrong. The hypotheses: the device's calls do not
  throw, its answers are in order, errors have the numbers of the table, and counts stay below the
  integers of 32 bits. The log, the directories and the English names of errors are left out.

  \<^bold>\<open>Conventions.\<close> Integers of the code are words of their width where they wrap, and integers or
  naturals where the code cannot leave their range or the model returns \<open>None\<close> when it does.
  An access outside of a buffer of the host, a failing assertion and a division by zero are results of
  their own (\<open>None\<close>, \<open>HostFault\<close> or \<open>HostError\<close>). A loop that may not return is a
  \<open>partial_function\<close>, with \<open>None\<close> for not returning.

  \<^bold>\<open>Not modelled.\<close> The instructions of the 68K processor (generated by UAE) and third-party
  code (jpeg, gzip, omnithread); windows, dialogs, menus, skins and the host's files and sockets; the
  registers of the processors and display controllers; the patches of system functions and the
  calls back into the ROM, which need the processor. What the modelled code uses of them is a parameter.
\<close>

end
